(* ===== verification/Crm_Prelude.thy ===== *)
theory Crm_Prelude
  imports Main "HOL-Library.Monad_Syntax"
begin

text \<open>
  Shared vocabulary of the development.

  A call of the C program either returns or does not: a failed \<open>ASSERT\<close> or \<open>DASSERT\<close>
  calls \<open>abort()\<close> (inc/utils/common.h), a blocking read may never be served, and a few loops
  may spin for ever. Operations are therefore functions into \<open>'a option\<close>, where \<open>None\<close>
  means that the call does not return normally, and the option monad of
  \<open>HOL-Library.Monad_Syntax\<close> sequences them the way the C statements are sequenced. An access
  outside an array, undefined behaviour in C, is \<open>None\<close> as well, so that a theorem that an
  operation returns \<open>Some\<close> also shows that its accesses are in bounds.
\<close>

named_theorems crm_defs "definitions of the modelled operations, unfolded by the component proofs"
named_theorems list_eval "evaluation of list operations at numerals"

definition ASSERT :: "bool \<Rightarrow> unit option" where
  "ASSERT b = (if b then Some () else None)"

lemma ASSERT_True [simp]: "ASSERT True = Some ()"
  by (simp add: ASSERT_def)

lemma ASSERT_False [simp]: "ASSERT False = None"
  by (simp add: ASSERT_def)

lemma ASSERT_eq_Some [simp]: "(ASSERT b = Some u) = b"
  by (simp add: ASSERT_def)

lemma ASSERT_eq_None [simp]: "(ASSERT b = None) = (\<not> b)"
  by (simp add: ASSERT_def)

lemma bind_ASSERT [simp]: "Option.bind (ASSERT b) f = (if b then f () else None)"
  by (simp add: ASSERT_def)

lemma bind_Some_iff: "(Option.bind m f = Some y) = (\<exists>x. m = Some x \<and> f x = Some y)"
  by (cases m) auto

lemma bind_Some_E:
  assumes "Option.bind m f = Some y"
  obtains x where "m = Some x" and "f x = Some y"
  using assms by (cases m) auto

lemma case_option_Some_iff:
  "((case m of None \<Rightarrow> None | Some x \<Rightarrow> f x) = Some y) = (\<exists>x. m = Some x \<and> f x = Some y)"
  by (cases m) auto

lemma if_None_Some [simp]:
  "((if b then x else None) = Some y) = (b \<and> x = Some y)"
  "((if b then None else x) = Some y) = (\<not> b \<and> x = Some y)"
  by auto

text \<open>An array read: \<open>None\<close> outside the bounds.\<close>

definition array_get :: "'a list \<Rightarrow> int \<Rightarrow> 'a option" where
  "array_get xs i = (if 0 \<le> i \<and> nat i < length xs then Some (xs ! nat i) else None)"

text \<open>An array write: \<open>None\<close> outside the bounds.\<close>

definition array_set :: "'a list \<Rightarrow> int \<Rightarrow> 'a \<Rightarrow> 'a list option" where
  "array_set xs i v = (if 0 \<le> i \<and> nat i < length xs then Some (xs[nat i := v]) else None)"

lemma array_get_SomeD: "array_get xs i = Some v \<Longrightarrow> 0 \<le> i \<and> nat i < length xs \<and> v = xs ! nat i"
  by (auto simp: array_get_def split: if_splits)

lemma array_set_SomeD:
  "array_set xs i v = Some ys \<Longrightarrow> 0 \<le> i \<and> nat i < length xs \<and> ys = xs[nat i := v]"
  by (auto simp: array_set_def split: if_splits)

lemma array_get_set:
  "array_set xs i v = Some ys \<Longrightarrow> array_get ys j = (if j = i then Some v else array_get xs j)"
  by (auto simp: array_get_def array_set_def nth_list_update split: if_splits)

lemma array_get_of_nat [simp]: "n < length xs \<Longrightarrow> array_get xs (int n) = Some (xs ! n)"
  by (simp add: array_get_def)

text \<open>Small ranges of integers, as the enumerations of C use them.\<close>

lemma int_range_Suc:
  "(0 \<le> (s::int) \<and> s < int (Suc n)) = (s = int n \<or> (0 \<le> s \<and> s < int n))"
  by auto

lemma int_range_elems:
  "0 \<le> (s::int) \<Longrightarrow> s < int n \<Longrightarrow> s \<in> int ` {0..<n}"
  by (metis atLeastLessThan_iff image_eqI int_eq_iff nat_less_iff zero_le)

text \<open>Counting the elements of a list with a property, for the bookkeeping counters of the code.\<close>

abbreviation countp :: "('a \<Rightarrow> bool) \<Rightarrow> 'a list \<Rightarrow> nat" where
  "countp P xs \<equiv> length (filter P xs)"

lemma countp_update:
  assumes "i < length xs"
  shows "countp P (xs[i := v]) + (if P (xs ! i) then 1 else 0) = countp P xs + (if P v then 1 else 0)"
  using assms
proof (induction xs arbitrary: i)
  case Nil
  then show ?case by simp
next
  case (Cons x xs)
  then show ?case by (cases i) auto
qed

lemma countp_update_same:
  "i < length xs \<Longrightarrow> P v = P (xs ! i) \<Longrightarrow> countp P (xs[i := v]) = countp P xs"
  using countp_update [of i xs P v] by (auto split: if_splits)

lemma countp_pos: "i < length xs \<Longrightarrow> P (xs ! i) \<Longrightarrow> 0 < countp P xs"
  by (metis filter_empty_conv length_greater_0_conv nth_mem)

text \<open>Lists of a fixed length, at the indices of C.\<close>

lemma replicate_numeral [list_eval]:
  "replicate (numeral k) x = x # replicate (pred_numeral k) x"
  by (simp add: numeral_eq_Suc)

lemma list_update_numeral [list_eval]:
  "(x # xs)[numeral k := v] = x # xs[pred_numeral k := v]"
  by (simp add: numeral_eq_Suc)

lemma nonneg_update:
  assumes "\<forall>n \<in> set xs. 0 \<le> (n::int)" "0 \<le> v"
  shows "\<forall>n \<in> set (xs[i := v]). 0 \<le> n"
  using assms set_update_subset_insert [of xs i v] by auto

lemma nonneg_nth: "\<forall>n \<in> set xs. 0 \<le> (n::int) \<Longrightarrow> i < length xs \<Longrightarrow> 0 \<le> xs ! i"
  by (simp add: nth_mem)

end
