(* ===== verification/Crm_Time.thy ===== *)
theory Crm_Time
  imports Crm_Prelude "HOL-Library.Signed_Division"
begin

text \<open>
  libs/utils/src/time.c: the deadlines every timer of the program uses. The clock
  (\<open>clock_gettime(CLOCK_BOOTTIME, ..)\<close>) is an argument of the operations. C's \<open>/\<close> and
  \<open>%\<close> truncate towards zero: \<open>sdiv\<close> and \<open>smod\<close>.
\<close>

record timespec =
  tv_sec :: int
  tv_nsec :: int

definition crm_time_add_ms :: "timespec \<Rightarrow> int \<Rightarrow> timespec" where
  "crm_time_add_ms now ms =
     (let sec = tv_sec now + ms sdiv 1000;
          nsec = tv_nsec now + (ms smod 1000) * 1000000
      in if nsec > 1000000000
         then \<lparr>tv_sec = sec + 1, tv_nsec = nsec - 1000000000\<rparr>
         else \<lparr>tv_sec = sec, tv_nsec = nsec\<rparr>)"

definition crm_time_get_remain_ms :: "timespec \<Rightarrow> timespec \<Rightarrow> int" where
  "crm_time_get_remain_ms current timer_end =
     (if tv_sec current > tv_sec timer_end \<or>
         (tv_sec current = tv_sec timer_end \<and> tv_nsec current > tv_nsec timer_end)
      then 0
      else (tv_sec timer_end - tv_sec current) * 1000 +
           (tv_nsec timer_end - tv_nsec current) sdiv 1000000)"

text \<open>The instant a time stamp stands for, and what the kernel's clock guarantees.\<close>

definition ts_ns :: "timespec \<Rightarrow> int" where
  "ts_ns t = tv_sec t * 1000000000 + tv_nsec t"

definition ts_ok :: "timespec \<Rightarrow> bool" where
  "ts_ok t \<longleftrightarrow> 0 \<le> tv_nsec t \<and> tv_nsec t < 1000000000"

lemma sdiv_smod_1000: "(ms::int) sdiv 1000 * 1000 + ms smod 1000 = ms"
  by (simp add: sdiv_mult_smod_eq)

lemma smod_bound_1000: "0 \<le> ms \<Longrightarrow> 0 \<le> (ms::int) smod 1000 \<and> ms smod 1000 < 1000"
  by (cases "ms = 0") (simp_all add: signed_modulo_int_def signed_divide_int_def minus_div_mult_eq_mod)

lemma ts_ns_add_ms: "ts_ns (crm_time_add_ms now ms) = ts_ns now + ms * 1000000"
  using sdiv_smod_1000 [of ms]
  by (simp add: crm_time_add_ms_def ts_ns_def Let_def)

lemma crm_time_add_ms_nsec:
  assumes "ts_ok now" "0 \<le> ms"
  shows "0 \<le> tv_nsec (crm_time_add_ms now ms) \<and> tv_nsec (crm_time_add_ms now ms) \<le> 1000000000"
  using assms smod_bound_1000 [of ms]
  by (auto simp: crm_time_add_ms_def ts_ok_def Let_def)

lemma crm_time_add_ms_sec:
  assumes "0 \<le> ms"
  shows "tv_sec now \<le> tv_sec (crm_time_add_ms now ms)"
proof -
  have "0 \<le> ms sdiv 1000"
    using assms by (cases "ms = 0") (simp_all add: signed_divide_int_def)
  then show ?thesis by (simp add: crm_time_add_ms_def Let_def)
qed

lemma sdiv_million_bounds:
  "(x::int) - 1000000 < x sdiv 1000000 * 1000000 \<and> x sdiv 1000000 * 1000000 < x + 1000000"
proof (cases "0 \<le> x")
  case True
  then have "x sdiv 1000000 = x div 1000000"
    by (cases "x = 0") (simp_all add: signed_divide_int_def)
  then show ?thesis by linarith
next
  case False
  then have "x sdiv 1000000 = - (- x div 1000000)" by (simp add: signed_divide_int_def)
  then show ?thesis by linarith
qed

lemma nonzero_mult_sdiv_cancel_million: "(x::int) * 1000000 sdiv 1000000 = x"
  by (simp add: signed_divide_int_def abs_mult sgn_mult mult_sgn_abs)

section \<open>Properties\<close>

text \<open>
  A timer armed for \<open>ms\<close> milliseconds has exactly \<open>ms\<close> milliseconds left when it is read at
  the instant it was armed: the split into seconds and nanoseconds and its carry lose nothing.
\<close>

theorem crm_time_deadline_exact:
  assumes "ts_ok now" "0 \<le> ms"
  shows "crm_time_get_remain_ms now (crm_time_add_ms now ms) = ms"
proof -
  let ?e = "crm_time_add_ms now ms"
  have d: "(tv_sec ?e - tv_sec now) * 1000000000 + (tv_nsec ?e - tv_nsec now) = ms * 1000000"
    using ts_ns_add_ms [of now ms] by (simp add: ts_ns_def algebra_simps)
  then have "tv_nsec ?e - tv_nsec now = (ms - (tv_sec ?e - tv_sec now) * 1000) * 1000000"
    by (simp add: algebra_simps)
  then have q: "(tv_nsec ?e - tv_nsec now) sdiv 1000000 = ms - (tv_sec ?e - tv_sec now) * 1000"
    by (metis nonzero_mult_sdiv_cancel_million)
  have "\<not> (tv_sec now > tv_sec ?e \<or> (tv_sec now = tv_sec ?e \<and> tv_nsec now > tv_nsec ?e))"
    using d assms crm_time_add_ms_sec [OF assms(2), of now] by (auto simp: ts_ok_def)
  then have "crm_time_get_remain_ms now ?e =
      (tv_sec ?e - tv_sec now) * 1000 + (tv_nsec ?e - tv_nsec now) sdiv 1000000"
    unfolding crm_time_get_remain_ms_def by (simp only: if_False)
  with q show ?thesis by simp
qed

theorem crm_time_deadline_exact_witness:
  "crm_time_get_remain_ms \<lparr>tv_sec = 10, tv_nsec = 999000000\<rparr>
     (crm_time_add_ms \<lparr>tv_sec = 10, tv_nsec = 999000000\<rparr> 1500) = 1500"
  using crm_time_deadline_exact [of "\<lparr>tv_sec = 10, tv_nsec = 999000000\<rparr>" 1500]
  by (simp add: ts_ok_def)

text \<open>
  At any later instant before the deadline the remaining time is within one millisecond of
  the true distance, and once the deadline has passed it is zero: a poll that waits for the
  remaining time neither oversleeps by a millisecond or more nor waits for ever.
\<close>

theorem crm_time_remain_bounds:
  assumes "ts_ok current" "ts_ok now" "0 \<le> ms"
  defines "d \<equiv> ts_ns now + ms * 1000000 - ts_ns current"
    and "r \<equiv> crm_time_get_remain_ms current (crm_time_add_ms now ms)"
  shows "(d < 0 \<longrightarrow> r = 0) \<and> (0 \<le> d \<longrightarrow> \<bar>d - r * 1000000\<bar> < 1000000)"
proof -
  let ?e = "crm_time_add_ms now ms"
  have e: "ts_ns ?e - ts_ns current = d" by (simp add: d_def ts_ns_add_ms)
  then have dd: "(tv_sec ?e - tv_sec current) * 1000000000 + (tv_nsec ?e - tv_nsec current) = d"
    by (simp add: ts_ns_def algebra_simps)
  have n: "0 \<le> tv_nsec ?e" "tv_nsec ?e \<le> 1000000000" "0 \<le> tv_nsec current" "tv_nsec current < 1000000000"
    using crm_time_add_ms_nsec [OF assms(2,3)] assms(1) by (auto simp: ts_ok_def)
  show ?thesis
  proof (cases "tv_sec current > tv_sec ?e \<or> (tv_sec current = tv_sec ?e \<and> tv_nsec current > tv_nsec ?e)")
    case True
    then have "r = 0" "d \<le> 0" using dd n by (auto simp: r_def crm_time_get_remain_ms_def)
    then show ?thesis by auto
  next
    case False
    then have "r = (tv_sec ?e - tv_sec current) * 1000 + (tv_nsec ?e - tv_nsec current) sdiv 1000000"
      unfolding r_def crm_time_get_remain_ms_def by (simp only: if_False)
    then have r: "r * 1000000 = (tv_sec ?e - tv_sec current) * 1000000000 +
        (tv_nsec ?e - tv_nsec current) sdiv 1000000 * 1000000"
      by (simp add: algebra_simps)
    have "0 \<le> d" using False dd n by auto
    moreover have "\<bar>d - r * 1000000\<bar> < 1000000"
      unfolding r using dd sdiv_million_bounds [of "tv_nsec ?e - tv_nsec current"] by linarith
    ultimately show ?thesis by simp
  qed
qed

theorem crm_time_remain_bounds_witness:
  "crm_time_get_remain_ms \<lparr>tv_sec = 12, tv_nsec = 5\<rparr>
     (crm_time_add_ms \<lparr>tv_sec = 10, tv_nsec = 0\<rparr> 1500) = 0"
  using crm_time_remain_bounds
    [of "\<lparr>tv_sec = 12, tv_nsec = 5\<rparr>" "\<lparr>tv_sec = 10, tv_nsec = 0\<rparr>" 1500]
  by (simp add: ts_ok_def ts_ns_def)

end
