(* ===== verification/Crm_Ipc.thy ===== *)
theory Crm_Ipc
  imports Crm_Prelude "HOL-Library.Word"
begin

text \<open>
  libs/utils/src/ipc.c and libs/utils/src/thread.c: the message pipes between the threads and
  the processes of the program.

  The thread variant keeps the messages in an array of eight slots and one byte per message in a
  kernel pipe, whose reading end the receiver polls. The kernel pipe is the list of the bytes
  written and not yet read; a read of more bytes than it holds does not return (\<open>None\<close>). The
  pipe of Linux holds 64 kB; \<open>ipc_inv\<close> shows that the thread variant never has more than eight
  bytes in it, so that a write of it never blocks. The mutexes make every operation atomic.

  The interface \<open>bounded_fifo\<close> is what the clients of the pipe rely on; the thread variant is
  an instance of it.
\<close>

unbundle bit_operations_syntax

section \<open>Messages and contexts\<close>

record 'd crm_ipc_msg =
  scalar :: "64 word"
  data_size :: "64 word"
  data :: 'd

abbreviation (input) MSG_QUEUE_SIZE :: int where "MSG_QUEUE_SIZE \<equiv> 8"

record 'm crm_ipc_ctx =
  r_fd :: int
  w_fd :: int
  msg_queue :: "'m list"
  num_msgs_in_queue :: int
  msg_r_idx :: int
  msg_w_idx :: int
  pipe :: "8 word list"

section \<open>The thread variant\<close>

text \<open>\<open>zero\<close> is the zeroed message of \<open>calloc\<close>, \<open>pipes\<close> the two descriptors of \<open>pipe()\<close>.\<close>

definition crm_ipc_init :: "'m \<Rightarrow> int \<times> int \<Rightarrow> 'm crm_ipc_ctx" where
  "crm_ipc_init zero pipes =
     \<lparr>r_fd = fst pipes, w_fd = snd pipes, msg_queue = replicate (nat MSG_QUEUE_SIZE) zero,
      num_msgs_in_queue = 0, msg_r_idx = 0, msg_w_idx = 0, pipe = []\<rparr>"

definition read_byte :: "'m crm_ipc_ctx \<Rightarrow> (8 word \<times> 'm crm_ipc_ctx) option" where
  "read_byte c = (case pipe c of [] \<Rightarrow> None | b # bs \<Rightarrow> Some (b, c\<lparr>pipe := bs\<rparr>))"

text \<open>The result is the message read, or \<open>None\<close> where the C function returns \<open>false\<close>.\<close>

definition get_msg_thread :: "'m crm_ipc_ctx \<Rightarrow> ('m option \<times> 'm crm_ipc_ctx) option" where
  "get_msg_thread c =
     (if num_msgs_in_queue c > 0 \<and> r_fd c \<noteq> -1
      then do {
        msg \<leftarrow> array_get (msg_queue c) (msg_r_idx c);
        (dummy, c) \<leftarrow> read_byte c;
        let c = c\<lparr>num_msgs_in_queue := num_msgs_in_queue c - 1, msg_r_idx := msg_r_idx c + 1\<rparr>;
        let c = (if msg_r_idx c = MSG_QUEUE_SIZE then c\<lparr>msg_r_idx := 0\<rparr> else c);
        Some (Some msg, c)
      }
      else Some (None, c))"

text \<open>\<open>dummy\<close> is the static byte of the C function; the result carries its next value.\<close>

definition send_msg_thread ::
  "8 word \<Rightarrow> 'm crm_ipc_ctx \<Rightarrow> 'm \<Rightarrow> (bool \<times> 8 word \<times> 'm crm_ipc_ctx) option" where
  "send_msg_thread dummy c msg =
     (if num_msgs_in_queue c < MSG_QUEUE_SIZE \<and> w_fd c \<noteq> -1
      then do {
        q \<leftarrow> array_set (msg_queue c) (msg_w_idx c) msg;
        let c = c\<lparr>msg_queue := q, pipe := pipe c @ [dummy]\<rparr>;
        let c = c\<lparr>num_msgs_in_queue := num_msgs_in_queue c + 1, msg_w_idx := msg_w_idx c + 1\<rparr>;
        let c = (if msg_w_idx c = MSG_QUEUE_SIZE then c\<lparr>msg_w_idx := 0\<rparr> else c);
        Some (True, dummy + 1, c)
      }
      else Some (False, dummy, c))"

text \<open>
  \<open>dispose\<close> with a free routine: the messages the routine is called on, in order. The loop
  counts \<open>num_msgs_in_queue\<close> down to zero and would not end from a negative count.
\<close>

partial_function (option) dispose_loop :: "'m crm_ipc_ctx \<Rightarrow> 'm list option" where
  "dispose_loop c =
     (if num_msgs_in_queue c = 0 then Some []
      else do {
        msg \<leftarrow> array_get (msg_queue c) (msg_r_idx c);
        let c = c\<lparr>msg_r_idx := msg_r_idx c + 1\<rparr>;
        let c = (if msg_r_idx c = MSG_QUEUE_SIZE then c\<lparr>msg_r_idx := 0\<rparr> else c);
        rest \<leftarrow> dispose_loop (c\<lparr>num_msgs_in_queue := num_msgs_in_queue c - 1\<rparr>);
        Some (msg # rest)
      })"

definition ipc_dispose :: "'m crm_ipc_ctx \<Rightarrow> bool \<Rightarrow> 'm list option" where
  "ipc_dispose c free_routine =
     (let c = c\<lparr>r_fd := -1, w_fd := -1\<rparr>
      in if free_routine then dispose_loop c else Some [])"

section \<open>The process variant\<close>

text \<open>
  A message is written as two 32-bit integers and the data. Integers are little endian, as on
  every target of the program.
\<close>

definition int_bytes :: "32 word \<Rightarrow> 8 word list" where
  "int_bytes w = [ucast w, ucast (drop_bit 8 w), ucast (drop_bit 16 w), ucast (drop_bit 24 w)]"

definition bytes_int :: "8 word list \<Rightarrow> 32 word" where
  "bytes_int bs = ucast (bs ! 0) OR push_bit 8 (ucast (bs ! 1)) OR
                  push_bit 16 (ucast (bs ! 2)) OR push_bit 24 (ucast (bs ! 3))"

definition read_bytes :: "nat \<Rightarrow> 8 word list \<Rightarrow> (8 word list \<times> 8 word list) option" where
  "read_bytes n bs = (if n \<le> length bs then Some (take n bs, drop n bs) else None)"

text \<open>
  The data is the block the pointer points to. A block shorter than \<open>data_size\<close> would be read
  out of bounds.
\<close>

definition send_msg_process ::
  "8 word list \<Rightarrow> 8 word list crm_ipc_msg \<Rightarrow> 8 word list option" where
  "send_msg_process bs msg = do {
     let hdr = int_bytes (ucast (scalar msg)) @ int_bytes (ucast (data_size msg));
     let bs = bs @ hdr;
     if data_size msg > 0
     then do {
       ASSERT (unat (data_size msg) \<le> length (data msg));
       ASSERT (sint (data_size msg) = sint (ucast (data_size msg) :: 32 word));
       Some (bs @ take (unat (data_size msg)) (data msg))
     }
     else Some bs
   }"

definition get_msg_process ::
  "8 word list \<Rightarrow> (8 word list crm_ipc_msg \<times> 8 word list) option" where
  "get_msg_process bs = do {
     (h0, bs) \<leftarrow> read_bytes 4 bs;
     (h1, bs) \<leftarrow> read_bytes 4 bs;
     let msg_scalar = scast (bytes_int h0);
     let size = (scast (bytes_int h1) :: 64 word);
     if size > 0
     then do {
       (d, bs) \<leftarrow> read_bytes (unat size) bs;
       Some (\<lparr>scalar = msg_scalar, data_size = size, data = d\<rparr>, bs)
     }
     else Some (\<lparr>scalar = msg_scalar, data_size = size, data = []\<rparr>, bs)
   }"

section \<open>Threads with a pair of pipes\<close>

text \<open>
  thread.c: slot 0 of \<open>ipc\<close> carries the messages to the child, slot 1 the messages to the
  parent; \<open>None\<close> in a slot is the null pointer. \<open>self\<close> is the calling thread.
\<close>

record 'm crm_thread_ctx =
  thread :: nat
  parent :: nat
  detached :: bool
  ipc :: "'m crm_ipc_ctx option list"

abbreviation (input) CHILD_IDX :: int where "CHILD_IDX \<equiv> 0"
abbreviation (input) PARENT_IDX :: int where "PARENT_IDX \<equiv> 1"
abbreviation (input) OTHER_IDX :: int where "OTHER_IDX \<equiv> 2"

definition get_idx :: "nat \<Rightarrow> 'm crm_thread_ctx \<Rightarrow> int" where
  "get_idx self t =
     (if self = thread t then CHILD_IDX else if self = parent t then PARENT_IDX else OTHER_IDX)"

definition crm_thread_init ::
  "'m \<Rightarrow> (nat \<Rightarrow> int \<times> int) \<Rightarrow> nat \<Rightarrow> nat \<Rightarrow> bool \<Rightarrow> bool \<Rightarrow> 'm crm_thread_ctx" where
  "crm_thread_init zero pipes self child create_ipc det =
     \<lparr>thread = child, parent = self, detached = det,
      ipc = (if create_ipc
             then [Some (crm_ipc_init zero (pipes 0)), Some (crm_ipc_init zero (pipes 1))]
             else [None, None])\<rparr>"

definition thread_get_msg ::
  "nat \<Rightarrow> 'm crm_thread_ctx \<Rightarrow> ('m option \<times> 'm crm_thread_ctx) option" where
  "thread_get_msg self t = do {
     let idx = get_idx self t;
     ASSERT (idx \<noteq> OTHER_IDX);
     slot \<leftarrow> array_get (ipc t) idx;
     (case slot of
        None \<Rightarrow> Some (None, t)
      | Some q \<Rightarrow> do {
          (m, q) \<leftarrow> get_msg_thread q;
          i \<leftarrow> array_set (ipc t) idx (Some q);
          Some (m, t\<lparr>ipc := i\<rparr>)
        })
   }"

definition thread_send_msg ::
  "8 word \<Rightarrow> nat \<Rightarrow> 'm crm_thread_ctx \<Rightarrow> 'm \<Rightarrow> (bool \<times> 8 word \<times> 'm crm_thread_ctx) option" where
  "thread_send_msg dummy self t msg = do {
     let idx = get_idx self t;
     ASSERT (idx \<noteq> OTHER_IDX);
     let idx = 1 - idx;
     slot \<leftarrow> array_get (ipc t) idx;
     (case slot of
        None \<Rightarrow> Some (False, dummy, t)
      | Some q \<Rightarrow> do {
          (ret, dummy, q) \<leftarrow> send_msg_thread dummy q msg;
          i \<leftarrow> array_set (ipc t) idx (Some q);
          Some (ret, dummy, t\<lparr>ipc := i\<rparr>)
        })
   }"

text \<open>\<open>dispose\<close>: the messages freed, slot by slot.\<close>

definition thread_dispose :: "nat \<Rightarrow> 'm crm_thread_ctx \<Rightarrow> bool \<Rightarrow> 'm list option" where
  "thread_dispose self t free_routine = do {
     ASSERT (if detached t then get_idx self t = CHILD_IDX else get_idx self t \<noteq> CHILD_IDX);
     s0 \<leftarrow> array_get (ipc t) 0;
     s1 \<leftarrow> array_get (ipc t) 1;
     d0 \<leftarrow> (case s0 of None \<Rightarrow> Some [] | Some q \<Rightarrow> ipc_dispose q free_routine);
     d1 \<leftarrow> (case s1 of None \<Rightarrow> Some [] | Some q \<Rightarrow> ipc_dispose q free_routine);
     Some (d0 @ d1)
   }"

section \<open>Invariant and contents of the thread variant\<close>

definition ipc_inv :: "'m crm_ipc_ctx \<Rightarrow> bool" where
  "ipc_inv c \<longleftrightarrow>
     length (msg_queue c) = 8 \<and>
     0 \<le> msg_r_idx c \<and> msg_r_idx c < 8 \<and>
     0 \<le> num_msgs_in_queue c \<and> num_msgs_in_queue c \<le> 8 \<and>
     msg_w_idx c = (msg_r_idx c + num_msgs_in_queue c) mod 8 \<and>
     length (pipe c) = nat (num_msgs_in_queue c)"

definition ipc_open :: "'m crm_ipc_ctx \<Rightarrow> bool" where
  "ipc_open c \<longleftrightarrow> ipc_inv c \<and> r_fd c \<noteq> -1 \<and> w_fd c \<noteq> -1"

definition ipc_contents :: "'m crm_ipc_ctx \<Rightarrow> 'm list" where
  "ipc_contents c =
     map (\<lambda>i. msg_queue c ! nat ((msg_r_idx c + int i) mod 8)) [0..<nat (num_msgs_in_queue c)]"

lemma length_ipc_contents: "length (ipc_contents c) = nat (num_msgs_in_queue c)"
  by (simp add: ipc_contents_def)

lemma ipc_init_open:
  "fst pipes \<noteq> -1 \<Longrightarrow> snd pipes \<noteq> -1 \<Longrightarrow>
   ipc_open (crm_ipc_init zero pipes) \<and> ipc_contents (crm_ipc_init zero pipes) = []"
  by (simp add: ipc_open_def ipc_inv_def crm_ipc_init_def ipc_contents_def)

lemma nat_int_Suc: "nat (1 + int n) = Suc n"
  by simp

lemma wrap_idx: "0 \<le> (i::int) \<Longrightarrow> i < 8 \<Longrightarrow> (if i + 1 = 8 then 0 else i + 1) = (i + 1) mod 8"
  by auto

lemma mod8_neq: "0 \<le> (k::int) \<Longrightarrow> k < n \<Longrightarrow> n < 8 \<Longrightarrow> (r + k) mod 8 \<noteq> (r + n) mod 8"
proof
  assume a: "0 \<le> k" "k < n" "n < 8" and "(r + k) mod 8 = (r + n) mod 8"
  then have "8 dvd (r + n) - (r + k)" by (metis mod_eq_dvd_iff)
  then have "8 \<le> n - k" using a by (simp add: zdvd_imp_le)
  with a show False by simp
qed

lemma get_msg_thread_empty:
  "num_msgs_in_queue c \<le> 0 \<Longrightarrow> get_msg_thread c = Some (None, c)"
  by (simp add: get_msg_thread_def)

lemma get_msg_thread_eq:
  assumes "ipc_open c" "0 < num_msgs_in_queue c"
  shows "get_msg_thread c =
    Some (Some (msg_queue c ! nat (msg_r_idx c)),
          c\<lparr>num_msgs_in_queue := num_msgs_in_queue c - 1, msg_r_idx := (msg_r_idx c + 1) mod 8,
            pipe := tl (pipe c)\<rparr>)"
proof -
  from assms obtain b bs where p: "pipe c = b # bs"
    by (cases "pipe c") (auto simp: ipc_open_def ipc_inv_def)
  have i: "0 \<le> msg_r_idx c" "msg_r_idx c < 8" "length (msg_queue c) = 8" "r_fd c \<noteq> -1"
    using assms by (auto simp: ipc_open_def ipc_inv_def)
  have "nat (msg_r_idx c) < 8" using i by simp
  then show ?thesis
    using i assms(2) wrap_idx [OF i(1,2)]
    by (auto simp: get_msg_thread_def array_get_def read_byte_def p Let_def)
qed

lemma send_msg_thread_eq:
  assumes "ipc_open c" "num_msgs_in_queue c < 8"
  shows "send_msg_thread d c m =
    Some (True, d + 1,
          c\<lparr>msg_queue := (msg_queue c)[nat (msg_w_idx c) := m], pipe := pipe c @ [d],
            num_msgs_in_queue := num_msgs_in_queue c + 1, msg_w_idx := (msg_w_idx c + 1) mod 8\<rparr>)"
proof -
  have i: "0 \<le> msg_w_idx c" "msg_w_idx c < 8" "length (msg_queue c) = 8" "w_fd c \<noteq> -1"
    using assms by (auto simp: ipc_open_def ipc_inv_def)
  have "nat (msg_w_idx c) < 8" using i by simp
  then show ?thesis
    using i assms(2) wrap_idx [OF i(1,2)]
    by (auto simp: send_msg_thread_def array_set_def Let_def)
qed

lemma send_msg_thread_full:
  "8 \<le> num_msgs_in_queue c \<Longrightarrow> send_msg_thread d c m = Some (False, d, c)"
  by (simp add: send_msg_thread_def)

lemma get_msg_thread_open:
  assumes "ipc_open c" "get_msg_thread c = Some (r, c')"
  shows "ipc_open c'"
proof (cases "0 < num_msgs_in_queue c")
  case True
  have "(msg_r_idx c + num_msgs_in_queue c) mod 8 =
        ((msg_r_idx c + 1) mod 8 + (num_msgs_in_queue c - 1)) mod 8"
    by (simp add: mod_add_left_eq)
  with assms True show ?thesis
    by (auto simp: get_msg_thread_eq ipc_open_def ipc_inv_def nat_diff_distrib)
next
  case False
  with assms show ?thesis by (simp add: get_msg_thread_empty)
qed

lemma send_msg_thread_open:
  assumes "ipc_open c" "send_msg_thread d c m = Some (r, d', c')"
  shows "ipc_open c'"
proof (cases "num_msgs_in_queue c < 8")
  case True
  have "((msg_r_idx c + num_msgs_in_queue c) mod 8 + 1) mod 8 =
        (msg_r_idx c + (num_msgs_in_queue c + 1)) mod 8"
    by (simp add: mod_add_left_eq add.assoc)
  with assms True show ?thesis
    by (auto simp: send_msg_thread_eq ipc_open_def ipc_inv_def nat_add_distrib)
next
  case False
  with assms show ?thesis by (simp add: send_msg_thread_full)
qed

lemma get_msg_thread_contents:
  assumes "ipc_open c" "get_msg_thread c = Some (r, c')"
  shows "(case r of None \<Rightarrow> ipc_contents c = [] \<and> c' = c
                  | Some m \<Rightarrow> ipc_contents c = m # ipc_contents c')"
proof (cases "0 < num_msgs_in_queue c")
  case True
  then obtain n where n: "nat (num_msgs_in_queue c) = Suc n"
    by (metis gr0_implies_Suc zero_less_nat_eq)
  have n': "nat (num_msgs_in_queue c - 1) = n" using n by simp
  have i: "0 \<le> msg_r_idx c" "msg_r_idx c < 8"
    using assms by (auto simp: ipc_open_def ipc_inv_def)
  have s: "((msg_r_idx c + 1) mod 8 + int k) mod 8 = (msg_r_idx c + int (Suc k)) mod 8" for k
    by (simp add: mod_add_left_eq add.assoc)
  have "ipc_contents c =
        msg_queue c ! nat (msg_r_idx c) #
        map (\<lambda>k. msg_queue c ! nat ((msg_r_idx c + int (Suc k)) mod 8)) [0..<n]"
    using i by (simp add: ipc_contents_def n upt_conv_Cons map_Suc_upt [symmetric] del: upt_Suc)
  with assms True show ?thesis
    by (auto simp: get_msg_thread_eq ipc_contents_def n' s)
next
  case False
  with assms show ?thesis by (auto simp: get_msg_thread_empty ipc_contents_def)
qed

lemma send_msg_thread_contents:
  assumes "ipc_open c" "send_msg_thread d c m = Some (r, d', c')"
  shows "ipc_contents c' = (if r then ipc_contents c @ [m] else ipc_contents c)"
    and "r \<longleftrightarrow> length (ipc_contents c) < 8"
proof -
  have i: "0 \<le> msg_r_idx c" "msg_r_idx c < 8" "0 \<le> num_msgs_in_queue c" "length (msg_queue c) = 8"
    "msg_w_idx c = (msg_r_idx c + num_msgs_in_queue c) mod 8"
    using assms(1) by (auto simp: ipc_open_def ipc_inv_def)
  have "ipc_contents c' = (if r then ipc_contents c @ [m] else ipc_contents c) \<and>
        (r \<longleftrightarrow> length (ipc_contents c) < 8)"
  proof (cases "num_msgs_in_queue c < 8")
    case True
    then have eq: "r" "c' = c\<lparr>msg_queue := (msg_queue c)[nat (msg_w_idx c) := m],
        pipe := pipe c @ [d], num_msgs_in_queue := num_msgs_in_queue c + 1,
        msg_w_idx := (msg_w_idx c + 1) mod 8\<rparr>"
      using assms by (auto simp: send_msg_thread_eq)
    have w: "nat (msg_w_idx c) < 8" using i by simp
    have old: "nat ((msg_r_idx c + int k) mod 8) \<noteq> nat (msg_w_idx c)"
      if "k < nat (num_msgs_in_queue c)" for k
    proof -
      have "int k < num_msgs_in_queue c" using that by simp
      then have "(msg_r_idx c + int k) mod 8 \<noteq> (msg_r_idx c + num_msgs_in_queue c) mod 8"
        using True by (intro mod8_neq) auto
      then show ?thesis using i by (simp add: eq_nat_nat_iff)
    qed
    have n: "nat (num_msgs_in_queue c + 1) = Suc (nat (num_msgs_in_queue c))" using i by simp
    have last: "(msg_queue c)[nat (msg_w_idx c) := m] !
        nat ((msg_r_idx c + int (nat (num_msgs_in_queue c))) mod 8) = m"
      using i w by simp
    have len: "length (ipc_contents c) < 8" using i True by (simp add: length_ipc_contents)
    have "ipc_contents c' = ipc_contents c @ [m]"
      unfolding eq(2) ipc_contents_def using old [THEN not_sym] last i(3) by (simp add: n)
    with eq(1) len show ?thesis by simp
  next
    case False
    with assms show ?thesis by (simp add: send_msg_thread_full length_ipc_contents)
  qed
  then show "ipc_contents c' = (if r then ipc_contents c @ [m] else ipc_contents c)"
    and "r \<longleftrightarrow> length (ipc_contents c) < 8" by auto
qed

lemma get_msg_thread_returns:
  assumes "ipc_open c"
  obtains r c' where "get_msg_thread c = Some (r, c')"
  using assms by (cases "0 < num_msgs_in_queue c") (auto simp: get_msg_thread_eq get_msg_thread_empty)

lemma send_msg_thread_returns:
  assumes "ipc_open c"
  obtains r d' c' where "send_msg_thread d c m = Some (r, d', c')"
  using assms
  by (cases "num_msgs_in_queue c < 8") (auto simp: send_msg_thread_eq send_msg_thread_full)

lemma dispose_loop_contents:
  assumes "length (msg_queue c) = 8" "0 \<le> msg_r_idx c" "msg_r_idx c < 8" "num_msgs_in_queue c = int n"
  shows "dispose_loop c = Some (ipc_contents c)"
  using assms
proof (induction n arbitrary: c)
  case 0
  then show ?case by (simp add: dispose_loop.simps ipc_contents_def)
next
  case (Suc n)
  let ?c = "c\<lparr>msg_r_idx := (msg_r_idx c + 1) mod 8, num_msgs_in_queue := int n\<rparr>"
  have s: "((msg_r_idx c + 1) mod 8 + int k) mod 8 = (msg_r_idx c + int (Suc k)) mod 8" for k
    by (simp add: mod_add_left_eq add.assoc)
  have "dispose_loop ?c = Some (ipc_contents ?c)" by (rule Suc.IH) (use Suc.prems in auto)
  moreover have "ipc_contents c = msg_queue c ! nat (msg_r_idx c) # ipc_contents ?c"
    using Suc.prems
    by (simp add: ipc_contents_def nat_int_Suc upt_conv_Cons map_Suc_upt [symmetric] s del: upt_Suc)
  ultimately show ?case
    using Suc.prems wrap_idx [of "msg_r_idx c"]
    by (subst dispose_loop.simps) (auto simp: array_get_def nat_less_iff Let_def)
qed

section \<open>The interface of a pipe\<close>

text \<open>
  What a client of a pipe relies on: sends append while there is room and are refused after, and
  reads take from the front. \<open>drain\<close> is the loop ipc.h asks of a receiver (read until there is no
  message), with \<open>fuel\<close> reads at most.
\<close>

fun drain :: "('s \<Rightarrow> ('m option \<times> 's) option) \<Rightarrow> nat \<Rightarrow> 's \<Rightarrow> ('m list \<times> 's) option" where
  "drain get 0 s = None"
| "drain get (Suc fuel) s = do {
     (r, s) \<leftarrow> get s;
     (case r of
        None \<Rightarrow> Some ([], s)
      | Some m \<Rightarrow> do { (ms, s) \<leftarrow> drain get fuel s; Some (m # ms, s) })
   }"

fun send_all :: "('d \<Rightarrow> 's \<Rightarrow> 'm \<Rightarrow> (bool \<times> 'd \<times> 's) option) \<Rightarrow> 'd \<Rightarrow> 's \<Rightarrow> 'm list \<Rightarrow>
    (bool list \<times> 'd \<times> 's) option" where
  "send_all send d s [] = Some ([], d, s)"
| "send_all send d s (m # ms) = do {
     (r, d, s) \<leftarrow> send d s m;
     (rs, d, s) \<leftarrow> send_all send d s ms;
     Some (r # rs, d, s)
   }"

locale bounded_fifo =
  fixes send :: "'d \<Rightarrow> 's \<Rightarrow> 'm \<Rightarrow> (bool \<times> 'd \<times> 's) option"
    and get :: "'s \<Rightarrow> ('m option \<times> 's) option"
    and inv :: "'s \<Rightarrow> bool"
    and contents :: "'s \<Rightarrow> 'm list"
    and cap :: nat
  assumes get_returns: "inv s \<Longrightarrow> \<exists>r s'. get s = Some (r, s')"
    and send_returns: "inv s \<Longrightarrow> \<exists>b d' s'. send d s m = Some (b, d', s')"
    and get_inv: "inv s \<Longrightarrow> get s = Some (r, s') \<Longrightarrow> inv s'"
    and send_inv: "inv s \<Longrightarrow> send d s m = Some (b, d', s') \<Longrightarrow> inv s'"
    and get_none: "inv s \<Longrightarrow> get s = Some (None, s') \<Longrightarrow> contents s = [] \<and> s' = s"
    and get_some: "inv s \<Longrightarrow> get s = Some (Some m, s') \<Longrightarrow> contents s = m # contents s'"
    and send_contents:
      "inv s \<Longrightarrow> send d s m = Some (b, d', s') \<Longrightarrow>
       contents s' = (if b then contents s @ [m] else contents s)"
    and send_accepts:
      "inv s \<Longrightarrow> send d s m = Some (b, d', s') \<Longrightarrow> b \<longleftrightarrow> length (contents s) < cap"
begin

lemma drain_contents:
  "inv s \<Longrightarrow> length (contents s) < fuel \<Longrightarrow>
   \<exists>s'. drain get fuel s = Some (contents s, s') \<and> inv s' \<and> contents s' = []"
proof (induction fuel arbitrary: s)
  case 0
  then show ?case by simp
next
  case (Suc fuel)
  obtain r s1 where g: "get s = Some (r, s1)" using get_returns Suc.prems(1) by blast
  show ?case
  proof (cases r)
    case None
    then have "contents s = [] \<and> s1 = s" using g get_none Suc.prems(1) by auto
    then show ?thesis using g None Suc.prems(1) by simp
  next
    case (Some m)
    then have c: "contents s = m # contents s1" and "inv s1"
      using g get_some get_inv Suc.prems(1) by auto
    then obtain s' where "drain get fuel s1 = Some (contents s1, s') \<and> inv s' \<and> contents s' = []"
      using Suc.IH [of s1] Suc.prems(2) by auto
    then show ?thesis using g Some c by simp
  qed
qed

lemma send_all_contents:
  "inv s \<Longrightarrow>
   \<exists>d' s'. send_all send d s ms =
           Some (map (\<lambda>i. length (contents s) + i < cap) [0..<length ms], d', s') \<and>
         inv s' \<and> contents s' = contents s @ take (cap - length (contents s)) ms"
proof (induction ms arbitrary: d s)
  case Nil
  then show ?case by simp
next
  case (Cons m ms)
  obtain r d1 s1 where g: "send d s m = Some (r, d1, s1)" using send_returns Cons.prems by blast
  then have i: "inv s1" and r: "r \<longleftrightarrow> length (contents s) < cap"
    and c: "contents s1 = (if r then contents s @ [m] else contents s)"
    using send_inv send_accepts send_contents Cons.prems by blast+
  obtain d' s' where s: "send_all send d1 s1 ms =
      Some (map (\<lambda>i. length (contents s1) + i < cap) [0..<length ms], d', s')"
      "inv s'" "contents s' = contents s1 @ take (cap - length (contents s1)) ms"
    using Cons.IH [OF i, of d1] by blast
  have "map (\<lambda>i. length (contents s) + i < cap) [0..<length (m # ms)] =
        r # map (\<lambda>i. length (contents s1) + i < cap) [0..<length ms]"
    using r c by (auto simp: upt_conv_Cons map_Suc_upt [symmetric] simp del: upt_Suc)
  moreover have "contents s' = contents s @ take (cap - length (contents s)) (m # ms)"
  proof (cases r)
    case True
    then have "cap - length (contents s) = Suc (cap - length (contents s1))" using r c by auto
    then show ?thesis using s(3) c True by simp
  next
    case False
    then show ?thesis using s(3) c r by simp
  qed
  ultimately show ?case using g s by simp
qed

end

interpretation ipc_fifo: bounded_fifo send_msg_thread get_msg_thread ipc_open ipc_contents 8
proof
  fix s :: "'m crm_ipc_ctx" and d m r b d' s'
  assume s: "ipc_open s"
  show "\<exists>r s'. get_msg_thread s = Some (r, s')" using get_msg_thread_returns [OF s] by blast
  show "\<exists>b d' s'. send_msg_thread d s m = Some (b, d', s')"
    using send_msg_thread_returns [OF s] by blast
  show "get_msg_thread s = Some (r, s') \<Longrightarrow> ipc_open s'" by (rule get_msg_thread_open [OF s])
  show "send_msg_thread d s m = Some (b, d', s') \<Longrightarrow> ipc_open s'"
    by (rule send_msg_thread_open [OF s])
  show "get_msg_thread s = Some (None, s') \<Longrightarrow> ipc_contents s = [] \<and> s' = s"
    using get_msg_thread_contents [OF s, of None s'] by simp
  show "send_msg_thread d s m = Some (b, d', s') \<Longrightarrow>
        ipc_contents s' = (if b then ipc_contents s @ [m] else ipc_contents s)"
    by (rule send_msg_thread_contents [OF s])
  show "send_msg_thread d s m = Some (b, d', s') \<Longrightarrow> b \<longleftrightarrow> length (ipc_contents s) < 8"
    by (rule send_msg_thread_contents [OF s])
next
  fix s :: "'m crm_ipc_ctx" and m s'
  assume "ipc_open s"
  then show "get_msg_thread s = Some (Some m, s') \<Longrightarrow> ipc_contents s = m # ipc_contents s'"
    using get_msg_thread_contents [of s "Some m" s'] by simp
qed

section \<open>Fields of a scalar\<close>

text \<open>A scalar often packs several small integers; these are the facts about its fields.\<close>

lemma word_of_int_field:
  assumes "0 \<le> x" "x < 2 ^ n"
  shows "bit (word_of_int x :: 64 word) k \<longleftrightarrow> bit x k \<and> k < n \<and> k < 64"
proof -
  have "take_bit n x = x" using assms by (simp add: take_bit_int_eq_self)
  then have "bit x k \<longleftrightarrow> bit x k \<and> k < n" by (metis bit_take_bit_iff)
  then show ?thesis by (auto simp: bit_simps)
qed

lemma word_eq_take_bit_sint:
  assumes "0 \<le> x" "x < 2 ^ n" "n < 64" "(w::64 word) = word_of_int x"
  shows "sint w = x"
proof -
  have "x < 2 ^ 63" using assms(2,3) power_increasing [of n 63 "2::int"] by simp
  then show ?thesis using assms(1,4)
    by (simp add: sint_sbintrunc' signed_take_bit_int_eq_self)
qed

lemma and_field_masks:
  "(w :: 64 word) AND 0xFF = take_bit 8 w"
  "(w :: 64 word) AND 0x7FFFFF = take_bit 23 w"
  "(w :: 64 word) AND 0x7FFFFFFF = take_bit 31 w"
  by (simp_all add: take_bit_eq_mask mask_eq_exp_minus_1)

lemmas scalar_bits = bit_or_iff bit_push_bit_iff bit_signed_drop_bit_iff bit_take_bit_iff

section \<open>The bytes of the process variant\<close>

lemma bytes_int_int_bytes [simp]: "bytes_int (int_bytes w) = w"
proof (rule bit_word_eqI)
  fix n :: nat
  assume "n < LENGTH(32)"
  then have "n < 32" by simp
  then consider "n < 8" | "8 \<le> n" "n < 16" | "16 \<le> n" "n < 24" | "24 \<le> n" "n < 32" by linarith
  then show "bit (bytes_int (int_bytes w)) n = bit w n"
    by cases (auto simp: bytes_int_def int_bytes_def bit_simps)
qed

lemma length_int_bytes [simp]: "length (int_bytes w) = 4"
  by (simp add: int_bytes_def)

lemma read_bytes_append: "length xs = n \<Longrightarrow> read_bytes n (xs @ ys) = Some (xs, ys)"
  by (simp add: read_bytes_def)

lemma get_msg_process_hdr:
  "get_msg_process (int_bytes a @ int_bytes b @ bs) =
     (let size = (scast b :: 64 word)
      in if size > 0
         then do { (d, bs) \<leftarrow> read_bytes (unat size) bs;
                   Some (\<lparr>scalar = scast a, data_size = size, data = d\<rparr>, bs) }
         else Some (\<lparr>scalar = scast a, data_size = size, data = []\<rparr>, bs))"
  by (simp add: get_msg_process_def read_bytes_append Let_def)

lemma scast_ucast_small:
  assumes "uint (w :: 64 word) < 2 ^ 31"
  shows "scast (ucast w :: 32 word) = w"
proof (rule bit_word_eqI)
  fix n :: nat
  assume "n < LENGTH(64)"
  have hi: "\<not> bit w k" if "31 \<le> k" for k
  proof -
    have "take_bit 31 (uint w) = uint w" using assms by (simp add: take_bit_int_eq_self)
    then have "\<not> bit (uint w) k" using that by (metis bit_take_bit_iff leD)
    then show ?thesis by (auto simp: bit_uint_iff dest: bit_imp_le_length)
  qed
  show "bit (scast (ucast w :: 32 word) :: 64 word) n = bit w n"
    using hi \<open>n < LENGTH(64)\<close> by (cases "n < 31") (auto simp: bit_simps min_def)
qed

section \<open>Properties\<close>

text \<open>
  C32: the pipe between threads is a FIFO of eight messages. From any open state, sending a
  sequence of messages accepts exactly those that fit (and reports each refusal), and a receiver
  that then reads until there is nothing left gets what was pending followed by the accepted
  messages, in order, and leaves the pipe empty.
\<close>

theorem ipc_thread_fifo:
  assumes "ipc_open c"
  shows "\<exists>d' c' c''.
    send_all send_msg_thread d c ms =
      Some (map (\<lambda>i. length (ipc_contents c) + i < 8) [0..<length ms], d', c') \<and>
    drain get_msg_thread 9 c' =
      Some (ipc_contents c @ take (8 - length (ipc_contents c)) ms, c'') \<and>
    ipc_open c'' \<and> ipc_contents c'' = []"
proof -
  obtain d' c' where s: "send_all send_msg_thread d c ms =
      Some (map (\<lambda>i. length (ipc_contents c) + i < 8) [0..<length ms], d', c')" "ipc_open c'"
      "ipc_contents c' = ipc_contents c @ take (8 - length (ipc_contents c)) ms"
    using ipc_fifo.send_all_contents [OF assms] by blast
  have "num_msgs_in_queue c' \<le> 8" using s(2) by (simp add: ipc_open_def ipc_inv_def)
  then have "length (ipc_contents c') < 9" by (simp add: length_ipc_contents)
  from ipc_fifo.drain_contents [OF s(2) this] s show ?thesis by auto
qed

theorem ipc_thread_fifo_witness:
  "\<exists>d' c' c''.
    send_all send_msg_thread 0 (crm_ipc_init 0 (3, 4)) [1, 2, 3::nat] = Some ([True, True, True], d', c') \<and>
    drain get_msg_thread 9 c' = Some ([1, 2, 3], c'') \<and> ipc_open c'' \<and> ipc_contents c'' = []"
  using ipc_thread_fifo [of "crm_ipc_init (0::nat) (3, 4)" 0 "[1, 2, 3]"]
    ipc_init_open [of "(3, 4)" "0::nat"] by simp

text \<open>
  The polled descriptor is readable exactly while a message is pending, and the pipe never
  holds more than eight bytes, whatever operations run: sends and reads keep the number of bytes
  in the pipe equal to the number of messages in the queue, and both return.
\<close>

theorem ipc_thread_poll_ready:
  assumes "ipc_open c"
  shows "(pipe c \<noteq> [] \<longleftrightarrow> ipc_contents c \<noteq> []) \<and> length (pipe c) \<le> 8 \<and>
    (\<exists>r c'. get_msg_thread c = Some (r, c') \<and> ipc_open c') \<and>
    (\<exists>r d' c'. send_msg_thread d c m = Some (r, d', c') \<and> ipc_open c')"
proof -
  have "length (pipe c) = length (ipc_contents c)" "length (pipe c) \<le> 8"
    using assms by (auto simp: ipc_open_def ipc_inv_def length_ipc_contents)
  moreover have "\<exists>r c'. get_msg_thread c = Some (r, c') \<and> ipc_open c'"
    using get_msg_thread_returns get_msg_thread_open assms by metis
  moreover have "\<exists>r d' c'. send_msg_thread d c m = Some (r, d', c') \<and> ipc_open c'"
    using send_msg_thread_returns send_msg_thread_open assms by metis
  ultimately show ?thesis by (metis length_0_conv)
qed

theorem ipc_thread_poll_ready_witness:
  "pipe (crm_ipc_init (0::nat) (3, 4)) = [] \<and>
   (\<exists>r d' c'. send_msg_thread 0 (crm_ipc_init (0::nat) (3, 4)) 5 = Some (r, d', c') \<and> ipc_open c')"
  using ipc_thread_poll_ready [of "crm_ipc_init (0::nat) (3, 4)" 0 5]
    ipc_init_open [of "(3, 4)" "0::nat"] by simp

text \<open>
  Disposing a pipe hands every pending message to the free routine, once each and in order;
  the loop ends.
\<close>

theorem ipc_dispose_frees_pending:
  assumes "ipc_inv c"
  shows "ipc_dispose c True = Some (ipc_contents c)"
proof -
  obtain n where "num_msgs_in_queue c = int n"
    using assms nonneg_int_cases [of "num_msgs_in_queue c"] by (auto simp: ipc_inv_def)
  then show ?thesis
    using assms dispose_loop_contents [of "c\<lparr>r_fd := -1, w_fd := -1\<rparr>" n]
    by (simp add: ipc_dispose_def ipc_inv_def ipc_contents_def)
qed

theorem ipc_dispose_frees_pending_witness:
  "ipc_dispose (crm_ipc_init (0::nat) (3, 4)) True = Some []"
  using ipc_dispose_frees_pending [of "crm_ipc_init (0::nat) (3, 4)"]
    ipc_init_open [of "(3, 4)" "0::nat"] by (simp add: ipc_open_def)

text \<open>
  A message written to the pipe between processes and read at the other end arrives with its
  data unchanged and its scalar cut to 32 bits (and sign extended back to 64 bits by the reader),
  whatever is pending behind it. \<open>data_size\<close> must be below \<open>2\<^sup>31\<close>: the header carries it as
  an \<open>int\<close>.
\<close>

theorem ipc_process_roundtrip:
  assumes "uint (data_size msg) < 2 ^ 31"
    and "length (data msg) = unat (data_size msg)"
  shows "\<exists>bs. send_msg_process [] msg = Some bs \<and>
    get_msg_process (bs @ rest) =
      Some (msg\<lparr>scalar := scast (ucast (scalar msg) :: 32 word)\<rparr>, rest)"
proof -
  let ?hdr = "int_bytes (ucast (scalar msg)) @ int_bytes (ucast (data_size msg))"
  have sz: "scast (ucast (data_size msg) :: 32 word) = data_size msg"
    by (rule scast_ucast_small [OF assms(1)])
  have sint: "sint (data_size msg) = sint (ucast (data_size msg) :: 32 word)"
    using sint_up_scast [of "ucast (data_size msg) :: 32 word", where ?'b = 64] sz
    by (simp add: is_up)
  have "send_msg_process [] msg = Some (?hdr @ data msg)"
  proof (cases "data_size msg > 0")
    case True
    then show ?thesis using assms sint by (simp add: send_msg_process_def)
  next
    case False
    then have "data_size msg = 0" by (simp add: word_gt_0)
    then show ?thesis using assms by (simp add: send_msg_process_def)
  qed
  moreover have "get_msg_process ((?hdr @ data msg) @ rest) =
      Some (msg\<lparr>scalar := scast (ucast (scalar msg) :: 32 word)\<rparr>, rest)"
  proof (cases "data_size msg > 0")
    case True
    then show ?thesis using assms
      by (simp add: get_msg_process_hdr sz Let_def read_bytes_append)
  next
    case False
    then have "data_size msg = 0" by (simp add: word_gt_0)
    moreover have "data msg = []" using assms calculation by simp
    ultimately show ?thesis by (simp add: get_msg_process_hdr)
  qed
  ultimately show ?thesis by blast
qed

theorem ipc_process_roundtrip_witness:
  "\<exists>bs. send_msg_process [] \<lparr>scalar = 7, data_size = 2, data = [1, 2]\<rparr> = Some bs \<and>
    get_msg_process (bs @ [9]) = Some (\<lparr>scalar = 7, data_size = 2, data = [1, 2]\<rparr>, [9])"
  using ipc_process_roundtrip [of "\<lparr>scalar = 7, data_size = 2, data = [1, 2]\<rparr>" "[9]"] by simp

end
