(* ===== verification/Crm_Fsm.thy ===== *)
theory Crm_Fsm
  imports Crm_Prelude
begin

text \<open>
  libs/utils/src/fsm.c: the engine that runs the state machines of the Control, HAL and client
  abstraction modules. A machine is a table of \<open>num_states * num_events\<close> cells, indexed by state
  and event; the code keeps it constant, and only the current state and the module's context
  (\<open>fsm_param\<close>) change. An operation answers the next state, \<open>-1\<close> to stay, or \<open>-2\<close> and below
  to ask for the failsafe operation.

  The interface \<open>fsm_machine\<close> is what a module has to show of its table for an invariant to
  hold after every sequence of events; each machine of the program is an instance of it.
\<close>

section \<open>Tables and contexts\<close>

record ('c, 'p) crm_fsm_ops =
  force_new_state :: int
  operation :: "('c \<Rightarrow> 'p \<Rightarrow> (int \<times> 'c) option) option"

record ('c, 'p) crm_fsm_ctx =
  fsm :: "('c, 'p) crm_fsm_ops list"
  num_events :: int
  num_states :: int
  pre_op :: "(int \<Rightarrow> 'c \<Rightarrow> 'c option) option"
  state_trans :: "(int \<Rightarrow> int \<Rightarrow> int \<Rightarrow> 'c \<Rightarrow> 'p \<Rightarrow> 'c option) option"
  failsafe :: "'c \<Rightarrow> 'p \<Rightarrow> (int \<times> 'c) option"
  get_state_txt :: "int \<Rightarrow> string option"
  get_event_txt :: "int \<Rightarrow> string option"

abbreviation (input) MAX_TAG_LEN :: nat where "MAX_TAG_LEN \<equiv> 5"

definition check_state :: "('c, 'p) crm_fsm_ctx \<Rightarrow> int \<Rightarrow> unit option" where
  "check_state f state = do {
     ASSERT (state \<ge> 0);
     ASSERT (state < num_states f)
   }"

text \<open>
  The arguments of the two log calls are evaluated whatever the log level is, and the functions
  that name a state or an event abort on an unknown one: they are part of the operation.
\<close>

definition run_operation ::
  "('c, 'p) crm_fsm_ctx \<Rightarrow> ('c, 'p) crm_fsm_ops \<Rightarrow> int \<Rightarrow> 'c \<Rightarrow> 'p \<Rightarrow> (int \<times> bool \<times> 'c) option" where
  "run_operation f op state c p =
     (case operation op of
        None \<Rightarrow> Some (state, False, c)
      | Some oper \<Rightarrow> do {
          (new_state, c) \<leftarrow> oper c p;
          if new_state = -1 then Some (state, False, c)
          else if new_state \<le> -2 then do {
            (new_state, c) \<leftarrow> failsafe f c p;
            Some (new_state, True, c)
          }
          else Some (new_state, False, c)
        })"

definition notify_event :: "('c, 'p) crm_fsm_ctx \<Rightarrow> int \<Rightarrow> int \<Rightarrow> 'c \<Rightarrow> 'p \<Rightarrow> (int \<times> 'c) option" where
  "notify_event f state evt c p = do {
     ASSERT (evt < num_events f);
     op \<leftarrow> array_get (fsm f) (state + evt * num_states f);
     get_event_txt f evt;
     get_state_txt f state;
     c \<leftarrow> (case pre_op f of None \<Rightarrow> Some c | Some pre \<Rightarrow> pre evt c);
     (new_state, error, c) \<leftarrow> run_operation f op state c p;
     let new_state = (if \<not> error \<and> -1 \<noteq> force_new_state op then force_new_state op else new_state);
     get_state_txt f new_state;
     c \<leftarrow> (if state \<noteq> new_state
          then (case state_trans f of None \<Rightarrow> Some c | Some tr \<Rightarrow> tr state new_state evt c p)
          else Some c);
     check_state f new_state;
     Some (new_state, c)
   }"

text \<open>\<open>crm_fsm_init\<close>: the function pointers other than the hooks are never null in the program.\<close>

definition crm_fsm_init :: "('c, 'p) crm_fsm_ctx \<Rightarrow> int \<Rightarrow> string \<Rightarrow> int option" where
  "crm_fsm_init f initial_state logging_tag = do {
     ASSERT (length logging_tag < MAX_TAG_LEN);
     check_state f initial_state;
     Some initial_state
   }"

text \<open>A sequence of events.\<close>

fun notify_events ::
  "('c, 'p) crm_fsm_ctx \<Rightarrow> int \<Rightarrow> 'c \<Rightarrow> (int \<times> 'p) list \<Rightarrow> (int \<times> 'c) option" where
  "notify_events f state c [] = Some (state, c)"
| "notify_events f state c ((evt, p) # es) = do {
     (state, c) \<leftarrow> notify_event f state evt c p;
     notify_events f state c es
   }"

section \<open>Facts about the engine\<close>

lemma notify_eventE:
  assumes "notify_event f state evt c p = Some (state', c')"
  obtains op c1 s err c2 where "evt < num_events f"
    "array_get (fsm f) (state + evt * num_states f) = Some op"
    "(case pre_op f of None \<Rightarrow> Some c | Some pre \<Rightarrow> pre evt c) = Some c1"
    "run_operation f op state c1 p = Some (s, err, c2)"
    "state' = (if \<not> err \<and> -1 \<noteq> force_new_state op then force_new_state op else s)"
    "(if state \<noteq> state'
      then (case state_trans f of None \<Rightarrow> Some c2 | Some tr \<Rightarrow> tr state state' evt c2 p)
      else Some c2) = Some c'"
    "check_state f state' = Some ()"
  using assms unfolding notify_event_def Let_def
  by (elim bind_Some_E) (auto simp del: split_paired_Ex elim!: bind_Some_E split: prod.splits)

lemma notify_event_state_range:
  "notify_event f state evt c p = Some (state', c') \<Longrightarrow> 0 \<le> state' \<and> state' < num_states f"
  by (auto simp: notify_event_def check_state_def bind_Some_iff Let_def split: prod.splits)

lemma notify_event_evt_range:
  assumes "notify_event f state evt c p = Some (state', c')"
    and "0 \<le> state" "state < num_states f" "length (fsm f) = nat (num_states f * num_events f)"
  shows "0 \<le> evt \<and> evt < num_events f"
proof -
  have e: "evt < num_events f" and i: "0 \<le> state + evt * num_states f"
    using assms(1) by (auto simp: notify_event_def bind_Some_iff dest: array_get_SomeD)
  have "0 \<le> evt"
  proof (rule ccontr)
    assume "\<not> 0 \<le> evt"
    then have "evt * num_states f \<le> - num_states f"
      using assms(2,3) mult_right_mono [of evt "-1" "num_states f"] by simp
    with i assms(3) show False by simp
  qed
  with e show ?thesis by simp
qed

lemma notify_events_append:
  "notify_events f s c (xs @ ys) =
     Option.bind (notify_events f s c xs) (\<lambda>(s, c). notify_events f s c ys)"
  by (induction f s c xs rule: notify_events.induct) (auto split: prod.splits bind_splits)

text \<open>A table written row by row, a row per event.\<close>

lemma concat_rows_nth:
  "\<forall>r \<in> set rows. length r = n \<Longrightarrow> e < length rows \<Longrightarrow> s < n \<Longrightarrow>
   concat rows ! (s + e * n) = rows ! e ! s \<and> s + e * n < length (concat rows)"
proof (induction rows arbitrary: e)
  case Nil
  then show ?case by simp
next
  case (Cons r rows)
  then show ?case by (cases e) (auto simp: nth_append)
qed

lemma array_get_rows:
  assumes "\<forall>r \<in> set rows. length r = n" "0 \<le> e" "nat e < length rows" "0 \<le> s" "nat s < n"
  shows "array_get (concat rows) (s + e * int n) = Some (rows ! nat e ! nat s)"
proof -
  have "nat (s + e * int n) = nat s + nat e * n"
    using assms(2,4) by (simp add: nat_add_distrib nat_mult_distrib)
  with concat_rows_nth [OF assms(1,3,5)] assms(2,4) show ?thesis
    by (simp add: array_get_def)
qed

section \<open>The interface of a machine\<close>

text \<open>
  \<open>inv\<close> relates the state of the machine and the context of the module, \<open>pok\<close> says which event
  arguments the module may be given.
\<close>

locale fsm_machine =
  fixes f :: "('c, 'p) crm_fsm_ctx"
    and inv :: "int \<Rightarrow> 'c \<Rightarrow> bool"
    and pok :: "int \<Rightarrow> 'p \<Rightarrow> bool"
  assumes step_inv:
    "inv s c \<Longrightarrow> pok evt p \<Longrightarrow> notify_event f s evt c p = Some (s', c') \<Longrightarrow> inv s' c'"
begin

lemma run_inv:
  "inv s c \<Longrightarrow> \<forall>(evt, p) \<in> set es. pok evt p \<Longrightarrow> notify_events f s c es = Some (s', c') \<Longrightarrow> inv s' c'"
proof (induction es arbitrary: s c)
  case Nil
  then show ?case by simp
next
  case (Cons e es)
  then show ?case by (cases e) (auto simp: bind_Some_iff intro: step_inv)
qed

end

text \<open>A machine whose every step returns: no event sequence of the allowed kind stops it.\<close>

locale fsm_total = fsm_machine +
  assumes step_returns:
    "inv s c \<Longrightarrow> pok evt p \<Longrightarrow> \<exists>s' c'. notify_event f s evt c p = Some (s', c')"
begin

lemma run_returns:
  assumes "inv s c" "\<forall>(evt, p) \<in> set es. pok evt p"
  shows "\<exists>s' c'. notify_events f s c es = Some (s', c') \<and> inv s' c'"
  using assms
proof (induction es arbitrary: s c)
  case Nil
  then show ?case by simp
next
  case (Cons e es)
  obtain evt p where e: "e = (evt, p)" by force
  obtain s1 c1 where n: "notify_event f s evt c p = Some (s1, c1)"
    using step_returns Cons.prems e by fastforce
  then have "inv s1 c1" using step_inv Cons.prems e by auto
  then obtain s' c' where "notify_events f s1 c1 es = Some (s', c') \<and> inv s' c'"
    using Cons.IH [of s1 c1] Cons.prems(2) by auto
  with n e show ?case by simp
qed

end

text \<open>
  What an instance of the engine gives: a table written row by row whose states all have a name.
  The client's lemmas give the effect of an event from the cell of the table it selects.
\<close>

locale fsm_table =
  fixes f :: "('c, 'p) crm_fsm_ctx"
    and rows :: "('c, 'p) crm_fsm_ops list list"
    and ns ne :: nat
  assumes table: "fsm f = concat rows"
    and shape: "length rows = ne" "\<forall>r \<in> set rows. length r = ns"
    and counts: "num_states f = int ns" "num_events f = int ne"
    and named: "0 \<le> s \<Longrightarrow> s < int ns \<Longrightarrow> \<exists>t. get_state_txt f s = Some t"
begin

lemma cell_at:
  assumes "0 \<le> st" "st < int ns" "0 \<le> evt" "evt < int ne"
  shows "array_get (fsm f) (st + evt * num_states f) = Some (rows ! nat evt ! nat st)"
  using array_get_rows [OF shape(2), of evt st] shape(1) assms unfolding table counts by simp

lemma notify_eq:
  assumes "0 \<le> st" "st < int ns" "0 \<le> evt" "evt < int ne"
  shows "notify_event f st evt c p = do {
     get_event_txt f evt;
     c \<leftarrow> (case pre_op f of None \<Rightarrow> Some c | Some pre \<Rightarrow> pre evt c);
     (s, err, c) \<leftarrow> run_operation f (rows ! nat evt ! nat st) st c p;
     let s = (if \<not> err \<and> -1 \<noteq> force_new_state (rows ! nat evt ! nat st)
              then force_new_state (rows ! nat evt ! nat st) else s);
     get_state_txt f s;
     c \<leftarrow> (if st \<noteq> s
          then (case state_trans f of None \<Rightarrow> Some c | Some tr \<Rightarrow> tr st s evt c p)
          else Some c);
     check_state f s;
     Some (s, c)
   }"
proof -
  obtain t where "get_state_txt f st = Some t" using named [OF assms(1,2)] by blast
  then show ?thesis
    unfolding notify_event_def cell_at [OF assms] using assms(4) counts(2) by simp
qed

lemma evt_range:
  assumes "notify_event f st evt c p = Some (st', c')" "0 \<le> st" "st < int ns"
  shows "0 \<le> evt \<and> evt < int ne \<and> 0 \<le> st' \<and> st' < int ns"
proof -
  have "length (fsm f) = sum_list (map length rows)"
    by (simp add: table length_concat)
  also have "\<dots> = ne * ns"
    using shape by (simp add: sum_list_triv cong: map_cong)
  finally have "length (fsm f) = nat (num_states f * num_events f)"
    by (simp add: counts nat_mult_distrib mult.commute)
  with notify_event_evt_range [OF assms(1)] notify_event_state_range [OF assms(1)] assms(2,3)
  show ?thesis by (simp add: counts)
qed

lemma notify_cellE:
  assumes "notify_event f st evt c p = Some (st', c')" "0 \<le> st" "st < int ns"
  obtains c1 s err c2 where "0 \<le> evt" "evt < int ne" "0 \<le> st'" "st' < int ns"
    "(case pre_op f of None \<Rightarrow> Some c | Some pre \<Rightarrow> pre evt c) = Some c1"
    "run_operation f (rows ! nat evt ! nat st) st c1 p = Some (s, err, c2)"
    "st' = (if \<not> err \<and> -1 \<noteq> force_new_state (rows ! nat evt ! nat st)
            then force_new_state (rows ! nat evt ! nat st) else s)"
    "(if st \<noteq> st'
      then (case state_trans f of None \<Rightarrow> Some c2 | Some tr \<Rightarrow> tr st st' evt c2 p)
      else Some c2) = Some c'"
proof -
  have r: "0 \<le> evt" "evt < int ne" "0 \<le> st'" "st' < int ns" using evt_range [OF assms] by auto
  from assms(1) show ?thesis
  proof (rule notify_eventE)
    fix op c1 s err c2
    assume "array_get (fsm f) (st + evt * num_states f) = Some op"
    then have o: "op = rows ! nat evt ! nat st" using cell_at [OF assms(2,3) r(1,2)] by simp
    assume "(case pre_op f of None \<Rightarrow> Some c | Some pre \<Rightarrow> pre evt c) = Some c1"
      "run_operation f op st c1 p = Some (s, err, c2)"
      "st' = (if \<not> err \<and> -1 \<noteq> force_new_state op then force_new_state op else s)"
      "(if st \<noteq> st' then (case state_trans f of None \<Rightarrow> Some c2 | Some tr \<Rightarrow> tr st st' evt c2 p) else Some c2) = Some c'"
    then show ?thesis unfolding o by (rule that [OF r])
  qed
qed

end

end
