(* ===== verification/Crm_Wakelock.thy ===== *)
theory Crm_Wakelock
  imports Crm_Ipc
begin

text \<open>
  libs/wakelock/java_bridge/src/wakelock.c: the wakelock the modules share. Each module has a
  counter; a thread of its own keeps the lock of the system in line with them, through the Java
  bridge, and is told of every change by a message of a thread pipe.

  The bridge (connection, requests, hang-ups) is outside of the component: its answers are inputs
  of the steps, and the calls the thread makes to it are kept, in order, in a trace. The lock of the
  system is what these calls make of it (\<open>bridge_lock\<close>). The counters are protected by a mutex and the pipe is atomic, so the steps of the
  interleaving are: a client updates its counter (\<open>acquire_count\<close>, \<open>release_count\<close>), a client
  sends its message (\<open>send_update\<close>), and the two halves of an iteration of the thread, before and
  after its \<open>poll\<close>. The first half reads the counters once (\<open>is_held\<close>), and everything else it
  touches belongs to the thread, so that it is one step.
\<close>

section \<open>State\<close>

abbreviation (input) MAX_MODULE :: nat where "MAX_MODULE \<equiv> 5"

record crm_wakelock =
  wl_ipc :: "int crm_ipc_ctx"
  count :: "int list"
  dummy :: "8 word"

record wakelock_locals =
  b_fd :: int
  wakelock_acquired :: bool
  to_update :: bool

definition crm_wakelock_init :: "int \<times> int \<Rightarrow> 8 word \<Rightarrow> crm_wakelock" where
  "crm_wakelock_init pipes d =
     \<lparr>wl_ipc = crm_ipc_init 0 pipes, count = replicate MAX_MODULE 0, dummy = d\<rparr>"

definition wakelock_thread_init :: wakelock_locals where
  "wakelock_thread_init = \<lparr>b_fd = -1, wakelock_acquired = False, to_update = False\<rparr>"

section \<open>Operations\<close>

definition is_held_by_module :: "crm_wakelock \<Rightarrow> int \<Rightarrow> bool option" where
  "is_held_by_module w module_id = do {
     ASSERT (module_id \<ge> 0 \<and> module_id < int (length (count w)));
     n \<leftarrow> array_get (count w) module_id;
     Some (n > 0)
   }"

definition is_held :: "crm_wakelock \<Rightarrow> bool" where
  "is_held w = list_ex (\<lambda>n. n > 0) (count w)"

definition acquire_count :: "crm_wakelock \<Rightarrow> int \<Rightarrow> crm_wakelock option" where
  "acquire_count w module_id = do {
     ASSERT (module_id \<ge> 0 \<and> module_id < int (length (count w)));
     n \<leftarrow> array_get (count w) module_id;
     cs \<leftarrow> array_set (count w) module_id (n + 1);
     Some (w\<lparr>count := cs\<rparr>)
   }"

definition release_count :: "crm_wakelock \<Rightarrow> int \<Rightarrow> crm_wakelock option" where
  "release_count w module_id = do {
     ASSERT (module_id \<ge> 0 \<and> module_id < int (length (count w)));
     n \<leftarrow> array_get (count w) module_id;
     cs \<leftarrow> array_set (count w) module_id (if n > 0 then n - 1 else n);
     Some (w\<lparr>count := cs\<rparr>)
   }"

text \<open>The answer of \<open>send_msg\<close> is not looked at: a message a full pipe refuses is lost.\<close>

definition send_update :: "crm_wakelock \<Rightarrow> int \<Rightarrow> crm_wakelock option" where
  "send_update w msg_scalar = do {
     (ret, d, q) \<leftarrow> send_msg_thread (dummy w) (wl_ipc w) msg_scalar;
     Some (w\<lparr>wl_ipc := q, dummy := d\<rparr>)
   }"

definition acquire :: "crm_wakelock \<Rightarrow> int \<Rightarrow> crm_wakelock option" where
  "acquire w module_id = do { w \<leftarrow> acquire_count w module_id; send_update w 1 }"

definition release :: "crm_wakelock \<Rightarrow> int \<Rightarrow> crm_wakelock option" where
  "release w module_id = do { w \<leftarrow> release_count w module_id; send_update w 1 }"

section \<open>The thread\<close>

text \<open>
  The calls of the thread to the bridge, each with its answer: \<open>connect\<close> (which gives the
  descriptor when it succeeds), \<open>wakelock\<close> with the lock asked for and whether it succeeds, and
  \<open>disconnect\<close>.
\<close>

datatype bridge_call = BrConnect "int option" | BrWakelock bool bool | BrDisconnect

text \<open>
  From the top of the loop to \<open>poll\<close>: \<open>conn\<close> is the answer of a connection attempt, \<open>wl_ok\<close> says
  whether a request to the bridge succeeds. The second result is the list of the calls made.
\<close>

definition thread_update ::
  "int option \<Rightarrow> bool \<Rightarrow> crm_wakelock \<Rightarrow> wakelock_locals \<Rightarrow> wakelock_locals \<times> bridge_call list" where
  "thread_update conn wl_ok w l =
     (let (l, cs) = (if b_fd l < 0
               then (case conn of
                       Some fd \<Rightarrow> (l\<lparr>wakelock_acquired := False, b_fd := fd, to_update := True\<rparr>, [BrConnect conn])
                     | None \<Rightarrow> (l\<lparr>wakelock_acquired := False\<rparr>, [BrConnect None]))
               else (l, []))
      in if to_update l
         then (let l = l\<lparr>to_update := False\<rparr>; acq = is_held w
               in if acq \<noteq> wakelock_acquired l
                  then (if wl_ok then (l\<lparr>wakelock_acquired := acq\<rparr>, cs @ [BrWakelock acq True])
                        else (l\<lparr>b_fd := -1\<rparr>, cs @ [BrWakelock acq False, BrDisconnect]))
                  else (l, cs))
         else (l, cs))"

text \<open>
  What \<open>poll\<close> returns with, and the rest of the iteration. The result is \<open>None\<close> for a failed
  assertion; the first component is \<open>False\<close> when the thread leaves its loop, the last one is the list of
  the calls to the bridge.
\<close>

datatype poll_result = PollTimeout | PollIpc | PollBridge int

definition thread_poll ::
  "poll_result \<Rightarrow> crm_wakelock \<Rightarrow> wakelock_locals \<Rightarrow> (bool \<times> crm_wakelock \<times> wakelock_locals \<times> bridge_call list) option" where
  "thread_poll pr w l =
     (case pr of
        PollTimeout \<Rightarrow> Some (True, w, l, [])
      | PollIpc \<Rightarrow> do {
          (m, q) \<leftarrow> get_msg_thread (wl_ipc w);
          msg \<leftarrow> m;
          let w = w\<lparr>wl_ipc := q\<rparr>;
          if msg \<noteq> -1 then Some (True, w, l\<lparr>to_update := True\<rparr>, []) else Some (False, w, l, [])
        }
      | PollBridge handled \<Rightarrow>
          if handled = -1 then Some (True, w, l\<lparr>b_fd := -1\<rparr>, [BrDisconnect]) else Some (True, w, l, []))"

section \<open>Interleavings\<close>

text \<open>
  The state of a run: the shared state, the locals of the thread, how many clients have updated
  their counter and not yet sent their message, whether the thread is about to update or
  about to poll, and the calls it has made to the bridge. \<open>poll\<close> reports the pipe only when there is a byte in it, and reports a timeout
  only while the bridge is not connected.
\<close>

record wakelock_run =
  wl :: crm_wakelock
  loc :: wakelock_locals
  in_flight :: nat
  at_poll :: bool
  bridge_calls :: "bridge_call list"

text \<open>
  The lock of the system, as the bridge keeps it for this client: a new connection holds nothing, a
  request that succeeds sets it, a disconnection releases it.
\<close>

fun bridge_lock :: "bridge_call list \<Rightarrow> bool \<Rightarrow> bool" where
  "bridge_lock [] b = b"
| "bridge_lock (BrConnect fd # cs) b = bridge_lock cs (if fd = None then b else False)"
| "bridge_lock (BrWakelock acq ok # cs) b = bridge_lock cs (if ok then acq else b)"
| "bridge_lock (BrDisconnect # cs) b = bridge_lock cs False"

inductive wl_step :: "wakelock_run \<Rightarrow> wakelock_run \<Rightarrow> bool" where
  step_acquire:
    "acquire_count (wl r) m = Some w \<Longrightarrow> wl_step r (r\<lparr>wl := w, in_flight := in_flight r + 1\<rparr>)"
| step_release:
    "release_count (wl r) m = Some w \<Longrightarrow> wl_step r (r\<lparr>wl := w, in_flight := in_flight r + 1\<rparr>)"
| step_send:
    "0 < in_flight r \<Longrightarrow> send_update (wl r) 1 = Some w \<Longrightarrow>
     wl_step r (r\<lparr>wl := w, in_flight := in_flight r - 1\<rparr>)"
| step_update:
    "\<not> at_poll r \<Longrightarrow> thread_update conn wl_ok (wl r) (loc r) = (l, cs) \<Longrightarrow>
     wl_step r (r\<lparr>loc := l, at_poll := True, bridge_calls := bridge_calls r @ cs\<rparr>)"
| step_poll:
    "at_poll r \<Longrightarrow> (pr = PollIpc \<longrightarrow> pipe (wl_ipc (wl r)) \<noteq> []) \<Longrightarrow>
     (pr = PollTimeout \<longrightarrow> b_fd (loc r) < 0) \<Longrightarrow>
     thread_poll pr (wl r) (loc r) = Some (True, w, l, cs) \<Longrightarrow>
     wl_step r (r\<lparr>wl := w, loc := l, at_poll := False, bridge_calls := bridge_calls r @ cs\<rparr>)"

inductive wl_reach :: "wakelock_run \<Rightarrow> wakelock_run \<Rightarrow> bool" for r0 where
  reach_init: "wl_reach r0 r0"
| reach_step: "wl_reach r0 r \<Longrightarrow> wl_step r r' \<Longrightarrow> wl_reach r0 r'"

inductive_cases wl_stepE: "wl_step r r'"

definition wakelock_run_init :: "int \<times> int \<Rightarrow> 8 word \<Rightarrow> wakelock_run" where
  "wakelock_run_init pipes d =
     \<lparr>wl = crm_wakelock_init pipes d, loc = wakelock_thread_init, in_flight = 0, at_poll = False, bridge_calls = []\<rparr>"

text \<open>
  No wake-up is lost: while the bridge is connected and the lock differs from what the counters
  ask for, the thread still has an update to do, a message to read, or a client about to send one;
  and on a connected bridge the flag of the thread is the lock of the system.
\<close>

definition wl_inv :: "wakelock_run \<Rightarrow> bool" where
  "wl_inv r \<longleftrightarrow>
     ipc_open (wl_ipc (wl r)) \<and> length (count (wl r)) = MAX_MODULE \<and> (\<forall>n \<in> set (count (wl r)). 0 \<le> n) \<and>
     (b_fd (loc r) \<ge> 0 \<and> wakelock_acquired (loc r) \<noteq> is_held (wl r) \<longrightarrow>
        to_update (loc r) \<or> ipc_contents (wl_ipc (wl r)) \<noteq> [] \<or> 0 < in_flight r) \<and>
     (b_fd (loc r) \<ge> 0 \<longrightarrow> bridge_lock (bridge_calls r) False = wakelock_acquired (loc r))"

lemma bridge_lock_append [simp]: "bridge_lock (xs @ ys) b = bridge_lock ys (bridge_lock xs b)"
  by (induction xs b rule: bridge_lock.induct) auto

lemma acquire_count_eq:
  "acquire_count w m = Some w' \<longleftrightarrow>
     0 \<le> m \<and> nat m < length (count w) \<and> w' = w\<lparr>count := (count w)[nat m := count w ! nat m + 1]\<rparr>"
  by (auto simp: acquire_count_def array_get_def array_set_def bind_Some_iff nat_less_iff)

lemma release_count_eq:
  "release_count w m = Some w' \<longleftrightarrow>
     0 \<le> m \<and> nat m < length (count w) \<and>
     w' = w\<lparr>count := (count w)[nat m := (if count w ! nat m > 0 then count w ! nat m - 1 else count w ! nat m)]\<rparr>"
  by (auto simp: release_count_def array_get_def array_set_def bind_Some_iff nat_less_iff)

lemma send_update_inv:
  assumes "ipc_open (wl_ipc w)" "send_update w m = Some w'"
  shows "ipc_open (wl_ipc w') \<and> count w' = count w \<and> ipc_contents (wl_ipc w') \<noteq> []"
proof -
  from assms(2) obtain ret d q where s: "send_msg_thread (dummy w) (wl_ipc w) m = Some (ret, d, q)"
    and w': "w' = w\<lparr>wl_ipc := q, dummy := d\<rparr>"
    by (auto simp: send_update_def bind_Some_iff split: prod.splits)
  have "ipc_contents q \<noteq> []"
    using send_msg_thread_contents [OF assms(1) s] by (cases ret) auto
  moreover have "ipc_open q" by (rule send_msg_thread_open [OF assms(1) s])
  ultimately show ?thesis by (simp add: w')
qed

text \<open>What a client of the wakelock relies on.\<close>

definition wakelock_ok :: "crm_wakelock \<Rightarrow> bool" where
  "wakelock_ok w \<longleftrightarrow> ipc_open (wl_ipc w) \<and> length (count w) = MAX_MODULE"

lemma send_update_ok:
  assumes "wakelock_ok w"
  shows "\<exists>w'. send_update w m = Some w' \<and> wakelock_ok w' \<and> count w' = count w"
proof -
  obtain r d q where s: "send_msg_thread (dummy w) (wl_ipc w) m = Some (r, d, q)"
    using assms send_msg_thread_returns by (metis wakelock_ok_def)
  then have "ipc_open q" using send_msg_thread_open assms by (auto simp: wakelock_ok_def)
  then show ?thesis using s assms by (simp add: send_update_def wakelock_ok_def)
qed

lemma acquire_ok:
  assumes "wakelock_ok w" "0 \<le> m" "m < 5"
  shows "\<exists>w'. acquire w m = Some w' \<and> wakelock_ok w' \<and>
    count w' = (count w)[nat m := count w ! nat m + 1]"
proof -
  let ?w = "w\<lparr>count := (count w)[nat m := count w ! nat m + 1]\<rparr>"
  have "acquire_count w m = Some ?w" using assms by (simp add: acquire_count_eq wakelock_ok_def)
  moreover have "wakelock_ok ?w" using assms by (simp add: wakelock_ok_def)
  ultimately show ?thesis using send_update_ok [of ?w 1] by (simp add: acquire_def)
qed

lemma release_ok:
  assumes "wakelock_ok w" "0 \<le> m" "m < 5"
  shows "\<exists>w'. release w m = Some w' \<and> wakelock_ok w' \<and>
    count w' = (count w)[nat m := (if count w ! nat m > 0 then count w ! nat m - 1 else count w ! nat m)]"
proof -
  let ?w = "w\<lparr>count := (count w)[nat m := (if count w ! nat m > 0 then count w ! nat m - 1 else count w ! nat m)]\<rparr>"
  have "release_count w m = Some ?w" using assms by (simp add: release_count_eq wakelock_ok_def)
  moreover have "wakelock_ok ?w" using assms by (simp add: wakelock_ok_def)
  ultimately show ?thesis using send_update_ok [of ?w 1] by (simp add: release_def)
qed

lemma is_held_by_module_ok:
  "wakelock_ok w \<Longrightarrow> 0 \<le> m \<Longrightarrow> m < 5 \<Longrightarrow> is_held_by_module w m = Some (count w ! nat m > 0)"
  by (simp add: is_held_by_module_def array_get_def wakelock_ok_def)

lemma wl_inv_update:
  assumes "wl_inv r" "thread_update conn wl_ok (wl r) (loc r) = (l, cs)"
  shows "wl_inv (r\<lparr>loc := l, at_poll := True, bridge_calls := bridge_calls r @ cs\<rparr>)"
  using assms
  by (auto simp: wl_inv_def thread_update_def Let_def split: if_splits option.splits)

lemma wl_inv_poll:
  assumes "wl_inv r" "thread_poll pr (wl r) (loc r) = Some (True, w, l, cs)"
  shows "wl_inv (r\<lparr>wl := w, loc := l, at_poll := False, bridge_calls := bridge_calls r @ cs\<rparr>)"
proof (cases pr)
  case PollIpc
  with assms(2) obtain m q where g: "get_msg_thread (wl_ipc (wl r)) = Some (Some m, q)"
    and e: "w = (wl r)\<lparr>wl_ipc := q\<rparr>" "l = (loc r)\<lparr>to_update := True\<rparr>" "cs = []"
    by (auto simp: thread_poll_def bind_Some_iff Let_def split: if_splits prod.splits)
  have "ipc_open q" using assms(1) g get_msg_thread_open by (auto simp: wl_inv_def)
  then show ?thesis using assms(1) by (auto simp: wl_inv_def e)
qed (use assms in \<open>auto simp: wl_inv_def thread_poll_def split: if_splits\<close>)

lemma wl_inv_step: "wl_step r r' \<Longrightarrow> wl_inv r \<Longrightarrow> wl_inv r'"
proof (induction rule: wl_step.induct)
  case (step_acquire r m w)
  then have "0 \<le> count (wl r) ! nat m + 1"
    using nonneg_nth [of "count (wl r)" "nat m"] by (simp add: wl_inv_def acquire_count_eq)
  then show ?case
    using step_acquire nonneg_update [of "count (wl r)" "count (wl r) ! nat m + 1" "nat m"]
    by (simp add: wl_inv_def acquire_count_eq)
next
  case (step_release r m w)
  let ?v = "if count (wl r) ! nat m > 0 then count (wl r) ! nat m - 1 else count (wl r) ! nat m"
  have "0 \<le> ?v"
    using step_release nonneg_nth [of "count (wl r)" "nat m"] by (simp add: wl_inv_def release_count_eq)
  then show ?case
    using step_release nonneg_update [of "count (wl r)" ?v "nat m"]
    by (simp add: wl_inv_def release_count_eq del: if_split)
next
  case (step_send r w)
  then show ?case using send_update_inv by (auto simp: wl_inv_def is_held_def)
next
  case (step_update r conn wl_ok l cs)
  then show ?case by (intro wl_inv_update)
next
  case (step_poll r pr w l cs)
  then show ?case by (intro wl_inv_poll)
qed

lemma wl_inv_reach: "wl_reach r0 r \<Longrightarrow> wl_inv r0 \<Longrightarrow> wl_inv r"
  by (induction rule: wl_reach.induct) (auto intro: wl_inv_step)

lemma wl_inv_init: "fst pipes \<noteq> -1 \<Longrightarrow> snd pipes \<noteq> -1 \<Longrightarrow> wl_inv (wakelock_run_init pipes d)"
  using ipc_init_open [of pipes "0::int"]
  by (simp add: wl_inv_def wakelock_run_init_def crm_wakelock_init_def wakelock_thread_init_def)

section \<open>Properties\<close>

text \<open>
  C33: in every interleaving of clients and thread, when the thread waits in \<open>poll\<close> on a connected
  bridge with nothing left to do (no message in the pipe, no client between its counter and its
  message), the lock of the system, as the calls made to the bridge have left it, is held exactly when
  some module holds it. A message refused by the full pipe, a request the bridge refuses and a bridge
  that hangs up lose nothing.
\<close>

theorem wakelock_in_line:
  assumes "wl_reach (wakelock_run_init pipes d) r" "fst pipes \<noteq> -1" "snd pipes \<noteq> -1"
    and "b_fd (loc r) \<ge> 0" "\<not> to_update (loc r)"
    and "pipe (wl_ipc (wl r)) = []" "in_flight r = 0"
  shows "bridge_lock (bridge_calls r) False = list_ex (\<lambda>n. n > 0) (count (wl r))"
proof -
  have i: "wl_inv r" using wl_inv_reach wl_inv_init assms by blast
  then have "ipc_contents (wl_ipc (wl r)) = []"
    using assms(6) length_ipc_contents [of "wl_ipc (wl r)"]
    by (auto simp: wl_inv_def ipc_open_def ipc_inv_def)
  then show ?thesis using i assms by (auto simp: wl_inv_def is_held_def)
qed

text \<open>A run in which module 2 takes the lock while the bridge connects.\<close>

definition wl_demo :: wakelock_run where
  "wl_demo = \<lparr>wl = \<lparr>wl_ipc = (crm_ipc_init 0 (3, 4))\<lparr>msg_queue := [1, 0, 0, 0, 0, 0, 0, 0], msg_r_idx := 1, msg_w_idx := 1\<rparr>,
       count = [0, 0, 1, 0, 0], dummy = 1\<rparr>,
     loc = \<lparr>b_fd = 7, wakelock_acquired = True, to_update = False\<rparr>, in_flight = 0, at_poll = True, bridge_calls = [BrConnect (Some 7), BrWakelock True True]\<rparr>"

lemma wl_demo_reach: "wl_reach (wakelock_run_init (3, 4) 0) wl_demo"
proof -
  note defs = wakelock_run_init_def crm_wakelock_init_def wakelock_thread_init_def crm_ipc_init_def
    acquire_count_def send_update_def send_msg_thread_def get_msg_thread_def read_byte_def
    array_get_def array_set_def thread_update_def thread_poll_def is_held_def wl_demo_def list_eval
  let ?r0 = "wakelock_run_init (3, 4) 0"
  let ?q0 = "crm_ipc_init 0 (3, 4) :: int crm_ipc_ctx"
  let ?q1 = "?q0\<lparr>msg_queue := [1, 0, 0, 0, 0, 0, 0, 0], msg_w_idx := 1, num_msgs_in_queue := 1, pipe := [0]\<rparr>"
  let ?w1 = "\<lparr>wl_ipc = ?q0, count = [0, 0, 1, 0, 0], dummy = 0\<rparr>"
  let ?w2 = "\<lparr>wl_ipc = ?q1, count = [0, 0, 1, 0, 0], dummy = 1\<rparr>"
  let ?l1 = "\<lparr>b_fd = 7, wakelock_acquired = True, to_update = False\<rparr>"
  let ?r1 = "?r0\<lparr>wl := ?w1, in_flight := 1\<rparr>"
  let ?r2 = "?r1\<lparr>wl := ?w2, in_flight := 0\<rparr>"
  let ?r3 = "?r2\<lparr>loc := ?l1, at_poll := True, bridge_calls := [BrConnect (Some 7), BrWakelock True True]\<rparr>"
  let ?r4 = "?r3\<lparr>wl := wl wl_demo, loc := ?l1\<lparr>to_update := True\<rparr>, at_poll := False\<rparr>"
  have "wl_step ?r0 ?r1" using step_acquire [of ?r0 2 ?w1] by (simp add: defs)
  moreover have "wl_step ?r1 ?r2" using step_send [of ?r1 ?w2] by (simp add: defs numeral_eq_Suc)
  moreover have "wl_step ?r2 ?r3" using step_update [of ?r2 "Some 7" True ?l1 "[BrConnect (Some 7), BrWakelock True True]"] by (simp add: defs)
  moreover have "wl_step ?r3 ?r4"
    using step_poll [of ?r3 PollIpc "wl wl_demo" "?l1\<lparr>to_update := True\<rparr>" "[]"] by (simp add: defs)
  moreover have "wl_step ?r4 wl_demo"
    using step_update [of ?r4 None True ?l1 "[]"] by (simp add: defs)
  ultimately show ?thesis by (meson reach_init reach_step)
qed

theorem wakelock_in_line_witness:
  "bridge_lock [BrConnect (Some 7), BrWakelock True True] False = list_ex (\<lambda>n. n > 0) [0, 0, 1, 0, 0::int]"
  using wakelock_in_line [OF wl_demo_reach] by (simp add: wl_demo_def crm_ipc_init_def)

text \<open>
  A counter never becomes negative and counts acquisitions minus releases of its own module
  only: a release without an acquisition changes nothing, and an acquisition followed by its
  release restores the counters, so that the module holds the lock after it exactly when it did
  before.
\<close>

theorem wakelock_acquire_release:
  assumes "length (count w) = MAX_MODULE" "0 \<le> m" "m < 5" "\<forall>n \<in> set (count w). 0 \<le> n"
  shows "\<exists>w1 w2. acquire_count w m = Some w1 \<and> is_held_by_module w1 m = Some True \<and>
    release_count w1 m = Some w2 \<and> w2 = w \<and>
    (\<exists>w3. release_count w m = Some w3 \<and> (\<forall>n \<in> set (count w3). 0 \<le> n))"
proof -
  have m: "nat m < length (count w)" using assms by simp
  then have n: "0 \<le> count w ! nat m" using nonneg_nth [OF assms(4)] by blast
  let ?w1 = "w\<lparr>count := (count w)[nat m := count w ! nat m + 1]\<rparr>"
  let ?w3 = "w\<lparr>count := (count w)[nat m := (if count w ! nat m > 0 then count w ! nat m - 1 else count w ! nat m)]\<rparr>"
  have "acquire_count w m = Some ?w1" using m assms by (simp add: acquire_count_eq)
  moreover have "is_held_by_module ?w1 m = Some True"
    using m n assms by (simp add: is_held_by_module_def array_get_def)
  moreover have "release_count ?w1 m = Some w" using m n assms by (simp add: release_count_eq)
  moreover have "release_count w m = Some ?w3" using m assms by (simp add: release_count_eq)
  moreover have "\<forall>n \<in> set (count ?w3). 0 \<le> n"
    using nonneg_update [OF assms(4), of "count w ! nat m - 1" "nat m"] assms(4) by simp
  ultimately show ?thesis by blast
qed

theorem wakelock_acquire_release_witness:
  "\<exists>w1 w2. acquire_count (crm_wakelock_init (3, 4) 0) 2 = Some w1 \<and> is_held_by_module w1 2 = Some True \<and>
    release_count w1 2 = Some w2 \<and> w2 = crm_wakelock_init (3, 4) 0"
  using wakelock_acquire_release [of "crm_wakelock_init (3, 4) 0" 2]
  by (auto simp: crm_wakelock_init_def)

end
