(* ===== verification/Crm_Watchdog.thy ===== *)
theory Crm_Watchdog
  imports Crm_Time Crm_Wakelock
begin

text \<open>
  plugins/control/src/watchdog.h and watchdog.c: the watchdog thread of the Control module. It
  aborts the program when a request of Control takes too long (timer \<open>REQ_IDX\<close>) or when Control
  does not answer a ping (timer \<open>PING_IDX\<close>). The messages are 64-bit scalars.

  An abort of the watchdog is \<open>None\<close>, here the watchdog's purpose as well as its guard against
  a wrong use. The wakelock is the model of \<open>Crm_Wakelock\<close>; the clock is an argument.
\<close>

unbundle bit_operations_syntax

section \<open>Messages\<close>

abbreviation (input) MAX_PING_ELAPSED :: int where "MAX_PING_ELAPSED \<equiv> 10000"
abbreviation (input) MAX_REQ_ID :: int where "MAX_REQ_ID \<equiv> 2147483647"
abbreviation (input) MAX_TIMEOUT :: int where "MAX_TIMEOUT \<equiv> 8388607"

abbreviation (input) CRM_WATCH_START :: int where "CRM_WATCH_START \<equiv> 1"
abbreviation (input) CRM_WATCH_STOP :: int where "CRM_WATCH_STOP \<equiv> 2"
abbreviation (input) CRM_WATCH_PING :: int where "CRM_WATCH_PING \<equiv> 3"
abbreviation (input) CRM_WATCH_PONG :: int where "CRM_WATCH_PONG \<equiv> 4"

definition watchdog_gen_scalar :: "int \<Rightarrow> int \<Rightarrow> int \<Rightarrow> 64 word option" where
  "watchdog_gen_scalar request timeout rid = do {
     ASSERT (timeout \<le> MAX_TIMEOUT);
     ASSERT (rid \<le> MAX_REQ_ID);
     Some (push_bit 40 (word_of_int timeout AND 0x7FFFFF) OR
           push_bit 8 (word_of_int rid AND 0x7FFFFFFF) OR
           (word_of_int request AND 0xFF))
   }"

definition watchdog_get_request :: "64 word \<Rightarrow> int" where
  "watchdog_get_request s = sint (s AND 0xFF)"

definition watchdog_get_id :: "64 word \<Rightarrow> int" where
  "watchdog_get_id s = sint (signed_drop_bit 8 s AND 0x7FFFFFFF)"

definition watchdog_get_timeout :: "64 word \<Rightarrow> int" where
  "watchdog_get_timeout s = sint (signed_drop_bit 40 s AND 0x7FFFFF)"

definition watchdog_get_new_id :: "int \<Rightarrow> int" where
  "watchdog_get_new_id rid = (if rid < MAX_REQ_ID then rid + 1 else 0)"

section \<open>Timers\<close>

record watchdog_timer =
  tid :: int
  armed :: bool
  tend :: timespec
  waiting_pong :: bool

abbreviation (input) PING_IDX :: nat where "PING_IDX \<equiv> 0"
abbreviation (input) REQ_IDX :: nat where "REQ_IDX \<equiv> 1"

abbreviation (input) WAKELOCK_WATCHDOG_PING :: int where "WAKELOCK_WATCHDOG_PING \<equiv> 0"
abbreviation (input) WAKELOCK_WATCHDOG_REQ :: int where "WAKELOCK_WATCHDOG_REQ \<equiv> 1"

abbreviation (input) INT_MAX :: int where "INT_MAX \<equiv> 2147483647"

text \<open>The loop of \<open>get_timeout\<close> from index \<open>i\<close>, with the timeout and the index found so far.\<close>

fun get_timeout_loop :: "timespec \<Rightarrow> watchdog_timer list \<Rightarrow> int \<Rightarrow> int \<Rightarrow> int \<Rightarrow> int \<times> int" where
  "get_timeout_loop now [] i timeout idx = (timeout, idx)"
| "get_timeout_loop now (t # ts) i timeout idx =
     (if armed t
      then (let remain = crm_time_get_remain_ms now (tend t)
            in if remain \<le> 1 then (0, i)
               else if remain < timeout then get_timeout_loop now ts (i + 1) remain i
               else get_timeout_loop now ts (i + 1) timeout idx)
      else get_timeout_loop now ts (i + 1) timeout idx)"

definition get_timeout :: "timespec \<Rightarrow> watchdog_timer list \<Rightarrow> (int \<times> int) option" where
  "get_timeout now timer = do {
     let (timeout, idx) = get_timeout_loop now timer 0 INT_MAX (-1);
     ASSERT (timeout \<noteq> INT_MAX);
     ASSERT (idx \<noteq> -1);
     Some (timeout, idx)
   }"

section \<open>Handling a message\<close>

definition handle_start ::
  "timespec \<Rightarrow> watchdog_timer list \<Rightarrow> int \<Rightarrow> int \<Rightarrow> crm_wakelock \<Rightarrow> (watchdog_timer list \<times> crm_wakelock) option" where
  "handle_start now timer timeout rid w = do {
     let t = timer ! REQ_IDX;
     ASSERT (if tid t < MAX_REQ_ID then rid = tid t + 1 else rid = 0);
     held \<leftarrow> is_held_by_module w WAKELOCK_WATCHDOG_REQ;
     ASSERT (armed t = held);
     w \<leftarrow> (if \<not> held then acquire w WAKELOCK_WATCHDOG_REQ else Some w);
     Some (timer[REQ_IDX := t\<lparr>tid := rid, armed := True, tend := crm_time_add_ms now timeout\<rparr>], w)
   }"

definition handle_stop ::
  "watchdog_timer list \<Rightarrow> int \<Rightarrow> crm_wakelock \<Rightarrow> (watchdog_timer list \<times> crm_wakelock) option" where
  "handle_stop timer rid w = do {
     let t = timer ! REQ_IDX;
     ASSERT (armed t);
     if tid t \<noteq> rid then Some (timer, w)
     else do {
       w \<leftarrow> release w WAKELOCK_WATCHDOG_REQ;
       held \<leftarrow> is_held_by_module w WAKELOCK_WATCHDOG_REQ;
       ASSERT (held = False);
       Some (timer[REQ_IDX := t\<lparr>armed := False\<rparr>], w)
     }
   }"

definition handle_pong ::
  "timespec \<Rightarrow> watchdog_timer list \<Rightarrow> int \<Rightarrow> int \<Rightarrow> crm_wakelock \<Rightarrow> (watchdog_timer list \<times> crm_wakelock) option" where
  "handle_pong now timer rid ping_period w = do {
     let t = timer ! PING_IDX;
     ASSERT (waiting_pong t);
     ASSERT (tid t = rid);
     w \<leftarrow> release w WAKELOCK_WATCHDOG_PING;
     held \<leftarrow> is_held_by_module w WAKELOCK_WATCHDOG_PING;
     ASSERT (held = False);
     Some (timer[PING_IDX := t\<lparr>waiting_pong := False, tend := crm_time_add_ms now ping_period\<rparr>], w)
   }"

definition handle_msg ::
  "timespec \<Rightarrow> watchdog_timer list \<Rightarrow> 64 word \<Rightarrow> int \<Rightarrow> crm_wakelock \<Rightarrow>
   (watchdog_timer list \<times> crm_wakelock) option" where
  "handle_msg now timer msg ping_period w =
     (let request = watchdog_get_request msg;
          timeout = watchdog_get_timeout msg;
          rid = watchdog_get_id msg
      in if request = CRM_WATCH_START then handle_start now timer timeout rid w
         else if request = CRM_WATCH_STOP then handle_stop timer rid w
         else if request = CRM_WATCH_PONG then handle_pong now timer rid ping_period w
         else None)"

section \<open>The loop\<close>

text \<open>
  The initial timers; the fields the code leaves uninitialised are those of \<open>garbage\<close>.
\<close>

definition watchdog_init :: "timespec \<Rightarrow> watchdog_timer \<Rightarrow> int \<Rightarrow> watchdog_timer list" where
  "watchdog_init now garbage ping_period =
     [\<lparr>tid = -1, armed = True, tend = crm_time_add_ms now ping_period, waiting_pong = False\<rparr>,
      garbage\<lparr>tid := -1, armed := False\<rparr>]"

record watchdog =
  wd_timer :: "watchdog_timer list"
  wd_wakelock :: crm_wakelock
  wd_run :: bool
  wd_sent :: "64 word list"

text \<open>What \<open>poll\<close> returns with: an error, the timeout, or messages, each with the time it is read.\<close>

datatype wd_input = WdError | WdTimeout timespec | WdMsgs "(timespec \<times> 64 word) list"

definition watchdog_expired :: "timespec \<Rightarrow> int \<Rightarrow> watchdog \<Rightarrow> watchdog option" where
  "watchdog_expired now idx s =
     (if idx = int PING_IDX
      then (let t = wd_timer s ! PING_IDX
            in if waiting_pong t then None
               else do {
                 w \<leftarrow> acquire (wd_wakelock s) WAKELOCK_WATCHDOG_PING;
                 let t = t\<lparr>tid := watchdog_get_new_id (tid t), waiting_pong := True,
                           tend := crm_time_add_ms now MAX_PING_ELAPSED\<rparr>;
                 msg \<leftarrow> watchdog_gen_scalar CRM_WATCH_PING 0 (tid t);
                 Some (s\<lparr>wd_timer := (wd_timer s)[PING_IDX := t], wd_wakelock := w,
                         wd_sent := wd_sent s @ [msg]\<rparr>)
               })
      else if idx = int REQ_IDX then None
      else Some s)"

fun watchdog_msgs :: "int \<Rightarrow> (timespec \<times> 64 word) list \<Rightarrow> watchdog \<Rightarrow> watchdog option" where
  "watchdog_msgs ping_period [] s = Some s"
| "watchdog_msgs ping_period ((now, msg) # ms) s =
     (if msg = -1 then watchdog_msgs ping_period ms (s\<lparr>wd_run := False\<rparr>)
      else do {
        (timer, w) \<leftarrow> handle_msg now (wd_timer s) msg ping_period (wd_wakelock s);
        watchdog_msgs ping_period ms (s\<lparr>wd_timer := timer, wd_wakelock := w\<rparr>)
      })"

text \<open>One iteration of the loop; \<open>now\<close> is the time \<open>get_timeout\<close> reads.\<close>

definition watchdog_iter :: "int \<Rightarrow> timespec \<Rightarrow> wd_input \<Rightarrow> watchdog \<Rightarrow> watchdog option" where
  "watchdog_iter ping_period now inp s = do {
     (timeout, idx) \<leftarrow> get_timeout now (wd_timer s);
     (case inp of
        WdError \<Rightarrow> None
      | WdTimeout now' \<Rightarrow> watchdog_expired now' idx s
      | WdMsgs ms \<Rightarrow> watchdog_msgs ping_period ms s)
   }"

definition crm_watchdog_start ::
  "timespec \<Rightarrow> watchdog_timer \<Rightarrow> int \<Rightarrow> crm_wakelock \<Rightarrow> watchdog option" where
  "crm_watchdog_start now garbage ping_period w = do {
     ASSERT (ping_period > 0);
     Some \<lparr>wd_timer = watchdog_init now garbage ping_period, wd_wakelock = w, wd_run = True, wd_sent = []\<rparr>
   }"

section \<open>Words and scalars\<close>

lemma watchdog_gen_scalar_fields:
  assumes "0 \<le> timeout" "timeout \<le> MAX_TIMEOUT" "0 \<le> rid" "rid \<le> MAX_REQ_ID"
    and "0 \<le> request" "request < 256"
    and "watchdog_gen_scalar request timeout rid = Some s"
  shows "watchdog_get_request s = request" "watchdog_get_id s = rid" "watchdog_get_timeout s = timeout"
proof -
  have s: "s = push_bit 40 (take_bit 23 (word_of_int timeout)) OR
           push_bit 8 (take_bit 31 (word_of_int rid)) OR take_bit 8 (word_of_int request)"
    using assms(2,4,7) by (simp add: watchdog_gen_scalar_def and_field_masks)
  have t: "timeout < 2 ^ 23" and i: "rid < 2 ^ 31" and r: "request < 2 ^ 8" using assms by simp_all
  note bits = scalar_bits word_of_int_field [OF assms(1) t] word_of_int_field [OF assms(3) i]
    word_of_int_field [OF assms(5) r]
  have "take_bit 8 s = word_of_int request"
    unfolding s by (rule bit_word_eqI) (auto simp: bits simp del: take_bit_of_int)
  then show "watchdog_get_request s = request"
    unfolding watchdog_get_request_def and_field_masks
    by (intro word_eq_take_bit_sint [OF assms(5) r]) auto
  have "take_bit 31 (signed_drop_bit 8 s) = word_of_int rid"
    unfolding s by (rule bit_word_eqI) (auto simp: bits simp del: take_bit_of_int)
  then show "watchdog_get_id s = rid"
    unfolding watchdog_get_id_def and_field_masks
    by (intro word_eq_take_bit_sint [OF assms(3) i]) auto
  have "take_bit 23 (signed_drop_bit 40 s) = word_of_int timeout"
    unfolding s by (rule bit_word_eqI) (auto simp: bits simp del: take_bit_of_int)
  then show "watchdog_get_timeout s = timeout"
    unfolding watchdog_get_timeout_def and_field_masks
    by (intro word_eq_take_bit_sint [OF assms(1) t]) auto
qed

lemma watchdog_get_id_range: "0 \<le> watchdog_get_id m \<and> watchdog_get_id m \<le> MAX_REQ_ID"
proof -
  have "uint (take_bit 31 (signed_drop_bit 8 m)) < 2 ^ 31"
    by (metis take_bit_int_less_exp unsigned_take_bit_eq)
  moreover have "0 \<le> uint (take_bit 31 (signed_drop_bit 8 m))" by simp
  ultimately have "sint (take_bit 31 (signed_drop_bit 8 m)) = uint (take_bit 31 (signed_drop_bit 8 m))"
    by (intro word_eq_take_bit_sint [of _ 31]) auto
  with \<open>uint (take_bit 31 (signed_drop_bit 8 m)) < 2 ^ 31\<close> show ?thesis
    by (simp add: watchdog_get_id_def and_field_masks)
qed

section \<open>Invariant\<close>

definition id_ok :: "int \<Rightarrow> bool" where
  "id_ok i \<longleftrightarrow> -1 \<le> i \<and> i \<le> MAX_REQ_ID"

definition wd_ok :: "watchdog_timer list \<Rightarrow> crm_wakelock \<Rightarrow> bool" where
  "wd_ok timer w \<longleftrightarrow>
     length timer = 2 \<and> wakelock_ok w \<and> armed (timer ! PING_IDX) \<and>
     id_ok (tid (timer ! PING_IDX)) \<and> id_ok (tid (timer ! REQ_IDX)) \<and>
     count w ! PING_IDX = (if waiting_pong (timer ! PING_IDX) then 1 else 0) \<and>
     count w ! REQ_IDX = (if armed (timer ! REQ_IDX) then 1 else 0)"

lemma new_id_ok: "id_ok i \<Longrightarrow> 0 \<le> watchdog_get_new_id i \<and> watchdog_get_new_id i \<le> MAX_REQ_ID"
  by (auto simp: id_ok_def watchdog_get_new_id_def)

lemma wd_okD:
  assumes "wd_ok timer w"
  shows "length timer = 2" "wakelock_ok w" "length (count w) = 5" "armed (timer ! PING_IDX)"
  using assms by (auto simp: wd_ok_def wakelock_ok_def)

lemma handle_start_ok:
  assumes "wd_ok timer w"
  shows "if rid = watchdog_get_new_id (tid (timer ! REQ_IDX))
    then \<exists>w'. handle_start now timer timeout rid w =
        Some (timer[REQ_IDX := (timer ! REQ_IDX)\<lparr>tid := rid, armed := True,
               tend := crm_time_add_ms now timeout\<rparr>], w') \<and>
      wd_ok (timer[REQ_IDX := (timer ! REQ_IDX)\<lparr>tid := rid, armed := True,
               tend := crm_time_add_ms now timeout\<rparr>]) w'
    else handle_start now timer timeout rid w = None"
proof -
  note d = wd_okD [OF assms]
  have n: "(if tid (timer ! REQ_IDX) < MAX_REQ_ID then rid = tid (timer ! REQ_IDX) + 1 else rid = 0)
      \<longleftrightarrow> rid = watchdog_get_new_id (tid (timer ! REQ_IDX))"
    by (simp add: watchdog_get_new_id_def)
  have h: "is_held_by_module w 1 = Some (armed (timer ! REQ_IDX))"
    using assms d by (simp add: is_held_by_module_ok wd_ok_def)
  have i: "id_ok (watchdog_get_new_id (tid (timer ! REQ_IDX)))"
    using new_id_ok [of "tid (timer ! REQ_IDX)"] assms by (simp add: wd_ok_def id_ok_def)
  obtain w1 where w1: "acquire w 1 = Some w1" "wakelock_ok w1" "count w1 = (count w)[1 := count w ! 1 + 1]"
    using acquire_ok [OF d(2), of 1] by auto
  have s: "handle_start now timer timeout rid w =
      (if rid = watchdog_get_new_id (tid (timer ! REQ_IDX))
       then Some (timer[REQ_IDX := (timer ! REQ_IDX)\<lparr>tid := rid, armed := True,
               tend := crm_time_add_ms now timeout\<rparr>], if armed (timer ! REQ_IDX) then w else w1)
       else None)"
    unfolding handle_start_def Let_def n by (simp add: h w1(1))
  show ?thesis
    unfolding s using assms d(1-3) i w1
    by (cases "armed (timer ! REQ_IDX)") (simp_all add: wd_ok_def)
qed

lemma handle_stop_ok:
  assumes "wd_ok timer w"
  shows "if armed (timer ! REQ_IDX)
    then \<exists>w'. handle_stop timer rid w =
        Some (if tid (timer ! REQ_IDX) = rid then timer[REQ_IDX := (timer ! REQ_IDX)\<lparr>armed := False\<rparr>]
              else timer, w') \<and>
      wd_ok (if tid (timer ! REQ_IDX) = rid then timer[REQ_IDX := (timer ! REQ_IDX)\<lparr>armed := False\<rparr>]
             else timer) w'
    else handle_stop timer rid w = None"
proof -
  note d = wd_okD [OF assms]
  obtain w1 where w1: "release w 1 = Some w1" "wakelock_ok w1"
    "count w1 = (count w)[1 := (if count w ! 1 > 0 then count w ! 1 - 1 else count w ! 1)]"
    using release_ok [OF d(2), of 1] by (auto simp del: if_split)
  show ?thesis
  proof (cases "armed (timer ! REQ_IDX)")
    case True
    then have c: "count w1 = (count w)[1 := 0]" using w1(3) assms by (simp add: wd_ok_def)
    have h: "is_held_by_module w1 1 = Some False" using w1(2) d(3) c by (simp add: is_held_by_module_ok)
    show ?thesis using True assms d(1,3) w1(1,2) c h
      by (cases "tid (timer ! REQ_IDX) = rid") (simp_all add: handle_stop_def wd_ok_def)
  qed (simp add: handle_stop_def)
qed

lemma handle_pong_ok:
  assumes "wd_ok timer w"
  shows "if waiting_pong (timer ! PING_IDX) \<and> rid = tid (timer ! PING_IDX)
    then \<exists>w'. handle_pong now timer rid ping_period w =
        Some (timer[PING_IDX := (timer ! PING_IDX)\<lparr>waiting_pong := False,
               tend := crm_time_add_ms now ping_period\<rparr>], w') \<and>
      wd_ok (timer[PING_IDX := (timer ! PING_IDX)\<lparr>waiting_pong := False,
               tend := crm_time_add_ms now ping_period\<rparr>]) w'
    else handle_pong now timer rid ping_period w = None"
proof -
  note d = wd_okD [OF assms]
  obtain w1 where w1: "release w 0 = Some w1" "wakelock_ok w1"
    "count w1 = (count w)[0 := (if count w ! 0 > 0 then count w ! 0 - 1 else count w ! 0)]"
    using release_ok [OF d(2), of 0] by (auto simp del: if_split)
  show ?thesis
  proof (cases "waiting_pong (timer ! PING_IDX) \<and> rid = tid (timer ! PING_IDX)")
    case True
    then have c: "count w1 = (count w)[0 := 0]" using w1(3) assms by (simp add: wd_ok_def)
    have h: "is_held_by_module w1 0 = Some False" using w1(2) d(3) c by (simp add: is_held_by_module_ok)
    show ?thesis using True assms d(1,3) w1(1,2) c h by (simp add: handle_pong_def wd_ok_def)
  qed (auto simp: handle_pong_def Let_def)
qed

lemma handle_msg_inv:
  "wd_ok timer w \<Longrightarrow> handle_msg now timer msg ping_period w = Some (timer', w') \<Longrightarrow> wd_ok timer' w'"
  using handle_start_ok [of timer w "watchdog_get_id msg" now "watchdog_get_timeout msg"]
    handle_stop_ok [of timer w "watchdog_get_id msg"]
    handle_pong_ok [of timer w "watchdog_get_id msg" now ping_period]
  by (auto simp: handle_msg_def Let_def split: if_splits)

lemma watchdog_msgs_inv:
  "wd_ok (wd_timer s) (wd_wakelock s) \<Longrightarrow> watchdog_msgs ping_period ms s = Some s' \<Longrightarrow>
   wd_ok (wd_timer s') (wd_wakelock s')"
proof (induction ping_period ms s rule: watchdog_msgs.induct)
  case (2 ping_period now msg ms s)
  then show ?case
    by (auto simp: bind_Some_iff dest: handle_msg_inv split: if_splits)
qed simp

lemma watchdog_expired_ok:
  assumes "wd_ok (wd_timer s) (wd_wakelock s)" "idx = 0 \<or> idx = 1"
  shows "if idx = 0 \<and> \<not> waiting_pong (wd_timer s ! PING_IDX)
    then \<exists>s' msg. watchdog_expired now idx s = Some s' \<and> wd_ok (wd_timer s') (wd_wakelock s') \<and>
      wd_timer s' ! REQ_IDX = wd_timer s ! REQ_IDX \<and>
      waiting_pong (wd_timer s' ! PING_IDX) \<and> wd_sent s' = wd_sent s @ [msg] \<and>
      watchdog_get_request msg = CRM_WATCH_PING \<and>
      watchdog_get_id msg = tid (wd_timer s' ! PING_IDX)
    else watchdog_expired now idx s = None"
proof -
  note d = wd_okD [OF assms(1)]
  let ?t = "wd_timer s ! PING_IDX"
  obtain w1 where w1: "acquire (wd_wakelock s) 0 = Some w1" "wakelock_ok w1"
    "count w1 = (count (wd_wakelock s))[0 := count (wd_wakelock s) ! 0 + 1]"
    using acquire_ok [OF d(2), of 0] by auto
  have i: "0 \<le> watchdog_get_new_id (tid ?t)" "watchdog_get_new_id (tid ?t) \<le> MAX_REQ_ID"
    using assms new_id_ok by (auto simp: wd_ok_def)
  obtain m where m: "watchdog_gen_scalar 3 0 (watchdog_get_new_id (tid ?t)) = Some m"
    using i by (simp add: watchdog_gen_scalar_def)
  have "watchdog_get_request m = 3" "watchdog_get_id m = watchdog_get_new_id (tid ?t)"
    using watchdog_gen_scalar_fields [OF _ _ i _ _ m] by auto
  then show ?thesis
    using assms d(1,3) w1 i m
    by (cases "waiting_pong ?t") (auto simp: watchdog_expired_def Let_def wd_ok_def id_ok_def)
qed

lemma get_timeout_idx:
  "length timer = 2 \<Longrightarrow> get_timeout now timer = Some (timeout, idx) \<Longrightarrow> idx = 0 \<or> idx = 1"
  by (auto simp: get_timeout_def numeral_2_eq_2 length_Suc_conv Let_def split: if_splits)

lemma watchdog_iter_inv:
  assumes "wd_ok (wd_timer s) (wd_wakelock s)" "watchdog_iter ping_period now inp s = Some s'"
  shows "wd_ok (wd_timer s') (wd_wakelock s')"
proof (cases inp)
  case (WdTimeout now')
  with assms obtain timeout idx where "get_timeout now (wd_timer s) = Some (timeout, idx)"
    "watchdog_expired now' idx s = Some s'"
    by (auto simp: watchdog_iter_def bind_Some_iff)
  then show ?thesis
    using watchdog_expired_ok [OF assms(1), of idx now'] get_timeout_idx wd_okD(1) [OF assms(1)]
    by (auto split: if_splits)
qed (use assms watchdog_msgs_inv in \<open>auto simp: watchdog_iter_def bind_Some_iff\<close>)

fun watchdog_run :: "int \<Rightarrow> (timespec \<times> wd_input) list \<Rightarrow> watchdog \<Rightarrow> watchdog option" where
  "watchdog_run ping_period [] s = Some s"
| "watchdog_run ping_period ((now, inp) # is) s =
     (if wd_run s then do { s \<leftarrow> watchdog_iter ping_period now inp s; watchdog_run ping_period is s }
      else Some s)"

lemma watchdog_run_inv:
  "wd_ok (wd_timer s) (wd_wakelock s) \<Longrightarrow> watchdog_run ping_period is s = Some s' \<Longrightarrow>
   wd_ok (wd_timer s') (wd_wakelock s')"
proof (induction ping_period "is" s rule: watchdog_run.induct)
  case (2 ping_period now inp iss s)
  then show ?case using watchdog_iter_inv by (auto simp: bind_Some_iff split: if_splits)
qed simp

section \<open>Properties\<close>

text \<open>
  The three fields of a watchdog message come back as they were put in, over their whole
  ranges: the request on a byte, the identifier on 31 bits, the timeout on 23 bits.
\<close>

theorem watchdog_scalar_roundtrip:
  assumes "0 \<le> timeout" "timeout \<le> MAX_TIMEOUT" "0 \<le> rid" "rid \<le> MAX_REQ_ID"
    and "0 \<le> request" "request < 256"
  shows "\<exists>s. watchdog_gen_scalar request timeout rid = Some s \<and>
    watchdog_get_request s = request \<and> watchdog_get_id s = rid \<and> watchdog_get_timeout s = timeout"
  using assms watchdog_gen_scalar_fields [OF assms] by (auto simp: watchdog_gen_scalar_def)

theorem watchdog_scalar_roundtrip_witness:
  "\<exists>s. watchdog_gen_scalar CRM_WATCH_START 8388607 2147483647 = Some s \<and>
    watchdog_get_request s = 1 \<and> watchdog_get_id s = 2147483647 \<and> watchdog_get_timeout s = 8388607"
  using watchdog_scalar_roundtrip [of 8388607 2147483647 1] by simp

text \<open>
  Through any run of the watchdog thread, the wakelock of the request timer is held (once)
  exactly while the request timer is armed, and that of the ping timer exactly while an answer is
  awaited. No path leaks a lock or releases one twice.
\<close>

theorem watchdog_wakelock_balanced:
  assumes "wakelock_ok w" "count w ! 0 = 0" "count w ! 1 = 0"
    and "crm_watchdog_start now garbage ping_period w = Some s"
    and "watchdog_run ping_period is s = Some s'"
  shows "count (wd_wakelock s') ! 1 = (if armed (wd_timer s' ! REQ_IDX) then 1 else 0) \<and>
    count (wd_wakelock s') ! 0 = (if waiting_pong (wd_timer s' ! PING_IDX) then 1 else 0)"
proof -
  have "wd_ok (wd_timer s) (wd_wakelock s)"
    using assms(1-4) by (auto simp: crm_watchdog_start_def wd_ok_def watchdog_init_def id_ok_def)
  from watchdog_run_inv [OF this assms(5)] show ?thesis by (simp add: wd_ok_def)
qed

text \<open>
  C31: which messages the thread accepts, and what each one does. A START is accepted with the identifier that follows
  the last one (with its wrap-around), whether the request timer is armed or not; it arms the timer with its identifier and its
  deadline, so that a pending request is overwritten. A STOP is accepted while the timer is armed, with any identifier: with the
  current one it disarms the timer, with another one it is ignored. A PONG is accepted while an answer is awaited, with the identifier
  of the ping, and arms the timer of the next ping. Every other message aborts. (The comment of watchdog.h asks more of a STOP, the identifier of the
  request, and less of a START, any higher identifier.)
\<close>

theorem watchdog_protocol:
  assumes "wd_ok timer w"
  shows "(handle_msg now timer msg ping_period w = None \<longleftrightarrow>
    \<not> ((watchdog_get_request msg = CRM_WATCH_START \<and>
         watchdog_get_id msg = watchdog_get_new_id (tid (timer ! REQ_IDX))) \<or>
      (watchdog_get_request msg = CRM_WATCH_STOP \<and> armed (timer ! REQ_IDX)) \<or>
      (watchdog_get_request msg = CRM_WATCH_PONG \<and> waiting_pong (timer ! PING_IDX) \<and>
         watchdog_get_id msg = tid (timer ! PING_IDX)))) \<and>
    (\<forall>timer' w'. handle_msg now timer msg ping_period w = Some (timer', w') \<longrightarrow>
      wd_ok timer' w' \<and>
      timer' =
        (if watchdog_get_request msg = CRM_WATCH_START
         then timer[REQ_IDX := (timer ! REQ_IDX)\<lparr>tid := watchdog_get_id msg, armed := True,
                tend := crm_time_add_ms now (watchdog_get_timeout msg)\<rparr>]
         else if watchdog_get_request msg = CRM_WATCH_PONG
         then timer[PING_IDX := (timer ! PING_IDX)\<lparr>waiting_pong := False, tend := crm_time_add_ms now ping_period\<rparr>]
         else if watchdog_get_id msg = tid (timer ! REQ_IDX)
         then timer[REQ_IDX := (timer ! REQ_IDX)\<lparr>armed := False\<rparr>]
         else timer))"
    (is "?A \<and> ?B")
proof
  note h = handle_start_ok [OF assms(1), of "watchdog_get_id msg" now "watchdog_get_timeout msg"]
    handle_stop_ok [OF assms(1), of "watchdog_get_id msg"]
    handle_pong_ok [OF assms(1), of "watchdog_get_id msg" now ping_period]
  show ?A
    unfolding handle_msg_def Let_def using h by (auto split: if_splits)
  have "timer' = (if watchdog_get_request msg = 1
         then timer[1 := (timer ! 1)\<lparr>tid := watchdog_get_id msg, armed := True,
                tend := crm_time_add_ms now (watchdog_get_timeout msg)\<rparr>]
         else if watchdog_get_request msg = 4
         then timer[0 := (timer ! 0)\<lparr>waiting_pong := False, tend := crm_time_add_ms now ping_period\<rparr>]
         else if watchdog_get_id msg = tid (timer ! 1)
         then timer[1 := (timer ! 1)\<lparr>armed := False\<rparr>]
         else timer)"
    if m: "handle_msg now timer msg ping_period w = Some (timer', w')" for timer' w'
  proof -
    consider "watchdog_get_request msg = 1" | "watchdog_get_request msg = 2" | "watchdog_get_request msg = 4"
      using m by (auto simp: handle_msg_def Let_def split: if_splits)
    then show ?thesis
    proof cases
      case 1
      then show ?thesis using m h(1) by (simp add: handle_msg_def Let_def split: if_splits)
    next
      case 2
      then show ?thesis using m h(2) by (simp add: handle_msg_def Let_def split: if_splits)
    next
      case 3
      then show ?thesis using m h(3) by (simp add: handle_msg_def Let_def split: if_splits)
    qed
  qed
  then show ?B using handle_msg_inv [OF assms(1), of now msg ping_period] by blast
qed

text \<open>A watchdog that has just started, with nothing held.\<close>

definition wd_demo_wakelock :: crm_wakelock where
  "wd_demo_wakelock = crm_wakelock_init (3, 4) 0"

definition wd_demo_timer :: watchdog_timer where
  "wd_demo_timer = \<lparr>tid = 0, armed = False, tend = \<lparr>tv_sec = 0, tv_nsec = 0\<rparr>, waiting_pong = False\<rparr>"

lemma wd_demo_ok: "wakelock_ok wd_demo_wakelock" "count wd_demo_wakelock = [0, 0, 0, 0, 0]"
  using ipc_init_open [of "(3, 4)" "0::int"]
  by (simp_all add: wd_demo_wakelock_def wakelock_ok_def crm_wakelock_init_def list_eval)

lemma wd_demo_wd_ok:
  "wd_ok (watchdog_init \<lparr>tv_sec = 5, tv_nsec = 0\<rparr> wd_demo_timer 1000) wd_demo_wakelock"
  using wd_demo_ok by (simp add: wd_ok_def watchdog_init_def wd_demo_timer_def id_ok_def)

theorem watchdog_wakelock_balanced_witness:
  "\<exists>s. crm_watchdog_start \<lparr>tv_sec = 5, tv_nsec = 0\<rparr> wd_demo_timer 1000 wd_demo_wakelock = Some s \<and>
     count (wd_wakelock s) ! 1 = (if armed (wd_timer s ! REQ_IDX) then 1 else 0)"
proof -
  let ?s = "\<lparr>wd_timer = watchdog_init \<lparr>tv_sec = 5, tv_nsec = 0\<rparr> wd_demo_timer 1000,
             wd_wakelock = wd_demo_wakelock, wd_run = True, wd_sent = []\<rparr>"
  have s: "crm_watchdog_start \<lparr>tv_sec = 5, tv_nsec = 0\<rparr> wd_demo_timer 1000 wd_demo_wakelock = Some ?s"
    by (simp add: crm_watchdog_start_def)
  have "watchdog_run 1000 [] ?s = Some ?s" by simp
  from watchdog_wakelock_balanced [OF wd_demo_ok(1) _ _ s this] s show ?thesis
    by (auto simp: wd_demo_ok)
qed

theorem watchdog_protocol_witness:
  "handle_msg \<lparr>tv_sec = 5, tv_nsec = 0\<rparr>
     (watchdog_init \<lparr>tv_sec = 5, tv_nsec = 0\<rparr> wd_demo_timer 1000) 2 1000 wd_demo_wakelock = None \<and>
   handle_msg \<lparr>tv_sec = 5, tv_nsec = 0\<rparr>
     (watchdog_init \<lparr>tv_sec = 5, tv_nsec = 0\<rparr> wd_demo_timer 1000) 1 1000 wd_demo_wakelock \<noteq> None"
  using watchdog_protocol [OF wd_demo_wd_ok, of "\<lparr>tv_sec = 5, tv_nsec = 0\<rparr>" 2 1000]
    watchdog_protocol [OF wd_demo_wd_ok, of "\<lparr>tv_sec = 5, tv_nsec = 0\<rparr>" 1 1000]
  by (auto simp: watchdog_get_request_def watchdog_get_id_def watchdog_get_new_id_def watchdog_init_def)

text \<open>
  The thread never sleeps past a deadline. Whatever timers are armed, \<open>get_timeout\<close> returns
  (the ping timer is always armed), the timer it names is armed, and the time it sleeps is at most
  the time left on every armed timer, or zero when one of them is due.
\<close>

theorem watchdog_sleeps_until_deadline:
  assumes "wd_ok timer w"
    and "crm_time_get_remain_ms now (tend (timer ! PING_IDX)) < INT_MAX"
  shows "\<exists>timeout idx. get_timeout now timer = Some (timeout, int idx) \<and> idx < 2 \<and>
    armed (timer ! idx) \<and> (timeout = 0 \<longrightarrow> crm_time_get_remain_ms now (tend (timer ! idx)) \<le> 1) \<and>
    (\<forall>i < 2. armed (timer ! i) \<longrightarrow>
       timeout = 0 \<or> timeout \<le> crm_time_get_remain_ms now (tend (timer ! i)))"
proof -
  obtain a b where t: "timer = [a, b]"
    using wd_okD(1) [OF assms(1)] by (auto simp: numeral_2_eq_2 length_Suc_conv)
  let ?ra = "crm_time_get_remain_ms now (tend a)" and ?rb = "crm_time_get_remain_ms now (tend b)"
  have a: "armed a" using assms(1) t by (simp add: wd_ok_def)
  have two: "(\<forall>i < 2. P i) \<longleftrightarrow> P 0 \<and> P (Suc 0)" for P :: "nat \<Rightarrow> bool"
    by (auto simp: numeral_2_eq_2 less_Suc_eq)
  consider "?ra \<le> 1" | "1 < ?ra" "armed b" "?rb \<le> 1" | "1 < ?ra" "armed b" "1 < ?rb" "?rb < ?ra"
    | "1 < ?ra" "armed b \<longrightarrow> ?ra \<le> ?rb" "\<not> (armed b \<and> ?rb \<le> 1)" by linarith
  then show ?thesis
  proof cases
    case 1
    then show ?thesis using a t by (intro exI [of _ 0] exI [of _ "0::nat"]) (simp add: get_timeout_def two)
  next
    case 2
    then show ?thesis using a t assms(2)
      by (intro exI [of _ 0] exI [of _ "1::nat"]) (simp add: get_timeout_def two)
  next
    case 3
    then show ?thesis using a t assms(2)
      by (intro exI [of _ ?rb] exI [of _ "1::nat"]) (simp add: get_timeout_def two)
  next
    case 4
    then show ?thesis using a t assms(2)
      by (intro exI [of _ ?ra] exI [of _ "0::nat"]) (auto simp: get_timeout_def two Let_def)
  qed
qed

theorem watchdog_sleeps_until_deadline_witness:
  "\<exists>timeout idx. get_timeout \<lparr>tv_sec = 5, tv_nsec = 0\<rparr>
     (watchdog_init \<lparr>tv_sec = 5, tv_nsec = 0\<rparr> wd_demo_timer 1000) = Some (timeout, int idx) \<and> idx < 2"
  using watchdog_sleeps_until_deadline [OF wd_demo_wd_ok, of "\<lparr>tv_sec = 5, tv_nsec = 0\<rparr>"]
  by (auto simp: watchdog_init_def crm_time_get_remain_ms_def crm_time_add_ms_def Let_def
      signed_divide_int_def signed_modulo_int_def)

end
