(* ===== verification/Crm_Escalation.thy ===== *)
theory Crm_Escalation
  imports Crm_Time
begin

text \<open>
  plugins/escalation/src/escalation.c: which recovery step to take when the modem fails. A
  configuration gives how often each of the steps warm reset, cold reset and platform reboot may
  be taken before the next one; after the last the modem is out of service. A modem that has been
  stable for a while starts again from the first step.

  The number of platform reboots lives in a system property that survives the reboot; the model
  keeps it as the number it denotes (the code writes it in decimal and reads it with
  \<open>strtol\<close>). The configuration comes from libtcs, outside of the sources: its values are
  arguments of \<open>crm_escalation_init\<close>. The clock is an argument too.

  The interface \<open>escalation_plugin\<close> is what the Control module relies on.
\<close>

section \<open>Steps and state\<close>

abbreviation (input) STEP_MDM_WARM_RESET :: int where "STEP_MDM_WARM_RESET \<equiv> 1"
abbreviation (input) STEP_MDM_COLD_RESET :: int where "STEP_MDM_COLD_RESET \<equiv> 2"
abbreviation (input) STEP_PLATFORM_REBOOT :: int where "STEP_PLATFORM_REBOOT \<equiv> 3"
abbreviation (input) STEP_OOS :: int where "STEP_OOS \<equiv> 4"
abbreviation (input) STEP_NUM :: int where "STEP_NUM \<equiv> 5"

abbreviation (input) IDX_WARM :: int where "IDX_WARM \<equiv> STEP_MDM_WARM_RESET - STEP_MDM_WARM_RESET"
abbreviation (input) IDX_COLD :: int where "IDX_COLD \<equiv> STEP_MDM_COLD_RESET - STEP_MDM_WARM_RESET"
abbreviation (input) IDX_REBOOT :: int where "IDX_REBOOT \<equiv> STEP_PLATFORM_REBOOT - STEP_MDM_WARM_RESET"
abbreviation (input) IDX_OOS :: int where "IDX_OOS \<equiv> STEP_OOS - STEP_MDM_WARM_RESET"
abbreviation (input) IDX_NUM :: int where "IDX_NUM \<equiv> STEP_NUM - STEP_MDM_WARM_RESET"

record crm_escalation =
  cfg :: "int list"
  modem_stability_timeout :: int
  cfg_idx :: int
  counter :: int
  timer_end :: timespec
  escalation_disabled :: bool
  reboot_counter :: int

section \<open>Operations\<close>

text \<open>
  The loop raises the level until one with a positive count, or out of service, is found.
  \<open>(size_t)cfg_idx\<close> of a negative index is huge and fails the assertion.
\<close>

function go_next_step :: "crm_escalation \<Rightarrow> crm_escalation option" where
  "go_next_step e =
     (let e = e\<lparr>cfg_idx := cfg_idx e + 1\<rparr>
      in if \<not> (0 \<le> cfg_idx e \<and> cfg_idx e \<le> int (length (cfg e))) then None
         else (case array_get (cfg e) (cfg_idx e) of
                 None \<Rightarrow> None
               | Some n \<Rightarrow>
                   if n \<le> 0 \<and> cfg_idx e \<noteq> IDX_OOS then go_next_step e
                   else Some (e\<lparr>counter := n\<rparr>)))"
  by pat_completeness auto
termination
  by (relation "measure (\<lambda>e. nat (int (length (cfg e)) + 1 - cfg_idx e))") auto

definition update_reboot_counter :: "crm_escalation \<Rightarrow> crm_escalation option" where
  "update_reboot_counter e = do {
     n \<leftarrow> array_get (cfg e) IDX_REBOOT;
     if reboot_counter e \<ge> n then Some (e\<lparr>cfg_idx := IDX_OOS\<rparr>)
     else Some (e\<lparr>reboot_counter := reboot_counter e + 1\<rparr>)
   }"

definition get_next_step :: "timespec \<Rightarrow> crm_escalation \<Rightarrow> (int \<times> crm_escalation) option" where
  "get_next_step now e =
     (if escalation_disabled e then Some (STEP_MDM_COLD_RESET, e)
      else do {
        e \<leftarrow> (if cfg_idx e \<noteq> IDX_OOS
             then do {
               e \<leftarrow> (if crm_time_get_remain_ms now (timer_end e) \<le> 0
                    then do {
                      n \<leftarrow> array_get (cfg e) 0;
                      Some (e\<lparr>cfg_idx := 0, counter := n, reboot_counter := 0\<rparr>)
                    }
                    else Some e);
               e \<leftarrow> (if counter e \<le> 0 then go_next_step e else Some e);
               e \<leftarrow> (if cfg_idx e \<noteq> IDX_REBOOT then Some (e\<lparr>counter := counter e - 1\<rparr>)
                    else update_reboot_counter e);
               Some (e\<lparr>timer_end := crm_time_add_ms now (modem_stability_timeout e)\<rparr>)
             }
             else Some e);
        Some (cfg_idx e + STEP_MDM_WARM_RESET, e)
      })"

definition get_last_step :: "crm_escalation \<Rightarrow> (int \<times> crm_escalation) option" where
  "get_last_step e = do {
     e \<leftarrow> update_reboot_counter (e\<lparr>cfg_idx := IDX_REBOOT\<rparr>);
     Some (cfg_idx e + STEP_MDM_WARM_RESET, e)
   }"

text \<open>
  \<open>warm\<close> is \<open>None\<close> when the configuration has no warm reset; the others are mandatory.
  \<open>disabled\<close> is the debug property, \<open>reboots\<close> the property kept over reboots.
\<close>

definition crm_escalation_init ::
  "timespec \<Rightarrow> bool \<Rightarrow> int option \<Rightarrow> int \<Rightarrow> int \<Rightarrow> int \<Rightarrow> int \<Rightarrow> crm_escalation option" where
  "crm_escalation_init now disabled warm cold reboot timeout reboots = do {
     let e = \<lparr>cfg = [0, 0, 0, 0], modem_stability_timeout = -1, cfg_idx = 0, counter = 0,
              timer_end = \<lparr>tv_sec = 0, tv_nsec = 0\<rparr>, escalation_disabled = False,
              reboot_counter = reboots\<rparr>;
     if disabled then Some (e\<lparr>escalation_disabled := True\<rparr>)
     else do {
       e \<leftarrow> (case warm of None \<Rightarrow> Some e
                | Some tmp \<Rightarrow> do { ASSERT (tmp \<ge> 0); c \<leftarrow> array_set (cfg e) IDX_WARM tmp; Some (e\<lparr>cfg := c\<rparr>) });
       c \<leftarrow> array_set (cfg e) IDX_COLD cold;
       c \<leftarrow> array_set c IDX_REBOOT reboot;
       ASSERT (cold \<ge> 0 \<and> reboot \<ge> 0);
       w \<leftarrow> array_get c IDX_WARM;
       let e = e\<lparr>cfg := c, modem_stability_timeout := timeout, counter := w\<rparr>;
       e \<leftarrow> (if counter e \<le> 0 then go_next_step e else Some e);
       Some (e\<lparr>timer_end := crm_time_add_ms now (modem_stability_timeout e)\<rparr>)
     }
   }"

section \<open>Invariant\<close>

definition esc_inv :: "crm_escalation \<Rightarrow> bool" where
  "esc_inv e \<longleftrightarrow> length (cfg e) = 4 \<and> (\<forall>n \<in> set (cfg e). 0 \<le> n) \<and> cfg e ! 3 = 0 \<and>
     0 \<le> cfg_idx e \<and> cfg_idx e \<le> IDX_OOS \<and> 0 \<le> reboot_counter e \<and>
     (cfg_idx e = IDX_WARM \<and> \<not> escalation_disabled e \<longrightarrow> 0 < cfg e ! 0)"

text \<open>The first level above \<open>i\<close> with a positive count, or out of service.\<close>

definition level_above :: "int list \<Rightarrow> int \<Rightarrow> int" where
  "level_above c i =
     (if i < 1 \<and> 0 < c ! 1 then 1 else if i < 2 \<and> 0 < c ! 2 then 2 else 3)"

declare go_next_step.simps [simp del]

lemma go_next_step_eq:
  assumes "length (cfg e) = 4" "0 \<le> cfg_idx e" "cfg_idx e < 3"
  shows "go_next_step e =
    Some (e\<lparr>cfg_idx := level_above (cfg e) (cfg_idx e),
            counter := cfg e ! nat (level_above (cfg e) (cfg_idx e))\<rparr>)"
proof -
  obtain a b c d where c: "cfg e = [a, b, c, d]"
    using assms(1) by (auto simp: numeral_eq_Suc length_Suc_conv)
  have "cfg_idx e = 0 \<or> cfg_idx e = 1 \<or> cfg_idx e = 2" using assms(2,3) by auto
  then show ?thesis
    by (elim disjE)
      (simp_all add: go_next_step.simps [of e] go_next_step.simps [of "e\<lparr>cfg_idx := 1\<rparr>"]
        go_next_step.simps [of "e\<lparr>cfg_idx := 2\<rparr>"] c Let_def array_get_def level_above_def)
qed

lemma esc_inv_list:
  assumes "esc_inv e"
  obtains w co r where "cfg e = [w, co, r, 0]" "0 \<le> w" "0 \<le> co" "0 \<le> r"
proof -
  obtain a b c d where c: "cfg e = [a, b, c, d]"
    using assms by (auto simp: esc_inv_def numeral_eq_Suc length_Suc_conv)
  with assms that show ?thesis by (auto simp: esc_inv_def)
qed

section \<open>Abstract specification\<close>

text \<open>
  The steps that are left before the modem is out of service, if it does not become stable in
  between, and all the steps of the configuration.
\<close>

definition reboots_left :: "crm_escalation \<Rightarrow> int list" where
  "reboots_left e = replicate (nat (cfg e ! 2 - reboot_counter e)) STEP_PLATFORM_REBOOT"

definition steps_left :: "crm_escalation \<Rightarrow> int list" where
  "steps_left e =
     (if cfg_idx e = IDX_OOS then []
      else if cfg_idx e = IDX_REBOOT then (if counter e > 0 then reboots_left e else [])
      else if cfg_idx e = IDX_COLD then
        replicate (nat (counter e)) STEP_MDM_COLD_RESET @ reboots_left e
      else replicate (nat (counter e)) STEP_MDM_WARM_RESET @
           replicate (nat (cfg e ! 1)) STEP_MDM_COLD_RESET @ reboots_left e)"

definition all_steps :: "crm_escalation \<Rightarrow> int list" where
  "all_steps e = replicate (nat (cfg e ! 0)) STEP_MDM_WARM_RESET @
     replicate (nat (cfg e ! 1)) STEP_MDM_COLD_RESET @
     replicate (nat (cfg e ! 2)) STEP_PLATFORM_REBOOT"

text \<open>The specification: take the first step left, out of service when there is none.\<close>

definition spec_next :: "int list \<Rightarrow> int \<times> int list" where
  "spec_next q = (case q of [] \<Rightarrow> (STEP_OOS, []) | x # xs \<Rightarrow> (x, xs))"

definition stable :: "timespec \<Rightarrow> crm_escalation \<Rightarrow> bool" where
  "stable now e \<longleftrightarrow> cfg_idx e \<noteq> IDX_OOS \<and> crm_time_get_remain_ms now (timer_end e) \<le> 0"

text \<open>The call after the stability test: raise the level if needed, then count.\<close>

definition take_step :: "crm_escalation \<Rightarrow> crm_escalation option" where
  "take_step e = do {
     e \<leftarrow> (if counter e \<le> 0 then go_next_step e else Some e);
     if cfg_idx e \<noteq> IDX_REBOOT then Some (e\<lparr>counter := counter e - 1\<rparr>) else update_reboot_counter e
   }"

lemma get_next_step_take_step:
  assumes "\<not> escalation_disabled e" "cfg_idx e \<noteq> IDX_OOS" "length (cfg e) = 4"
  shows "get_next_step now e = do {
     e \<leftarrow> take_step (if stable now e then e\<lparr>cfg_idx := 0, counter := cfg e ! 0, reboot_counter := 0\<rparr> else e);
     Some (cfg_idx e + STEP_MDM_WARM_RESET, e\<lparr>timer_end := crm_time_add_ms now (modem_stability_timeout e)\<rparr>)
   }"
  using assms by (simp add: get_next_step_def take_step_def stable_def array_get_def)

lemma replicate_nat_pos: "0 < n \<Longrightarrow> replicate (nat n) x = x # replicate (nat (n - 1)) x"
  by (metis Suc_diff_1 nat_diff_distrib' nat_eq_iff2 nat_one_as_int replicate_Suc zero_less_nat_eq
      zero_less_one_class.zero_le_one nat_1 less_imp_le)

lemma spec_next_replicate: "spec_next (replicate (nat n) x @ ys) =
    (if 0 < n then (x, replicate (nat (n - 1)) x @ ys) else spec_next ys)"
  by (cases "0 < n") (simp_all add: replicate_nat_pos spec_next_def)

lemma spec_next_Nil: "spec_next [] = (STEP_OOS, [])"
  by (simp add: spec_next_def)

lemma spec_next_reboots:
  "spec_next (reboots_left e) =
     (if reboot_counter e < cfg e ! 2
      then (STEP_PLATFORM_REBOOT, reboots_left (e\<lparr>reboot_counter := reboot_counter e + 1\<rparr>))
      else (STEP_OOS, []))"
  using spec_next_replicate [of "cfg e ! 2 - reboot_counter e" 3 "[]"]
  by (simp add: reboots_left_def spec_next_Nil algebra_simps)

lemma update_reboot_counter_eq:
  "length (cfg e) = 4 \<Longrightarrow> update_reboot_counter e =
     Some (if cfg e ! 2 \<le> reboot_counter e then e\<lparr>cfg_idx := IDX_OOS\<rparr>
           else e\<lparr>reboot_counter := reboot_counter e + 1\<rparr>)"
  by (simp add: update_reboot_counter_def array_get_def)

lemma take_step_ok:
  assumes "length (cfg e) = 4" "cfg e ! 3 = 0" "0 \<le> cfg_idx e" "cfg_idx e < 3" "0 \<le> reboot_counter e"
  shows "\<exists>e'. take_step e = Some e' \<and> cfg e' = cfg e \<and> escalation_disabled e' = escalation_disabled e \<and>
    (cfg_idx e' + STEP_MDM_WARM_RESET, steps_left e') = spec_next (steps_left e) \<and>
    cfg_idx e \<le> cfg_idx e' \<and> cfg_idx e' \<le> 3 \<and> 0 \<le> reboot_counter e' \<and> (counter e \<le> 0 \<longrightarrow> 0 < cfg_idx e')"
proof -
  obtain w c r where cf: "cfg e = [w, c, r, 0]"
    using assms(1,2) by (auto simp: numeral_eq_Suc length_Suc_conv)
  have r: "reboots_left (e\<lparr>cfg_idx := i, counter := n\<rparr>) = reboots_left e" for i n
    by (simp add: reboots_left_def)
  have "cfg_idx e = 0 \<or> cfg_idx e = 1 \<or> cfg_idx e = 2" using assms(3,4) by auto
  then show ?thesis
    using spec_next_reboots [of e] assms(1,5)
    by (elim disjE; cases "counter e \<le> 0")
      (auto simp: take_step_def go_next_step_eq level_above_def update_reboot_counter_eq cf
        steps_left_def spec_next_replicate spec_next_Nil r reboots_left_def)
qed

lemma steps_left_timer [simp]: "steps_left (e\<lparr>timer_end := t\<rparr>) = steps_left e"
  by (simp add: steps_left_def reboots_left_def)

lemma steps_left_reset:
  "steps_left (e\<lparr>cfg_idx := 0, counter := cfg e ! 0, reboot_counter := 0\<rparr>) = all_steps e"
  by (simp add: steps_left_def reboots_left_def all_steps_def)

lemma get_next_step_refines:
  assumes "esc_inv e" "\<not> escalation_disabled e"
  shows "\<exists>step e'. get_next_step now e = Some (step, e') \<and> esc_inv e' \<and>
    cfg e' = cfg e \<and> \<not> escalation_disabled e' \<and>
    (step, steps_left e') = spec_next (if stable now e then all_steps e else steps_left e)"
proof (cases "cfg_idx e = IDX_OOS")
  case True
  then show ?thesis
    using assms by (auto simp: get_next_step_def stable_def steps_left_def spec_next_Nil)
next
  case False
  let ?e = "if stable now e then e\<lparr>cfg_idx := 0, counter := cfg e ! 0, reboot_counter := 0\<rparr> else e"
  have l: "length (cfg e) = 4" using assms(1) by (simp add: esc_inv_def)
  have "\<exists>e'. take_step ?e = Some e' \<and> cfg e' = cfg ?e \<and> escalation_disabled e' = escalation_disabled ?e \<and>
    (cfg_idx e' + STEP_MDM_WARM_RESET, steps_left e') = spec_next (steps_left ?e) \<and>
    cfg_idx ?e \<le> cfg_idx e' \<and> cfg_idx e' \<le> 3 \<and> 0 \<le> reboot_counter e' \<and> (counter ?e \<le> 0 \<longrightarrow> 0 < cfg_idx e')"
    using assms(1) False by (intro take_step_ok) (auto simp: esc_inv_def)
  then obtain e' where t: "take_step ?e = Some e'" "cfg e' = cfg e" "escalation_disabled e' = escalation_disabled e"
    "(cfg_idx e' + STEP_MDM_WARM_RESET, steps_left e') = spec_next (steps_left ?e)"
    "cfg_idx ?e \<le> cfg_idx e'" "cfg_idx e' \<le> 3" "0 \<le> reboot_counter e'" "counter ?e \<le> 0 \<longrightarrow> 0 < cfg_idx e'"
    by (auto simp del: if_split split: if_split_asm)
  have "0 \<le> cfg_idx e'" using t(5) assms(1) by (auto simp: esc_inv_def split: if_splits)
  moreover have "0 < cfg e ! 0" if "cfg_idx e' = 0"
    using that t(5,8) assms by (auto simp: esc_inv_def split: if_splits)
  ultimately have "esc_inv (e'\<lparr>timer_end := x\<rparr>)" for x
    using t assms(1) by (auto simp: esc_inv_def)
  moreover have "steps_left ?e = (if stable now e then all_steps e else steps_left e)"
    by (simp add: steps_left_reset)
  ultimately show ?thesis
    using get_next_step_take_step [OF assms(2) False l, of now] t assms(2) by (simp del: if_split)
qed

lemma get_last_step_ok:
  assumes "esc_inv e"
  shows "\<exists>step e'. get_last_step e = Some (step, e') \<and> esc_inv e' \<and> cfg e' = cfg e \<and>
    step = (if reboot_counter e < cfg e ! 2 then STEP_PLATFORM_REBOOT else STEP_OOS)"
  using assms by (auto simp: get_last_step_def update_reboot_counter_eq esc_inv_def)

lemma escalation_init_inv:
  assumes "0 \<le> reboots" "crm_escalation_init now disabled warm cold reboot timeout reboots = Some e"
  shows "esc_inv e \<and> (\<not> disabled \<longrightarrow> cfg e = [case warm of None \<Rightarrow> 0 | Some n \<Rightarrow> n, cold, reboot, 0])"
proof (cases disabled)
  case True
  then show ?thesis using assms by (auto simp: crm_escalation_init_def esc_inv_def Let_def)
next
  case False
  let ?w = "case warm of None \<Rightarrow> 0 | Some n \<Rightarrow> n"
  let ?e = "\<lparr>cfg = [?w, cold, reboot, 0], modem_stability_timeout = timeout, cfg_idx = 0,
     counter = ?w, timer_end = \<lparr>tv_sec = 0, tv_nsec = 0\<rparr>, escalation_disabled = False, reboot_counter = reboots\<rparr>"
  have "0 \<le> ?w \<and> 0 \<le> cold \<and> 0 \<le> reboot \<and>
    (do { e \<leftarrow> (if ?w \<le> 0 then go_next_step ?e else Some ?e);
          Some (e\<lparr>timer_end := crm_time_add_ms now (modem_stability_timeout e)\<rparr>) }) = Some e"
    using assms(2) False
    by (cases warm) (auto simp: crm_escalation_init_def array_set_def array_get_def bind_Some_iff Let_def list_eval split: if_splits)
  then show ?thesis
    using assms(1) go_next_step_eq [of ?e]
    by (auto simp: esc_inv_def level_above_def split: if_splits)
qed

section \<open>The interface of the plugin\<close>

text \<open>
  What Control relies on: both calls return with one of the four steps, the last step is a reboot
  or out of service, and a warm reset, which Control does not implement, is only asked for when
  the configuration has one (\<open>warm e\<close>).
\<close>

locale escalation_plugin =
  fixes next_step :: "'t \<Rightarrow> 'e \<Rightarrow> (int \<times> 'e) option"
    and last_step :: "'e \<Rightarrow> (int \<times> 'e) option"
    and inv :: "'e \<Rightarrow> bool"
    and warm :: "'e \<Rightarrow> bool"
  assumes next_ok: "inv e \<Longrightarrow> \<exists>step e'. next_step now e = Some (step, e') \<and> inv e' \<and>
      warm e' = warm e \<and> step \<in> {STEP_MDM_WARM_RESET, STEP_MDM_COLD_RESET, STEP_PLATFORM_REBOOT, STEP_OOS} \<and>
      (\<not> warm e \<longrightarrow> step \<noteq> STEP_MDM_WARM_RESET)"
    and last_ok: "inv e \<Longrightarrow> \<exists>step e'. last_step e = Some (step, e') \<and> inv e' \<and>
      warm e' = warm e \<and> step \<in> {STEP_PLATFORM_REBOOT, STEP_OOS}"
begin

lemma next_cases:
  assumes "inv e" "\<not> warm e"
  shows "\<exists>step e'. next_step now e = Some (step, e') \<and> inv e' \<and> \<not> warm e' \<and>
    (step = STEP_MDM_COLD_RESET \<or> step = STEP_PLATFORM_REBOOT \<or> step = STEP_OOS)"
proof -
  obtain step e' where "next_step now e = Some (step, e')" "inv e'" "\<not> warm e'"
    "step = STEP_MDM_COLD_RESET \<or> step = STEP_PLATFORM_REBOOT \<or> step = STEP_OOS"
    using next_ok [OF assms(1), of now] assms(2) by auto
  then show ?thesis by blast
qed

lemma last_cases:
  assumes "inv e" "\<not> warm e"
  shows "\<exists>step e'. last_step e = Some (step, e') \<and> inv e' \<and> \<not> warm e' \<and>
    (step = STEP_PLATFORM_REBOOT \<or> step = STEP_OOS)"
  using last_ok [OF assms(1)] assms(2) by auto

end

definition has_warm :: "crm_escalation \<Rightarrow> bool" where
  "has_warm e \<longleftrightarrow> cfg e ! 0 > 0"

lemma spec_next_steps:
  assumes "set q \<subseteq> {1, 2, 3}" "spec_next q = (step, q')"
  shows "step \<in> {1, 2, 3, 4} \<and> (1 \<notin> set q \<longrightarrow> step \<noteq> 1)"
  using assms by (cases q) (auto simp: spec_next_def)

lemma set_steps:
  "set (steps_left e) \<subseteq> {1, 2, 3}" "set (all_steps e) \<subseteq> {1, 2, 3}"
  "\<not> has_warm e \<Longrightarrow> 1 \<notin> set (all_steps e)"
  "\<not> has_warm e \<Longrightarrow> esc_inv e \<Longrightarrow> \<not> escalation_disabled e \<Longrightarrow> 1 \<notin> set (steps_left e)"
  by (auto simp: steps_left_def all_steps_def reboots_left_def has_warm_def esc_inv_def)

lemma get_next_step_contract:
  assumes "esc_inv e"
  shows "\<exists>step e'. get_next_step now e = Some (step, e') \<and> esc_inv e' \<and> has_warm e' = has_warm e \<and>
    step \<in> {1, 2, 3, 4} \<and> (\<not> has_warm e \<longrightarrow> step \<noteq> 1)"
proof (cases "escalation_disabled e")
  case True
  then show ?thesis using assms by (simp add: get_next_step_def)
next
  case False
  obtain step e' where g: "get_next_step now e = Some (step, e')" "esc_inv e'" "cfg e' = cfg e"
    "(step, steps_left e') = spec_next (if stable now e then all_steps e else steps_left e)"
    using get_next_step_refines [OF assms False, of now] by auto
  let ?q = "if stable now e then all_steps e else steps_left e"
  have "set ?q \<subseteq> {1, 2, 3}" using set_steps(1,2) [of e] by simp
  moreover have "1 \<notin> set ?q" if "\<not> has_warm e" using set_steps(3,4) [OF that] assms False by simp
  ultimately have "step \<in> {1, 2, 3, 4} \<and> (\<not> has_warm e \<longrightarrow> step \<noteq> 1)"
    using spec_next_steps [of ?q step "steps_left e'"] g(4) by metis
  then show ?thesis using g by (auto simp: has_warm_def)
qed

interpretation esc: escalation_plugin get_next_step get_last_step esc_inv has_warm
proof
  fix e now
  assume e: "esc_inv e"
  show "\<exists>step e'. get_next_step now e = Some (step, e') \<and> esc_inv e' \<and> has_warm e' = has_warm e \<and>
      step \<in> {STEP_MDM_WARM_RESET, STEP_MDM_COLD_RESET, STEP_PLATFORM_REBOOT, STEP_OOS} \<and>
      (\<not> has_warm e \<longrightarrow> step \<noteq> STEP_MDM_WARM_RESET)"
    using get_next_step_contract [OF e] by simp
  show "\<exists>step e'. get_last_step e = Some (step, e') \<and> esc_inv e' \<and> has_warm e' = has_warm e \<and>
      step \<in> {STEP_PLATFORM_REBOOT, STEP_OOS}"
    using get_last_step_ok [OF e] by (auto simp: has_warm_def)
qed

section \<open>Properties\<close>

text \<open>A sequence of recoveries at given times.\<close>

fun recoveries :: "timespec list \<Rightarrow> crm_escalation \<Rightarrow> (int list \<times> crm_escalation) option" where
  "recoveries [] e = Some ([], e)"
| "recoveries (now # ns) e = do {
     (step, e) \<leftarrow> get_next_step now e;
     (steps, e) \<leftarrow> recoveries ns e;
     Some (step # steps, e)
   }"

text \<open>
  C3: one recovery refines the abstract plan. From any reachable state the call returns, its
  answer is the first step left of the plan (the whole plan again when the modem has been stable
  long enough), out of service when none is left, and the plan it leaves is the rest.
\<close>

theorem escalation_refines_plan:
  assumes "esc_inv e" "\<not> escalation_disabled e"
  shows "\<exists>step e'. get_next_step now e = Some (step, e') \<and> esc_inv e' \<and>
    (step, steps_left e') = spec_next (if stable now e then all_steps e else steps_left e)"
  using get_next_step_refines [OF assms, of now] by blast

text \<open>
  C4: a freshly configured modem that never becomes stable is recovered by exactly the configured
  number of cold resets, then by the platform reboots that are left of their budget, and is then
  out of service for good (no warm reset configured). The hypothesis says that no call finds the
  stability timer elapsed.
\<close>

fun never_stable :: "timespec list \<Rightarrow> crm_escalation \<Rightarrow> bool" where
  "never_stable [] e = True"
| "never_stable (now # ns) e =
     (\<not> stable now e \<and>
      (case get_next_step now e of None \<Rightarrow> False | Some (step, e') \<Rightarrow> never_stable ns e'))"

lemma recoveries_plan:
  "esc_inv e \<Longrightarrow> \<not> escalation_disabled e \<Longrightarrow> never_stable ns e \<Longrightarrow>
   \<exists>e'. recoveries ns e = Some (take (length ns) (steps_left e @ replicate (length ns) STEP_OOS), e')"
proof (induction ns arbitrary: e)
  case Nil
  then show ?case by simp
next
  case (Cons now ns)
  obtain step e1 where g: "get_next_step now e = Some (step, e1)" "esc_inv e1" "\<not> escalation_disabled e1"
    "(step, steps_left e1) = spec_next (steps_left e)"
    using get_next_step_refines [OF Cons.prems(1,2), of now] Cons.prems(3) by auto
  then obtain e' where r: "recoveries ns e1 =
      Some (take (length ns) (steps_left e1 @ replicate (length ns) STEP_OOS), e')"
    using Cons.IH [of e1] Cons.prems(3) by auto
  have "take (length (now # ns)) (steps_left e @ replicate (length (now # ns)) STEP_OOS) =
      step # take (length ns) (steps_left e1 @ replicate (length ns) STEP_OOS)"
    using g(4) by (cases "steps_left e") 
      (auto simp: spec_next_def take_Cons' replicate_append_same Suc_diff_Suc simp flip: replicate_Suc)
  with g r show ?case by simp
qed

theorem escalation_exact_sequence:
  assumes "crm_escalation_init now0 False None cold reboot timeout reboots = Some e"
    and "0 \<le> reboots" "0 < cold" "never_stable ns e"
  shows "\<exists>e'. recoveries ns e =
    Some (take (length ns)
           (replicate (nat cold) STEP_MDM_COLD_RESET @
            replicate (nat (reboot - reboots)) STEP_PLATFORM_REBOOT @
            replicate (length ns) STEP_OOS), e')"
proof -
  have c: "cfg e = [0, cold, reboot, 0]" and i: "esc_inv e"
    using escalation_init_inv [OF assms(2,1)] by auto
  let ?e = "\<lparr>cfg = [0, cold, reboot, 0], modem_stability_timeout = timeout, cfg_idx = 0,
     counter = 0, timer_end = \<lparr>tv_sec = 0, tv_nsec = 0\<rparr>, escalation_disabled = False, reboot_counter = reboots\<rparr>"
  have "cfg_idx e = 1 \<and> counter e = cold \<and> \<not> escalation_disabled e \<and> reboot_counter e = reboots"
    using assms(1,3) go_next_step_eq [of ?e]
    by (auto simp: crm_escalation_init_def array_set_def array_get_def bind_Some_iff Let_def list_eval
        level_above_def split: if_splits)
  then have "steps_left e = replicate (nat cold) 2 @ replicate (nat (reboot - reboots)) 3"
    and d: "\<not> escalation_disabled e"
    using c by (simp_all add: steps_left_def reboots_left_def)
  with recoveries_plan [OF i d assms(4)] show ?thesis by simp
qed

text \<open>
  The levels stay in the configuration array. After the initialisation and any number of
  recoveries and last steps, both calls return, so that no index outside \<open>cfg[0..3]\<close> is read
  even though the assertion of \<open>go_next_step\<close> would let index 4 through; the last step is a
  reboot exactly while reboots are left, and out of service otherwise.
\<close>

theorem escalation_bounds:
  assumes "esc_inv e"
  shows "\<exists>step e' lstep le'. get_next_step now e = Some (step, e') \<and> esc_inv e' \<and>
    get_last_step e = Some (lstep, le') \<and> esc_inv le' \<and>
    0 \<le> cfg_idx e' \<and> cfg_idx e' < int (length (cfg e')) \<and>
    lstep = (if reboot_counter e < cfg e ! 2 then STEP_PLATFORM_REBOOT else STEP_OOS)"
  using esc.next_ok [OF assms, of now] get_last_step_ok [OF assms] by (auto simp: esc_inv_def)

section \<open>A concrete configuration\<close>

text \<open>Two cold resets and one reboot, a stability time of a minute.\<close>

definition esc_demo :: crm_escalation where
  "esc_demo = \<lparr>cfg = [0, 2, 1, 0], modem_stability_timeout = 60000, cfg_idx = 1, counter = 2,
     timer_end = \<lparr>tv_sec = 70, tv_nsec = 0\<rparr>, escalation_disabled = False, reboot_counter = 0\<rparr>"

lemmas time_eval = crm_time_add_ms_def crm_time_get_remain_ms_def Let_def
  signed_divide_int_def signed_modulo_int_def

lemma esc_demo_init:
  "crm_escalation_init \<lparr>tv_sec = 10, tv_nsec = 0\<rparr> False None 2 1 60000 0 = Some esc_demo"
  by (simp add: crm_escalation_init_def array_set_def array_get_def go_next_step.simps esc_demo_def
      list_eval time_eval)

lemma esc_demo_inv: "esc_inv esc_demo"
  by (simp add: esc_inv_def esc_demo_def)

theorem escalation_refines_plan_witness:
  "\<exists>e'. get_next_step \<lparr>tv_sec = 11, tv_nsec = 0\<rparr> esc_demo = Some (STEP_MDM_COLD_RESET, e') \<and>
     steps_left e' = [STEP_MDM_COLD_RESET, STEP_PLATFORM_REBOOT]"
  using escalation_refines_plan [OF esc_demo_inv, of "\<lparr>tv_sec = 11, tv_nsec = 0\<rparr>"]
  by (auto simp: esc_demo_def steps_left_def reboots_left_def spec_next_def stable_def time_eval numeral_2_eq_2)

theorem escalation_exact_sequence_witness:
  "\<exists>e'. recoveries (replicate 4 \<lparr>tv_sec = 11, tv_nsec = 0\<rparr>) esc_demo =
     Some ([STEP_MDM_COLD_RESET, STEP_MDM_COLD_RESET, STEP_PLATFORM_REBOOT, STEP_OOS], e')"
proof -
  have "never_stable (replicate 4 \<lparr>tv_sec = 11, tv_nsec = 0\<rparr>) esc_demo"
    by (simp add: list_eval esc_demo_def stable_def get_next_step_def go_next_step.simps array_get_def
        update_reboot_counter_def time_eval)
  then show ?thesis
    using escalation_exact_sequence [OF esc_demo_init, of "replicate 4 \<lparr>tv_sec = 11, tv_nsec = 0\<rparr>"]
    by (simp add: list_eval)
qed

theorem escalation_bounds_witness:
  "\<exists>le'. get_last_step esc_demo = Some (STEP_PLATFORM_REBOOT, le') \<and> esc_inv le'"
  using escalation_bounds [OF esc_demo_inv] by (auto simp: esc_demo_def)

end
