(* ===== verification/Crm_Mdmcli.thy ===== *)
theory Crm_Mdmcli
  imports Crm_Prelude "HOL-Library.Word"
begin

text \<open>
  The client API (libmdmcli/mdm_cli.h) is not part of the sources. Its constants are the fields of
  a record, an argument of every definition that uses them, and what the program relies on is the
  predicate \<open>mdm_cli_ok\<close>: the events are distinct and numbered below \<open>MDM_NUM_EVENTS\<close>, the
  request identifiers that follow them fit an \<open>int\<close>, and the size limits are positive and small
  enough for a message size to fit 32 bits. \<open>demo_cli\<close> is an instance.
\<close>

record mdm_cli =
  MDM_DOWN :: int
  MDM_ON :: int
  MDM_UP :: int
  MDM_OOS :: int
  MDM_COLD_RESET :: int
  MDM_SHUTDOWN :: int
  MDM_DBG_INFO :: int
  MDM_NUM_EVENTS :: int
  MDM_CLI_NAME_LEN :: nat
  MDM_CLI_MAX_NB_DATA :: nat
  MDM_CLI_MAX_LEN_DATA :: nat
  DBG_TYPE_APIMR :: "32 word"
  DBG_TYPE_PLATFORM_REBOOT :: "32 word"
  DBG_TYPE_TLV_SUCCESS :: "32 word"
  DBG_TYPE_TLV_FAILURE :: "32 word"
  DBG_TYPE_DUMP_START :: "32 word"
  DBG_TYPE_ERROR :: "32 word"
  DBG_TYPE_SELF_RESET :: "32 word"
  DBG_TYPE_FW_FAILURE :: "32 word"
  DBG_DEFAULT_LOG_SIZE :: "32 word"
  DBG_DEFAULT_NO_LOG :: "32 word"
  DBG_DEFAULT_LOG_TIME :: "32 word"
  DUMP_STR_LINK_ERR :: "8 word list"
  DBG_TYPE_STATS :: "32 word"
  DBG_TYPE_INFO :: "32 word"
  DBG_TYPE_DUMP_END :: "32 word"
  DBG_TYPE_FW_SUCCES :: "32 word"
  DBG_TYPE_TLV_NONE :: "32 word"
  DBG_TYPE_NVM_BACKUP_SUCCESS :: "32 word"
  DBG_TYPE_NVM_BACKUP_FAILURE :: "32 word"
  RESTART_MDM_OOS :: "32 word"
  RESTART_MDM_ERR :: "32 word"
  RESTART_APPLY_UPDATE :: "32 word"

definition cli_events :: "mdm_cli \<Rightarrow> int list" where
  "cli_events k = [MDM_DOWN k, MDM_ON k, MDM_UP k, MDM_OOS k, MDM_COLD_RESET k, MDM_SHUTDOWN k, MDM_DBG_INFO k]"

definition mdm_cli_ok :: "mdm_cli \<Rightarrow> bool" where
  "mdm_cli_ok k \<longleftrightarrow>
     distinct (cli_events k) \<and> (\<forall>e \<in> set (cli_events k). 0 \<le> e \<and> e < MDM_NUM_EVENTS k) \<and>
     MDM_NUM_EVENTS k < 1000 \<and>
     0 < MDM_CLI_NAME_LEN k \<and> MDM_CLI_NAME_LEN k \<le> 1000 \<and>
     0 < MDM_CLI_MAX_NB_DATA k \<and> MDM_CLI_MAX_NB_DATA k \<le> 1000 \<and>
     0 < MDM_CLI_MAX_LEN_DATA k \<and> MDM_CLI_MAX_LEN_DATA k \<le> 1000 \<and>
     MDM_CLI_NAME_LEN k \<le> MDM_CLI_MAX_LEN_DATA k"

definition demo_cli :: mdm_cli where
  "demo_cli = \<lparr>MDM_DOWN = 0, MDM_ON = 1, MDM_UP = 2, MDM_OOS = 3, MDM_COLD_RESET = 4,
     MDM_SHUTDOWN = 5, MDM_DBG_INFO = 6, MDM_NUM_EVENTS = 8, MDM_CLI_NAME_LEN = 32,
     MDM_CLI_MAX_NB_DATA = 6, MDM_CLI_MAX_LEN_DATA = 512,
     DBG_TYPE_APIMR = 1, DBG_TYPE_PLATFORM_REBOOT = 2, DBG_TYPE_TLV_SUCCESS = 3,
     DBG_TYPE_TLV_FAILURE = 4, DBG_TYPE_DUMP_START = 5, DBG_TYPE_ERROR = 6, DBG_TYPE_SELF_RESET = 7,
     DBG_TYPE_FW_FAILURE = 8, DBG_DEFAULT_LOG_SIZE = 9, DBG_DEFAULT_NO_LOG = 10,
     DBG_DEFAULT_LOG_TIME = 11, DUMP_STR_LINK_ERR = [76],
     DBG_TYPE_STATS = 12, DBG_TYPE_INFO = 13, DBG_TYPE_DUMP_END = 14, DBG_TYPE_FW_SUCCES = 15,
     DBG_TYPE_TLV_NONE = 16, DBG_TYPE_NVM_BACKUP_SUCCESS = 17, DBG_TYPE_NVM_BACKUP_FAILURE = 18,
     RESTART_MDM_OOS = 0, RESTART_MDM_ERR = 1, RESTART_APPLY_UPDATE = 2\<rparr>"

lemma demo_cli_ok: "mdm_cli_ok demo_cli"
  by (simp add: mdm_cli_ok_def demo_cli_def cli_events_def)

text \<open>
  The debug information of a client (\<open>mdm_cli_dbg_info_t\<close>). Strings are the bytes before the
  terminating zero.
\<close>

record mdm_cli_dbg_info =
  dtype :: "32 word"
  ap_logs_size :: "32 word"
  bp_logs_size :: "32 word"
  bp_logs_time :: "32 word"
  nb_data :: "32 word"
  ddata :: "8 word list list"

text \<open>A debug information without strings, as the initialisers of the sources build it.\<close>

definition mk_dbg :: "32 word \<Rightarrow> 32 word \<Rightarrow> 32 word \<Rightarrow> 32 word \<Rightarrow> 8 word list list \<Rightarrow> mdm_cli_dbg_info" where
  "mk_dbg ty ap bp bt ss = \<lparr>dtype = ty, ap_logs_size = ap, bp_logs_size = bp, bp_logs_time = bt,
     nb_data = word_of_nat (length ss), ddata = ss\<rparr>"

text \<open>inc/plugins/dependent_types.h: the events of the HAL.\<close>

abbreviation (input) HAL_MDM_OFF :: int where "HAL_MDM_OFF \<equiv> 1"
abbreviation (input) HAL_MDM_RUN :: int where "HAL_MDM_RUN \<equiv> 2"
abbreviation (input) HAL_MDM_BUSY :: int where "HAL_MDM_BUSY \<equiv> 3"
abbreviation (input) HAL_MDM_NEED_RESET :: int where "HAL_MDM_NEED_RESET \<equiv> 4"
abbreviation (input) HAL_MDM_FLASH :: int where "HAL_MDM_FLASH \<equiv> 5"
abbreviation (input) HAL_MDM_DUMP :: int where "HAL_MDM_DUMP \<equiv> 6"
abbreviation (input) HAL_MDM_UNRESPONSIVE :: int where "HAL_MDM_UNRESPONSIVE \<equiv> 7"

record crm_hal_evt =
  hal_type :: int
  nodes :: string
  hal_dbg_info :: "mdm_cli_dbg_info option"

text \<open>inc/plugins/client_abstraction.h: the modem states Control reports to the clients.\<close>

abbreviation (input) MDM_STATE_OFF :: int where "MDM_STATE_OFF \<equiv> 0"
abbreviation (input) MDM_STATE_UNRESP :: int where "MDM_STATE_UNRESP \<equiv> 1"
abbreviation (input) MDM_STATE_BUSY :: int where "MDM_STATE_BUSY \<equiv> 2"
abbreviation (input) MDM_STATE_READY :: int where "MDM_STATE_READY \<equiv> 3"
abbreviation (input) MDM_STATE_PLATFORM_REBOOT :: int where "MDM_STATE_PLATFORM_REBOOT \<equiv> 4"
abbreviation (input) MDM_STATE_UNKNOWN :: int where "MDM_STATE_UNKNOWN \<equiv> 5"

text \<open>inc/plugins/control.h and inc/plugins/hal.h: kinds of restart.\<close>

abbreviation (input) CTRL_MODEM_RESTART :: int where "CTRL_MODEM_RESTART \<equiv> 1"
abbreviation (input) CTRL_MODEM_UPDATE :: int where "CTRL_MODEM_UPDATE \<equiv> 2"
abbreviation (input) CTRL_BACKUP_NVM :: int where "CTRL_BACKUP_NVM \<equiv> 3"

abbreviation (input) RESET_WARM :: int where "RESET_WARM \<equiv> 0"
abbreviation (input) RESET_COLD :: int where "RESET_COLD \<equiv> 1"
abbreviation (input) RESET_BACKUP :: int where "RESET_BACKUP \<equiv> 2"

end
