(* ===== verification/Crm_Wire.thy ===== *)
theory Crm_Wire
  imports Crm_Ipc Crm_Mdmcli
begin

text \<open>
  plugins/mdmcli_wire/src/mdmcli_wire.c: the marshalling of the messages between the client
  library and the server. A message is a header (identifier and total size) and a body that
  depends on the identifier; integers are big endian on the wire.

  The buffers are bounded: \<open>None\<close> is an assertion that fails or an access outside of a buffer.
  \<open>recv_msg\<close> returns \<open>Some None\<close> where the C function returns the null pointer. The socket is the
  list of the bytes that arrive before the read times out.
\<close>

section \<open>Messages\<close>

abbreviation (input) CRM_REQ_REGISTER :: "mdm_cli \<Rightarrow> int" where "CRM_REQ_REGISTER k \<equiv> MDM_NUM_EVENTS k"
abbreviation (input) CRM_REQ_REGISTER_DBG :: "mdm_cli \<Rightarrow> int" where "CRM_REQ_REGISTER_DBG k \<equiv> MDM_NUM_EVENTS k + 1"
abbreviation (input) CRM_REQ_ACQUIRE :: "mdm_cli \<Rightarrow> int" where "CRM_REQ_ACQUIRE k \<equiv> MDM_NUM_EVENTS k + 2"
abbreviation (input) CRM_REQ_RELEASE :: "mdm_cli \<Rightarrow> int" where "CRM_REQ_RELEASE k \<equiv> MDM_NUM_EVENTS k + 3"
abbreviation (input) CRM_REQ_RESTART :: "mdm_cli \<Rightarrow> int" where "CRM_REQ_RESTART k \<equiv> MDM_NUM_EVENTS k + 4"
abbreviation (input) CRM_REQ_SHUTDOWN :: "mdm_cli \<Rightarrow> int" where "CRM_REQ_SHUTDOWN k \<equiv> MDM_NUM_EVENTS k + 5"
abbreviation (input) CRM_REQ_NVM_BACKUP :: "mdm_cli \<Rightarrow> int" where "CRM_REQ_NVM_BACKUP k \<equiv> MDM_NUM_EVENTS k + 6"
abbreviation (input) CRM_REQ_ACK_COLD_RESET :: "mdm_cli \<Rightarrow> int" where "CRM_REQ_ACK_COLD_RESET k \<equiv> MDM_NUM_EVENTS k + 7"
abbreviation (input) CRM_REQ_ACK_SHUTDOWN :: "mdm_cli \<Rightarrow> int" where "CRM_REQ_ACK_SHUTDOWN k \<equiv> MDM_NUM_EVENTS k + 8"
abbreviation (input) CRM_REQ_NOTIFY_DBG :: "mdm_cli \<Rightarrow> int" where "CRM_REQ_NOTIFY_DBG k \<equiv> MDM_NUM_EVENTS k + 9"

datatype wire_body =
    NoBody
  | Debug "mdm_cli_dbg_info option"
  | Restart (cause: "32 word") "mdm_cli_dbg_info option"
  | RegisterClient (events_bitmap: "32 word") (client_name: "8 word list")

record crm_mdmcli_wire_msg =
  msg_id :: int
  msg :: wire_body

datatype direction = CRM_CLIENT_TO_SERVER | CRM_SERVER_TO_CLIENT

abbreviation (input) MSG_HEADER_SIZE :: nat where "MSG_HEADER_SIZE \<equiv> 8"
abbreviation (input) MSG_RESTART_CAUSE :: nat where "MSG_RESTART_CAUSE \<equiv> 4"
abbreviation (input) MSG_DBG_DATA_FIXED_SIZE :: nat where "MSG_DBG_DATA_FIXED_SIZE \<equiv> 20"

definition MSG_SIZE_MAX :: "mdm_cli \<Rightarrow> nat" where
  "MSG_SIZE_MAX k = MSG_HEADER_SIZE + MSG_RESTART_CAUSE + MSG_DBG_DATA_FIXED_SIZE +
     MDM_CLI_MAX_NB_DATA k * (4 + MDM_CLI_MAX_LEN_DATA k)"

section \<open>Serialisation\<close>

text \<open>A buffer being written: the bytes so far and the room left.\<close>

type_synonym wbuf = "8 word list \<times> nat"

definition be_bytes :: "32 word \<Rightarrow> 8 word list" where
  "be_bytes w = rev (int_bytes w)"

definition be_word :: "8 word list \<Rightarrow> 32 word" where
  "be_word bs = bytes_int (rev bs)"

definition serialize_uint32 :: "32 word \<Rightarrow> wbuf \<Rightarrow> wbuf option" where
  "serialize_uint32 d b = do {
     ASSERT (snd b \<ge> 4);
     Some (fst b @ be_bytes d, snd b - 4)
   }"

definition strlen :: "8 word list \<Rightarrow> nat" where
  "strlen s = length (takeWhile (\<lambda>c. c \<noteq> 0) s)"

definition serialize_string :: "8 word list \<Rightarrow> wbuf \<Rightarrow> wbuf option" where
  "serialize_string s b = do {
     let len = strlen s;
     b \<leftarrow> serialize_uint32 (word_of_nat len) b;
     ASSERT (snd b \<ge> len);
     Some (fst b @ take len s, snd b - len)
   }"

fun serialize_strings :: "mdm_cli_dbg_info \<Rightarrow> nat \<Rightarrow> nat \<Rightarrow> wbuf \<Rightarrow> wbuf option" where
  "serialize_strings d i 0 b = Some b"
| "serialize_strings d i (Suc n) b = do {
     s \<leftarrow> array_get (ddata d) (int i);
     b \<leftarrow> serialize_string s b;
     serialize_strings d (Suc i) n b
   }"

definition serialize_dbg_info :: "mdm_cli_dbg_info \<Rightarrow> wbuf \<Rightarrow> wbuf option" where
  "serialize_dbg_info d b = do {
     b \<leftarrow> serialize_uint32 (dtype d) b;
     b \<leftarrow> serialize_uint32 (ap_logs_size d) b;
     b \<leftarrow> serialize_uint32 (bp_logs_size d) b;
     b \<leftarrow> serialize_uint32 (bp_logs_time d) b;
     b \<leftarrow> serialize_uint32 (nb_data d) b;
     serialize_strings d 0 (unat (nb_data d)) b
   }"

definition serialize_dbg_opt :: "mdm_cli_dbg_info option \<Rightarrow> wbuf \<Rightarrow> wbuf option" where
  "serialize_dbg_opt dbg b = (case dbg of None \<Rightarrow> Some b | Some d \<Rightarrow> serialize_dbg_info d b)"

text \<open>
  The body. The identifier says which member of the union is read; a message whose body is another
  member has no meaning (\<open>None\<close>).
\<close>

definition serialize_body :: "mdm_cli \<Rightarrow> crm_mdmcli_wire_msg \<Rightarrow> wbuf \<Rightarrow> wbuf option" where
  "serialize_body k m b =
     (if msg_id m = CRM_REQ_REGISTER k \<or> msg_id m = CRM_REQ_REGISTER_DBG k
      then (case msg m of
              RegisterClient bitmap name \<Rightarrow> do {
                b \<leftarrow> serialize_uint32 bitmap b;
                serialize_string name b
              }
            | _ \<Rightarrow> None)
      else if msg_id m = CRM_REQ_RESTART k
      then (case msg m of
              Restart c dbg \<Rightarrow> do { b \<leftarrow> serialize_uint32 c b; serialize_dbg_opt dbg b }
            | _ \<Rightarrow> None)
      else if msg_id m = CRM_REQ_NOTIFY_DBG k \<or> msg_id m = MDM_DBG_INFO k
      then (case msg m of Debug dbg \<Rightarrow> serialize_dbg_opt dbg b | _ \<Rightarrow> None)
      else Some b)"

definition serialize_msg :: "mdm_cli \<Rightarrow> direction \<Rightarrow> crm_mdmcli_wire_msg \<Rightarrow> 8 word list option" where
  "serialize_msg k dir m = do {
     ASSERT ((msg_id m < MDM_NUM_EVENTS k \<and> dir = CRM_SERVER_TO_CLIENT) \<or>
             (msg_id m \<ge> CRM_REQ_REGISTER k \<and> dir = CRM_CLIENT_TO_SERVER));
     b \<leftarrow> serialize_uint32 (word_of_int (msg_id m)) ([], MSG_SIZE_MAX k);
     let size_remaining = snd b;
     b \<leftarrow> serialize_uint32 0 b;
     b \<leftarrow> serialize_body k m b;
     let msg_size = length (fst b);
     size_buf \<leftarrow> serialize_uint32 (word_of_nat msg_size) ([], size_remaining);
     Some (take 4 (fst b) @ fst size_buf @ drop 8 (fst b))
   }"

section \<open>Deserialisation\<close>

text \<open>
  A buffer being read: the bytes from the read pointer to the end of the receive buffer, and
  \<open>remaining_data\<close>. A copy beyond the receive buffer is \<open>None\<close>.
\<close>

type_synonym rbuf = "8 word list \<times> nat"

definition deserialize_uint32 :: "rbuf \<Rightarrow> (32 word \<times> bool \<times> rbuf) option" where
  "deserialize_uint32 b =
     (if snd b < 4 then Some (0, True, b)
      else do {
        (d, rest) \<leftarrow> read_bytes 4 (fst b);
        Some (be_word d, False, (rest, snd b - 4))
      })"

definition deserialize_string :: "rbuf \<Rightarrow> nat \<Rightarrow> (8 word list option \<times> rbuf) option" where
  "deserialize_string b dest_size = do {
     (l, err, b) \<leftarrow> deserialize_uint32 b;
     let len = unat l;
     if err \<or> snd b < len \<or> dest_size \<le> len then Some (None, b)
     else do {
       (s, rest) \<leftarrow> read_bytes len (fst b);
       Some (Some s, (rest, snd b - len))
     }
   }"

text \<open>
  The loop over the debug strings: \<open>n\<close> strings are left, the next is stored at index \<open>i\<close> of
  \<open>dbg_strings\<close>.
\<close>

fun deserialize_strings ::
  "mdm_cli \<Rightarrow> nat \<Rightarrow> nat \<Rightarrow> rbuf \<Rightarrow> (8 word list list option \<times> rbuf) option" where
  "deserialize_strings k i 0 b = Some (Some [], b)"
| "deserialize_strings k i (Suc n) b = do {
     ASSERT (i < MDM_CLI_MAX_NB_DATA k);
     (s, b) \<leftarrow> deserialize_string b (MDM_CLI_MAX_LEN_DATA k);
     (case s of
        None \<Rightarrow> Some (None, b)
      | Some s \<Rightarrow> do {
          (ss, b) \<leftarrow> deserialize_strings k (Suc i) n b;
          Some (map_option (\<lambda>ss. s # ss) ss, b)
        })
   }"

text \<open>
  The debug information: \<open>Some None\<close> with an error is the early return of the null pointer,
  \<open>Some (Some None)\<close> says that there is none.
\<close>

definition deserialize_dbg_info ::
  "mdm_cli \<Rightarrow> rbuf \<Rightarrow> (mdm_cli_dbg_info option option \<times> rbuf) option" where
  "deserialize_dbg_info k b =
     (if snd b \<noteq> 0
      then do {
        (ty, err, b) \<leftarrow> deserialize_uint32 b;
        (ap, err, b) \<leftarrow> deserialize_uint32 b;
        (bp, err, b) \<leftarrow> deserialize_uint32 b;
        (bt, err, b) \<leftarrow> deserialize_uint32 b;
        (nb, err, b) \<leftarrow> deserialize_uint32 b;
        if err \<or> unat nb > MDM_CLI_MAX_NB_DATA k then Some (None, b)
        else do {
          (ss, b) \<leftarrow> deserialize_strings k 0 (unat nb) b;
          Some (map_option (\<lambda>ss. Some \<lparr>dtype = ty, ap_logs_size = ap, bp_logs_size = bp,
                  bp_logs_time = bt, nb_data = nb, ddata = ss\<rparr>) ss, b)
        }
      }
      else Some (Some None, b))"

definition deserialize_body :: "mdm_cli \<Rightarrow> int \<Rightarrow> rbuf \<Rightarrow> (wire_body option \<times> rbuf) option" where
  "deserialize_body k mid b =
     (if mid = CRM_REQ_REGISTER k \<or> mid = CRM_REQ_REGISTER_DBG k
      then do {
        (bitmap, err, b) \<leftarrow> deserialize_uint32 b;
        (name, b) \<leftarrow> deserialize_string b (MDM_CLI_NAME_LEN k);
        if err then Some (None, b)
        else Some (map_option (RegisterClient bitmap) name, b)
      }
      else if mid = CRM_REQ_RESTART k
      then do {
        (c, err, b) \<leftarrow> deserialize_uint32 b;
        (dbg, b) \<leftarrow> deserialize_dbg_info k b;
        Some (map_option (Restart c) dbg, b)
      }
      else if mid = CRM_REQ_NOTIFY_DBG k \<or> mid = MDM_DBG_INFO k
      then do {
        (dbg, b) \<leftarrow> deserialize_dbg_info k b;
        Some (map_option Debug dbg, b)
      }
      else Some (Some NoBody, b))"

text \<open>
  \<open>rcv_buf\<close> is what the receive buffer holds from earlier messages, \<open>sock\<close> the bytes that arrive.
  \<open>read_from_fd\<close> stores at an offset of the receive buffer; it fails (\<open>Some None\<close>) when too few
  bytes arrive.
\<close>

definition read_from_fd ::
  "8 word list \<Rightarrow> nat \<Rightarrow> nat \<Rightarrow> 8 word list \<Rightarrow> (8 word list \<times> 8 word list) option option" where
  "read_from_fd sock n off rcv_buf = do {
     ASSERT (off + n \<le> length rcv_buf);
     Some (if n \<le> length sock
           then Some (take off rcv_buf @ take n sock @ drop (off + n) rcv_buf, drop n sock)
           else None)
   }"

definition recv_msg ::
  "mdm_cli \<Rightarrow> 8 word list \<Rightarrow> 8 word list \<Rightarrow> (crm_mdmcli_wire_msg \<times> 8 word list) option option" where
  "recv_msg k rcv_buf sock = do {
     r \<leftarrow> read_from_fd sock MSG_HEADER_SIZE 0 rcv_buf;
     (case r of None \<Rightarrow> Some None | Some (rcv_buf, sock) \<Rightarrow> do {
        (mid, err, b) \<leftarrow> deserialize_uint32 (rcv_buf, MSG_HEADER_SIZE);
        (sz, err, b) \<leftarrow> deserialize_uint32 b;
        if err then Some None
        else do {
          ASSERT (snd b = 0);
          let msg_size = unat sz;
          if msg_size < MSG_HEADER_SIZE \<or> msg_size > MSG_SIZE_MAX k then Some None
          else do {
            r \<leftarrow> read_from_fd sock (msg_size - MSG_HEADER_SIZE) MSG_HEADER_SIZE rcv_buf;
            (case r of None \<Rightarrow> Some None | Some (rcv_buf, sock) \<Rightarrow> do {
               (body, b) \<leftarrow> deserialize_body k (sint mid) (drop MSG_HEADER_SIZE rcv_buf, msg_size - MSG_HEADER_SIZE);
               (case body of
                  None \<Rightarrow> Some None
                | Some body \<Rightarrow>
                    if snd b \<noteq> 0 then Some None
                    else Some (Some (\<lparr>msg_id = sint mid, msg = body\<rparr>, sock)))
             })
          }
        }
      })
   }"

text \<open>
  \<open>send_serialized_msg\<close>: the number of bytes written to the socket, read back from the header.
\<close>

definition send_serialized_msg :: "mdm_cli \<Rightarrow> 8 word list \<Rightarrow> 8 word list option" where
  "send_serialized_msg k bs = do {
     (sz, err, b) \<leftarrow> deserialize_uint32 (bs, MSG_SIZE_MAX k);
     ASSERT (\<not> err);
     (sz, err, b) \<leftarrow> deserialize_uint32 b;
     ASSERT (\<not> err);
     ASSERT (unat sz \<ge> MSG_HEADER_SIZE);
     ASSERT (unat sz \<le> length bs);
     Some (take (unat sz) bs)
   }"

definition send_msg :: "mdm_cli \<Rightarrow> direction \<Rightarrow> crm_mdmcli_wire_msg \<Rightarrow> 8 word list option" where
  "send_msg k dir m = do { d \<leftarrow> serialize_msg k dir m; send_serialized_msg k d }"

section \<open>The encoding\<close>

text \<open>The bytes of each part of a message, without the bounds of the buffers.\<close>

definition enc_string :: "8 word list \<Rightarrow> 8 word list" where
  "enc_string s = be_bytes (word_of_nat (length s)) @ s"

definition enc_dbg :: "mdm_cli_dbg_info option \<Rightarrow> 8 word list" where
  "enc_dbg dbg = (case dbg of None \<Rightarrow> []
     | Some d \<Rightarrow> be_bytes (dtype d) @ be_bytes (ap_logs_size d) @ be_bytes (bp_logs_size d) @
         be_bytes (bp_logs_time d) @ be_bytes (nb_data d) @ concat (map enc_string (ddata d)))"

fun enc_body :: "wire_body \<Rightarrow> 8 word list" where
  "enc_body NoBody = []"
| "enc_body (Debug dbg) = enc_dbg dbg"
| "enc_body (Restart c dbg) = be_bytes c @ enc_dbg dbg"
| "enc_body (RegisterClient bitmap name) = be_bytes bitmap @ enc_string name"

text \<open>The messages a sender may send.\<close>

definition str_ok :: "nat \<Rightarrow> 8 word list \<Rightarrow> bool" where
  "str_ok n s \<longleftrightarrow> 0 \<notin> set s \<and> length s < n"

definition dbg_ok :: "mdm_cli \<Rightarrow> mdm_cli_dbg_info option \<Rightarrow> bool" where
  "dbg_ok k dbg = (case dbg of None \<Rightarrow> True
     | Some d \<Rightarrow> unat (nb_data d) = length (ddata d) \<and> length (ddata d) \<le> MDM_CLI_MAX_NB_DATA k \<and>
         (\<forall>s \<in> set (ddata d). str_ok (MDM_CLI_MAX_LEN_DATA k) s))"

definition body_ok :: "mdm_cli \<Rightarrow> int \<Rightarrow> wire_body \<Rightarrow> bool" where
  "body_ok k mid body =
     (if mid = CRM_REQ_REGISTER k \<or> mid = CRM_REQ_REGISTER_DBG k
      then (case body of RegisterClient bm name \<Rightarrow> str_ok (MDM_CLI_NAME_LEN k) name | _ \<Rightarrow> False)
      else if mid = CRM_REQ_RESTART k
      then (case body of Restart c dbg \<Rightarrow> dbg_ok k dbg | _ \<Rightarrow> False)
      else if mid = CRM_REQ_NOTIFY_DBG k \<or> mid = MDM_DBG_INFO k
      then (case body of Debug dbg \<Rightarrow> dbg_ok k dbg | _ \<Rightarrow> False)
      else body = NoBody)"

definition wire_msg_ok :: "mdm_cli \<Rightarrow> direction \<Rightarrow> crm_mdmcli_wire_msg \<Rightarrow> bool" where
  "wire_msg_ok k dir m \<longleftrightarrow>
     0 \<le> msg_id m \<and> msg_id m < 2 ^ 31 \<and> body_ok k (msg_id m) (msg m) \<and>
     (if dir = CRM_SERVER_TO_CLIENT then msg_id m < MDM_NUM_EVENTS k else msg_id m \<ge> CRM_REQ_REGISTER k)"

lemma length_be_bytes [simp]: "length (be_bytes w) = 4"
  by (simp add: be_bytes_def)

lemma be_word_be_bytes [simp]: "be_word (be_bytes w) = w"
  by (simp add: be_word_def be_bytes_def)

lemma length_enc_string [simp]: "length (enc_string s) = 4 + length s"
  by (simp add: enc_string_def)

section \<open>Writers and readers\<close>

definition writes :: "(wbuf \<Rightarrow> wbuf option) \<Rightarrow> 8 word list \<Rightarrow> bool" where
  "writes f enc \<longleftrightarrow> (\<forall>out room. length enc \<le> room \<longrightarrow> f (out, room) = Some (out @ enc, room - length enc))"

lemma writes_uint32 [intro]: "writes (serialize_uint32 w) (be_bytes w)"
  by (simp add: writes_def serialize_uint32_def)

lemma writes_bind:
  "writes f e1 \<Longrightarrow> writes g e2 \<Longrightarrow> writes (\<lambda>b. Option.bind (f b) g) (e1 @ e2)"
  by (simp add: writes_def)

lemma writes_Some [intro]: "writes Some []"
  by (simp add: writes_def)

lemma writesD: "writes f enc \<Longrightarrow> length enc \<le> room \<Longrightarrow> f (out, room) = Some (out @ enc, room - length enc)"
  by (simp add: writes_def)

lemma strlen_ok: "0 \<notin> set s \<Longrightarrow> strlen s = length s"
  by (induction s) (auto simp: strlen_def)

lemma writes_string: "0 \<notin> set s \<Longrightarrow> writes (serialize_string s) (enc_string s)"
  by (auto simp: writes_def serialize_string_def strlen_ok enc_string_def serialize_uint32_def Let_def)

lemma writes_strings:
  "i + n = length (ddata d) \<Longrightarrow> \<forall>s \<in> set (ddata d). 0 \<notin> set s \<Longrightarrow>
   writes (serialize_strings d i n) (concat (map enc_string (drop i (ddata d))))"
proof (induction n arbitrary: i)
  case 0
  then show ?case by (auto simp: writes_def)
next
  case (Suc n)
  have i: "i < length (ddata d)" using Suc.prems by simp
  have "writes (\<lambda>b. Option.bind (serialize_string (ddata d ! i) b) (serialize_strings d (Suc i) n))
      (enc_string (ddata d ! i) @ concat (map enc_string (drop (Suc i) (ddata d))))"
    using Suc i by (intro writes_bind writes_string) auto
  with i show ?case by (simp add: writes_def Cons_nth_drop_Suc [symmetric])
qed

lemma writes_dbg_opt:
  assumes "dbg_ok k dbg"
  shows "writes (serialize_dbg_opt dbg) (enc_dbg dbg)"
proof (cases dbg)
  case None
  then show ?thesis by (auto simp: serialize_dbg_opt_def enc_dbg_def writes_def)
next
  case (Some d)
  have "writes (serialize_strings d 0 (unat (nb_data d))) (concat (map enc_string (ddata d)))"
    using writes_strings [of 0 "unat (nb_data d)" d] assms Some by (auto simp: dbg_ok_def str_ok_def)
  then have "writes (serialize_dbg_info d) (enc_dbg dbg)"
    unfolding serialize_dbg_info_def enc_dbg_def Some option.case
    by (intro writes_bind writes_uint32)
  then show ?thesis by (simp add: serialize_dbg_opt_def Some writes_def)
qed

lemma writes_body:
  assumes "body_ok k (msg_id m) (msg m)"
  shows "writes (serialize_body k m) (enc_body (msg m))"
proof -
  have r: "writes (\<lambda>b. Option.bind (serialize_uint32 bm b) (serialize_string name)) (be_bytes bm @ enc_string name)"
    if "str_ok n name" for bm name n
    using that by (intro writes_bind writes_string writes_uint32) (auto simp: str_ok_def)
  have c: "writes (\<lambda>b. Option.bind (serialize_uint32 c b) (serialize_dbg_opt dbg)) (be_bytes c @ enc_dbg dbg)"
    if "dbg_ok k dbg" for c dbg
    using that by (intro writes_bind writes_dbg_opt writes_uint32)
  show ?thesis
    using assms r c writes_dbg_opt [of k]
    by (cases "msg m") (auto simp: body_ok_def serialize_body_def writes_def split: if_splits)
qed

lemma read_bytes_app: "length xs = n \<Longrightarrow> read_bytes n (xs @ ys) = Some (xs, ys)"
  by (simp add: read_bytes_def)

lemma reads_uint32 [simp]:
  "deserialize_uint32 (be_bytes w @ rest, 4 + rem) = Some (w, False, (rest, rem))"
  by (simp add: deserialize_uint32_def read_bytes_app)

lemma unat_word_of_nat_32: "n < 2 ^ 32 \<Longrightarrow> unat (word_of_nat n :: 32 word) = n"
  by (simp add: unat_of_nat take_bit_nat_eq_self)

lemma sint_word_of_int_32: "0 \<le> x \<Longrightarrow> x < 2 ^ 31 \<Longrightarrow> sint (word_of_int x :: 32 word) = x"
  by (simp add: sint_sbintrunc' signed_take_bit_int_eq_self)

lemma reads_string:
  assumes "length s < n" "n < 2 ^ 32"
  shows "deserialize_string (enc_string s @ rest, length (enc_string s) + rem) n = Some (Some s, (rest, rem))"
proof -
  have "unat (word_of_nat (length s) :: 32 word) = length s"
    using assms by (intro unat_word_of_nat_32) simp
  then show ?thesis
    using assms by (simp add: deserialize_string_def enc_string_def read_bytes_app add.assoc)
qed

lemma reads_strings:
  "i + length ss \<le> MDM_CLI_MAX_NB_DATA k \<Longrightarrow> MDM_CLI_MAX_LEN_DATA k < 2 ^ 32 \<Longrightarrow>
   \<forall>s \<in> set ss. length s < MDM_CLI_MAX_LEN_DATA k \<Longrightarrow>
   deserialize_strings k i (length ss) (concat (map enc_string ss) @ rest, length (concat (map enc_string ss)) + rem) =
     Some (Some ss, (rest, rem))"
proof (induction ss arbitrary: i)
  case Nil
  then show ?case by simp
next
  case (Cons s ss)
  have "deserialize_string (enc_string s @ concat (map enc_string ss) @ rest,
      length (enc_string s) + (length (concat (map enc_string ss)) + rem)) (MDM_CLI_MAX_LEN_DATA k) =
      Some (Some s, (concat (map enc_string ss) @ rest, length (concat (map enc_string ss)) + rem))"
    using Cons.prems by (intro reads_string) auto
  then show ?case using Cons by (simp add: add.assoc)
qed

lemma reads_dbg_info:
  assumes "dbg_ok k dbg" "MDM_CLI_MAX_LEN_DATA k < 2 ^ 32"
  shows "deserialize_dbg_info k (enc_dbg dbg @ rest, length (enc_dbg dbg)) = Some (Some dbg, (rest, 0))"
proof (cases dbg)
  case None
  then show ?thesis by (simp add: enc_dbg_def deserialize_dbg_info_def)
next
  case (Some d)
  let ?ss = "concat (map enc_string (ddata d))"
  have "deserialize_strings k 0 (length (ddata d)) (?ss @ rest, length ?ss) = Some (Some (ddata d), (rest, 0))"
    using reads_strings [of 0 "ddata d" k rest 0] assms Some by (auto simp: dbg_ok_def str_ok_def)
  moreover have "unat (nb_data d) = length (ddata d)" "length (ddata d) \<le> MDM_CLI_MAX_NB_DATA k"
    using assms(1) Some by (auto simp: dbg_ok_def)
  ultimately show ?thesis
    using reads_uint32 [of "dtype d" "be_bytes (ap_logs_size d) @ be_bytes (bp_logs_size d) @
        be_bytes (bp_logs_time d) @ be_bytes (nb_data d) @ ?ss @ rest" "16 + length ?ss"]
      reads_uint32 [of "ap_logs_size d" "be_bytes (bp_logs_size d) @
        be_bytes (bp_logs_time d) @ be_bytes (nb_data d) @ ?ss @ rest" "12 + length ?ss"]
      reads_uint32 [of "bp_logs_size d" "be_bytes (bp_logs_time d) @ be_bytes (nb_data d) @ ?ss @ rest" "8 + length ?ss"]
      reads_uint32 [of "bp_logs_time d" "be_bytes (nb_data d) @ ?ss @ rest" "4 + length ?ss"]
      reads_uint32 [of "nb_data d" "?ss @ rest" "length ?ss"]
    by (simp add: Some enc_dbg_def deserialize_dbg_info_def)
qed

lemma reads_body:
  assumes "mdm_cli_ok k" "body_ok k mid body"
  shows "deserialize_body k mid (enc_body body @ rest, length (enc_body body)) = Some (Some body, (rest, 0))"
proof -
  have k: "MDM_CLI_MAX_LEN_DATA k < 2 ^ 32" "MDM_CLI_NAME_LEN k < 2 ^ 32"
    using assms(1) by (auto simp: mdm_cli_ok_def)
  show ?thesis
  proof (cases body)
    case NoBody
    then show ?thesis using assms(2) by (auto simp: body_ok_def deserialize_body_def split: if_splits)
  next
    case (Debug dbg)
    then show ?thesis using assms(2) reads_dbg_info [OF _ k(1)]
      by (auto simp: body_ok_def deserialize_body_def split: if_splits)
  next
    case (Restart c dbg)
    have "dbg_ok k dbg" "mid = CRM_REQ_RESTART k"
      using assms(2) Restart by (auto simp: body_ok_def split: if_splits)
    then show ?thesis
      using reads_dbg_info [OF _ k(1)] reads_uint32 [of c "enc_dbg dbg @ rest" "length (enc_dbg dbg)"]
      by (simp add: Restart deserialize_body_def)
  next
    case (RegisterClient bm name)
    have "length name < MDM_CLI_NAME_LEN k" "mid = CRM_REQ_REGISTER k \<or> mid = CRM_REQ_REGISTER_DBG k"
      using assms(2) RegisterClient by (auto simp: body_ok_def str_ok_def split: if_splits)
    then show ?thesis
      using reads_string [OF _ k(2), of name rest 0]
        reads_uint32 [of bm "enc_string name @ rest" "length (enc_string name)"]
      by (auto simp: RegisterClient deserialize_body_def)
  qed
qed

section \<open>Sizes\<close>

lemma length_concat_bound: "\<forall>x \<in> set xs. length (f x) \<le> n \<Longrightarrow> length (concat (map f xs)) \<le> length xs * n"
  by (induction xs) auto

lemma enc_body_size:
  assumes "mdm_cli_ok k" "body_ok k mid body"
  shows "8 + length (enc_body body) \<le> MSG_SIZE_MAX k"
proof -
  have dbg: "length (enc_dbg dbg) \<le> 20 + MDM_CLI_MAX_NB_DATA k * (4 + MDM_CLI_MAX_LEN_DATA k)"
    if d: "dbg_ok k dbg" for dbg
  proof (cases dbg)
    case (Some d)
    have "length (concat (map enc_string (ddata d))) \<le> length (ddata d) * (4 + MDM_CLI_MAX_LEN_DATA k)"
      using d Some by (intro length_concat_bound) (auto simp: dbg_ok_def str_ok_def)
    also have "\<dots> \<le> MDM_CLI_MAX_NB_DATA k * (4 + MDM_CLI_MAX_LEN_DATA k)"
      using d Some by (intro mult_right_mono) (auto simp: dbg_ok_def)
    finally show ?thesis by (simp add: Some enc_dbg_def)
  qed (simp add: enc_dbg_def)
  have name: "length name \<le> MDM_CLI_MAX_NB_DATA k * (4 + MDM_CLI_MAX_LEN_DATA k)"
    if "str_ok (MDM_CLI_NAME_LEN k) name" for name
  proof -
    have "length name \<le> 1 * (4 + MDM_CLI_MAX_LEN_DATA k)"
      using that assms(1) by (simp add: mdm_cli_ok_def str_ok_def)
    also have "\<dots> \<le> MDM_CLI_MAX_NB_DATA k * (4 + MDM_CLI_MAX_LEN_DATA k)"
      using assms(1) by (intro mult_right_mono) (auto simp: mdm_cli_ok_def)
    finally show ?thesis .
  qed
  show ?thesis
    using assms(2) dbg name
    by (cases body) (fastforce simp: body_ok_def MSG_SIZE_MAX_def split: if_splits)+
qed

lemma msg_size_max_small: "mdm_cli_ok k \<Longrightarrow> MSG_SIZE_MAX k < 2 ^ 32"
proof -
  assume k: "mdm_cli_ok k"
  then have "MDM_CLI_MAX_NB_DATA k * (4 + MDM_CLI_MAX_LEN_DATA k) \<le> 1000 * (4 + 1000)"
    by (intro mult_mono) (auto simp: mdm_cli_ok_def)
  then show ?thesis by (simp add: MSG_SIZE_MAX_def)
qed

lemma serialize_msg_eq:
  assumes "mdm_cli_ok k" "wire_msg_ok k dir m"
  shows "serialize_msg k dir m =
    Some (be_bytes (word_of_int (msg_id m)) @ be_bytes (word_of_nat (8 + length (enc_body (msg m)))) @ enc_body (msg m))"
proof -
  have b: "body_ok k (msg_id m) (msg m)"
    and d: "(msg_id m < MDM_NUM_EVENTS k \<and> dir = CRM_SERVER_TO_CLIENT) \<or>
      (msg_id m \<ge> CRM_REQ_REGISTER k \<and> dir = CRM_CLIENT_TO_SERVER)"
    using assms(2) by (cases dir; auto simp: wire_msg_ok_def)+
  have z: "8 + length (enc_body (msg m)) \<le> MSG_SIZE_MAX k" by (rule enc_body_size [OF assms(1) b])
  have "serialize_body k m (be_bytes (word_of_int (msg_id m)) @ be_bytes 0, MSG_SIZE_MAX k - 8) =
      Some ((be_bytes (word_of_int (msg_id m)) @ be_bytes 0) @ enc_body (msg m), MSG_SIZE_MAX k - 8 - length (enc_body (msg m)))"
    using z by (intro writesD writes_body b) auto
  then show ?thesis
    using d z by (auto simp: serialize_msg_def serialize_uint32_def Let_def)
qed

section \<open>Reading never fails\<close>

definition rbuf_ok :: "rbuf \<Rightarrow> bool" where
  "rbuf_ok b \<longleftrightarrow> snd b \<le> length (fst b)"

lemma deserialize_uint32_returns:
  "rbuf_ok b \<Longrightarrow> \<exists>w e b'. deserialize_uint32 b = Some (w, e, b') \<and> rbuf_ok b'"
  by (cases b) (auto simp: deserialize_uint32_def rbuf_ok_def read_bytes_def)

lemma deserialize_string_returns:
  assumes "rbuf_ok b"
  shows "\<exists>s b'. deserialize_string b n = Some (s, b') \<and> rbuf_ok b' \<and> (\<forall>x. s = Some x \<longrightarrow> length x < n)"
proof -
  obtain w e b1 where "deserialize_uint32 b = Some (w, e, b1)" "rbuf_ok b1"
    using deserialize_uint32_returns [OF assms] by blast
  then show ?thesis
    by (cases "e \<or> snd b1 < unat w \<or> n \<le> unat w")
      (auto simp: deserialize_string_def rbuf_ok_def read_bytes_def Let_def)
qed

lemma deserialize_strings_returns:
  "rbuf_ok b \<Longrightarrow> i + n \<le> MDM_CLI_MAX_NB_DATA k \<Longrightarrow>
   \<exists>ss b'. deserialize_strings k i n b = Some (ss, b') \<and> rbuf_ok b' \<and>
     (\<forall>xs. ss = Some xs \<longrightarrow> length xs = n \<and> (\<forall>x \<in> set xs. length x < MDM_CLI_MAX_LEN_DATA k))"
proof (induction n arbitrary: i b)
  case 0
  then show ?case by simp
next
  case (Suc n)
  obtain s b1 where s: "deserialize_string b (MDM_CLI_MAX_LEN_DATA k) = Some (s, b1)" "rbuf_ok b1"
    "\<forall>x. s = Some x \<longrightarrow> length x < MDM_CLI_MAX_LEN_DATA k"
    using deserialize_string_returns [OF Suc.prems(1)] by blast
  obtain ss b2 where ss: "deserialize_strings k (Suc i) n b1 = Some (ss, b2)" "rbuf_ok b2"
    "\<forall>xs. ss = Some xs \<longrightarrow> length xs = n \<and> (\<forall>x \<in> set xs. length x < MDM_CLI_MAX_LEN_DATA k)"
    using Suc.IH [OF s(2), of "Suc i"] Suc.prems(2) by auto
  show ?case using s ss Suc.prems(2) by (cases s; cases ss) auto
qed

text \<open>The bounds of what a receiver is given.\<close>

definition dbg_bounded :: "mdm_cli \<Rightarrow> mdm_cli_dbg_info option \<Rightarrow> bool" where
  "dbg_bounded k dbg = (case dbg of None \<Rightarrow> True
     | Some d \<Rightarrow> unat (nb_data d) = length (ddata d) \<and> length (ddata d) \<le> MDM_CLI_MAX_NB_DATA k \<and>
         (\<forall>s \<in> set (ddata d). length s < MDM_CLI_MAX_LEN_DATA k))"

fun body_bounded :: "mdm_cli \<Rightarrow> wire_body \<Rightarrow> bool" where
  "body_bounded k NoBody = True"
| "body_bounded k (Debug dbg) = dbg_bounded k dbg"
| "body_bounded k (Restart c dbg) = dbg_bounded k dbg"
| "body_bounded k (RegisterClient bm name) = (length name < MDM_CLI_NAME_LEN k)"

lemma deserialize_dbg_info_returns:
  assumes "rbuf_ok b"
  shows "\<exists>d b'. deserialize_dbg_info k b = Some (d, b') \<and> rbuf_ok b' \<and> (\<forall>x. d = Some x \<longrightarrow> dbg_bounded k x)"
proof (cases "snd b = 0")
  case True
  then show ?thesis using assms by (simp add: deserialize_dbg_info_def dbg_bounded_def)
next
  case False
  obtain w1 e1 b1 where 1: "deserialize_uint32 b = Some (w1, e1, b1)" "rbuf_ok b1"
    using deserialize_uint32_returns [OF assms] by blast
  obtain w2 e2 b2 where 2: "deserialize_uint32 b1 = Some (w2, e2, b2)" "rbuf_ok b2"
    using deserialize_uint32_returns [OF 1(2)] by blast
  obtain w3 e3 b3 where 3: "deserialize_uint32 b2 = Some (w3, e3, b3)" "rbuf_ok b3"
    using deserialize_uint32_returns [OF 2(2)] by blast
  obtain w4 e4 b4 where 4: "deserialize_uint32 b3 = Some (w4, e4, b4)" "rbuf_ok b4"
    using deserialize_uint32_returns [OF 3(2)] by blast
  obtain w5 e5 b5 where 5: "deserialize_uint32 b4 = Some (w5, e5, b5)" "rbuf_ok b5"
    using deserialize_uint32_returns [OF 4(2)] by blast
  show ?thesis
  proof (cases "e5 \<or> unat w5 > MDM_CLI_MAX_NB_DATA k")
    case True
    then show ?thesis using False 1 2 3 4 5 by (auto simp: deserialize_dbg_info_def)
  next
    case F: False
    obtain ss b6 where "deserialize_strings k 0 (unat w5) b5 = Some (ss, b6)" "rbuf_ok b6"
      "\<forall>xs. ss = Some xs \<longrightarrow> length xs = unat w5 \<and> (\<forall>x \<in> set xs. length x < MDM_CLI_MAX_LEN_DATA k)"
      using deserialize_strings_returns [OF 5(2), of 0 "unat w5" k] F by auto
    then show ?thesis using False F 1 2 3 4 5
      by (auto simp: deserialize_dbg_info_def dbg_bounded_def)
  qed
qed

lemma deserialize_body_returns:
  assumes "rbuf_ok b"
  shows "\<exists>d b'. deserialize_body k mid b = Some (d, b') \<and> rbuf_ok b' \<and> (\<forall>x. d = Some x \<longrightarrow> body_bounded k x)"
proof -
  obtain w e b1 where u: "deserialize_uint32 b = Some (w, e, b1)" "rbuf_ok b1"
    using deserialize_uint32_returns [OF assms] by blast
  obtain s b2 where s: "deserialize_string b1 (MDM_CLI_NAME_LEN k) = Some (s, b2)" "rbuf_ok b2"
    "\<forall>x. s = Some x \<longrightarrow> length x < MDM_CLI_NAME_LEN k"
    using deserialize_string_returns [OF u(2)] by blast
  obtain d b3 where d: "deserialize_dbg_info k b1 = Some (d, b3)" "rbuf_ok b3" "\<forall>x. d = Some x \<longrightarrow> dbg_bounded k x"
    using deserialize_dbg_info_returns [OF u(2)] by blast
  obtain d' b4 where d': "deserialize_dbg_info k b = Some (d', b4)" "rbuf_ok b4" "\<forall>x. d' = Some x \<longrightarrow> dbg_bounded k x"
    using deserialize_dbg_info_returns [OF assms] by blast
  show ?thesis
    using assms u s d d' unfolding deserialize_body_def by (auto simp del: split_paired_Ex)
qed

lemma read_from_fd_cases:
  "off + n \<le> length rcv \<Longrightarrow>
   read_from_fd sock n off rcv = Some None \<or>
   (\<exists>rcv'. read_from_fd sock n off rcv = Some (Some (rcv', drop n sock)) \<and> length rcv' = length rcv \<and>
      rcv' = take off rcv @ take n sock @ drop (off + n) rcv \<and> n \<le> length sock)"
  by (auto simp: read_from_fd_def)

section \<open>Properties\<close>

text \<open>A message that is sent is what the other side receives, whatever follows it.\<close>

lemma send_recv:
  assumes "mdm_cli_ok k" "wire_msg_ok k dir m" "length rcv_buf = MSG_SIZE_MAX k"
  shows "\<exists>bs. send_msg k dir m = Some bs \<and> length bs \<le> MSG_SIZE_MAX k \<and>
    recv_msg k rcv_buf (bs @ rest) = Some (Some (m, rest))"
proof -
  let ?b = "enc_body (msg m)" and ?n = "8 + length (enc_body (msg m))"
  let ?h = "be_bytes (word_of_int (msg_id m)) @ be_bytes (word_of_nat ?n)"
  have ok: "body_ok k (msg_id m) (msg m)" "0 \<le> msg_id m" "msg_id m < 2 ^ 31"
    using assms(2) by (auto simp: wire_msg_ok_def)
  have n: "?n \<le> MSG_SIZE_MAX k" "MSG_SIZE_MAX k < 2 ^ 32"
    using enc_body_size [OF assms(1) ok(1)] msg_size_max_small [OF assms(1)] by auto
  have u: "unat (word_of_nat ?n :: 32 word) = ?n" using n by (intro unat_word_of_nat_32) simp
  have i: "sint (word_of_int (msg_id m) :: 32 word) = msg_id m"
    using ok by (intro sint_word_of_int_32)
  have h: "deserialize_uint32 (be_bytes x @ be_bytes y @ z, 8 + r) = Some (x, False, (be_bytes y @ z, 4 + r))"
    for x y z r
    using reads_uint32 [of x "be_bytes y @ z" "4 + r"] by simp
  have s: "send_msg k dir m = Some (?h @ ?b)"
    using h [of "word_of_int (msg_id m)" "word_of_nat ?n" ?b "MSG_SIZE_MAX k - 8"] n u
      reads_uint32 [of "word_of_nat ?n" ?b "MSG_SIZE_MAX k - 8"]
    by (simp add: send_msg_def serialize_msg_eq [OF assms(1,2)] send_serialized_msg_def)
  have r1: "read_from_fd (?h @ ?b @ rest) 8 0 rcv_buf = Some (Some (?h @ drop 8 rcv_buf, ?b @ rest))"
    using n assms(3) by (simp add: read_from_fd_def)
  have r2: "read_from_fd (?b @ rest) (?n - 8) 8 (?h @ drop 8 rcv_buf) =
      Some (Some (?h @ ?b @ drop ?n rcv_buf, rest))"
    using n assms(3) by (simp add: read_from_fd_def add.commute)
  have "recv_msg k rcv_buf (?h @ ?b @ rest) = Some (Some (\<lparr>msg_id = msg_id m, msg = msg m\<rparr>, rest))"
    using r1 r2 h [of "word_of_int (msg_id m)" "word_of_nat ?n" "drop 8 rcv_buf" 0] u n i
      reads_uint32 [of "word_of_nat ?n" "drop 8 rcv_buf" 0]
      reads_body [OF assms(1) ok(1), of "drop ?n rcv_buf"]
    by (simp add: recv_msg_def)
  moreover have "\<lparr>msg_id = msg_id m, msg = msg m\<rparr> = m" by simp
  ultimately show ?thesis using s n by auto
qed

text \<open>
  C1: a message that a sender may send arrives as it was sent. The serialised bytes fit the
  buffer, their number is the one in the header, all of them and only them are written to the
  socket, and the receiver rebuilds the message whatever follows on the socket and whatever its
  receive buffer holds from before.
\<close>

theorem wire_roundtrip:
  assumes "mdm_cli_ok k" "wire_msg_ok k dir m" "length rcv_buf = MSG_SIZE_MAX k"
  shows "\<exists>bs. send_msg k dir m = Some bs \<and> length bs \<le> MSG_SIZE_MAX k \<and>
    recv_msg k rcv_buf (bs @ rest) = Some (Some (m, rest))"
  using send_recv [OF assms] .

text \<open>
  C2: whatever bytes a peer sends, receiving returns: no assertion fails and no access leaves the
  receive buffer or the string tables. What is accepted is bounded: the client name fits its
  buffer, and so do the number of debug strings and each of them.
\<close>

theorem wire_recv_robust:
  assumes "length rcv_buf = MSG_SIZE_MAX k"
  shows "recv_msg k rcv_buf sock = Some None \<or>
    (\<exists>m rest. recv_msg k rcv_buf sock = Some (Some (m, rest)) \<and> body_bounded k (msg m) \<and>
       length sock - length rest \<le> MSG_SIZE_MAX k)"
proof -
  have l: "8 \<le> length rcv_buf" using assms by (simp add: MSG_SIZE_MAX_def)
  consider "read_from_fd sock 8 0 rcv_buf = Some None"
    | rcv1 where "read_from_fd sock 8 0 rcv_buf = Some (Some (rcv1, drop 8 sock))" "length rcv1 = length rcv_buf"
      "8 \<le> length sock"
    using read_from_fd_cases [of 0 8 rcv_buf sock] l by auto
  then show ?thesis
  proof cases
    case 1
    then show ?thesis by (simp add: recv_msg_def)
  next
    case (2 rcv1)
    have l1: "8 \<le> length rcv1" using 2 l by simp
    obtain mid where d1: "deserialize_uint32 (rcv1, 8) = Some (mid, False, (drop 4 rcv1, 4))"
      using l1 by (simp add: deserialize_uint32_def read_bytes_def)
    obtain sz where d2: "deserialize_uint32 (drop 4 rcv1, 4) = Some (sz, False, (drop 8 rcv1, 0))"
      using l1 le_diff_conv2 [of 4 "length rcv1" 4] by (simp add: deserialize_uint32_def read_bytes_def)
    show ?thesis
    proof (cases "unat sz < 8 \<or> unat sz > MSG_SIZE_MAX k")
      case True
      then show ?thesis using 2 d1 d2 by (auto simp: recv_msg_def)
    next
      case F: False
      let ?n = "unat sz - 8"
      consider "read_from_fd (drop 8 sock) ?n 8 rcv1 = Some None"
        | rcv2 where "read_from_fd (drop 8 sock) ?n 8 rcv1 = Some (Some (rcv2, drop ?n (drop 8 sock)))"
          "length rcv2 = length rcv1" "?n \<le> length (drop 8 sock)"
        using read_from_fd_cases [of 8 ?n rcv1 "drop 8 sock"] F 2 assms by auto
      then show ?thesis
      proof cases
        case 1
        then show ?thesis using F 2 d1 d2 by (auto simp: recv_msg_def)
      next
        case r: (2 rcv2)
        have "rbuf_ok (drop 8 rcv2, ?n)" using r 2 F assms by (auto simp: rbuf_ok_def)
        then obtain body b where "deserialize_body k (sint mid) (drop 8 rcv2, ?n) = Some (body, b)"
          "\<forall>x. body = Some x \<longrightarrow> body_bounded k x"
          using deserialize_body_returns by blast
        then show ?thesis using F 2 d1 d2 r
          by (cases body) (auto simp: recv_msg_def)
      qed
    qed
  qed
qed

text \<open>A registration and a restart request, with the constants of \<open>demo_cli\<close>.\<close>

definition wire_demo_msg :: crm_mdmcli_wire_msg where
  "wire_demo_msg = \<lparr>msg_id = 12, msg = Restart 1 (Some \<lparr>dtype = 2, ap_logs_size = 3, bp_logs_size = 4,
     bp_logs_time = 5, nb_data = 2, ddata = [[65, 66], [67]]\<rparr>)\<rparr>"

theorem wire_roundtrip_witness:
  "\<exists>bs. send_msg demo_cli CRM_CLIENT_TO_SERVER wire_demo_msg = Some bs \<and>
     recv_msg demo_cli (replicate (MSG_SIZE_MAX demo_cli) 0) (bs @ [1, 2]) = Some (Some (wire_demo_msg, [1, 2]))"
proof -
  have "wire_msg_ok demo_cli CRM_CLIENT_TO_SERVER wire_demo_msg"
    by (simp add: wire_msg_ok_def wire_demo_msg_def body_ok_def dbg_ok_def str_ok_def demo_cli_def)
  from wire_roundtrip [OF demo_cli_ok this, of "replicate (MSG_SIZE_MAX demo_cli) 0" "[1, 2]"]
  show ?thesis by auto
qed

theorem wire_recv_robust_witness:
  "recv_msg demo_cli (replicate (MSG_SIZE_MAX demo_cli) 0) [255, 255] = Some None \<or>
   (\<exists>m rest. recv_msg demo_cli (replicate (MSG_SIZE_MAX demo_cli) 0) [255, 255] = Some (Some (m, rest)) \<and>
      body_bounded demo_cli (msg m))"
  using wire_recv_robust [of "replicate (MSG_SIZE_MAX demo_cli) 0" demo_cli "[255, 255]"] by auto

text \<open>A message of eight bytes: a header and nothing behind it.\<close>

lemma recv_header_only:
  assumes "length rcv_buf = MSG_SIZE_MAX k" "deserialize_body k (sint w) (drop 8 rcv_buf, 0) = Some (Some b, (x, 0))"
  shows "recv_msg k rcv_buf (be_bytes w @ be_bytes 8 @ rest) = Some (Some (\<lparr>msg_id = sint w, msg = b\<rparr>, rest))"
proof -
  have l: "8 \<le> MSG_SIZE_MAX k" by (simp add: MSG_SIZE_MAX_def)
  have r1: "read_from_fd (be_bytes w @ be_bytes 8 @ rest) 8 0 rcv_buf =
      Some (Some (be_bytes w @ be_bytes 8 @ drop 8 rcv_buf, rest))"
    using l assms(1) by (simp add: read_from_fd_def)
  have r2: "read_from_fd rest 0 8 (be_bytes w @ be_bytes 8 @ drop 8 rcv_buf) =
      Some (Some (be_bytes w @ be_bytes 8 @ drop 8 rcv_buf, rest))"
    using l assms(1) by (simp add: read_from_fd_def)
  show ?thesis
    using r1 r2 l assms(2) reads_uint32 [of w "be_bytes 8 @ drop 8 rcv_buf" 4] reads_uint32 [of 8 "drop 8 rcv_buf" 0]
    by (simp add: recv_msg_def)
qed

text \<open>
  The error flag of the restart cause is lost. A restart request that consists of its header
  only, without the cause the protocol requires, is not rejected: the receiver reports a restart
  with cause 0 and no debug information.
\<close>

theorem wire_restart_cause_unchecked:
  assumes "mdm_cli_ok k" "length rcv_buf = MSG_SIZE_MAX k"
  shows "recv_msg k rcv_buf (be_bytes (word_of_int (CRM_REQ_RESTART k)) @ be_bytes 8 @ rest) =
    Some (Some (\<lparr>msg_id = CRM_REQ_RESTART k, msg = Restart 0 None\<rparr>, rest))"
proof -
  have i: "sint (word_of_int (CRM_REQ_RESTART k) :: 32 word) = CRM_REQ_RESTART k"
    using assms(1) by (intro sint_word_of_int_32) (auto simp: mdm_cli_ok_def cli_events_def)
  have "deserialize_body k (CRM_REQ_RESTART k) (drop 8 rcv_buf, 0) = Some (Some (Restart 0 None), (drop 8 rcv_buf, 0))"
    by (simp add: deserialize_body_def deserialize_uint32_def deserialize_dbg_info_def)
  with recv_header_only [OF assms(2), of "word_of_int (CRM_REQ_RESTART k)"] i show ?thesis by simp
qed

theorem wire_restart_cause_unchecked_witness:
  "recv_msg demo_cli (replicate (MSG_SIZE_MAX demo_cli) 0) (be_bytes 12 @ be_bytes 8) =
    Some (Some (\<lparr>msg_id = 12, msg = Restart 0 None\<rparr>, []))"
  using wire_restart_cause_unchecked [OF demo_cli_ok, of "replicate (MSG_SIZE_MAX demo_cli) 0" "[]"]
  by (simp add: demo_cli_def)

end
