(* ===== verification/Crm_Strings.thy ===== *)
theory Crm_Strings
  imports Crm_Wire Crm_Escalation
begin

text \<open>
  libs/utils/src/string_helpers.c: the names the log messages use. A value without a name aborts,
  and the arguments of a log call are evaluated before the call, so these functions are part of
  what an operation does: \<open>None\<close> is the abort.
\<close>

definition crm_mdmcli_wire_req_to_string :: "mdm_cli \<Rightarrow> int \<Rightarrow> string option" where
  "crm_mdmcli_wire_req_to_string k req_id =
     map_of [(MDM_DOWN k, ''MDM_DOWN''), (MDM_ON k, ''MDM_ON''), (MDM_UP k, ''MDM_UP''),
       (MDM_OOS k, ''MDM_OOS''), (MDM_COLD_RESET k, ''MDM_COLD_RESET''),
       (MDM_SHUTDOWN k, ''MDM_SHUTDOWN''), (MDM_DBG_INFO k, ''MDM_DBG_INFO''),
       (CRM_REQ_REGISTER k, ''REGISTER''), (CRM_REQ_REGISTER_DBG k, ''REGISTER_DBG''),
       (CRM_REQ_ACQUIRE k, ''ACQUIRE''), (CRM_REQ_RELEASE k, ''RELEASE''),
       (CRM_REQ_RESTART k, ''RESTART''), (CRM_REQ_SHUTDOWN k, ''SHUTDOWN''),
       (CRM_REQ_NVM_BACKUP k, ''NVM_BACKUP''), (CRM_REQ_ACK_COLD_RESET k, ''ACK_COLD_RESET''),
       (CRM_REQ_ACK_SHUTDOWN k, ''ACK_SHUTDOWN''), (CRM_REQ_NOTIFY_DBG k, ''NOTIFY_DBG'')] req_id"

definition crm_mdmcli_dbg_type_to_string :: "mdm_cli \<Rightarrow> 32 word \<Rightarrow> string option" where
  "crm_mdmcli_dbg_type_to_string k ty =
     map_of [(DBG_TYPE_STATS k, ''STATS''), (DBG_TYPE_INFO k, ''INFO''), (DBG_TYPE_ERROR k, ''ERROR''),
       (DBG_TYPE_PLATFORM_REBOOT k, ''PLATFORM_REBOOT''), (DBG_TYPE_DUMP_START k, ''DUMP_START''),
       (DBG_TYPE_DUMP_END k, ''DUMP_END''), (DBG_TYPE_APIMR k, ''APIMR''),
       (DBG_TYPE_SELF_RESET k, ''SELF_RESET''), (DBG_TYPE_FW_SUCCES k, ''FW_SUCCESS''),
       (DBG_TYPE_FW_FAILURE k, ''FW_FAILURE''), (DBG_TYPE_TLV_NONE k, ''TLV_NONE''),
       (DBG_TYPE_TLV_SUCCESS k, ''TLV_SUCCESS''), (DBG_TYPE_TLV_FAILURE k, ''TLV_FAILURE''),
       (DBG_TYPE_NVM_BACKUP_SUCCESS k, ''NVM_BACKUP_SUCCESS''),
       (DBG_TYPE_NVM_BACKUP_FAILURE k, ''NVM_BACKUP_FAILURE'')] ty"

definition crm_mdmcli_restart_cause_to_string :: "mdm_cli \<Rightarrow> 32 word \<Rightarrow> string option" where
  "crm_mdmcli_restart_cause_to_string k rc =
     map_of [(RESTART_MDM_OOS k, ''MDM_OOS''), (RESTART_MDM_ERR k, ''MDM_ERR''),
       (RESTART_APPLY_UPDATE k, ''APPLY_UPDATE'')] rc"

definition crm_cli_abs_mdm_state_to_string :: "int \<Rightarrow> string option" where
  "crm_cli_abs_mdm_state_to_string mdm_state =
     map_of [(MDM_STATE_OFF, ''MDM_STATE_OFF''), (MDM_STATE_UNRESP, ''MDM_STATE_UNRESP''),
       (MDM_STATE_BUSY, ''MDM_STATE_BUSY''), (MDM_STATE_READY, ''MDM_STATE_READY''),
       (MDM_STATE_PLATFORM_REBOOT, ''MDM_STATE_PLATFORM_REBOOT''),
       (MDM_STATE_UNKNOWN, ''MDM_STATE_UNKNOWN'')] mdm_state"

definition crm_escalation_level_to_string :: "int \<Rightarrow> string option" where
  "crm_escalation_level_to_string level =
     map_of [(STEP_MDM_WARM_RESET, ''warm reset''), (STEP_MDM_COLD_RESET, ''cold reset''),
       (STEP_PLATFORM_REBOOT, ''platform reboot''), (STEP_OOS, ''modem oos'')] level"

lemma req_named:
  "(\<exists>s. crm_mdmcli_wire_req_to_string k i = Some s) \<longleftrightarrow>
   i \<in> set (cli_events k) \<or> MDM_NUM_EVENTS k \<le> i \<and> i \<le> MDM_NUM_EVENTS k + 9"
  by (auto simp: crm_mdmcli_wire_req_to_string_def cli_events_def split: if_splits) presburger

lemma mdm_state_named: "(\<exists>s. crm_cli_abs_mdm_state_to_string m = Some s) \<longleftrightarrow> 0 \<le> m \<and> m \<le> 5"
  by (auto simp: crm_cli_abs_mdm_state_to_string_def split: if_splits)

end
