(* ===== verification/Crm_Telbridge.thy ===== *)
theory Crm_Telbridge
  imports Crm_Wire
begin

text \<open>
  bridge/c/lib/src/telbridgelib.c: the library with which the processes of the telephony stack ask the
  Java bridge to hold a wakelock, start a service or broadcast an intent. A message is a size, a command and
  a list of values, each with its length and type. The other end, the reader of the Java application
  (DaemonSocket.java), is \<open>java_message\<close>: it reads characters, which the default character set of the platform makes of the
  bytes of the socket.

  A string is the list of its bytes before the terminating zero. The arguments of a format are a list;
  \<open>None\<close> is a failed assertion or an argument of another type than the format says.
\<close>

section \<open>Serialisation\<close>

abbreviation (input) TEL_BRIDGE_COMMAND_WAKELOCK_ACQUIRE :: int where "TEL_BRIDGE_COMMAND_WAKELOCK_ACQUIRE \<equiv> 0"
abbreviation (input) TEL_BRIDGE_COMMAND_WAKELOCK_RELEASE :: int where "TEL_BRIDGE_COMMAND_WAKELOCK_RELEASE \<equiv> 1"
abbreviation (input) TEL_BRIDGE_COMMAND_START_SERVICE :: int where "TEL_BRIDGE_COMMAND_START_SERVICE \<equiv> 2"
abbreviation (input) TEL_BRIDGE_COMMAND_BROADCAST_INTENT :: int where "TEL_BRIDGE_COMMAND_BROADCAST_INTENT \<equiv> 3"
abbreviation (input) TEL_BRIDGE_COMMAND_NUM :: int where "TEL_BRIDGE_COMMAND_NUM \<equiv> 4"

abbreviation (input) TEL_BRIDGE_DATA_TYPE_INT :: "32 word" where "TEL_BRIDGE_DATA_TYPE_INT \<equiv> 0"
abbreviation (input) TEL_BRIDGE_DATA_TYPE_STRING :: "32 word" where "TEL_BRIDGE_DATA_TYPE_STRING \<equiv> 1"

datatype tel_value = TelInt "32 word" | TelString "8 word list"

text \<open>What is written so far to a message of \<open>len\<close> bytes.\<close>

definition tel_uint32 :: "nat \<Rightarrow> 32 word \<Rightarrow> 8 word list \<Rightarrow> 8 word list option" where
  "tel_uint32 len val b = do {
     ASSERT (length b + 4 \<le> len);
     Some (b @ be_bytes val)
   }"

definition tel_string :: "nat \<Rightarrow> 8 word list \<Rightarrow> 8 word list \<Rightarrow> 8 word list option" where
  "tel_string len s b = do {
     ASSERT (length b + 8 + length s \<le> len);
     b \<leftarrow> tel_uint32 len (word_of_nat (length s)) b;
     b \<leftarrow> tel_uint32 len TEL_BRIDGE_DATA_TYPE_STRING b;
     Some (b @ s)
   }"

text \<open>The next parameter of a format: its name, the letter of its type and the rest of the format.\<close>

definition next_param :: "8 word list \<Rightarrow> (8 word list \<times> 8 word \<times> 8 word list) option" where
  "next_param f = do {
     ASSERT (37 \<in> set f);
     let name = takeWhile (\<lambda>b. b \<noteq> 37) f;
     ASSERT (name \<noteq> []);
     (case drop (length name + 1) f of
        [] \<Rightarrow> None
      | c # rest \<Rightarrow> do { ASSERT (c = 100 \<or> c = 115); Some (name, c, rest) })
   }"

lemma next_param_shorter: "next_param f = Some (name, c, rest) \<Longrightarrow> length rest < length f"
  by (cases "drop (length (takeWhile (\<lambda>b. b \<noteq> 37) f) + 1) f")
    (auto simp: next_param_def bind_Some_iff Let_def dest!: arg_cong [where f = length])

definition param_arg :: "8 word \<Rightarrow> tel_value list \<Rightarrow> (tel_value \<times> tel_value list) option" where
  "param_arg c vs =
     (case vs of
        TelInt w # vs' \<Rightarrow> if c = 100 then Some (TelInt w, vs') else None
      | TelString s # vs' \<Rightarrow> if c = 115 then Some (TelString s, vs') else None
      | [] \<Rightarrow> None)"

fun value_size :: "tel_value \<Rightarrow> nat" where
  "value_size (TelInt w) = 4"
| "value_size (TelString s) = length s"

function format_size :: "8 word list \<Rightarrow> tel_value list \<Rightarrow> nat option" where
  "format_size f vs =
     (if f = [] then Some 0
      else (case next_param f of
              None \<Rightarrow> None
            | Some (name, c, rest) \<Rightarrow>
                (case param_arg c vs of
                   None \<Rightarrow> None
                 | Some (v, vs') \<Rightarrow>
                     map_option (\<lambda>n. 8 + length name + 8 + value_size v + n) (format_size rest vs'))))"
  by pat_completeness auto
termination
  by (relation "measure (\<lambda>(f, vs). length f)") (auto dest: next_param_shorter)

definition tel_value_bytes :: "nat \<Rightarrow> tel_value \<Rightarrow> 8 word list \<Rightarrow> 8 word list option" where
  "tel_value_bytes len v b =
     (case v of
        TelInt w \<Rightarrow> do {
          b \<leftarrow> tel_uint32 len 4 b;
          b \<leftarrow> tel_uint32 len TEL_BRIDGE_DATA_TYPE_INT b;
          tel_uint32 len w b
        }
      | TelString s \<Rightarrow> tel_string len s b)"

function format_bytes :: "nat \<Rightarrow> 8 word list \<Rightarrow> tel_value list \<Rightarrow> 8 word list \<Rightarrow> 8 word list option" where
  "format_bytes len f vs b =
     (if f = [] then Some b
      else (case next_param f of
              None \<Rightarrow> None
            | Some (name, c, rest) \<Rightarrow>
                (case param_arg c vs of
                   None \<Rightarrow> None
                 | Some (v, vs') \<Rightarrow> do {
                     b \<leftarrow> tel_string len name b;
                     b \<leftarrow> tel_value_bytes len v b;
                     format_bytes len rest vs' b
                   })))"
  by pat_completeness auto
termination
  by (relation "measure (\<lambda>(len, f, vs, b). length f)") (auto dest: next_param_shorter)

declare format_size.simps [simp del] format_bytes.simps [simp del]

definition opt_size :: "8 word list option \<Rightarrow> nat" where
  "opt_size p = (case p of None \<Rightarrow> 0 | Some s \<Rightarrow> 8 + length s)"

definition opt_bytes :: "nat \<Rightarrow> 8 word list option \<Rightarrow> 8 word list \<Rightarrow> 8 word list option" where
  "opt_bytes len p b = (case p of None \<Rightarrow> Some b | Some s \<Rightarrow> tel_string len s b)"

text \<open>The message of a call; no format is the empty format.\<close>

definition tel_message ::
  "int \<Rightarrow> 8 word list option \<Rightarrow> 8 word list option \<Rightarrow> 8 word list \<Rightarrow> tel_value list \<Rightarrow> 8 word list option" where
  "tel_message cmd p1 p2 f vs = do {
     n \<leftarrow> format_size f vs;
     let msg_size = 8 + opt_size p1 + opt_size p2 + n;
     b \<leftarrow> tel_uint32 msg_size (word_of_nat (msg_size - 8)) [];
     b \<leftarrow> tel_uint32 msg_size (word_of_int cmd) b;
     b \<leftarrow> opt_bytes msg_size p1 b;
     b \<leftarrow> opt_bytes msg_size p2 b;
     format_bytes msg_size f vs b
   }"

section \<open>Sending\<close>

text \<open>
  What an iteration of the loop meets: an interrupted or failed \<open>poll\<close>, an interrupted or failed \<open>write\<close>,
  or a \<open>write\<close> of some bytes. The list ends when the time is over. The variable that a failed write sets
  is a local one of the loop, so the loop goes on.
\<close>

datatype tel_poll = TpInterrupted | TpFailed | TpWriteInterrupted | TpWriteFailed | TpWrote nat

fun tel_send_loop :: "nat \<Rightarrow> tel_poll list \<Rightarrow> nat \<Rightarrow> int \<times> nat" where
  "tel_send_loop msg_size [] data_sent = (if data_sent < msg_size then -1 else 0, data_sent)"
| "tel_send_loop msg_size (p # ps) data_sent =
     (if data_sent < msg_size
      then (case p of
              TpFailed \<Rightarrow> (-1, data_sent)
            | TpWrote n \<Rightarrow> tel_send_loop msg_size ps (data_sent + n)
            | _ \<Rightarrow> tel_send_loop msg_size ps data_sent)
      else (0, data_sent))"

record tel_java_bridge =
  tel_fd :: int

definition tel_send_msg ::
  "tel_java_bridge \<Rightarrow> int \<Rightarrow> 8 word list option \<Rightarrow> 8 word list option \<Rightarrow> 8 word list \<Rightarrow> tel_value list \<Rightarrow> tel_poll list \<Rightarrow>
   (int \<times> 8 word list) option" where
  "tel_send_msg c cmd p1 p2 f vs ps =
     (if tel_fd c < 0 then Some (-1, [])
      else do {
        m \<leftarrow> tel_message cmd p1 p2 f vs;
        let (ret, n) = tel_send_loop (length m) ps 0;
        Some (ret, take n m)
      })"

definition bridge_connect :: "int \<Rightarrow> tel_java_bridge \<Rightarrow> int \<times> tel_java_bridge" where
  "bridge_connect sock c = (if sock \<ge> 0 then 0 else -1, c\<lparr>tel_fd := sock\<rparr>)"

definition bridge_disconnect :: "tel_java_bridge \<Rightarrow> int list \<times> tel_java_bridge" where
  "bridge_disconnect c = (if tel_fd c \<ge> 0 then ([tel_fd c], c\<lparr>tel_fd := -1\<rparr>) else ([], c))"

definition handle_poll_event :: "bool \<Rightarrow> tel_java_bridge \<Rightarrow> int \<times> tel_java_bridge" where
  "handle_poll_event err c = (if err then (-1, c\<lparr>tel_fd := -1\<rparr>) else (0, c))"

definition tel_wakelock :: "tel_java_bridge \<Rightarrow> bool \<Rightarrow> tel_poll list \<Rightarrow> (int \<times> 8 word list) option" where
  "tel_wakelock c acq ps =
     tel_send_msg c (if acq then TEL_BRIDGE_COMMAND_WAKELOCK_ACQUIRE else TEL_BRIDGE_COMMAND_WAKELOCK_RELEASE) None None [] [] ps"

definition start_service :: "tel_java_bridge \<Rightarrow> 8 word list \<Rightarrow> 8 word list \<Rightarrow> tel_poll list \<Rightarrow> (int \<times> 8 word list) option" where
  "start_service c s_package s_class ps = tel_send_msg c TEL_BRIDGE_COMMAND_START_SERVICE (Some s_package) (Some s_class) [] [] ps"

definition broadcast_intent ::
  "tel_java_bridge \<Rightarrow> 8 word list \<Rightarrow> 8 word list \<Rightarrow> tel_value list \<Rightarrow> tel_poll list \<Rightarrow> (int \<times> 8 word list) option" where
  "broadcast_intent c name f vs ps = tel_send_msg c TEL_BRIDGE_COMMAND_BROADCAST_INTENT (Some name) None f vs ps"

definition tel_java_bridge_init :: tel_java_bridge where
  "tel_java_bridge_init = \<lparr>tel_fd = -1\<rparr>"

text \<open>The calls that connect, send one message and disconnect; the sockets closed are part of the answer.\<close>

definition tel_java_brige_broadcast_intent ::
  "int \<Rightarrow> 8 word list \<Rightarrow> 8 word list \<Rightarrow> tel_value list \<Rightarrow> tel_poll list \<Rightarrow> (int \<times> 8 word list \<times> int list) option" where
  "tel_java_brige_broadcast_intent sock name f vs ps = do {
     let (r, c) = bridge_connect sock tel_java_bridge_init;
     (ret, sent) \<leftarrow> (if r = 0 then broadcast_intent c name f vs ps else Some (-1, []));
     Some (ret, sent, if tel_fd c \<ge> 0 then [tel_fd c] else [])
   }"

definition tel_java_brige_start_service ::
  "int \<Rightarrow> 8 word list \<Rightarrow> 8 word list \<Rightarrow> tel_poll list \<Rightarrow> (int \<times> 8 word list \<times> int list) option" where
  "tel_java_brige_start_service sock s_package s_class ps = do {
     let (r, c) = bridge_connect sock tel_java_bridge_init;
     (ret, sent) \<leftarrow> (if r = 0 then start_service c s_package s_class ps else Some (-1, []));
     Some (ret, sent, if tel_fd c \<ge> 0 then [tel_fd c] else [])
   }"

section \<open>Reading\<close>

text \<open>
  The reader of the Java application. The stream of the socket goes through an \<open>InputStreamReader\<close> and the
  acknowledgement through an \<open>OutputStreamWriter\<close>, both with the default character set of the platform, which is a parameter: how
  it decodes bytes to characters (of 16 bits) and encodes them again. \<open>None\<close> is an exception, or a message of which
  more characters are awaited.
\<close>

record charset =
  decode :: "8 word list \<Rightarrow> 16 word list"
  encode :: "16 word list \<Rightarrow> 8 word list"

datatype java_value = JInt "32 word" | JString "16 word list"

definition get_int :: "16 word list \<Rightarrow> (32 word \<times> 16 word list) option" where
  "get_int b =
     (if length b < 4 then None
      else Some (or (or (or (push_bit 24 (ucast (b ! 0))) (push_bit 16 (ucast (b ! 1)))) (push_bit 8 (ucast (b ! 2)))) (ucast (b ! 3)), drop 4 b))"

definition get_serialized :: "16 word list \<Rightarrow> (java_value \<times> 16 word list) option" where
  "get_serialized b = do {
     (sz, b) \<leftarrow> get_int b;
     (ty, b) \<leftarrow> get_int b;
     if ty = TEL_BRIDGE_DATA_TYPE_INT
     then (if sz \<noteq> 4 then None else do { (w, b) \<leftarrow> get_int b; Some (JInt w, b) })
     else if ty = TEL_BRIDGE_DATA_TYPE_STRING
     then (if 0 \<le> sint sz \<and> unat sz \<le> length b then Some (JString (take (unat sz) b), drop (unat sz) b) else None)
     else None
   }"

text \<open>The cast to a string.\<close>

definition get_string :: "16 word list \<Rightarrow> (16 word list \<times> 16 word list) option" where
  "get_string b = do { (v, b) \<leftarrow> get_serialized b; (case v of JString t \<Rightarrow> Some (t, b) | JInt w \<Rightarrow> None) }"

lemma get_int_shorter: "get_int b = Some (w, rest) \<Longrightarrow> length rest < length b"
  by (auto simp: get_int_def split: if_splits)

lemma get_serialized_shorter: "get_serialized b = Some (v, rest) \<Longrightarrow> length rest < length b"
  by (auto simp: get_serialized_def bind_Some_iff dest!: get_int_shorter split: if_splits)

lemma get_string_shorter: "get_string b = Some (t, rest) \<Longrightarrow> length rest < length b"
  by (cases "get_serialized b") (auto simp: get_string_def dest!: get_serialized_shorter split: java_value.splits)

text \<open>The parameters of an intent, up to the end of the message.\<close>

function get_params :: "16 word list \<Rightarrow> (16 word list \<times> java_value) list option" where
  "get_params b =
     (if b = [] then Some []
      else (case get_string b of
              None \<Rightarrow> None
            | Some (name, b1) \<Rightarrow>
                (case get_serialized b1 of
                   None \<Rightarrow> None
                 | Some (v, b2) \<Rightarrow> map_option ((#) (name, v)) (get_params b2))))"
  by pat_completeness auto
termination
  by (relation "measure length") (auto dest!: get_string_shorter get_serialized_shorter)

declare get_params.simps [simp del]

datatype java_call = JavaAcquire | JavaRelease | StartService "16 word list" "16 word list"
  | BroadcastIntent "16 word list" "(16 word list \<times> java_value) list"

text \<open>One message: what the application is asked to do, and the bytes of the acknowledgement.\<close>

definition java_message :: "charset \<Rightarrow> 8 word list \<Rightarrow> (java_call \<times> 8 word list) option" where
  "java_message cs bs = do {
     let chars = decode cs bs;
     (ack, b) \<leftarrow> get_int chars;
     (sz, b) \<leftarrow> get_int b;
     (ty, b) \<leftarrow> get_int b;
     jc \<leftarrow> (if sint sz > 0
       then do {
         ASSERT (unat sz \<le> length b);
         let content = take (unat sz) b;
         if ty = 2 then do { (pkg, c) \<leftarrow> get_string content; (cls, c) \<leftarrow> get_string c; Some (StartService pkg cls) }
         else if ty = 3 then do { (name, c) \<leftarrow> get_string content; ps \<leftarrow> get_params c; Some (BroadcastIntent name ps) }
         else None
       }
       else if ty = 0 then Some JavaAcquire else if ty = 1 then Some JavaRelease else None);
     Some (jc, encode cs (take 4 chars))
   }"

text \<open>
  What is relied on of the character set: bytes below 128 are the characters of ASCII. In UTF-8, the default of Android, moreover, a byte that only
  continues a character (128 to 191) and has none to continue is malformed: the reader replaces it by the
  character 0xFFFD, which takes three bytes to write.
\<close>

definition ascii :: "8 word list \<Rightarrow> bool" where
  "ascii bs \<longleftrightarrow> (\<forall>b \<in> set bs. b < 128)"

definition ascii_charset :: "charset \<Rightarrow> bool" where
  "ascii_charset cs \<longleftrightarrow> (\<forall>bs. ascii bs \<longrightarrow> decode cs bs = map ucast bs \<and> encode cs (map ucast bs) = bs)"

definition utf8_charset :: "charset \<Rightarrow> bool" where
  "utf8_charset cs \<longleftrightarrow> ascii_charset cs \<and> (\<forall>as b bs. ascii as \<longrightarrow> ascii bs \<longrightarrow> 128 \<le> b \<longrightarrow> b < 192 \<longrightarrow>
     decode cs (as @ b # bs) = map ucast as @ 0xFFFD # map ucast bs \<and>
     encode cs (map ucast as @ 0xFFFD # map ucast bs) = as @ [0xEF, 0xBF, 0xBD] @ bs)"

section \<open>The values of a message\<close>

text \<open>What a call means: the strings it gives, then the name and the value of each parameter of the format.\<close>

function format_values :: "8 word list \<Rightarrow> tel_value list \<Rightarrow> tel_value list option" where
  "format_values f vs =
     (if f = [] then Some []
      else (case next_param f of
              None \<Rightarrow> None
            | Some (name, c, rest) \<Rightarrow>
                (case param_arg c vs of
                   None \<Rightarrow> None
                 | Some (v, vs') \<Rightarrow> map_option (\<lambda>xs. TelString name # v # xs) (format_values rest vs'))))"
  by pat_completeness auto
termination
  by (relation "measure (\<lambda>(f, vs). length f)") (auto dest: next_param_shorter)

declare format_values.simps [simp del]

definition opt_values :: "8 word list option \<Rightarrow> tel_value list" where
  "opt_values p = (case p of None \<Rightarrow> [] | Some s \<Rightarrow> [TelString s])"

fun enc_value :: "tel_value \<Rightarrow> 8 word list" where
  "enc_value (TelInt w) = be_bytes 4 @ be_bytes TEL_BRIDGE_DATA_TYPE_INT @ be_bytes w"
| "enc_value (TelString s) = be_bytes (word_of_nat (length s)) @ be_bytes TEL_BRIDGE_DATA_TYPE_STRING @ s"

definition enc_values :: "tel_value list \<Rightarrow> 8 word list" where
  "enc_values xs = concat (map enc_value xs)"

lemma length_enc_value [simp]: "length (enc_value v) = 8 + value_size v"
  by (cases v) simp_all

lemma tel_string_eq: "length b + 8 + length s \<le> len \<Longrightarrow> tel_string len s b = Some (b @ enc_value (TelString s))"
  by (simp add: tel_string_def tel_uint32_def)

lemma tel_value_eq: "length b + 8 + value_size v \<le> len \<Longrightarrow> tel_value_bytes len v b = Some (b @ enc_value v)"
  by (cases v) (simp_all add: tel_value_bytes_def tel_uint32_def tel_string_eq)

lemma opt_bytes_eq: "length b + opt_size p \<le> len \<Longrightarrow> opt_bytes len p b = Some (b @ enc_values (opt_values p))"
  by (cases p) (simp_all add: opt_bytes_def opt_size_def opt_values_def enc_values_def tel_string_eq)

lemma length_opt: "length (enc_values (opt_values p)) = opt_size p"
  by (cases p) (simp_all add: opt_size_def opt_values_def enc_values_def)

text \<open>The size that is computed first is the number of bytes written, so no bound is exceeded.\<close>

lemma format_size_eq: "format_values f vs = Some xs \<Longrightarrow> format_size f vs = Some (length (enc_values xs))"
proof (induction f vs arbitrary: xs rule: format_values.induct)
  case (1 f vs)
  show ?case
  proof (cases "f = []")
    case False
    then obtain name c rest v vs' ys where p: "next_param f = Some (name, c, rest)" "param_arg c vs = Some (v, vs')"
      "format_values rest vs' = Some ys" "xs = TelString name # v # ys"
      using 1(2) by (auto simp: format_values.simps [of f] split: option.splits)
    have "format_size rest vs' = Some (length (enc_values ys))" using 1(1) [OF False p(1) refl refl p(2) refl p(3)] .
    with False p show ?thesis by (simp add: format_size.simps [of f] enc_values_def)
  qed (use 1(2) in \<open>simp add: format_values.simps format_size.simps enc_values_def\<close>)
qed

lemma format_bytes_eq:
  "format_values f vs = Some xs \<Longrightarrow> length b + length (enc_values xs) \<le> len \<Longrightarrow> format_bytes len f vs b = Some (b @ enc_values xs)"
proof (induction f vs arbitrary: xs b rule: format_values.induct)
  case (1 f vs)
  show ?case
  proof (cases "f = []")
    case False
    then obtain name c rest v vs' ys where p: "next_param f = Some (name, c, rest)" "param_arg c vs = Some (v, vs')"
      "format_values rest vs' = Some ys" "xs = TelString name # v # ys"
      using 1(2) by (auto simp: format_values.simps [of f] split: option.splits)
    have len: "length b + (8 + length name) + (8 + value_size v) + length (enc_values ys) \<le> len"
      using 1(3) p(4) by (simp add: enc_values_def)
    have "format_bytes len rest vs' (b @ enc_value (TelString name) @ enc_value v) =
        Some ((b @ enc_value (TelString name) @ enc_value v) @ enc_values ys)"
      using len by (intro 1(1) [OF False p(1) refl refl p(2) refl p(3)]) simp
    then show ?thesis
      using False p len by (simp add: format_bytes.simps [of len f] tel_string_eq tel_value_eq enc_values_def del: enc_value.simps)
  qed (use 1(2) in \<open>simp add: format_values.simps format_bytes.simps enc_values_def\<close>)
qed

lemma tel_message_eq:
  assumes "format_values f vs = Some xs" "body = enc_values (opt_values p1 @ opt_values p2 @ xs)"
  shows "tel_message cmd p1 p2 f vs = Some (be_bytes (word_of_nat (length body)) @ be_bytes (word_of_int cmd) @ body)"
proof -
  have b: "body = enc_values (opt_values p1) @ enc_values (opt_values p2) @ enc_values xs" by (simp add: assms(2) enc_values_def)
  then have "length body = opt_size p1 + opt_size p2 + length (enc_values xs)" by (simp add: length_opt)
  then show ?thesis
    unfolding tel_message_def format_size_eq [OF assms(1)] by (simp add: Let_def tel_uint32_def opt_bytes_eq length_opt format_bytes_eq [OF assms(1)] b)
qed

text \<open>What the application makes of a value.\<close>

fun as_java :: "tel_value \<Rightarrow> java_value" where
  "as_java (TelInt w) = JInt w"
| "as_java (TelString s) = JString (map ucast s)"

fun java_params :: "tel_value list \<Rightarrow> (16 word list \<times> java_value) list" where
  "java_params (TelString name # v # vs) = (map ucast name, as_java v) # java_params vs"
| "java_params vs = []"

lemma get_int_eq [simp]: "get_int (map ucast (be_bytes w) @ rest) = Some (w, rest)"
proof -
  have "bit (or (or (or (push_bit 24 (ucast (ucast (ucast (drop_bit 24 w) :: 8 word) :: 16 word))) (push_bit 16 (ucast (ucast (ucast (drop_bit 16 w) :: 8 word) :: 16 word))))
      (push_bit 8 (ucast (ucast (ucast (drop_bit 8 w) :: 8 word) :: 16 word)))) (ucast (ucast (ucast w :: 8 word) :: 16 word)) :: 32 word) n = bit w n" if n: "n < 32" for n
  proof -
    consider "n < 8" | "8 \<le> n" "n < 16" | "16 \<le> n" "n < 24" | "24 \<le> n" "n < 32" using n by linarith
    then show ?thesis by cases (auto simp: bit_simps)
  qed
  then show ?thesis by (simp add: get_int_def be_bytes_def int_bytes_def) (rule bit_word_eqI, simp)
qed

lemma get_serialized_eq:
  assumes "value_size v < 2 ^ 31"
  shows "get_serialized (map ucast (enc_value v) @ rest) = Some (as_java v, rest)"
proof (cases v)
  case (TelInt w)
  then show ?thesis by (simp add: get_serialized_def)
next
  case (TelString s)
  have "unat (word_of_nat (length s) :: 32 word) = length s" using assms TelString by (intro unat_word_of_nat_32) simp
  moreover have "sint (word_of_nat (length s) :: 32 word) = int (length s)"
    using sint_word_of_int_32 [of "int (length s)"] assms TelString by simp
  ultimately show ?thesis by (simp add: get_serialized_def TelString)
qed

lemma get_string_eq:
  "length t < 2 ^ 31 \<Longrightarrow> get_string (map ucast (enc_value (TelString t)) @ rest) = Some (map ucast t, rest)"
  using get_serialized_eq [of "TelString t" rest] by (simp add: get_string_def del: enc_value.simps)

lemma enc_value_nonempty: "enc_value v \<noteq> []"
  using length_enc_value [of v] by (metis add_is_0 list.size(3) numeral_eq_iff zero_neq_numeral)

lemma get_params_eq:
  "format_values f vs = Some xs \<Longrightarrow> length (enc_values xs) < 2 ^ 31 \<Longrightarrow> get_params (map ucast (enc_values xs)) = Some (java_params xs)"
proof (induction f vs arbitrary: xs rule: format_values.induct)
  case (1 f vs)
  show ?case
  proof (cases "f = []")
    case False
    then obtain name c rest v vs' ys where p: "next_param f = Some (name, c, rest)" "param_arg c vs = Some (v, vs')"
      "format_values rest vs' = Some ys" "xs = TelString name # v # ys"
      using 1(2) by (auto simp: format_values.simps [of f] split: option.splits)
    have e: "enc_values xs = enc_value (TelString name) @ enc_value v @ enc_values ys" by (simp add: p(4) enc_values_def)
    have l: "length name < 2 ^ 31" "value_size v < 2 ^ 31" "length (enc_values ys) < 2 ^ 31"
      using arg_cong [OF e, of length] 1(3) by simp_all
    have "get_params (map ucast (enc_values ys)) = Some (java_params ys)" using 1(1) [OF False p(1) refl refl p(2) refl p(3) l(3)] .
    then show ?thesis
      using enc_value_nonempty [of "TelString name"] get_string_eq [OF l(1)] get_serialized_eq [OF l(2)] unfolding e
      by (subst get_params.simps) (simp add: p(4) del: enc_value.simps)
  qed (use 1(2) in \<open>simp add: format_values.simps get_params.simps enc_values_def\<close>)
qed

text \<open>A message whose characters, the four of its number apart, are its bytes.\<close>

lemma java_message_header:
  assumes "decode cs m = num @ map ucast (be_bytes sz @ be_bytes ty @ body)" "length num = 4" "length body = unat sz" "sint sz > 0"
  shows "java_message cs m =
    do { jc \<leftarrow> (if ty = 2 then do { (pkg, c) \<leftarrow> get_string (map ucast body); (cls, c) \<leftarrow> get_string c; Some (StartService pkg cls) }
         else if ty = 3 then do { (name, c) \<leftarrow> get_string (map ucast body); ps \<leftarrow> get_params c; Some (BroadcastIntent name ps) }
         else None); Some (jc, encode cs num) }"
proof -
  have "\<exists>w. get_int (num @ rest) = Some (w, rest)" for rest using assms(2) by (simp add: get_int_def)
  then obtain w where "get_int (num @ map ucast (be_bytes sz @ be_bytes ty @ body)) = Some (w, map ucast (be_bytes sz @ be_bytes ty @ body))" by blast
  then show ?thesis unfolding java_message_def assms(1) using assms(2-4) by (simp add: Let_def)
qed

section \<open>Properties\<close>

lemma send_loop_result: "tel_send_loop sz ps s = (r, n) \<Longrightarrow> (r = 0 \<longleftrightarrow> sz \<le> n) \<and> (r = 0 \<or> r = -1)"
  by (induction sz ps s arbitrary: r n rule: tel_send_loop.induct) (auto split: if_splits tel_poll.splits)

lemma tel_sent:
  assumes "format_values f vs = Some xs" "ys = opt_values p1 @ opt_values p2 @ xs" "tel_fd c \<ge> 0"
  shows "\<exists>ret sent. tel_send_msg c cmd p1 p2 f vs ps = Some (ret, sent) \<and> (ret = 0 \<or> ret = -1) \<and>
    (ret = 0 \<longrightarrow> sent = be_bytes (word_of_nat (length (enc_values ys))) @ be_bytes (word_of_int cmd) @ enc_values ys)"
proof -
  let ?m = "be_bytes (word_of_nat (length (enc_values ys))) @ be_bytes (word_of_int cmd) @ enc_values ys"
  have m: "tel_message cmd p1 p2 f vs = Some ?m" using tel_message_eq [OF assms(1) refl] unfolding assms(2) .
  obtain r n where l: "tel_send_loop (length ?m) ps 0 = (r, n)" by fastforce
  from send_loop_result [OF l] have r: "r = 0 \<longleftrightarrow> length ?m \<le> n" "r = 0 \<or> r = -1" by auto
  have s: "tel_send_msg c cmd p1 p2 f vs ps = Some (r, take n ?m)" using assms(3) m l by (simp add: tel_send_msg_def)
  have "take n ?m = ?m" if "r = 0" using that r(1) by (intro take_all) simp
  with s r(2) show ?thesis by blast
qed

text \<open>What a call of the library asks the application for.\<close>

fun call_of :: "int \<Rightarrow> tel_value list \<Rightarrow> java_call option" where
  "call_of cmd ys =
     (if cmd = TEL_BRIDGE_COMMAND_START_SERVICE
      then (case ys of [TelString pkg, TelString cls] \<Rightarrow> Some (StartService (map ucast pkg) (map ucast cls)) | _ \<Rightarrow> None)
      else (case ys of TelString name # xs \<Rightarrow> Some (BroadcastIntent (map ucast name) (java_params xs)) | _ \<Rightarrow> None))"

definition known_call :: "int \<Rightarrow> 8 word list option \<Rightarrow> 8 word list option \<Rightarrow> 8 word list \<Rightarrow> tel_value list \<Rightarrow> bool" where
  "known_call cmd p1 p2 f vs \<longleftrightarrow>
     cmd = TEL_BRIDGE_COMMAND_START_SERVICE \<and> p1 \<noteq> None \<and> p2 \<noteq> None \<and> f = [] \<and> vs = [] \<or>
     cmd = TEL_BRIDGE_COMMAND_BROADCAST_INTENT \<and> p1 \<noteq> None \<and> p2 = None"

lemma java_message_eq:
  assumes "decode cs m = num @ map ucast (be_bytes (word_of_nat (length (enc_values ys))) @ be_bytes (word_of_int cmd) @ enc_values ys)" "length num = 4"
    and "length (enc_values ys) < 2 ^ 31" "known_call cmd p1 p2 f vs" "format_values f vs = Some xs" "ys = opt_values p1 @ opt_values p2 @ xs"
  shows "\<exists>jc. call_of cmd ys = Some jc \<and> java_message cs m = Some (jc, encode cs num)"
proof -
  let ?sz = "word_of_nat (length (enc_values ys)) :: 32 word"
  have sz: "unat ?sz = length (enc_values ys)" using assms(3) by (intro unat_word_of_nat_32) simp
  consider pkg cls where "cmd = TEL_BRIDGE_COMMAND_START_SERVICE" "ys = [TelString pkg, TelString cls]"
    | name where "cmd = TEL_BRIDGE_COMMAND_BROADCAST_INTENT" "ys = TelString name # xs"
    using assms(4-6) by (auto simp: known_call_def opt_values_def format_values.simps)
  note cs = this
  have "ys \<noteq> []" by (rule cs) simp_all
  then have "length (enc_values ys) > 0" using enc_value_nonempty by (cases ys) (simp_all add: enc_values_def)
  then have pos: "sint ?sz > 0" using sint_word_of_int_32 [of "int (length (enc_values ys))"] assms(3) by simp
  note h = java_message_header [OF assms(1,2) sz [symmetric] pos]
  show ?thesis
  proof (rule cs)
    fix pkg cls
    assume a: "cmd = TEL_BRIDGE_COMMAND_START_SERVICE" "ys = [TelString pkg, TelString cls]"
    have e: "enc_values ys = enc_value (TelString pkg) @ enc_value (TelString cls)" using a by (simp add: enc_values_def)
    have l: "length pkg < 2 ^ 31" "length cls < 2 ^ 31" using arg_cong [OF e, of length] assms(3) by simp_all
    show ?thesis unfolding h e using get_string_eq [OF l(1)] get_string_eq [OF l(2), of "[]"] a
      by (simp del: enc_value.simps)
  next
    fix name
    assume a: "cmd = TEL_BRIDGE_COMMAND_BROADCAST_INTENT" "ys = TelString name # xs"
    have e: "enc_values ys = enc_value (TelString name) @ enc_values xs" using a by (simp add: enc_values_def)
    have l: "length name < 2 ^ 31" "length (enc_values xs) < 2 ^ 31" using arg_cong [OF e, of length] assms(3) by simp_all
    show ?thesis unfolding h e using get_string_eq [OF l(1)] get_params_eq [OF assms(5)] l(2) a
      by (simp del: enc_value.simps)
  qed
qed

text \<open>
  A write that fails does not end the call: the error is stored in a variable of the loop, the loop goes on
  until the time is over or a later write succeeds.
\<close>

lemma tel_write_error_ignored:
  "tel_send_loop sz (replicate n TpWriteFailed @ ps) s = (if s < sz then tel_send_loop sz ps s else if n = 0 then tel_send_loop sz ps s else (0, s))"
  by (induction n) auto

end
