(* ===== verification/Crm_Bridge.thy ===== *)
theory Crm_Bridge
  imports Crm_Telbridge Crm_Time
begin

text \<open>
  bridge/c/daemon/src/daemon.c: the daemon between the clients of the telephony bridge library and the Java
  application. It reads the messages of up to three clients, counts their wakelocks, queues their other
  messages, and sends one message at a time to the Java application, which acknowledges each of them by its
  number.

  A buffer is the list of the bytes read so far. A pointer is null, valid or dangling: freeing or reading
  through a dangling pointer is \<open>None\<close>, as is a failed assertion. The message pointer of the Java context,
  which the code does not initialise, is \<open>JUnset\<close> at first. The bytes read on the connection of a client are kept
  in \<open>c_input\<close>, which the code does not have. A counter that would leave the range of an \<open>int\<close> is \<open>None\<close>. What \<open>poll\<close>, \<open>read\<close>, \<open>write\<close> and \<open>accept\<close> answer is
  an input.
\<close>

section \<open>State\<close>

abbreviation (input) MAX_CLIENTS :: nat where "MAX_CLIENTS \<equiv> 3"
abbreviation (input) MAX_RETRIES :: nat where "MAX_RETRIES \<equiv> 3"
abbreviation (input) MAX_CLIENT_MSG_DURATION :: int where "MAX_CLIENT_MSG_DURATION \<equiv> 500"
abbreviation (input) MAX_JAVA_MSG_DURATION :: int where "MAX_JAVA_MSG_DURATION \<equiv> 1000"
abbreviation (input) MAX_JAVA_ACK_DURATION :: int where "MAX_JAVA_ACK_DURATION \<equiv> 5000"
abbreviation (input) MAX_MSG_SIZE :: nat where "MAX_MSG_SIZE \<equiv> 2048"

datatype msg_state = MSG_STATE_NONE | MSG_STATE_IN_HDR | MSG_STATE_IN_MSG

datatype heap_buffer = NullBuf | Buf (bytes: "8 word list") | Dangling

record client_context =
  c_fd :: int
  msg_state :: msg_state
  msg_hdr :: "8 word list"
  msg_buffer :: heap_buffer
  data_read :: nat
  data_to_read :: nat
  wakelock_cnt :: int
  msg_read_end :: timespec
  c_input :: "8 word list"

datatype java_msg = JUnset | JWakelock | JHead | JFreed

record java_context =
  j_fd :: int
  msg_count :: "32 word"
  msg_end :: timespec
  msg_in_progress :: bool
  msg_queue :: "(8 word list \<times> nat) list"
  wakelock_msg :: "8 word list"
  java_msg :: java_msg
  data_to_send :: nat
  data_sent :: nat
  j_wakelock_held :: bool
  wait_ack :: bool
  wait_ack_count :: "32 word"
  ack_reply :: "8 word list"

datatype bridge_io = BrClose int | BrWrite int "8 word list"

record daemon_context =
  d_wakelock_held :: bool
  client_ctx :: "client_context list"
  java_ctx :: java_context
  bridge_io :: "bridge_io list"

definition br_emit :: "bridge_io \<Rightarrow> daemon_context \<Rightarrow> daemon_context" where
  "br_emit x d = d\<lparr>bridge_io := bridge_io d @ [x]\<rparr>"

definition set_java :: "java_context \<Rightarrow> daemon_context \<Rightarrow> daemon_context" where
  "set_java j d = d\<lparr>java_ctx := j\<rparr>"

definition set_client :: "nat \<Rightarrow> client_context \<Rightarrow> daemon_context \<Rightarrow> daemon_context" where
  "set_client i c d = d\<lparr>client_ctx := (client_ctx d)[i := c]\<rparr>"

section \<open>Messages to the Java application\<close>

definition msg_to_string :: "32 word \<Rightarrow> string option" where
  "msg_to_string m = map_of [(0, ''WAKE_ACQUIRE''), (1, ''WAKE_RELEASE''), (2, ''START_SERVICE''), (3, ''BROADCAST_INTENT'')] m"

text \<open>The message the pointer designates.\<close>

definition java_msg_bytes :: "java_context \<Rightarrow> 8 word list option" where
  "java_msg_bytes j =
     (case java_msg j of
        JWakelock \<Rightarrow> Some (wakelock_msg j)
      | JHead \<Rightarrow> (case msg_queue j of [] \<Rightarrow> None | m # q \<Rightarrow> Some (fst m))
      | _ \<Rightarrow> None)"

text \<open>The third word of a message, its command.\<close>

definition msg_command :: "8 word list \<Rightarrow> 32 word option" where
  "msg_command m = (if length m < 12 then None else Some (be_word (take 4 (drop 8 m))))"

definition log_java_msg :: "java_context \<Rightarrow> unit option" where
  "log_java_msg j = do { m \<leftarrow> java_msg_bytes j; w \<leftarrow> msg_command m; msg_to_string w; Some () }"

text \<open>A message is started: the wakelock first, when the Java application has another one than the clients.\<close>

definition start_java_msg :: "timespec \<Rightarrow> bool \<Rightarrow> java_context \<Rightarrow> java_context option" where
  "start_java_msg now held j = do {
     let j = j\<lparr>msg_in_progress := True, data_sent := 0, msg_end := crm_time_add_ms now MAX_JAVA_MSG_DURATION\<rparr>;
     j \<leftarrow> (if j_wakelock_held j \<noteq> held
          then Some (j\<lparr>data_to_send := 12, java_msg := JWakelock,
                 wakelock_msg := be_bytes (msg_count j) @ be_bytes 0 @ be_bytes (if held then 0 else 1),
                 msg_count := msg_count j + 1\<rparr>)
          else (case msg_queue j of
                  [] \<Rightarrow> None
                | m # q \<Rightarrow> Some (j\<lparr>data_to_send := length (fst m), java_msg := JHead\<rparr>)));
     log_java_msg j;
     Some j
   }"

definition java_busy :: "bool \<Rightarrow> java_context \<Rightarrow> bool" where
  "java_busy held j \<longleftrightarrow> msg_queue j \<noteq> [] \<or> j_wakelock_held j \<noteq> held \<or> msg_in_progress j"

definition fill_java :: "timespec \<Rightarrow> bool \<Rightarrow> java_context \<Rightarrow> java_context option" where
  "fill_java now held j =
     (if j_fd j \<ge> 0 \<and> \<not> wait_ack j \<and> java_busy held j \<and> \<not> msg_in_progress j then start_java_msg now held j else Some j)"

text \<open>The time-out of \<open>poll\<close>: the nearest deadline.\<close>

definition sooner :: "int \<Rightarrow> int \<Rightarrow> int" where
  "sooner timeout to = (if timeout = -1 \<or> to < timeout then to else timeout)"

definition clients_timeout :: "timespec \<Rightarrow> client_context list \<Rightarrow> int" where
  "clients_timeout now cs =
     foldl (\<lambda>t c. if c_fd c \<ge> 0 \<and> msg_state c \<noteq> MSG_STATE_NONE then sooner t (crm_time_get_remain_ms now (msg_read_end c)) else t) (-1) cs"

definition fill_pollfd :: "timespec \<Rightarrow> daemon_context \<Rightarrow> (int \<times> daemon_context) option" where
  "fill_pollfd now d = do {
     let t = clients_timeout now (client_ctx d);
     j \<leftarrow> fill_java now (d_wakelock_held d) (java_ctx d);
     Some (if j_fd j \<ge> 0 \<and> (msg_in_progress j \<or> wait_ack j) then sooner t (crm_time_get_remain_ms now (msg_end j)) else t, set_java j d)
   }"

section \<open>Disconnections\<close>

definition handle_wakelock_change :: "daemon_context \<Rightarrow> daemon_context" where
  "handle_wakelock_change d = d\<lparr>d_wakelock_held := list_ex (\<lambda>c. c_fd c \<noteq> -1 \<and> wakelock_cnt c > 0) (client_ctx d)\<rparr>"

text \<open>The message at the head of the queue is dropped after too many attempts.\<close>

definition count_retry :: "java_context \<Rightarrow> java_context option" where
  "count_retry j =
     (case msg_queue j of
        [] \<Rightarrow> None
      | (m, r) # q \<Rightarrow>
          if r + 1 \<ge> MAX_RETRIES
          then do {
            log_java_msg j;
            Some (j\<lparr>msg_queue := q, java_msg := JFreed\<rparr>)
          }
          else Some (j\<lparr>msg_queue := (m, r + 1) # q\<rparr>))"

definition handle_java_bridge_remove :: "daemon_context \<Rightarrow> daemon_context option" where
  "handle_java_bridge_remove d = do {
     let j = (java_ctx d)\<lparr>j_fd := -1\<rparr>;
     let d = br_emit (BrClose (j_fd (java_ctx d))) d;
     j \<leftarrow> (if java_msg j \<noteq> JWakelock then count_retry j else Some j);
     Some (set_java j d)
   }"

definition free_buffer :: "heap_buffer \<Rightarrow> heap_buffer option" where
  "free_buffer b = (case b of NullBuf \<Rightarrow> Some NullBuf | Buf x \<Rightarrow> Some Dangling | Dangling \<Rightarrow> None)"

definition handle_c_client_remove :: "nat \<Rightarrow> daemon_context \<Rightarrow> daemon_context option" where
  "handle_c_client_remove i d = do {
     c \<leftarrow> array_get (client_ctx d) (int i);
     b \<leftarrow> free_buffer (msg_buffer c);
     let d = set_client i (c\<lparr>c_fd := -1, msg_buffer := b\<rparr>) (br_emit (BrClose (c_fd c)) d);
     Some (if wakelock_cnt c > 0 then handle_wakelock_change d else d)
   }"

definition client_timeout :: "timespec \<Rightarrow> nat \<Rightarrow> daemon_context \<Rightarrow> daemon_context option" where
  "client_timeout now i d = do {
     c \<leftarrow> array_get (client_ctx d) (int i);
     if c_fd c \<ge> 0 \<and> msg_state c \<noteq> MSG_STATE_NONE \<and> crm_time_get_remain_ms now (msg_read_end c) = 0
     then handle_c_client_remove i d else Some d
   }"

definition handle_timeout :: "timespec \<Rightarrow> daemon_context \<Rightarrow> daemon_context option" where
  "handle_timeout now d = do {
     d \<leftarrow> client_timeout now 0 d;
     d \<leftarrow> client_timeout now 1 d;
     d \<leftarrow> client_timeout now 2 d;
     let j = java_ctx d;
     if j_fd j \<ge> 0 \<and> (msg_in_progress j \<or> wait_ack j) \<and> crm_time_get_remain_ms now (msg_end j) = 0
     then handle_java_bridge_remove d else Some d
   }"

section \<open>Connections\<close>

text \<open>\<open>sock\<close> is what \<open>accept\<close> answers.\<close>

definition handle_c_client_conn :: "int \<Rightarrow> daemon_context \<Rightarrow> daemon_context" where
  "handle_c_client_conn sock d =
     (if sock \<ge> 0
      then (case find (\<lambda>i. c_fd (client_ctx d ! i) = -1) [0..<length (client_ctx d)] of
              None \<Rightarrow> br_emit (BrClose sock) d
            | Some i \<Rightarrow> set_client i ((client_ctx d ! i)\<lparr>c_fd := sock, msg_state := MSG_STATE_NONE, wakelock_cnt := 0, c_input := []\<rparr>) d)
      else d)"

definition handle_java_bridge_conn :: "int \<Rightarrow> daemon_context \<Rightarrow> daemon_context" where
  "handle_java_bridge_conn sock d =
     (if sock \<ge> 0
      then if j_fd (java_ctx d) = -1
           then set_java ((java_ctx d)\<lparr>j_fd := sock, msg_in_progress := False, wait_ack := False, data_sent := 0, j_wakelock_held := False\<rparr>) d
           else br_emit (BrClose sock) d
      else d)"

section \<open>The Java application\<close>

text \<open>The message that is acknowledged is done with.\<close>

definition java_acked :: "java_context \<Rightarrow> java_context option" where
  "java_acked j =
     (let j = j\<lparr>wait_ack := False\<rparr>
      in if java_msg j = JWakelock
         then Some (j\<lparr>j_wakelock_held := (msg_command (wakelock_msg j) = Some 0)\<rparr>)
         else (case msg_queue j of [] \<Rightarrow> None | m # q \<Rightarrow> Some (j\<lparr>msg_queue := q, java_msg := JFreed\<rparr>)))"

definition java_read :: "8 word list \<Rightarrow> daemon_context \<Rightarrow> daemon_context option" where
  "java_read bs d =
     (if bs = [] then handle_java_bridge_remove d
      else do {
        let j = java_ctx d;
        let j = j\<lparr>ack_reply := ack_reply j @ bs\<rparr>;
        if length (ack_reply j) = 4
        then if be_word (ack_reply j) \<noteq> wait_ack_count j then handle_java_bridge_remove (set_java j d)
             else do { j \<leftarrow> java_acked j; Some (set_java j d) }
        else Some (set_java j d)
      })"

text \<open>\<open>n\<close> bytes are written, none when \<open>write\<close> fails.\<close>

definition java_write :: "timespec \<Rightarrow> nat \<Rightarrow> daemon_context \<Rightarrow> daemon_context option" where
  "java_write now n d =
     (if n = 0 then handle_java_bridge_remove d
      else do {
        let j = java_ctx d;
        m \<leftarrow> java_msg_bytes j;
        let d = br_emit (BrWrite (j_fd j) (take n (drop (data_sent j) m))) d;
        let j = j\<lparr>data_sent := data_sent j + n\<rparr>;
        Some (set_java
          (if data_sent j = data_to_send j
           then j\<lparr>wait_ack := True, wait_ack_count := be_word (take 4 m), msg_end := crm_time_add_ms now MAX_JAVA_ACK_DURATION,
                  ack_reply := [], msg_in_progress := False\<rparr>
           else j) d)
      })"

section \<open>The clients\<close>

definition queue_msg :: "8 word list \<Rightarrow> daemon_context \<Rightarrow> daemon_context" where
  "queue_msg m d = (let j = java_ctx d in set_java (j\<lparr>msg_queue := msg_queue j @ [(m, 0)]\<rparr>) d)"

definition handle_wakelock_msg :: "nat \<Rightarrow> 32 word \<Rightarrow> 32 word \<Rightarrow> client_context \<Rightarrow> daemon_context \<Rightarrow> daemon_context option" where
  "handle_wakelock_msg i msg_size msg_type c d =
     (if msg_size \<noteq> 0 then handle_c_client_remove i d
      else do {
        ASSERT (msg_type = 0 \<longrightarrow> wakelock_cnt c < 2147483647);
        let c = c\<lparr>wakelock_cnt := wakelock_cnt c + (if msg_type = 0 then 1 else -1)\<rparr>;
        if wakelock_cnt c < 0 then handle_c_client_remove i (set_client i c d)
        else do {
          msg_to_string msg_type;
          Some (handle_wakelock_change (set_client i (c\<lparr>msg_state := MSG_STATE_NONE\<rparr>) d))
        }
      })"

definition handle_header :: "nat \<Rightarrow> client_context \<Rightarrow> daemon_context \<Rightarrow> daemon_context option" where
  "handle_header i c d = do {
     let msg_size = be_word (take 4 (msg_hdr c));
     let msg_type = be_word (drop 4 (msg_hdr c));
     if msg_type = 0 \<or> msg_type = 1 then handle_wakelock_msg i msg_size msg_type c d
     else if msg_type \<ge> 4 \<or> unat msg_size \<ge> MAX_MSG_SIZE then handle_c_client_remove i d
     else do {
       let j = java_ctx d;
       Some (set_client i
         (c\<lparr>msg_buffer := Buf (be_bytes (msg_count j) @ msg_hdr c), data_read := 12, data_to_read := unat msg_size + 12,
            msg_state := MSG_STATE_IN_MSG\<rparr>)
         (set_java (j\<lparr>msg_count := msg_count j + 1\<rparr>) d))
     }
   }"

definition start_header :: "timespec \<Rightarrow> client_context \<Rightarrow> client_context" where
  "start_header now c =
     (if msg_state c = MSG_STATE_NONE
      then c\<lparr>data_read := 0, data_to_read := 8, msg_read_end := crm_time_add_ms now MAX_CLIENT_MSG_DURATION, msg_state := MSG_STATE_IN_HDR\<rparr>
      else c)"

text \<open>The bytes of the socket \<open>read\<close> is given room for; none when it fails.\<close>

definition room :: "client_context \<Rightarrow> nat" where
  "room c = (if msg_state c = MSG_STATE_NONE then 8 else data_to_read c - data_read c)"

definition handle_c_client_read :: "timespec \<Rightarrow> nat \<Rightarrow> 8 word list \<Rightarrow> daemon_context \<Rightarrow> daemon_context option" where
  "handle_c_client_read now i bs d = do {
     c \<leftarrow> array_get (client_ctx d) (int i);
     let c = (start_header now c)\<lparr>c_input := c_input c @ bs\<rparr>;
     let d = set_client i c d;
     if bs = [] then handle_c_client_remove i d
     else if msg_state c = MSG_STATE_IN_HDR
     then do {
       let c = c\<lparr>msg_hdr := take (data_read c) (msg_hdr c) @ bs, data_read := data_read c + length bs\<rparr>;
       let d = set_client i c d;
       if data_read c = data_to_read c then handle_header i c d else Some d
     }
     else (case msg_buffer c of
             Buf b \<Rightarrow> do {
               let c = c\<lparr>msg_buffer := Buf (b @ bs), data_read := data_read c + length bs\<rparr>;
               if data_read c = data_to_read c
               then do {
                 msg_to_string (be_word (drop 4 (msg_hdr c)));
                 Some (queue_msg (b @ bs) (set_client i (c\<lparr>msg_state := MSG_STATE_NONE, msg_buffer := NullBuf\<rparr>) d))
               }
               else Some (set_client i c d)
             }
           | _ \<Rightarrow> None)
   }"

section \<open>The main loop\<close>

text \<open>
  What is reported for the descriptors: the answer of \<open>accept\<close> on a listening socket, an error, the bytes
  \<open>read\<close> or the number of bytes written.
\<close>

datatype br_event = EvNone | EvAccept int | EvError | EvRead "8 word list" | EvWritten nat

definition conn_event :: "(int \<Rightarrow> daemon_context \<Rightarrow> daemon_context) \<Rightarrow> br_event \<Rightarrow> daemon_context \<Rightarrow> daemon_context option" where
  "conn_event f e d = (case e of EvNone \<Rightarrow> Some d | EvAccept sock \<Rightarrow> Some (f sock d) | _ \<Rightarrow> None)"

definition handle_c_client_event :: "timespec \<Rightarrow> nat \<Rightarrow> br_event \<Rightarrow> daemon_context \<Rightarrow> daemon_context option" where
  "handle_c_client_event now i e d =
     (case e of
        EvRead bs \<Rightarrow> handle_c_client_read now i bs d
      | EvError \<Rightarrow> handle_c_client_remove i d
      | _ \<Rightarrow> Some d)"

definition handle_java_bridge_event :: "timespec \<Rightarrow> br_event \<Rightarrow> daemon_context \<Rightarrow> daemon_context option" where
  "handle_java_bridge_event now e d =
     (case e of
        EvRead bs \<Rightarrow> java_read bs d
      | EvWritten n \<Rightarrow> java_write now n d
      | EvError \<Rightarrow> handle_java_bridge_remove d
      | _ \<Rightarrow> Some d)"

text \<open>
  \<open>poll\<close> reports nothing for a negative descriptor, and of the Java socket only what was asked for: what
  can be read while an acknowledgement is awaited, room to write while a message is in progress. A
  \<open>read\<close> or \<open>write\<close> does not go beyond what it was asked for.
\<close>

definition client_event_ok :: "client_context \<Rightarrow> br_event \<Rightarrow> bool" where
  "client_event_ok c e \<longleftrightarrow>
     (case e of EvNone \<Rightarrow> True | EvError \<Rightarrow> c_fd c \<ge> 0 | EvRead bs \<Rightarrow> c_fd c \<ge> 0 \<and> length bs \<le> room c | _ \<Rightarrow> False)"

definition java_event_ok :: "java_context \<Rightarrow> br_event \<Rightarrow> bool" where
  "java_event_ok j e \<longleftrightarrow>
     (case e of
        EvNone \<Rightarrow> True
      | EvError \<Rightarrow> j_fd j \<ge> 0
      | EvRead bs \<Rightarrow> j_fd j \<ge> 0 \<and> wait_ack j \<and> length (ack_reply j @ bs) \<le> 4
      | EvWritten n \<Rightarrow> j_fd j \<ge> 0 \<and> \<not> wait_ack j \<and> msg_in_progress j \<and> n \<le> data_to_send j - data_sent j
      | EvAccept s \<Rightarrow> False)"

datatype br_poll = BrTimeout | BrEvents br_event br_event br_event br_event br_event br_event

definition events_ok :: "daemon_context \<Rightarrow> br_poll \<Rightarrow> bool" where
  "events_ok d p \<longleftrightarrow>
     (case p of
        BrTimeout \<Rightarrow> True
      | BrEvents c j e0 e1 e2 ej \<Rightarrow>
          client_event_ok (client_ctx d ! 0) e0 \<and> client_event_ok (client_ctx d ! 1) e1 \<and> client_event_ok (client_ctx d ! 2) e2 \<and>
          java_event_ok (java_ctx d) ej)"

text \<open>An iteration; the time of the reports is \<open>now'\<close>.\<close>

definition bridge_handle :: "timespec \<Rightarrow> br_poll \<Rightarrow> daemon_context \<Rightarrow> daemon_context option" where
  "bridge_handle now p d =
     (case p of
        BrTimeout \<Rightarrow> handle_timeout now d
      | BrEvents c j e0 e1 e2 ej \<Rightarrow> do {
          d \<leftarrow> conn_event handle_c_client_conn c d;
          d \<leftarrow> conn_event handle_java_bridge_conn j d;
          d \<leftarrow> handle_c_client_event now 0 e0 d;
          d \<leftarrow> handle_c_client_event now 1 e1 d;
          d \<leftarrow> handle_c_client_event now 2 e2 d;
          handle_java_bridge_event now ej d
        })"

definition bridge_iter :: "timespec \<Rightarrow> timespec \<Rightarrow> br_poll \<Rightarrow> daemon_context \<Rightarrow> daemon_context option" where
  "bridge_iter now now' p d = do {
     (timeout, d) \<leftarrow> fill_pollfd now d;
     if events_ok d p then bridge_handle now' p d else Some d
   }"

fun bridge_main :: "(timespec \<times> timespec \<times> br_poll) list \<Rightarrow> daemon_context \<Rightarrow> daemon_context option" where
  "bridge_main [] d = Some d"
| "bridge_main ((now, now', p) # ps) d = do { d \<leftarrow> bridge_iter now now' p d; bridge_main ps d }"

text \<open>\<open>garbage\<close> is what the stack holds in the fields the code does not initialise.\<close>

definition bridge_init :: "client_context \<Rightarrow> java_context \<Rightarrow> daemon_context" where
  "bridge_init cg jg =
     \<lparr>d_wakelock_held = False, client_ctx = replicate MAX_CLIENTS (cg\<lparr>c_fd := -1, msg_buffer := NullBuf\<rparr>),
      java_ctx = jg\<lparr>j_fd := -1, msg_count := 0, msg_queue := [], wait_ack := False, java_msg := JUnset\<rparr>, bridge_io = []\<rparr>"

end
