(* ===== verification/Crm_Bridge_Props.thy ===== *)
theory Crm_Bridge_Props
  imports Crm_Bridge
begin

text \<open>
  The properties of the telephony bridge: the wakelock follows the counts of the clients; a message of the
  library reaches the Java application whole, however the sockets cut it, and is acknowledged; and the two
  ways a disconnection stops the daemon.
\<close>

section \<open>The wakelock\<close>

definition holder :: "client_context \<Rightarrow> bool" where
  "holder c \<longleftrightarrow> c_fd c \<noteq> -1 \<and> wakelock_cnt c > 0"

text \<open>
  The messages of a client: a command and the bytes that follow. What a client has acquired more often than it has
  released, by its whole messages; and the beginning of a message that is not whole yet.
\<close>

fun client_bytes :: "32 word \<times> 8 word list \<Rightarrow> 8 word list" where
  "client_bytes (cmd, body) = be_bytes (word_of_nat (length body)) @ be_bytes cmd @ body"

definition net_acquired :: "(32 word \<times> 8 word list) list \<Rightarrow> int" where
  "net_acquired ms = int (length (filter (\<lambda>m. fst m = 0) ms)) - int (length (filter (\<lambda>m. fst m = 1) ms))"

definition unfinished :: "8 word list \<Rightarrow> bool" where
  "unfinished part \<longleftrightarrow> length part < 8 \<or>
     (be_word (take 4 (drop 4 part)) \<notin> {0, 1} \<and> length part \<le> 8 + unat (be_word (take 4 part)))"

text \<open>The part of a message the daemon has read so far.\<close>

definition reading :: "client_context \<Rightarrow> 8 word list \<Rightarrow> bool" where
  "reading c part \<longleftrightarrow>
     (case msg_state c of
        MSG_STATE_NONE \<Rightarrow> part = []
      | MSG_STATE_IN_HDR \<Rightarrow> part = take (data_read c) (msg_hdr c) \<and> length part = data_read c \<and> data_read c < 8 \<and> data_to_read c = 8
      | MSG_STATE_IN_MSG \<Rightarrow> length (msg_hdr c) = 8 \<and> be_word (drop 4 (msg_hdr c)) \<notin> {0, 1} \<and>
          data_to_read c = 12 + unat (be_word (take 4 (msg_hdr c))) \<and> data_read c \<le> data_to_read c \<and>
          (\<exists>body. part = msg_hdr c @ body \<and> data_read c = 12 + length body))"

definition accounted :: "client_context \<Rightarrow> bool" where
  "accounted c \<longleftrightarrow> (\<exists>ms part. c_input c = concat (map client_bytes ms) @ part \<and> reading c part \<and> wakelock_cnt c = net_acquired ms)"

definition counted :: "client_context \<Rightarrow> bool" where
  "counted c \<longleftrightarrow> (c_fd c = -1 \<or> c_fd c \<ge> 0) \<and> (c_fd c \<noteq> -1 \<longrightarrow> wakelock_cnt c \<ge> 0 \<and> accounted c)"

definition br_inv :: "daemon_context \<Rightarrow> bool" where
  "br_inv d \<longleftrightarrow> length (client_ctx d) = MAX_CLIENTS \<and> (\<forall>c \<in> set (client_ctx d). counted c) \<and>
     d_wakelock_held d = (\<exists>c \<in> set (client_ctx d). holder c)"

lemma emit_client [simp]: "client_ctx (br_emit x d) = client_ctx d" "java_ctx (br_emit x d) = java_ctx d"
  "d_wakelock_held (br_emit x d) = d_wakelock_held d" by (simp_all add: br_emit_def)

lemma set_java_simps [simp]: "client_ctx (set_java j d) = client_ctx d" "java_ctx (set_java j d) = j"
  "d_wakelock_held (set_java j d) = d_wakelock_held d" "bridge_io (set_java j d) = bridge_io d" by (simp_all add: set_java_def)

lemma set_client_simps [simp]: "client_ctx (set_client i c d) = (client_ctx d)[i := c]" "java_ctx (set_client i c d) = java_ctx d"
  "d_wakelock_held (set_client i c d) = d_wakelock_held d" "bridge_io (set_client i c d) = bridge_io d" by (simp_all add: set_client_def)

lemma br_inv_same: "client_ctx d' = client_ctx d \<Longrightarrow> d_wakelock_held d' = d_wakelock_held d \<Longrightarrow> br_inv d \<Longrightarrow> br_inv d'"
  by (simp add: br_inv_def)

text \<open>A client that changes without becoming or ceasing to be a holder.\<close>

lemma br_inv_client:
  assumes "br_inv d" "i < 3" "counted c" "holder c = holder (client_ctx d ! i)"
    "client_ctx d' = (client_ctx d)[i := c]" "d_wakelock_held d' = d_wakelock_held d"
  shows "br_inv d'"
proof -
  have l: "i < length (client_ctx d)" using assms(1,2) by (simp add: br_inv_def)
  have "(\<exists>x \<in> set ((client_ctx d)[i := c]). holder x) = (\<exists>x \<in> set (client_ctx d). holder x)"
    using l assms(4) by (metis in_set_conv_nth length_list_update nth_list_update_eq nth_list_update_neq)
  then show ?thesis
    using assms(1,3,5,6) set_update_subset_insert [of "client_ctx d" i c] by (auto simp: br_inv_def)
qed

lemma wakelock_change_inv:
  assumes "length (client_ctx d) = 3" "\<forall>c \<in> set (client_ctx d). counted c"
  shows "br_inv (handle_wakelock_change d)"
  using assms by (auto simp: handle_wakelock_change_def br_inv_def list_ex_iff holder_def)

lemma counted_update: "br_inv d \<Longrightarrow> counted c \<Longrightarrow> \<forall>x \<in> set ((client_ctx d)[i := c]). counted x"
  using set_update_subset_insert [of "client_ctx d" i c] by (auto simp: br_inv_def)

lemma remove_SomeD:
  assumes "handle_c_client_remove i d = Some d'"
  shows "i < length (client_ctx d) \<and> (\<exists>b. free_buffer (msg_buffer (client_ctx d ! i)) = Some b \<and>
    d' = (let e = set_client i ((client_ctx d ! i)\<lparr>c_fd := -1, msg_buffer := b\<rparr>) (br_emit (BrClose (c_fd (client_ctx d ! i))) d)
      in if wakelock_cnt (client_ctx d ! i) > 0 then handle_wakelock_change e else e))"
proof -
  have i: "i < length (client_ctx d)" using assms by (auto simp: handle_c_client_remove_def bind_Some_iff dest!: array_get_SomeD)
  then have g: "array_get (client_ctx d) (int i) = Some (client_ctx d ! i)" by simp
  show ?thesis
    using assms i by (cases "free_buffer (msg_buffer (client_ctx d ! i))") (simp_all add: handle_c_client_remove_def g Let_def split del: if_split)
qed

lemma remove_inv:
  assumes "handle_c_client_remove i d = Some d'" "length (client_ctx d) = 3"
    "\<forall>j < 3. j \<noteq> i \<longrightarrow> counted (client_ctx d ! j)" "d_wakelock_held d \<longleftrightarrow> (\<exists>c \<in> set (client_ctx d). holder c)"
  shows "br_inv d'"
proof -
  obtain b where i: "i < 3" and
    d': "d' = (let e = set_client i ((client_ctx d ! i)\<lparr>c_fd := -1, msg_buffer := b\<rparr>) (br_emit (BrClose (c_fd (client_ctx d ! i))) d)
      in if wakelock_cnt (client_ctx d ! i) > 0 then handle_wakelock_change e else e)"
    using remove_SomeD [OF assms(1)] assms(2) by auto
  define v where "v = (client_ctx d ! i)\<lparr>c_fd := -1, msg_buffer := b\<rparr>"
  have v: "counted v" "\<not> holder v" by (simp_all add: v_def counted_def holder_def)
  have c: "\<forall>x \<in> set ((client_ctx d)[i := v]). counted x"
    using i assms(2,3) v(1) by (auto simp: in_set_conv_nth nth_list_update)
  show ?thesis
  proof (cases "wakelock_cnt (client_ctx d ! i) > 0")
    case True
    then show ?thesis using wakelock_change_inv [of "set_client i v (br_emit (BrClose (c_fd (client_ctx d ! i))) d)"] c assms(2)
      by (simp add: d' Let_def v_def)
  next
    case False
    have "(\<exists>x \<in> set ((client_ctx d)[i := v]). holder x) = (\<exists>x \<in> set (client_ctx d). holder x)"
      using i assms(2) v(2) False by (metis holder_def in_set_conv_nth length_list_update nth_list_update_eq nth_list_update_neq)
    then show ?thesis using False c assms(2,4) by (simp add: d' Let_def v_def br_inv_def)
  qed
qed

lemma remove_ok: "handle_c_client_remove i d = Some d' \<Longrightarrow> br_inv d \<Longrightarrow> br_inv d'"
  by (rule remove_inv) (auto simp: br_inv_def)

lemma java_remove_ok: "handle_java_bridge_remove d = Some d' \<Longrightarrow> br_inv d \<Longrightarrow> br_inv d'"
  by (rule br_inv_same [of d' d]) (auto simp: handle_java_bridge_remove_def bind_Some_iff Let_def)

lemma java_read_ok: "java_read bs d = Some d' \<Longrightarrow> br_inv d \<Longrightarrow> br_inv d'"
  using java_remove_ok [of d d'] java_remove_ok [of "set_java ((java_ctx d)\<lparr>ack_reply := ack_reply (java_ctx d) @ bs\<rparr>) d" d']
    br_inv_same [of d' d] br_inv_same [of "set_java ((java_ctx d)\<lparr>ack_reply := ack_reply (java_ctx d) @ bs\<rparr>) d" d]
  by (auto simp: java_read_def bind_Some_iff Let_def split: if_splits)

lemma java_write_ok: "java_write now n d = Some d' \<Longrightarrow> br_inv d \<Longrightarrow> br_inv d'"
  using java_remove_ok [of d d'] br_inv_same [of d' d]
  by (auto simp: java_write_def bind_Some_iff Let_def split: if_splits)

lemma fill_ok: "fill_pollfd now d = Some (t, d') \<Longrightarrow> br_inv d \<Longrightarrow> br_inv d'"
  by (rule br_inv_same [of d' d]) (auto simp: fill_pollfd_def bind_Some_iff Let_def)

lemma client_timeout_ok: "client_timeout now i d = Some d' \<Longrightarrow> br_inv d \<Longrightarrow> br_inv d'"
  using remove_ok [of i d d'] by (auto simp: client_timeout_def bind_Some_iff split: if_splits)

lemma timeout_ok:
  assumes "handle_timeout now d = Some d'" "br_inv d"
  shows "br_inv d'"
proof -
  obtain a b c where "client_timeout now 0 d = Some a" "client_timeout now 1 a = Some b" "client_timeout now 2 b = Some c"
    "d' = c \<or> handle_java_bridge_remove c = Some d'"
    using assms(1) by (auto simp: handle_timeout_def bind_Some_iff Let_def split: if_splits)
  then show ?thesis using client_timeout_ok java_remove_ok assms(2) by blast
qed

lemma reading_unfinished: "reading c part \<Longrightarrow> unfinished part"
  by (auto simp: reading_def unfinished_def split: msg_state.splits)

lemma accounted_nil: "c_input c = [] \<Longrightarrow> msg_state c = MSG_STATE_NONE \<Longrightarrow> wakelock_cnt c = 0 \<Longrightarrow> accounted c"
  unfolding accounted_def by (intro exI [of _ "[]"]) (simp add: reading_def net_acquired_def)

lemma conn_ok: "br_inv d \<Longrightarrow> br_inv (handle_c_client_conn sock d)"
proof (cases "find (\<lambda>i. c_fd (client_ctx d ! i) = -1) [0..<length (client_ctx d)]")
  case (Some i)
  assume inv: "br_inv d"
  have i: "i < 3" "c_fd (client_ctx d ! i) = -1" using Some inv by (auto simp: find_Some_iff br_inv_def)
  show ?thesis
  proof (cases "sock \<ge> 0")
    case True
    show ?thesis
      by (rule br_inv_client [OF inv i(1), of "(client_ctx d ! i)\<lparr>c_fd := sock, msg_state := MSG_STATE_NONE, wakelock_cnt := 0, c_input := []\<rparr>"])
        (use True Some i in \<open>simp_all add: handle_c_client_conn_def counted_def holder_def accounted_nil\<close>)
  qed (use inv in \<open>simp add: handle_c_client_conn_def\<close>)
qed (use br_inv_same [of "handle_c_client_conn sock d" d] in \<open>simp add: handle_c_client_conn_def\<close>)

lemma java_conn_ok: "br_inv d \<Longrightarrow> br_inv (handle_java_bridge_conn sock d)"
  by (rule br_inv_same [of _ d]) (simp_all add: handle_java_bridge_conn_def)

text \<open>Every client but \<open>i\<close>, which is in the middle of something, is in order.\<close>

definition br_inv_but :: "nat \<Rightarrow> daemon_context \<Rightarrow> bool" where
  "br_inv_but i d \<longleftrightarrow> length (client_ctx d) = MAX_CLIENTS \<and> (\<forall>j < 3. j \<noteq> i \<longrightarrow> counted (client_ctx d ! j)) \<and>
     d_wakelock_held d = (\<exists>c \<in> set (client_ctx d). holder c)"

lemma holders_update:
  "i < length cs \<Longrightarrow> holder c = holder (cs ! i) \<Longrightarrow> (\<exists>x \<in> set (cs[i := c]). holder x) = (\<exists>x \<in> set cs. holder x)"
  by (metis in_set_conv_nth length_list_update nth_list_update_eq nth_list_update_neq)

lemma but_client:
  "br_inv_but i d \<Longrightarrow> i < 3 \<Longrightarrow> holder c = holder (client_ctx d ! i) \<Longrightarrow> br_inv_but i (set_client i c d)"
  using holders_update [of i "client_ctx d" c] by (simp add: br_inv_but_def)

lemma but_all: "br_inv_but i d \<Longrightarrow> i < 3 \<Longrightarrow> counted (client_ctx d ! i) \<Longrightarrow> br_inv d"
  by (auto simp: br_inv_but_def br_inv_def in_set_conv_nth)

lemma inv_but: "br_inv d \<Longrightarrow> br_inv_but i d"
  by (simp add: br_inv_but_def br_inv_def)

lemma but_remove: "handle_c_client_remove i d = Some d' \<Longrightarrow> br_inv_but i d \<Longrightarrow> br_inv d'"
  by (rule remove_inv) (auto simp: br_inv_but_def)

lemma be_bytes_be_word:
  assumes "length bs = 4"
  shows "be_bytes (be_word bs) = bs"
proof -
  obtain a b c e where "bs = [a, b, c, e]" using assms by (auto simp: numeral_eq_Suc length_Suc_conv)
  moreover have "ucast (bytes_int [e, c, b, a]) = e" "ucast (drop_bit 8 (bytes_int [e, c, b, a])) = c"
    "ucast (drop_bit 16 (bytes_int [e, c, b, a])) = b" "ucast (drop_bit 24 (bytes_int [e, c, b, a])) = a"
    by (rule bit_word_eqI; auto simp: bytes_int_def bit_simps dest: bit_imp_le_length)+
  ultimately show ?thesis by (simp add: be_bytes_def be_word_def int_bytes_def)
qed

lemma header_split: "length h = 8 \<Longrightarrow> be_bytes (be_word (take 4 h)) @ be_bytes (be_word (drop 4 h)) = h"
  by (simp add: be_bytes_be_word)

text \<open>A client that has read a whole header.\<close>

definition header_read :: "client_context \<Rightarrow> bool" where
  "header_read c \<longleftrightarrow> c_fd c \<ge> 0 \<and> wakelock_cnt c \<ge> 0 \<and> length (msg_hdr c) = 8 \<and>
     (\<exists>ms. c_input c = concat (map client_bytes ms) @ msg_hdr c \<and> wakelock_cnt c = net_acquired ms)"

lemma accounted_done:
  assumes "c_input c = concat (map client_bytes ms) @ client_bytes (ty, b)" "msg_state c = MSG_STATE_NONE" "wakelock_cnt c = net_acquired (ms @ [(ty, b)])"
  shows "accounted c"
  unfolding accounted_def using assms by (intro exI [of _ "ms @ [(ty, b)]"] exI [of _ "[]"]) (simp add: reading_def)

lemma wakelock_msg_ok:
  assumes "handle_wakelock_msg i sz ty c d = Some d'" "br_inv_but i d" "i < 3" "c = client_ctx d ! i" "header_read c"
    and "sz = be_word (take 4 (msg_hdr c))" "ty = be_word (drop 4 (msg_hdr c))" "ty = 0 \<or> ty = 1"
  shows "br_inv d'"
proof -
  define v where "v = c\<lparr>wakelock_cnt := wakelock_cnt c + (if ty = 0 then 1 else -1)\<rparr>"
  have l: "length (client_ctx d) = 3" "i < length (client_ctx d)" using assms(2,3) by (simp_all add: br_inv_but_def)
  obtain ms where c: "c_fd c \<ge> 0" "wakelock_cnt c \<ge> 0" "length (msg_hdr c) = 8"
    "c_input c = concat (map client_bytes ms) @ msg_hdr c" "wakelock_cnt c = net_acquired ms"
    using assms(5) by (auto simp: header_read_def)
  consider "handle_c_client_remove i d = Some d'" | "wakelock_cnt v < 0" "handle_c_client_remove i (set_client i v d) = Some d'"
    | "sz = 0" "\<not> wakelock_cnt v < 0" "d' = handle_wakelock_change (set_client i (v\<lparr>msg_state := MSG_STATE_NONE\<rparr>) d)"
    using assms(1) by (auto simp: handle_wakelock_msg_def Let_def v_def bind_Some_iff split: if_splits)
  then show ?thesis
  proof cases
    case 1
    then show ?thesis using but_remove assms(2) by blast
  next
    case 2
    have "holder v = holder (client_ctx d ! i)" using 2(1) c(2) assms(4) by (auto simp: v_def holder_def split: if_splits)
    then show ?thesis using but_remove [OF 2(2)] but_client [OF assms(2,3)] by blast
  next
    case 3
    let ?v = "v\<lparr>msg_state := MSG_STATE_NONE\<rparr>"
    have "msg_hdr c = client_bytes (ty, [])" using header_split [OF c(3)] 3(1) assms(6,7) by simp
    moreover have "wakelock_cnt v = net_acquired (ms @ [(ty, [])])" using c(5) assms(8) by (auto simp: v_def net_acquired_def)
    ultimately have "accounted ?v" using accounted_done [of ?v ms ty "[]"] c(4) by (simp add: v_def)
    then have "counted ?v" using 3(2) c(1) by (simp add: v_def counted_def)
    then have "\<forall>x \<in> set ((client_ctx d)[i := ?v]). counted x"
      using assms(2) l by (auto simp: br_inv_but_def in_set_conv_nth nth_list_update)
    then show ?thesis using wakelock_change_inv [of "set_client i ?v d"] l 3(3) by simp
  qed
qed

lemma header_ok:
  assumes "handle_header i c d = Some d'" "br_inv_but i d" "i < 3" "c = client_ctx d ! i" "header_read c"
  shows "br_inv d'"
proof -
  let ?ty = "be_word (drop 4 (msg_hdr c))"
  let ?v = "c\<lparr>msg_buffer := Buf (be_bytes (msg_count (java_ctx d)) @ msg_hdr c), data_read := 12,
    data_to_read := unat (be_word (take 4 (msg_hdr c))) + 12, msg_state := MSG_STATE_IN_MSG\<rparr>"
  consider "?ty = 0 \<or> ?ty = 1" "handle_wakelock_msg i (be_word (take 4 (msg_hdr c))) ?ty c d = Some d'" | "handle_c_client_remove i d = Some d'"
    | "?ty \<noteq> 0" "?ty \<noteq> 1" "d' = set_client i ?v (set_java ((java_ctx d)\<lparr>msg_count := msg_count (java_ctx d) + 1\<rparr>) d)"
    using assms(1) by (auto simp: handle_header_def Let_def split: if_splits)
  then show ?thesis
  proof cases
    case 3
    obtain ms where c: "c_fd c \<ge> 0" "wakelock_cnt c \<ge> 0" "length (msg_hdr c) = 8"
      "c_input c = concat (map client_bytes ms) @ msg_hdr c" "wakelock_cnt c = net_acquired ms"
      using assms(5) by (auto simp: header_read_def)
    have "reading ?v (msg_hdr c)" using c(3) 3(1,2) by (simp add: reading_def)
    then have "accounted ?v" unfolding accounted_def using c(4,5) by (intro exI [of _ ms] exI [of _ "msg_hdr c"]) simp
    then have n: "counted ?v" using c(1,2) by (simp add: counted_def)
    have "br_inv_but i (set_java ((java_ctx d)\<lparr>msg_count := msg_count (java_ctx d) + 1\<rparr>) d)" using assms(2) by (simp add: br_inv_but_def)
    from but_client [OF this assms(3), of ?v] assms(4) have "br_inv_but i d'" by (simp add: 3(3) holder_def)
    then show ?thesis using but_all [OF _ assms(3)] n assms(2,3) by (simp add: 3(3) br_inv_but_def)
  qed (use wakelock_msg_ok [OF _ assms(2-5)] but_remove assms in auto)
qed

lemma client_read_ok:
  assumes "handle_c_client_read now i bs d = Some d'" "br_inv d" "i < 3" "c_fd (client_ctx d ! i) \<ge> 0" "length bs \<le> room (client_ctx d ! i)"
  shows "br_inv d'"
proof -
  have l: "i < length (client_ctx d)" using assms(2,3) by (simp add: br_inv_def)
  have cn: "counted (client_ctx d ! i)" using assms(2) l by (simp add: br_inv_def)
  then obtain ms part where a: "c_input (client_ctx d ! i) = concat (map client_bytes ms) @ part" "reading (client_ctx d ! i) part"
    "wakelock_cnt (client_ctx d ! i) = net_acquired ms" "net_acquired ms \<ge> 0"
    using assms(4) by (auto simp: counted_def accounted_def)
  define c where "c = (start_header now (client_ctx d ! i))\<lparr>c_input := c_input (client_ctx d ! i) @ bs\<rparr>"
  have c: "c_fd c \<ge> 0" "wakelock_cnt c = net_acquired ms" "c_input c = concat (map client_bytes ms) @ part @ bs" "reading c part"
    "length bs \<le> data_to_read c - data_read c" "holder c = holder (client_ctx d ! i)" "msg_state c \<noteq> MSG_STATE_NONE"
    using assms(4,5) a by (auto simp: c_def start_header_def reading_def room_def holder_def split: msg_state.splits if_splits)
  have step: "(if bs = [] then handle_c_client_remove i (set_client i c d)
      else if msg_state c = MSG_STATE_IN_HDR
      then (let v = c\<lparr>msg_hdr := take (data_read c) (msg_hdr c) @ bs, data_read := data_read c + length bs\<rparr>; e = set_client i v (set_client i c d)
        in if data_read v = data_to_read v then handle_header i v e else Some e)
      else (case msg_buffer c of
             Buf b \<Rightarrow> do {
               let v = c\<lparr>msg_buffer := Buf (b @ bs), data_read := data_read c + length bs\<rparr>;
               if data_read v = data_to_read v
               then do {
                 msg_to_string (be_word (drop 4 (msg_hdr v)));
                 Some (queue_msg (b @ bs) (set_client i (v\<lparr>msg_state := MSG_STATE_NONE, msg_buffer := NullBuf\<rparr>) (set_client i c d)))
               }
               else Some (set_client i v (set_client i c d))
             }
           | _ \<Rightarrow> None)) = Some d'"
    using assms(1) l unfolding handle_c_client_read_def c_def by (simp add: Let_def cong: if_cong)
  note but = but_client [OF inv_but [OF assms(2)] assms(3)]
  have fin: "br_inv d'" if "client_ctx d' = (client_ctx d)[i := w]" "d_wakelock_held d' = d_wakelock_held d" "c_fd w = c_fd c" "wakelock_cnt w = wakelock_cnt c"
      "accounted w" for w
  proof (rule br_inv_client [OF assms(2,3) _ _ that(1,2)])
    show "counted w" using that(3-5) c(1,2) a(4) by (simp add: counted_def)
    show "holder w = holder (client_ctx d ! i)" using that(3,4) c(6) by (simp add: holder_def)
  qed
  show ?thesis
  proof (cases "bs = []")
    case True
    then have "handle_c_client_remove i (set_client i c d) = Some d'" using step by simp
    then show ?thesis using but_remove but [OF c(6)] by blast
  next
    case False
    show ?thesis
    proof (cases "msg_state c")
      case MSG_STATE_IN_HDR
      define v where "v = c\<lparr>msg_hdr := take (data_read c) (msg_hdr c) @ bs, data_read := data_read c + length bs\<rparr>"
      have v: "(if data_read v = data_to_read v then handle_header i v (set_client i v (set_client i c d)) else Some (set_client i v (set_client i c d))) = Some d'"
        using step False MSG_STATE_IN_HDR by (simp add: v_def Let_def cong: if_cong)
      have r: "part = take (data_read c) (msg_hdr c)" "length part = data_read c" "data_read c < 8" "data_to_read c = 8"
        using c(4) MSG_STATE_IN_HDR by (auto simp: reading_def)
      have "min (length (msg_hdr c)) (data_read c) = data_read c" using r(1,2) by simp
      then have hv: "msg_hdr v = part @ bs" "data_read v = length (msg_hdr v)" "data_to_read v = 8" "msg_state v = MSG_STATE_IN_HDR" "holder v = holder c"
        "c_input v = c_input c" "c_fd v = c_fd c" "wakelock_cnt v = wakelock_cnt c"
        using r MSG_STATE_IN_HDR by (simp_all add: v_def holder_def)
      show ?thesis
      proof (cases "data_read v = data_to_read v")
        case True
        have "header_read v" using hv c(1-3) a(4) True unfolding header_read_def by (intro conjI exI [of _ ms]) simp_all
        moreover have "handle_header i v (set_client i v d) = Some d'" using v True by (simp add: set_client_def)
        ultimately show ?thesis using header_ok [of i v "set_client i v d" d'] but [of v] hv(5) c(6) l assms(3) by simp
      next
        case w: False
        then have "data_read v < 8" using hv c(5) r by (simp add: v_def)
        then have "reading v (part @ bs)" using hv by (simp add: reading_def)
        then have "accounted v" unfolding accounted_def using hv c(2,3) by (intro exI [of _ ms] exI [of _ "part @ bs"]) simp
        then show ?thesis using fin [of v] v w hv by auto
      qed
    next
      case MSG_STATE_IN_MSG
      obtain body where r: "length (msg_hdr c) = 8" "be_word (drop 4 (msg_hdr c)) \<notin> {0, 1}" "data_to_read c = 12 + unat (be_word (take 4 (msg_hdr c)))"
        "part = msg_hdr c @ body" "data_read c = 12 + length body" "data_read c \<le> data_to_read c"
        using c(4) MSG_STATE_IN_MSG by (auto simp: reading_def)
      obtain b where b: "msg_buffer c = Buf b" "if data_read c + length bs = data_to_read c
          then d' = queue_msg (b @ bs) (set_client i (c\<lparr>data_read := data_read c + length bs, msg_state := MSG_STATE_NONE, msg_buffer := NullBuf\<rparr>) d)
          else d' = set_client i (c\<lparr>msg_buffer := Buf (b @ bs), data_read := data_read c + length bs\<rparr>) d"
        using step False MSG_STATE_IN_MSG
        by (cases "msg_buffer c") (auto simp: Let_def bind_Some_iff set_client_def queue_msg_def split: if_splits)
      show ?thesis
      proof (cases "data_read c + length bs = data_to_read c")
        case True
        let ?w = "c\<lparr>data_read := data_read c + length bs, msg_state := MSG_STATE_NONE, msg_buffer := NullBuf\<rparr>"
        have "length (body @ bs) = unat (be_word (take 4 (msg_hdr c)))" using r True by simp
        then have "be_word (take 4 (msg_hdr c)) = word_of_nat (length (body @ bs))" by simp
        then have "part @ bs = client_bytes (be_word (drop 4 (msg_hdr c)), body @ bs)" using header_split [OF r(1)] r(4) by simp
        moreover have "net_acquired (ms @ [(be_word (drop 4 (msg_hdr c)), body @ bs)]) = net_acquired ms" using r(2) by (auto simp: net_acquired_def)
        ultimately have "accounted ?w" using accounted_done [of ?w ms "be_word (drop 4 (msg_hdr c))" "body @ bs"] c(2,3) by simp
        then show ?thesis using fin [of ?w] b(2) True by (simp add: queue_msg_def Let_def)
      next
        case w: False
        let ?w = "c\<lparr>msg_buffer := Buf (b @ bs), data_read := data_read c + length bs\<rparr>"
        have "reading ?w (part @ bs)" using r c(5) MSG_STATE_IN_MSG by (simp add: reading_def)
        then have "accounted ?w" unfolding accounted_def using c(2,3) by (intro exI [of _ ms] exI [of _ "part @ bs"]) simp
        then show ?thesis using fin [of ?w] b(2) w by simp
      qed
    qed (use c(7) in simp)
  qed
qed

text \<open>What happens to a client leaves the others alone.\<close>

lemma change_clients [simp]: "client_ctx (handle_wakelock_change d) = client_ctx d" by (simp add: handle_wakelock_change_def)

lemma remove_others: "handle_c_client_remove i d = Some d' \<Longrightarrow> j \<noteq> i \<Longrightarrow> client_ctx d' ! j = client_ctx d ! j"
  by (auto simp: handle_c_client_remove_def bind_Some_iff Let_def)

lemma header_others: "handle_header i c d = Some d' \<Longrightarrow> j \<noteq> i \<Longrightarrow> client_ctx d' ! j = client_ctx d ! j"
  using remove_others [of i d d' j] remove_others [of i "set_client i (c\<lparr>wakelock_cnt := wakelock_cnt c - 1\<rparr>) d" d' j]
    remove_others [of i "set_client i (c\<lparr>wakelock_cnt := wakelock_cnt c + 1\<rparr>) d" d' j]
  by (auto simp: handle_header_def handle_wakelock_msg_def Let_def bind_Some_iff split: if_splits)

lemma read_others:
  assumes "handle_c_client_read now i bs d = Some d'" "j \<noteq> i"
  shows "client_ctx d' ! j = client_ctx d ! j"
  using assms by (auto simp: handle_c_client_read_def Let_def bind_Some_iff queue_msg_def dest!: remove_others header_others split: if_splits heap_buffer.splits)

lemma event_others: "handle_c_client_event now i e d = Some d' \<Longrightarrow> j \<noteq> i \<Longrightarrow> client_ctx d' ! j = client_ctx d ! j"
  using read_others remove_others by (auto simp: handle_c_client_event_def split: br_event.splits)

lemma conn_others:
  "conn_event handle_c_client_conn e d = Some d' \<Longrightarrow> c_fd (client_ctx d ! j) \<ge> 0 \<Longrightarrow> client_ctx d' ! j = client_ctx d ! j"
  "conn_event handle_java_bridge_conn e d = Some d' \<Longrightarrow> client_ctx d' ! j = client_ctx d ! j"
  by (auto simp: conn_event_def handle_c_client_conn_def handle_java_bridge_conn_def find_Some_iff nth_list_update split: br_event.splits if_splits option.splits)

lemma iter_br_inv:
  assumes "bridge_iter now now' p d = Some d'" "br_inv d"
  shows "br_inv d'"
proof -
  obtain t d0 where d0: "fill_pollfd now d = Some (t, d0)" "(if events_ok d0 p then bridge_handle now' p d0 else Some d0) = Some d'"
    using assms(1) by (auto simp: bridge_iter_def bind_Some_iff)
  have i0: "br_inv d0" using fill_ok [OF d0(1) assms(2)] .
  have client: "br_inv b" if "handle_c_client_event now' i e a = Some b" "br_inv a" "i < 3" "client_event_ok (client_ctx d0 ! i) e"
      "c_fd (client_ctx d0 ! i) \<ge> 0 \<Longrightarrow> client_ctx a ! i = client_ctx d0 ! i" for i e a b
    using that client_read_ok remove_ok by (auto simp: handle_c_client_event_def client_event_ok_def split: br_event.splits)
  have java: "br_inv b" if "handle_java_bridge_event now' e a = Some b" "br_inv a" for e a b
    using that java_read_ok java_write_ok java_remove_ok by (auto simp: handle_java_bridge_event_def split: br_event.splits)
  have conn: "br_inv b" if "conn_event f e a = Some b" "br_inv a" "\<And>s x. br_inv x \<Longrightarrow> br_inv (f s x)" for f e a b
    using that by (auto simp: conn_event_def split: br_event.splits)
  show ?thesis
  proof (cases "events_ok d0 p")
    case True
    then have h: "bridge_handle now' p d0 = Some d'" using d0(2) by simp
    show ?thesis
    proof (cases p)
      case BrTimeout
      then show ?thesis using h timeout_ok i0 by (simp add: bridge_handle_def)
    next
      case (BrEvents x1 x2 e0 e1 e2 ej)
      obtain d1 d2 d3 d4 d5 where s: "conn_event handle_c_client_conn x1 d0 = Some d1" "conn_event handle_java_bridge_conn x2 d1 = Some d2"
        "handle_c_client_event now' 0 e0 d2 = Some d3" "handle_c_client_event now' 1 e1 d3 = Some d4" "handle_c_client_event now' 2 e2 d4 = Some d5"
        "handle_java_bridge_event now' ej d5 = Some d'"
        using h by (auto simp: bridge_handle_def BrEvents bind_Some_iff)
      have "br_inv d2" using conn [OF s(2) conn [OF s(1) i0 conn_ok] java_conn_ok] .
      have ok: "client_event_ok (client_ctx d0 ! 0) e0" "client_event_ok (client_ctx d0 ! 1) e1" "client_event_ok (client_ctx d0 ! 2) e2"
        using True by (simp_all add: events_ok_def BrEvents)
      have same: "c_fd (client_ctx d0 ! k) \<ge> 0 \<Longrightarrow> client_ctx d2 ! k = client_ctx d0 ! k" for k
        using conn_others(1) [OF s(1), of k] conn_others(2) [OF s(2), of k] by simp
      have i3: "br_inv d3" by (rule client [OF s(3) \<open>br_inv d2\<close> _ ok(1) same]) simp_all
      have i4: "br_inv d4" by (rule client [OF s(4) i3 _ ok(2)]) (use same event_others [OF s(3), of 1] in simp_all)
      have "br_inv d5" by (rule client [OF s(5) i4 _ ok(3)]) (use same event_others [OF s(3), of 2] event_others [OF s(4), of 2] in simp_all)
      then show ?thesis using java [OF s(6)] by simp
    qed
  qed (use d0(2) i0 in simp)
qed

lemma main_br_inv: "bridge_main ps d = Some d' \<Longrightarrow> br_inv d \<Longrightarrow> br_inv d'"
proof (induction ps d rule: bridge_main.induct)
  case (2 now now' p ps d)
  then obtain d1 where "bridge_iter now now' p d = Some d1" "bridge_main ps d1 = Some d'" by (auto simp: bind_Some_iff)
  then show ?case using 2 iter_br_inv by blast
qed simp

text \<open>
  C27: the bridge asks for the wakelock exactly while a client needs it. In every run of the daemon, whatever
  the clients and the Java application send and whenever they leave, the bytes read so far on the connection of a client are whole
  messages followed by the beginning of one; the wakelock the bridge wants held is held if and only if, for some connected client, these messages
  acquire it more often than they release it; no connected client has released it more often than it has acquired it; and
  there are never more than three clients. The beginning of a message that follows is not an acquisition or a release that is whole.
\<close>

theorem bridge_wakelock_exact:
  assumes "bridge_main ps (bridge_init cg jg) = Some d"
  shows "\<exists>mss. length mss = MAX_CLIENTS \<and> length (client_ctx d) = MAX_CLIENTS \<and>
    (\<forall>i < MAX_CLIENTS. c_fd (client_ctx d ! i) \<noteq> -1 \<longrightarrow> net_acquired (mss ! i) \<ge> 0 \<and>
      (\<exists>part. c_input (client_ctx d ! i) = concat (map client_bytes (mss ! i)) @ part \<and> unfinished part)) \<and>
    (d_wakelock_held d \<longleftrightarrow> (\<exists>i < MAX_CLIENTS. c_fd (client_ctx d ! i) \<noteq> -1 \<and> net_acquired (mss ! i) > 0))"
proof -
  have "br_inv (bridge_init cg jg)" by (auto simp: br_inv_def bridge_init_def counted_def holder_def)
  from main_br_inv [OF assms this] have inv: "length (client_ctx d) = 3" "\<forall>c \<in> set (client_ctx d). counted c"
    "d_wakelock_held d = (\<exists>c \<in> set (client_ctx d). holder c)" by (simp_all add: br_inv_def)
  define ok :: "client_context \<Rightarrow> _ \<Rightarrow> bool" where "ok = (\<lambda>c ms. c_fd c \<noteq> -1 \<longrightarrow> net_acquired ms \<ge> 0 \<and> net_acquired ms = wakelock_cnt c \<and>
    (\<exists>part. c_input c = concat (map client_bytes ms) @ part \<and> unfinished part))"
  have "\<exists>ms. ok c ms" if "c \<in> set (client_ctx d)" for c
    using inv(2) that reading_unfinished by (fastforce simp: ok_def counted_def accounted_def)
  then obtain f where f: "\<And>c. c \<in> set (client_ctx d) \<Longrightarrow> ok c (f c)" by metis
  then have "\<forall>i < 3. ok (client_ctx d ! i) (map f (client_ctx d) ! i)" using inv(1) by simp
  moreover have "d_wakelock_held d \<longleftrightarrow> (\<exists>i < 3. holder (client_ctx d ! i))" using inv(1,3) by (metis in_set_conv_nth)
  ultimately show ?thesis using inv(1) unfolding ok_def holder_def by (intro exI [of _ "map f (client_ctx d)"]) auto
qed

section \<open>Iterations with one event\<close>

definition client_poll :: "nat \<Rightarrow> br_event \<Rightarrow> br_poll" where
  "client_poll i e = BrEvents EvNone EvNone (if i = 0 then e else EvNone) (if i = 1 then e else EvNone) (if i = 2 then e else EvNone) EvNone"

definition java_poll :: "br_event \<Rightarrow> br_poll" where
  "java_poll e = BrEvents EvNone EvNone EvNone EvNone EvNone e"

text \<open>Nothing is started when there is no Java application, nothing to send, or a message on its way.\<close>

definition settled :: "daemon_context \<Rightarrow> bool" where
  "settled d \<longleftrightarrow> (let j = java_ctx d in j_fd j < 0 \<or> wait_ack j \<or> msg_in_progress j \<or> \<not> java_busy (d_wakelock_held d) j)"

lemma set_java_same [simp]: "set_java (java_ctx d) d = d" by (simp add: set_java_def)

lemma settled_fill: "settled d \<Longrightarrow> \<exists>t. fill_pollfd now d = Some (t, d)"
  by (auto simp: settled_def fill_pollfd_def fill_java_def Let_def)

lemma iter_client:
  assumes "settled d" "i < 3" "client_event_ok (client_ctx d ! i) e"
  shows "bridge_iter now now' (client_poll i e) d = handle_c_client_event now' i e d"
proof -
  obtain t where t: "fill_pollfd now d = Some (t, d)" using settled_fill [OF assms(1)] by blast
  have none: "handle_c_client_event now' j EvNone x = Some x" for j x by (simp add: handle_c_client_event_def)
  have jn: "handle_java_bridge_event now' EvNone = Some" by (rule ext) (simp add: handle_java_bridge_event_def)
  have "i = 0 \<or> i = 1 \<or> i = 2" using assms(2) by auto
  moreover have b: "x \<bind> Some = x" for x :: "daemon_context option" by (cases x) simp_all
  ultimately show ?thesis
    using t assms(3) by (auto simp: bridge_iter_def events_ok_def client_poll_def bridge_handle_def conn_event_def none client_event_ok_def
        java_event_ok_def jn b)
qed

lemma iter_java:
  assumes "fill_pollfd now d = Some (t, d0)" "java_event_ok (java_ctx d0) e"
  shows "bridge_iter now now' (java_poll e) d = handle_java_bridge_event now' e d0"
  using assms by (simp add: bridge_iter_def events_ok_def java_poll_def bridge_handle_def conn_event_def client_event_ok_def handle_c_client_event_def)

section \<open>A message of a client\<close>

text \<open>The bytes of a client, in the pieces \<open>read\<close> returns them.\<close>

definition client_reads :: "nat \<Rightarrow> (timespec \<times> timespec \<times> 8 word list) list \<Rightarrow> (timespec \<times> timespec \<times> br_poll) list" where
  "client_reads i xs = map (\<lambda>(t, t', bs). (t, t', client_poll i (EvRead bs))) xs"

abbreviation (input) pieces :: "(timespec \<times> timespec \<times> 8 word list) list \<Rightarrow> 8 word list" where
  "pieces xs \<equiv> concat (map (\<lambda>(t, t', bs). bs) xs)"

abbreviation (input) no_empty :: "(timespec \<times> timespec \<times> 8 word list) list \<Rightarrow> bool" where
  "no_empty xs \<equiv> \<forall>(t, t', bs) \<in> set xs. bs \<noteq> []"

lemma main_append: "bridge_main (xs @ ys) d = do { d \<leftarrow> bridge_main xs d; bridge_main ys d }"
  by (induction xs d rule: bridge_main.induct) (auto simp: Option.bind_assoc split: bind_split)

lemma bind_main_nil [simp]: "x \<bind> bridge_main [] = x"
  by (cases x) simp_all

lemma settled_client: "settled (set_client i c d) = settled d" by (simp add: settled_def)

lemma header_pieces:
  assumes "xs \<noteq> []" "no_empty xs" "settled d" "i < 3" "i < length (client_ctx d)" "c_fd (client_ctx d ! i) \<ge> 0"
    and "msg_state (client_ctx d ! i) = MSG_STATE_IN_HDR" "data_to_read (client_ctx d ! i) = 8"
    and "data_read (client_ctx d ! i) + length (pieces xs) = 8" "length (msg_hdr (client_ctx d ! i)) \<ge> data_read (client_ctx d ! i)"
  defines "c \<equiv> client_ctx d ! i"
  shows "bridge_main (client_reads i xs) d =
    handle_header i (c\<lparr>c_input := c_input c @ pieces xs, msg_hdr := take (data_read c) (msg_hdr c) @ pieces xs, data_read := 8\<rparr>)
      (set_client i (c\<lparr>c_input := c_input c @ pieces xs, msg_hdr := take (data_read c) (msg_hdr c) @ pieces xs, data_read := 8\<rparr>) d)"
  using assms(1-10) unfolding c_def
proof (induction xs arbitrary: d)
  case (Cons x xs)
  obtain t t' bs where x: "x = (t, t', bs)" by (cases x)
  let ?c = "client_ctx d ! i"
  let ?v = "?c\<lparr>c_input := c_input ?c @ bs, msg_hdr := take (data_read ?c) (msg_hdr ?c) @ bs, data_read := data_read ?c + length bs\<rparr>"
  have bs: "bs \<noteq> []" "data_read ?c + length bs + length (pieces xs) = 8" using Cons.prems(2,9) x by auto
  have g: "array_get (client_ctx d) (int i) = Some ?c" using Cons.prems(5) by simp
  have s: "start_header t' ?c = ?c" using Cons.prems(7) by (simp add: start_header_def)
  have "client_event_ok ?c (EvRead bs)" using Cons.prems(6-8) bs by (simp add: client_event_ok_def room_def)
  from iter_client [OF Cons.prems(3,4) this, of t t']
  have it: "bridge_iter t t' (client_poll i (EvRead bs)) d =
      (if data_read ?c + length bs = 8 then handle_header i ?v (set_client i ?v d) else Some (set_client i ?v d))"
    using Cons.prems(7,8) bs(1) g s
    by (simp add: handle_c_client_event_def handle_c_client_read_def Let_def set_client_def split del: if_split cong del: if_weak_cong)
  show ?case
  proof (cases "xs = []")
    case True
    then have "data_read ?c + length bs = 8" using bs(2) by simp
    with True it x show ?thesis by (simp add: client_reads_def)
  next
    case False
    have ne: "no_empty xs" using Cons.prems(2) by auto
    then have "pieces xs \<noteq> []" using False by (cases xs) auto
    then have l: "data_read ?c + length bs \<noteq> 8" using bs(2) by auto
    let ?d = "set_client i ?v d"
    have c': "client_ctx ?d ! i = ?v" using Cons.prems(5) by simp
    have "bridge_main (client_reads i xs) ?d =
      handle_header i (?v\<lparr>c_input := c_input ?v @ pieces xs, msg_hdr := take (data_read ?v) (msg_hdr ?v) @ pieces xs, data_read := 8\<rparr>)
        (set_client i (?v\<lparr>c_input := c_input ?v @ pieces xs, msg_hdr := take (data_read ?v) (msg_hdr ?v) @ pieces xs, data_read := 8\<rparr>) ?d)"
      using Cons.IH [of ?d] False ne Cons.prems bs(2) unfolding c' by (simp add: settled_client min_def)
    moreover have "take (data_read ?v) (msg_hdr ?v) = take (data_read ?c) (msg_hdr ?c) @ bs"
      using Cons.prems(10) by simp
    ultimately show ?thesis using it l x by (simp add: client_reads_def set_client_def)
  qed
qed simp

lemma body_pieces:
  assumes "xs \<noteq> []" "no_empty xs" "settled d" "i < 3" "i < length (client_ctx d)" "c_fd (client_ctx d ! i) \<ge> 0"
    and "msg_state (client_ctx d ! i) = MSG_STATE_IN_MSG" "msg_buffer (client_ctx d ! i) = Buf b"
    and "data_read (client_ctx d ! i) + length (pieces xs) = data_to_read (client_ctx d ! i)"
    and "msg_to_string (be_word (drop 4 (msg_hdr (client_ctx d ! i)))) \<noteq> None"
  defines "c \<equiv> client_ctx d ! i"
  shows "bridge_main (client_reads i xs) d =
    Some (queue_msg (b @ pieces xs) (set_client i (c\<lparr>c_input := c_input c @ pieces xs, data_read := data_to_read c, msg_state := MSG_STATE_NONE, msg_buffer := NullBuf\<rparr>) d))"
  using assms(1-10) unfolding c_def
proof (induction xs arbitrary: d b)
  case (Cons x xs)
  obtain t t' bs where x: "x = (t, t', bs)" by (cases x)
  let ?c = "client_ctx d ! i"
  let ?v = "?c\<lparr>c_input := c_input ?c @ bs, msg_buffer := Buf (b @ bs), data_read := data_read ?c + length bs\<rparr>"
  have bs: "bs \<noteq> []" "data_read ?c + length bs + length (pieces xs) = data_to_read ?c" using Cons.prems(2,9) x by auto
  have g: "array_get (client_ctx d) (int i) = Some ?c" using Cons.prems(5) by simp
  have s: "start_header t' ?c = ?c" using Cons.prems(7) by (simp add: start_header_def)
  obtain m where m: "msg_to_string (be_word (drop 4 (msg_hdr ?c))) = Some m" using Cons.prems(10) by blast
  have "client_event_ok ?c (EvRead bs)" using Cons.prems(6,7) bs by (simp add: client_event_ok_def room_def)
  from iter_client [OF Cons.prems(3,4) this, of t t']
  have it: "bridge_iter t t' (client_poll i (EvRead bs)) d =
      (if data_read ?c + length bs = data_to_read ?c
       then Some (queue_msg (b @ bs) (set_client i (?v\<lparr>msg_state := MSG_STATE_NONE, msg_buffer := NullBuf\<rparr>) d))
       else Some (set_client i ?v d))"
    using Cons.prems(7,8) bs(1) g s m
    by (simp add: handle_c_client_event_def handle_c_client_read_def Let_def set_client_def split del: if_split cong del: if_weak_cong)
  show ?case
  proof (cases "xs = []")
    case True
    then have "data_read ?c + length bs = data_to_read ?c" using bs(2) by simp
    with True it x show ?thesis by (simp add: client_reads_def set_client_def)
  next
    case False
    have ne: "no_empty xs" using Cons.prems(2) by auto
    then have "pieces xs \<noteq> []" using False by (cases xs) auto
    then have l: "data_read ?c + length bs \<noteq> data_to_read ?c" using bs(2) by auto
    let ?d = "set_client i ?v d"
    have c': "client_ctx ?d ! i = ?v" using Cons.prems(5) by simp
    have "bridge_main (client_reads i xs) ?d =
      Some (queue_msg ((b @ bs) @ pieces xs) (set_client i (?v\<lparr>c_input := c_input ?v @ pieces xs, data_read := data_to_read ?v, msg_state := MSG_STATE_NONE, msg_buffer := NullBuf\<rparr>) ?d))"
      using Cons.IH [of ?d "b @ bs"] False ne Cons.prems bs(2) unfolding c' by (simp add: settled_client)
    then show ?thesis using it l x by (simp add: client_reads_def set_client_def)
  qed
qed simp

text \<open>A client between two messages.\<close>

definition client_idle :: "nat \<Rightarrow> daemon_context \<Rightarrow> bool" where
  "client_idle i d \<longleftrightarrow> i < 3 \<and> i < length (client_ctx d) \<and> c_fd (client_ctx d ! i) \<ge> 0 \<and> msg_state (client_ctx d ! i) = MSG_STATE_NONE"

lemma start_header_input [simp]: "c_input (start_header t c) = c_input c" by (simp add: start_header_def)

lemma first_piece:
  assumes "client_idle i d" "settled d" "bs \<noteq> []" "length bs \<le> 8"
  shows "bridge_iter t t' (client_poll i (EvRead bs)) d =
    bridge_iter t t' (client_poll i (EvRead bs)) (set_client i (start_header t' (client_ctx d ! i)) d)"
proof -
  let ?c = "start_header t' (client_ctx d ! i)"
  have c: "c_fd ?c \<ge> 0" "msg_state ?c = MSG_STATE_IN_HDR" "data_read ?c = 0" "data_to_read ?c = 8" "start_header t' ?c = ?c"
    using assms(1) by (simp_all add: client_idle_def start_header_def)
  have l: "i < 3" "i < length (client_ctx d)" using assms(1) by (simp_all add: client_idle_def)
  have ok: "client_event_ok (client_ctx d ! i) (EvRead bs)" "client_event_ok (client_ctx (set_client i ?c d) ! i) (EvRead bs)"
    using assms(1,4) c l by (simp_all add: client_event_ok_def room_def client_idle_def)
  have "handle_c_client_read t' i bs d = handle_c_client_read t' i bs (set_client i ?c d)"
    using l c(5) start_header_input [of t' "client_ctx d ! i"] by (simp add: handle_c_client_read_def) (simp add: set_client_def)
  then show ?thesis
    using iter_client [OF assms(2) l(1) ok(1)] iter_client [OF _ l(1) ok(2)] assms(2) by (simp add: settled_client handle_c_client_event_def)
qed

text \<open>
  A message that is neither a wakelock message nor too long, cut in any way that respects its header, is put in
  the queue behind a number of its own, and the client is ready for the next one.
\<close>

definition message_ok :: "8 word list \<Rightarrow> bool" where
  "message_ok m \<longleftrightarrow> length m > 8 \<and> length m - 8 < MAX_MSG_SIZE \<and> be_word (take 4 m) = word_of_nat (length m - 8) \<and>
     (be_word (take 4 (drop 4 m)) = 2 \<or> be_word (take 4 (drop 4 m)) = 3)"

lemma client_message:
  assumes "client_idle i d" "settled d" "message_ok m" "no_empty hs" "no_empty bs" "pieces hs = take 8 m" "pieces bs = drop 8 m"
  shows "\<exists>c. bridge_main (client_reads i (hs @ bs)) d =
      Some (queue_msg (be_bytes (msg_count (java_ctx d)) @ m) (set_client i c (set_java ((java_ctx d)\<lparr>msg_count := msg_count (java_ctx d) + 1\<rparr>) d))) \<and>
    c_fd c = c_fd (client_ctx d ! i) \<and> msg_state c = MSG_STATE_NONE \<and> msg_buffer c = NullBuf \<and> wakelock_cnt c = wakelock_cnt (client_ctx d ! i)"
proof -
  have m: "length m > 8" "length (take 8 m) = 8" "length m - 8 < 2048" using assms(3) by (simp_all add: message_ok_def)
  have ne: "hs \<noteq> []" "bs \<noteq> []" using assms(6,7) m by auto
  then obtain t t' h hs' where h: "hs = (t, t', h) # hs'" by (metis neq_Nil_conv prod_cases3)
  have hl: "h \<noteq> []" "length h \<le> 8" using assms(4,6) h m(2) by (auto dest!: arg_cong [where f = length])
  define c where "c = start_header t' (client_ctx d ! i)"
  let ?d = "set_client i c d"
  have l: "i < 3" "i < length (client_ctx d)" using assms(1) by (simp_all add: client_idle_def)
  have c: "c_fd c \<ge> 0" "msg_state c = MSG_STATE_IN_HDR" "data_read c = 0" "data_to_read c = 8" "c_fd c = c_fd (client_ctx d ! i)"
    "wakelock_cnt c = wakelock_cnt (client_ctx d ! i)"
    using assms(1) by (simp_all add: client_idle_def c_def start_header_def)
  define v where "v = c\<lparr>c_input := c_input c @ take 8 m, msg_hdr := take 8 m, data_read := 8\<rparr>"
  have "bridge_main (client_reads i hs) d = bridge_main (client_reads i hs) ?d"
    using first_piece [OF assms(1,2) hl] by (simp add: h client_reads_def c_def)
  also have "\<dots> = handle_header i v (set_client i v ?d)"
    using header_pieces [OF ne(1) assms(4), of ?d i] assms(2,6) c l m(2) by (simp add: settled_client v_def)
  finally have hdr: "bridge_main (client_reads i hs) d = handle_header i v (set_client i v d)" by (simp add: set_client_def)
  define n where "n = msg_count (java_ctx d)"
  define w where "w = v\<lparr>msg_buffer := Buf (be_bytes n @ take 8 m), data_read := 12, data_to_read := length m - 8 + 12, msg_state := MSG_STATE_IN_MSG\<rparr>"
  let ?e = "set_client i w (set_java ((java_ctx d)\<lparr>msg_count := n + 1\<rparr>) d)"
  have ty: "be_word (drop 4 (take 8 m)) = 2 \<or> be_word (drop 4 (take 8 m)) = 3" "be_word (take 4 (take 8 m)) = word_of_nat (length m - 8)"
    using assms(3) by (simp_all add: message_ok_def drop_take)
  have u: "unat (word_of_nat (length m - 8) :: 32 word) = length m - 8" using m(3) by (intro unat_word_of_nat_32) simp
  have "handle_header i v (set_client i v d) = Some ?e"
    using ty u m(3) by (auto simp: handle_header_def Let_def v_def w_def n_def set_client_def set_java_def)
  moreover have "bridge_main (client_reads i bs) ?e = Some (queue_msg ((be_bytes n @ take 8 m) @ pieces bs)
      (set_client i (w\<lparr>c_input := c_input w @ pieces bs, data_read := data_to_read w, msg_state := MSG_STATE_NONE, msg_buffer := NullBuf\<rparr>) ?e))"
  proof -
    have "settled ?e" using assms(2) by (simp add: settled_def java_busy_def Let_def)
    moreover have "msg_to_string (be_word (drop 4 (msg_hdr w))) \<noteq> None" using ty(1) by (auto simp: w_def v_def msg_to_string_def)
    moreover have "length (pieces bs) = length m - 8" using assms(7) by simp
    ultimately show ?thesis
      using body_pieces [OF ne(2) assms(5), of ?e i "be_bytes n @ take 8 m"] l c(1) by (simp add: w_def v_def)
  qed
  moreover have "(be_bytes n @ take 8 m) @ pieces bs = be_bytes n @ m" using assms(7) by simp
  ultimately have "bridge_main (client_reads i (hs @ bs)) d = Some (queue_msg (be_bytes n @ m)
      (set_client i (w\<lparr>c_input := c_input w @ pieces bs, data_read := data_to_read w, msg_state := MSG_STATE_NONE, msg_buffer := NullBuf\<rparr>) ?e))"
    using hdr main_append [of "client_reads i hs" "client_reads i bs" d] by (simp add: client_reads_def)
  then show ?thesis
    using c by (intro exI [of _ "w\<lparr>c_input := c_input w @ pieces bs, data_read := data_to_read w, msg_state := MSG_STATE_NONE, msg_buffer := NullBuf\<rparr>"])
      (simp add: n_def set_client_def set_java_def w_def v_def)
qed

section \<open>A message to the Java application\<close>

definition java_writes :: "(timespec \<times> timespec \<times> nat) list \<Rightarrow> (timespec \<times> timespec \<times> br_poll) list" where
  "java_writes xs = map (\<lambda>(t, t', n). (t, t', java_poll (EvWritten n))) xs"

definition java_reads :: "(timespec \<times> timespec \<times> 8 word list) list \<Rightarrow> (timespec \<times> timespec \<times> br_poll) list" where
  "java_reads xs = map (\<lambda>(t, t', bs). (t, t', java_poll (EvRead bs))) xs"

abbreviation (input) total :: "(timespec \<times> timespec \<times> nat) list \<Rightarrow> nat" where
  "total xs \<equiv> sum_list (map (\<lambda>(t, t', n). n) xs)"

text \<open>What the Java application receives.\<close>

definition java_bytes :: "bridge_io list \<Rightarrow> 8 word list" where
  "java_bytes xs = concat (map (\<lambda>x. case x of BrWrite fd bs \<Rightarrow> bs | _ \<Rightarrow> []) xs)"

definition sending :: "8 word list \<Rightarrow> daemon_context \<Rightarrow> bool" where
  "sending m d \<longleftrightarrow> (let j = java_ctx d in j_fd j \<ge> 0 \<and> \<not> wait_ack j \<and> msg_in_progress j \<and> java_msg_bytes j = Some m \<and>
     data_to_send j = length m \<and> data_sent j < length m)"

text \<open>The state once a message is sent and its acknowledgement is awaited.\<close>

definition sent :: "8 word list \<Rightarrow> timespec \<Rightarrow> daemon_context \<Rightarrow> daemon_context" where
  "sent m t d = set_java ((java_ctx d)\<lparr>data_sent := length m, wait_ack := True, wait_ack_count := be_word (take 4 m),
     msg_end := crm_time_add_ms t MAX_JAVA_ACK_DURATION, ack_reply := [], msg_in_progress := False\<rparr>) d"

lemma message_sent:
  assumes "xs \<noteq> []" "\<forall>(t, t', n) \<in> set xs. n > 0" "sending m d" "data_sent (java_ctx d) + total xs = length m"
  shows "\<exists>t io. bridge_main (java_writes xs) d = Some (sent m t (d\<lparr>bridge_io := bridge_io d @ io\<rparr>)) \<and>
    java_bytes io = drop (data_sent (java_ctx d)) m"
  using assms
proof (induction xs arbitrary: d)
  case (Cons x xs)
  obtain t t' n where x: "x = (t, t', n)" by (cases x)
  let ?j = "java_ctx d"
  have n: "n > 0" "data_sent ?j + n + total xs = length m" using Cons.prems(2,4) x by auto
  have s: "j_fd ?j \<ge> 0" "\<not> wait_ack ?j" "msg_in_progress ?j" "java_msg_bytes ?j = Some m" "data_to_send ?j = length m"
    using Cons.prems(3) by (simp_all add: sending_def Let_def)
  let ?w = "BrWrite (j_fd ?j) (take n (drop (data_sent ?j) m))"
  let ?k = "?j\<lparr>data_sent := data_sent ?j + n\<rparr>"
  have "settled d" using s(3) by (simp add: settled_def Let_def)
  then obtain tt where f: "fill_pollfd t d = Some (tt, d)" using settled_fill by blast
  have "java_event_ok ?j (EvWritten n)" using s n by (simp add: java_event_ok_def)
  from iter_java [OF f this, of t']
  have it: "bridge_iter t t' (java_poll (EvWritten n)) d =
      Some (if data_sent ?j + n = length m then sent m t' (br_emit ?w d) else set_java ?k (br_emit ?w d))"
    using n(1) s by (auto simp: handle_java_bridge_event_def java_write_def Let_def sent_def)
  have one: "java_bytes [?w] = take n (drop (data_sent ?j) m)" by (simp add: java_bytes_def)
  show ?case
  proof (cases "xs = []")
    case True
    then have e: "data_sent ?j + n = length m" using n(2) by simp
    then have "take n (drop (data_sent ?j) m) = drop (data_sent ?j) m" by (intro take_all) simp
    then show ?thesis
      using True it e one x by (intro exI [of _ t'] exI [of _ "[?w]"]) (simp add: java_writes_def br_emit_def)
  next
    case False
    have ne: "\<forall>(t, t', n) \<in> set xs. n > 0" using Cons.prems(2) by auto
    then have "total xs > 0" using False by (cases xs) auto
    then have l: "data_sent ?j + n \<noteq> length m" "data_sent ?j + n < length m" using n(2) by linarith+
    let ?d = "set_java ?k (br_emit ?w d)"
    have "java_msg_bytes ?k = java_msg_bytes ?j" by (cases "java_msg ?j") (simp_all add: java_msg_bytes_def)
    then have "sending m ?d" using s l by (simp add: sending_def Let_def)
    from Cons.IH [OF False ne this] n(2)
    obtain u io where io: "bridge_main (java_writes xs) ?d = Some (sent m u (?d\<lparr>bridge_io := bridge_io ?d @ io\<rparr>))"
      "java_bytes io = drop (data_sent ?j + n) m" by auto
    have "java_bytes (?w # io) = drop (data_sent ?j) m"
      using io(2) append_take_drop_id [of n "drop (data_sent ?j) m"] by (simp add: java_bytes_def add.commute)
    moreover have "sent m u (?d\<lparr>bridge_io := bridge_io ?d @ io\<rparr>) = sent m u (d\<lparr>bridge_io := bridge_io d @ ?w # io\<rparr>)"
      by (simp add: sent_def set_java_def br_emit_def)
    ultimately show ?thesis using it l(1) x io(1) by (intro exI [of _ u] exI [of _ "?w # io"]) (simp add: java_writes_def)
  qed
qed simp

text \<open>The acknowledgement, in pieces.\<close>

lemma java_read_append:
  "p \<noteq> [] \<Longrightarrow> java_read p (set_java ((java_ctx d)\<lparr>ack_reply := ack_reply (java_ctx d) @ bs\<rparr>) d) = java_read (bs @ p) d"
  by (simp add: java_read_def set_java_def Let_def cong: if_cong)

lemma java_read_last:
  assumes "p \<noteq> []" "length (ack_reply (java_ctx d)) + length p = 4"
  shows "java_read p d = (let j = (java_ctx d)\<lparr>ack_reply := ack_reply (java_ctx d) @ p\<rparr> in
    if be_word (ack_reply j) \<noteq> wait_ack_count j then handle_java_bridge_remove (set_java j d)
    else do { j \<leftarrow> java_acked j; Some (set_java j d) })"
  using assms by (simp add: java_read_def Let_def cong: if_cong)

lemma ack_pieces:
  assumes "xs \<noteq> []" "no_empty xs" "wait_ack (java_ctx d)" "j_fd (java_ctx d) \<ge> 0"
    and "length (ack_reply (java_ctx d) @ pieces xs) = 4"
  shows "bridge_main (java_reads xs) d = java_read (pieces xs) d"
  using assms
proof (induction xs arbitrary: d)
  case (Cons x xs)
  obtain t t' bs where x: "x = (t, t', bs)" by (cases x)
  let ?j = "java_ctx d"
  let ?k = "?j\<lparr>ack_reply := ack_reply ?j @ bs\<rparr>"
  have bs: "bs \<noteq> []" "length (ack_reply ?j) + length bs + length (pieces xs) = 4" using Cons.prems(2,5) x by auto
  have "settled d" using Cons.prems(3) by (simp add: settled_def Let_def)
  then obtain tt where f: "fill_pollfd t d = Some (tt, d)" using settled_fill by blast
  have "java_event_ok ?j (EvRead bs)" using Cons.prems(3,4) bs by (simp add: java_event_ok_def)
  from iter_java [OF f this, of t']
  have it: "bridge_iter t t' (java_poll (EvRead bs)) d = java_read bs d" by (simp add: handle_java_bridge_event_def)
  show ?case
  proof (cases "xs = []")
    case False
    have ne: "no_empty xs" using Cons.prems(2) by auto
    then have p: "pieces xs \<noteq> []" using False by (cases xs) auto
    then have "length (pieces xs) > 0" by blast
    then have "length (ack_reply ?j) + length bs \<noteq> 4" using bs(2) by linarith
    then have r: "java_read bs d = Some (set_java ?k d)" using bs(1) by (simp add: java_read_def Let_def)
    have "bridge_main (java_reads xs) (set_java ?k d) = java_read (pieces xs) (set_java ?k d)"
      using Cons.IH [OF False ne, of "set_java ?k d"] Cons.prems(3,4) bs(2) by simp
    also have "\<dots> = java_read (bs @ pieces xs) d" by (rule java_read_append [OF p])
    finally show ?thesis using it r x by (simp add: java_reads_def)
  qed (use it x in \<open>simp add: java_reads_def\<close>)
qed simp

lemma message_acked:
  assumes "xs \<noteq> []" "no_empty xs" "wait_ack (java_ctx d)" "j_fd (java_ctx d) \<ge> 0"
    and "ack_reply (java_ctx d) @ pieces xs = be_bytes (wait_ack_count (java_ctx d))"
  shows "bridge_main (java_reads xs) d =
    do { j \<leftarrow> java_acked ((java_ctx d)\<lparr>ack_reply := be_bytes (wait_ack_count (java_ctx d))\<rparr>); Some (set_java j d) }"
proof -
  have ne: "pieces xs \<noteq> []" using assms(1,2) by (cases xs) auto
  have l: "length (ack_reply (java_ctx d) @ pieces xs) = 4" unfolding assms(5) by simp
  show ?thesis
    unfolding ack_pieces [OF assms(1-4) l] java_read_last [OF ne l [unfolded length_append]] Let_def by (simp add: assms(5))
qed

text \<open>The first message of the queue of an idle daemon, started when there is nothing to do about the wakelock.\<close>

definition java_idle :: "daemon_context \<Rightarrow> bool" where
  "java_idle d \<longleftrightarrow> (let j = java_ctx d in j_fd j \<ge> 0 \<and> \<not> wait_ack j \<and> \<not> msg_in_progress j)"

definition named_msg :: "8 word list \<Rightarrow> bool" where
  "named_msg m \<longleftrightarrow> length m \<ge> 12 \<and> msg_to_string (be_word (take 4 (drop 8 m))) \<noteq> None"

lemma start_queued:
  assumes "java_idle d" "msg_queue (java_ctx d) = (m, r) # q" "j_wakelock_held (java_ctx d) = d_wakelock_held d" "named_msg m"
  shows "\<exists>tt. fill_pollfd t d = Some (tt, set_java ((java_ctx d)\<lparr>msg_in_progress := True, data_sent := 0,
    msg_end := crm_time_add_ms t MAX_JAVA_MSG_DURATION, data_to_send := length m, java_msg := JHead\<rparr>) d)"
proof -
  have n: "msg_command m = Some (be_word (take 4 (drop 8 m)))" "\<exists>s. msg_to_string (be_word (take 4 (drop 8 m))) = Some s"
    using assms(4) by (auto simp: named_msg_def msg_command_def)
  then show ?thesis
    using assms(1-3) by (auto simp: java_idle_def Let_def fill_pollfd_def fill_java_def java_busy_def start_java_msg_def log_java_msg_def java_msg_bytes_def)
qed

lemma start_wakelock:
  assumes "java_idle d" "j_wakelock_held (java_ctx d) \<noteq> d_wakelock_held d"
  defines "m \<equiv> be_bytes (msg_count (java_ctx d)) @ be_bytes 0 @ be_bytes (if d_wakelock_held d then 0 else 1)"
  shows "\<exists>tt. fill_pollfd t d = Some (tt, set_java ((java_ctx d)\<lparr>msg_in_progress := True, data_sent := 0,
    msg_end := crm_time_add_ms t MAX_JAVA_MSG_DURATION, data_to_send := 12, java_msg := JWakelock, wakelock_msg := m,
    msg_count := msg_count (java_ctx d) + 1\<rparr>) d)"
proof -
  have l: "drop 8 m = be_bytes (if d_wakelock_held d then 0 else 1)" "length m = 12" by (simp_all add: m_def)
  have n: "msg_command m = Some (if d_wakelock_held d then 0 else 1)" unfolding msg_command_def l by simp
  show ?thesis
    using assms(1,2) n by (simp add: java_idle_def Let_def fill_pollfd_def fill_java_def java_busy_def start_java_msg_def log_java_msg_def
        java_msg_bytes_def m_def [symmetric] msg_to_string_def)
qed

text \<open>
  The iteration that starts a message also writes its first bytes. After it, and after a first iteration that
  only starts it, the rest is the same.
\<close>

lemma writes_after_fill:
  assumes "fill_pollfd t d = Some (tt, e)" "sending m e" "xs = (t, t', n) # ys" "n > 0" "n \<le> length m"  "data_sent (java_ctx e) = 0"
  shows "bridge_main (java_writes xs) d = bridge_main (java_writes xs) e"
proof -
  have s: "j_fd (java_ctx e) \<ge> 0" "\<not> wait_ack (java_ctx e)" "msg_in_progress (java_ctx e)" "data_to_send (java_ctx e) = length m"
    using assms(2) by (simp_all add: sending_def Let_def)
  have ok: "java_event_ok (java_ctx e) (EvWritten n)" using s assms(5,6) by (simp add: java_event_ok_def)
  have "settled e" using s(3) by (simp add: settled_def Let_def)
  then obtain u where "fill_pollfd t e = Some (u, e)" using settled_fill by blast
  from iter_java [OF this ok, of t'] iter_java [OF assms(1) ok, of t'] show ?thesis by (simp add: assms(3) java_writes_def)
qed

lemma exchange:
  assumes "\<And>t. \<exists>tt u. fill_pollfd t d = Some (tt, e u)" "\<And>u. sending m (e u)" "\<And>u. data_sent (java_ctx (e u)) = 0" "m = be_bytes num @ rest"
    and "\<forall>(t, t', n) \<in> set ws. n > 0" "total ws = length m" "no_empty as" "pieces as = be_bytes num"
  shows "\<exists>u v io. java_bytes io = m \<and> bridge_main (java_writes ws @ java_reads as) d =
    (let s = sent m v ((e u)\<lparr>bridge_io := bridge_io (e u) @ io\<rparr>)
     in do { j \<leftarrow> java_acked ((java_ctx s)\<lparr>ack_reply := be_bytes num\<rparr>); Some (set_java j s) })"
proof -
  have len: "length m \<ge> 4" using assms(4) by simp
  have ne: "ws \<noteq> []" using assms(6) len by auto
  then obtain t t' n ys where ws: "ws = (t, t', n) # ys" by (metis neq_Nil_conv prod_cases3)
  have n: "n > 0" "n \<le> length m" using assms(5,6) by (auto simp: ws)
  obtain tt u where f: "fill_pollfd t d = Some (tt, e u)" using assms(1) by blast
  obtain v io where io: "bridge_main (java_writes ws) (e u) = Some (sent m v ((e u)\<lparr>bridge_io := bridge_io (e u) @ io\<rparr>))" "java_bytes io = m"
    using message_sent [OF ne assms(5) assms(2) [of u]] assms(3,6) by auto
  let ?s = "sent m v ((e u)\<lparr>bridge_io := bridge_io (e u) @ io\<rparr>)"
  have w: "bridge_main (java_writes ws) d = Some ?s" using writes_after_fill [OF f assms(2) ws n assms(3)] io(1) by simp
  have "pieces as \<noteq> []" using assms(8) length_be_bytes [of num] by (metis list.size(3) zero_neq_numeral)
  then have a: "as \<noteq> []" by auto
  have "j_fd (java_ctx (e u)) \<ge> 0" using assms(2) [of u] by (simp add: sending_def Let_def)
  then have "bridge_main (java_reads as) ?s = do { j \<leftarrow> java_acked ((java_ctx ?s)\<lparr>ack_reply := be_bytes num\<rparr>); Some (set_java j ?s) }"
    using message_acked [OF a assms(7), of ?s] assms(4,8) by (simp add: sent_def)
  with w io(2) show ?thesis by (intro exI [of _ u] exI [of _ v] exI [of _ io]) (simp add: main_append Let_def)
qed

lemma queued_delivered:
  assumes "java_idle d" "msg_queue (java_ctx d) = (m, r) # q" "j_wakelock_held (java_ctx d) = d_wakelock_held d" "named_msg m"
    and "\<forall>(t, t', n) \<in> set ws. n > 0" "total ws = length m" "no_empty as" "m = be_bytes num @ rest" "pieces as = be_bytes num"
  shows "\<exists>j io. bridge_main (java_writes ws @ java_reads as) d = Some (set_java j (d\<lparr>bridge_io := bridge_io d @ io\<rparr>)) \<and> java_bytes io = m \<and>
    msg_queue j = q \<and> j_fd j = j_fd (java_ctx d) \<and> \<not> wait_ack j \<and> \<not> msg_in_progress j \<and> j_wakelock_held j = j_wakelock_held (java_ctx d) \<and>
    java_msg j = JFreed"
proof -
  define e where "e u = set_java ((java_ctx d)\<lparr>msg_in_progress := True, data_sent := 0, msg_end := u, data_to_send := length m, java_msg := JHead\<rparr>) d" for u
  have "m \<noteq> []" using assms(4) by (auto simp: named_msg_def)
  then have s: "sending m (e u)" "data_sent (java_ctx (e u)) = 0" for u
    using assms(1,2) by (simp_all add: e_def sending_def java_idle_def Let_def java_msg_bytes_def)
  have "\<exists>tt u. fill_pollfd t d = Some (tt, e u)" for t using start_queued [OF assms(1-4), of t] unfolding e_def by blast
  from exchange [OF this s assms(8,5-7,9)]
  obtain u v io where io: "java_bytes io = m" "bridge_main (java_writes ws @ java_reads as) d =
    (let s = sent m v ((e u)\<lparr>bridge_io := bridge_io (e u) @ io\<rparr>)
     in do { j \<leftarrow> java_acked ((java_ctx s)\<lparr>ack_reply := be_bytes num\<rparr>); Some (set_java j s) })" by blast
  let ?s = "sent m v ((e u)\<lparr>bridge_io := bridge_io (e u) @ io\<rparr>)"
  let ?a = "(java_ctx ?s)\<lparr>ack_reply := be_bytes num, wait_ack := False, msg_queue := q, java_msg := JFreed\<rparr>"
  have "java_acked ((java_ctx ?s)\<lparr>ack_reply := be_bytes num\<rparr>) = Some ?a" using assms(2) by (simp add: java_acked_def Let_def sent_def e_def)
  then have "bridge_main (java_writes ws @ java_reads as) d = Some (set_java ?a ?s)" using io(2) by (simp add: Let_def)
  moreover have "set_java ?a ?s = set_java ?a (d\<lparr>bridge_io := bridge_io d @ io\<rparr>)" by (simp add: set_java_def sent_def e_def)
  ultimately show ?thesis
    using io(1) by (intro exI [of _ ?a] exI [of _ io]) (simp add: sent_def e_def)
qed

section \<open>Properties\<close>

text \<open>
  C28: the Java application gets to know about the wakelock. As soon as the daemon is not waiting for anything
  else, a wakelock other than the one the application holds is the next message, before those in the queue;
  however the socket cuts the message and its acknowledgement, what the application receives is the command
  for the wakelock the clients need, and afterwards both agree.
\<close>

theorem bridge_wakelock_reaches_java:
  assumes "java_idle d" "j_wakelock_held (java_ctx d) \<noteq> d_wakelock_held d"
    and "\<forall>(t, t', n) \<in> set ws. n > 0" "total ws = 12" "no_empty as" "pieces as = be_bytes (msg_count (java_ctx d))"
  shows "\<exists>d' io. bridge_main (java_writes ws @ java_reads as) d = Some d' \<and> bridge_io d' = bridge_io d @ io \<and>
    java_bytes io = be_bytes (msg_count (java_ctx d)) @ be_bytes 0 @ be_bytes (if d_wakelock_held d then 0 else 1) \<and>
    j_wakelock_held (java_ctx d') = d_wakelock_held d' \<and> d_wakelock_held d' = d_wakelock_held d \<and>
    msg_queue (java_ctx d') = msg_queue (java_ctx d) \<and> java_idle d'"
proof -
  define num where "num = msg_count (java_ctx d)"
  define cmd :: "32 word" where "cmd = (if d_wakelock_held d then 0 else 1)"
  define m where "m = be_bytes num @ be_bytes 0 @ be_bytes cmd"
  have len: "length m = 12" by (simp add: m_def)
  define e where "e u = set_java ((java_ctx d)\<lparr>msg_in_progress := True, data_sent := 0, msg_end := u, data_to_send := 12, java_msg := JWakelock,
    wakelock_msg := m, msg_count := msg_count (java_ctx d) + 1\<rparr>) d" for u
  have ne: "m \<noteq> []" using len by auto
  have s: "sending m (e u)" "data_sent (java_ctx (e u)) = 0" for u
    using assms(1) len ne by (simp_all add: e_def sending_def java_idle_def Let_def java_msg_bytes_def)
  have fl: "\<exists>tt u. fill_pollfd t d = Some (tt, e u)" for t
    using start_wakelock [OF assms(1,2), of t] unfolding e_def m_def num_def cmd_def by blast
  have p: "total ws = length m" "pieces as = be_bytes num" using assms(4,6) len by (simp_all add: num_def)
  from exchange [OF fl s m_def assms(3) p(1) assms(5) p(2)]
  obtain u v io where io: "java_bytes io = m" "bridge_main (java_writes ws @ java_reads as) d =
    (let s = sent m v ((e u)\<lparr>bridge_io := bridge_io (e u) @ io\<rparr>)
     in do { j \<leftarrow> java_acked ((java_ctx s)\<lparr>ack_reply := be_bytes num\<rparr>); Some (set_java j s) })" by blast
  let ?s = "sent m v ((e u)\<lparr>bridge_io := bridge_io (e u) @ io\<rparr>)"
  let ?a = "(java_ctx ?s)\<lparr>ack_reply := be_bytes num, wait_ack := False, j_wakelock_held := d_wakelock_held d\<rparr>"
  have "drop 8 m = be_bytes cmd" by (simp add: m_def)
  then have "msg_command m = Some cmd" using len by (simp add: msg_command_def)
  then have "java_acked ((java_ctx ?s)\<lparr>ack_reply := be_bytes num\<rparr>) = Some ?a" by (simp add: java_acked_def Let_def sent_def e_def cmd_def)
  then have "bridge_main (java_writes ws @ java_reads as) d = Some (set_java ?a ?s)" using io(2) by (simp add: Let_def)
  moreover have "set_java ?a ?s = set_java ?a (d\<lparr>bridge_io := bridge_io d @ io\<rparr>)" by (simp add: set_java_def sent_def e_def)
  ultimately show ?thesis
    using io(1) assms(1) by (intro exI [of _ "set_java ?a ?s"] exI [of _ io]) (simp add: sent_def e_def m_def num_def cmd_def java_idle_def Let_def)
qed

lemma enc_values_nonempty: "ys \<noteq> [] \<Longrightarrow> enc_values ys \<noteq> []"
proof (cases ys)
  case (Cons y ys')
  have "enc_value y \<noteq> []" using length_enc_value [of y] by (metis add_is_0 list.size(3) numeral_eq_iff zero_neq_numeral)
  then show ?thesis by (simp add: Cons enc_values_def)
qed simp

lemma sent_message_ok:
  assumes "wr = be_bytes (word_of_nat (length (enc_values ys))) @ be_bytes (word_of_int cmd) @ enc_values ys" "ys \<noteq> []"
    and "length (enc_values ys) < MAX_MSG_SIZE" "cmd = 2 \<or> cmd = 3"
  shows "message_ok wr" "named_msg (be_bytes n @ wr)"
proof -
  have c: "be_word (take 4 (drop 4 wr)) = word_of_int cmd" "take 4 (drop 8 (be_bytes n @ wr)) = be_bytes (word_of_int cmd)" by (simp_all add: assms(1))
  show "message_ok wr" using c(1) assms enc_values_nonempty [of ys] by (auto simp: message_ok_def)
  show "named_msg (be_bytes n @ wr)" unfolding named_msg_def c(2) using assms(1,4) by (auto simp: msg_to_string_def)
qed

text \<open>
  C26: an intent or a service request goes through. What a client asks the library for, written over a socket that
  cuts it anywhere, read by the daemon, written to the Java application over a socket that cuts it anywhere, is
  read there as the request of the call, with its values; the acknowledgement the application answers with, cut anywhere,
  is the number of the message, and afterwards the queue is empty and the client can send the next message. The application reads characters, not
  bytes: this holds when all the bytes of the message, its number, its lengths and the integers among its values included, are below 128.
\<close>

theorem bridge_end_to_end:
  assumes "known_call cmd p1 p2 f vs" "format_values f vs = Some xs" "ys = opt_values p1 @ opt_values p2 @ xs" "length (enc_values ys) < MAX_MSG_SIZE"
    and "tel_fd c \<ge> 0" "tel_send_msg c cmd p1 p2 f vs ps = Some (0, wr)"
    and "client_idle i d" "java_idle d" "msg_queue (java_ctx d) = []" "j_wakelock_held (java_ctx d) = d_wakelock_held d"
    and "no_empty hs" "no_empty bs" "pieces hs = take 8 wr" "pieces bs = drop 8 wr"
    and "\<forall>(t, t', n) \<in> set ws. n > 0" "total ws = length wr + 4" "no_empty as"
    and "\<forall>jc ack. java_message cs (be_bytes (msg_count (java_ctx d)) @ wr) = Some (jc, ack) \<longrightarrow> pieces as = ack"
    and "ascii_charset cs" "ascii (be_bytes (msg_count (java_ctx d)) @ wr)"
  shows "\<exists>d' io jc. bridge_main (client_reads i (hs @ bs) @ java_writes ws @ java_reads as) d = Some d' \<and> bridge_io d' = bridge_io d @ io \<and>
    call_of cmd ys = Some jc \<and> java_message cs (java_bytes io) = Some (jc, be_bytes (msg_count (java_ctx d))) \<and>
    msg_queue (java_ctx d') = [] \<and> java_idle d' \<and> client_idle i d'"
proof -
  have wr: "wr = be_bytes (word_of_nat (length (enc_values ys))) @ be_bytes (word_of_int cmd) @ enc_values ys"
    using tel_sent [OF assms(2,3,5), of cmd ps] assms(6) by auto
  define num where "num = msg_count (java_ctx d)"
  have cmd: "cmd = 2 \<or> cmd = 3" "ys \<noteq> []" using assms(1,3) by (auto simp: known_call_def opt_values_def)
  note ok = sent_message_ok [OF wr cmd(2) assms(4) cmd(1)]
  have "decode cs (be_bytes num @ wr) = map ucast (be_bytes num @ wr)" "ascii (be_bytes num)"
    using assms(19,20) by (auto simp: ascii_charset_def num_def ascii_def)
  then have dec: "decode cs (be_bytes num @ wr) =
      map ucast (be_bytes num) @ map ucast (be_bytes (word_of_nat (length (enc_values ys))) @ be_bytes (word_of_int cmd) @ enc_values ys)"
    and enc: "encode cs (map ucast (be_bytes num)) = be_bytes num"
    using assms(19) by (simp_all add: wr ascii_charset_def)
  obtain jc where jc: "call_of cmd ys = Some jc" "java_message cs (be_bytes num @ wr) = Some (jc, be_bytes num)"
    using java_message_eq [OF dec _ _ assms(1-3)] assms(4) enc by auto
  then have as: "pieces as = be_bytes num" using assms(18) by (simp add: num_def)
  have "settled d" using assms(8-10) by (simp add: settled_def java_idle_def java_busy_def Let_def)
  from client_message [OF assms(7) this ok(1) assms(11-14)]
  obtain cl where cl: "bridge_main (client_reads i (hs @ bs)) d =
      Some (queue_msg (be_bytes num @ wr) (set_client i cl (set_java ((java_ctx d)\<lparr>msg_count := num + 1\<rparr>) d)))"
    "c_fd cl = c_fd (client_ctx d ! i)" "msg_state cl = MSG_STATE_NONE" unfolding num_def by blast
  define d1 where "d1 = queue_msg (be_bytes num @ wr) (set_client i cl (set_java ((java_ctx d)\<lparr>msg_count := num + 1\<rparr>) d))"
  have j: "java_idle d1" "msg_queue (java_ctx d1) = [(be_bytes num @ wr, 0)]" "j_wakelock_held (java_ctx d1) = d_wakelock_held d1"
    using assms(8-10) by (simp_all add: d1_def queue_msg_def Let_def java_idle_def)
  have tot: "total ws = length (be_bytes num @ wr)" using assms(16) by simp
  from queued_delivered [OF j ok(2) assms(15) tot assms(17) refl as]
  obtain k io where k: "bridge_main (java_writes ws @ java_reads as) d1 = Some (set_java k (d1\<lparr>bridge_io := bridge_io d1 @ io\<rparr>))"
    "java_bytes io = be_bytes num @ wr" "msg_queue k = []" "j_fd k = j_fd (java_ctx d1)" "\<not> wait_ack k" "\<not> msg_in_progress k"
    by blast
  let ?d = "set_java k (d1\<lparr>bridge_io := bridge_io d1 @ io\<rparr>)"
  have "bridge_main (client_reads i (hs @ bs) @ java_writes ws @ java_reads as) d = Some ?d"
    using cl(1) k(1) by (simp add: main_append [of "client_reads i (hs @ bs)"] d1_def)
  moreover have "bridge_io ?d = bridge_io d @ io" by (simp add: d1_def queue_msg_def Let_def)
  moreover have "java_idle ?d" using k j(1) by (simp add: java_idle_def Let_def)
  moreover have "client_idle i ?d"
    using assms(7) cl(2,3) by (simp add: client_idle_def d1_def queue_msg_def Let_def)
  ultimately show ?thesis using k(2,3) jc unfolding num_def [symmetric] by (intro exI [of _ ?d] exI [of _ io] exI [of _ jc]) simp
qed


lemma acked_freed: "java_acked j = Some k \<Longrightarrow> java_msg j \<noteq> JWakelock \<Longrightarrow> java_msg k = JFreed"
  by (cases "msg_queue j") (auto simp: java_acked_def Let_def)

text \<open>
  The daemon does not survive the Java application. When the last message was one of the queue and has
  been acknowledged, or when there was no message yet, the end of the connection finds the message pointer
  neither at the wakelock message nor at a message of the queue, and the assertion that there is one fails.
\<close>

theorem bridge_java_disconnect_aborts:
  assumes "java_acked j = Some (java_ctx d)" "java_msg j \<noteq> JWakelock" "msg_queue (java_ctx d) = []" "j_fd (java_ctx d) \<ge> 0"
    and "\<not> msg_in_progress (java_ctx d)" "j_wakelock_held (java_ctx d) = d_wakelock_held d" "s \<ge> 0"
  shows "bridge_iter t t' (java_poll EvError) d = None \<and>
    bridge_main [(t, t', BrEvents EvNone (EvAccept s) EvNone EvNone EvNone EvNone), (u, u', java_poll EvError)] (bridge_init cg jg) = None"
proof -
  have m: "java_msg (java_ctx d) = JFreed"
    using acked_freed [OF assms(1,2)] .
  have "settled d" using assms(3,5,6) by (simp add: settled_def java_busy_def Let_def)
  then obtain tt where f: "fill_pollfd t d = Some (tt, d)" using settled_fill by blast
  have "java_event_ok (java_ctx d) EvError" using assms(4) by (simp add: java_event_ok_def)
  from iter_java [OF f this, of t'] have "bridge_iter t t' (java_poll EvError) d = None"
    using m assms(3) by (simp add: handle_java_bridge_event_def handle_java_bridge_remove_def count_retry_def Let_def)
  moreover have "bridge_main [(t, t', BrEvents EvNone (EvAccept s) EvNone EvNone EvNone EvNone), (u, u', java_poll EvError)] (bridge_init cg jg) = None"
    using assms(7) by (simp add: bridge_iter_def fill_pollfd_def Let_def fill_java_def bridge_init_def events_ok_def client_event_ok_def java_event_ok_def
        bridge_handle_def conn_event_def handle_c_client_event_def handle_java_bridge_event_def handle_java_bridge_conn_def java_busy_def java_poll_def
        handle_java_bridge_remove_def count_retry_def)
  ultimately show ?thesis by blast
qed

text \<open>
  A client that leaves in the middle of a message breaks the next one. Its buffer is freed but the pointer
  is kept; when the next client that gets the slot leaves before it has sent a message of its own, the buffer
  is freed a second time.
\<close>

theorem bridge_double_free:
  assumes "settled d" "i < 3" "i < length (client_ctx d)" "c_fd (client_ctx d ! i) \<ge> 0" "msg_buffer (client_ctx d ! i) = Buf b"
    and "wakelock_cnt (client_ctx d ! i) = 0" "\<forall>j < i. c_fd (client_ctx d ! j) \<noteq> -1" "s \<ge> 0"
  shows "bridge_main [(t1, t1', client_poll i EvError), (t2, t2', BrEvents (EvAccept s) EvNone EvNone EvNone EvNone EvNone),
    (t3, t3', client_poll i EvError)] d = None"
proof -
  let ?c = "client_ctx d ! i"
  let ?v = "?c\<lparr>c_fd := -1, msg_buffer := Dangling\<rparr>"
  let ?w = "?v\<lparr>c_fd := s, msg_state := MSG_STATE_NONE, wakelock_cnt := 0, c_input := []\<rparr>"
  define d1 where "d1 = set_client i ?v (br_emit (BrClose (c_fd ?c)) d)"
  define d2 where "d2 = set_client i ?w d1"
  have st: "settled d1" "settled d2" using assms(1) by (simp_all add: settled_def d1_def d2_def Let_def)
  have i1: "bridge_iter t1 t1' (client_poll i EvError) d = Some d1"
    using iter_client [OF assms(1,2), of EvError] assms(3-6)
    by (simp add: client_event_ok_def handle_c_client_event_def handle_c_client_remove_def free_buffer_def d1_def Let_def)
  have c1: "client_ctx d1 ! i = ?v" "length (client_ctx d1) = length (client_ctx d)" "\<forall>j < i. c_fd (client_ctx d1 ! j) \<noteq> -1"
    using assms(3,7) by (simp_all add: d1_def)
  have "find (\<lambda>j. c_fd (client_ctx d1 ! j) = -1) [0..<length (client_ctx d1)] = Some i"
    using c1 assms(3) by (auto simp: find_Some_iff)
  then have conn: "handle_c_client_conn s d1 = d2" using assms(8) c1(1) by (simp add: handle_c_client_conn_def d2_def)
  obtain tt where "fill_pollfd t2 d1 = Some (tt, d1)" using settled_fill [OF st(1)] by blast
  then have i2: "bridge_iter t2 t2' (BrEvents (EvAccept s) EvNone EvNone EvNone EvNone EvNone) d1 = Some d2"
    using conn by (simp add: bridge_iter_def events_ok_def client_event_ok_def java_event_ok_def bridge_handle_def conn_event_def handle_c_client_event_def
        handle_java_bridge_event_def)
  have c2: "client_ctx d2 ! i = ?w" "i < length (client_ctx d2)" using assms(3) by (simp_all add: d2_def d1_def)
  have i3: "bridge_iter t3 t3' (client_poll i EvError) d2 = None"
    using iter_client [OF st(2) assms(2), of EvError] assms(8) c2
    by (simp add: client_event_ok_def handle_c_client_event_def handle_c_client_remove_def free_buffer_def)
  show ?thesis using i1 i2 i3 by simp
qed

section \<open>Examples\<close>

definition br_t :: timespec where "br_t = \<lparr>tv_sec = 1, tv_nsec = 0\<rparr>"

definition br_garbage_client :: client_context where
  "br_garbage_client = \<lparr>c_fd = 0, msg_state = MSG_STATE_NONE, msg_hdr = [], msg_buffer = NullBuf, data_read = 0, data_to_read = 0,
     wakelock_cnt = 0, msg_read_end = br_t, c_input = []\<rparr>"

definition br_garbage_java :: java_context where
  "br_garbage_java = \<lparr>j_fd = 0, msg_count = 0, msg_end = br_t, msg_in_progress = False, msg_queue = [], wakelock_msg = [], java_msg = JUnset,
     data_to_send = 0, data_sent = 0, j_wakelock_held = False, wait_ack = False, wait_ack_count = 0, ack_reply = []\<rparr>"

text \<open>A client and the Java application have connected.\<close>

definition br_demo :: daemon_context where
  "br_demo = handle_java_bridge_conn 9 (handle_c_client_conn 7 (bridge_init br_garbage_client br_garbage_java))"

lemma br_demo_eq:
  "client_ctx br_demo = [br_garbage_client\<lparr>c_fd := 7\<rparr>, br_garbage_client\<lparr>c_fd := -1\<rparr>, br_garbage_client\<lparr>c_fd := -1\<rparr>]"
  "java_ctx br_demo = br_garbage_java\<lparr>j_fd := 9\<rparr>" "d_wakelock_held br_demo = False"
  by code_simp+

text \<open>The client acquires the wakelock in two pieces.\<close>

definition br_demo_acquire :: "(timespec \<times> timespec \<times> br_poll) list" where
  "br_demo_acquire =
     [(br_t, br_t, BrEvents (EvAccept 7) EvNone EvNone EvNone EvNone EvNone), (br_t, br_t, BrEvents EvNone (EvAccept 9) EvNone EvNone EvNone EvNone),
      (br_t, br_t, client_poll 0 (EvRead [0, 0, 0])), (br_t, br_t, client_poll 0 (EvRead [0, 0, 0, 0, 0]))]"

lemma br_demo_acquired:
  "map_option (\<lambda>d. (map wakelock_cnt (client_ctx d), d_wakelock_held d)) (bridge_main br_demo_acquire (bridge_init br_garbage_client br_garbage_java)) =
   Some ([1, 0, 0], True)"
  by code_simp

theorem bridge_wakelock_exact_witness:
  "\<exists>d mss. bridge_main br_demo_acquire (bridge_init br_garbage_client br_garbage_java) = Some d \<and> d_wakelock_held d \<and>
     (\<exists>i < MAX_CLIENTS. c_fd (client_ctx d ! i) \<noteq> -1 \<and> net_acquired (mss ! i) > 0)"
proof -
  obtain d where d: "bridge_main br_demo_acquire (bridge_init br_garbage_client br_garbage_java) = Some d" "d_wakelock_held d"
    using br_demo_acquired by auto
  from bridge_wakelock_exact [OF d(1)] d show ?thesis by blast
qed

theorem bridge_wakelock_reaches_java_witness:
  "\<exists>d' io. bridge_main (java_writes [(br_t, br_t, 5), (br_t, br_t, 7)] @ java_reads [(br_t, br_t, [0]), (br_t, br_t, [0, 0, 0])]) (br_demo\<lparr>d_wakelock_held := True\<rparr>) =
     Some d' \<and> java_bytes io = [0, 0, 0, 0, 0, 0, 0, 0, 0, 0, 0, 0] \<and> j_wakelock_held (java_ctx d')"
proof -
  have z: "be_bytes 0 = [0, 0, 0, 0]" by code_simp
  have j: "java_idle (br_demo\<lparr>d_wakelock_held := True\<rparr>)" "msg_count (java_ctx br_demo) = 0" "\<not> j_wakelock_held (java_ctx br_demo)"
    by (simp_all add: java_idle_def br_demo_eq br_garbage_java_def)
  from bridge_wakelock_reaches_java [OF j(1), of "[(br_t, br_t, 5), (br_t, br_t, 7)]" "[(br_t, br_t, [0]), (br_t, br_t, [0, 0, 0])]"] j(2,3)
  show ?thesis by (simp add: z) metis
qed

definition br_demo_service :: "8 word list" where
  "br_demo_service = [0, 0, 0, 18, 0, 0, 0, 2, 0, 0, 0, 1, 0, 0, 0, 1, 112, 0, 0, 0, 1, 0, 0, 0, 1, 99]"

lemma br_demo_service_sent: "start_service \<lparr>tel_fd = 3\<rparr> [112] [99] [TpWrote 26] = Some (0, br_demo_service)"
  by code_simp

text \<open>A character set that replaces every byte from 128 on.\<close>

definition br_demo_charset :: charset where
  "br_demo_charset = \<lparr>decode = map (\<lambda>b. if b < 128 then ucast b else 0xFFFD),
     encode = (\<lambda>cs. concat (map (\<lambda>c. if c < 128 then [ucast c] else [0xEF, 0xBF, 0xBD]) cs))\<rparr>"

lemma ucast_small: "b < 128 \<Longrightarrow> ucast b < (128 :: 16 word) \<and> ucast (ucast b :: 16 word) = b" for b :: "8 word"
proof
  assume b: "b < 128"
  have "unat b < 2 ^ 16" using unsigned_less [of b, where ?'a = nat] by simp
  then have "unat (ucast b :: 16 word) = unat b" by (simp add: unsigned_ucast_eq take_bit_nat_eq_self)
  then show "ucast b < (128 :: 16 word)" using b by (simp add: word_less_nat_alt)
  show "ucast (ucast b :: 16 word) = b" by (rule bit_word_eqI) (simp add: bit_simps)
qed

lemma br_demo_ascii: "ascii bs \<Longrightarrow> encode br_demo_charset (map ucast bs @ cs) = bs @ encode br_demo_charset cs"
  by (induction bs) (auto simp: br_demo_charset_def ascii_def ucast_small)

lemma br_demo_utf8: "utf8_charset br_demo_charset"
proof -
  have d: "decode br_demo_charset (bs @ cs) = map ucast bs @ decode br_demo_charset cs" if "ascii bs" for bs cs
    using that by (auto simp: br_demo_charset_def ascii_def)
  have n: "decode br_demo_charset [] = []" "encode br_demo_charset [] = []" by (simp_all add: br_demo_charset_def)
  have c: "decode br_demo_charset (b # bs) = 0xFFFD # decode br_demo_charset bs" if "128 \<le> b" for b bs
    using that by (auto simp: br_demo_charset_def)
  have e: "encode br_demo_charset (0xFFFD # cs) = [0xEF, 0xBF, 0xBD] @ encode br_demo_charset cs" for cs by (simp add: br_demo_charset_def)
  have a: "decode br_demo_charset bs = map ucast bs" "encode br_demo_charset (map ucast bs) = bs" if "ascii bs" for bs
    using d [OF that, of "[]"] br_demo_ascii [OF that, of "[]"] n by simp_all
  show ?thesis unfolding utf8_charset_def ascii_charset_def by (auto simp: d a c e br_demo_ascii)
qed

theorem bridge_end_to_end_witness:
  "\<exists>d' io. bridge_main (client_reads 0 ([(br_t, br_t, take 5 br_demo_service), (br_t, br_t, take 3 (drop 5 br_demo_service))] @ [(br_t, br_t, drop 8 br_demo_service)]) @
      java_writes [(br_t, br_t, 1), (br_t, br_t, 29)] @ java_reads [(br_t, br_t, [0, 0, 0, 0])]) br_demo = Some d' \<and>
     java_message br_demo_charset (java_bytes io) = Some (StartService [112] [99], [0, 0, 0, 0]) \<and> msg_queue (java_ctx d') = []"
proof -
  let ?ys = "[TelString [112], TelString [99]]"
  have f: "format_values [] [] = Some []" by code_simp
  have z: "be_bytes 0 = [0, 0, 0, 0]" by code_simp
  have o: "?ys = opt_values (Some [112]) @ opt_values (Some [99]) @ []" "length (enc_values ?ys) < MAX_MSG_SIZE" by (simp_all add: opt_values_def enc_values_def)
  have d: "client_idle 0 br_demo" "java_idle br_demo" "msg_queue (java_ctx br_demo) = []" "j_wakelock_held (java_ctx br_demo) = d_wakelock_held br_demo"
    "msg_count (java_ctx br_demo) = 0"
    by (simp_all add: client_idle_def java_idle_def br_demo_eq br_garbage_java_def br_garbage_client_def)
  have s: "tel_send_msg \<lparr>tel_fd = 3\<rparr> 2 (Some [112]) (Some [99]) [] [] [TpWrote 26] = Some (0, br_demo_service)"
    using br_demo_service_sent by (simp add: start_service_def)
  have p: "take 5 br_demo_service @ take 3 (drop 5 br_demo_service) = take 8 br_demo_service" "drop 8 br_demo_service \<noteq> []" "take 5 br_demo_service \<noteq> []"
    "take 3 (drop 5 br_demo_service) \<noteq> []" "length br_demo_service = 26" by code_simp+
  have k: "known_call 2 (Some [112]) (Some [99]) [] []" "call_of 2 ?ys = Some (StartService [112] [99])" by (simp_all add: known_call_def)
  have a: "ascii (be_bytes 0 @ br_demo_service)" "ascii_charset br_demo_charset"
    using br_demo_utf8 by (simp_all add: z ascii_def br_demo_service_def utf8_charset_def)
  have m: "java_message br_demo_charset (be_bytes 0 @ br_demo_service) = Some (StartService [112] [99], [0, 0, 0, 0])" by code_simp
  from bridge_end_to_end [OF k(1) f o _ s d(1-4), of "[(br_t, br_t, take 5 br_demo_service), (br_t, br_t, take 3 (drop 5 br_demo_service))]"
      "[(br_t, br_t, drop 8 br_demo_service)]" "[(br_t, br_t, 1), (br_t, br_t, 29)]" "[(br_t, br_t, [0, 0, 0, 0])]" br_demo_charset]
  obtain d' io jc where "bridge_main (client_reads 0 ([(br_t, br_t, take 5 br_demo_service), (br_t, br_t, take 3 (drop 5 br_demo_service))] @ [(br_t, br_t, drop 8 br_demo_service)]) @
      java_writes [(br_t, br_t, 1), (br_t, br_t, 29)] @ java_reads [(br_t, br_t, [0, 0, 0, 0])]) br_demo = Some d'"
    "call_of 2 ?ys = Some jc" "java_message br_demo_charset (java_bytes io) = Some (jc, be_bytes 0)" "msg_queue (java_ctx d') = []"
    using p a m unfolding d(5) by auto
  then show ?thesis using k(2) z by auto
qed

definition br_demo_waiting :: daemon_context where
  "br_demo_waiting = set_java ((java_ctx br_demo)\<lparr>wait_ack := True, wait_ack_count := 128, java_msg := JHead,
     msg_queue := [(be_bytes 128 @ br_demo_service, 2)]\<rparr>) br_demo"


theorem bridge_java_disconnect_aborts_witness:
  "bridge_iter br_t br_t (java_poll EvError) (br_demo\<lparr>java_ctx := br_garbage_java\<lparr>j_fd := 9, java_msg := JFreed\<rparr>\<rparr>) = None"
  using bridge_java_disconnect_aborts [of "br_garbage_java\<lparr>j_fd := 9, java_msg := JHead, wait_ack := True, msg_queue := [([], 0)]\<rparr>"
      "br_demo\<lparr>java_ctx := br_garbage_java\<lparr>j_fd := 9, java_msg := JFreed\<rparr>\<rparr>" 0 br_t br_t]
  by (simp add: java_acked_def br_garbage_java_def br_demo_eq)

theorem bridge_double_free_witness:
  "bridge_main [(br_t, br_t, client_poll 0 EvError), (br_t, br_t, BrEvents (EvAccept 5) EvNone EvNone EvNone EvNone EvNone), (br_t, br_t, client_poll 0 EvError)]
     (set_client 0 (br_garbage_client\<lparr>c_fd := 7, msg_state := MSG_STATE_IN_MSG, msg_buffer := Buf [1], data_to_read := 20\<rparr>) br_demo) = None"
  using bridge_double_free [of "set_client 0 (br_garbage_client\<lparr>c_fd := 7, msg_state := MSG_STATE_IN_MSG, msg_buffer := Buf [1], data_to_read := 20\<rparr>) br_demo"
      0 "[1]" 5 br_t br_t br_t br_t br_t br_t]
  by (simp add: br_demo_eq br_garbage_java_def br_garbage_client_def settled_def java_busy_def)

end
