(* ===== verification/Crm_File.thy ===== *)
theory Crm_File
  imports Crm_Prelude
begin

text \<open>
  libs/utils/src/file.c: writing and reading the small control files of the kernel drivers. The
  answers of the system calls are the argument \<open>io\<close> of the operations.
\<close>

record file_io =
  io_open :: int
  io_size :: int
  io_bytes :: string
  io_close :: int

text \<open>The contents of a C string: what comes before the first zero.\<close>

definition c_str :: "string \<Rightarrow> string" where
  "c_str s = takeWhile (\<lambda>c. c \<noteq> CHR 0x00) s"

definition crm_file_write :: "file_io \<Rightarrow> string \<Rightarrow> int" where
  "crm_file_write io val =
     (if io_open io < 0 then -1
      else let n = length (c_str val);
               write_size = (if n > 0 then io_size io else 0)
           in if io_close io = 0 \<and> write_size = int n then 0 else -1)"

text \<open>
  \<open>read\<close> answers at most \<open>sz\<close> bytes; a buffer filled to its last byte aborts. The string
  returned is the buffer up to the terminator the function writes.
\<close>

definition crm_file_read :: "file_io \<Rightarrow> int \<Rightarrow> (int \<times> string) option" where
  "crm_file_read io sz =
     (if io_open io < 0 then Some (-1, '''')
      else do {
        let read_size = (if sz > 0 then io_size io else 0);
        ASSERT (\<not> (sz > 0 \<and> read_size = sz));
        let ret = (if read_size > 0 then 0 else -1);
        let val = (if read_size > 0 then take (nat (min read_size (sz - 1))) (io_bytes io) else '''');
        Some (if io_close io \<noteq> 0 then -1 else ret, val)
      })"

text \<open>What the kernel guarantees of the answer of \<open>read\<close>.\<close>

definition io_ok :: "file_io \<Rightarrow> int \<Rightarrow> bool" where
  "io_ok io sz \<longleftrightarrow> -1 \<le> io_size io \<and> io_size io \<le> sz \<and> (io_size io > 0 \<longrightarrow> length (io_bytes io) = nat (io_size io))"

lemma crm_file_write_result: "crm_file_write io val = 0 \<or> crm_file_write io val = -1"
  by (simp add: crm_file_write_def Let_def)

lemma crm_file_read_bounds:
  assumes "io_ok io sz" "0 < sz" "crm_file_read io sz = Some (r, v)"
  shows "int (length v) < sz \<and> (r = 0 \<longrightarrow> 0 < length v)"
  using assms by (auto simp: crm_file_read_def io_ok_def Let_def split: if_splits)

end
