(* ===== verification/Crm_Text.thy ===== *)
theory Crm_Text
  imports Crm_File "HOL-Library.Word"
begin

text \<open>
  Text as the plugins make and read it: the formats of \<open>snprintf\<close> for numbers in a base, with padding and
  truncation, characters as bytes, and the replacement of the instance number in a path.
\<close>

section \<open>Numbers\<close>

function digits :: "nat \<Rightarrow> nat \<Rightarrow> nat list" where
  "digits b v = (if v < b \<or> b < 2 then [v] else digits b (v div b) @ [v mod b])"
  by pat_completeness auto
termination by (relation "measure snd") auto

declare digits.simps [simp del]

definition digit_char :: "nat \<Rightarrow> char" where
  "digit_char d = char_of (if d < 10 then 48 + d else 87 + d)"

definition char_digit :: "char \<Rightarrow> nat" where
  "char_digit c = (let n = of_char c in if n \<ge> 97 then n - 87 else n - 48)"

text \<open>\<open>%d\<close>, \<open>%o\<close> and \<open>%x\<close> of a number that is not negative, and what a reader makes of it.\<close>

definition print_num :: "nat \<Rightarrow> nat \<Rightarrow> string" where
  "print_num b v = map digit_char (digits b v)"

definition read_num :: "nat \<Rightarrow> string \<Rightarrow> nat" where
  "read_num b s = foldl (\<lambda>a c. b * a + char_digit c) 0 s"

text \<open>\<open>%0<w>\<close>: zeroes on the left up to \<open>w\<close> characters.\<close>

definition pad :: "nat \<Rightarrow> string \<Rightarrow> string" where
  "pad w s = replicate (w - length s) (CHR ''0'') @ s"

text \<open>\<open>snprintf\<close> into a buffer of \<open>n\<close> characters: the text is cut so that its terminator fits.\<close>

definition snprintf :: "nat \<Rightarrow> string \<Rightarrow> string" where
  "snprintf n s = take (n - 1) s"

lemma snprintf_fits: "length s < n \<Longrightarrow> snprintf n s = s"
  by (simp add: snprintf_def)

lemma length_snprintf: "0 < n \<Longrightarrow> length (snprintf n s) < n"
  by (simp add: snprintf_def)

lemma digits_lt: "2 \<le> b \<Longrightarrow> d \<in> set (digits b v) \<Longrightarrow> d < b"
  by (induction b v rule: digits.induct) (subst (asm) (2) digits.simps, auto split: if_splits)

lemma digits_ne [simp]: "digits b v \<noteq> []"
  by (subst digits.simps) simp

lemma print_num_ne [simp]: "print_num b v \<noteq> []"
  by (simp add: print_num_def)

lemma char_digit_digit [simp]:
  assumes "d < 16"
  shows "char_digit (digit_char d) = d"
proof -
  have "of_char (char_of (if d < 10 then 48 + d else 87 + d) :: char) = (if d < 10 then 48 + d else 87 + d)"
    using assms by (subst of_char_of) simp
  then show ?thesis unfolding char_digit_def digit_char_def Let_def using assms by simp
qed

lemma read_print_num:
  assumes "2 \<le> b" "b \<le> 16"
  shows "read_num b (print_num b v) = v"
  using assms
proof (induction b v rule: digits.induct)
  case (1 b v)
  show ?case
  proof (cases "v < b")
    case True
    then have "digits b v = [v]" by (subst digits.simps) simp
    with True 1(3) show ?thesis by (simp add: read_num_def print_num_def)
  next
    case False
    with 1(2) have d: "digits b v = digits b (v div b) @ [v mod b]" by (subst digits.simps) simp
    have "v mod b < 16" using 1(2,3) by (metis less_le_trans mod_less_divisor zero_less_numeral)
    with d 1 False show ?thesis by (simp add: read_num_def print_num_def)
  qed
qed

lemma read_zeroes: "foldl (\<lambda>a c. b * a + char_digit c) 0 (replicate n (CHR ''0'') @ s) = foldl (\<lambda>a c. b * a + char_digit c) 0 s"
proof (induction n)
  case (Suc n)
  have "char_digit (CHR ''0'') = 0" by (simp add: char_digit_def)
  with Suc show ?case by simp
qed simp

lemma read_pad [simp]: "2 \<le> b \<Longrightarrow> b \<le> 16 \<Longrightarrow> read_num b (pad w (print_num b v)) = v"
  using read_print_num [of b v] read_zeroes [of b] unfolding pad_def read_num_def by simp

lemma length_pad: "length (pad w s) = max w (length s)"
  by (simp add: pad_def)

lemma length_digits:
  assumes "2 \<le> b" "v < b ^ n" "0 < n"
  shows "length (digits b v) \<le> n"
  using assms
proof (induction n arbitrary: v)
  case (Suc n)
  show ?case
  proof (cases "v < b")
    case True
    then have "digits b v = [v]" by (subst digits.simps) simp
    then show ?thesis by simp
  next
    case False
    with Suc(2) have d: "digits b v = digits b (v div b) @ [v mod b]" by (subst digits.simps) simp
    have n: "0 < n" using False Suc(3) by (cases n) auto
    have "v div b < b ^ n" using Suc(2,3) by (simp add: less_mult_imp_div_less mult.commute)
    with Suc(1) [of "v div b"] Suc(2) n d show ?thesis by simp
  qed
qed simp

lemma length_print_num: "2 \<le> b \<Longrightarrow> v < b ^ n \<Longrightarrow> 0 < n \<Longrightarrow> length (print_num b v) \<le> n"
  using length_digits by (simp add: print_num_def)

section \<open>Bytes\<close>

definition char_byte :: "char \<Rightarrow> 8 word" where
  "char_byte c = word_of_nat (of_char c)"

definition byte_char :: "8 word \<Rightarrow> char" where
  "byte_char w = char_of (unat w)"

definition str_bytes :: "string \<Rightarrow> 8 word list" where
  "str_bytes s = map char_byte s"

definition bytes_str :: "8 word list \<Rightarrow> string" where
  "bytes_str b = map byte_char b"

lemma unat_char_byte: "unat (char_byte c) = of_char c"
proof -
  have "of_char c < (256::nat)" using of_char_mod_256 [of c, where ?'a = nat] by (metis mod_less_divisor zero_less_numeral)
  then show ?thesis by (simp add: char_byte_def unsigned_of_nat take_bit_eq_mod)
qed

lemma byte_char_byte [simp]: "byte_char (char_byte c) = c"
  by (simp add: byte_char_def unat_char_byte)

lemma bytes_str_bytes [simp]: "bytes_str (str_bytes s) = s"
  by (simp add: bytes_str_def str_bytes_def comp_def)

lemma str_bytes_append [simp]: "str_bytes (s @ t) = str_bytes s @ str_bytes t"
  by (simp add: str_bytes_def)

lemma bytes_str_append [simp]: "bytes_str (s @ t) = bytes_str s @ bytes_str t"
  by (simp add: bytes_str_def)

lemma length_str_bytes [simp]: "length (str_bytes s) = length s" "length (bytes_str b) = length b"
  by (simp_all add: str_bytes_def bytes_str_def)

lemma char_byte_eq_iff [simp]: "char_byte c = char_byte d \<longleftrightarrow> c = d"
  by (metis byte_char_byte)

section \<open>Paths\<close>

text \<open>The \<open>@\<close> of a path is replaced by the number of the instance.\<close>

definition set_instance_id :: "string \<Rightarrow> int \<Rightarrow> string option" where
  "set_instance_id src inst_id = do {
     ASSERT (CHR ''@'' \<in> set src);
     let find = length (takeWhile (\<lambda>c. c \<noteq> CHR ''@'') src);
     Some (src[find := char_of (nat ((48 + inst_id) mod 256))])
   }"

lemma set_instance_id_split:
  assumes "CHR ''@'' \<notin> set p"
  shows "set_instance_id (p @ CHR ''@'' # q) i = Some (p @ char_of (nat ((48 + i) mod 256)) # q)"
proof -
  have "takeWhile (\<lambda>c. c \<noteq> CHR ''@'') (p @ CHR ''@'' # q) = p" using assms by (subst takeWhile_append2) auto
  then show ?thesis by (simp add: set_instance_id_def Let_def)
qed

text \<open>A text up to the first separator.\<close>

lemma takeWhile_sep: "x \<notin> set p \<Longrightarrow> takeWhile (\<lambda>c. c \<noteq> x) (p @ x # q) = p"
  by (subst takeWhile_append2) auto

end
