(* ===== verification/Crm_Copy.thy ===== *)
theory Crm_Copy
  imports Crm_Ipc "HOL-Library.Sublist"
begin

text \<open>
  libs/utils/src/file.c: the copy of a file, from or to a raw partition, where the contents come after their size.
  What the system calls answer is the argument \<open>io\<close>; the mask of the process, which the function sets for the time of the
  call, is left out.
\<close>

record copy_io =
  cp_in_open :: int
  cp_out_open :: int
  cp_stat :: int
  cp_header :: int
  cp_sent :: int
  cp_close :: int

text \<open>
  The size of the contents and where they start: the size of a file is cut to 32 bits. \<open>None\<close>: the call fails.
\<close>

definition copy_size :: "copy_io \<Rightarrow> bool \<Rightarrow> 8 word list \<Rightarrow> (32 word \<times> nat) option" where
  "copy_size io in_raw src =
     (if in_raw then (if length (take 4 src) \<noteq> 4 then None else Some (bytes_int (take 4 src), 4))
      else if cp_stat io = -1 then None else Some (word_of_nat (length src), 0))"

text \<open>The body of the copy: the status and what has been written.\<close>

definition copy_data :: "copy_io \<Rightarrow> bool \<Rightarrow> 32 word \<Rightarrow> 8 word list \<Rightarrow> int \<times> 8 word list" where
  "copy_data io out_raw sz contents =
     (if sz = 0 then (0, [])
      else if out_raw \<and> cp_header io \<noteq> 4 then (-1, take (nat (cp_header io)) (int_bytes sz))
      else let hdr = (if out_raw then int_bytes sz else []);
               w_size = cp_sent io;
               dst = hdr @ take (nat w_size) contents
           in (if w_size = -1 then -1 else if w_size \<noteq> int (unat sz) then -1 else 0, dst))"

text \<open>The result and the contents of the destination, \<open>None\<close> when it has not been created.\<close>

definition crm_file_copy :: "copy_io \<Rightarrow> 8 word list \<Rightarrow> bool \<Rightarrow> bool \<Rightarrow> int \<times> 8 word list option" where
  "crm_file_copy io src in_raw out_raw =
     (if cp_in_open io < 0 then (-1, None)
      else if cp_out_open io < 0 then (-1, None)
      else let (ret, dst) = (case copy_size io in_raw src of
               None \<Rightarrow> (-1, [])
             | Some (sz, pos) \<Rightarrow> copy_data io out_raw sz (drop pos src))
           in (if cp_close io < 0 then -1 else ret, Some dst))"

text \<open>
  The calibration of the PCIe modem (plugins/hal/pcie/src/init.c): when the working file is missing at the start it is
  restored from the backup (\<open>None\<close>: the file is missing, and opening it fails), and whatever comes of it CRM goes on.
\<close>

definition restore_calibration :: "copy_io \<Rightarrow> bool \<Rightarrow> 8 word list option \<Rightarrow> 8 word list option \<Rightarrow> 8 word list option" where
  "restore_calibration io bkup_is_raw bkup calib =
     (if calib \<noteq> None then calib
      else case bkup of
        None \<Rightarrow> None
      | Some b \<Rightarrow> snd (crm_file_copy io b bkup_is_raw False))"

section \<open>Properties\<close>

text \<open>\<open>sendfile\<close> never sends more than there is.\<close>

definition copy_io_ok :: "copy_io \<Rightarrow> nat \<Rightarrow> bool" where
  "copy_io_ok io n \<longleftrightarrow> -1 \<le> cp_sent io \<and> cp_sent io \<le> int n"

text \<open>A successful copy of a file to a file or to a partition.\<close>

lemma copy_success:
  assumes "crm_file_copy io src False raw = (0, d)" "copy_io_ok io (length src)"
  shows "d = Some (if length src mod 2 ^ 32 = 0 then [] else (if raw then int_bytes (word_of_nat (length src)) else []) @ take (length src mod 2 ^ 32) src)"
proof -
  let ?w = "word_of_nat (length src) :: 32 word"
  have u: "unat ?w = length src mod 2 ^ 32" by (simp add: unat_of_nat)
  then have z: "?w = 0 \<longleftrightarrow> length src mod 2 ^ 32 = 0" by (metis unat_eq_zero)
  show ?thesis using assms u z
    by (auto simp: crm_file_copy_def copy_size_def copy_data_def Let_def split: if_splits)
qed

text \<open>
  A file copied to a raw partition comes back as it was. When a file of 1 to 2^32 - 1 bytes is copied to a partition
  with success, the partition holds its size and its contents, and a successful copy from the partition, which may hold
  more behind it, gives the same contents; in both directions a short transfer is never reported as a success.
\<close>

theorem copy_raw_roundtrip:
  assumes "0 < length src" "length src < 2 ^ 32" "copy_io_ok io (length src)" "crm_file_copy io src False True = (0, d)"
  shows "\<exists>p. d = Some p \<and> (\<forall>io' rest r d'. crm_file_copy io' (p @ rest) True False = (r, d') \<and> copy_io_ok io' (length (src @ rest)) \<longrightarrow>
    (r = 0 \<longrightarrow> d' = Some src) \<and> (r = 0 \<longleftrightarrow> cp_in_open io' \<ge> 0 \<and> cp_out_open io' \<ge> 0 \<and> cp_close io' \<ge> 0 \<and> cp_sent io' = int (length src)))"
proof -
  let ?w = "word_of_nat (length src) :: 32 word"
  have u: "unat ?w = length src" using assms(2) by (simp add: unat_of_nat)
  with assms(1) have nz: "?w \<noteq> 0" by (metis unat_eq_zero less_irrefl)
  have d: "d = Some (int_bytes ?w @ src)" using copy_success [OF assms(4,3)] assms(1,2) by simp
  have "(r = 0 \<longrightarrow> d' = Some src) \<and> (r = 0 \<longleftrightarrow> cp_in_open io' \<ge> 0 \<and> cp_out_open io' \<ge> 0 \<and> cp_close io' \<ge> 0 \<and> cp_sent io' = int (length src))"
    if "crm_file_copy io' ((int_bytes ?w @ src) @ rest) True False = (r, d')" for io' rest r d'
    using that nz u by (auto simp: crm_file_copy_def copy_size_def copy_data_def Let_def split: if_splits)
  with d show ?thesis by blast
qed

text \<open>
  Two copies that lose data. A file whose size is a multiple of 2^32 bytes is copied as an empty one, with success, and a
  successful copy of an empty file to a raw partition leaves one that cannot be read back, since the size is not written.
\<close>

theorem copy_size_wraps:
  assumes "cp_in_open io \<ge> 0" "cp_out_open io \<ge> 0" "cp_stat io \<noteq> -1" "cp_close io \<ge> 0" "length src = k * 2 ^ 32"
  shows "crm_file_copy io src False raw = (0, Some []) \<and> fst (crm_file_copy io' [] True False) = -1"
proof -
  have "(word_of_nat (length src) :: 32 word) = 0" using assms(5) by (simp add: word_of_nat_eq_0_iff del: of_nat_mult)
  then show ?thesis using assms by (simp add: crm_file_copy_def copy_size_def copy_data_def)
qed

definition copy_demo :: "int \<Rightarrow> copy_io" where
  "copy_demo n = \<lparr>cp_in_open = 3, cp_out_open = 4, cp_stat = 0, cp_header = 4, cp_sent = n, cp_close = 0\<rparr>"

theorem copy_raw_roundtrip_witness:
  "\<exists>p. crm_file_copy (copy_demo 3) [7, 8, 9] False True = (0, Some p) \<and> crm_file_copy (copy_demo 3) (p @ [1]) True False = (0, Some [7, 8, 9])"
proof -
  have c: "crm_file_copy (copy_demo 3) [7, 8, 9] False True = (0, Some (int_bytes 3 @ [7, 8, 9]))" by code_simp
  have o: "copy_io_ok (copy_demo 3) (length [7, 8, 9 :: 8 word])" by (simp add: copy_io_ok_def copy_demo_def)
  from copy_raw_roundtrip [OF _ _ o c] obtain p where
    p: "Some (int_bytes 3 @ [7, 8, 9]) = Some p"
      "\<forall>io' rest r d'. crm_file_copy io' (p @ rest) True False = (r, d') \<and> copy_io_ok io' (length ([7, 8, 9 :: 8 word] @ rest)) \<longrightarrow>
        (r = 0 \<longrightarrow> d' = Some [7, 8, 9]) \<and> (r = 0 \<longleftrightarrow> cp_in_open io' \<ge> 0 \<and> cp_out_open io' \<ge> 0 \<and> cp_close io' \<ge> 0 \<and> cp_sent io' = int (length [7, 8, 9 :: 8 word]))"
    by auto
  obtain r d' where r: "crm_file_copy (copy_demo 3) (p @ [1]) True False = (r, d')" by force
  with p(2) [rule_format, of "copy_demo 3" "[1]" r d'] have "r = 0 \<and> d' = Some [7, 8, 9]" by (auto simp: copy_io_ok_def copy_demo_def)
  with r c p(1) show ?thesis by auto
qed

theorem copy_size_wraps_witness: "crm_file_copy (copy_demo 0) [] False True = (0, Some []) \<and> fst (crm_file_copy (copy_demo 0) [] True False) = -1"
  using copy_size_wraps [of "copy_demo 0" "[]" 0 True "copy_demo 0"] by (simp add: copy_demo_def)

text \<open>
  C20: the calibration survives a loss of its file, but a restoration that fails half-way is final. A calibration of 1 to 2^32 - 1 bytes saved to a
  raw partition with success is what the next start restores when its calls succeed; when the working file was created but the transfer
  failed or was short, the start leaves a truncated file, and no later start restores it, whatever its calls
  answer, since the file exists.
\<close>

theorem calibration_restored_or_lost:
  assumes "0 < length src" "length src < 2 ^ 32" "copy_io_ok io (length src)" "crm_file_copy io src False True = (0, Some p)"
    and "cp_in_open io' \<ge> 0" "cp_out_open io' \<ge> 0" "copy_io_ok io' (length src)"
  shows "(cp_close io' \<ge> 0 \<and> cp_sent io' = int (length src) \<longrightarrow> restore_calibration io' True (Some p) None = Some src) \<and>
    (cp_sent io' < int (length src) \<longrightarrow> (\<exists>part. restore_calibration io' True (Some p) None = Some part \<and> strict_prefix part src \<and>
      (\<forall>later. fold (\<lambda>i c. restore_calibration i True (Some p) c) later (Some part) = Some part)))"
proof -
  let ?w = "word_of_nat (length src) :: 32 word"
  have u: "unat ?w = length src" using assms(2) by (simp add: unat_of_nat)
  with assms(1) have nz: "?w \<noteq> 0" by (metis unat_eq_zero less_irrefl)
  have "Some p = Some (int_bytes ?w @ src)" using copy_success [OF assms(4,3)] assms(1,2) by simp
  then have r: "restore_calibration io' True (Some p) None = Some (take (nat (cp_sent io')) src)"
    using assms(5,6) nz by (simp add: restore_calibration_def crm_file_copy_def copy_size_def copy_data_def Let_def)
  have f: "fold (\<lambda>i c. restore_calibration i True (Some p) c) later (Some part) = Some part" for later part
    by (induction later) (simp_all add: restore_calibration_def)
  have "strict_prefix (take (nat (cp_sent io')) src) src" if "cp_sent io' < int (length src)"
  proof -
    have "nat (cp_sent io') < length src" using that assms(1) by linarith
    then show ?thesis by (auto simp: strict_prefix_def take_is_prefix)
  qed
  with r f show ?thesis by auto
qed

theorem calibration_restored_or_lost_witness:
  "\<exists>p part. crm_file_copy (copy_demo 3) [7, 8, 9] False True = (0, Some p) \<and> restore_calibration (copy_demo 3) True (Some p) None = Some [7, 8, 9] \<and>
     restore_calibration (copy_demo 1) True (Some p) None = Some part \<and> restore_calibration (copy_demo 3) True (Some p) (Some part) = Some part"
proof -
  have c: "crm_file_copy (copy_demo 3) [7, 8, 9] False True = (0, Some (int_bytes 3 @ [7, 8, 9]))" by code_simp
  have o: "copy_io_ok (copy_demo 3) (length [7, 8, 9 :: 8 word])" "copy_io_ok (copy_demo 1) (length [7, 8, 9 :: 8 word])" by (simp_all add: copy_io_ok_def copy_demo_def)
  have 1: "restore_calibration (copy_demo 3) True (Some (int_bytes 3 @ [7, 8, 9])) None = Some [7, 8, 9]"
    using calibration_restored_or_lost [OF _ _ o(1) c _ _ o(1)] by (simp add: copy_demo_def)
  obtain part where 2: "restore_calibration (copy_demo 1) True (Some (int_bytes 3 @ [7, 8, 9])) None = Some part"
    "\<forall>later. fold (\<lambda>i c. restore_calibration i True (Some (int_bytes 3 @ [7, 8, 9])) c) later (Some part) = Some part"
    using calibration_restored_or_lost [OF _ _ o(1) c _ _ o(2)] by (auto simp: copy_demo_def)
  with spec [OF 2(2), of "[copy_demo 3]"] 1 c show ?thesis by auto
qed

end
