(* ===== verification/Crm_Archive.thy ===== *)
theory Crm_Archive
  imports Crm_Text
begin

text \<open>
  libs/ifwd/src/archive.c: the archive of the files of a core dump, a tar file that is compressed on its way to
  the file system. The model is the sequence of the writes before compression. The reader at the end of the theory is
  the reference: it follows the headers and stops at the first record of zeroes, as the tools that extract
  such an archive do.
\<close>

section \<open>Headers\<close>

record tar_stat =
  st_regular :: bool
  st_mtime :: nat
  st_uid :: nat
  st_gid :: nat
  st_size :: nat

abbreviation (input) HDR_SIZE :: nat where "HDR_SIZE \<equiv> 512"
abbreviation (input) NUL :: char where "NUL \<equiv> CHR 0x00"

definition compute_octal :: "nat \<Rightarrow> nat \<Rightarrow> string" where
  "compute_octal len val = snprintf len (pad (len - 1) (print_num 8 val)) @ [NUL]"

text \<open>A text in a field of zeroes.\<close>

definition field :: "nat \<Rightarrow> string \<Rightarrow> string" where
  "field n s = s @ replicate (n - length s) NUL"

text \<open>The fields before and after the checksum, in the order of \<open>crm_tar_header_t\<close>.\<close>

definition header_before :: "tar_stat \<Rightarrow> string \<Rightarrow> string" where
  "header_before st filename =
     field 100 filename @ ''0000666'' @ [NUL] @ compute_octal 8 (st_uid st) @ compute_octal 8 (st_gid st) @
     compute_octal 12 (st_size st) @ compute_octal 12 (st_mtime st)"

definition header_after :: string where
  "header_after = ''0'' @ field 100 [] @ ''ustar '' @ '' '' @ [NUL] @ field 32 ''system'' @ field 32 ''system'' @
     field 8 [] @ field 8 [] @ field 167 []"

definition byte_sum :: "string \<Rightarrow> nat" where
  "byte_sum s = sum_list (map of_char s)"

definition header_checksum :: "string \<Rightarrow> string \<Rightarrow> nat" where
  "header_checksum before after = byte_sum (before @ replicate 8 (CHR '' '') @ after) mod 2 ^ 32"

definition compute_header :: "tar_stat \<Rightarrow> string \<Rightarrow> (nat \<times> string) option" where
  "compute_header st filename = do {
     ASSERT (st_regular st);
     ASSERT (length filename < 100);
     let before = header_before st filename;
     let checksum = compute_octal 6 (header_checksum before header_after) @ replicate 2 (CHR '' '');
     Some (st_size st, before @ checksum @ header_after)
   }"

section \<open>The archive\<close>

text \<open>
  What a file is: its attributes and its contents, or nothing. The answers of the compression library are
  \<open>gz\<close>, one for each write; a file is written as its header, its contents and zeroes up to the next record.
\<close>

type_synonym file_system = "string \<Rightarrow> (tar_stat \<times> string) option"

definition gzwrite :: "(nat \<Rightarrow> bool) \<Rightarrow> string \<Rightarrow> string list \<Rightarrow> string list option" where
  "gzwrite gz s ws = do { ASSERT (gz (length ws)); Some (ws @ [s]) }"

definition tgz_add :: "file_system \<Rightarrow> (nat \<Rightarrow> bool) \<Rightarrow> string \<Rightarrow> string \<Rightarrow> string list \<Rightarrow> string list option" where
  "tgz_add fs gz folder name ws = do {
     let path = snprintf 128 (folder @ ''/'' @ name);
     (st, contents) \<leftarrow> fs path;
     (n, header) \<leftarrow> compute_header st name;
     let file_size = sint (word_of_nat n :: 32 word);
     ASSERT (file_size > 0);
     let file_size = nat file_size;
     ws \<leftarrow> gzwrite gz header ws;
     ws \<leftarrow> gzwrite gz (take file_size contents) ws;
     gzwrite gz (replicate (HDR_SIZE - file_size mod HDR_SIZE) NUL) ws
   }"

fun tgz_files :: "file_system \<Rightarrow> (nat \<Rightarrow> bool) \<Rightarrow> string \<Rightarrow> string list \<Rightarrow> string list \<Rightarrow> string list option" where
  "tgz_files fs gz folder [] ws = Some ws"
| "tgz_files fs gz folder (f # files) ws = do { ws \<leftarrow> tgz_add fs gz folder f ws; tgz_files fs gz folder files ws }"

fun tgz_end :: "(nat \<Rightarrow> bool) \<Rightarrow> nat \<Rightarrow> string list \<Rightarrow> string list option" where
  "tgz_end gz 0 ws = Some ws"
| "tgz_end gz (Suc n) ws = do { ws \<leftarrow> gzwrite gz (replicate 1024 NUL) ws; tgz_end gz n ws }"

text \<open>\<open>opened\<close> and \<open>closed\<close>: whether the archive could be created and completed.\<close>

definition crm_ifwd_tgz_create ::
  "file_system \<Rightarrow> (nat \<Rightarrow> bool) \<Rightarrow> bool \<Rightarrow> bool \<Rightarrow> string \<Rightarrow> string list \<Rightarrow> string list option" where
  "crm_ifwd_tgz_create fs gz opened closed folder files = do {
     ASSERT opened;
     ws \<leftarrow> tgz_files fs gz folder files [];
     ws \<leftarrow> tgz_end gz 8 ws;
     ASSERT closed;
     Some ws
   }"

section \<open>The reader\<close>

definition header_ok :: "string \<Rightarrow> bool" where
  "header_ok h \<longleftrightarrow> read_num 8 (take 5 (drop 148 h)) = header_checksum (take 148 h) (drop 156 h)"

definition records :: "nat \<Rightarrow> nat" where
  "records n = (n + HDR_SIZE - 1) div HDR_SIZE * HDR_SIZE"

function untar :: "string \<Rightarrow> (string \<times> string) list option" where
  "untar b =
     (if length b < HDR_SIZE then None
      else let h = take HDR_SIZE b
           in if list_all (\<lambda>c. c = NUL) h then Some []
              else if \<not> header_ok h then None
              else let n = read_num 8 (take 11 (drop 124 h)); rest = drop HDR_SIZE b
                   in if length rest < n then None
                      else map_option ((#) (takeWhile (\<lambda>c. c \<noteq> NUL) (take 100 h), take n rest)) (untar (drop (records n) rest)))"
  by pat_completeness auto
termination by (relation "measure length") auto

declare untar.simps [simp del]

section \<open>Reading what was written\<close>

lemma octal_fits:
  assumes "v < 8 ^ (len - 1)" "1 < len"
  shows "compute_octal len v = pad (len - 1) (print_num 8 v) @ [NUL]" "length (compute_octal len v) = len"
    "read_num 8 (take (len - 1) (compute_octal len v)) = v"
proof -
  have l: "length (pad (len - 1) (print_num 8 v)) = len - 1"
    using length_print_num [of 8 v "len - 1"] assms by (simp add: length_pad)
  then show c: "compute_octal len v = pad (len - 1) (print_num 8 v) @ [NUL]" using assms(2) by (simp add: compute_octal_def snprintf_fits)
  show "length (compute_octal len v) = len" "read_num 8 (take (len - 1) (compute_octal len v)) = v"
    using assms(2) l by (simp_all add: c)
qed

lemma length_octal [simp]: "0 < len \<Longrightarrow> length (compute_octal len v) = len"
  by (simp add: compute_octal_def snprintf_def length_pad)

lemma length_field [simp]: "length s \<le> n \<Longrightarrow> length (field n s) = n"
  by (simp add: field_def)

lemma length_before: "length name < 100 \<Longrightarrow> length (header_before st name) = 148"
  by (simp add: header_before_def)

lemma length_after: "length header_after = 356"
  by (simp add: header_after_def)

lemma byte_sum_append [simp]: "byte_sum (s @ t) = byte_sum s + byte_sum t"
  by (simp add: byte_sum_def)

lemma byte_sum_Cons [simp]: "byte_sum [] = 0" "byte_sum (c # s) = of_char c + byte_sum s"
  by (simp_all add: byte_sum_def)

lemma byte_sum_le:
  assumes "\<forall>c \<in> set s. of_char c \<le> (m::nat)"
  shows "byte_sum s \<le> m * length s"
  using assms by (induction s) (auto simp: byte_sum_def)

lemma of_char_le: "of_char c \<le> (255::nat)"
proof -
  have "of_char c < (256::nat)" using of_char_mod_256 [of c, where ?'a = nat] by (metis mod_less_divisor zero_less_numeral)
  then show ?thesis by linarith
qed

lemma byte_sum_any: "byte_sum s \<le> 255 * length s"
  by (rule byte_sum_le) (simp add: of_char_le)

lemma byte_sum_replicate [simp]: "byte_sum (replicate n c) = n * of_char c"
  by (simp add: byte_sum_def sum_list_replicate)

lemma byte_sum_field: "byte_sum (field n s) = byte_sum s"
  by (simp add: field_def)

lemma digit_char_le: "d < 8 \<Longrightarrow> of_char (digit_char d) \<le> (55::nat)"
  by (simp add: digit_char_def)

lemma octal_chars: "c \<in> set (compute_octal len v) \<Longrightarrow> of_char c \<le> (55::nat)"
proof -
  assume "c \<in> set (compute_octal len v)"
  then have "c = NUL \<or> c = CHR ''0'' \<or> c \<in> set (print_num 8 v)"
    by (auto simp: compute_octal_def snprintf_def pad_def dest: in_set_takeD)
  then show ?thesis using digits_lt [of 8 _ v] digit_char_le by (auto simp: print_num_def)
qed

lemma byte_sum_octal: "0 < len \<Longrightarrow> byte_sum (compute_octal len v) \<le> 55 * len"
  using byte_sum_le [of "compute_octal len v" 55] octal_chars by auto

lemma checksum_fits:
  assumes "length name < 100"
  shows "header_checksum (header_before st name) header_after < 8 ^ 5"
proof -
  have o: "byte_sum (compute_octal 8 (st_uid st)) \<le> 440" "byte_sum (compute_octal 8 (st_gid st)) \<le> 440"
    "byte_sum (compute_octal 12 (st_size st)) \<le> 660" "byte_sum (compute_octal 12 (st_mtime st)) \<le> 660"
    using byte_sum_octal [of 8 "st_uid st"] byte_sum_octal [of 8 "st_gid st"] byte_sum_octal [of 12 "st_size st"] byte_sum_octal [of 12 "st_mtime st"]
    by simp_all
  have n: "byte_sum (field 100 name) \<le> 25245"
    using byte_sum_any [of name] assms by (simp add: byte_sum_field)
  have a: "byte_sum header_after \<le> 2100" by (simp add: header_after_def byte_sum_field)
  have "byte_sum (header_before st name) \<le> 27900" using o n by (simp add: header_before_def)
  with a have "byte_sum (header_before st name @ replicate 8 (CHR '' '') @ header_after) < 32768" by simp
  then show ?thesis by (simp add: header_checksum_def)
qed

text \<open>A file that can be archived: it exists, and its size is that of its contents and fits an \<open>int\<close>.\<close>

definition archivable :: "file_system \<Rightarrow> string \<Rightarrow> string \<Rightarrow> string \<Rightarrow> bool" where
  "archivable fs folder name contents \<longleftrightarrow>
     length name < 100 \<and> NUL \<notin> set name \<and> 0 < length contents \<and> length contents < 2 ^ 31 \<and>
     (\<exists>st. fs (snprintf 128 (folder @ ''/'' @ name)) = Some (st, contents) \<and> st_regular st \<and> st_size st = length contents)"

lemma sint_small:
  assumes "n < 2 ^ 31"
  shows "sint (word_of_nat n :: 32 word) = int n"
  using assms by (simp add: sint_uint unsigned_of_nat take_bit_nat_eq_self signed_take_bit_int_eq_self flip: of_nat_take_bit)

text \<open>The header of a file, and all that is written for it.\<close>

definition tar_header :: "tar_stat \<Rightarrow> string \<Rightarrow> string" where
  "tar_header st name = header_before st name @
     (compute_octal 6 (header_checksum (header_before st name) header_after) @ ''  '') @ header_after"

definition tar_entry :: "tar_stat \<Rightarrow> string \<Rightarrow> string \<Rightarrow> string list" where
  "tar_entry st name contents = [tar_header st name, contents, replicate (HDR_SIZE - length contents mod HDR_SIZE) NUL]"

lemma add_archivable:
  assumes "archivable fs folder name contents" "\<forall>i. gz i"
  obtains st where "st_size st = length contents" "tgz_add fs gz folder name ws = Some (ws @ tar_entry st name contents)"
proof -
  from assms(1) obtain st where st: "fs (snprintf 128 (folder @ ''/'' @ name)) = Some (st, contents)" "st_regular st"
    "st_size st = length contents" "length name < 100" "0 < length contents" "length contents < 2 ^ 31"
    unfolding archivable_def by blast
  have r: "replicate 2 (CHR '' '') = ''  ''" by (simp add: numeral_2_eq_2)
  show thesis
    by (rule that [OF st(3)])
      (use st assms(2) in \<open>simp add: tgz_add_def Let_def compute_header_def gzwrite_def sint_small [OF st(6)] r tar_entry_def tar_header_def\<close>)
qed

lemma header_read:
  assumes "length name < 100" "NUL \<notin> set name" "st_size st < 2 ^ 31"
  shows "length (tar_header st name) = HDR_SIZE" "\<not> list_all (\<lambda>c. c = NUL) (tar_header st name)" "header_ok (tar_header st name)"
    "read_num 8 (take 11 (drop 124 (tar_header st name))) = st_size st" "takeWhile (\<lambda>c. c \<noteq> NUL) (take 100 (tar_header st name)) = name"
proof -
  note l = length_before [OF assms(1), of st] length_after
  let ?h = "tar_header st name"
  show "length ?h = HDR_SIZE" using l by (simp add: tar_header_def)
  show "\<not> list_all (\<lambda>c. c = NUL) ?h" by (simp add: tar_header_def header_after_def list_all_iff)
  have "take 5 (drop 148 ?h) = take 5 (compute_octal 6 (header_checksum (header_before st name) header_after))" using l by (simp add: tar_header_def)
  moreover have "take 148 ?h = header_before st name" "drop 156 ?h = header_after" using l by (simp_all add: tar_header_def)
  ultimately show "header_ok ?h" using octal_fits(3) [of _ 6] checksum_fits [OF assms(1), of st] by (simp add: header_ok_def)
  have "st_size st < 8 ^ 11" using assms(3) by simp
  then show "read_num 8 (take 11 (drop 124 ?h)) = st_size st"
    using octal_fits(3) [of "st_size st" 12] assms(1) by (simp add: tar_header_def header_before_def)
  have "take 100 ?h = field 100 name" using assms(1) by (simp add: tar_header_def header_before_def)
  then show "takeWhile (\<lambda>c. c \<noteq> NUL) (take 100 ?h) = name"
    using assms(1,2) by (cases "100 - length name") (simp_all add: field_def takeWhile_sep)
qed

lemma records_eq: "0 < n \<Longrightarrow> records n = (if HDR_SIZE dvd n then n else n + (HDR_SIZE - n mod HDR_SIZE))"
proof (cases "HDR_SIZE dvd n")
  case True
  assume "0 < n"
  with True obtain k where "n = 512 * k" "0 < k" by (auto elim!: dvdE)
  then show ?thesis by (simp add: records_def)
next
  case False
  define q r where "q = n div 512" and "r = n mod 512"
  have n: "n = 512 * q + r" "r < 512" "0 < r" using False by (simp_all add: q_def r_def mod_greater_zero_iff_not_dvd)
  then have "(n + 511) div 512 = q + 1" by simp
  then have "records n = (q + 1) * 512" by (simp add: records_def add.commute)
  with n False show ?thesis by (simp add: r_def [symmetric])
qed

lemma untar_zeroes: "HDR_SIZE \<le> n \<Longrightarrow> untar (replicate n NUL @ t) = Some []"
  by (subst untar.simps) (simp add: Let_def list_all_iff min_def)

lemma untar_entry:
  assumes "length name < 100" "NUL \<notin> set name" "st_size st = length contents" "0 < length contents" "length contents < 2 ^ 31"
  shows "untar (concat (tar_entry st name contents) @ rest) =
    (if HDR_SIZE dvd length contents then Some [(name, contents)] else map_option ((#) (name, contents)) (untar rest))"
proof -
  have "st_size st < 2 ^ 31" using assms(3,5) by simp
  note h = header_read [OF assms(1,2) this]
  define b where "b = contents @ replicate (HDR_SIZE - length contents mod HDR_SIZE) NUL @ rest"
  have c: "concat (tar_entry st name contents) @ rest = tar_header st name @ b" by (simp add: tar_entry_def b_def)
  have t: "take HDR_SIZE (tar_header st name @ b) = tar_header st name" "drop HDR_SIZE (tar_header st name @ b) = b"
    "take (length contents) b = contents" "\<not> length b < length contents" "\<not> length (tar_header st name @ b) < HDR_SIZE"
    using h(1) by (simp_all add: b_def)
  have "untar (tar_header st name @ b) = map_option ((#) (name, contents)) (untar (drop (records (length contents)) b))"
    by (subst untar.simps) (simp only: Let_def t h if_True if_False assms(3) not_True_eq_False)
  moreover have "untar (drop (records (length contents)) b) = (if HDR_SIZE dvd length contents then Some [] else untar rest)"
  proof (cases "HDR_SIZE dvd length contents")
    case True
    then have "drop (records (length contents)) b = replicate HDR_SIZE NUL @ rest"
      using assms(4) by (simp only: records_eq if_True b_def drop_append) simp
    with True show ?thesis by (simp only: untar_zeroes if_True order_refl)
  next
    case False
    then have "drop (records (length contents)) b = rest"
      using assms(4) by (simp only: records_eq if_False b_def drop_append) simp
    with False show ?thesis by (simp only: if_False)
  qed
  ultimately show ?thesis unfolding c by simp
qed

text \<open>What a reader finds: everything up to the first file whose size is a multiple of a record.\<close>

fun up_to_aligned :: "(string \<times> string) list \<Rightarrow> (string \<times> string) list" where
  "up_to_aligned [] = []"
| "up_to_aligned (f # fs) = f # (if HDR_SIZE dvd length (snd f) then [] else up_to_aligned fs)"

lemma files_read:
  assumes "\<forall>i. gz i" "HDR_SIZE \<le> k" "\<forall>(n, c) \<in> set fcs. archivable fs folder n c"
  shows "\<exists>es. tgz_files fs gz folder (map fst fcs) ws = Some (ws @ es) \<and> untar (concat es @ replicate k NUL) = Some (up_to_aligned fcs)"
  using assms(3)
proof (induction fcs arbitrary: ws)
  case Nil
  then show ?case using untar_zeroes [OF assms(2), of "[]"] by simp
next
  case (Cons f fcs)
  obtain n c where f: "f = (n, c)" by (cases f)
  then have a: "archivable fs folder n c" using Cons(2) by auto
  from add_archivable [OF a assms(1)] obtain st where st: "st_size st = length c"
    "tgz_add fs gz folder n ws = Some (ws @ tar_entry st n c)" .
  have "length n < 100" "NUL \<notin> set n" "0 < length c" "length c < 2 ^ 31" using a by (simp_all add: archivable_def)
  note e = untar_entry [OF this(1,2) st(1) this(3,4)]
  have "\<forall>(n, c) \<in> set fcs. archivable fs folder n c" using Cons(2) by simp
  from Cons(1) [OF this, of "ws @ tar_entry st n c"]
  obtain es where es: "tgz_files fs gz folder (map fst fcs) (ws @ tar_entry st n c) = Some ((ws @ tar_entry st n c) @ es)"
    "untar (concat es @ replicate k NUL) = Some (up_to_aligned fcs)" by (elim exE conjE)
  have "tgz_files fs gz folder (map fst (f # fcs)) ws = Some (ws @ (tar_entry st n c @ es))" using st(2) es(1) f by simp
  moreover have "untar (concat (tar_entry st n c @ es) @ replicate k NUL) = Some (up_to_aligned (f # fcs))"
    using e [of "concat es @ replicate k NUL"] es(2) f by simp
  ultimately show ?case by (intro exI conjI)
qed

lemma tgz_end_all: "\<forall>i. gz i \<Longrightarrow> tgz_end gz n ws = Some (ws @ replicate n (replicate 1024 NUL))"
  by (induction n arbitrary: ws) (simp_all add: gzwrite_def)

lemma concat_zeroes: "concat (replicate n (replicate m x)) = replicate (n * m) x"
  by (induction n) (simp_all add: replicate_add)

lemma archive_read:
  assumes "\<forall>(n, c) \<in> set fcs. archivable fs folder n c" "\<forall>i. gz i"
  shows "\<exists>ws. crm_ifwd_tgz_create fs gz True True folder (map fst fcs) = Some ws \<and> untar (concat ws) = Some (up_to_aligned fcs)"
proof -
  have "HDR_SIZE \<le> 8 * 1024" by simp
  from files_read [OF assms(2) this assms(1), of "[]"]
  obtain es where es: "tgz_files fs gz folder (map fst fcs) [] = Some es" "untar (concat es @ replicate (8 * 1024) NUL) = Some (up_to_aligned fcs)"
    by (elim exE conjE) (rule that, simp_all only: append_Nil)
  have "concat (es @ replicate 8 (replicate 1024 NUL)) = concat es @ replicate (8 * 1024) NUL"
    by (simp only: concat_append concat_zeroes)
  moreover have "crm_ifwd_tgz_create fs gz True True folder (map fst fcs) = Some (es @ replicate 8 (replicate 1024 NUL))"
    unfolding crm_ifwd_tgz_create_def using es(1) tgz_end_all [OF assms(2), of 8 es] by (simp del: tgz_end.simps)
  ultimately show ?thesis using es(2) by (intro exI conjI) (assumption, simp only:)
qed

lemma up_to_aligned_all: "\<forall>f \<in> set (butlast fcs). \<not> HDR_SIZE dvd length (snd f) \<Longrightarrow> up_to_aligned fcs = fcs"
  by (induction fcs) (auto split: if_splits)

lemma up_to_aligned_cut:
  "\<forall>f \<in> set pre. \<not> HDR_SIZE dvd length (snd f) \<Longrightarrow> HDR_SIZE dvd length (snd f) \<Longrightarrow> up_to_aligned (pre @ f # post) = pre @ [f]"
  by (induction pre) auto

section \<open>Properties\<close>

text \<open>
  C16: an archive can be read back. When the files exist, are not empty and are smaller than two gigabytes, the
  archive is written without an abort, and reading it gives the names and the contents of the files, in order,
  provided that no file but the last one has a size that is a multiple of 512 bytes.
\<close>

theorem archive_roundtrip:
  assumes "\<forall>(n, c) \<in> set fcs. archivable fs folder n c" "\<forall>i. gz i" "\<forall>f \<in> set (butlast fcs). \<not> HDR_SIZE dvd length (snd f)"
  shows "\<exists>ws. crm_ifwd_tgz_create fs gz True True folder (map fst fcs) = Some ws \<and> untar (concat ws) = Some fcs"
  using archive_read [OF assms(1,2)] up_to_aligned_all [OF assms(3)] by simp

text \<open>
  C37: a file that fills its last record hides those behind it. The padding of a file is computed without the
  case of a size that is a multiple of 512 bytes, so that a whole record of zeroes, the mark of the end of an
  archive, is written behind it: a reader finds this file and none of the files added after it.
\<close>

theorem archive_aligned_file_hides:
  assumes "\<forall>(n, c) \<in> set (pre @ f # post). archivable fs folder n c" "\<forall>i. gz i" "\<forall>g \<in> set pre. \<not> HDR_SIZE dvd length (snd g)"
    and "HDR_SIZE dvd length (snd f)"
  shows "\<exists>ws. crm_ifwd_tgz_create fs gz True True folder (map fst (pre @ f # post)) = Some ws \<and> untar (concat ws) = Some (pre @ [f])"
  using archive_read [OF assms(1,2)] up_to_aligned_cut [OF assms(3,4)] by simp

text \<open>The files of a core dump in their folder; the dump itself is \<open>n\<close> bytes long.\<close>

definition dump_fs :: "nat \<Rightarrow> file_system" where
  "dump_fs n = (\<lambda>path.
     if path = ''/logs/coredump.fcd'' then Some (\<lparr>st_regular = True, st_mtime = 1, st_uid = 0, st_gid = 0, st_size = n\<rparr>, replicate n (CHR ''d''))
     else if path = ''/logs/bootcore_trace.bin'' then Some (\<lparr>st_regular = True, st_mtime = 2, st_uid = 0, st_gid = 0, st_size = 2\<rparr>, ''ab'')
     else None)"

lemma dump_fs_archivable:
  assumes "0 < n" "n < 2 ^ 31"
  shows "\<forall>(m, c) \<in> set [(''coredump.fcd'', replicate n (CHR ''d'')), (''bootcore_trace.bin'', ''ab'')]. archivable (dump_fs n) ''/logs'' m c"
  using assms by (simp add: archivable_def dump_fs_def snprintf_def)

theorem archive_roundtrip_witness:
  "\<exists>ws. crm_ifwd_tgz_create (dump_fs 700) (\<lambda>i. True) True True ''/logs'' [''coredump.fcd'', ''bootcore_trace.bin''] = Some ws \<and>
     untar (concat ws) = Some [(''coredump.fcd'', replicate 700 (CHR ''d'')), (''bootcore_trace.bin'', ''ab'')]"
  using archive_roundtrip [OF dump_fs_archivable [of 700], of "\<lambda>i. True"] by simp

theorem archive_aligned_file_hides_witness:
  "\<exists>ws. crm_ifwd_tgz_create (dump_fs 1024) (\<lambda>i. True) True True ''/logs'' [''coredump.fcd'', ''bootcore_trace.bin''] = Some ws \<and>
     untar (concat ws) = Some [(''coredump.fcd'', replicate 1024 (CHR ''d''))]"
  using archive_aligned_file_hides [of "[]" "(''coredump.fcd'', replicate 1024 (CHR ''d''))" "[(''bootcore_trace.bin'', ''ab'')]" "dump_fs 1024"
      "''/logs''" "\<lambda>i. True"] dump_fs_archivable [of 1024] by simp

end
