(* ===== verification/Crm_Property.thy ===== *)
theory Crm_Property
  imports Crm_Text
begin

text \<open>
  libs/utils/src/property.c: the properties of the platform, which CRM reads and writes under names that carry the number of
  its instance in place of an \<open>@\<close>. The store is a map; that a value of 92 characters or more is refused is what
  Android documents.
\<close>

abbreviation (input) CRM_PROPERTY_VALUE_MAX :: nat where "CRM_PROPERTY_VALUE_MAX \<equiv> 92"

type_synonym properties = "string \<Rightarrow> string option"

definition compute_key :: "int \<Rightarrow> string \<Rightarrow> string option" where
  "compute_key g_inst_id key =
     (if CHR ''@'' \<notin> set key then Some key
      else do {
        let find = length (takeWhile (\<lambda>c. c \<noteq> CHR ''@'') key);
        ASSERT (find < CRM_PROPERTY_VALUE_MAX);
        Some ((snprintf CRM_PROPERTY_VALUE_MAX key)[find := char_of (nat ((48 + g_inst_id) mod 256))])
      })"

definition crm_property_get :: "int \<Rightarrow> properties \<Rightarrow> string \<Rightarrow> string \<Rightarrow> string option" where
  "crm_property_get g_inst_id ps key default_value = do {
     ikey \<leftarrow> compute_key g_inst_id key;
     let v = (case ps ikey of None \<Rightarrow> default_value | Some v \<Rightarrow> v);
     ASSERT (length v < CRM_PROPERTY_VALUE_MAX);
     Some v
   }"

definition crm_property_set :: "int \<Rightarrow> properties \<Rightarrow> string \<Rightarrow> string \<Rightarrow> properties option" where
  "crm_property_set g_inst_id ps key v = do {
     ikey \<leftarrow> compute_key g_inst_id key;
     ASSERT (length v < CRM_PROPERTY_VALUE_MAX);
     Some (ps(ikey \<mapsto> v))
   }"

definition crm_property_init :: "int \<Rightarrow> int option" where
  "crm_property_init inst = do { ASSERT (inst \<ge> 0 \<and> inst \<le> 9); Some inst }"

section \<open>Instances\<close>

lemma char_of_inst:
  assumes "0 \<le> i" "i \<le> 9" "0 \<le> j" "j \<le> (9::int)" "char_of (nat ((48 + i) mod 256)) = (char_of (nat ((48 + j) mod 256)) :: char)"
  shows "i = j"
proof -
  have "(48 + i) mod 256 = 48 + i" "(48 + j) mod 256 = 48 + j" using assms(1-4) by simp_all
  with assms(5) have "char_of (nat (48 + i)) = (char_of (nat (48 + j)) :: char)" by simp
  then have "of_char (char_of (nat (48 + i)) :: char) = (of_char (char_of (nat (48 + j)) :: char) :: nat)" by simp
  then have "nat (48 + i) mod 256 = nat (48 + j) mod 256" by (simp only: of_char_of)
  moreover have "nat (48 + i) < 256" "nat (48 + j) < 256" using assms(1-4) by simp_all
  ultimately have "nat (48 + i) = nat (48 + j)" by simp
  with assms(1,3) show ?thesis by simp
qed

lemma compute_key_split:
  assumes "CHR ''@'' \<notin> set p" "length p + length q < 91"
  shows "compute_key g (p @ CHR ''@'' # q) = Some (p @ char_of (nat ((48 + g) mod 256)) # q)"
proof -
  have "takeWhile (\<lambda>c. c \<noteq> CHR ''@'') (p @ CHR ''@'' # q) = p" by (rule takeWhile_sep [OF assms(1)])
  then show ?thesis using assms(2) by (simp add: compute_key_def Let_def snprintf_fits)
qed

text \<open>Reading back, in this instance and in the others.\<close>

lemma property_get_set:
  assumes "crm_property_set g ps key v = Some ps'"
  shows "crm_property_get g ps' key d = Some v"
  using assms by (auto simp: crm_property_set_def crm_property_get_def bind_Some_iff)

lemma property_other_key:
  assumes "crm_property_set g ps key v = Some ps'" "compute_key h key' \<noteq> compute_key g key"
  shows "crm_property_get h ps' key' d = crm_property_get h ps key' d"
  using assms by (auto simp: crm_property_set_def crm_property_get_def bind_Some_iff split: option.splits bind_splits)

section \<open>Properties\<close>

text \<open>
  What an instance writes it reads back, and no other instance is affected. For a key with an \<open>@\<close> and two
  instances that \<open>crm_property_init\<close> accepts, a value that is written is what the same instance reads afterwards,
  and what the other instance reads is what it was.
\<close>

theorem property_instances_apart:
  assumes "crm_property_init a = Some i" "crm_property_init b = Some j" "i \<noteq> j" "CHR ''@'' \<notin> set p" "length p + length q < 91"
    and "length v < CRM_PROPERTY_VALUE_MAX"
  shows "\<exists>ps'. crm_property_set i ps (p @ ''@'' @ q) v = Some ps' \<and> crm_property_get i ps' (p @ ''@'' @ q) d = Some v \<and>
    (\<forall>d'. crm_property_get j ps' (p @ ''@'' @ q) d' = crm_property_get j ps (p @ ''@'' @ q) d')"
proof -
  have r: "0 \<le> i" "i \<le> 9" "0 \<le> j" "j \<le> 9" using assms(1,2) by (simp_all add: crm_property_init_def)
  note k = compute_key_split [OF assms(4,5)]
  have ne: "compute_key j (p @ ''@'' @ q) \<noteq> compute_key i (p @ ''@'' @ q)"
    using k char_of_inst [OF r] assms(3) by auto
  obtain ps' where s: "crm_property_set i ps (p @ ''@'' @ q) v = Some ps'" using k assms(6) by (simp add: crm_property_set_def)
  with property_get_set [OF s] property_other_key [OF s ne] show ?thesis by (intro exI [of _ ps']) simp
qed

theorem property_instances_apart_witness:
  "\<exists>ps'. crm_property_set 0 (\<lambda>k. None) ''sys.crm@.sanity'' ''on'' = Some ps' \<and> crm_property_get 0 ps' ''sys.crm@.sanity'' '''' = Some ''on'' \<and>
     crm_property_get 1 ps' ''sys.crm@.sanity'' ''off'' = crm_property_get 1 (\<lambda>k. None) ''sys.crm@.sanity'' ''off''"
proof -
  have "crm_property_init 0 = Some 0" "crm_property_init 1 = Some 1" by (simp_all add: crm_property_init_def)
  from property_instances_apart [OF this, of "''sys.crm''" "''.sanity''" "''on''" "\<lambda>k. None" "''''"]
  obtain ps' where "crm_property_set 0 (\<lambda>k. None) ''sys.crm@.sanity'' ''on'' = Some ps'" "crm_property_get 0 ps' ''sys.crm@.sanity'' '''' = Some ''on''"
    "\<forall>d'. crm_property_get 1 ps' ''sys.crm@.sanity'' d' = crm_property_get 1 (\<lambda>k. None) ''sys.crm@.sanity'' d'" by auto
  then show ?thesis by blast
qed

end
