(* ===== verification/Crm_Main.thy ===== *)
theory Crm_Main
  imports Crm_Property
begin

text \<open>
  main/src/crm_main.c, plugins/control/src/init.c, libs/utils/src/plugins.c and debug.c: how CRM comes up and goes down. The
  plugins are libraries named by the configuration; Control opens them, creates their contexts, runs its loop, and disposes
  and closes them at the end. What is done is a trace; the configuration and the answers of the system are an environment.
\<close>

section \<open>State\<close>

datatype ctrl_plugins =
    PLUGIN_CLIENTS | PLUGIN_HAL | PLUGIN_FW_UPLOAD | PLUGIN_FW_ELECTOR | PLUGIN_CUSTOMIZATION
  | PLUGIN_ESCALATION | PLUGIN_WAKELOCK | PLUGIN_DUMP

abbreviation (input) plugin_order :: "ctrl_plugins list" where
  "plugin_order \<equiv> [PLUGIN_CLIENTS, PLUGIN_HAL, PLUGIN_FW_UPLOAD, PLUGIN_FW_ELECTOR, PLUGIN_CUSTOMIZATION,
     PLUGIN_ESCALATION, PLUGIN_WAKELOCK, PLUGIN_DUMP]"

text \<open>What has a context: a plugin, or one of the services that are linked in.\<close>

datatype module = Ipc | Watchdog | Factory | Tcs | Plugin ctrl_plugins

datatype main_out =
    LoadControl string | UnloadControl | Load ctrl_plugins string | Unload ctrl_plugins
  | Init module | Dispose module | EndMsg module | EventLoop

text \<open>A slot of the table of plugins holds the library that is open.\<close>

record main_state =
  slots :: "ctrl_plugins \<Rightarrow> string option"
  sanity_mode :: bool
  host_debug :: bool
  main_trace :: "main_out list"

text \<open>
  The environment: the properties, the strings of the configuration (\<open>None\<close> when the key is missing), its two time-outs, and what the
  loader and the plugins answer. \<open>loop_ends\<close>: the loop of Control returns.
\<close>

record main_env =
  props :: properties
  tcs_main :: "string \<Rightarrow> string option"
  tcs_plugins :: "string \<Rightarrow> string option"
  tcs_watchdog_timeout :: "int option"
  tcs_ping_period :: "int option"
  dl_open :: "string \<Rightarrow> bool"
  dl_sym :: "string \<Rightarrow> string \<Rightarrow> bool"
  dl_close :: "string \<Rightarrow> bool"
  init_ok :: "module \<Rightarrow> bool"
  dispose_ok :: "module \<Rightarrow> bool"
  loop_ends :: bool

definition mn_emit :: "main_out \<Rightarrow> main_state \<Rightarrow> main_state" where
  "mn_emit x s = s\<lparr>main_trace := main_trace s @ [x]\<rparr>"

section \<open>Plugins\<close>

text \<open>The library that is opened, if the configuration names one. A library that cannot be used aborts.\<close>

definition crm_plugin_load :: "main_env \<Rightarrow> (string \<Rightarrow> string option) \<Rightarrow> string \<Rightarrow> string \<Rightarrow> string option option" where
  "crm_plugin_load env tcs plugin_name init_name =
     (case tcs plugin_name of
        Some filename \<Rightarrow> do {
          ASSERT (dl_open env filename);
          ASSERT (dl_sym env filename init_name);
          Some (Some filename)
        }
      | None \<Rightarrow> Some None)"

text \<open>Loading into a slot of the table; the result is 0 or -1.\<close>

definition load_slot :: "main_env \<Rightarrow> string \<Rightarrow> string \<Rightarrow> ctrl_plugins \<Rightarrow> main_state \<Rightarrow> (int \<times> main_state) option" where
  "load_slot env plugin_name init_name pl s = do {
     r \<leftarrow> crm_plugin_load env (tcs_plugins env) plugin_name init_name;
     (case r of
        Some f \<Rightarrow> Some (0, mn_emit (Load pl f) (s\<lparr>slots := (slots s)(pl \<mapsto> f)\<rparr>))
      | None \<Rightarrow> Some (-1, s))
   }"

definition load_required :: "main_env \<Rightarrow> string \<Rightarrow> string \<Rightarrow> ctrl_plugins \<Rightarrow> main_state \<Rightarrow> main_state option" where
  "load_required env plugin_name init_name pl s = do {
     (r, s) \<leftarrow> load_slot env plugin_name init_name pl s;
     ASSERT (\<not> r \<noteq> 0);
     Some s
   }"

definition load_plugins :: "main_env \<Rightarrow> int \<Rightarrow> main_state \<Rightarrow> main_state option" where
  "load_plugins env inst s = do {
     v \<leftarrow> crm_property_get inst (props env) ''persist.sys.crm@.load_stub'' ''false'';
     let load_hw_stub = (v = ''true'');
     s \<leftarrow> load_required env (if \<not> load_hw_stub then ''hal'' else ''hal_stub'') ''crm_hal_init'' PLUGIN_HAL s;
     s \<leftarrow> load_required env ''clients'' ''crm_cli_abs_init'' PLUGIN_CLIENTS s;
     s \<leftarrow> load_required env ''fw_upload'' ''crm_fw_upload_init'' PLUGIN_FW_UPLOAD s;
     s \<leftarrow> load_required env ''fw_elector'' ''crm_fw_elector_init'' PLUGIN_FW_ELECTOR s;
     s \<leftarrow> load_required env ''customization'' ''crm_customization_init'' PLUGIN_CUSTOMIZATION s;
     s \<leftarrow> load_required env ''wakelock'' ''crm_wakelock_init'' PLUGIN_WAKELOCK s;
     s \<leftarrow> load_required env ''escalation'' ''crm_escalation_init'' PLUGIN_ESCALATION s;
     (r, s) \<leftarrow> load_slot env ''dump'' ''crm_dump_init'' PLUGIN_DUMP s;
     Some s
   }"

text \<open>\<open>crm_plugin_unload\<close> on a slot, and the loop over the table.\<close>

definition crm_plugin_unload :: "main_env \<Rightarrow> ctrl_plugins \<Rightarrow> main_state \<Rightarrow> main_state option" where
  "crm_plugin_unload env pl s =
     (case slots s pl of
        Some f \<Rightarrow> do { ASSERT (dl_close env f); Some (mn_emit (Unload pl) (s\<lparr>slots := (slots s)(pl := None)\<rparr>)) }
      | None \<Rightarrow> None)"

fun unload_plugins :: "main_env \<Rightarrow> ctrl_plugins list \<Rightarrow> main_state \<Rightarrow> main_state option" where
  "unload_plugins env [] s = Some s"
| "unload_plugins env (pl # pls) s = do {
     s \<leftarrow> (if slots s pl \<noteq> None then crm_plugin_unload env pl s else Some s);
     unload_plugins env pls s
   }"

section \<open>Contexts\<close>

text \<open>Creating a context calls into the library of the plugin, and so does disposing it.\<close>

definition linked :: "module \<Rightarrow> main_state \<Rightarrow> bool" where
  "linked m s = (case m of Plugin pl \<Rightarrow> slots s pl \<noteq> None | _ \<Rightarrow> True)"

definition start_module :: "main_env \<Rightarrow> module \<Rightarrow> main_state \<Rightarrow> main_state option" where
  "start_module env m s = do { ASSERT (linked m s); ASSERT (init_ok env m); Some (mn_emit (Init m) s) }"

definition stop_module :: "main_env \<Rightarrow> module \<Rightarrow> main_state \<Rightarrow> main_state option" where
  "stop_module env m s = do { ASSERT (linked m s); ASSERT (dispose_ok env m); Some (mn_emit (Dispose m) s) }"

fun start_modules :: "main_env \<Rightarrow> module list \<Rightarrow> main_state \<Rightarrow> main_state option" where
  "start_modules env [] s = Some s"
| "start_modules env (m # ms) s = do { s \<leftarrow> start_module env m s; start_modules env ms s }"

fun stop_modules :: "main_env \<Rightarrow> module list \<Rightarrow> main_state \<Rightarrow> main_state option" where
  "stop_modules env [] s = Some s"
| "stop_modules env (m # ms) s = do { s \<leftarrow> stop_module env m s; stop_modules env ms s }"

definition crm_is_in_sanity_test_mode :: "int \<Rightarrow> properties \<Rightarrow> bool option" where
  "crm_is_in_sanity_test_mode inst ps = do {
     v \<leftarrow> crm_property_get inst ps ''ro.build.type'' '''';
     if v \<noteq> ''user'' then do { v \<leftarrow> crm_property_get inst ps ''sys.crm@.sanity'' ''''; Some (v = ''true'') }
     else Some False
   }"

definition start_plugins :: "main_env \<Rightarrow> int \<Rightarrow> main_state \<Rightarrow> main_state option" where
  "start_plugins env inst s = do {
     s \<leftarrow> start_modules env [Ipc, Plugin PLUGIN_WAKELOCK, Watchdog] s;
     sanity \<leftarrow> crm_is_in_sanity_test_mode inst (props env);
     let dump_enabled = (slots s PLUGIN_DUMP \<noteq> None);
     v \<leftarrow> crm_property_get inst (props env) ''crm@.host_test'' ''false'';
     let s = s\<lparr>sanity_mode := sanity, host_debug := (v = ''true'')\<rparr>;
     s \<leftarrow> start_modules env (map Plugin [PLUGIN_CLIENTS, PLUGIN_HAL, PLUGIN_FW_UPLOAD, PLUGIN_FW_ELECTOR, PLUGIN_CUSTOMIZATION, PLUGIN_ESCALATION]) s;
     if dump_enabled then start_module env (Plugin PLUGIN_DUMP) s else Some s
   }"

text \<open>The context of the dump is there exactly when its library is.\<close>

definition stop_plugins :: "main_env \<Rightarrow> main_state \<Rightarrow> main_state option" where
  "stop_plugins env s = do {
     let s = mn_emit (EndMsg Watchdog) (mn_emit (EndMsg Ipc) s);
     s \<leftarrow> stop_modules env (map Plugin [PLUGIN_CLIENTS, PLUGIN_HAL, PLUGIN_FW_UPLOAD, PLUGIN_CUSTOMIZATION] @
            [Watchdog, Plugin PLUGIN_WAKELOCK, Plugin PLUGIN_FW_ELECTOR]) s;
     s \<leftarrow> (if slots s PLUGIN_DUMP \<noteq> None then stop_module env (Plugin PLUGIN_DUMP) s else Some s);
     stop_module env Ipc s
   }"

definition ctrl_dispose :: "main_env \<Rightarrow> main_state \<Rightarrow> main_state option" where
  "ctrl_dispose env s = do { s \<leftarrow> stop_plugins env s; unload_plugins env plugin_order s }"

definition ctrl_init :: "main_env \<Rightarrow> int \<Rightarrow> main_state \<Rightarrow> main_state option" where
  "ctrl_init env inst s = do {
     timeout \<leftarrow> tcs_watchdog_timeout env;
     ping_period \<leftarrow> tcs_ping_period env;
     s \<leftarrow> load_plugins env inst s;
     start_plugins env inst s
   }"

section \<open>The program\<close>

text \<open>
  The options of the command line: help, version, the instance (\<open>None\<close> when its argument is no number), anything else. The result
  is the instance, or \<open>None\<close> when the usage is printed and the program exits.
\<close>

datatype main_opt = OptHelp | OptVersion | OptInstance "int option" | OptOther

fun parse_opts :: "main_opt list \<Rightarrow> int \<Rightarrow> int option option" where
  "parse_opts [] inst = Some (Some inst)"
| "parse_opts (OptVersion # os) inst = parse_opts os inst"
| "parse_opts (OptInstance n # os) inst = do { n \<leftarrow> n; parse_opts os n }"
| "parse_opts (OptHelp # os) inst = Some None"
| "parse_opts (OptOther # os) inst = Some None"

text \<open>
  The library of Control is not checked to have been found: without one the program calls through an uninitialised
  pointer. The result is the exit code and what has been done.
\<close>

definition run_crm :: "main_env \<Rightarrow> int \<Rightarrow> main_state option" where
  "run_crm env inst = do {
     crm_property_init inst;
     let s = \<lparr>slots = Map.empty, sanity_mode = False, host_debug = False, main_trace = []\<rparr>;
     s \<leftarrow> start_modules env [Factory, Tcs] s;
     r \<leftarrow> crm_plugin_load env (tcs_main env) ''control'' ''crm_ctrl_init'';
     f \<leftarrow> r;
     s \<leftarrow> ctrl_init env inst (mn_emit (LoadControl f) s);
     s \<leftarrow> stop_module env Tcs s;
     ASSERT (loop_ends env);
     s \<leftarrow> ctrl_dispose env (mn_emit EventLoop s);
     s \<leftarrow> stop_module env Factory s;
     ASSERT (dl_close env f);
     Some (mn_emit UnloadControl s)
   }"

definition main :: "main_env \<Rightarrow> int \<Rightarrow> main_opt list \<Rightarrow> (int \<times> main_out list) option" where
  "main env MDM_CLI_DEFAULT_INSTANCE opts = do {
     v \<leftarrow> crm_property_get 0 (props env) ''persist.config.specific'' '''';
     props' \<leftarrow> (if v \<noteq> '''' then crm_property_set 0 (props env) ''ro.telephony.tcs.sw_folder'' v else Some (props env));
     r \<leftarrow> parse_opts opts MDM_CLI_DEFAULT_INSTANCE;
     (case r of
        None \<Rightarrow> Some (-1, [])
      | Some inst \<Rightarrow> do { s \<leftarrow> run_crm (env\<lparr>props := props'\<rparr>) inst; Some (0, main_trace s) })
   }"

section \<open>Life cycles\<close>

text \<open>What a module uses through the context it was given.\<close>

fun providers :: "module \<Rightarrow> module set" where
  "providers Watchdog = {Plugin PLUGIN_WAKELOCK}"
| "providers (Plugin PLUGIN_CLIENTS) = {Ipc, Plugin PLUGIN_WAKELOCK}"
| "providers (Plugin PLUGIN_HAL) = {Ipc}"
| "providers (Plugin PLUGIN_FW_UPLOAD) = {Ipc, Factory}"
| "providers (Plugin PLUGIN_CUSTOMIZATION) = {Ipc}"
| "providers (Plugin PLUGIN_DUMP) = {Ipc, Factory}"
| "providers m = {}"

text \<open>
  A monitor of the trace: whether the library of Control is open, the libraries of plugins that are, the contexts that live,
  and the plugins whose library was closed under a living context. It refuses a call into a library that is not open, a
  context whose providers do not live, and the disposal of a provider before its users.
\<close>

fun life :: "main_out list \<Rightarrow> bool \<times> ctrl_plugins set \<times> module set \<times> ctrl_plugins set \<Rightarrow>
    (bool \<times> ctrl_plugins set \<times> module set \<times> ctrl_plugins set) option" where
  "life [] s = Some s"
| "life (x # xs) (b, L, M, K) =
     (case x of
        LoadControl f \<Rightarrow> if b then None else life xs (True, L, M, K)
      | UnloadControl \<Rightarrow> if b \<and> L = {} then life xs (False, L, M, K) else None
      | Load p f \<Rightarrow> if b \<and> p \<notin> L then life xs (b, insert p L, M, K) else None
      | Unload p \<Rightarrow> if b \<and> p \<in> L then life xs (b, L - {p}, M - {Plugin p}, if Plugin p \<in> M then insert p K else K) else None
      | Init m \<Rightarrow> if m \<notin> M \<and> providers m \<subseteq> M \<and> (\<forall>p. m = Plugin p \<longrightarrow> p \<in> L \<and> b) then life xs (b, L, insert m M, K) else None
      | Dispose m \<Rightarrow> if m \<in> M \<and> (\<forall>n \<in> M. m \<notin> providers n) \<and> (\<forall>p. m = Plugin p \<longrightarrow> p \<in> L \<and> b) then life xs (b, L, M - {m}, K) else None
      | EndMsg m \<Rightarrow> if m \<in> M then life xs (b, L, M, K) else None
      | EventLoop \<Rightarrow> if b \<and> {Ipc, Watchdog, Factory} \<subseteq> M \<and> Plugin ` (L - {PLUGIN_DUMP}) \<subseteq> M then life xs (b, L, M, K) else None)"

lemma start_modules_eq:
  "start_modules env ms s = Some s' \<longleftrightarrow> (\<forall>m \<in> set ms. linked m s \<and> init_ok env m) \<and> s' = s\<lparr>main_trace := main_trace s @ map Init ms\<rparr>"
proof (induction ms arbitrary: s)
  case (Cons m ms)
  have "linked n (mn_emit x s) = linked n s" for n x by (simp add: linked_def mn_emit_def split: module.splits)
  then show ?case using Cons by (auto simp: start_module_def mn_emit_def bind_Some_iff)
qed auto

lemma stop_modules_eq:
  "stop_modules env ms s = Some s' \<longleftrightarrow> (\<forall>m \<in> set ms. linked m s \<and> dispose_ok env m) \<and> s' = s\<lparr>main_trace := main_trace s @ map Dispose ms\<rparr>"
proof (induction ms arbitrary: s)
  case (Cons m ms)
  have "linked n (mn_emit x s) = linked n s" for n x by (simp add: linked_def mn_emit_def split: module.splits)
  then show ?case using Cons by (auto simp: stop_module_def mn_emit_def bind_Some_iff)
qed auto

lemma load_slot_eq:
  "load_slot env n i pl s = Some (r, s') \<longleftrightarrow>
    (case tcs_plugins env n of
       None \<Rightarrow> r = -1 \<and> s' = s
     | Some f \<Rightarrow> dl_open env f \<and> dl_sym env f i \<and> r = 0 \<and> s' = s\<lparr>slots := (slots s)(pl \<mapsto> f), main_trace := main_trace s @ [Load pl f]\<rparr>)"
  by (auto simp: load_slot_def crm_plugin_load_def mn_emit_def bind_Some_iff split: option.splits)

lemma load_required_eq:
  "load_required env n i pl s = Some s' \<longleftrightarrow>
    (\<exists>f. tcs_plugins env n = Some f \<and> dl_open env f \<and> dl_sym env f i \<and> s' = s\<lparr>slots := (slots s)(pl \<mapsto> f), main_trace := main_trace s @ [Load pl f]\<rparr>)"
  by (auto simp: load_required_def load_slot_eq bind_Some_iff split: option.splits)

lemma unload_plugins_eq:
  "distinct pls \<Longrightarrow> unload_plugins env pls s = Some s' \<Longrightarrow>
    main_trace s' = main_trace s @ map Unload (filter (\<lambda>p. slots s p \<noteq> None) pls)"
proof (induction pls arbitrary: s)
  case (Cons p pls)
  show ?case
  proof (cases "slots s p")
    case (Some f)
    let ?s = "s\<lparr>slots := (slots s)(p := None), main_trace := main_trace s @ [Unload p]\<rparr>"
    have "unload_plugins env pls ?s = Some s'" using Cons.prems Some by (auto simp: crm_plugin_unload_def mn_emit_def bind_Some_iff)
    moreover have "filter (\<lambda>q. slots ?s q \<noteq> None) pls = filter (\<lambda>q. slots s q \<noteq> None) pls"
      using Cons.prems(1) by (intro filter_cong) auto
    ultimately show ?thesis using Cons.IH [of ?s] Cons.prems(1) Some by simp
  qed (use Cons in auto)
qed simp

abbreviation (input) required :: "ctrl_plugins list" where
  "required \<equiv> [PLUGIN_HAL, PLUGIN_CLIENTS, PLUGIN_FW_UPLOAD, PLUGIN_FW_ELECTOR, PLUGIN_CUSTOMIZATION, PLUGIN_WAKELOCK, PLUGIN_ESCALATION]"

text \<open>The libraries open after the loading: the required ones, and that of the dump when there is one.\<close>

lemma load_plugins_trace:
  assumes "load_plugins env inst s = Some s'" "slots s = Map.empty"
  shows "\<exists>fs. main_trace s' = main_trace s @ map2 Load (required @ (if slots s' PLUGIN_DUMP \<noteq> None then [PLUGIN_DUMP] else [])) fs \<and>
    length fs = (if slots s' PLUGIN_DUMP \<noteq> None then 8 else 7) \<and> (\<forall>p \<in> set required. slots s' p \<noteq> None)"
proof -
  from assms(1) obtain h s1 s2 s3 s4 s5 s6 s7 r where l: "load_required env h ''crm_hal_init'' PLUGIN_HAL s = Some s1"
    "load_required env ''clients'' ''crm_cli_abs_init'' PLUGIN_CLIENTS s1 = Some s2" "load_required env ''fw_upload'' ''crm_fw_upload_init'' PLUGIN_FW_UPLOAD s2 = Some s3"
    "load_required env ''fw_elector'' ''crm_fw_elector_init'' PLUGIN_FW_ELECTOR s3 = Some s4"
    "load_required env ''customization'' ''crm_customization_init'' PLUGIN_CUSTOMIZATION s4 = Some s5"
    "load_required env ''wakelock'' ''crm_wakelock_init'' PLUGIN_WAKELOCK s5 = Some s6"
    "load_required env ''escalation'' ''crm_escalation_init'' PLUGIN_ESCALATION s6 = Some s7" "load_slot env ''dump'' ''crm_dump_init'' PLUGIN_DUMP s7 = Some (r, s')"
    unfolding load_plugins_def Let_def by (elim bind_Some_E) (auto elim!: bind_Some_E split: prod.splits)
  have ld: "\<exists>f. slots y = (slots x)(pl \<mapsto> f) \<and> main_trace y = main_trace x @ [Load pl f]" if "load_required env n i pl x = Some y" for n i pl x y
    using that by (auto simp: load_required_eq)
  obtain f1 where 1: "slots s1 = [PLUGIN_HAL \<mapsto> f1]" "main_trace s1 = main_trace s @ [Load PLUGIN_HAL f1]" using ld [OF l(1)] assms(2) by auto
  obtain f2 where 2: "slots s2 = (slots s1)(PLUGIN_CLIENTS \<mapsto> f2)" "main_trace s2 = main_trace s1 @ [Load PLUGIN_CLIENTS f2]" using ld [OF l(2)] by auto
  obtain f3 where 3: "slots s3 = (slots s2)(PLUGIN_FW_UPLOAD \<mapsto> f3)" "main_trace s3 = main_trace s2 @ [Load PLUGIN_FW_UPLOAD f3]" using ld [OF l(3)] by auto
  obtain f4 where 4: "slots s4 = (slots s3)(PLUGIN_FW_ELECTOR \<mapsto> f4)" "main_trace s4 = main_trace s3 @ [Load PLUGIN_FW_ELECTOR f4]" using ld [OF l(4)] by auto
  obtain f5 where 5: "slots s5 = (slots s4)(PLUGIN_CUSTOMIZATION \<mapsto> f5)" "main_trace s5 = main_trace s4 @ [Load PLUGIN_CUSTOMIZATION f5]" using ld [OF l(5)] by auto
  obtain f6 where 6: "slots s6 = (slots s5)(PLUGIN_WAKELOCK \<mapsto> f6)" "main_trace s6 = main_trace s5 @ [Load PLUGIN_WAKELOCK f6]" using ld [OF l(6)] by auto
  obtain f7 where 7: "slots s7 = (slots s6)(PLUGIN_ESCALATION \<mapsto> f7)" "main_trace s7 = main_trace s6 @ [Load PLUGIN_ESCALATION f7]" using ld [OF l(7)] by auto
  note m = 1 2 3 4 5 6 7
  show ?thesis
  proof (cases "tcs_plugins env ''dump''")
    case None
    with l(8) have "s' = s7" by (simp add: load_slot_eq)
    then show ?thesis by (intro exI [of _ "[f1, f2, f3, f4, f5, f6, f7]"]) (simp add: m)
  next
    case (Some f8)
    with l(8) have "slots s' = (slots s7)(PLUGIN_DUMP \<mapsto> f8)" "main_trace s' = main_trace s7 @ [Load PLUGIN_DUMP f8]" by (simp_all add: load_slot_eq)
    then show ?thesis by (intro exI [of _ "[f1, f2, f3, f4, f5, f6, f7, f8]"]) (simp add: m)
  qed
qed

lemma start_plugins_trace:
  assumes "start_plugins env inst s = Some s'"
  shows "slots s' = slots s \<and> main_trace s' = main_trace s @ map Init ([Ipc, Plugin PLUGIN_WAKELOCK, Watchdog] @
    map Plugin [PLUGIN_CLIENTS, PLUGIN_HAL, PLUGIN_FW_UPLOAD, PLUGIN_FW_ELECTOR, PLUGIN_CUSTOMIZATION, PLUGIN_ESCALATION] @
    (if slots s PLUGIN_DUMP \<noteq> None then [Plugin PLUGIN_DUMP] else []))"
proof -
  let ?ms = "map Plugin [PLUGIN_CLIENTS, PLUGIN_HAL, PLUGIN_FW_UPLOAD, PLUGIN_FW_ELECTOR, PLUGIN_CUSTOMIZATION, PLUGIN_ESCALATION]"
  from assms obtain s1 b v s2 where s: "start_modules env [Ipc, Plugin PLUGIN_WAKELOCK, Watchdog] s = Some s1"
    "start_modules env ?ms (s1\<lparr>sanity_mode := b, host_debug := (v = ''true'')\<rparr>) = Some s2"
    "(if slots s1 PLUGIN_DUMP \<noteq> None then start_module env (Plugin PLUGIN_DUMP) s2 else Some s2) = Some s'"
    unfolding start_plugins_def Let_def by (elim bind_Some_E) blast
  have 1: "slots s1 = slots s" "main_trace s1 = main_trace s @ map Init [Ipc, Plugin PLUGIN_WAKELOCK, Watchdog]" using s(1) by (simp_all only: start_modules_eq) simp_all
  have 2: "slots s2 = slots s1" "main_trace s2 = main_trace s1 @ map Init ?ms" using s(2) by (simp_all only: start_modules_eq) simp_all
  have 3: "slots s' = slots s2" "main_trace s' = main_trace s2 @ (if slots s1 PLUGIN_DUMP \<noteq> None then [Init (Plugin PLUGIN_DUMP)] else [])"
    using s(3) by (auto simp: start_module_def mn_emit_def split: if_splits)
  from 1 2 3 show ?thesis by simp
qed

lemma stop_plugins_trace:
  assumes "stop_plugins env s = Some s'"
  shows "slots s' = slots s \<and> main_trace s' = main_trace s @ [EndMsg Ipc, EndMsg Watchdog] @ map Dispose (map Plugin [PLUGIN_CLIENTS, PLUGIN_HAL, PLUGIN_FW_UPLOAD, PLUGIN_CUSTOMIZATION] @
    [Watchdog, Plugin PLUGIN_WAKELOCK, Plugin PLUGIN_FW_ELECTOR] @ (if slots s PLUGIN_DUMP \<noteq> None then [Plugin PLUGIN_DUMP] else []) @ [Ipc])"
proof -
  let ?ms = "map Plugin [PLUGIN_CLIENTS, PLUGIN_HAL, PLUGIN_FW_UPLOAD, PLUGIN_CUSTOMIZATION] @ [Watchdog, Plugin PLUGIN_WAKELOCK, Plugin PLUGIN_FW_ELECTOR]"
  from assms obtain s1 s2 where s: "stop_modules env ?ms (mn_emit (EndMsg Watchdog) (mn_emit (EndMsg Ipc) s)) = Some s1"
    "(if slots s1 PLUGIN_DUMP \<noteq> None then stop_module env (Plugin PLUGIN_DUMP) s1 else Some s1) = Some s2" "stop_module env Ipc s2 = Some s'"
    unfolding stop_plugins_def Let_def by (elim bind_Some_E) blast
  have 1: "slots s1 = slots s" "main_trace s1 = main_trace s @ [EndMsg Ipc, EndMsg Watchdog] @ map Dispose ?ms"
    using s(1) by (simp_all only: stop_modules_eq) (simp_all add: mn_emit_def)
  have 2: "slots s2 = slots s1" "main_trace s2 = main_trace s1 @ (if slots s1 PLUGIN_DUMP \<noteq> None then [Dispose (Plugin PLUGIN_DUMP)] else [])"
    using s(2) by (auto simp: stop_module_def mn_emit_def split: if_splits)
  have 3: "slots s' = slots s2" "main_trace s' = main_trace s2 @ [Dispose Ipc]" using s(3) by (auto simp: stop_module_def mn_emit_def)
  from 1 2 3 show ?thesis by simp
qed

lemma ctrl_dispose_trace:
  assumes "ctrl_dispose env s = Some s'" "\<forall>p \<in> set required. slots s p \<noteq> None"
  shows "main_trace s' = main_trace s @ [EndMsg Ipc, EndMsg Watchdog] @ map Dispose (map Plugin [PLUGIN_CLIENTS, PLUGIN_HAL, PLUGIN_FW_UPLOAD, PLUGIN_CUSTOMIZATION] @
    [Watchdog, Plugin PLUGIN_WAKELOCK, Plugin PLUGIN_FW_ELECTOR] @ (if slots s PLUGIN_DUMP \<noteq> None then [Plugin PLUGIN_DUMP] else []) @ [Ipc]) @
    map Unload ([PLUGIN_CLIENTS, PLUGIN_HAL, PLUGIN_FW_UPLOAD, PLUGIN_FW_ELECTOR, PLUGIN_CUSTOMIZATION, PLUGIN_ESCALATION, PLUGIN_WAKELOCK] @
      (if slots s PLUGIN_DUMP \<noteq> None then [PLUGIN_DUMP] else []))"
proof -
  from assms(1) obtain s1 where s1: "stop_plugins env s = Some s1" "unload_plugins env plugin_order s1 = Some s'" by (auto simp: ctrl_dispose_def bind_Some_iff)
  have t: "slots s1 = slots s \<and> main_trace s1 = main_trace s @ [EndMsg Ipc, EndMsg Watchdog] @ map Dispose (map Plugin [PLUGIN_CLIENTS, PLUGIN_HAL, PLUGIN_FW_UPLOAD, PLUGIN_CUSTOMIZATION] @
    [Watchdog, Plugin PLUGIN_WAKELOCK, Plugin PLUGIN_FW_ELECTOR] @ (if slots s PLUGIN_DUMP \<noteq> None then [Plugin PLUGIN_DUMP] else []) @ [Ipc])"
    using s1(1) by (rule stop_plugins_trace)
  have "distinct plugin_order" by simp
  from unload_plugins_eq [OF this s1(2)] t assms(2) show ?thesis by auto
qed

text \<open>The trace of a whole run.\<close>

lemma run_crm_trace:
  assumes "run_crm env inst = Some s"
  shows "\<exists>f fs dump. length fs = 7 + length dump \<and> (dump = [] \<or> dump = [PLUGIN_DUMP]) \<and>
    main_trace s = [Init Factory, Init Tcs, LoadControl f] @ map2 Load (required @ dump) fs @
      map Init ([Ipc, Plugin PLUGIN_WAKELOCK, Watchdog] @ map Plugin ([PLUGIN_CLIENTS, PLUGIN_HAL, PLUGIN_FW_UPLOAD, PLUGIN_FW_ELECTOR, PLUGIN_CUSTOMIZATION, PLUGIN_ESCALATION] @ dump)) @
      [Dispose Tcs, EventLoop, EndMsg Ipc, EndMsg Watchdog] @
      map Dispose (map Plugin [PLUGIN_CLIENTS, PLUGIN_HAL, PLUGIN_FW_UPLOAD, PLUGIN_CUSTOMIZATION] @ [Watchdog, Plugin PLUGIN_WAKELOCK, Plugin PLUGIN_FW_ELECTOR] @ map Plugin dump @ [Ipc]) @
      map Unload ([PLUGIN_CLIENTS, PLUGIN_HAL, PLUGIN_FW_UPLOAD, PLUGIN_FW_ELECTOR, PLUGIN_CUSTOMIZATION, PLUGIN_ESCALATION, PLUGIN_WAKELOCK] @ dump) @
      [Dispose Factory, UnloadControl]"
proof -
  from assms obtain s0 f s2 s3 s4 s5 where r: "start_modules env [Factory, Tcs] \<lparr>slots = Map.empty, sanity_mode = False, host_debug = False, main_trace = []\<rparr> = Some s0"
    "ctrl_init env inst (mn_emit (LoadControl f) s0) = Some s2" "stop_module env Tcs s2 = Some s3"
    "ctrl_dispose env (mn_emit EventLoop s3) = Some s4" "stop_module env Factory s4 = Some s5" "Some (mn_emit UnloadControl s5) = Some s"
    unfolding run_crm_def Let_def by (elim bind_Some_E) blast
  have 0: "slots s0 = Map.empty" "main_trace s0 = [Init Factory, Init Tcs]" using r(1) by (simp_all only: start_modules_eq) simp_all
  from r(2) obtain s1 where s1: "load_plugins env inst (mn_emit (LoadControl f) s0) = Some s1" "start_plugins env inst s1 = Some s2"
    unfolding ctrl_init_def by (elim bind_Some_E) blast
  define dump where "dump = (if slots s1 PLUGIN_DUMP \<noteq> None then [PLUGIN_DUMP] else [])"
  obtain fs where fs: "main_trace s1 = [Init Factory, Init Tcs, LoadControl f] @ map2 Load (required @ dump) fs" "length fs = 7 + length dump"
    "\<forall>p \<in> set required. slots s1 p \<noteq> None"
    using load_plugins_trace [OF s1(1)] 0 by (auto simp: mn_emit_def dump_def split: if_splits)
  have 2: "slots s2 = slots s1" "main_trace s2 = main_trace s1 @ map Init ([Ipc, Plugin PLUGIN_WAKELOCK, Watchdog] @
      map Plugin ([PLUGIN_CLIENTS, PLUGIN_HAL, PLUGIN_FW_UPLOAD, PLUGIN_FW_ELECTOR, PLUGIN_CUSTOMIZATION, PLUGIN_ESCALATION] @ dump))"
    using start_plugins_trace [OF s1(2)] by (auto simp: dump_def)
  have 3: "slots s3 = slots s2" "main_trace s3 = main_trace s2 @ [Dispose Tcs]" using r(3) by (auto simp: stop_module_def mn_emit_def)
  have "\<forall>p \<in> set required. slots (mn_emit EventLoop s3) p \<noteq> None" using fs(3) 2(1) 3(1) by (simp add: mn_emit_def)
  from ctrl_dispose_trace [OF r(4) this] have 4: "main_trace s4 = main_trace s3 @ [EventLoop, EndMsg Ipc, EndMsg Watchdog] @
      map Dispose (map Plugin [PLUGIN_CLIENTS, PLUGIN_HAL, PLUGIN_FW_UPLOAD, PLUGIN_CUSTOMIZATION] @ [Watchdog, Plugin PLUGIN_WAKELOCK, Plugin PLUGIN_FW_ELECTOR] @ map Plugin dump @ [Ipc]) @
      map Unload ([PLUGIN_CLIENTS, PLUGIN_HAL, PLUGIN_FW_UPLOAD, PLUGIN_FW_ELECTOR, PLUGIN_CUSTOMIZATION, PLUGIN_ESCALATION, PLUGIN_WAKELOCK] @ dump)"
    using 2(1) 3(1) by (simp add: mn_emit_def dump_def)
  have 5: "main_trace s = main_trace s4 @ [Dispose Factory, UnloadControl]" using r(5,6) by (auto simp: stop_module_def mn_emit_def)
  have "dump = [] \<or> dump = [PLUGIN_DUMP]" by (simp add: dump_def)
  with fs(1,2) 2(2) 3(2) 4 5 show ?thesis by (intro exI [of _ f] exI [of _ fs] exI [of _ dump]) simp
qed

lemma length_eight: "length fs = 8 \<Longrightarrow> \<exists>a b c d e f g h. fs = [a, b, c, d, e, f, g, h]"
  by (auto simp: length_Suc_conv eval_nat_numeral)

lemma length_seven: "length fs = 7 \<Longrightarrow> \<exists>a b c d e f g. fs = [a, b, c, d, e, f, g]"
  by (auto simp: length_Suc_conv eval_nat_numeral)

text \<open>The configuration is complete and every call of the system and of the plugins succeeds.\<close>

definition main_env_ok :: "main_env \<Rightarrow> bool" where
  "main_env_ok env \<longleftrightarrow> props env = Map.empty \<and> tcs_main env ''control'' \<noteq> None \<and>
     (\<forall>n \<in> {''hal'', ''clients'', ''fw_upload'', ''fw_elector'', ''customization'', ''wakelock'', ''escalation''}. tcs_plugins env n \<noteq> None) \<and>
     tcs_watchdog_timeout env \<noteq> None \<and> tcs_ping_period env \<noteq> None \<and> (\<forall>f. dl_open env f \<and> dl_close env f) \<and> (\<forall>f i. dl_sym env f i) \<and>
     (\<forall>m. init_ok env m \<and> dispose_ok env m) \<and> loop_ends env"

lemma property_default:
  assumes "main_env_ok env" "length k < 92" "length d < 92"
  shows "crm_property_get inst (props env) k d = Some d"
proof -
  have "length (takeWhile (\<lambda>c. c \<noteq> CHR ''@'') k) < 92" using assms(2) length_takeWhile_le [of _ k] le_less_trans by blast
  then show ?thesis using assms by (simp add: crm_property_get_def compute_key_def main_env_ok_def Let_def)
qed

lemma load_completes:
  assumes "main_env_ok env"
  shows "\<exists>s'. load_plugins env inst s = Some s'"
proof -
  have r: "\<exists>s'. load_required env n i pl s = Some s'"
    if n: "n \<in> {''hal'', ''clients'', ''fw_upload'', ''fw_elector'', ''customization'', ''wakelock'', ''escalation''}" for n i pl s
  proof -
    have "\<forall>n \<in> {''hal'', ''clients'', ''fw_upload'', ''fw_elector'', ''customization'', ''wakelock'', ''escalation''}. tcs_plugins env n \<noteq> None"
      and o: "\<And>f i. dl_open env f \<and> dl_sym env f i" using assms by (simp_all only: main_env_ok_def) simp_all
    from bspec [OF this(1) n] obtain f where "tcs_plugins env n = Some f" by blast
    with o show ?thesis by (simp add: load_required_eq)
  qed
  have d: "\<exists>r s'. load_slot env n i pl s = Some (r, s')" for n i pl s
    using assms by (cases "tcs_plugins env n") (auto simp: load_slot_eq main_env_ok_def)
  have p: "crm_property_get inst (props env) ''persist.sys.crm@.load_stub'' ''false'' = Some ''false''" by (rule property_default [OF assms]) simp_all
  obtain s1 where s1: "load_required env ''hal'' ''crm_hal_init'' PLUGIN_HAL s = Some s1" using r by blast
  obtain s2 where s2: "load_required env ''clients'' ''crm_cli_abs_init'' PLUGIN_CLIENTS s1 = Some s2" using r by blast
  obtain s3 where s3: "load_required env ''fw_upload'' ''crm_fw_upload_init'' PLUGIN_FW_UPLOAD s2 = Some s3" using r by blast
  obtain s4 where s4: "load_required env ''fw_elector'' ''crm_fw_elector_init'' PLUGIN_FW_ELECTOR s3 = Some s4" using r by blast
  obtain s5 where s5: "load_required env ''customization'' ''crm_customization_init'' PLUGIN_CUSTOMIZATION s4 = Some s5" using r by blast
  obtain s6 where s6: "load_required env ''wakelock'' ''crm_wakelock_init'' PLUGIN_WAKELOCK s5 = Some s6" using r by blast
  obtain s7 where s7: "load_required env ''escalation'' ''crm_escalation_init'' PLUGIN_ESCALATION s6 = Some s7" using r by blast
  obtain q s8 where s8: "load_slot env ''dump'' ''crm_dump_init'' PLUGIN_DUMP s7 = Some (q, s8)" using d by blast
  show ?thesis by (simp add: load_plugins_def p s1 s2 s3 s4 s5 s6 s7 s8)
qed

lemma modules_complete:
  assumes "main_env_ok env" "\<forall>m \<in> set ms. linked m s"
  shows "start_modules env ms s = Some (s\<lparr>main_trace := main_trace s @ map Init ms\<rparr>)" "stop_modules env ms s = Some (s\<lparr>main_trace := main_trace s @ map Dispose ms\<rparr>)"
  using assms by (auto simp: start_modules_eq stop_modules_eq main_env_ok_def)

lemma start_completes:
  assumes "main_env_ok env" "\<forall>p \<in> set required. slots s p \<noteq> None"
  shows "\<exists>s'. start_plugins env inst s = Some s'"
proof -
  have l: "linked m (s\<lparr>main_trace := t, sanity_mode := b, host_debug := h\<rparr>)" "linked m s" if "m \<in> {Ipc, Watchdog} \<union> Plugin ` set required" for m t b h
    using assms(2) that by (auto simp: linked_def split: module.splits)
  have v: "crm_property_get inst (props env) ''crm@.host_test'' ''false'' = Some ''false''" "crm_property_get inst (props env) ''ro.build.type'' [] = Some []"
    "crm_property_get inst (props env) ''sys.crm@.sanity'' [] = Some []" by (rule property_default [OF assms(1)]; simp)+
  let ?t = "main_trace s @ map Init [Ipc, Plugin PLUGIN_WAKELOCK, Watchdog]"
  have 1: "start_modules env [Ipc, Plugin PLUGIN_WAKELOCK, Watchdog] s = Some (s\<lparr>main_trace := ?t\<rparr>)"
    by (rule modules_complete [OF assms(1)]) (use l in auto)
  have "\<exists>s2. start_modules env (map Plugin [PLUGIN_CLIENTS, PLUGIN_HAL, PLUGIN_FW_UPLOAD, PLUGIN_FW_ELECTOR, PLUGIN_CUSTOMIZATION, PLUGIN_ESCALATION])
      (s\<lparr>main_trace := ?t, sanity_mode := False, host_debug := False\<rparr>) = Some s2 \<and> slots s2 = slots s"
    by (subst modules_complete(1) [OF assms(1)]) (use l in auto)
  then obtain s2 where 2: "start_modules env (map Plugin [PLUGIN_CLIENTS, PLUGIN_HAL, PLUGIN_FW_UPLOAD, PLUGIN_FW_ELECTOR, PLUGIN_CUSTOMIZATION, PLUGIN_ESCALATION])
      (s\<lparr>main_trace := ?t, sanity_mode := False, host_debug := False\<rparr>) = Some s2" "slots s2 = slots s" by blast
  have "\<exists>s3. start_module env (Plugin PLUGIN_DUMP) s2 = Some s3" if "slots s PLUGIN_DUMP \<noteq> None"
    using assms(1) that 2(2) by (simp add: start_module_def linked_def main_env_ok_def)
  then show ?thesis
    by (cases "slots s PLUGIN_DUMP") (simp_all add: start_plugins_def crm_is_in_sanity_test_mode_def v 1 2(1) del: start_modules.simps list.map)
qed

lemma unload_completes: "main_env_ok env \<Longrightarrow> \<exists>s'. unload_plugins env pls s = Some s'"
  by (induction pls arbitrary: s) (auto simp: crm_plugin_unload_def main_env_ok_def)

lemma dispose_completes:
  assumes "main_env_ok env" "\<forall>p \<in> set required. slots s p \<noteq> None"
  shows "\<exists>s'. ctrl_dispose env s = Some s'"
proof -
  let ?s = "mn_emit (EndMsg Watchdog) (mn_emit (EndMsg Ipc) s)"
  let ?ms = "map Plugin [PLUGIN_CLIENTS, PLUGIN_HAL, PLUGIN_FW_UPLOAD, PLUGIN_CUSTOMIZATION] @ [Watchdog, Plugin PLUGIN_WAKELOCK, Plugin PLUGIN_FW_ELECTOR]"
  have 1: "stop_modules env ?ms ?s = Some (?s\<lparr>main_trace := main_trace ?s @ map Dispose ?ms\<rparr>)"
    by (rule modules_complete [OF assms(1)]) (use assms(2) in \<open>auto simp: linked_def mn_emit_def\<close>)
  have 2: "\<exists>s3. stop_module env (Plugin PLUGIN_DUMP) s2 = Some s3" if "slots s2 PLUGIN_DUMP \<noteq> None" for s2
    using assms(1) that by (simp add: stop_module_def linked_def main_env_ok_def)
  have 3: "\<exists>s3. stop_module env Ipc s2 = Some s3" for s2
    using assms(1) by (simp add: stop_module_def linked_def main_env_ok_def)
  define s1 where "s1 = ?s\<lparr>main_trace := main_trace ?s @ map Dispose ?ms\<rparr>"
  obtain s2 where s2: "(if slots s1 PLUGIN_DUMP \<noteq> None then stop_module env (Plugin PLUGIN_DUMP) s1 else Some s1) = Some s2"
    using 2 [of s1] by (cases "slots s1 PLUGIN_DUMP") auto
  obtain s3 where s3: "stop_module env Ipc s2 = Some s3" using 3 by blast
  have "stop_plugins env s = Some s3"
    unfolding stop_plugins_def Let_def 1 s1_def [symmetric] by (simp only: bind.bind_lunit s2 s3)
  moreover obtain s4 where "unload_plugins env plugin_order s3 = Some s4" using unload_completes [OF assms(1)] by blast
  ultimately show ?thesis by (simp add: ctrl_dispose_def del: unload_plugins.simps)
qed

lemma run_completes:
  assumes "main_env_ok env" "0 \<le> inst" "inst \<le> 9"
  shows "\<exists>s. run_crm env inst = Some s"
proof -
  let ?s = "\<lparr>slots = Map.empty, sanity_mode = False, host_debug = False, main_trace = []\<rparr>"
  define s0 where "s0 = ?s\<lparr>main_trace := main_trace ?s @ map Init [Factory, Tcs]\<rparr>"
  have 0: "start_modules env [Factory, Tcs] ?s = Some s0" unfolding s0_def
    by (rule modules_complete [OF assms(1)]) (simp add: linked_def)
  obtain f where f: "tcs_main env ''control'' = Some f" using assms(1) by (auto simp: main_env_ok_def)
  have 1: "crm_plugin_load env (tcs_main env) ''control'' ''crm_ctrl_init'' = Some (Some f)"
    using assms(1) f by (simp add: crm_plugin_load_def main_env_ok_def)
  obtain t pp where t: "tcs_watchdog_timeout env = Some t" "tcs_ping_period env = Some pp" using assms(1) by (auto simp: main_env_ok_def)
  obtain s1 where s1: "load_plugins env inst (mn_emit (LoadControl f) s0) = Some s1" using load_completes [OF assms(1)] by blast
  have r: "\<forall>p \<in> set required. slots s1 p \<noteq> None" using load_plugins_trace [OF s1] by (auto simp: mn_emit_def s0_def)
  obtain s2 where s2: "start_plugins env inst s1 = Some s2" using start_completes [OF assms(1) r] by blast
  have 2: "ctrl_init env inst (mn_emit (LoadControl f) s0) = Some s2" by (simp add: ctrl_init_def t s1 s2)
  have st: "stop_module env Tcs x = Some (mn_emit (Dispose Tcs) x)" "stop_module env Factory x = Some (mn_emit (Dispose Factory) x)" for x
    using assms(1) by (simp_all add: stop_module_def linked_def main_env_ok_def)
  have "\<forall>p \<in> set required. slots (mn_emit EventLoop (mn_emit (Dispose Tcs) s2)) p \<noteq> None"
    using r start_plugins_trace [OF s2] by (simp add: mn_emit_def)
  from dispose_completes [OF assms(1) this] obtain s3 where s3: "ctrl_dispose env (mn_emit EventLoop (mn_emit (Dispose Tcs) s2)) = Some s3" by blast
  have "crm_property_init inst = Some inst" "loop_ends env" "dl_close env f" using assms by (simp_all add: crm_property_init_def main_env_ok_def)
  then show ?thesis by (simp add: run_crm_def 0 1 2 s3 st del: start_modules.simps)
qed

lemma life_run:
  assumes "run_crm env inst = Some s"
  shows "life (main_trace s) (False, {}, {}, {}) = Some (False, {}, {}, {PLUGIN_ESCALATION})"
proof -
  from run_crm_trace [OF assms] obtain f fs dump where t: "length fs = 7 + length dump" "dump = [] \<or> dump = [PLUGIN_DUMP]"
    "main_trace s = [Init Factory, Init Tcs, LoadControl f] @ map2 Load (required @ dump) fs @
      map Init ([Ipc, Plugin PLUGIN_WAKELOCK, Watchdog] @ map Plugin ([PLUGIN_CLIENTS, PLUGIN_HAL, PLUGIN_FW_UPLOAD, PLUGIN_FW_ELECTOR, PLUGIN_CUSTOMIZATION, PLUGIN_ESCALATION] @ dump)) @
      [Dispose Tcs, EventLoop, EndMsg Ipc, EndMsg Watchdog] @
      map Dispose (map Plugin [PLUGIN_CLIENTS, PLUGIN_HAL, PLUGIN_FW_UPLOAD, PLUGIN_CUSTOMIZATION] @ [Watchdog, Plugin PLUGIN_WAKELOCK, Plugin PLUGIN_FW_ELECTOR] @ map Plugin dump @ [Ipc]) @
      map Unload ([PLUGIN_CLIENTS, PLUGIN_HAL, PLUGIN_FW_UPLOAD, PLUGIN_FW_ELECTOR, PLUGIN_CUSTOMIZATION, PLUGIN_ESCALATION, PLUGIN_WAKELOCK] @ dump) @
      [Dispose Factory, UnloadControl]" by blast
  from t(2) show ?thesis
  proof
    assume d: "dump = []"
    with t(1) length_seven [of fs] obtain a b c e g h k where "fs = [a, b, c, e, g, h, k]" by auto
    with t(3) d show ?thesis by (simp add: insert_Diff_if)
  next
    assume d: "dump = [PLUGIN_DUMP]"
    with t(1) length_eight [of fs] obtain a b c e g h k l where "fs = [a, b, c, e, g, h, k, l]" by auto
    with t(3) d show ?thesis by (simp add: insert_Diff_if)
  qed
qed

text \<open>
  C19: CRM comes up and goes down in order. In every run of the program that ends (and not by a signal, whose handler disposes the factory and exits), no library is called before it is open or
  after it is closed, no module is created before those it uses and none disposed while a module that uses it lives, the loop of
  Control runs with every module there, and at the end every library is closed and every context disposed except
  that of the escalation, which nobody disposes and whose library is closed under it. With a complete configuration and no failure the program does end.
\<close>

theorem crm_life_cycle:
  "(main env d opts = Some (0, tr) \<longrightarrow> life tr (False, {}, {}, {}) = Some (False, {}, {}, {PLUGIN_ESCALATION})) \<and>
   (main_env_ok env \<and> parse_opts opts d = Some (Some inst) \<and> 0 \<le> inst \<and> inst \<le> 9 \<longrightarrow> (\<exists>tr. main env d opts = Some (0, tr)))"
proof (intro conjI impI)
  assume "main env d opts = Some (0, tr)"
  then obtain e i s where "run_crm e i = Some s" "tr = main_trace s"
    by (auto simp: main_def bind_Some_iff split: option.splits)
  then show "life tr (False, {}, {}, {}) = Some (False, {}, {}, {PLUGIN_ESCALATION})" using life_run by simp
next
  assume a: "main_env_ok env \<and> parse_opts opts d = Some (Some inst) \<and> 0 \<le> inst \<and> inst \<le> 9"
  then have m: "main_env_ok env" by simp
  have "crm_property_get 0 (props env) ''persist.config.specific'' [] = Some []" by (rule property_default [OF m]) simp_all
  moreover obtain s where "run_crm env inst = Some s" using run_completes a by blast
  ultimately show "\<exists>tr. main env d opts = Some (0, tr)" using a by (simp add: main_def)
qed

definition main_demo :: main_env where
  "main_demo = \<lparr>props = Map.empty, tcs_main = (\<lambda>n. Some (''lib'' @ n)), tcs_plugins = (\<lambda>n. Some (''lib'' @ n)), tcs_watchdog_timeout = Some 60000,
     tcs_ping_period = Some 10000, dl_open = (\<lambda>f. True), dl_sym = (\<lambda>f i. True), dl_close = (\<lambda>f. True), init_ok = (\<lambda>m. True),
     dispose_ok = (\<lambda>m. True), loop_ends = True\<rparr>"

theorem crm_life_cycle_witness:
  "\<exists>tr. main main_demo 0 [OptVersion, OptInstance (Some 1)] = Some (0, tr) \<and> life tr (False, {}, {}, {}) = Some (False, {}, {}, {PLUGIN_ESCALATION})"
proof -
  have "main_env_ok main_demo" by (simp add: main_env_ok_def main_demo_def)
  moreover have "parse_opts [OptVersion, OptInstance (Some 1)] 0 = Some (Some 1)" by simp
  ultimately obtain tr where "main main_demo 0 [OptVersion, OptInstance (Some 1)] = Some (0, tr)"
    using crm_life_cycle [of main_demo 0 "[OptVersion, OptInstance (Some 1)]" _ 1] by auto
  with crm_life_cycle [of main_demo 0 "[OptVersion, OptInstance (Some 1)]" tr 1] show ?thesis by blast
qed

end
