(* ===== verification/Crm_Socket.thy ===== *)
theory Crm_Socket
  imports Crm_Prelude "HOL-Library.Sublist" "HOL-Library.Word"
begin

text \<open>
  libs/utils/src/socket.c: writing and reading a given number of bytes before a deadline. What a turn of the loop finds is
  an item of a list: an interrupted or a failed \<open>poll\<close>, an interrupted or a failed transfer, or a number of bytes the
  kernel is ready to transfer. When the list ends the deadline has passed.
\<close>

datatype sock_turn = PollInterrupted | PollFailed | IoInterrupted | IoFailed | IoReady nat

text \<open>The loop of \<open>crm_socket_write\<close>: \<open>data_sent\<close> is the number of bytes sent so far, \<open>peer\<close> what the other end has got.
  Each \<open>write\<close> is given the data from \<open>data_sent\<close> on, and the kernel takes the first \<open>ret\<close> bytes of them.\<close>

fun write_loop :: "8 word list \<Rightarrow> sock_turn list \<Rightarrow> nat \<Rightarrow> 8 word list \<Rightarrow> int \<times> 8 word list" where
  "write_loop dat [] data_sent peer = (if data_sent < length dat then -1 else 0, peer)"
| "write_loop dat (t # ts) data_sent peer =
     (if data_sent < length dat
      then (case t of
              PollInterrupted \<Rightarrow> write_loop dat ts data_sent peer
            | PollFailed \<Rightarrow> (-1, peer)
            | IoInterrupted \<Rightarrow> write_loop dat ts data_sent peer
            | IoFailed \<Rightarrow> (-1, peer)
            | IoReady n \<Rightarrow> let data_ptr = drop data_sent dat; ret = min n (length dat - data_sent)
                           in if ret = 0 then (-1, peer) else write_loop dat ts (data_sent + ret) (peer @ take ret data_ptr))
      else (0, peer))"

text \<open>The result and what the peer gets.\<close>

definition crm_socket_write :: "int \<Rightarrow> int \<Rightarrow> 8 word list \<Rightarrow> sock_turn list \<Rightarrow> (int \<times> 8 word list) option" where
  "crm_socket_write fd timeout dat ts = do {
     ASSERT (fd \<ge> 0);
     ASSERT (timeout > 0);
     ASSERT (length dat > 0);
     Some (write_loop dat ts 0 [])
   }"

text \<open>The loop of \<open>crm_socket_read\<close>: \<open>got\<close> is the buffer, \<open>stream\<close> what the peer has sent.\<close>

fun read_loop :: "nat \<Rightarrow> sock_turn list \<Rightarrow> 8 word list \<Rightarrow> 8 word list \<Rightarrow> int \<times> 8 word list \<times> 8 word list" where
  "read_loop data_size [] got stream = (if length got < data_size then -1 else 0, got, stream)"
| "read_loop data_size (t # ts) got stream =
     (if length got < data_size
      then (case t of
              PollInterrupted \<Rightarrow> read_loop data_size ts got stream
            | PollFailed \<Rightarrow> (-1, got, stream)
            | IoInterrupted \<Rightarrow> read_loop data_size ts got stream
            | IoFailed \<Rightarrow> (-1, got, stream)
            | IoReady n \<Rightarrow> let ret = min (min n (length stream)) (data_size - length got)
                           in if ret = 0 then (-1, got, stream) else read_loop data_size ts (got @ take ret stream) (drop ret stream))
      else (0, got, stream))"

definition crm_socket_read :: "int \<Rightarrow> int \<Rightarrow> nat \<Rightarrow> sock_turn list \<Rightarrow> 8 word list \<Rightarrow> (int \<times> 8 word list \<times> 8 word list) option" where
  "crm_socket_read fd timeout data_size ts stream = do {
     ASSERT (fd \<ge> 0);
     ASSERT (timeout > 0);
     ASSERT (data_size > 0);
     Some (read_loop data_size ts [] stream)
   }"

text \<open>The control socket of the platform: \<open>fd\<close> and \<open>listen\<close> are what the system answers.\<close>

definition crm_socket_create :: "int \<Rightarrow> int \<Rightarrow> int" where
  "crm_socket_create fd listen_ret = (if fd \<ge> 0 \<and> listen_ret \<noteq> 0 then -1 else fd)"

section \<open>Transfers\<close>

lemma write_loop_result:
  assumes "write_loop dat ts s (take s dat) = (r, p)" "s \<le> length dat"
  shows "r = 0 \<and> p = dat \<or> r = -1 \<and> strict_prefix p dat"
  using assms
proof (induction ts arbitrary: s)
  case Nil
  then show ?case by (auto simp: strict_prefix_def take_is_prefix split: if_splits)
next
  case (Cons t ts)
  show ?case
  proof (cases "s < length dat")
    case True
    then have p: "strict_prefix (take s dat) dat" by (auto simp: strict_prefix_def take_is_prefix)
    show ?thesis
    proof (cases t)
      case (IoReady n)
      let ?ret = "min n (length dat - s)"
      have "take s dat @ take ?ret (drop s dat) = take (s + ?ret) dat" by (simp only: take_add)
      then show ?thesis using Cons.prems(1) True IoReady p Cons.IH [of "s + ?ret"] by (auto simp: Let_def split: if_splits)
    qed (use Cons True p in auto)
  next
    case False
    with Cons.prems show ?thesis by auto
  qed
qed

lemma read_loop_result:
  assumes "read_loop sz ts got stream = (r, got', stream')" "length got \<le> sz"
  shows "got' @ stream' = got @ stream \<and> (r = 0 \<and> length got' = sz \<or> r = -1 \<and> length got' < sz)"
  using assms
proof (induction sz ts got stream rule: read_loop.induct)
  case (1 sz got stream)
  then show ?case by (auto split: if_splits)
next
  case (2 sz t ts got stream)
  show ?case
  proof (cases "length got < sz")
    case True
    show ?thesis
    proof (cases t)
      case (IoReady n)
      define ret where "ret = min (min n (length stream)) (sz - length got)"
      show ?thesis
      proof (cases "ret = 0")
        case False
        with True IoReady 2(4) have "read_loop sz ts (got @ take ret stream) (drop ret stream) = (r, got', stream')"
          by (simp add: Let_def flip: ret_def)
        moreover have "length (got @ take ret stream) \<le> sz" using True by (auto simp: ret_def)
        ultimately show ?thesis using 2(3) [OF True IoReady ret_def False] by simp
      qed (use True IoReady 2(4) in \<open>auto simp: ret_def Let_def\<close>)
    qed (use True 2 in auto)
  next
    case False
    with 2 show ?thesis by auto
  qed
qed

text \<open>Turns that transfer something, or are interrupted, until there is nothing left.\<close>

fun moves :: "sock_turn list \<Rightarrow> nat" where
  "moves [] = 0"
| "moves (IoReady n # ts) = n + moves ts"
| "moves (t # ts) = moves ts"

definition no_failure :: "sock_turn list \<Rightarrow> bool" where
  "no_failure ts \<longleftrightarrow> PollFailed \<notin> set ts \<and> IoFailed \<notin> set ts \<and> IoReady 0 \<notin> set ts"

lemma no_failure_Cons: "no_failure (t # ts) \<longleftrightarrow> t \<noteq> PollFailed \<and> t \<noteq> IoFailed \<and> t \<noteq> IoReady 0 \<and> no_failure ts"
  by (auto simp: no_failure_def)

lemma write_loop_ends:
  assumes "no_failure ts" "length dat \<le> s + moves ts" "s \<le> length dat"
  shows "fst (write_loop dat ts s peer) = 0"
  using assms
proof (induction ts arbitrary: s peer)
  case (Cons t ts)
  show ?case
  proof (cases "s < length dat")
    case True
    show ?thesis using Cons True
    proof (cases t)
      case (IoReady n)
      have "n \<noteq> 0" using Cons(2) IoReady by (auto simp: no_failure_Cons)
      moreover have "fst (write_loop dat ts (s + min n (length dat - s)) q) = 0" for q
        by (rule Cons(1)) (use Cons(2-4) IoReady in \<open>auto simp: no_failure_Cons\<close>)
      ultimately show ?thesis using True IoReady by (simp add: Let_def)
    qed (auto simp: no_failure_Cons)
  qed (use Cons(4) in simp)
qed simp

section \<open>Properties\<close>

text \<open>
  C21: what is written over a socket is what is read at the other end. When a write returns 0 all the data have been sent, and
  when it returns -1 a part of them has, never more and never out of order; a read that returns 0 gives exactly the number of bytes
  asked for, the next ones of the stream, and leaves the rest; and a write without failures returns 0 as soon
  as the kernel has taken as many bytes as there are, however it cuts them and however often it is interrupted.
\<close>

theorem socket_roundtrip:
  assumes "crm_socket_write fd tmo dat ws = Some (r, sent_bytes)"
  shows "(r = 0 \<and> sent_bytes = dat \<or> r = -1 \<and> strict_prefix sent_bytes dat) \<and>
    (no_failure ws \<and> length dat \<le> moves ws \<longrightarrow> r = 0) \<and>
    (\<forall>r' got rest'. r = 0 \<and> crm_socket_read fd' tmo' (length dat) rs (sent_bytes @ rest) = Some (r', got, rest') \<longrightarrow>
       r' = 0 \<and> got = dat \<and> rest' = rest \<or> r' = -1 \<and> strict_prefix got dat)"
proof -
  have w: "write_loop dat ws 0 (take 0 dat) = (r, sent_bytes)" using assms by (auto simp: crm_socket_write_def split: if_splits)
  have wr: "r = 0 \<and> sent_bytes = dat \<or> r = -1 \<and> strict_prefix sent_bytes dat" using write_loop_result [OF w] by simp
  moreover have "no_failure ws \<and> length dat \<le> moves ws \<longrightarrow> r = 0" using write_loop_ends [of ws dat 0 "[]"] w by simp
  moreover have "r' = 0 \<and> got = dat \<and> rest' = rest \<or> r' = -1 \<and> strict_prefix got dat"
    if a: "r = 0" "crm_socket_read fd' tmo' (length dat) rs (sent_bytes @ rest) = Some (r', got, rest')" for r' got rest'
  proof -
    from a(1) wr have s: "sent_bytes = dat" by auto
    from a(2) have "read_loop (length dat) rs [] (dat @ rest) = (r', got, rest')" by (auto simp: crm_socket_read_def s split: if_splits)
    from read_loop_result [OF this] have l: "got @ rest' = dat @ rest" "r' = 0 \<and> length got = length dat \<or> r' = -1 \<and> length got < length dat" by simp_all
    from l show ?thesis by (auto simp: append_eq_append_conv2 strict_prefix_def prefix_def)
  qed
  ultimately show ?thesis by blast
qed

theorem socket_roundtrip_witness:
  "crm_socket_write 3 500 [1, 2, 3] [IoReady 2, PollInterrupted, IoReady 9] = Some (0, [1, 2, 3]) \<and>
   crm_socket_read 4 500 3 [IoReady 1, IoReady 5] ([1, 2, 3] @ [7]) = Some (0, [1, 2, 3], [7])"
proof -
  have w: "crm_socket_write 3 500 [1, 2, 3] [IoReady 2, PollInterrupted, IoReady 9] = Some (0, [1, 2, 3])" by (simp add: crm_socket_write_def)
  have "crm_socket_read 4 500 3 [IoReady 1, IoReady 5] ([1, 2, 3] @ [7]) = Some (read_loop 3 [IoReady 1, IoReady 5] [] [1, 2, 3, 7])" by (simp add: crm_socket_read_def)
  moreover have "fst (read_loop 3 [IoReady 1, IoReady 5] [] [1, 2, 3, 7]) = 0" by simp
  ultimately show ?thesis
    using w socket_roundtrip [OF w, of 4 500 "[IoReady 1, IoReady 5]" "[7]"] by (cases "read_loop 3 [IoReady 1, IoReady 5] [] [1, 2, 3, 7 :: 8 word]") auto
qed

end
