(* ===== verification/Crm_Factory.thy ===== *)
theory Crm_Factory
  imports Crm_Ipc
begin

text \<open>
  libs/utils/src/process_factory.c: the processes CRM runs its plugins in. A process of its own, the
  factory, forks them; the other processes ask it through the control pipe, and it answers the
  identifier of a new process through the event pipe. Each process has a slot, with a pipe to the
  process and one from it.

  The factory is a function of what its system calls bring. \<open>None\<close> is a failed assertion, whose signal
  runs \<open>kill_all\<close> as well; \<open>kill_all\<close> itself, when the code calls it, is recorded in the trace.
\<close>

section \<open>Events and scalars\<close>

abbreviation (input) CREATE :: int where "CREATE \<equiv> 0"
abbreviation (input) CLEAN :: int where "CLEAN \<equiv> 1"
abbreviation (input) KILL :: int where "KILL \<equiv> 2"
abbreviation (input) DEAD :: int where "DEAD \<equiv> 3"
abbreviation (input) DISPOSE :: int where "DISPOSE \<equiv> 4"

definition gen_scalar :: "int \<Rightarrow> int \<Rightarrow> 64 word" where
  "gen_scalar evt pid_idx = push_bit 8 (word_of_int pid_idx AND 0x7FFFFFFF) OR (word_of_int evt AND 0xFF)"

definition get_id :: "64 word \<Rightarrow> int" where
  "get_id s = uint (signed_drop_bit 8 s AND 0x7FFFFFFF)"

definition get_event :: "64 word \<Rightarrow> int" where
  "get_event s = uint (s AND 0xFF)"

section \<open>State\<close>

record crm_process =
  pid :: int
  events :: int
  ipc_p2c :: "8 word list"
  ipc_c2p :: "8 word list"

datatype factory_io = Sigkill int | Exit int

record crm_process_factory =
  pid_parent :: int
  ipc_ctrl :: "8 word list"
  ipc_evt :: "8 word list"
  processes :: "crm_process list"
  stopping :: bool
  running :: bool
  factory_io :: "factory_io list"

abbreviation (input) flagged :: "crm_process \<Rightarrow> int \<Rightarrow> bool" where
  "flagged p e \<equiv> bit (events p) (nat e)"

definition set_flag :: "int \<Rightarrow> crm_process \<Rightarrow> crm_process" where
  "set_flag e p = p\<lparr>events := events p OR push_bit (nat e) 1\<rparr>"

definition set_process :: "nat \<Rightarrow> crm_process \<Rightarrow> crm_process_factory \<Rightarrow> crm_process_factory" where
  "set_process i p f = f\<lparr>processes := (processes f)[i := p]\<rparr>"

definition running_process :: "crm_process_factory \<Rightarrow> nat" where
  "running_process f = countp (\<lambda>p. pid p \<noteq> -1) (processes f)"

definition kill_all :: "crm_process_factory \<Rightarrow> crm_process_factory" where
  "kill_all f = f\<lparr>running := False, factory_io := factory_io f @
     map (\<lambda>p. Sigkill (pid p)) (filter (\<lambda>p. pid p > 0) (processes f)) @ [Sigkill (pid_parent f), Exit (-1)]\<rparr>"

section \<open>The factory process\<close>

text \<open>A pipe that still holds something when its process is freed.\<close>

function flush_pipe :: "bool \<Rightarrow> 8 word list \<Rightarrow> 8 word list option" where
  "flush_pipe killed bs =
     (if bs = [] then Some []
      else do {
        ASSERT killed;
        (case get_msg_process bs of
           None \<Rightarrow> None
         | Some (m, rest) \<Rightarrow> if length rest < length bs then flush_pipe killed rest else None)
      })"
  by pat_completeness auto
termination by (relation "measure (\<lambda>(k, bs). length bs)") auto

declare flush_pipe.simps [simp del]

definition forked_flush_ipcs :: "crm_process \<Rightarrow> crm_process option" where
  "forked_flush_ipcs p = do {
     a \<leftarrow> flush_pipe (flagged p KILL) (ipc_p2c p);
     b \<leftarrow> flush_pipe (flagged p KILL) (ipc_c2p p);
     Some (p\<lparr>ipc_p2c := a, ipc_c2p := b\<rparr>)
   }"

definition free_slot :: "nat \<Rightarrow> crm_process_factory \<Rightarrow> crm_process_factory option" where
  "free_slot i f = do {
     p \<leftarrow> array_get (processes f) (int i);
     p \<leftarrow> forked_flush_ipcs p;
     Some (set_process i (p\<lparr>pid := -1\<rparr>) f)
   }"

text \<open>What the new process makes of its message: the name of its library and its argument.\<close>

definition start_args :: "8 word list \<Rightarrow> (8 word list \<times> 8 word list option \<times> nat) option" where
  "start_args d = do {
     ASSERT (59 \<in> set d);
     let lib_name = takeWhile (\<lambda>b. b \<noteq> 59) d;
     let len = length d - (length lib_name + 1);
     Some (lib_name, if len > 0 then Some (drop (length lib_name + 1) d) else None, len)
   }"

text \<open>\<open>child\<close> is what \<open>fork\<close> answers in the factory.\<close>

definition forked_create_process :: "int \<Rightarrow> crm_process_factory \<Rightarrow> (int \<times> crm_process_factory) option" where
  "forked_create_process child f =
     (case find (\<lambda>i. pid (processes f ! i) = -1) [0..<length (processes f)] of
        None \<Rightarrow> Some (-1, f)
      | Some idx \<Rightarrow> do {
          ASSERT (child > 0);
          Some (int idx, set_process idx ((processes f ! idx)\<lparr>pid := child, events := 0\<rparr>) f)
        })"

definition handle_create :: "int \<Rightarrow> crm_process_factory \<Rightarrow> crm_process_factory option" where
  "handle_create child f = do {
     (idx, f) \<leftarrow> forked_create_process child f;
     evt \<leftarrow> send_msg_process (ipc_evt f) \<lparr>scalar = word_of_int idx, data_size = 0, data = []\<rparr>;
     Some (f\<lparr>ipc_evt := evt\<rparr>)
   }"

definition handle_dispose :: "crm_process_factory \<Rightarrow> crm_process_factory" where
  "handle_dispose f = f\<lparr>stopping := True, factory_io := factory_io f @
     map (\<lambda>p. Sigkill (pid p)) (filter (\<lambda>p. pid p > 0) (processes f))\<rparr>"

text \<open>A process that ended: what \<open>waitpid\<close> answers, and whether a signal ended it.\<close>

definition handle_one_dead :: "int \<times> bool \<Rightarrow> crm_process_factory \<Rightarrow> crm_process_factory option" where
  "handle_one_dead w f =
     (case find (\<lambda>i. pid (processes f ! i) = fst w) [0..<length (processes f)] of
        None \<Rightarrow> Some f
      | Some i \<Rightarrow>
          (let p = processes f ! i
           in if flagged p KILL \<or> flagged p CLEAN then free_slot i f
              else if snd w then Some (kill_all f)
              else Some (set_process i (set_flag DEAD p) f)))"

fun handle_dead :: "(int \<times> bool) list \<Rightarrow> crm_process_factory \<Rightarrow> crm_process_factory option" where
  "handle_dead [] f = Some f"
| "handle_dead (w # ws) f = do {
     f \<leftarrow> handle_one_dead w f;
     if running f then handle_dead ws f else Some f
   }"

definition handle_clean :: "int \<Rightarrow> crm_process_factory \<Rightarrow> crm_process_factory option" where
  "handle_clean idx f = do {
     p \<leftarrow> array_get (processes f) idx;
     ASSERT (pid p > 0);
     if flagged p DEAD then free_slot (nat idx) f else Some (set_process (nat idx) (set_flag CLEAN p) f)
   }"

definition handle_kill :: "int \<Rightarrow> crm_process_factory \<Rightarrow> crm_process_factory option" where
  "handle_kill idx f = do {
     p \<leftarrow> array_get (processes f) idx;
     if pid p > 0
     then if flagged p DEAD then free_slot (nat idx) f
          else Some ((set_process (nat idx) (set_flag KILL p) f)\<lparr>factory_io := factory_io f @ [Sigkill (pid p)]\<rparr>)
     else Some f
   }"

text \<open>What an iteration finds: the answer of \<open>fork\<close> and the ends of processes \<open>waitpid\<close> gives.\<close>

datatype factory_input = FactoryRetry | FactoryTimeout | FactoryError | FactoryIn int "(int \<times> bool) list"

definition handle_request :: "int \<Rightarrow> (int \<times> bool) list \<Rightarrow> 8 word list crm_ipc_msg \<Rightarrow> crm_process_factory \<Rightarrow> crm_process_factory option" where
  "handle_request child ends msg f =
     (let event = get_event (scalar msg); no_data = (data_size msg = 0)
      in if event = CREATE then handle_create child f
         else if event = DISPOSE then do { ASSERT no_data; Some (handle_dispose f) }
         else if event = DEAD then do { ASSERT no_data; handle_dead ends f }
         else if event = CLEAN then do { ASSERT no_data; handle_clean (get_id (scalar msg)) f }
         else if event = KILL then do { ASSERT no_data; handle_kill (get_id (scalar msg)) f }
         else None)"

text \<open>The factory waits for ever unless a process has ended and its user has not cleaned it.\<close>

definition factory_timeout :: "crm_process_factory \<Rightarrow> int" where
  "factory_timeout f = (if \<exists>p \<in> set (processes f). pid p > 0 \<and> flagged p DEAD then 500 else -1)"

definition factory_iter :: "factory_input \<Rightarrow> crm_process_factory \<Rightarrow> crm_process_factory option" where
  "factory_iter inp f =
     (case inp of
        FactoryRetry \<Rightarrow> Some f
      | FactoryTimeout \<Rightarrow> if factory_timeout f < 0 then Some f else None
      | FactoryError \<Rightarrow> None
      | FactoryIn child ends \<Rightarrow> do {
          (msg, rest) \<leftarrow> get_msg_process (ipc_ctrl f);
          f \<leftarrow> handle_request child ends msg (f\<lparr>ipc_ctrl := rest\<rparr>);
          Some (if stopping f \<and> running_process f = 0 then f\<lparr>running := False\<rparr> else f)
        })"

fun forked_handle_events :: "factory_input list \<Rightarrow> crm_process_factory \<Rightarrow> crm_process_factory option" where
  "forked_handle_events [] f = Some f"
| "forked_handle_events (i # is) f = (if running f then do { f \<leftarrow> factory_iter i f; forked_handle_events is f } else Some f)"

section \<open>The requests\<close>

definition post_ctrl :: "int \<Rightarrow> int \<Rightarrow> crm_process_factory \<Rightarrow> crm_process_factory option" where
  "post_ctrl evt idx f = do {
     bs \<leftarrow> send_msg_process (ipc_ctrl f) \<lparr>scalar = gen_scalar evt idx, data_size = 0, data = []\<rparr>;
     Some (f\<lparr>ipc_ctrl := bs\<rparr>)
   }"

definition create_buffer :: "8 word list \<Rightarrow> 8 word list \<Rightarrow> 8 word list option" where
  "create_buffer plugin_name dat = do {
     ASSERT (plugin_name \<noteq> []);
     Some (plugin_name @ [59] @ dat)
   }"

definition create_request :: "8 word list \<Rightarrow> 8 word list \<Rightarrow> crm_process_factory \<Rightarrow> crm_process_factory option" where
  "create_request plugin_name dat f = do {
     buf \<leftarrow> create_buffer plugin_name dat;
     bs \<leftarrow> send_msg_process (ipc_ctrl f) \<lparr>scalar = gen_scalar CREATE 0, data_size = word_of_nat (length buf), data = buf\<rparr>;
     Some (f\<lparr>ipc_ctrl := bs\<rparr>)
   }"

definition create_answer :: "crm_process_factory \<Rightarrow> (int \<times> crm_process_factory) option" where
  "create_answer f = do {
     (msg, rest) \<leftarrow> get_msg_process (ipc_evt f);
     Some (sint (ucast (scalar msg) :: 32 word), f\<lparr>ipc_evt := rest\<rparr>)
   }"

definition clean :: "int \<Rightarrow> crm_process_factory \<Rightarrow> crm_process_factory option" where
  "clean idx f = do { ASSERT (idx \<ge> 0 \<and> idx < int (length (processes f))); post_ctrl CLEAN idx f }"

definition kill_process :: "int \<Rightarrow> crm_process_factory \<Rightarrow> crm_process_factory option" where
  "kill_process idx f = do { ASSERT (idx \<ge> 0 \<and> idx < int (length (processes f))); post_ctrl KILL idx f }"

definition factory_dispose :: "crm_process_factory \<Rightarrow> crm_process_factory option" where
  "factory_dispose f = post_ctrl DISPOSE 0 f"

definition sig_child :: "crm_process_factory \<Rightarrow> crm_process_factory option" where
  "sig_child f = post_ctrl DEAD 0 f"

text \<open>The messages of the processes.\<close>

definition factory_send_msg :: "int \<Rightarrow> 8 word list crm_ipc_msg \<Rightarrow> crm_process_factory \<Rightarrow> crm_process_factory option" where
  "factory_send_msg idx msg f = do {
     p \<leftarrow> array_get (processes f) idx;
     bs \<leftarrow> send_msg_process (ipc_p2c p) msg;
     Some (set_process (nat idx) (p\<lparr>ipc_p2c := bs\<rparr>) f)
   }"

definition factory_get_msg :: "int \<Rightarrow> crm_process_factory \<Rightarrow> (8 word list crm_ipc_msg \<times> crm_process_factory) option" where
  "factory_get_msg idx f = do {
     p \<leftarrow> array_get (processes f) idx;
     (msg, bs) \<leftarrow> get_msg_process (ipc_c2p p);
     Some (msg, set_process (nat idx) (p\<lparr>ipc_c2p := bs\<rparr>) f)
   }"

definition crm_process_factory_init :: "nat \<Rightarrow> int \<Rightarrow> crm_process_factory" where
  "crm_process_factory_init nb self =
     \<lparr>pid_parent = self, ipc_ctrl = [], ipc_evt = [],
      processes = replicate nb \<lparr>pid = -1, events = 0, ipc_p2c = [], ipc_c2p = []\<rparr>,
      stopping = False, running = True, factory_io = []\<rparr>"


section \<open>The scalars of the requests\<close>

lemma gen_scalar_fields:
  assumes "0 \<le> evt" "evt < 256" "0 \<le> i" "i < 2 ^ 23"
  shows "get_event (gen_scalar evt i) = evt" "get_id (gen_scalar evt i) = i" "uint (gen_scalar evt i) < 2 ^ 31"
proof -
  have g: "gen_scalar evt i = push_bit 8 (take_bit 31 (word_of_int i)) OR take_bit 8 (word_of_int evt)"
    by (simp add: gen_scalar_def and_field_masks)
  have e8: "evt < 2 ^ 8" using assms(2) by simp
  note bits = scalar_bits word_of_int_field [OF assms(1) e8] word_of_int_field [OF assms(3,4)]
  have i31: "i < 2 ^ 31" using assms(4) by simp
  have "take_bit 8 (gen_scalar evt i) = word_of_int evt"
    unfolding g by (rule bit_word_eqI) (auto simp: bits simp del: take_bit_of_int)
  then show "get_event (gen_scalar evt i) = evt"
    unfolding get_event_def and_field_masks using assms(1,2) by (simp add: uint_word_of_int_eq take_bit_int_eq_self)
  have "take_bit 31 (signed_drop_bit 8 (gen_scalar evt i)) = word_of_int i"
    unfolding g by (rule bit_word_eqI) (auto simp: bits simp del: take_bit_of_int)
  then show "get_id (gen_scalar evt i) = i"
    unfolding get_id_def and_field_masks using assms(3,4) by (simp add: uint_word_of_int_eq take_bit_int_eq_self)
  have "take_bit 31 (gen_scalar evt i) = gen_scalar evt i"
    unfolding g by (rule bit_word_eqI) (auto simp: bits simp del: take_bit_of_int)
  then have "take_bit 31 (uint (gen_scalar evt i)) = uint (gen_scalar evt i)" by (metis unsigned_take_bit_eq)
  then show "uint (gen_scalar evt i) < 2 ^ 31" by (metis take_bit_int_less_exp)
qed

text \<open>A request written to the control pipe and read by the factory.\<close>

lemma post_ctrl_get:
  assumes "0 \<le> evt" "evt < 256" "0 \<le> i" "i < 2 ^ 23"
  shows "\<exists>bs. post_ctrl evt i f = Some (f\<lparr>ipc_ctrl := ipc_ctrl f @ bs\<rparr>) \<and>
    (\<forall>rest. get_msg_process (bs @ rest) = Some (\<lparr>scalar = gen_scalar evt i, data_size = 0, data = []\<rparr>, rest))"
proof -
  let ?b = "int_bytes (ucast (gen_scalar evt i)) @ int_bytes 0"
  have "post_ctrl evt i f = Some (f\<lparr>ipc_ctrl := ipc_ctrl f @ ?b\<rparr>)"
    by (simp add: post_ctrl_def send_msg_process_def)
  moreover have "get_msg_process (?b @ rest) = Some (\<lparr>scalar = gen_scalar evt i, data_size = 0, data = []\<rparr>, rest)" for rest
    using scast_ucast_small [OF gen_scalar_fields(3) [OF assms]] by (simp add: get_msg_process_hdr)
  ultimately show ?thesis by blast
qed

section \<open>The life of a slot\<close>

text \<open>
  The contract of the factory: a slot is free, or its process runs, has ended by itself, was asked to be
  forgotten when it ends, or was killed. A slot becomes free when its process has ended and its user has
  cleaned or killed it, in either order.
\<close>

datatype slot = Free | Running | Finished | Leaving | Killed

fun spec_clean :: "slot \<Rightarrow> slot option" where
  "spec_clean Free = None"
| "spec_clean Running = Some Leaving"
| "spec_clean Finished = Some Free"
| "spec_clean Leaving = Some Leaving"
| "spec_clean Killed = Some Killed"

fun spec_kill :: "slot \<Rightarrow> slot" where
  "spec_kill Free = Free"
| "spec_kill Finished = Free"
| "spec_kill s = Killed"

fun spec_exit :: "slot \<Rightarrow> slot" where
  "spec_exit Free = Free"
| "spec_exit Running = Finished"
| "spec_exit Finished = Finished"
| "spec_exit s = Free"

definition slot_of :: "crm_process \<Rightarrow> slot" where
  "slot_of p = (if pid p = -1 then Free else if flagged p DEAD then Finished else if flagged p KILL then Killed
     else if flagged p CLEAN then Leaving else Running)"

definition slots :: "crm_process_factory \<Rightarrow> slot list" where
  "slots f = map slot_of (processes f)"

definition slot_ok :: "crm_process \<Rightarrow> bool" where
  "slot_ok p \<longleftrightarrow> (pid p = -1 \<or> pid p > 0) \<and> (flagged p DEAD \<longrightarrow> pid p = -1 \<or> \<not> flagged p KILL \<and> \<not> flagged p CLEAN)"

text \<open>The slots are well formed and no two processes that live have the same identifier.\<close>

definition factory_ok :: "crm_process_factory \<Rightarrow> bool" where
  "factory_ok f \<longleftrightarrow> (\<forall>p \<in> set (processes f). slot_ok p) \<and>
     (\<forall>i j. i < length (processes f) \<longrightarrow> j < length (processes f) \<longrightarrow> pid (processes f ! i) = pid (processes f ! j) \<longrightarrow>
        pid (processes f ! i) \<noteq> -1 \<longrightarrow> i = j)"

abbreviation (input) drained :: "crm_process \<Rightarrow> bool" where
  "drained p \<equiv> ipc_p2c p = [] \<and> ipc_c2p p = []"

lemma set_flag_simps [simp]:
  "pid (set_flag e p) = pid p" "ipc_p2c (set_flag e p) = ipc_p2c p" "ipc_c2p (set_flag e p) = ipc_c2p p"
  "bit (events (set_flag e p)) n = (bit (events p) n \<or> n = nat e)"
  by (auto simp: set_flag_def bit_simps)

lemma flush_nil [simp]: "flush_pipe k [] = Some []" by (simp add: flush_pipe.simps)

lemma slots_nth: "i < length (processes f) \<Longrightarrow> slots f ! i = slot_of (processes f ! i)"
  by (simp add: slots_def)

lemma slots_set: "slots (set_process i p f) = (slots f)[i := slot_of p]"
  by (simp add: slots_def set_process_def map_update)

lemma free_slot_drained:
  "i < length (processes f) \<Longrightarrow> drained (processes f ! i) \<Longrightarrow>
   free_slot i f = Some (set_process i ((processes f ! i)\<lparr>pid := -1\<rparr>) f)"
  by (cases "processes f ! i") (simp add: free_slot_def forked_flush_ipcs_def)

lemma slot_of_free [simp]: "slot_of (p\<lparr>pid := -1\<rparr>) = Free" by (simp add: slot_of_def)

text \<open>The operations implement the contract, as long as nothing is left in the pipes of the process.\<close>

lemma clean_refines:
  assumes "factory_ok f" "i < length (processes f)" "drained (processes f ! i)"
  shows "map_option slots (handle_clean (int i) f) = map_option (\<lambda>s. (slots f)[i := s]) (spec_clean (slots f ! i))"
proof -
  have o: "slot_ok (processes f ! i)" using assms(1,2) by (auto simp: factory_ok_def)
  show ?thesis
    using assms(2,3) o free_slot_drained [OF assms(2,3)]
    by (auto simp: handle_clean_def slots_nth slot_ok_def slot_of_def slots_set)
qed

lemma kill_refines:
  assumes "factory_ok f" "i < length (processes f)" "drained (processes f ! i)"
  shows "map_option slots (handle_kill (int i) f) = Some ((slots f)[i := spec_kill (slots f ! i)])"
proof -
  have o: "slot_ok (processes f ! i)" using assms(1,2) by (auto simp: factory_ok_def)
  have k: "slots (f\<lparr>processes := ps, factory_io := io'\<rparr>) = slots (f\<lparr>processes := ps\<rparr>)" for ps io' by (simp add: slots_def)
  have same: "(slots f)[i := Free] = slots f" if "pid (processes f ! i) = -1"
    using that assms(2) by (auto simp: slots_def slot_of_def list_eq_iff_nth_eq nth_list_update)
  show ?thesis
    using assms(2,3) o same free_slot_drained [OF assms(2,3)] slots_set [of i _ f]
    by (auto simp: handle_kill_def slots_nth slot_ok_def slot_of_def k set_process_def)
qed

lemma find_pid:
  assumes "factory_ok f" "i < length (processes f)" "pid (processes f ! i) \<noteq> -1"
  shows "find (\<lambda>j. pid (processes f ! j) = pid (processes f ! i)) [0..<length (processes f)] = Some i"
proof -
  have "find (\<lambda>j. pid (processes f ! j) = pid (processes f ! i)) [0..<length (processes f)] \<noteq> None"
    using assms(2) by (auto simp: find_None_iff)
  then obtain j where j: "find (\<lambda>j. pid (processes f ! j) = pid (processes f ! i)) [0..<length (processes f)] = Some j" by blast
  then have "j < length (processes f)" "pid (processes f ! j) = pid (processes f ! i)" by (auto simp: find_Some_iff)
  then have "j = i" using assms by (auto simp: factory_ok_def)
  with j show ?thesis by simp
qed

lemma exit_refines:
  assumes "factory_ok f" "i < length (processes f)" "drained (processes f ! i)" "pid (processes f ! i) \<noteq> -1"
  shows "map_option slots (handle_one_dead (pid (processes f ! i), False) f) = Some ((slots f)[i := spec_exit (slots f ! i)])"
proof -
  have o: "slot_ok (processes f ! i)" using assms(1,2) by (auto simp: factory_ok_def)
  have d: "flagged (processes f ! i) DEAD \<Longrightarrow> (slots f)[i := Finished] = slots f"
    using assms(2,4) by (auto simp: slots_def slot_of_def list_eq_iff_nth_eq nth_list_update)
  show ?thesis
    using assms(2-4) o d find_pid [OF assms(1,2,4)] free_slot_drained [OF assms(2,3)]
    by (auto simp: handle_one_dead_def Let_def slots_nth slot_ok_def slot_of_def slots_set)
qed

lemma create_refines:
  assumes "child > 0"
  shows "map_option (\<lambda>(idx, f'). (idx, slots f')) (forked_create_process child f) =
    Some (case find (\<lambda>i. slots f ! i = Free) [0..<length (slots f)] of None \<Rightarrow> (-1, slots f) | Some i \<Rightarrow> (int i, (slots f)[i := Running]))"
proof -
  have "find (\<lambda>i. slots f ! i = Free) [0..<length (slots f)] = find (\<lambda>i. pid (processes f ! i) = -1) [0..<length (processes f)]"
    by (rule find_cong) (auto simp: slots_def slot_of_def)
  moreover have "slot_of (p\<lparr>pid := child, events := 0\<rparr>) = Running" for p using assms by (simp add: slot_of_def)
  ultimately show ?thesis
    using assms by (auto simp: forked_create_process_def slots_set split: option.splits)
qed

section \<open>The slots stay well formed\<close>

lemma factory_ok_update:
  assumes "factory_ok f" "i < length (processes f)" "slot_ok p" "pid p = -1 \<or> pid p = pid (processes f ! i)"
    and "processes f' = (processes f)[i := p]"
  shows "factory_ok f'"
proof -
  have "\<forall>q \<in> set (processes f'). slot_ok q"
    using assms(1,3) set_update_subset_insert [of "processes f" i p] unfolding assms(5) by (auto simp: factory_ok_def)
  moreover have "j = k" if "j < length (processes f)" "k < length (processes f)" "pid (processes f' ! j) = pid (processes f' ! k)"
    "pid (processes f' ! j) \<noteq> -1" for j k
    using that assms(1,2,4) unfolding assms(5) factory_ok_def by (auto simp: nth_list_update split: if_splits)
  ultimately show ?thesis unfolding factory_ok_def assms(5) by simp
qed

lemma flush_keeps: "forked_flush_ipcs p = Some q \<Longrightarrow> pid q = pid p \<and> events q = events p"
  by (auto simp: forked_flush_ipcs_def bind_Some_iff)

lemma free_slot_ok:
  assumes "free_slot i f = Some f'" "factory_ok f"
  shows "factory_ok f' \<and> length (processes f') = length (processes f)"
proof -
  obtain q where q: "forked_flush_ipcs (processes f ! i) = Some q" "i < length (processes f)" "f' = set_process i (q\<lparr>pid := -1\<rparr>) f"
    using assms(1) by (auto simp: free_slot_def bind_Some_iff dest!: array_get_SomeD)
  have "factory_ok f'"
    by (rule factory_ok_update [OF assms(2) q(2), of "q\<lparr>pid := -1\<rparr>"]) (simp_all add: q(3) set_process_def slot_ok_def)
  then show ?thesis by (simp add: q(3) set_process_def)
qed

lemma set_flag_ok:
  assumes "factory_ok f" "i < length (processes f)" "e \<in> {CLEAN, KILL, DEAD}" "processes f' = (processes f)[i := set_flag e (processes f ! i)]"
    and "e = DEAD \<longrightarrow> \<not> flagged (processes f ! i) KILL \<and> \<not> flagged (processes f ! i) CLEAN"
    and "e \<noteq> DEAD \<longrightarrow> \<not> flagged (processes f ! i) DEAD"
  shows "factory_ok f' \<and> length (processes f') = length (processes f)"
proof -
  have o: "slot_ok (processes f ! i)" using assms(1,2) by (simp add: factory_ok_def)
  consider "e = CLEAN" | "e = KILL" | "e = DEAD" using assms(3) by blast
  then have "slot_ok (set_flag e (processes f ! i))" using assms(5,6) o by cases (simp_all add: slot_ok_def)
  then show ?thesis using factory_ok_update [OF assms(1,2) _ _ assms(4)] assms(4) by simp
qed

definition fresh :: "int \<Rightarrow> crm_process_factory \<Rightarrow> bool" where
  "fresh child f \<longleftrightarrow> child > 0 \<and> (\<forall>p \<in> set (processes f). pid p \<noteq> child)"

lemma create_ok:
  assumes "handle_create child f = Some f'" "factory_ok f" "fresh child f"
  shows "factory_ok f' \<and> length (processes f') = length (processes f)"
proof -
  obtain idx f1 where c: "forked_create_process child f = Some (idx, f1)" and p: "processes f' = processes f1"
    using assms(1) by (auto simp: handle_create_def bind_Some_iff)
  show ?thesis
  proof (cases "find (\<lambda>i. pid (processes f ! i) = -1) [0..<length (processes f)]")
    case None
    then show ?thesis using c p assms(2) by (simp add: forked_create_process_def factory_ok_def)
  next
    case (Some i)
    then have i: "i < length (processes f)" by (auto simp: find_Some_iff)
    let ?p = "(processes f ! i)\<lparr>pid := child, events := 0\<rparr>"
    have f1: "processes f1 = (processes f)[i := ?p]" using c Some by (auto simp: forked_create_process_def set_process_def)
    have "\<forall>q \<in> set ((processes f)[i := ?p]). slot_ok q"
      using assms(2,3) set_update_subset_insert [of "processes f" i ?p] by (auto simp: factory_ok_def slot_ok_def fresh_def)
    moreover have "j = k" if "j < length (processes f)" "k < length (processes f)" "pid ((processes f)[i := ?p] ! j) = pid ((processes f)[i := ?p] ! k)"
      "pid ((processes f)[i := ?p] ! j) \<noteq> -1" for j k
      using that assms(2,3) i unfolding factory_ok_def fresh_def by (auto simp: nth_list_update split: if_splits)
    ultimately show ?thesis unfolding factory_ok_def p f1 by simp
  qed
qed

lemma one_dead_ok:
  assumes "handle_one_dead w f = Some f'" "factory_ok f"
  shows "factory_ok f' \<and> length (processes f') = length (processes f)"
proof (cases "find (\<lambda>i. pid (processes f ! i) = fst w) [0..<length (processes f)]")
  case None
  then show ?thesis using assms by (simp add: handle_one_dead_def)
next
  case (Some i)
  then have i: "i < length (processes f)" by (auto simp: find_Some_iff)
  let ?p = "processes f ! i"
  show ?thesis
  proof (cases "flagged ?p KILL \<or> flagged ?p CLEAN")
    case True
    then have "free_slot i f = Some f'" using assms(1) Some by (simp add: handle_one_dead_def Let_def)
    then show ?thesis using free_slot_ok assms(2) by blast
  next
    case False
    then have f': "f' = (if snd w then kill_all f else set_process i (set_flag DEAD ?p) f)"
      using assms(1) Some by (simp add: handle_one_dead_def Let_def split: if_splits)
    show ?thesis
    proof (cases "snd w")
      case True
      then show ?thesis using assms(2) by (simp add: f' kill_all_def factory_ok_def)
    next
      case False': False
      then show ?thesis using set_flag_ok [OF assms(2) i, of DEAD f'] False by (simp add: f' set_process_def)
    qed
  qed
qed

lemma handle_dead_ok: "handle_dead ws f = Some f' \<Longrightarrow> factory_ok f \<Longrightarrow> factory_ok f' \<and> length (processes f') = length (processes f)"
proof (induction ws arbitrary: f)
  case (Cons w ws)
  then obtain f1 where f1: "handle_one_dead w f = Some f1" by (auto simp: bind_Some_iff)
  with Cons one_dead_ok [OF f1 Cons.prems(2)] show ?case by (cases "running f1") auto
qed simp

lemma clean_ok:
  assumes "handle_clean idx f = Some f'" "factory_ok f"
  shows "factory_ok f' \<and> length (processes f') = length (processes f)"
proof -
  have i: "nat idx < length (processes f)" and d: "array_get (processes f) idx = Some (processes f ! nat idx)"
    using assms(1) by (auto simp: handle_clean_def bind_Some_iff array_get_def)
  show ?thesis
  proof (cases "flagged (processes f ! nat idx) DEAD")
    case True
    then have "free_slot (nat idx) f = Some f'" using assms(1) d by (simp add: handle_clean_def split: if_splits)
    then show ?thesis using free_slot_ok assms(2) by blast
  next
    case False
    then have "f' = set_process (nat idx) (set_flag CLEAN (processes f ! nat idx)) f"
      using assms(1) d by (simp add: handle_clean_def split: if_splits)
    then show ?thesis using set_flag_ok [OF assms(2) i, of CLEAN f'] False by (simp add: set_process_def)
  qed
qed

lemma kill_ok:
  assumes "handle_kill idx f = Some f'" "factory_ok f"
  shows "factory_ok f' \<and> length (processes f') = length (processes f)"
proof -
  have i: "nat idx < length (processes f)" and d: "array_get (processes f) idx = Some (processes f ! nat idx)"
    using assms(1) by (auto simp: handle_kill_def bind_Some_iff array_get_def)
  consider "free_slot (nat idx) f = Some f'" | "f' = f"
    | "processes f' = (processes f)[nat idx := set_flag KILL (processes f ! nat idx)]" "\<not> flagged (processes f ! nat idx) DEAD"
  proof (cases "pid (processes f ! nat idx) > 0")
    case False
    then show ?thesis using that(2) assms(1) d by (simp add: handle_kill_def)
  next
    case True
    then show ?thesis
      using that(1,3) assms(1) d by (cases "flagged (processes f ! nat idx) DEAD") (auto simp: handle_kill_def set_process_def)
  qed
  then show ?thesis
  proof cases
    case 1
    then show ?thesis using free_slot_ok assms(2) by blast
  next
    case 2
    then show ?thesis using assms(2) by simp
  next
    case 3
    then show ?thesis using set_flag_ok [OF assms(2) i, of KILL f'] by simp
  qed
qed

lemma factory_request_ok:
  assumes "handle_request child ends msg f = Some f'" "factory_ok f" "fresh child f"
  shows "factory_ok f' \<and> length (processes f') = length (processes f)"
proof -
  consider "handle_create child f = Some f'" | "f' = handle_dispose f" | "handle_dead ends f = Some f'"
    | "handle_clean (get_id (scalar msg)) f = Some f'" | "handle_kill (get_id (scalar msg)) f = Some f'"
    using assms(1) unfolding handle_request_def Let_def by (metis (no_types, lifting) bind_ASSERT option.distinct(1) option.sel)
  then show ?thesis
  proof cases
    case 2
    then show ?thesis using assms(2) by (simp add: handle_dispose_def factory_ok_def)
  qed (use create_ok handle_dead_ok clean_ok kill_ok assms in blast)+
qed

lemma iter_ok:
  assumes "factory_iter i f = Some f'" "factory_ok f" "case i of FactoryIn child _ \<Rightarrow> fresh child f | _ \<Rightarrow> True"
  shows "factory_ok f' \<and> length (processes f') = length (processes f)"
proof (cases i)
  case (FactoryIn child ends)
  then obtain msg rest f1 where f1: "handle_request child ends msg (f\<lparr>ipc_ctrl := rest\<rparr>) = Some f1" and p: "processes f' = processes f1"
    using assms(1) by (auto simp: factory_iter_def bind_Some_iff split: if_splits)
  have "factory_ok (f\<lparr>ipc_ctrl := rest\<rparr>)" "fresh child (f\<lparr>ipc_ctrl := rest\<rparr>)"
    using assms(2,3) FactoryIn by (simp_all add: factory_ok_def fresh_def)
  from factory_request_ok [OF f1 this] show ?thesis by (simp add: factory_ok_def p)
qed (use assms in \<open>auto simp: factory_iter_def split: if_splits\<close>)

text \<open>
  What the processes do together: users post requests, a signal reports the end of a process, users and
  processes write to and read from the pipes of a slot, and the factory takes a turn.
\<close>

datatype factory_act =
    ActCreate "8 word list" "8 word list"
  | ActClean int
  | ActKill int
  | ActDispose
  | ActSigchild
  | ActPipes nat "8 word list" "8 word list"
  | ActTurn factory_input

definition factory_act :: "factory_act \<Rightarrow> crm_process_factory \<Rightarrow> crm_process_factory option" where
  "factory_act a f =
     (case a of
        ActCreate n d \<Rightarrow> create_request n d f
      | ActClean i \<Rightarrow> clean i f
      | ActKill i \<Rightarrow> kill_process i f
      | ActDispose \<Rightarrow> factory_dispose f
      | ActSigchild \<Rightarrow> sig_child f
      | ActPipes i x y \<Rightarrow> Some (set_process i ((processes f ! i)\<lparr>ipc_p2c := x, ipc_c2p := y\<rparr>) f)
      | ActTurn i \<Rightarrow> forked_handle_events [i] f)"

fun factory_run :: "factory_act list \<Rightarrow> crm_process_factory \<Rightarrow> crm_process_factory option" where
  "factory_run [] f = Some f"
| "factory_run (a # as) f = do { f \<leftarrow> factory_act a f; factory_run as f }"

text \<open>The kernel never gives the identifier of a process that is still known.\<close>

fun forks_fresh :: "factory_act list \<Rightarrow> crm_process_factory \<Rightarrow> bool" where
  "forks_fresh [] f = True"
| "forks_fresh (a # as) f =
     ((case a of ActTurn (FactoryIn child _) \<Rightarrow> fresh child f | _ \<Rightarrow> True) \<and>
      (case factory_act a f of None \<Rightarrow> True | Some f' \<Rightarrow> forks_fresh as f'))"

lemma posted_ok:
  assumes "processes f' = processes f" "factory_ok f"
  shows "factory_ok f' \<and> length (processes f') = length (processes f)"
  using assms by (simp add: factory_ok_def)

lemma post_ctrl_processes: "post_ctrl e i f = Some f' \<Longrightarrow> processes f' = processes f"
  unfolding post_ctrl_def by (erule bind_Some_E) clarsimp

lemma create_request_processes: "create_request n d f = Some f' \<Longrightarrow> processes f' = processes f"
  unfolding create_request_def by (elim bind_Some_E) clarsimp

lemma posted_processes:
  "create_request n d f = Some f' \<or> clean i f = Some f' \<or> kill_process i f = Some f' \<or> factory_dispose f = Some f' \<or> sig_child f = Some f' \<Longrightarrow>
   processes f' = processes f"
  unfolding clean_def kill_process_def factory_dispose_def sig_child_def
  by (elim disjE bind_Some_E) (erule create_request_processes post_ctrl_processes)+

lemma act_ok:
  assumes "factory_act a f = Some f'" "factory_ok f" "case a of ActTurn (FactoryIn child _) \<Rightarrow> fresh child f | _ \<Rightarrow> True"
  shows "factory_ok f' \<and> length (processes f') = length (processes f)"
proof (cases a)
  case (ActPipes i x y)
  then have f': "processes f' = (processes f)[i := (processes f ! i)\<lparr>ipc_p2c := x, ipc_c2p := y\<rparr>]"
    using assms(1) by (auto simp: factory_act_def set_process_def)
  show ?thesis
  proof (cases "i < length (processes f)")
    case True
    then have "slot_ok (processes f ! i)" using assms(2) by (simp add: factory_ok_def)
    then show ?thesis using factory_ok_update [OF assms(2) True _ _ f'] f' by (simp add: slot_ok_def)
  next
    case False
    then have "processes f' = processes f" using f' list_update_beyond [of "processes f" i] by simp
    then show ?thesis by (rule posted_ok [OF _ assms(2)])
  qed
next
  case (ActTurn i)
  show ?thesis
  proof (cases "running f")
    case True
    then have "factory_iter i f = Some f'" using assms(1) ActTurn by (auto simp: factory_act_def bind_Some_iff)
    moreover have "case i of FactoryIn child _ \<Rightarrow> fresh child f | _ \<Rightarrow> True"
      using assms(3) ActTurn by (auto split: factory_input.splits)
    ultimately show ?thesis using iter_ok assms(2) by blast
  next
    case False
    then have "f' = f" using assms(1) ActTurn by (simp add: factory_act_def)
    then show ?thesis using assms(2) by simp
  qed
next
  case (ActCreate n d)
  then have "create_request n d f = Some f'" using assms(1) by (simp add: factory_act_def)
  then show ?thesis using posted_ok [OF posted_processes assms(2)] by blast
next
  case (ActClean i)
  then have "clean i f = Some f'" using assms(1) by (simp add: factory_act_def)
  then show ?thesis using posted_ok [OF posted_processes assms(2)] by blast
next
  case (ActKill i)
  then have "kill_process i f = Some f'" using assms(1) by (simp add: factory_act_def)
  then show ?thesis using posted_ok [OF posted_processes assms(2)] by blast
next
  case ActDispose
  then have "factory_dispose f = Some f'" using assms(1) by (simp add: factory_act_def)
  then show ?thesis using posted_ok [OF posted_processes assms(2)] by blast
next
  case ActSigchild
  then have "sig_child f = Some f'" using assms(1) by (simp add: factory_act_def)
  then show ?thesis using posted_ok [OF posted_processes assms(2)] by blast
qed

lemma events_ok:
  "factory_run as f = Some f' \<Longrightarrow> factory_ok f \<Longrightarrow> forks_fresh as f \<Longrightarrow> factory_ok f' \<and> length (processes f') = length (processes f)"
proof (induction as arbitrary: f)
  case (Cons a as)
  then obtain f1 where f1: "factory_act a f = Some f1" "factory_run as f1 = Some f'" by (auto simp: bind_Some_iff)
  have "case a of ActTurn (FactoryIn child _) \<Rightarrow> fresh child f | _ \<Rightarrow> True" "forks_fresh as f1" using Cons.prems(3) f1(1) by auto
  with act_ok [OF f1(1) Cons.prems(2)] Cons.IH [OF f1(2)] show ?case by auto
qed simp

lemma init_ok: "factory_ok (crm_process_factory_init nb self)"
  by (simp add: factory_ok_def crm_process_factory_init_def slot_ok_def)

section \<open>Requests through the control pipe\<close>

definition request_msg :: "int \<Rightarrow> int \<Rightarrow> 8 word list crm_ipc_msg" where
  "request_msg evt i = \<lparr>scalar = gen_scalar evt i, data_size = 0, data = []\<rparr>"

text \<open>The first request of the pipe is handled, the others stay.\<close>

lemma iter_request:
  assumes "0 \<le> evt" "evt < 256" "0 \<le> i" "i < 2 ^ 23" "post_ctrl evt i f = Some f1"
  shows "\<exists>bs. f1 = f\<lparr>ipc_ctrl := ipc_ctrl f @ bs\<rparr> \<and>
    (\<forall>g rest child ends. ipc_ctrl g = bs @ rest \<longrightarrow> factory_iter (FactoryIn child ends) g =
       map_option (\<lambda>h. if stopping h \<and> running_process h = 0 then h\<lparr>running := False\<rparr> else h)
         (handle_request child ends (request_msg evt i) (g\<lparr>ipc_ctrl := rest\<rparr>)))"
proof -
  obtain bs where bs: "post_ctrl evt i f = Some (f\<lparr>ipc_ctrl := ipc_ctrl f @ bs\<rparr>)"
    "\<And>rest. get_msg_process (bs @ rest) = Some (\<lparr>scalar = gen_scalar evt i, data_size = 0, data = []\<rparr>, rest)"
    using post_ctrl_get [OF assms(1-4), of f] by blast
  have "factory_iter (FactoryIn child ends) g = map_option (\<lambda>h. if stopping h \<and> running_process h = 0 then h\<lparr>running := False\<rparr> else h)
      (handle_request child ends (request_msg evt i) (g\<lparr>ipc_ctrl := rest\<rparr>))" if "ipc_ctrl g = bs @ rest" for g rest child ends
    using that bs(2) [of rest] by (cases "handle_request child ends (request_msg evt i) (g\<lparr>ipc_ctrl := rest\<rparr>)")
      (simp_all add: factory_iter_def request_msg_def)
  with bs(1) assms(5) show ?thesis by auto
qed

lemma handle_request_cases:
  assumes "0 \<le> i" "i < 2 ^ 23"
  shows "handle_request child ends (request_msg CLEAN i) f = handle_clean i f"
    "handle_request child ends (request_msg KILL i) f = handle_kill i f"
    "handle_request child ends (request_msg DEAD i) f = handle_dead ends f"
    "handle_request child ends (request_msg DISPOSE i) f = Some (handle_dispose f)"
  using gen_scalar_fields [of CLEAN i] gen_scalar_fields [of KILL i] gen_scalar_fields [of DEAD i] gen_scalar_fields [of DISPOSE i] assms
  by (simp_all add: handle_request_def request_msg_def Let_def)

text \<open>Two requests posted one after the other and the two iterations that serve them.\<close>

lemma two_requests:
  assumes "ipc_ctrl f = []" "\<not> stopping f" "running f"
    and "0 \<le> e1" "e1 < 256" "0 \<le> i1" "i1 < 2 ^ 23" "0 \<le> e2" "e2 < 256" "0 \<le> i2" "i2 < 2 ^ 23"
    and "\<And>x. handle_request c w1 (request_msg e1 i1) (f\<lparr>ipc_ctrl := x\<rparr>) = Some (g\<lparr>ipc_ctrl := x\<rparr>)" "\<not> stopping g" "running g"
    and "handle_request c w2 (request_msg e2 i2) (g\<lparr>ipc_ctrl := []\<rparr>) = Some h" "\<not> stopping h"
    and "post_ctrl e1 i1 f = Some f1" "post_ctrl e2 i2 f1 = Some f2"
  shows "forked_handle_events [FactoryIn c w1, FactoryIn c w2] f2 = Some h"
proof -
  obtain b1 where b1: "f1 = f\<lparr>ipc_ctrl := ipc_ctrl f @ b1\<rparr>"
    "\<And>g rest. ipc_ctrl g = b1 @ rest \<Longrightarrow> factory_iter (FactoryIn c w1) g =
       map_option (\<lambda>h. if stopping h \<and> running_process h = 0 then h\<lparr>running := False\<rparr> else h)
         (handle_request c w1 (request_msg e1 i1) (g\<lparr>ipc_ctrl := rest\<rparr>))"
    using iter_request [OF assms(4-7) assms(17)] by blast
  obtain b2 where b2: "f2 = f1\<lparr>ipc_ctrl := ipc_ctrl f1 @ b2\<rparr>"
    "\<And>g rest. ipc_ctrl g = b2 @ rest \<Longrightarrow> factory_iter (FactoryIn c w2) g =
       map_option (\<lambda>h. if stopping h \<and> running_process h = 0 then h\<lparr>running := False\<rparr> else h)
         (handle_request c w2 (request_msg e2 i2) (g\<lparr>ipc_ctrl := rest\<rparr>))"
    using iter_request [OF assms(8-11) assms(18)] by blast
  have "f2 = f\<lparr>ipc_ctrl := b1 @ b2\<rparr>" using assms(1) by (simp add: b1(1) b2(1))
  then have "factory_iter (FactoryIn c w1) f2 = Some (g\<lparr>ipc_ctrl := b2\<rparr>)" using b1(2) [of f2 b2] assms(12) [of b2] assms(13) by simp
  moreover have "factory_iter (FactoryIn c w2) (g\<lparr>ipc_ctrl := b2\<rparr>) = Some h"
    using b2(2) [of "g\<lparr>ipc_ctrl := b2\<rparr>" "[]"] assms(15,16) by simp
  moreover have "running f2" using assms(3) by (simp add: b1(1) b2(1))
  ultimately show ?thesis using assms(14) by simp
qed

lemma find_pid_update:
  assumes "factory_ok f" "i < length (processes f)" "pid (processes f ! i) \<noteq> -1"
  shows "find (\<lambda>j. pid ((processes f)[i := set_flag e (processes f ! i)] ! j) = pid (processes f ! i)) [0..<length (processes f)] = Some i"
proof -
  have "pid ((processes f)[i := set_flag e (processes f ! i)] ! j) = pid (processes f ! j)" for j
    using assms(2) by (cases "j = i") auto
  then show ?thesis using find_pid [OF assms] by simp
qed

lemma clean_then_exit:
  assumes "factory_ok f" "i < length (processes f)" "pid (processes f ! i) > 0" "slots f ! i = Running" "drained (processes f ! i)"
  shows "\<exists>g. (\<forall>x. handle_clean (int i) (f\<lparr>ipc_ctrl := x\<rparr>) = Some (g\<lparr>ipc_ctrl := x\<rparr>)) \<and> stopping g = stopping f \<and> running g = running f \<and>
    (\<exists>h q. handle_dead [(pid (processes f ! i), False)] (g\<lparr>ipc_ctrl := []\<rparr>) = Some h \<and> stopping h = stopping f \<and> running h = running f \<and>
      processes h = (processes f)[i := q] \<and> pid q = -1)"
proof -
  let ?p = "processes f ! i"
  let ?g = "set_process i (set_flag CLEAN ?p) f"
  have r: "\<not> flagged ?p DEAD" "\<not> flagged ?p KILL" "\<not> flagged ?p CLEAN"
    using assms(2-4) by (auto simp: slots_nth slot_of_def split: if_splits)
  have c: "handle_clean (int i) (f\<lparr>ipc_ctrl := x\<rparr>) = Some (?g\<lparr>ipc_ctrl := x\<rparr>)" for x
    using assms(2,3) r by (simp add: handle_clean_def set_process_def)
  have f: "find (\<lambda>j. pid (processes (?g\<lparr>ipc_ctrl := []\<rparr>) ! j) = pid ?p) [0..<length (processes (?g\<lparr>ipc_ctrl := []\<rparr>))] = Some i"
    using find_pid_update [OF assms(1,2)] assms(3) by (simp add: set_process_def)
  have "free_slot i (?g\<lparr>ipc_ctrl := []\<rparr>) = Some (set_process i ((set_flag CLEAN ?p)\<lparr>pid := -1\<rparr>) (?g\<lparr>ipc_ctrl := []\<rparr>))"
    using free_slot_drained [of i "?g\<lparr>ipc_ctrl := []\<rparr>"] assms(2,5) by (simp add: set_process_def)
  then have "handle_dead [(pid ?p, False)] (?g\<lparr>ipc_ctrl := []\<rparr>) = Some (set_process i ((set_flag CLEAN ?p)\<lparr>pid := -1\<rparr>) (?g\<lparr>ipc_ctrl := []\<rparr>))"
    using f assms(2) by (simp add: handle_one_dead_def Let_def) (simp add: set_process_def)
  with c show ?thesis
    by (intro exI [of _ ?g] conjI exI [of _ "set_process i ((set_flag CLEAN ?p)\<lparr>pid := -1\<rparr>) (?g\<lparr>ipc_ctrl := []\<rparr>)"]
        exI [of _ "(set_flag CLEAN ?p)\<lparr>pid := -1\<rparr>"]) (simp_all add: set_process_def)
qed

lemma exit_then_clean:
  assumes "factory_ok f" "i < length (processes f)" "pid (processes f ! i) > 0" "slots f ! i = Running" "drained (processes f ! i)" "running f"
  shows "\<exists>g. (\<forall>x. handle_dead [(pid (processes f ! i), False)] (f\<lparr>ipc_ctrl := x\<rparr>) = Some (g\<lparr>ipc_ctrl := x\<rparr>)) \<and> stopping g = stopping f \<and> running g \<and>
    (\<exists>h q. handle_clean (int i) (g\<lparr>ipc_ctrl := []\<rparr>) = Some h \<and> stopping h = stopping f \<and> running h \<and>
      processes h = (processes f)[i := q] \<and> pid q = -1)"
proof -
  let ?p = "processes f ! i"
  let ?g = "set_process i (set_flag DEAD ?p) f"
  have r: "\<not> flagged ?p DEAD" "\<not> flagged ?p KILL" "\<not> flagged ?p CLEAN"
    using assms(2-4) by (auto simp: slots_nth slot_of_def split: if_splits)
  have c: "handle_dead [(pid ?p, False)] (f\<lparr>ipc_ctrl := x\<rparr>) = Some (?g\<lparr>ipc_ctrl := x\<rparr>)" for x
    using find_pid [OF assms(1,2)] assms(3,6) r by (simp add: handle_one_dead_def Let_def set_process_def)
  have "free_slot i (?g\<lparr>ipc_ctrl := []\<rparr>) = Some (set_process i ((set_flag DEAD ?p)\<lparr>pid := -1\<rparr>) (?g\<lparr>ipc_ctrl := []\<rparr>))"
    using free_slot_drained [of i "?g\<lparr>ipc_ctrl := []\<rparr>"] assms(2,5) by (simp add: set_process_def)
  then have "handle_clean (int i) (?g\<lparr>ipc_ctrl := []\<rparr>) = Some (set_process i ((set_flag DEAD ?p)\<lparr>pid := -1\<rparr>) (?g\<lparr>ipc_ctrl := []\<rparr>))"
    using assms(2,3) by (simp add: handle_clean_def) (simp add: set_process_def)
  with c assms(6) show ?thesis
    by (intro exI [of _ ?g] conjI exI [of _ "set_process i ((set_flag DEAD ?p)\<lparr>pid := -1\<rparr>) (?g\<lparr>ipc_ctrl := []\<rparr>)"]
        exI [of _ "(set_flag DEAD ?p)\<lparr>pid := -1\<rparr>"]) (simp_all add: set_process_def)
qed

section \<open>Properties\<close>


definition factory_demo :: crm_process_factory where
  "factory_demo = (crm_process_factory_init 2 100)\<lparr>processes :=
     [\<lparr>pid = 7, events = 0, ipc_p2c = [], ipc_c2p = []\<rparr>, \<lparr>pid = -1, events = 0, ipc_p2c = [], ipc_c2p = []\<rparr>]\<rparr>"

lemma factory_demo_ok: "factory_ok factory_demo" "processes factory_demo ! 0 = \<lparr>pid = 7, events = 0, ipc_p2c = [], ipc_c2p = []\<rparr>"
  "length (processes factory_demo) = 2" "slots factory_demo = [Running, Free]" "ipc_ctrl factory_demo = []" "\<not> stopping factory_demo"
  "running factory_demo"
  by (simp_all add: factory_demo_def factory_ok_def slot_ok_def slots_def slot_of_def crm_process_factory_init_def nth_Cons' less_2_cases_iff)


text \<open>
  Whether a process ends before its user cleans it or after, once both messages have gone through
  the control pipe its slot is free again and no other slot has changed.
\<close>

theorem factory_clean_any_order:
  assumes "factory_ok f" "i < length (processes f)" "length (processes f) < 2 ^ 23" "slots f ! i = Running" "drained (processes f ! i)"
    and "ipc_ctrl f = []" "\<not> stopping f" "running f" "w = [(pid (processes f ! i), False)]"
  shows "(\<exists>f1 f2 h. clean (int i) f = Some f1 \<and> sig_child f1 = Some f2 \<and>
      forked_handle_events [FactoryIn c [], FactoryIn c w] f2 = Some h \<and> slots h = (slots f)[i := Free] \<and>
      (\<forall>j. j \<noteq> i \<longrightarrow> processes h ! j = processes f ! j)) \<and>
    (\<exists>f1 f2 h. sig_child f = Some f1 \<and> clean (int i) f1 = Some f2 \<and>
      forked_handle_events [FactoryIn c w, FactoryIn c []] f2 = Some h \<and> slots h = (slots f)[i := Free] \<and>
      (\<forall>j. j \<noteq> i \<longrightarrow> processes h ! j = processes f ! j))"
proof -
  have i: "0 \<le> int i" "int i < 2 ^ 23" using assms(2,3) by simp_all
  have p: "pid (processes f ! i) > 0"
    using assms(1,2,4) by (auto simp: factory_ok_def slot_ok_def slots_nth slot_of_def split: if_splits)
  have res: "slots h = (slots f)[i := Free] \<and> (\<forall>j. j \<noteq> i \<longrightarrow> processes h ! j = processes f ! j)"
    if "processes h = (processes f)[i := q]" "pid q = -1" for h q
    using that by (simp add: slots_def map_update slot_of_def)
  have post: "\<exists>b. post_ctrl e k g = Some (g\<lparr>ipc_ctrl := b\<rparr>)" if "0 \<le> e" "e < 256" "0 \<le> k" "k < 2 ^ 23" for e k g
    using post_ctrl_get [OF that, of g] by blast
  obtain b1 where f1: "post_ctrl CLEAN (int i) f = Some (f\<lparr>ipc_ctrl := b1\<rparr>)" using post i by fastforce
  obtain b2 where f2: "post_ctrl DEAD 0 (f\<lparr>ipc_ctrl := b1\<rparr>) = Some (f\<lparr>ipc_ctrl := b2\<rparr>)" using post [of DEAD 0 "f\<lparr>ipc_ctrl := b1\<rparr>"] by auto
  obtain b3 where f3: "post_ctrl DEAD 0 f = Some (f\<lparr>ipc_ctrl := b3\<rparr>)" using post [of DEAD 0 f] by auto
  obtain b4 where f4: "post_ctrl CLEAN (int i) (f\<lparr>ipc_ctrl := b3\<rparr>) = Some (f\<lparr>ipc_ctrl := b4\<rparr>)"
    using post [of CLEAN "int i" "f\<lparr>ipc_ctrl := b3\<rparr>"] i by auto
  obtain g h q where g: "\<And>x. handle_clean (int i) (f\<lparr>ipc_ctrl := x\<rparr>) = Some (g\<lparr>ipc_ctrl := x\<rparr>)" "\<not> stopping g" "running g"
    "handle_dead w (g\<lparr>ipc_ctrl := []\<rparr>) = Some h" "\<not> stopping h" "processes h = (processes f)[i := q]" "pid q = -1"
    using clean_then_exit [OF assms(1,2) p assms(4,5)] assms(7-9) by blast
  have "forked_handle_events [FactoryIn c [], FactoryIn c w] (f\<lparr>ipc_ctrl := b2\<rparr>) = Some h"
    by (rule two_requests [OF assms(6-8) _ _ i _ _ _ _ _ g(2,3) _ g(5) f1 f2]) (simp_all add: handle_request_cases(1) [OF i] handle_request_cases(3) g(1,4))
  moreover obtain g' h' q' where g': "\<And>x. handle_dead w (f\<lparr>ipc_ctrl := x\<rparr>) = Some (g'\<lparr>ipc_ctrl := x\<rparr>)" "\<not> stopping g'" "running g'"
    "handle_clean (int i) (g'\<lparr>ipc_ctrl := []\<rparr>) = Some h'" "\<not> stopping h'" "processes h' = (processes f)[i := q']" "pid q' = -1"
    using exit_then_clean [OF assms(1,2) p assms(4,5,8)] assms(7,9) by blast
  moreover have "forked_handle_events [FactoryIn c w, FactoryIn c []] (f\<lparr>ipc_ctrl := b4\<rparr>) = Some h'"
    by (rule two_requests [OF assms(6-8) _ _ _ _ _ _ i _ g'(2,3) _ g'(5) f3 f4]) (simp_all add: handle_request_cases(1) [OF i] handle_request_cases(3) g'(1,4))
  ultimately show ?thesis
    using f1 f2 f3 f4 res [OF g(6,7)] res [OF g'(6,7)] assms(2) unfolding clean_def sig_child_def by auto
qed

theorem factory_clean_any_order_witness:
  "(\<exists>f1 f2 h. clean 0 factory_demo = Some f1 \<and> sig_child f1 = Some f2 \<and>
      forked_handle_events [FactoryIn 9 [], FactoryIn 9 [(7, False)]] f2 = Some h \<and> slots h = [Free, Free]) \<and>
   (\<exists>f1 f2 h. sig_child factory_demo = Some f1 \<and> clean 0 f1 = Some f2 \<and>
      forked_handle_events [FactoryIn 9 [(7, False)], FactoryIn 9 []] f2 = Some h \<and> slots h = [Free, Free])"
  using factory_clean_any_order [of factory_demo 0 "[(7, False)]" 9]
  by (simp add: factory_demo_ok del: forked_handle_events.simps) blast

lemma of_nat_small:
  assumes "n < 2 ^ 31"
  shows "unat (word_of_nat n :: 64 word) = n" "uint (word_of_nat n :: 64 word) < 2 ^ 31"
proof -
  show u: "unat (word_of_nat n :: 64 word) = n" using assms by (simp add: unsigned_of_nat take_bit_nat_eq_self)
  then have "uint (word_of_nat n :: 64 word) = int n" by (metis uint_nat)
  with assms show "uint (word_of_nat n :: 64 word) < 2 ^ 31" by simp
qed

text \<open>
  What a user gives to create a process is what the process is started with: the message of a
  creation, read by the factory and cut at the first semicolon by the new process, is the name of the
  library and the argument given, with no argument when its length is zero.
\<close>

theorem factory_create_roundtrip:
  assumes "plugin_name \<noteq> []" "59 \<notin> set plugin_name" "length plugin_name + length dat + 1 < 2 ^ 31" "ipc_ctrl f = []"
  shows "\<exists>f1 msg. create_request plugin_name dat f = Some f1 \<and> get_msg_process (ipc_ctrl f1) = Some (msg, []) \<and>
    get_event (scalar msg) = CREATE \<and> start_args (data msg) = Some (plugin_name, if dat = [] then None else Some dat, length dat)"
proof -
  define buf where "buf = plugin_name @ [59] @ dat"
  let ?n = "word_of_nat (length buf) :: 64 word"
  have len: "0 < length buf" "length buf < 2 ^ 31" using assms(3) by (simp_all add: buf_def)
  note u = of_nat_small [OF len(2)]
  have s: "scast (ucast ?n :: 32 word) = ?n" using scast_ucast_small [OF u(2)] .
  have z: "scast (ucast (gen_scalar CREATE 0) :: 32 word) = gen_scalar CREATE 0"
    by (rule scast_ucast_small, rule gen_scalar_fields) simp_all
  have pos: "?n > 0" using u(1) len(1) by (metis gr0I unat_gt_0 word_gt_0)
  have sd: "sint ?n = sint (ucast ?n :: 32 word)"
    using sint_up_scast [of "ucast ?n :: 32 word", where ?'b = 64] s by (simp add: is_up)
  have "create_request plugin_name dat f = Some (f\<lparr>ipc_ctrl := int_bytes (ucast (gen_scalar CREATE 0)) @ int_bytes (ucast ?n) @ buf\<rparr>)"
    using assms(1,4) u(1) pos sd unfolding create_request_def create_buffer_def buf_def [symmetric] by (simp add: send_msg_process_def)
  moreover have "get_msg_process (int_bytes (ucast (gen_scalar CREATE 0)) @ int_bytes (ucast ?n) @ buf) =
      Some (\<lparr>scalar = gen_scalar CREATE 0, data_size = ?n, data = buf\<rparr>, [])"
    using pos u(1) by (simp add: get_msg_process_hdr s z Let_def read_bytes_def)
  moreover have "takeWhile (\<lambda>b. b \<noteq> 59) buf = plugin_name"
    unfolding buf_def using assms(2) by (subst takeWhile_append2) auto
  then have "start_args buf = Some (plugin_name, if dat = [] then None else Some dat, length dat)"
    by (simp add: start_args_def Let_def) (simp add: buf_def)
  moreover have "get_event (gen_scalar CREATE 0) = CREATE" by (rule gen_scalar_fields) simp_all
  ultimately show ?thesis by auto
qed

theorem factory_create_roundtrip_witness:
  "\<exists>f1 msg. create_request [108, 105, 98] [1, 59, 2] factory_demo = Some f1 \<and> get_msg_process (ipc_ctrl f1) = Some (msg, []) \<and>
    start_args (data msg) = Some ([108, 105, 98], Some [1, 59, 2], 3)"
  using factory_create_roundtrip [of "[108, 105, 98]" "[1, 59, 2]" factory_demo] by (auto simp: factory_demo_ok)

text \<open>
  Disposing the factory while one of its processes runs kills CRM: the process is killed without being
  marked, so that its death by a signal is taken for a crash and every process, the one that created the
  factory included, is killed.
\<close>

theorem factory_dispose_kills_crm:
  assumes "factory_ok f" "i < length (processes f)" "slots f ! i = Running" "ipc_ctrl f = []" "running f"
  shows "\<exists>f1 f2 h. factory_dispose f = Some f1 \<and> sig_child f1 = Some f2 \<and>
    forked_handle_events [FactoryIn c [], FactoryIn c [(pid (processes f ! i), True)]] f2 = Some h \<and>
    Sigkill (pid (processes f ! i)) \<in> set (factory_io h) \<and> Sigkill (pid_parent f) \<in> set (factory_io h) \<and> \<not> running h"
proof -
  let ?p = "processes f ! i"
  have r: "\<not> flagged ?p DEAD" "\<not> flagged ?p KILL" "\<not> flagged ?p CLEAN" "pid ?p \<noteq> -1"
    using assms(2,3) by (auto simp: slots_nth slot_of_def split: if_splits)
  then have pos: "pid ?p > 0" using assms(1,2) by (auto simp: factory_ok_def slot_ok_def)
  obtain b1 where b1: "factory_dispose f = Some (f\<lparr>ipc_ctrl := b1\<rparr>)"
    "\<And>rest. get_msg_process (b1 @ rest) = Some (request_msg DISPOSE 0, rest)"
    using post_ctrl_get [of DISPOSE 0 f] assms(4) by (auto simp: factory_dispose_def request_msg_def)
  obtain b2 where b2: "sig_child (f\<lparr>ipc_ctrl := b1\<rparr>) = Some (f\<lparr>ipc_ctrl := b1 @ b2\<rparr>)"
    "\<And>rest. get_msg_process (b2 @ rest) = Some (request_msg DEAD 0, rest)"
    using post_ctrl_get [of DEAD 0 "f\<lparr>ipc_ctrl := b1\<rparr>"] by (auto simp: sig_child_def request_msg_def)
  let ?g = "(handle_dispose f)\<lparr>ipc_ctrl := b2\<rparr>"
  have live: "running_process ?g \<noteq> 0"
    using r(4) assms(2) countp_pos [of i "processes f" "\<lambda>p. pid p \<noteq> -1"] by (simp add: running_process_def handle_dispose_def)
  have i1: "factory_iter (FactoryIn c []) (f\<lparr>ipc_ctrl := b1 @ b2\<rparr>) = Some ?g"
    using b1(2) [of b2] live by (simp add: factory_iter_def handle_request_cases handle_dispose_def running_process_def)
  have "find (\<lambda>j. pid (processes f ! j) = pid ?p) [0..<length (processes f)] = Some i" using find_pid [OF assms(1,2) r(4)] .
  then have "handle_dead [(pid ?p, True)] (?g\<lparr>ipc_ctrl := []\<rparr>) = Some (kill_all (?g\<lparr>ipc_ctrl := []\<rparr>))"
    using r by (simp add: handle_one_dead_def Let_def handle_dispose_def kill_all_def)
  then obtain h where i2: "factory_iter (FactoryIn c [(pid ?p, True)]) ?g = Some h"
    and h: "factory_io h = factory_io (kill_all (?g\<lparr>ipc_ctrl := []\<rparr>))" "\<not> running h"
    using b2(2) [of "[]"] by (simp add: factory_iter_def handle_request_cases kill_all_def del: handle_dead.simps)
  have "running ?g" using assms(5) by (simp add: handle_dispose_def)
  with i1 i2 assms(5) have "forked_handle_events [FactoryIn c [], FactoryIn c [(pid ?p, True)]] (f\<lparr>ipc_ctrl := b1 @ b2\<rparr>) = Some h" by simp
  moreover have "Sigkill (pid ?p) \<in> set (factory_io h)" "Sigkill (pid_parent f) \<in> set (factory_io h)"
    using pos assms(2) by (auto simp: h kill_all_def handle_dispose_def)
  ultimately show ?thesis using b1(1) b2(1) h(2) by blast
qed

theorem factory_dispose_kills_crm_witness:
  "\<exists>f1 f2 h. factory_dispose factory_demo = Some f1 \<and> sig_child f1 = Some f2 \<and>
    forked_handle_events [FactoryIn 9 [], FactoryIn 9 [(7, True)]] f2 = Some h \<and> Sigkill 100 \<in> set (factory_io h)"
  using factory_dispose_kills_crm [of factory_demo 0 9]
  by (simp add: factory_demo_ok del: forked_handle_events.simps) (auto simp: factory_demo_def crm_process_factory_init_def simp del: forked_handle_events.simps)

text \<open>
  Killing a process that has ended by itself and left a message nobody read aborts the factory: the
  pipes are emptied before the kill is recorded, and the assertion that only a killed process leaves
  messages fails.
\<close>

theorem factory_kill_finished_aborts:
  assumes "i < length (processes f)" "pid (processes f ! i) > 0" "slots f ! i = Finished" "slot_ok (processes f ! i)" "ipc_c2p (processes f ! i) \<noteq> []"
  shows "handle_kill (int i) f = None"
proof -
  have "flagged (processes f ! i) DEAD" "\<not> flagged (processes f ! i) KILL"
    using assms by (auto simp: slots_nth slot_of_def slot_ok_def split: if_splits)
  then show ?thesis
    using assms(1,2,5) by (auto simp: handle_kill_def free_slot_def forked_flush_ipcs_def flush_pipe.simps [of False "ipc_c2p (processes f ! i)"] bind_eq_None_conv)
qed

theorem factory_kill_finished_aborts_witness:
  "handle_kill 0 (factory_demo\<lparr>processes := [\<lparr>pid = 7, events = 8, ipc_p2c = [], ipc_c2p = [1, 0, 0, 0, 0, 0, 0, 0]\<rparr>]\<rparr>) = None"
  using factory_kill_finished_aborts [of 0 "factory_demo\<lparr>processes := [\<lparr>pid = 7, events = 8, ipc_p2c = [], ipc_c2p = [1, 0, 0, 0, 0, 0, 0, 0]\<rparr>]\<rparr>"]
  by (simp add: slots_def slot_of_def slot_ok_def bit_numeral_simps)

text \<open>
  Whatever the users and the processes do, as long as the kernel gives new processes identifiers no
  known process has, every slot is free or holds a process, two processes never have the same identifier,
  so that the end of one is never taken for the end of another, and the number of slots does not change.
\<close>

theorem factory_pids_distinct:
  assumes "factory_run as (crm_process_factory_init nb self) = Some f" "forks_fresh as (crm_process_factory_init nb self)"
  shows "length (processes f) = nb \<and> (\<forall>p \<in> set (processes f). pid p = -1 \<or> pid p > 0) \<and>
    (\<forall>i j. i < nb \<longrightarrow> j < nb \<longrightarrow> pid (processes f ! i) = pid (processes f ! j) \<longrightarrow> pid (processes f ! i) \<noteq> -1 \<longrightarrow> i = j)"
  using events_ok [OF assms(1) init_ok assms(2)] by (auto simp: factory_ok_def slot_ok_def crm_process_factory_init_def)

definition factory_demo_run :: "factory_act list" where
  "factory_demo_run = [ActCreate [108] [], ActTurn (FactoryIn 7 []), ActCreate [109] [1], ActTurn (FactoryIn 8 []),
     ActClean 0, ActSigchild, ActTurn (FactoryIn 9 []), ActTurn (FactoryIn 9 [(7, False)])]"

theorem factory_pids_distinct_witness:
  "\<exists>f. factory_run factory_demo_run (crm_process_factory_init 3 100) = Some f \<and> map pid (processes f) = [-1, 8, -1] \<and>
    (\<forall>p \<in> set (processes f). pid p = -1 \<or> pid p > 0)"
proof -
  have "map_option (\<lambda>f. map pid (processes f)) (factory_run factory_demo_run (crm_process_factory_init 3 100)) = Some [-1, 8, -1]"
    by code_simp
  then obtain f where f: "factory_run factory_demo_run (crm_process_factory_init 3 100) = Some f" "map pid (processes f) = [-1, 8, -1]" by auto
  have "forks_fresh factory_demo_run (crm_process_factory_init 3 100)" by code_simp
  from factory_pids_distinct [OF f(1) this] have "\<forall>p \<in> set (processes f). pid p = -1 \<or> pid p > 0" by (elim conjE)
  with f show ?thesis by (intro exI conjI)
qed

end
