(* ===== verification/Crm_Ifwd.thy ===== *)
theory Crm_Ifwd
  imports Crm_Archive
begin

text \<open>
  libs/ifwd/src/crm_ifwd.c: flashing the modem and reading its core dump with the download library, whose sources
  are not part of the repository. Its calls are appended to a trace, and what they answer is the argument \<open>dl\<close>:
  whether the n-th call returns \<open>IFWD_DL_OK\<close>. The contents of a firmware file, as the library tells them, are
  an argument too.
\<close>

section \<open>The download library\<close>

abbreviation (input) ERR_BUFFER_SIZE :: nat where "ERR_BUFFER_SIZE \<equiv> 500"

datatype ifwd_call =
    SetTraceFile string | SetTrace bool | ChannelSwitch | CoredumpMode bool | CoredumpPath string
  | OpenPort string | InitCallback | StayInFunction | GetPlatform string | PreBoot | BootTarget string
  | DownloadFls string | DownloadCust string | ForceReset | ClosePort | Unlink string

record ifwd_lib =
  MEMORY_CLASS_CODE :: nat
  MEMORY_CLASS_CUST :: nat
  nof_items :: "string \<Rightarrow> nat"
  memory_class :: "string \<Rightarrow> nat \<Rightarrow> nat"

type_synonym ifwd_trace = "ifwd_call list"

definition dl_call :: "(nat \<Rightarrow> bool) \<Rightarrow> ifwd_call \<Rightarrow> ifwd_trace \<Rightarrow> bool \<times> ifwd_trace" where
  "dl_call dl c tr = (dl (length tr), tr @ [c])"

text \<open>\<open>SET_CFG\<close> and the other calls that have to succeed.\<close>

definition set_cfg :: "(nat \<Rightarrow> bool) \<Rightarrow> ifwd_call \<Rightarrow> ifwd_trace \<Rightarrow> ifwd_trace option" where
  "set_cfg dl c tr = do { ASSERT (dl (length tr)); Some (tr @ [c]) }"

section \<open>Booting the modem\<close>

text \<open>\<open>dump\<close> is the folder of the dump when one is to be read.\<close>

definition trace_cfg :: "(nat \<Rightarrow> bool) \<Rightarrow> string \<Rightarrow> ifwd_trace \<Rightarrow> ifwd_trace option" where
  "trace_cfg dl log_file tr =
     (if log_file \<noteq> [] then do { tr \<leftarrow> set_cfg dl (SetTraceFile log_file) (tr @ [Unlink log_file]); set_cfg dl (SetTrace True) tr }
      else Some tr)"

definition dump_cfg :: "(nat \<Rightarrow> bool) \<Rightarrow> string option \<Rightarrow> ifwd_trace \<Rightarrow> ifwd_trace option" where
  "dump_cfg dl dump tr =
     (case dump of
        None \<Rightarrow> set_cfg dl (CoredumpMode False) tr
      | Some folder \<Rightarrow> do {
          tr \<leftarrow> set_cfg dl ChannelSwitch tr;
          tr \<leftarrow> set_cfg dl (CoredumpMode True) tr;
          set_cfg dl (CoredumpPath folder) tr
        })"

definition boot_modem_flashing_mode ::
  "(nat \<Rightarrow> bool) \<Rightarrow> string \<Rightarrow> string \<Rightarrow> string \<Rightarrow> string option \<Rightarrow> ifwd_trace \<Rightarrow> (int \<times> ifwd_trace) option" where
  "boot_modem_flashing_mode dl dev_node fw log_file dump tr = do {
     tr \<leftarrow> trace_cfg dl log_file tr;
     tr \<leftarrow> dump_cfg dl dump tr;
     tr \<leftarrow> set_cfg dl ChannelSwitch tr;
     tr \<leftarrow> set_cfg dl (OpenPort dev_node) tr;
     tr \<leftarrow> set_cfg dl InitCallback tr;
     tr \<leftarrow> set_cfg dl StayInFunction tr;
     tr \<leftarrow> set_cfg dl (GetPlatform fw) tr;
     let (ok, tr) = dl_call dl PreBoot tr;
     if \<not> ok then Some (-1, tr)
     else let (ok, tr) = dl_call dl (BootTarget fw) tr
          in Some (if ok then 0 else -1, tr)
   }"

definition boot_modem_normal_mode :: "(nat \<Rightarrow> bool) \<Rightarrow> ifwd_trace \<Rightarrow> int \<times> ifwd_trace" where
  "boot_modem_normal_mode dl tr = (let (ok, tr) = dl_call dl ForceReset tr in (if ok then 0 else -1, tr))"

definition cleanup :: "(nat \<Rightarrow> bool) \<Rightarrow> string \<Rightarrow> ifwd_trace \<Rightarrow> ifwd_trace option" where
  "cleanup dl log_file tr = do {
     let tr = tr @ [ClosePort];
     if log_file \<noteq> [] then set_cfg dl (SetTrace False) tr else Some tr
   }"

section \<open>Flashing\<close>

definition fls_name :: "nat \<Rightarrow> string \<Rightarrow> string" where
  "fls_name part fw = snprintf 512 (''|'' @ print_num 10 part @ ''|'' @ fw)"

definition download :: "ifwd_lib \<Rightarrow> nat \<Rightarrow> string \<Rightarrow> nat \<Rightarrow> ifwd_call" where
  "download lib cls fw part = (if cls = MEMORY_CLASS_CODE lib then DownloadFls (fls_name part fw) else DownloadCust (fls_name part fw))"

fun flash_class ::
  "(nat \<Rightarrow> bool) \<Rightarrow> ifwd_lib \<Rightarrow> string \<Rightarrow> nat \<Rightarrow> nat list \<Rightarrow> nat \<times> ifwd_trace \<Rightarrow> (nat \<times> ifwd_trace) option" where
  "flash_class dl lib fw cls [] (n, tr) = Some (n, tr)"
| "flash_class dl lib fw cls (part # parts) (n, tr) =
     (if memory_class lib fw part = cls
      then do { tr \<leftarrow> set_cfg dl (download lib cls fw part) tr; flash_class dl lib fw cls parts (n + 1, tr) }
      else flash_class dl lib fw cls parts (n, tr))"

definition flash_parts :: "(nat \<Rightarrow> bool) \<Rightarrow> ifwd_lib \<Rightarrow> string \<Rightarrow> ifwd_trace \<Rightarrow> ifwd_trace option" where
  "flash_parts dl lib fw tr = do {
     let nb_parts = nof_items lib fw;
     ASSERT (nb_parts > 0);
     (n, tr) \<leftarrow> flash_class dl lib fw (MEMORY_CLASS_CODE lib) [0..<nb_parts] (0, tr);
     (n, tr) \<leftarrow> flash_class dl lib fw (MEMORY_CLASS_CUST lib) [0..<nb_parts] (n, tr);
     ASSERT (n = nb_parts);
     Some tr
   }"

definition write_fw :: "(nat \<Rightarrow> bool) \<Rightarrow> ifwd_lib \<Rightarrow> string \<Rightarrow> string \<Rightarrow> string \<Rightarrow> (int \<times> ifwd_trace) option" where
  "write_fw dl lib dev_node fw log_file = do {
     (err, tr) \<leftarrow> boot_modem_flashing_mode dl dev_node fw log_file None [];
     (ret, tr) \<leftarrow> (if err = 0 then do { tr \<leftarrow> flash_parts dl lib fw tr; Some (boot_modem_normal_mode dl tr) } else Some (-1, tr));
     tr \<leftarrow> cleanup dl log_file tr;
     Some (ret, tr)
   }"

definition crm_ifwd_write_firmware :: "(nat \<Rightarrow> bool) \<Rightarrow> ifwd_lib \<Rightarrow> string \<Rightarrow> string \<Rightarrow> string \<Rightarrow> (int \<times> ifwd_trace) option" where
  "crm_ifwd_write_firmware dl lib dev_node fw log_file = write_fw dl lib dev_node fw log_file"

text \<open>\<open>regular\<close>: the firmware is a file; \<open>inject\<close>: the answer of the library to the packaging.\<close>

definition crm_ifwd_package :: "bool \<Rightarrow> int \<Rightarrow> unit option" where
  "crm_ifwd_package regular inject = do { ASSERT regular; ASSERT (inject \<noteq> 0) }"

section \<open>Reading a dump\<close>

record dump_env =
  after_boot :: "file_system \<Rightarrow> file_system"
  unlink_ok :: "string \<Rightarrow> bool"
  rename_ok :: bool
  owner_known :: bool
  chown_ok :: "string \<Rightarrow> bool"
  gz_ok :: "nat \<Rightarrow> bool"
  gz_opened :: bool
  gz_closed :: bool

record local_time =
  tm_year :: nat
  tm_mon :: nat
  tm_mday :: nat
  tm_hour :: nat
  tm_min :: nat
  tm_sec :: nat

definition is_file :: "file_system \<Rightarrow> string \<Rightarrow> bool" where
  "is_file fs path = (case fs path of Some (st, c) \<Rightarrow> st_regular st | None \<Rightarrow> False)"

definition delete_file :: "dump_env \<Rightarrow> string \<Rightarrow> string \<Rightarrow> file_system \<Rightarrow> file_system option" where
  "delete_file env folder file fs = do {
     let path = snprintf 128 (folder @ ''/'' @ file);
     if is_file fs path then do { ASSERT (unlink_ok env path); Some (fs(path := None)) } else Some fs
   }"

fun delete_dump_files :: "dump_env \<Rightarrow> string \<Rightarrow> string list \<Rightarrow> file_system \<Rightarrow> file_system option" where
  "delete_dump_files env folder [] fs = Some fs"
| "delete_dump_files env folder (f # files) fs = do { fs \<leftarrow> delete_file env folder f fs; delete_dump_files env folder files fs }"

text \<open>The year takes at least four characters, padded with spaces.\<close>

definition set_name :: "local_time \<Rightarrow> string \<Rightarrow> string \<Rightarrow> string \<Rightarrow> string" where
  "set_name t folder type extension = snprintf 128 (folder @ ''/coredump_'' @ type @ ''_'' @
     (let y = print_num 10 (tm_year t + 1900) in replicate (4 - length y) (CHR '' '') @ y) @ ''-'' @
     pad 2 (print_num 10 (tm_mon t + 1)) @ ''-'' @ pad 2 (print_num 10 (tm_mday t)) @ ''-'' @ pad 2 (print_num 10 (tm_hour t)) @ ''.'' @
     pad 2 (print_num 10 (tm_min t)) @ ''.'' @ pad 2 (print_num 10 (tm_sec t)) @ ''.'' @ extension)"

abbreviation (input) info_file :: string where "info_file \<equiv> ''report.json''"

abbreviation (input) dump_files :: "string list" where
  "dump_files \<equiv> [''coredump.fcd'', ''bootcore_prev_trace.bin'', ''bootcore_trace.bin'']"

text \<open>
  \<open>collect_dump\<close>: the archive of the dump, the renamed information file, and the string with the two names. What the
  archive holds is the list of writes.
\<close>

definition collect_dump :: "dump_env \<Rightarrow> local_time \<Rightarrow> string \<Rightarrow> file_system \<Rightarrow> (string \<times> string list \<times> file_system) option" where
  "collect_dump env t folder fs = do {
     let info_path = set_name t folder ''info'' ''json'';
     let dump_path = set_name t folder ''modem'' ''tgz'';
     ws \<leftarrow> crm_ifwd_tgz_create fs (gz_ok env) (gz_opened env) (gz_closed env) folder dump_files;
     let file = snprintf 128 (folder @ ''/'' @ info_file);
     ASSERT (rename_ok env \<and> fs file \<noteq> None);
     let fs = (fs(file := None))(info_path := fs file);
     ASSERT (owner_known env);
     ASSERT (chown_ok env info_path);
     ASSERT (chown_ok env dump_path);
     Some (info_path @ '';'' @ dump_path @ '';'', ws, fs)
   }"

definition read_dump_ifwd ::
  "(nat \<Rightarrow> bool) \<Rightarrow> dump_env \<Rightarrow> local_time \<Rightarrow> string \<Rightarrow> string \<Rightarrow> string \<Rightarrow> string \<Rightarrow> file_system \<Rightarrow>
    (string option \<times> string list \<times> file_system \<times> ifwd_trace) option" where
  "read_dump_ifwd dl env t dev_node fw folder log_file fs = do {
     fs \<leftarrow> delete_dump_files env folder (info_file # dump_files) fs;
     (err, tr) \<leftarrow> boot_modem_flashing_mode dl dev_node fw log_file (Some folder) [];
     let fs = after_boot env fs;
     (files, ws, fs) \<leftarrow> (if err = 0 then do { (files, ws, fs) \<leftarrow> collect_dump env t folder fs; Some (Some files, ws, fs) } else Some (None, [], fs));
     tr \<leftarrow> cleanup dl log_file tr;
     fs \<leftarrow> delete_dump_files env folder (info_file # dump_files) fs;
     Some (files, ws, fs, tr)
   }"

section \<open>What is flashed\<close>

definition is_download :: "ifwd_call \<Rightarrow> bool" where
  "is_download c = (case c of DownloadFls s \<Rightarrow> True | DownloadCust s \<Rightarrow> True | _ \<Rightarrow> False)"

definition parts_of :: "ifwd_lib \<Rightarrow> string \<Rightarrow> nat \<Rightarrow> nat list" where
  "parts_of lib fw cls = filter (\<lambda>p. memory_class lib fw p = cls) [0..<nof_items lib fw]"

text \<open>The downloads of a firmware: the code, then the customization, each in the order of the file.\<close>

definition downloads :: "ifwd_lib \<Rightarrow> string \<Rightarrow> ifwd_call list" where
  "downloads lib fw = map (\<lambda>p. DownloadFls (fls_name p fw)) (parts_of lib fw (MEMORY_CLASS_CODE lib)) @
     map (\<lambda>p. DownloadCust (fls_name p fw)) (parts_of lib fw (MEMORY_CLASS_CUST lib))"

definition parts_known :: "ifwd_lib \<Rightarrow> string \<Rightarrow> bool" where
  "parts_known lib fw \<longleftrightarrow> (\<forall>p < nof_items lib fw. memory_class lib fw p = MEMORY_CLASS_CODE lib \<or> memory_class lib fw p = MEMORY_CLASS_CUST lib)"

lemma set_cfg_Some [simp]: "set_cfg dl c tr = Some tr' \<longleftrightarrow> dl (length tr) \<and> tr' = tr @ [c]"
  by (auto simp: set_cfg_def)

lemma flash_class_trace:
  assumes "flash_class dl lib fw cls parts (n, tr) = Some (n', tr')"
  shows "tr' = tr @ map (download lib cls fw) (filter (\<lambda>p. memory_class lib fw p = cls) parts) \<and>
    n' = n + length (filter (\<lambda>p. memory_class lib fw p = cls) parts)"
  using assms
proof (induction parts arbitrary: n tr)
  case (Cons p parts)
  show ?case
  proof (cases "memory_class lib fw p = cls")
    case True
    with Cons(2) have "flash_class dl lib fw cls parts (n + 1, tr @ [download lib cls fw p]) = Some (n', tr')"
      by (auto simp: bind_Some_iff)
    from Cons(1) [OF this] True show ?thesis by simp
  next
    case False
    with Cons show ?thesis by simp
  qed
qed simp

lemma flash_class_ok:
  assumes "\<forall>i. dl i"
  shows "flash_class dl lib fw cls parts (n, tr) = Some (n + length (filter (\<lambda>p. memory_class lib fw p = cls) parts),
    tr @ map (download lib cls fw) (filter (\<lambda>p. memory_class lib fw p = cls) parts))"
  using assms by (induction parts arbitrary: n tr) (simp_all add: set_cfg_def)

lemma length_filter_all: "length (filter P xs) = length xs \<longleftrightarrow> (\<forall>x \<in> set xs. P x)"
proof (induction xs)
  case (Cons x xs)
  have "length (filter P xs) \<noteq> Suc (length xs)" using length_filter_le [of P xs] by linarith
  with Cons show ?case by (cases "P x") simp_all
qed simp

lemma count_two:
  assumes "a \<noteq> b"
  shows "length (filter (\<lambda>p. f p = a) xs) + length (filter (\<lambda>p. f p = b) xs) = length xs \<longleftrightarrow> (\<forall>p \<in> set xs. f p = a \<or> f p = b)"
proof -
  have "length (filter (\<lambda>p. f p = a) xs) + length (filter (\<lambda>p. f p = b) xs) = length (filter (\<lambda>p. f p = a \<or> f p = b) xs)"
    using assms by (induction xs) auto
  then show ?thesis using length_filter_all [of "\<lambda>p. f p = a \<or> f p = b" xs] by simp
qed

lemma parts_count:
  assumes "MEMORY_CLASS_CODE lib \<noteq> MEMORY_CLASS_CUST lib"
  shows "length (parts_of lib fw (MEMORY_CLASS_CODE lib)) + length (parts_of lib fw (MEMORY_CLASS_CUST lib)) = nof_items lib fw \<longleftrightarrow> parts_known lib fw"
  using count_two [OF assms, of "memory_class lib fw" "[0..<nof_items lib fw]"] by (auto simp: parts_of_def parts_known_def)

lemma flash_parts_trace:
  assumes "flash_parts dl lib fw tr = Some tr'" "MEMORY_CLASS_CODE lib \<noteq> MEMORY_CLASS_CUST lib"
  shows "tr' = tr @ downloads lib fw \<and> parts_known lib fw \<and> 0 < nof_items lib fw"
proof -
  from assms(1) obtain n1 tr1 n2 where c: "0 < nof_items lib fw"
    "flash_class dl lib fw (MEMORY_CLASS_CODE lib) [0..<nof_items lib fw] (0, tr) = Some (n1, tr1)"
    "flash_class dl lib fw (MEMORY_CLASS_CUST lib) [0..<nof_items lib fw] (n1, tr1) = Some (n2, tr')" "n2 = nof_items lib fw"
    unfolding flash_parts_def Let_def by (auto simp: bind_Some_iff split: if_splits prod.splits)
  note t = flash_class_trace [OF c(2)] flash_class_trace [OF c(3)]
  have "download lib (MEMORY_CLASS_CODE lib) fw = (\<lambda>p. DownloadFls (fls_name p fw))"
    "download lib (MEMORY_CLASS_CUST lib) fw = (\<lambda>p. DownloadCust (fls_name p fw))"
    using assms(2) by (auto simp: download_def)
  with t have "tr' = tr @ downloads lib fw" by (simp add: downloads_def parts_of_def)
  moreover have "parts_known lib fw" using t c(4) parts_count [OF assms(2), of fw] by (simp add: parts_of_def)
  ultimately show ?thesis using c(1) by blast
qed

lemma flash_parts_ok:
  assumes "\<forall>i. dl i" "MEMORY_CLASS_CODE lib \<noteq> MEMORY_CLASS_CUST lib" "parts_known lib fw" "0 < nof_items lib fw"
  shows "\<exists>tr'. flash_parts dl lib fw tr = Some tr'"
  using assms parts_count [OF assms(2), of fw] by (simp add: flash_parts_def Let_def flash_class_ok [OF assms(1)] parts_of_def)

lemma boot_trace:
  assumes "boot_modem_flashing_mode dl dev fw lf dump tr = Some (r, tr')"
  shows "(r = 0 \<or> r = -1) \<and> (\<exists>cs. tr' = tr @ cs \<and> filter is_download cs = [])"
proof -
  from assms have "r = 0 \<or> r = -1" unfolding boot_modem_flashing_mode_def dl_call_def by (auto simp: bind_Some_iff split: if_splits)
  moreover have "\<exists>cs. tr' = tr @ cs \<and> filter is_download cs = []"
    using assms unfolding boot_modem_flashing_mode_def trace_cfg_def dump_cfg_def dl_call_def
    by (auto simp: bind_Some_iff is_download_def split: if_splits option.splits)
  ultimately show ?thesis by blast
qed

lemma boot_ok: "\<forall>i. dl i \<Longrightarrow> \<exists>tr'. boot_modem_flashing_mode dl dev fw lf dump tr = Some (0, tr')"
  by (simp add: boot_modem_flashing_mode_def trace_cfg_def dump_cfg_def dl_call_def set_cfg_def split: option.splits)

lemma downloads_all: "filter is_download (downloads lib fw) = downloads lib fw"
  by (auto simp: downloads_def is_download_def intro!: filter_True)

lemma cleanup_trace: "cleanup dl lf tr = Some tr' \<Longrightarrow> \<exists>post. tr' = tr @ [ClosePort] @ post \<and> filter is_download post = []"
  by (auto simp: cleanup_def Let_def is_download_def split: if_splits)

lemma write_cases:
  assumes "write_fw dl lib dev fw lf = Some (r, tr)"
  obtains pre tr2 post where "tr = tr2 @ [ClosePort] @ post" "filter is_download post = []" "filter is_download pre = []" "r = -1" "tr2 = pre"
  | pre tr1 post where "flash_parts dl lib fw pre = Some tr1" "filter is_download pre = []" "filter is_download post = []"
      "tr = tr1 @ [ForceReset, ClosePort] @ post" "r = (if dl (length tr1) then 0 else -1)"
proof -
  from assms obtain e t1 t2 where b: "boot_modem_flashing_mode dl dev fw lf None [] = Some (e, t1)"
    "(if e = 0 then do { tr \<leftarrow> flash_parts dl lib fw t1; Some (boot_modem_normal_mode dl tr) } else Some (-1, t1)) = Some (r, t2)"
    "cleanup dl lf t2 = Some tr" unfolding write_fw_def by (auto simp: bind_Some_iff)
  from boot_trace [OF b(1)] have p: "filter is_download t1 = []" by auto
  from cleanup_trace [OF b(3)] obtain post where post: "tr = t2 @ [ClosePort] @ post" "filter is_download post = []" by blast
  show thesis
  proof (cases "e = 0")
    case True
    with b(2) obtain t3 where "flash_parts dl lib fw t1 = Some t3" "(r, t2) = boot_modem_normal_mode dl t3" by (auto simp: bind_Some_iff)
    with p post that(2) show thesis by (simp add: boot_modem_normal_mode_def dl_call_def)
  next
    case False
    with b(2) p post that(1) show thesis by simp
  qed
qed

lemma write_result:
  assumes "write_fw dl lib dev fw lf = Some (r, tr)" "MEMORY_CLASS_CODE lib \<noteq> MEMORY_CLASS_CUST lib"
  shows "(r = -1 \<and> filter is_download tr = []) \<or>
    (\<exists>pre post. parts_known lib fw \<and> tr = pre @ downloads lib fw @ [ForceReset, ClosePort] @ post \<and>
       filter is_download tr = downloads lib fw \<and> r = (if dl (length pre + length (downloads lib fw)) then 0 else -1))"
  using assms(1)
proof (cases rule: write_cases)
  case (1 pre tr2 post)
  then show ?thesis by (simp add: is_download_def)
next
  case (2 pre tr1 post)
  from flash_parts_trace [OF 2(1) assms(2)] have t: "tr1 = pre @ downloads lib fw" "parts_known lib fw" by simp_all
  have "filter is_download tr = downloads lib fw" using 2 t by (simp add: downloads_all is_download_def)
  with 2 t show ?thesis by auto
qed

text \<open>The log file is deleted first.\<close>

lemma write_unlinks:
  assumes "write_fw dl lib dev fw lf = Some (r, tr)" "lf \<noteq> []"
  shows "hd tr = Unlink lf"
proof -
  from assms obtain e t1 where b: "boot_modem_flashing_mode dl dev fw lf None [] = Some (e, t1)" unfolding write_fw_def by (auto simp: bind_Some_iff)
  have h: "t1 \<noteq> [] \<and> hd t1 = Unlink lf"
    using b assms(2) unfolding boot_modem_flashing_mode_def trace_cfg_def dump_cfg_def dl_call_def
    by (auto simp: bind_Some_iff split: if_splits)
  have ext: "\<exists>cs. tr = t1 @ cs"
  proof -
    from assms(1) b obtain t2 where c: "(if e = 0 then do { tr \<leftarrow> flash_parts dl lib fw t1; Some (boot_modem_normal_mode dl tr) } else Some (-1, t1)) = Some (r, t2)"
      "cleanup dl lf t2 = Some tr" unfolding write_fw_def by (auto simp: bind_Some_iff)
    have "\<exists>cs. t2 = t1 @ cs"
    proof (cases "e = 0")
      case True
      with c(1) obtain t3 where f: "flash_parts dl lib fw t1 = Some t3" "(r, t2) = boot_modem_normal_mode dl t3" by (auto simp: bind_Some_iff)
      from f(1) have "\<exists>cs. t3 = t1 @ cs"
        unfolding flash_parts_def Let_def by (auto simp: bind_Some_iff dest!: flash_class_trace split: if_splits prod.splits)
      with f(2) show ?thesis by (auto simp: boot_modem_normal_mode_def dl_call_def)
    qed (use c(1) in simp)
    with cleanup_trace [OF c(2)] show ?thesis by auto
  qed
  then obtain cs where "tr = t1 @ cs" by (elim exE)
  with h show ?thesis by simp
qed

section \<open>Properties\<close>

text \<open>
  C13: a firmware that is reported as flashed has been flashed completely. When \<open>write_fw\<close> returns 0 every part of
  the file has been downloaded, each exactly once, first the parts with code, then those with the customization, in
  the order of the file; every part is of one of the two classes; after the last part the modem was reset with
  success and the port closed. When \<open>write_fw\<close> returns anything else it returns -1, and either nothing has
  been downloaded or the whole firmware. And it returns 0 when the library has no error to report and the
  file has parts of these two classes only.
\<close>

theorem ifwd_flash_complete:
  assumes "MEMORY_CLASS_CODE lib \<noteq> MEMORY_CLASS_CUST lib"
  shows "(write_fw dl lib dev fw lf = Some (0, tr) \<longrightarrow> parts_known lib fw \<and> filter is_download tr = downloads lib fw \<and>
      (\<exists>pre post. tr = pre @ downloads lib fw @ [ForceReset, ClosePort] @ post \<and> dl (length pre + length (downloads lib fw)))) \<and>
    (write_fw dl lib dev fw lf = Some (r, tr) \<and> r \<noteq> 0 \<longrightarrow> r = -1 \<and> (filter is_download tr = [] \<or> filter is_download tr = downloads lib fw)) \<and>
    ((\<forall>i. dl i) \<and> parts_known lib fw \<and> 0 < nof_items lib fw \<longrightarrow> (\<exists>tr. write_fw dl lib dev fw lf = Some (0, tr)))"
proof (intro conjI impI)
  assume "write_fw dl lib dev fw lf = Some (0, tr)"
  note w = write_result [OF this assms]
  from w show "parts_known lib fw" by fastforce
  from w show "filter is_download tr = downloads lib fw" by fastforce
  from w show "\<exists>pre post. tr = pre @ downloads lib fw @ [ForceReset, ClosePort] @ post \<and> dl (length pre + length (downloads lib fw))"
    by (auto split: if_splits)
next
  assume a: "write_fw dl lib dev fw lf = Some (r, tr) \<and> r \<noteq> 0"
  then have "write_fw dl lib dev fw lf = Some (r, tr)" "r \<noteq> 0" by simp_all
  from write_result [OF this(1) assms] this(2) show "r = -1" "filter is_download tr = [] \<or> filter is_download tr = downloads lib fw"
    by (auto split: if_splits)
next
  assume a: "(\<forall>i. dl i) \<and> parts_known lib fw \<and> 0 < nof_items lib fw"
  then have dl: "\<forall>i. dl i" by blast
  obtain t1 where t1: "boot_modem_flashing_mode dl dev fw lf None [] = Some (0, t1)" using boot_ok [OF dl] by blast
  obtain t2 where t2: "flash_parts dl lib fw t1 = Some t2" using flash_parts_ok [OF dl assms] a by blast
  show "\<exists>tr. write_fw dl lib dev fw lf = Some (0, tr)"
    using t1 t2 dl by (simp add: write_fw_def boot_modem_normal_mode_def dl_call_def cleanup_def Let_def set_cfg_def)
qed

text \<open>
  A firmware with a part of another class stops the process that flashes it: all the other parts are
  flashed first, then the count of the parts is found wrong.
\<close>

theorem ifwd_unknown_part_aborts:
  assumes "MEMORY_CLASS_CODE lib \<noteq> MEMORY_CLASS_CUST lib" "\<not> parts_known lib fw"
    and "boot_modem_flashing_mode dl dev fw lf None [] = Some (0, tr)"
  shows "write_fw dl lib dev fw lf = None"
  using assms flash_parts_trace [OF _ assms(1)] by (cases "flash_parts dl lib fw tr") (auto simp: write_fw_def)

definition demo_lib :: ifwd_lib where
  "demo_lib = \<lparr>MEMORY_CLASS_CODE = 1, MEMORY_CLASS_CUST = 2, nof_items = (\<lambda>fw. 3), memory_class = (\<lambda>fw p. if p = 1 then 2 else 1)\<rparr>"

lemma demo_lib_known: "parts_known demo_lib fw"
  by (auto simp: parts_known_def demo_lib_def)

theorem ifwd_flash_complete_witness:
  "\<exists>tr. write_fw (\<lambda>i. True) demo_lib ''/dev/flash'' ''fw.fls'' [] = Some (0, tr) \<and>
     filter is_download tr = [DownloadFls ''|0|fw.fls'', DownloadFls ''|2|fw.fls'', DownloadCust ''|1|fw.fls'']"
proof -
  have "MEMORY_CLASS_CODE demo_lib \<noteq> MEMORY_CLASS_CUST demo_lib" "0 < nof_items demo_lib ''fw.fls''" by (simp_all add: demo_lib_def)
  note f = ifwd_flash_complete [OF this(1), where dl = "\<lambda>i. True" and dev = "''/dev/flash''" and fw = "''fw.fls''" and lf = "[]"]
  obtain tr where tr: "write_fw (\<lambda>i. True) demo_lib ''/dev/flash'' ''fw.fls'' [] = Some (0, tr)"
    using f demo_lib_known \<open>0 < nof_items demo_lib ''fw.fls''\<close> by blast
  moreover have "filter is_download tr = downloads demo_lib ''fw.fls''" using f tr by blast
  moreover have "downloads demo_lib ''fw.fls'' = [DownloadFls ''|0|fw.fls'', DownloadFls ''|2|fw.fls'', DownloadCust ''|1|fw.fls'']"
    by code_simp
  ultimately show ?thesis by simp
qed

theorem ifwd_unknown_part_aborts_witness:
  "write_fw (\<lambda>i. True) (demo_lib\<lparr>nof_items := \<lambda>fw. 1, memory_class := \<lambda>fw p. 7\<rparr>) ''/dev/flash'' ''fw.fls'' [] = None"
proof -
  obtain tr where "boot_modem_flashing_mode (\<lambda>i. True) ''/dev/flash'' ''fw.fls'' [] None [] = Some (0, tr)"
    using boot_ok [of "\<lambda>i. True"] by blast
  then show ?thesis by (intro ifwd_unknown_part_aborts) (simp_all add: demo_lib_def parts_known_def)
qed

end
