(* ===== verification/Crm_Upload.thy ===== *)
theory Crm_Upload
  imports Crm_Factory Crm_Ifwd
begin

text \<open>
  plugins/fw_upload: the plugins that package the firmware and write it to the modem: over PCIe, with a process of the
  factory and the download library (fw_upload.c, fw_upload_process.c), for Sofia through the secure world
  (sofia_secvm) or the virtual modem (sofia_vmodem), and a stub. What a plugin tells Control and asks of the others is the
  trace \<open>up_out\<close>; the flashing itself runs in a detached thread, a function of its own that takes what the thread
  finds.

  The locale \<open>fw_uploader\<close> is what Control relies on.
\<close>

section \<open>PCIe\<close>

datatype upload_out =
    UpStatus int | UpPackage string string string | UpCreate string string | UpThread | UpKill int | UpClean int

record fw_upload =
  up_timeout :: int
  nvm_folder :: string
  run_folder :: string
  process_id :: int
  fw_injected_ready :: bool
  injected_fw :: string
  trace_file_path :: string
  up_out :: "upload_out list"

abbreviation (input) PROCESS_LIB :: string where "PROCESS_LIB \<equiv> ''libcrm_fw_upload_pcie_process.so''"

definition up_emit :: "upload_out \<Rightarrow> fw_upload \<Rightarrow> fw_upload" where
  "up_emit x u = u\<lparr>up_out := up_out u @ [x]\<rparr>"

definition compute_path :: "string \<Rightarrow> string \<Rightarrow> string" where
  "compute_path folder filename = snprintf (length folder + length filename + 2) (folder @ ''/'' @ filename)"

text \<open>What the thread that waits for the process finds: a message, the time-out, or another event.\<close>

datatype flash_poll = FpMsg "64 word" | FpTimeout | FpError

definition control_flash_process :: "flash_poll \<Rightarrow> fw_upload \<Rightarrow> fw_upload option" where
  "control_flash_process inp u = do {
     ASSERT (process_id u \<ge> 0);
     (status, u) \<leftarrow> (case inp of
         FpMsg s \<Rightarrow> do { ASSERT (s = 0 \<or> s = -1); Some (sint s, u) }
       | FpTimeout \<Rightarrow> Some (-1, up_emit (UpKill (process_id u)) u)
       | FpError \<Rightarrow> None);
     let u = up_emit (UpClean (process_id u)) u;
     let u = u\<lparr>process_id := -1, fw_injected_ready := False\<rparr>;
     Some (up_emit (UpStatus status) u)
   }"

text \<open>\<open>regular\<close>: the firmware is a file; \<open>inject\<close>: the answer of the library to the packaging.\<close>

definition package :: "bool \<Rightarrow> int \<Rightarrow> string \<Rightarrow> fw_upload \<Rightarrow> fw_upload option" where
  "package regular inject fw_path u = do {
     ASSERT (process_id u = -1);
     if fw_injected_ready u then Some u
     else do {
       ASSERT regular;
       let u = up_emit (UpPackage fw_path (injected_fw u) (nvm_folder u)) u;
       crm_ifwd_package regular inject;
       Some (up_emit (UpStatus 0) (u\<lparr>fw_injected_ready := True\<rparr>))
     }
   }"

text \<open>The argument of the process, with its terminator.\<close>

definition flash_args :: "string \<Rightarrow> fw_upload \<Rightarrow> string" where
  "flash_args nodes u = (let args_size = length nodes + length (injected_fw u) + length (trace_file_path u) + 4
     in snprintf args_size (nodes @ '';'' @ injected_fw u @ '';'' @ trace_file_path u @ '';'') @ [CHR 0x00])"

text \<open>\<open>created\<close> is what the factory answers.\<close>

definition flash :: "int \<Rightarrow> string \<Rightarrow> fw_upload \<Rightarrow> fw_upload option" where
  "flash created nodes u = do {
     ASSERT (fw_injected_ready u = True);
     ASSERT (process_id u = -1);
     let u = up_emit (UpCreate PROCESS_LIB (flash_args nodes u)) u;
     let u = u\<lparr>process_id := created\<rparr>;
     Some (if process_id u \<ge> 0 then up_emit UpThread u else up_emit (UpStatus (-1)) u)
   }"

definition upload_dispose :: "fw_upload \<Rightarrow> unit option" where
  "upload_dispose u = ASSERT (process_id u = -1)"

text \<open>
  The configuration: the folders and the time-out the configuration library gives (\<open>None\<close> when a key is missing), and
  whether the logs of the download library are on. The group of the folder of the NVM is the first four
  characters of its name.
\<close>

record upload_tcs =
  tcs_run_folder :: "string option"
  tcs_timeout :: "int option"
  tcs_nvm_folder :: "string \<Rightarrow> string option"

definition crm_fw_upload_init :: "nat \<Rightarrow> upload_tcs \<Rightarrow> bool \<Rightarrow> fw_upload option" where
  "crm_fw_upload_init inst_id tcs trace_on = do {
     run \<leftarrow> tcs_run_folder tcs;
     run \<leftarrow> set_instance_id run (int inst_id);
     tmo \<leftarrow> tcs_timeout tcs;
     ASSERT (tmo > 0);
     nvm \<leftarrow> tcs_nvm_folder tcs (snprintf 5 (''nvm'' @ print_num 10 inst_id));
     Some \<lparr>up_timeout = tmo, nvm_folder = nvm, run_folder = run, process_id = -1, fw_injected_ready = False,
       injected_fw = compute_path run ''injected_firmware.fls'',
       trace_file_path = (if trace_on then compute_path run ''download_lib_logs.log'' else ''''), up_out = []\<rparr>
   }"

section \<open>The process\<close>

text \<open>
  The next parameter, up to a semicolon, and the rest of the buffer (\<open>None\<close>: the null pointer). The parameter is read as
  a C string.
\<close>

definition get_next_param :: "string option \<Rightarrow> (string \<times> string option) option" where
  "get_next_param cur = do {
     s \<leftarrow> cur;
     ASSERT (s \<noteq> []);
     ASSERT (CHR '';'' \<in> set s);
     let param = takeWhile (\<lambda>c. c \<noteq> CHR '';'') s;
     let rest = drop (length param + 1) s;
     Some (c_str param, if rest = [] then None else Some rest)
   }"

definition upload_params :: "8 word list \<Rightarrow> (string \<times> string \<times> string) option" where
  "upload_params dat = do {
     ASSERT (dat \<noteq> []);
     (dev_node, cur) \<leftarrow> get_next_param (Some (bytes_str dat));
     (fw, cur) \<leftarrow> get_next_param cur;
     (log_file, cur) \<leftarrow> get_next_param cur;
     Some (dev_node, fw, log_file)
   }"

definition upload_start_process :: "(nat \<Rightarrow> bool) \<Rightarrow> ifwd_lib \<Rightarrow> 8 word list \<Rightarrow> (8 word list crm_ipc_msg \<times> ifwd_trace) option" where
  "upload_start_process dl lib dat = do {
     (dev_node, fw, log_file) \<leftarrow> upload_params dat;
     (err, tr) \<leftarrow> crm_ifwd_write_firmware dl lib dev_node fw log_file;
     Some (\<lparr>scalar = word_of_int err, data_size = 0, data = []\<rparr>, tr)
   }"

section \<open>Sofia\<close>

text \<open>
  The two plugins for Sofia differ in the device: the virtual modem copies the firmware to the node it is given
  (\<open>dev_path\<close>), the secure world needs none. \<open>ret\<close> is the answer of the copy or of the secure world.
\<close>

record sofia_upload =
  op_ongoing :: bool
  fw_path :: "string option"
  dev_path :: "string option"
  su_out :: "upload_out list"

definition su_emit :: "upload_out \<Rightarrow> sofia_upload \<Rightarrow> sofia_upload" where
  "su_emit x u = u\<lparr>su_out := su_out u @ [x]\<rparr>"

definition sofia_package :: "string \<Rightarrow> sofia_upload \<Rightarrow> sofia_upload option" where
  "sofia_package path u = do {
     ASSERT (\<not> op_ongoing u);
     Some (if fw_path u \<noteq> None then u else su_emit (UpStatus 0) (u\<lparr>fw_path := Some path\<rparr>))
   }"

definition secvm_flash :: "string \<Rightarrow> sofia_upload \<Rightarrow> sofia_upload option" where
  "secvm_flash node u = do {
     ASSERT (\<not> op_ongoing u);
     ASSERT (fw_path u \<noteq> None);
     Some (su_emit UpThread u)
   }"

text \<open>The thread: between its start and its end the operation is ongoing.\<close>

definition write_start :: "sofia_upload \<Rightarrow> sofia_upload option" where
  "write_start u = do { ASSERT (\<not> op_ongoing u); Some (u\<lparr>op_ongoing := True\<rparr>) }"

definition secvm_write_firmware :: "int \<Rightarrow> sofia_upload \<Rightarrow> sofia_upload option" where
  "secvm_write_firmware ret u = do {
     u \<leftarrow> write_start u;
     Some (su_emit (UpStatus (if ret = 0 then 0 else -1)) (u\<lparr>fw_path := None, op_ongoing := False\<rparr>))
   }"

definition vmodem_flash :: "string \<Rightarrow> sofia_upload \<Rightarrow> sofia_upload option" where
  "vmodem_flash node u = do {
     ASSERT (\<not> op_ongoing u);
     ASSERT (dev_path u = None);
     ASSERT (fw_path u \<noteq> None);
     Some (su_emit UpThread (u\<lparr>dev_path := Some node\<rparr>))
   }"

definition vmodem_write_firmware :: "int \<Rightarrow> sofia_upload \<Rightarrow> sofia_upload option" where
  "vmodem_write_firmware err u = do {
     u \<leftarrow> write_start u;
     Some (su_emit (UpStatus (if err = 0 then 0 else -1)) (u\<lparr>fw_path := None, dev_path := None, op_ongoing := False\<rparr>))
   }"

definition sofia_upload_dispose :: "sofia_upload \<Rightarrow> unit option" where
  "sofia_upload_dispose u = ASSERT (\<not> op_ongoing u)"

definition sofia_upload_init :: sofia_upload where
  "sofia_upload_init = \<lparr>op_ongoing = False, fw_path = None, dev_path = None, su_out = []\<rparr>"

text \<open>The stub answers at once.\<close>

definition stub_package :: "string \<Rightarrow> upload_out list \<Rightarrow> upload_out list" where
  "stub_package path out = out @ [UpStatus 0]"

definition stub_flash :: "string \<Rightarrow> upload_out list \<Rightarrow> upload_out list" where
  "stub_flash nodes out = out @ [UpStatus 0]"

section \<open>What Control relies on\<close>

text \<open>
  Updates of the modem one after the other: the packaging, which may be asked for several times, the flash, and the end of
  its thread.
\<close>

fun packages :: "('p \<Rightarrow> 's \<Rightarrow> 's option) \<Rightarrow> 'p list \<Rightarrow> 's \<Rightarrow> 's option" where
  "packages pack [] s = Some s"
| "packages pack (p # ps) s = do { s \<leftarrow> pack p s; packages pack ps s }"

fun updates ::
  "('p \<Rightarrow> 's \<Rightarrow> 's option) \<Rightarrow> ('f \<Rightarrow> 's \<Rightarrow> 's option) \<Rightarrow> ('r \<Rightarrow> 's \<Rightarrow> 's option) \<Rightarrow> ('p list \<times> 'f \<times> 'r) list \<Rightarrow> 's \<Rightarrow> 's option" where
  "updates pack fl fin [] s = Some s"
| "updates pack fl fin ((ps, f, r) # us) s = do { s \<leftarrow> packages pack ps s; s \<leftarrow> fl f s; s \<leftarrow> fin r s; updates pack fl fin us s }"

text \<open>
  A plugin that uploads firmware: \<open>package\<close>, \<open>flash\<close> and the thread of a flash (\<open>finish\<close>). A first packaging is answered
  with success, packaging again changes nothing and is not answered, and a flash is answered once, with its
  outcome, after which the firmware has to be packaged again.
\<close>

locale fw_uploader =
  fixes package :: "'p \<Rightarrow> 's \<Rightarrow> 's option"
    and flash :: "'f \<Rightarrow> 's \<Rightarrow> 's option"
    and finish :: "'r \<Rightarrow> 's \<Rightarrow> 's option"
    and statuses :: "'s \<Rightarrow> int list"
    and idle :: "'s \<Rightarrow> bool"
    and ready :: "'s \<Rightarrow> bool"
    and can_package :: "'p \<Rightarrow> bool"
    and can_flash :: "'f \<Rightarrow> bool"
    and can_finish :: "'r \<Rightarrow> bool"
    and outcome :: "'r \<Rightarrow> int"
  assumes package_new: "idle s \<Longrightarrow> \<not> ready s \<Longrightarrow> can_package p \<Longrightarrow>
      \<exists>s'. package p s = Some s' \<and> statuses s' = statuses s @ [0] \<and> idle s' \<and> ready s'"
    and package_again: "idle s \<Longrightarrow> ready s \<Longrightarrow> package p s = Some s"
    and flash_finish: "idle s \<Longrightarrow> ready s \<Longrightarrow> can_flash f \<Longrightarrow> can_finish r \<Longrightarrow>
      \<exists>s1 s2. flash f s = Some s1 \<and> statuses s1 = statuses s \<and> finish r s1 = Some s2 \<and>
        statuses s2 = statuses s @ [outcome r] \<and> idle s2 \<and> \<not> ready s2"
begin

lemma packages_again: "idle s \<Longrightarrow> ready s \<Longrightarrow> packages package ps s = Some s"
  by (induction ps) (simp_all add: package_again)

lemma packages_once:
  assumes "idle s" "\<not> ready s" "ps \<noteq> []" "can_package (hd ps)"
  shows "\<exists>s'. packages package ps s = Some s' \<and> statuses s' = statuses s @ [0] \<and> idle s' \<and> ready s'"
proof -
  obtain p qs where ps: "ps = p # qs" using assms(3) by (cases ps) auto
  then obtain s' where "package p s = Some s'" "statuses s' = statuses s @ [0]" "idle s'" "ready s'"
    using package_new assms(1,2,4) by fastforce
  with ps show ?thesis by (simp add: packages_again)
qed

lemma updates_answered:
  assumes "idle s" "\<not> ready s" "\<forall>(ps, f, r) \<in> set us. ps \<noteq> [] \<and> can_package (hd ps) \<and> can_flash f \<and> can_finish r"
  shows "\<exists>s'. updates package flash finish us s = Some s' \<and> statuses s' = statuses s @ concat (map (\<lambda>(ps, f, r). [0, outcome r]) us) \<and> idle s' \<and> \<not> ready s'"
  using assms
proof (induction us arbitrary: s)
  case (Cons u us)
  obtain ps f r where u: "u = (ps, f, r)" by (cases u)
  with Cons(4) have g: "ps \<noteq> []" "can_package (hd ps)" "can_flash f" "can_finish r" by auto
  obtain s1 where s1: "packages package ps s = Some s1" "statuses s1 = statuses s @ [0]" "idle s1" "ready s1"
    using packages_once [OF Cons(2,3) g(1,2)] by blast
  obtain s2 s3 where s3: "flash f s1 = Some s2" "finish r s2 = Some s3" "statuses s3 = statuses s1 @ [outcome r]" "idle s3" "\<not> ready s3"
    using flash_finish [OF s1(3,4) g(3,4)] by blast
  have "\<forall>(ps, f, r) \<in> set us. ps \<noteq> [] \<and> can_package (hd ps) \<and> can_flash f \<and> can_finish r" using Cons(4) by simp
  from Cons(1) [OF s3(4,5) this] s1 s3 u show ?case by fastforce
qed simp

end

text \<open>What Control is told.\<close>

fun up_statuses :: "upload_out list \<Rightarrow> int list" where
  "up_statuses [] = []"
| "up_statuses (UpStatus st # xs) = st # up_statuses xs"
| "up_statuses (x # xs) = up_statuses xs"

lemma up_statuses_append [simp]: "up_statuses (xs @ ys) = up_statuses xs @ up_statuses ys"
  by (induction xs rule: up_statuses.induct) simp_all

definition pcie_package :: "bool \<times> int \<times> string \<Rightarrow> fw_upload \<Rightarrow> fw_upload option" where
  "pcie_package p u = (case p of (regular, inject, path) \<Rightarrow> package regular inject path u)"

definition pcie_flash :: "int \<times> string \<Rightarrow> fw_upload \<Rightarrow> fw_upload option" where
  "pcie_flash p u = flash (fst p) (snd p) u"

definition poll_ok :: "flash_poll \<Rightarrow> bool" where
  "poll_ok inp = (case inp of FpMsg s \<Rightarrow> s = 0 \<or> s = -1 | FpTimeout \<Rightarrow> True | FpError \<Rightarrow> False)"

definition poll_status :: "flash_poll \<Rightarrow> int" where
  "poll_status inp = (if inp = FpMsg 0 then 0 else -1)"

lemmas upload_defs = package_def flash_def control_flash_process_def up_emit_def crm_ifwd_package_def pcie_package_def pcie_flash_def
  poll_ok_def poll_status_def Let_def

lemmas sofia_upload_defs = sofia_package_def secvm_flash_def vmodem_flash_def secvm_write_firmware_def vmodem_write_firmware_def write_start_def su_emit_def

interpretation pcie_up: fw_uploader pcie_package pcie_flash control_flash_process "\<lambda>u. up_statuses (up_out u)" "\<lambda>u. process_id u = -1" fw_injected_ready
  "\<lambda>(regular, inject, path). regular \<and> inject \<noteq> 0" "\<lambda>(created, nodes). created \<ge> 0" poll_ok poll_status
proof
  fix s :: fw_upload and p :: "bool \<times> int \<times> string"
  assume "process_id s = -1" "\<not> fw_injected_ready s" "case p of (regular, inject, path) \<Rightarrow> regular \<and> inject \<noteq> 0"
  then show "\<exists>s'. pcie_package p s = Some s' \<and> up_statuses (up_out s') = up_statuses (up_out s) @ [0] \<and> process_id s' = -1 \<and> fw_injected_ready s'"
    by (cases p) (simp add: upload_defs)
next
  fix s :: fw_upload and p :: "bool \<times> int \<times> string"
  assume "process_id s = -1" "fw_injected_ready s"
  then show "pcie_package p s = Some s" by (cases p) (simp add: upload_defs)
next
  fix s :: fw_upload and f :: "int \<times> string" and r
  assume "process_id s = -1" "fw_injected_ready s" "case f of (created, nodes) \<Rightarrow> created \<ge> 0" "poll_ok r"
  then show "\<exists>s1 s2. pcie_flash f s = Some s1 \<and> up_statuses (up_out s1) = up_statuses (up_out s) \<and> control_flash_process r s1 = Some s2 \<and>
      up_statuses (up_out s2) = up_statuses (up_out s) @ [poll_status r] \<and> process_id s2 = -1 \<and> \<not> fw_injected_ready s2"
    by (cases f; cases r) (auto simp: upload_defs)
qed

interpretation secvm_up: fw_uploader sofia_package secvm_flash secvm_write_firmware "\<lambda>u. up_statuses (su_out u)" "\<lambda>u. \<not> op_ongoing u"
  "\<lambda>u. fw_path u \<noteq> None" "\<lambda>p. True" "\<lambda>f. True" "\<lambda>r. True" "\<lambda>r. if r = 0 then 0 else -1"
  by unfold_locales (auto simp: sofia_upload_defs)

interpretation vmodem_up: fw_uploader sofia_package vmodem_flash vmodem_write_firmware "\<lambda>u. up_statuses (su_out u)" "\<lambda>u. \<not> op_ongoing u \<and> dev_path u = None"
  "\<lambda>u. fw_path u \<noteq> None" "\<lambda>p. True" "\<lambda>f. True" "\<lambda>r. True" "\<lambda>r. if r = 0 then 0 else -1"
  by unfold_locales (auto simp: sofia_upload_defs)

section \<open>From the plugin to the process\<close>

definition plain :: "string \<Rightarrow> bool" where
  "plain s \<longleftrightarrow> CHR '';'' \<notin> set s \<and> CHR 0x00 \<notin> set s"

lemma c_str_plain: "plain s \<Longrightarrow> c_str s = s"
  by (auto simp: c_str_def plain_def takeWhile_eq_all_conv)

lemma next_param_plain:
  assumes "plain p"
  shows "get_next_param (Some (p @ CHR '';'' # rest)) = Some (p, if rest = [] then None else Some rest)"
proof -
  have "takeWhile (\<lambda>c. c \<noteq> CHR '';'') (p @ CHR '';'' # rest) = p" by (rule takeWhile_sep) (use assms in \<open>simp add: plain_def\<close>)
  then show ?thesis using c_str_plain [OF assms] by (simp add: get_next_param_def Let_def)
qed

lemma flash_args_eq: "flash_args nodes u = nodes @ CHR '';'' # injected_fw u @ CHR '';'' # trace_file_path u @ CHR '';'' # [CHR 0x00]"
  by (simp add: flash_args_def Let_def snprintf_fits)

lemma upload_params_three:
  assumes "plain a" "plain b" "plain c"
  shows "upload_params (str_bytes (a @ CHR '';'' # b @ CHR '';'' # c @ CHR '';'' # rest)) = Some (a, b, c)"
proof -
  let ?s = "a @ CHR '';'' # b @ CHR '';'' # c @ CHR '';'' # rest"
  have "bytes_str (str_bytes ?s) = ?s" by (rule bytes_str_bytes)
  moreover have "str_bytes ?s \<noteq> []" by (simp add: str_bytes_def)
  ultimately show ?thesis unfolding upload_params_def by (simp add: next_param_plain assms)
qed

lemma char_byte_sep: "char_byte (CHR '';'') = 59"
  by (simp add: char_byte_def)

lemma sep_bytes: "59 \<in> set (str_bytes s) \<longleftrightarrow> CHR '';'' \<in> set s"
  unfolding char_byte_sep [symmetric] str_bytes_def by auto

lemma minus_one_32: "scast (ucast (-1 :: 64 word) :: 32 word) = (-1 :: 64 word)"
  by (rule bit_word_eqI) (simp add: bit_simps min_def)

section \<open>Properties\<close>

text \<open>
  C12: Control gets the answers it waits for. In any sequence of updates in which the firmware is packaged at least once before each flash, the plugins
  for PCIe, the secure world and the virtual modem answer the first packaging of an update with success, do not answer the packagings asked for
  again before the flash, answer the flash exactly once, with success if and only if the firmware was written, and are ready for
  the next update: idle, with nothing packaged. For PCIe this is under the condition that the packaging succeeds
  (one that fails aborts), that the process of the flashing can be created (one that cannot leaves the firmware marked as packaged) and that the pipe
  of the process does not break.
\<close>

theorem upload_answers:
  assumes "process_id u = -1" "\<not> fw_injected_ready u" "\<forall>(ps, f, r) \<in> set us. ps \<noteq> [] \<and> fst (hd ps) \<and> fst (snd (hd ps)) \<noteq> 0 \<and> fst f \<ge> 0 \<and> poll_ok r"
    and "\<not> op_ongoing v" "fw_path v = None" "dev_path v = None" "\<forall>(ps, f, r) \<in> set vs. ps \<noteq> []"
  shows "(\<exists>u'. updates pcie_package pcie_flash control_flash_process us u = Some u' \<and> process_id u' = -1 \<and> \<not> fw_injected_ready u' \<and>
       up_statuses (up_out u') = up_statuses (up_out u) @ concat (map (\<lambda>(ps, f, r). [0, poll_status r]) us)) \<and>
    (\<exists>v'. updates sofia_package secvm_flash secvm_write_firmware vs v = Some v' \<and> \<not> op_ongoing v' \<and> fw_path v' = None \<and>
       up_statuses (su_out v') = up_statuses (su_out v) @ concat (map (\<lambda>(ps, f, r). [0, if r = 0 then 0 else -1]) vs)) \<and>
    (\<exists>v'. updates sofia_package vmodem_flash vmodem_write_firmware vs v = Some v' \<and> \<not> op_ongoing v' \<and> fw_path v' = None \<and> dev_path v' = None \<and>
       up_statuses (su_out v') = up_statuses (su_out v) @ concat (map (\<lambda>(ps, f, r). [0, if r = 0 then 0 else -1]) vs)) \<and>
    (\<forall>regular inject path. \<not> (regular \<and> inject \<noteq> 0) \<longrightarrow> package regular inject path u = None)"
proof -
  have "\<forall>(ps, f, r) \<in> set us. ps \<noteq> [] \<and> (case hd ps of (regular, inject, path) \<Rightarrow> regular \<and> inject \<noteq> 0) \<and>
      (case f of (created, nodes) \<Rightarrow> created \<ge> 0) \<and> poll_ok r"
    using assms(3) by (auto split: prod.splits)
  note up = pcie_up.updates_answered [OF assms(1,2) this] secvm_up.updates_answered [of v vs] vmodem_up.updates_answered [of v vs]
  have "\<forall>regular inject path. \<not> (regular \<and> inject \<noteq> 0) \<longrightarrow> package regular inject path u = None"
    using assms(1,2) by (simp add: package_def crm_ifwd_package_def Let_def)
  with up assms(4-7) show ?thesis by fastforce
qed

text \<open>
  C11: a flash of one node goes through. The argument a flash gives to the factory, carried by the message of the creation, is cut by
  the new process into the node, the packaged firmware and the log file of the flash; the process writes this
  firmware over this node, and its result, sent back over the pipe of the process, is the one status Control is
  told, after which the plugin can package again.
\<close>

theorem upload_end_to_end:
  assumes "process_id u = -1" "fw_injected_ready u" "created \<ge> 0" "ipc_ctrl f = []"
    and "plain nodes" "plain (injected_fw u)" "plain (trace_file_path u)"
    and "length nodes + length (injected_fw u) + length (trace_file_path u) + 100 < 2 ^ 31"
  shows "\<exists>u1 f1 msg d. flash created nodes u = Some u1 \<and> up_out u1 = up_out u @ [UpCreate PROCESS_LIB (flash_args nodes u), UpThread] \<and>
    create_request (str_bytes PROCESS_LIB) (str_bytes (flash_args nodes u)) f = Some f1 \<and> get_msg_process (ipc_ctrl f1) = Some (msg, []) \<and>
    start_args (data msg) = Some (str_bytes PROCESS_LIB, Some d, length d) \<and>
    (\<forall>dl lib r tr. write_fw dl lib nodes (injected_fw u) (trace_file_path u) = Some (r, tr) \<and> (r = 0 \<or> r = -1) \<longrightarrow>
      (\<exists>m bs m' u2. upload_start_process dl lib d = Some (m, tr) \<and> send_msg_process [] m = Some bs \<and> get_msg_process bs = Some (m', []) \<and>
        control_flash_process (FpMsg (scalar m')) u1 = Some u2 \<and> up_statuses (up_out u2) = up_statuses (up_out u) @ [r] \<and>
        process_id u2 = -1 \<and> \<not> fw_injected_ready u2))"
proof -
  let ?d = "str_bytes (flash_args nodes u)"
  have ne: "?d \<noteq> []" by (simp add: flash_args_eq str_bytes_def)
  have "length (str_bytes PROCESS_LIB) + length ?d + 1 < 2 ^ 31" using assms(8) by (simp add: flash_args_eq)
  moreover have "59 \<notin> set (str_bytes PROCESS_LIB)" by (simp add: sep_bytes)
  moreover have "str_bytes PROCESS_LIB \<noteq> []" by (simp add: str_bytes_def)
  ultimately obtain f1 msg where c: "create_request (str_bytes PROCESS_LIB) ?d f = Some f1" "get_msg_process (ipc_ctrl f1) = Some (msg, [])"
    "start_args (data msg) = Some (str_bytes PROCESS_LIB, Some ?d, length ?d)"
    using factory_create_roundtrip [of "str_bytes PROCESS_LIB" ?d f] assms(4) ne by auto
  have par: "upload_params ?d = Some (nodes, injected_fw u, trace_file_path u)"
    unfolding flash_args_eq by (rule upload_params_three [OF assms(5-7)])
  define u1 where "u1 = u\<lparr>up_out := up_out u @ [UpCreate PROCESS_LIB (flash_args nodes u), UpThread], process_id := created\<rparr>"
  have fl: "flash created nodes u = Some u1" using assms(1-3) by (simp add: flash_def up_emit_def Let_def u1_def)
  have "\<exists>m bs m' u2. upload_start_process dl lib ?d = Some (m, tr) \<and> send_msg_process [] m = Some bs \<and> get_msg_process bs = Some (m', []) \<and>
      control_flash_process (FpMsg (scalar m')) u1 = Some u2 \<and> up_statuses (up_out u2) = up_statuses (up_out u) @ [r] \<and>
      process_id u2 = -1 \<and> \<not> fw_injected_ready u2"
    if w: "write_fw dl lib nodes (injected_fw u) (trace_file_path u) = Some (r, tr)" and r: "r = 0 \<or> r = -1" for dl lib r tr
  proof -
    define m :: "8 word list crm_ipc_msg" where "m = \<lparr>scalar = word_of_int r, data_size = 0, data = []\<rparr>"
    have "upload_start_process dl lib ?d = Some (m, tr)" using par w by (simp add: upload_start_process_def crm_ifwd_write_firmware_def m_def)
    moreover obtain bs where "send_msg_process [] m = Some bs"
      "get_msg_process bs = Some (m\<lparr>scalar := scast (ucast (scalar m) :: 32 word)\<rparr>, [])"
      using ipc_process_roundtrip [of m "[]"] by (auto simp: m_def)
    moreover have "scast (ucast (scalar m) :: 32 word) = (word_of_int r :: 64 word)" using r minus_one_32 by (auto simp: m_def)
    moreover obtain u2 where "control_flash_process (FpMsg (word_of_int r)) u1 = Some u2" "up_statuses (up_out u2) = up_statuses (up_out u) @ [r]"
        "process_id u2 = -1" "\<not> fw_injected_ready u2"
      using r assms(3) by (auto simp: control_flash_process_def up_emit_def Let_def u1_def)
    ultimately show ?thesis by auto
  qed
  then show ?thesis using fl c by (intro exI [of _ u1] exI [of _ f1] exI [of _ msg] exI [of _ ?d]) (simp add: u1_def)
qed

text \<open>
  More than one node breaks a flash. The interface says that the nodes are separated by semicolons, but
  the same character separates the arguments of the process: with two nodes the process takes the second node
  for the firmware, and the firmware for the log file, which it deletes before it starts.
\<close>

theorem upload_two_nodes:
  assumes "plain n1" "plain n2" "plain (injected_fw u)" "injected_fw u \<noteq> []"
  shows "upload_params (str_bytes (flash_args (n1 @ '';'' @ n2) u)) = Some (n1, n2, injected_fw u) \<and>
    (\<forall>dl lib m tr. upload_start_process dl lib (str_bytes (flash_args (n1 @ '';'' @ n2) u)) = Some (m, tr) \<longrightarrow> hd tr = Unlink (injected_fw u))"
proof -
  have p: "upload_params (str_bytes (flash_args (n1 @ '';'' @ n2) u)) = Some (n1, n2, injected_fw u)"
    using upload_params_three [OF assms(1-3)] by (simp add: flash_args_eq)
  moreover have "hd tr = Unlink (injected_fw u)" if s: "upload_start_process dl lib (str_bytes (flash_args (n1 @ '';'' @ n2) u)) = Some (m, tr)" for dl lib m tr
  proof -
    from s p obtain r where "write_fw dl lib n1 n2 (injected_fw u) = Some (r, tr)"
      by (auto simp: upload_start_process_def crm_ifwd_write_firmware_def bind_Some_iff)
    then show ?thesis using write_unlinks assms(4) by blast
  qed
  ultimately show ?thesis by blast
qed

text \<open>
  C36: a process that cannot be created stops every later update. The failure is reported, but the firmware is still
  marked as packaged, so that Control, which packages again before the next attempt, is never answered and the flash it
  waits for never starts.
\<close>

theorem upload_failed_creation_stalls:
  assumes "process_id u = -1" "fw_injected_ready u" "flash (-1) nodes u = Some u1"
  shows "up_statuses (up_out u1) = up_statuses (up_out u) @ [-1] \<and> packages pcie_package ps u1 = Some u1"
proof -
  have u1: "process_id u1 = -1" "fw_injected_ready u1" "up_statuses (up_out u1) = up_statuses (up_out u) @ [-1]"
    using assms by (auto simp: flash_def up_emit_def Let_def)
  from pcie_up.packages_again [OF u1(1,2)] u1(3) show ?thesis by simp
qed

definition pcie_demo :: fw_upload where
  "pcie_demo = \<lparr>up_timeout = 1000, nvm_folder = ''/nvm'', run_folder = ''/run'', process_id = -1, fw_injected_ready = True,
     injected_fw = ''/run/fw.fls'', trace_file_path = '''', up_out = []\<rparr>"

theorem upload_answers_witness:
  "\<exists>u'. updates pcie_package pcie_flash control_flash_process [([(True, 1, ''fw''), (False, 0, ''x'')], (3, ''/dev/n''), FpMsg 0), ([(True, 1, ''fw'')], (2, ''/dev/n''), FpTimeout)]
      (pcie_demo\<lparr>fw_injected_ready := False\<rparr>) = Some u' \<and> up_statuses (up_out u') = [0, 0, 0, -1]"
  using upload_answers [of "pcie_demo\<lparr>fw_injected_ready := False\<rparr>"
      "[([(True, 1, ''fw''), (False, 0, ''x'')], (3, ''/dev/n''), FpMsg 0), ([(True, 1, ''fw'')], (2, ''/dev/n''), FpTimeout)]" sofia_upload_init "[]"]
  by (auto simp: pcie_demo_def sofia_upload_init_def poll_ok_def poll_status_def)

theorem upload_end_to_end_witness:
  "\<exists>u1 u2 m' d m bs tr. flash 4 ''/dev/flash'' pcie_demo = Some u1 \<and> upload_start_process (\<lambda>i. True) demo_lib d = Some (m, tr) \<and> send_msg_process [] m = Some bs \<and>
     get_msg_process bs = Some (m', []) \<and> control_flash_process (FpMsg (scalar m')) u1 = Some u2 \<and> up_statuses (up_out u2) = [0]"
proof -
  have "ipc_ctrl factory_demo = []" by (simp add: factory_demo_ok)
  note e = upload_end_to_end [of pcie_demo 4 factory_demo "''/dev/flash''", OF _ _ _ this]
  have "\<exists>tr. write_fw (\<lambda>i. True) demo_lib ''/dev/flash'' ''/run/fw.fls'' [] = Some (0, tr)"
  proof -
    have dl: "\<forall>i. (\<lambda>i::nat. True) i" by simp
    have ne: "MEMORY_CLASS_CODE demo_lib \<noteq> MEMORY_CLASS_CUST demo_lib" by (simp add: demo_lib_def)
    obtain t1 where "boot_modem_flashing_mode (\<lambda>i. True) ''/dev/flash'' ''/run/fw.fls'' [] None [] = Some (0, t1)" using boot_ok [OF dl] by blast
    moreover obtain t2 where "flash_parts (\<lambda>i. True) demo_lib ''/run/fw.fls'' t1 = Some t2"
      using flash_parts_ok [OF dl ne demo_lib_known] by (auto simp: demo_lib_def)
    ultimately show ?thesis by (simp add: write_fw_def boot_modem_normal_mode_def dl_call_def cleanup_def Let_def)
  qed
  with e show ?thesis by (fastforce simp: pcie_demo_def plain_def)
qed

theorem upload_two_nodes_witness:
  "upload_params (str_bytes (flash_args ''/dev/a;/dev/b'' pcie_demo)) = Some (''/dev/a'', ''/dev/b'', ''/run/fw.fls'')"
  using upload_two_nodes [of "''/dev/a''" "''/dev/b''" pcie_demo] by (simp add: pcie_demo_def plain_def)

theorem upload_failed_creation_stalls_witness:
  "\<exists>u1. flash (-1) ''/dev/n'' pcie_demo = Some u1 \<and> up_statuses (up_out u1) = [-1] \<and> packages pcie_package [(True, 1, ''fw'')] u1 = Some u1"
proof -
  obtain u1 where "flash (-1) ''/dev/n'' pcie_demo = Some u1" by (simp add: flash_def pcie_demo_def Let_def)
  with upload_failed_creation_stalls [of pcie_demo "''/dev/n''" u1 "[(True, 1, ''fw'')]"] show ?thesis by (simp add: pcie_demo_def)
qed

end
