(* ===== verification/Crm_Dump.thy ===== *)
theory Crm_Dump
  imports Crm_Upload Crm_Mdmcli
begin

text \<open>
  plugins/dump: reading the core dump of a modem, over PCIe with a process of the factory and the download library
  (dump.c, dump_process.c), and for Sofia from the device of the dump (sofia/dump.c). The constant
  \<open>DUMP_STR_SUCCEED\<close> of libmdmcli is the argument \<open>succeed\<close>.
\<close>

datatype dump_out =
    DmNotify mdm_cli_dbg_info | DmStatus int | DmCreate string string | DmThread | DmKill int | DmClean int

section \<open>PCIe\<close>

abbreviation (input) DUMP_FOLDER :: string where "DUMP_FOLDER \<equiv> ''/data/logs/modemcrash''"
abbreviation (input) TRACE_FILE :: string where "TRACE_FILE \<equiv> ''/data/logs/modemcrash/download_lib_logs.log''"
abbreviation (input) DUMP_PROCESS_LIB :: string where "DUMP_PROCESS_LIB \<equiv> ''libcrm_dump_pcie_process.so''"

record pcie_dump =
  pd_process_id :: int
  pd_log_file :: string
  pd_out :: "dump_out list"

definition pd_emit :: "dump_out \<Rightarrow> pcie_dump \<Rightarrow> pcie_dump" where
  "pd_emit x c = c\<lparr>pd_out := pd_out c @ [x]\<rparr>"

definition get_next_file :: "string option \<Rightarrow> (string \<times> string option) option" where
  "get_next_file cur = get_next_param cur"

definition end_info :: "mdm_cli \<Rightarrow> 8 word list list \<Rightarrow> mdm_cli_dbg_info" where
  "end_info k ss = mk_dbg (DBG_TYPE_DUMP_END k) (DBG_DEFAULT_LOG_SIZE k) (DBG_DEFAULT_LOG_SIZE k) (DBG_DEFAULT_LOG_TIME k) ss"

definition start_info :: "mdm_cli \<Rightarrow> mdm_cli_dbg_info" where
  "start_info k = mk_dbg (DBG_TYPE_DUMP_START k) (DBG_DEFAULT_NO_LOG k) (DBG_DEFAULT_NO_LOG k) (DBG_DEFAULT_NO_LOG k) []"

text \<open>The two names in the answer of the process, a C string.\<close>

definition dump_names :: "8 word list \<Rightarrow> (string \<times> string) option" where
  "dump_names dat = do {
     ASSERT (0 \<in> set dat);
     let tmp = c_str (bytes_str dat);
     (info, cur) \<leftarrow> get_next_file (Some tmp);
     (dump, cur) \<leftarrow> get_next_file cur;
     ASSERT (length info \<le> 512);
     ASSERT (length dump \<le> 512);
     Some (info, dump)
   }"

datatype dump_poll = DpMsg "64 word" "8 word list" | DpTimeout | DpError

definition control_dump_process :: "mdm_cli \<Rightarrow> 8 word list \<Rightarrow> dump_poll \<Rightarrow> pcie_dump \<Rightarrow> pcie_dump option" where
  "control_dump_process k succeed inp c = do {
     ASSERT (pd_process_id c \<ge> 0);
     (status, c) \<leftarrow> (case inp of
         DpMsg s dat \<Rightarrow> do {
           ASSERT (s = 0 \<or> s = -1);
           if s = 0
           then do {
             (info, dump) \<leftarrow> dump_names dat;
             Some (0, pd_emit (DmNotify (end_info k [succeed, str_bytes info, str_bytes dump])) c)
           }
           else Some (sint s, c)
         }
       | DpTimeout \<Rightarrow> Some (-1, pd_emit (DmKill (pd_process_id c)) c)
       | DpError \<Rightarrow> None);
     let c = pd_emit (DmClean (pd_process_id c)) c;
     Some (pd_emit (DmStatus status) (c\<lparr>pd_process_id := -1\<rparr>))
   }"

definition dump_args :: "string \<Rightarrow> string \<Rightarrow> pcie_dump \<Rightarrow> string" where
  "dump_args link fw c = (let args_size = length link + length fw + length DUMP_FOLDER + length (pd_log_file c) + 5
     in snprintf args_size (link @ '';'' @ fw @ '';'' @ DUMP_FOLDER @ '';'' @ pd_log_file c @ '';'') @ [CHR 0x00])"

definition pcie_read_dump :: "mdm_cli \<Rightarrow> int \<Rightarrow> string \<Rightarrow> string \<Rightarrow> pcie_dump \<Rightarrow> pcie_dump option" where
  "pcie_read_dump k created link fw c = do {
     ASSERT (pd_process_id c = -1);
     let c = pd_emit (DmNotify (start_info k)) c;
     let c = pd_emit (DmCreate DUMP_PROCESS_LIB (dump_args link fw c)) c;
     let c = c\<lparr>pd_process_id := created\<rparr>;
     Some (if pd_process_id c \<ge> 0 then pd_emit DmThread c else pd_emit (DmStatus (-1)) c)
   }"

text \<open>Stopping a dump is not implemented, in both plugins: the assertion always fails.\<close>

definition dump_stop :: "'c \<Rightarrow> unit option" where
  "dump_stop c = ASSERT False"

definition pcie_dump_init :: "bool \<Rightarrow> pcie_dump" where
  "pcie_dump_init log_on = \<lparr>pd_process_id = -1, pd_log_file = (if log_on then TRACE_FILE else ''''), pd_out = []\<rparr>"

section \<open>The process\<close>

definition dump_params :: "8 word list \<Rightarrow> (string \<times> string \<times> string \<times> string) option" where
  "dump_params dat = do {
     ASSERT (dat \<noteq> []);
     (dev_node, cur) \<leftarrow> get_next_param (Some (bytes_str dat));
     (fw, cur) \<leftarrow> get_next_param cur;
     (dump_path, cur) \<leftarrow> get_next_param cur;
     (log_file, cur) \<leftarrow> get_next_param cur;
     Some (dev_node, fw, dump_path, log_file)
   }"

definition dump_start_process ::
  "(nat \<Rightarrow> bool) \<Rightarrow> dump_env \<Rightarrow> local_time \<Rightarrow> 8 word list \<Rightarrow> file_system \<Rightarrow> (8 word list crm_ipc_msg \<times> string list \<times> file_system) option" where
  "dump_start_process dl env t dat fs = do {
     (dev_node, fw, dump_path, log_file) \<leftarrow> dump_params dat;
     (files, ws, fs, tr) \<leftarrow> read_dump_ifwd dl env t dev_node fw dump_path log_file fs;
     Some (case files of
             Some s \<Rightarrow> \<lparr>scalar = 0, data_size = word_of_nat (length s + 1), data = str_bytes s @ [0]\<rparr>
           | None \<Rightarrow> \<lparr>scalar = -1, data_size = 0, data = []\<rparr>, ws, fs)
   }"

section \<open>Sofia\<close>

text \<open>
  What a reading of the device gives: nothing within a second, data (with the error of writing them, if there is one), the end,
  or an error with its text. A test build takes the input/output error for the end.
\<close>

datatype dump_read = DrTimeout | DrData string "string option" | DrEof | DrEio string | DrError string

text \<open>The contents of the file, and the error if there is one. Without more readings the loop has not ended.\<close>

fun dump_loop :: "bool \<Rightarrow> dump_read list \<Rightarrow> string \<Rightarrow> (string option \<times> string) option" where
  "dump_loop host [] acc = None"
| "dump_loop host (r # rs) acc =
     (case r of
        DrTimeout \<Rightarrow> None
      | DrData d e \<Rightarrow> if d = [] then Some (None, acc) else if e = None then dump_loop host rs (acc @ d) else Some (e, acc)
      | DrEof \<Rightarrow> Some (None, acc)
      | DrEio e \<Rightarrow> if host then Some (None, acc) else Some (Some e, acc)
      | DrError e \<Rightarrow> Some (Some e, acc))"

record data_env =
  out_opened :: bool
  cmd_written :: int
  out_reads :: "dump_read list"
  out_closed :: bool

definition data_name :: "local_time \<Rightarrow> string \<Rightarrow> string \<Rightarrow> string" where
  "data_name t type extension = snprintf 512 (DUMP_FOLDER @ ''/coredump_'' @ type @ ''_'' @
     (let y = print_num 10 (tm_year t + 1900) in replicate (4 - length y) (CHR '' '') @ y) @ ''-'' @
     pad 2 (print_num 10 (tm_mon t + 1)) @ ''-'' @ pad 2 (print_num 10 (tm_mday t)) @ ''-'' @ pad 2 (print_num 10 (tm_hour t)) @ ''.'' @
     pad 2 (print_num 10 (tm_min t)) @ ''.'' @ pad 2 (print_num 10 (tm_sec t)) @ ''.'' @ extension @ ''.gz'')"

text \<open>The status, the name or the error, and the file that is left.\<close>

definition dump_data :: "bool \<Rightarrow> data_env \<Rightarrow> local_time \<Rightarrow> string \<Rightarrow> string \<Rightarrow> string \<Rightarrow> (int \<times> string \<times> string option) option" where
  "dump_data host env t cmd type extension = do {
     let output = data_name t type extension;
     ASSERT (out_opened env);
     ASSERT (cmd_written env > 0 \<and> cmd_written env = int (length cmd));
     (err, contents) \<leftarrow> dump_loop host (out_reads env) [];
     ASSERT (out_closed env);
     Some (case err of
             None \<Rightarrow> (0, output, Some contents)
           | Some e \<Rightarrow> (-1, snprintf 512 (''Failed to retrieve '' @ type @ ''. error: '' @ e), None))
   }"

record sofia_dump =
  host_debug :: bool
  vdump_path :: "string option"
  sd_ongoing :: bool
  sd_out :: "dump_out list"

definition sd_emit :: "dump_out \<Rightarrow> sofia_dump \<Rightarrow> sofia_dump" where
  "sd_emit x c = c\<lparr>sd_out := sd_out c @ [x]\<rparr>"

text \<open>\<open>opened\<close>, \<open>closed\<close>: the device; in a test build it is opened again between the two files (\<open>reopened\<close>).\<close>

record thread_env =
  dev_opened :: bool
  info_env :: data_env
  reopened :: bool
  core_env :: data_env
  dev_closed :: bool

definition dump_both :: "sofia_dump \<Rightarrow> local_time \<Rightarrow> thread_env \<Rightarrow> (int \<times> string \<times> string \<times> string option \<times> string option) option" where
  "dump_both c t env = do {
     (status, info, info_file) \<leftarrow> dump_data (host_debug c) (info_env env) t ''get_coredump_info'' ''info'' ''txt'';
     if status = 0
     then do {
       ASSERT (host_debug c \<longrightarrow> reopened env);
       (status, dump, dump_file) \<leftarrow> dump_data (host_debug c) (core_env env) t ''get_coredump'' ''modem'' ''istp'';
       Some (status, info, dump, info_file, dump_file)
     }
     else Some (status, info, '''', info_file, None)
   }"

definition dump_thread :: "mdm_cli \<Rightarrow> 8 word list \<Rightarrow> local_time \<Rightarrow> thread_env \<Rightarrow> sofia_dump \<Rightarrow> (sofia_dump \<times> string option \<times> string option) option" where
  "dump_thread k succeed t env c = do {
     ASSERT (\<not> sd_ongoing c);
     ASSERT (dev_opened env);
     (status, info, dump, info_file, dump_file) \<leftarrow> dump_both c t env;
     ASSERT (dev_closed env);
     let c = sd_emit (DmNotify (end_info k [if status \<noteq> 0 then DUMP_STR_LINK_ERR k else succeed, str_bytes dump, str_bytes info])) c;
     let c = c\<lparr>vdump_path := None, sd_ongoing := False\<rparr>;
     Some (sd_emit (DmStatus status) c, info_file, dump_file)
   }"

definition sofia_read_dump :: "string \<Rightarrow> sofia_dump \<Rightarrow> sofia_dump option" where
  "sofia_read_dump link c = do {
     ASSERT (\<not> sd_ongoing c);
     ASSERT (vdump_path c = None);
     Some (sd_emit DmThread (c\<lparr>vdump_path := Some link\<rparr>))
   }"

definition sofia_dump_init :: "bool \<Rightarrow> sofia_dump" where
  "sofia_dump_init host = \<lparr>host_debug = host, vdump_path = None, sd_ongoing = False, sd_out = []\<rparr>"

section \<open>Names\<close>

lemma plain_append [simp]: "plain (s @ t) \<longleftrightarrow> plain s \<and> plain t"
  by (auto simp: plain_def)

lemma plain_Cons [simp]: "plain [] \<longleftrightarrow> True" "plain (c # s) \<longleftrightarrow> c \<noteq> CHR '';'' \<and> c \<noteq> CHR 0x00 \<and> plain s"
  by (auto simp: plain_def)

lemma plain_take: "plain s \<Longrightarrow> plain (take n s)"
  by (auto simp: plain_def dest: in_set_takeD)

lemma digit_char_plain:
  assumes "d < 10"
  shows "digit_char d \<noteq> CHR '';''" "digit_char d \<noteq> CHR 0x00"
proof -
  have "of_char (digit_char d) = 48 + d" using assms by (simp add: digit_char_def)
  then have "of_char (digit_char d) \<noteq> (59::nat)" "of_char (digit_char d) \<noteq> (0::nat)" using assms by simp_all
  then show "digit_char d \<noteq> CHR '';''" "digit_char d \<noteq> CHR 0x00" by auto
qed

lemma plain_num [simp]: "plain (print_num 10 v)"
proof -
  have "c \<noteq> CHR '';'' \<and> c \<noteq> CHR 0x00" if "c \<in> set (print_num 10 v)" for c
    using that digits_lt [of 10 _ v] digit_char_plain by (auto simp: print_num_def)
  then show ?thesis unfolding plain_def by blast
qed

lemma plain_pad [simp]: "plain s \<Longrightarrow> plain (pad w s)"
  by (auto simp: pad_def plain_def)

lemma plain_set_name: "plain folder \<Longrightarrow> plain type \<Longrightarrow> plain ext \<Longrightarrow> plain (set_name t folder type ext)"
  by (auto simp: set_name_def snprintf_def Let_def intro!: plain_take) (auto simp: plain_def)

lemma length_set_name: "length (set_name t folder type ext) < 128"
  unfolding set_name_def by (rule length_snprintf) simp

lemma dump_args_eq: "dump_args link fw c = link @ CHR '';'' # fw @ CHR '';'' # DUMP_FOLDER @ CHR '';'' # pd_log_file c @ CHR '';'' # [CHR 0x00]"
  by (simp add: dump_args_def Let_def snprintf_fits)

lemma dump_params_four:
  assumes "plain a" "plain b" "plain c" "plain d"
  shows "dump_params (str_bytes (a @ CHR '';'' # b @ CHR '';'' # c @ CHR '';'' # d @ CHR '';'' # rest)) = Some (a, b, c, d)"
proof -
  let ?s = "a @ CHR '';'' # b @ CHR '';'' # c @ CHR '';'' # d @ CHR '';'' # rest"
  have "bytes_str (str_bytes ?s) = ?s" by (rule bytes_str_bytes)
  moreover have "str_bytes ?s \<noteq> []" by (simp add: str_bytes_def)
  ultimately show ?thesis unfolding dump_params_def by (simp add: next_param_plain assms)
qed

lemma byte_char_zero: "byte_char 0 = CHR 0x00"
  by (simp add: byte_char_def char_of_def)

lemma c_str_term: "CHR 0x00 \<notin> set s \<Longrightarrow> c_str (s @ [CHR 0x00]) = s"
  unfolding c_str_def by (rule takeWhile_sep)

lemma dump_names_two:
  assumes "plain a" "plain b" "length a \<le> 512" "length b \<le> 512"
  shows "dump_names (str_bytes (a @ '';'' @ b @ '';'') @ [0]) = Some (a, b)"
proof -
  let ?s = "a @ CHR '';'' # b @ CHR '';'' # []"
  have n: "CHR 0x00 \<notin> set ?s" using assms(1,2) by (auto simp: plain_def)
  have "bytes_str (str_bytes ?s @ [0]) = ?s @ [CHR 0x00]" unfolding bytes_str_append bytes_str_bytes by (simp add: bytes_str_def byte_char_zero)
  then have "c_str (bytes_str (str_bytes ?s @ [0])) = ?s" using c_str_term [OF n] by simp
  then show ?thesis using assms by (simp add: dump_names_def get_next_file_def next_param_plain)
qed

lemma read_dump_files:
  assumes "read_dump_ifwd dl env t dev fw folder lf fs = Some (Some files, ws, fs', tr)"
  shows "files = set_name t folder ''info'' ''json'' @ '';'' @ set_name t folder ''modem'' ''tgz'' @ '';''"
  using assms by (auto simp: read_dump_ifwd_def collect_dump_def Let_def bind_Some_iff split: if_splits)

section \<open>Properties\<close>

text \<open>
  C14: a dump goes through. The argument a request gives to the factory is cut by the new process into the node, the
  firmware, the folder and the log file of the request; when the process has read a dump, the names of the two
  files it made, sent back over its pipe, are those the clients are told, Control is told once, with success,
  and the plugin can read the next dump.
\<close>

theorem dump_end_to_end:
  assumes "pd_process_id c = -1" "created \<ge> 0" "ipc_ctrl f = []" "plain link" "plain fw" "plain (pd_log_file c)"
    and "length link + length fw + length (pd_log_file c) + 200 < 2 ^ 31"
  shows "\<exists>c1 f1 msg d. pcie_read_dump k created link fw c = Some c1 \<and>
    pd_out c1 = pd_out c @ [DmNotify (start_info k), DmCreate DUMP_PROCESS_LIB (dump_args link fw c), DmThread] \<and>
    create_request (str_bytes DUMP_PROCESS_LIB) (str_bytes (dump_args link fw c)) f = Some f1 \<and> get_msg_process (ipc_ctrl f1) = Some (msg, []) \<and>
    start_args (data msg) = Some (str_bytes DUMP_PROCESS_LIB, Some d, length d) \<and>
    (\<forall>dl env t fs files ws fs' tr. read_dump_ifwd dl env t link fw DUMP_FOLDER (pd_log_file c) fs = Some (Some files, ws, fs', tr) \<longrightarrow>
      (\<exists>m bs m' c2. dump_start_process dl env t d fs = Some (m, ws, fs') \<and> send_msg_process [] m = Some bs \<and> get_msg_process bs = Some (m', []) \<and>
        control_dump_process k succeed (DpMsg (scalar m') (data m')) c1 = Some c2 \<and> pd_process_id c2 = -1 \<and>
        pd_out c2 = pd_out c1 @ [DmNotify (end_info k [succeed, str_bytes (set_name t DUMP_FOLDER ''info'' ''json''),
          str_bytes (set_name t DUMP_FOLDER ''modem'' ''tgz'')]), DmClean created, DmStatus 0]))"
proof -
  let ?d = "str_bytes (dump_args link fw c)"
  have ne: "?d \<noteq> []" by (simp add: dump_args_eq str_bytes_def)
  have "length (str_bytes DUMP_PROCESS_LIB) + length ?d + 1 < 2 ^ 31" using assms(7) by (simp add: dump_args_eq)
  moreover have "59 \<notin> set (str_bytes DUMP_PROCESS_LIB)" by (simp add: sep_bytes)
  moreover have "str_bytes DUMP_PROCESS_LIB \<noteq> []" by (simp add: str_bytes_def)
  ultimately obtain f1 msg where cr: "create_request (str_bytes DUMP_PROCESS_LIB) ?d f = Some f1" "get_msg_process (ipc_ctrl f1) = Some (msg, [])"
    "start_args (data msg) = Some (str_bytes DUMP_PROCESS_LIB, Some ?d, length ?d)"
    using factory_create_roundtrip [of "str_bytes DUMP_PROCESS_LIB" ?d f] assms(3) ne by auto
  have par: "dump_params ?d = Some (link, fw, DUMP_FOLDER, pd_log_file c)"
    unfolding dump_args_eq by (rule dump_params_four) (use assms(4-6) in simp_all)
  define c1 where "c1 = c\<lparr>pd_out := pd_out c @ [DmNotify (start_info k), DmCreate DUMP_PROCESS_LIB (dump_args link fw c), DmThread], pd_process_id := created\<rparr>"
  have rd: "pcie_read_dump k created link fw c = Some c1"
    using assms(1,2) by (simp add: pcie_read_dump_def pd_emit_def Let_def c1_def dump_args_def)
  have "\<exists>m bs m' c2. dump_start_process dl env t ?d fs = Some (m, ws, fs') \<and> send_msg_process [] m = Some bs \<and> get_msg_process bs = Some (m', []) \<and>
      control_dump_process k succeed (DpMsg (scalar m') (data m')) c1 = Some c2 \<and> pd_process_id c2 = -1 \<and>
      pd_out c2 = pd_out c1 @ [DmNotify (end_info k [succeed, str_bytes (set_name t DUMP_FOLDER ''info'' ''json''),
        str_bytes (set_name t DUMP_FOLDER ''modem'' ''tgz'')]), DmClean created, DmStatus 0]"
    if r: "read_dump_ifwd dl env t link fw DUMP_FOLDER (pd_log_file c) fs = Some (Some files, ws, fs', tr)" for dl env t fs files ws fs' tr
  proof -
    define i n where "i = set_name t DUMP_FOLDER ''info'' ''json''" and "n = set_name t DUMP_FOLDER ''modem'' ''tgz''"
    have fi: "files = i @ '';'' @ n @ '';''" using read_dump_files [OF r] by (simp only: i_def n_def)
    have pl: "plain i" "plain n" "length i < 128" "length n < 128"
      unfolding i_def n_def by (simp_all add: plain_set_name length_set_name)
    define m :: "8 word list crm_ipc_msg" where "m = \<lparr>scalar = 0, data_size = word_of_nat (length files + 1), data = str_bytes files @ [0]\<rparr>"
    have st: "dump_start_process dl env t ?d fs = Some (m, ws, fs')" using par r by (simp add: dump_start_process_def m_def)
    have "length files + 1 < 2 ^ 31" using fi pl(3,4) by simp
    note sz = of_nat_small [OF this]
    obtain bs where b: "send_msg_process [] m = Some bs" "get_msg_process bs = Some (m\<lparr>scalar := scast (ucast (scalar m) :: 32 word)\<rparr>, [])"
      using ipc_process_roundtrip [of m "[]"] sz by (auto simp: m_def)
    have nm: "dump_names (data m) = Some (i, n)" unfolding m_def fi using dump_names_two [OF pl(1,2)] pl(3,4) by simp
    have z: "scast (ucast (scalar m) :: 32 word) = (0 :: 64 word)" by (simp add: m_def)
    define c2 where "c2 = pd_emit (DmStatus 0) ((pd_emit (DmClean created)
        (pd_emit (DmNotify (end_info k [succeed, str_bytes i, str_bytes n])) c1))\<lparr>pd_process_id := -1\<rparr>)"
    have "control_dump_process k succeed (DpMsg 0 (data m)) c1 = Some c2"
      using nm assms(2) by (simp add: control_dump_process_def Let_def c1_def c2_def pd_emit_def)
    with st b z show ?thesis
      by (intro exI [of _ m] exI [of _ bs] exI [of _ "m\<lparr>scalar := scast (ucast (scalar m) :: 32 word)\<rparr>"] exI [of _ c2] conjI)
        (simp_all add: pd_emit_def c2_def i_def n_def)
  qed
  then show ?thesis using rd cr by (intro exI [of _ c1] exI [of _ f1] exI [of _ msg] exI [of _ ?d]) (simp add: c1_def)
qed

text \<open>The file system after the modem has written its dump: what \<open>read_dump_ifwd\<close> makes an archive of.\<close>

definition dump_written :: "dump_env \<Rightarrow> file_system \<Rightarrow> string \<Rightarrow> (string \<times> string) list \<Rightarrow> bool" where
  "dump_written env fs report fcs \<longleftrightarrow>
     map fst fcs = dump_files \<and> (\<forall>(n, c) \<in> set fcs. archivable (after_boot env fs) DUMP_FOLDER n c) \<and>
     (\<exists>st. after_boot env fs (DUMP_FOLDER @ ''/'' @ info_file) = Some (st, report))"

definition env_ok :: "dump_env \<Rightarrow> bool" where
  "env_ok env \<longleftrightarrow> (\<forall>p. unlink_ok env p) \<and> rename_ok env \<and> owner_known env \<and> (\<forall>p. chown_ok env p) \<and> (\<forall>i. gz_ok env i) \<and> gz_opened env \<and> gz_closed env"

definition temp_path :: "string \<Rightarrow> string" where
  "temp_path f = snprintf 128 (DUMP_FOLDER @ ''/'' @ f)"

lemma delete_all:
  assumes "\<forall>p. unlink_ok env p"
  shows "\<exists>fs'. delete_dump_files env DUMP_FOLDER files fs = Some fs' \<and> (\<forall>f \<in> set files. \<not> is_file fs' (temp_path f)) \<and>
    (\<forall>p. (\<forall>f \<in> set files. p \<noteq> temp_path f) \<longrightarrow> fs' p = fs p)"
proof (induction files arbitrary: fs)
  case (Cons f files)
  define fs1 where "fs1 = (if is_file fs (temp_path f) then fs(temp_path f := None) else fs)"
  have d: "delete_file env DUMP_FOLDER f fs = Some fs1"
    using assms by (simp add: delete_file_def Let_def fs1_def temp_path_def)
  have n: "\<not> is_file fs1 (temp_path f)" by (simp add: fs1_def is_file_def)
  have k: "p \<noteq> temp_path f \<longrightarrow> fs1 p = fs p" for p by (simp add: fs1_def)
  from Cons [of fs1] obtain fs' where fs': "delete_dump_files env DUMP_FOLDER files fs1 = Some fs'" "\<forall>g \<in> set files. \<not> is_file fs' (temp_path g)"
    "\<forall>p. (\<forall>g \<in> set files. p \<noteq> temp_path g) \<longrightarrow> fs' p = fs1 p" by blast
  have "\<not> is_file fs' (temp_path f)"
  proof (cases "\<exists>g \<in> set files. temp_path f = temp_path g")
    case True
    with fs'(2) show ?thesis by auto
  next
    case False
    with fs'(3) have "fs' (temp_path f) = fs1 (temp_path f)" by blast
    with n show ?thesis by (simp add: is_file_def)
  qed
  with d fs' k show ?case by (intro exI [of _ fs']) simp
qed simp

lemma info_path_other:
  assumes "f \<in> set (info_file # dump_files)"
  shows "set_name t DUMP_FOLDER ''info'' ''json'' \<noteq> temp_path f"
  using assms by (auto simp: set_name_def temp_path_def snprintf_def)

lemma collected_exists:
  assumes "\<forall>i. dl i" "env_ok env" "\<forall>fs. dump_written env fs report fcs" "\<forall>f \<in> set (butlast fcs). \<not> HDR_SIZE dvd length (snd f)"
  shows "\<exists>files ws fs' tr. read_dump_ifwd dl env t link fw DUMP_FOLDER lf fs = Some (Some files, ws, fs', tr) \<and>
    untar (concat ws) = Some fcs \<and> (\<exists>st. fs' (set_name t DUMP_FOLDER ''info'' ''json'') = Some (st, report)) \<and>
    (\<forall>f \<in> set (info_file # dump_files). \<not> is_file fs' (DUMP_FOLDER @ ''/'' @ f))"
proof -
  have u: "\<forall>p. unlink_ok env p" using assms(2) by (simp add: env_ok_def)
  let ?i = "set_name t DUMP_FOLDER ''info'' ''json''"
  let ?n = "set_name t DUMP_FOLDER ''modem'' ''tgz''"
  obtain fs1 where d1: "delete_dump_files env DUMP_FOLDER (info_file # dump_files) fs = Some fs1" using delete_all [OF u] by blast
  obtain t1 where b: "boot_modem_flashing_mode dl link fw lf (Some DUMP_FOLDER) [] = Some (0, t1)" using boot_ok [OF assms(1)] by blast
  define fs2 where "fs2 = after_boot env fs1"
  have "dump_written env fs1 report fcs" using assms(3) by blast
  then obtain st where w: "map fst fcs = dump_files" "\<forall>(n, c) \<in> set fcs. archivable fs2 DUMP_FOLDER n c"
    "fs2 (DUMP_FOLDER @ ''/'' @ info_file) = Some (st, report)" by (auto simp: dump_written_def fs2_def)
  have "\<forall>i. gz_ok env i" using assms(2) by (simp add: env_ok_def)
  from archive_read [OF w(2) this] obtain ws where ws: "crm_ifwd_tgz_create fs2 (gz_ok env) True True DUMP_FOLDER dump_files = Some ws"
    "untar (concat ws) = Some fcs" using up_to_aligned_all [OF assms(4)] w(1) by auto
  define fs3 where "fs3 = (fs2(DUMP_FOLDER @ ''/'' @ info_file := None))(?i := Some (st, report))"
  have s: "snprintf 128 (DUMP_FOLDER @ ''/'' @ info_file) = DUMP_FOLDER @ ''/'' @ info_file" by (simp add: snprintf_def)
  have co: "collect_dump env t DUMP_FOLDER fs2 = Some (?i @ '';'' @ ?n @ '';'', ws, fs3)"
    using ws(1) w(3) assms(2) unfolding collect_dump_def Let_def s fs3_def by (simp add: env_ok_def)
  have "\<exists>t2. cleanup dl lf t1 = Some t2" using assms(1) by (simp add: cleanup_def Let_def set_cfg_def)
  then obtain t2 where cl: "cleanup dl lf t1 = Some t2" by (elim exE)
  from delete_all [OF u, of "info_file # dump_files" fs3] obtain fs4 where d2: "delete_dump_files env DUMP_FOLDER (info_file # dump_files) fs3 = Some fs4"
    "\<forall>f \<in> set (info_file # dump_files). \<not> is_file fs4 (temp_path f)"
    "\<forall>p. (\<forall>f \<in> set (info_file # dump_files). p \<noteq> temp_path f) \<longrightarrow> fs4 p = fs3 p" by blast
  have "fs4 ?i = fs3 ?i" using d2(3) info_path_other by blast
  then have "fs4 ?i = Some (st, report)" by (simp add: fs3_def)
  moreover have "\<forall>f \<in> set (info_file # dump_files). temp_path f = DUMP_FOLDER @ ''/'' @ f" by (simp add: temp_path_def snprintf_def)
  moreover have "read_dump_ifwd dl env t link fw DUMP_FOLDER lf fs = Some (Some (?i @ '';'' @ ?n @ '';''), ws, fs4, t2)"
    unfolding read_dump_ifwd_def using d1 b co cl d2(1) by (simp add: fs2_def [symmetric] del: delete_dump_files.simps)
  ultimately show ?thesis using ws(2) d2(2) by (intro exI [of _ "?i @ '';'' @ ?n @ '';''"] exI [of _ ws] exI [of _ fs4] exI [of _ t2]) auto
qed

text \<open>
  C15: a dump is complete. When the modem has written its dump, the library reports no error, the system calls
  succeed and no file of the dump but the last has a size that is a multiple of 512 (such a file hides the files behind it), the archive that is made holds the three files of the dump with their contents, the information file is kept under
  the name that is reported, and none of the files the modem wrote is left under its own name.
\<close>

theorem dump_collected:
  assumes "\<forall>i. dl i" "env_ok env" "\<forall>fs. dump_written env fs report fcs" "\<forall>f \<in> set (butlast fcs). \<not> HDR_SIZE dvd length (snd f)"
  shows "\<exists>files ws fs' tr. read_dump_ifwd dl env t link fw DUMP_FOLDER lf fs = Some (Some files, ws, fs', tr) \<and>
    untar (concat ws) = Some fcs \<and> (\<exists>st. fs' (set_name t DUMP_FOLDER ''info'' ''json'') = Some (st, report)) \<and>
    (\<forall>f \<in> set (info_file # dump_files). \<not> is_file fs' (DUMP_FOLDER @ ''/'' @ f))"
  using collected_exists [OF assms(1,2,3,4)] .

text \<open>
  A dump that fails over PCIe is never ended for the clients. They are told that a dump starts, but when the
  process fails or takes too long only Control is told: no client gets the end of the dump, which the plugin for Sofia
  announces in both cases.
\<close>

theorem pcie_dump_failure_silent:
  assumes "pd_process_id c = -1" "created \<ge> 0" "pcie_read_dump k created link fw c = Some c1" "inp = DpTimeout \<or> inp = DpMsg (-1) []"
  shows "\<exists>c2 io. control_dump_process k succeed inp c1 = Some c2 \<and> pd_out c2 = pd_out c @ DmNotify (start_info k) # io @ [DmStatus (-1)] \<and>
    (\<forall>i. DmNotify i \<notin> set io)"
  using assms by (auto simp: pcie_read_dump_def control_dump_process_def pd_emit_def Let_def)

lemma dump_loop_data:
  assumes "\<forall>d \<in> set ds. d \<noteq> []"
  shows "dump_loop host (map (\<lambda>d. DrData d None) ds @ rs) acc = dump_loop host rs (acc @ concat ds)"
  using assms by (induction ds arbitrary: acc) simp_all

lemma data_status:
  assumes "dump_data host env t cmd ty ext = Some (st, name, file)"
  shows "(st = 0 \<and> file \<noteq> None \<and> name = data_name t ty ext) \<or> (st = -1 \<and> file = None)"
  using assms by (auto simp: dump_data_def Let_def bind_Some_iff split: option.splits)

lemma both_status:
  assumes "dump_both c t env = Some (st, info, dump, fi, fd)"
  shows "(st = 0 \<and> fi \<noteq> None \<and> fd \<noteq> None \<and> info = data_name t ''info'' ''txt'' \<and> dump = data_name t ''modem'' ''istp'') \<or> (st = -1 \<and> fd = None)"
proof -
  from assms obtain s1 i1 f1 where d1: "dump_data (host_debug c) (info_env env) t ''get_coredump_info'' ''info'' ''txt'' = Some (s1, i1, f1)"
    unfolding dump_both_def by (auto simp: bind_Some_iff)
  show ?thesis
  proof (cases "s1 = 0")
    case True
    with assms d1 have "dump_data (host_debug c) (core_env env) t ''get_coredump'' ''modem'' ''istp'' = Some (st, dump, fd)" "info = i1" "fi = f1"
      unfolding dump_both_def by (auto simp: bind_Some_iff)
    with data_status [OF d1] data_status [OF this(1)] True show ?thesis by auto
  next
    case False
    with assms d1 data_status [OF d1] show ?thesis unfolding dump_both_def by auto
  qed
qed

text \<open>
  A dump of Sofia is complete or reported as failed. The thread ends with exactly one message to the clients and one to
  Control; on success both files exist and have the names the clients are told, and otherwise the failure is
  announced and there is no dump left. When the device gives its data piece by piece and then its end, each file is made of
  the pieces in order.
\<close>

theorem sofia_dump_complete:
  assumes "dump_thread k succeed t env c = Some (c', fi, fd)"
  shows "(\<exists>st info dump. sd_out c' = sd_out c @ [DmNotify (end_info k [if st \<noteq> 0 then DUMP_STR_LINK_ERR k else succeed, str_bytes dump, str_bytes info]), DmStatus st] \<and>
      (st = 0 \<and> fi \<noteq> None \<and> fd \<noteq> None \<and> info = data_name t ''info'' ''txt'' \<and> dump = data_name t ''modem'' ''istp'' \<or> st = -1 \<and> fd = None)) \<and>
    vdump_path c' = None \<and> \<not> sd_ongoing c' \<and>
    (\<forall>is ds. (\<forall>d \<in> set (is @ ds). d \<noteq> []) \<and> out_reads (info_env env) = map (\<lambda>d. DrData d None) is @ [DrEof] \<and>
       out_reads (core_env env) = map (\<lambda>d. DrData d None) ds @ [DrEof] \<longrightarrow> fi = Some (concat is) \<and> fd = Some (concat ds))"
proof -
  from assms obtain st info dump where b: "dump_both c t env = Some (st, info, dump, fi, fd)"
    "c' = sd_emit (DmStatus st) ((sd_emit (DmNotify (end_info k [if st \<noteq> 0 then DUMP_STR_LINK_ERR k else succeed, str_bytes dump, str_bytes info])) c)
       \<lparr>vdump_path := None, sd_ongoing := False\<rparr>)"
    unfolding dump_thread_def Let_def by (auto simp: bind_Some_iff split: if_splits)
  have "fi = Some (concat is) \<and> fd = Some (concat ds)"
    if r: "\<forall>d \<in> set (is @ ds). d \<noteq> []" "out_reads (info_env env) = map (\<lambda>d. DrData d None) is @ [DrEof]"
      "out_reads (core_env env) = map (\<lambda>d. DrData d None) ds @ [DrEof]" for "is" ds
  proof -
    have l: "dump_loop (host_debug c) (out_reads (info_env env)) [] = Some (None, concat is)"
      "dump_loop (host_debug c) (out_reads (core_env env)) [] = Some (None, concat ds)"
      using r dump_loop_data [of "is"] dump_loop_data [of ds] by simp_all
    from b(1) l show ?thesis unfolding dump_both_def dump_data_def Let_def by (auto simp: bind_Some_iff split: if_splits)
  qed
  with b(2) both_status [OF b(1)] show ?thesis by (auto simp: sd_emit_def)
qed

definition demo_file :: "string \<Rightarrow> tar_stat \<times> string" where
  "demo_file c = (\<lparr>st_regular = True, st_mtime = 1, st_uid = 0, st_gid = 0, st_size = length c\<rparr>, c)"

definition demo_dump_fs :: file_system where
  "demo_dump_fs = (\<lambda>path.
     if path = ''/data/logs/modemcrash/coredump.fcd'' then Some (demo_file ''core'')
     else if path = ''/data/logs/modemcrash/bootcore_prev_trace.bin'' then Some (demo_file ''p'')
     else if path = ''/data/logs/modemcrash/bootcore_trace.bin'' then Some (demo_file ''t'')
     else if path = ''/data/logs/modemcrash/report.json'' then Some (demo_file ''report'') else None)"

definition demo_env :: dump_env where
  "demo_env = \<lparr>after_boot = (\<lambda>fs. demo_dump_fs), unlink_ok = (\<lambda>p. True), rename_ok = True, owner_known = True, chown_ok = (\<lambda>p. True),
     gz_ok = (\<lambda>i. True), gz_opened = True, gz_closed = True\<rparr>"

definition demo_time :: local_time where
  "demo_time = \<lparr>tm_year = 115, tm_mon = 0, tm_mday = 2, tm_hour = 3, tm_min = 4, tm_sec = 5\<rparr>"

lemma demo_written: "\<forall>fs. dump_written demo_env fs ''report'' [(''coredump.fcd'', ''core''), (''bootcore_prev_trace.bin'', ''p''), (''bootcore_trace.bin'', ''t'')]"
  by (simp add: dump_written_def demo_env_def demo_dump_fs_def archivable_def snprintf_def demo_file_def)

lemma demo_env_ok: "env_ok demo_env"
  by (simp add: env_ok_def demo_env_def)

lemma demo_unaligned:
  "\<forall>f \<in> set (butlast [(''coredump.fcd'', ''core''), (''bootcore_prev_trace.bin'', ''p''), (''bootcore_trace.bin'', ''t'')]). \<not> HDR_SIZE dvd length (snd f)"
  by (auto dest: dvd_imp_le)

theorem dump_collected_witness:
  "\<exists>files ws fs' tr. read_dump_ifwd (\<lambda>i. True) demo_env demo_time ''/dev/d'' ''fw'' DUMP_FOLDER [] (\<lambda>p. None) = Some (Some files, ws, fs', tr) \<and>
    untar (concat ws) = Some [(''coredump.fcd'', ''core''), (''bootcore_prev_trace.bin'', ''p''), (''bootcore_trace.bin'', ''t'')]"
  using dump_collected [OF _ demo_env_ok demo_written demo_unaligned, of "\<lambda>i. True" demo_time "''/dev/d''" "''fw''" "[]" "\<lambda>p. None"] by blast

theorem dump_end_to_end_witness:
  "\<exists>c1 c2 d m bs m' ws fs'. pcie_read_dump demo_cli 1 ''/dev/d'' ''fw'' (pcie_dump_init False) = Some c1 \<and>
     dump_start_process (\<lambda>i. True) demo_env demo_time d (\<lambda>p. None) = Some (m, ws, fs') \<and> send_msg_process [] m = Some bs \<and> get_msg_process bs = Some (m', []) \<and>
     control_dump_process demo_cli [79, 75] (DpMsg (scalar m') (data m')) c1 = Some c2 \<and> last (pd_out c2) = DmStatus 0"
proof -
  have "ipc_ctrl factory_demo = []" by (simp add: factory_demo_ok)
  note e = dump_end_to_end [of "pcie_dump_init False" 1 factory_demo "''/dev/d''" "''fw''", OF _ _ this, where k = demo_cli and succeed = "[79, 75]"]
  obtain files ws fs' tr where r: "read_dump_ifwd (\<lambda>i. True) demo_env demo_time ''/dev/d'' ''fw'' DUMP_FOLDER [] (\<lambda>p. None) = Some (Some files, ws, fs', tr)"
    using collected_exists [OF _ demo_env_ok demo_written demo_unaligned, of "\<lambda>i. True" demo_time "''/dev/d''" "''fw''" "[]" "\<lambda>p. None"] by blast
  from e obtain c1 f1 msg d where c1: "pcie_read_dump demo_cli 1 ''/dev/d'' ''fw'' (pcie_dump_init False) = Some c1"
    and run: "\<forall>dl env t fs files ws fs' tr. read_dump_ifwd dl env t ''/dev/d'' ''fw'' DUMP_FOLDER [] fs = Some (Some files, ws, fs', tr) \<longrightarrow>
      (\<exists>m bs m' c2. dump_start_process dl env t d fs = Some (m, ws, fs') \<and> send_msg_process [] m = Some bs \<and> get_msg_process bs = Some (m', []) \<and>
        control_dump_process demo_cli [79, 75] (DpMsg (scalar m') (data m')) c1 = Some c2 \<and> pd_process_id c2 = -1 \<and>
        pd_out c2 = pd_out c1 @ [DmNotify (end_info demo_cli [[79, 75], str_bytes (set_name t DUMP_FOLDER ''info'' ''json''),
          str_bytes (set_name t DUMP_FOLDER ''modem'' ''tgz'')]), DmClean 1, DmStatus 0])"
    by (auto simp: pcie_dump_init_def)
  from run r obtain m bs m' c2 where "dump_start_process (\<lambda>i. True) demo_env demo_time d (\<lambda>p. None) = Some (m, ws, fs')" "send_msg_process [] m = Some bs"
    "get_msg_process bs = Some (m', [])" "control_dump_process demo_cli [79, 75] (DpMsg (scalar m') (data m')) c1 = Some c2"
    "pd_out c2 = pd_out c1 @ [DmNotify (end_info demo_cli [[79, 75], str_bytes (set_name demo_time DUMP_FOLDER ''info'' ''json''),
          str_bytes (set_name demo_time DUMP_FOLDER ''modem'' ''tgz'')]), DmClean 1, DmStatus 0]" by blast
  with c1 show ?thesis by (intro exI conjI) (assumption | simp)+
qed

theorem pcie_dump_failure_silent_witness:
  "\<exists>c1 c2 io. pcie_read_dump demo_cli 1 ''/dev/d'' ''fw'' (pcie_dump_init False) = Some c1 \<and> control_dump_process demo_cli [79, 75] DpTimeout c1 = Some c2 \<and>
     pd_out c2 = DmNotify (start_info demo_cli) # io @ [DmStatus (-1)] \<and> (\<forall>i. DmNotify i \<notin> set io)"
proof -
  have "\<exists>c1. pcie_read_dump demo_cli 1 ''/dev/d'' ''fw'' (pcie_dump_init False) = Some c1" by (simp add: pcie_read_dump_def pcie_dump_init_def Let_def pd_emit_def)
  then obtain c1 where "pcie_read_dump demo_cli 1 ''/dev/d'' ''fw'' (pcie_dump_init False) = Some c1" by (elim exE)
  with pcie_dump_failure_silent [of "pcie_dump_init False" 1 demo_cli "''/dev/d''" "''fw''" c1 DpTimeout "[79, 75]"]
  show ?thesis by (auto simp: pcie_dump_init_def)
qed

definition demo_reads :: "string list \<Rightarrow> string \<Rightarrow> data_env" where
  "demo_reads ds cmd = \<lparr>out_opened = True, cmd_written = int (length cmd), out_reads = map (\<lambda>d. DrData d None) ds @ [DrEof], out_closed = True\<rparr>"

definition demo_thread :: thread_env where
  "demo_thread = \<lparr>dev_opened = True, info_env = demo_reads [''in'', ''fo''] ''get_coredump_info'', reopened = False,
     core_env = demo_reads [''co'', ''re''] ''get_coredump'', dev_closed = True\<rparr>"

theorem sofia_dump_complete_witness:
  "\<exists>c'. dump_thread demo_cli [79, 75] demo_time demo_thread (sofia_dump_init False) = Some (c', Some ''info'', Some ''core'')"
proof -
  have "\<exists>c' fi fd. dump_thread demo_cli [79, 75] demo_time demo_thread (sofia_dump_init False) = Some (c', fi, fd)"
    by (simp add: dump_thread_def demo_thread_def demo_reads_def sofia_dump_init_def dump_both_def dump_data_def Let_def)
  then obtain c' fi fd where r: "dump_thread demo_cli [79, 75] demo_time demo_thread (sofia_dump_init False) = Some (c', fi, fd)" by (elim exE)
  have "fi = Some (concat [''in'', ''fo'']) \<and> fd = Some (concat [''co'', ''re''])"
    by (rule sofia_dump_complete [OF r, THEN conjunct2, THEN conjunct2, THEN conjunct2, rule_format]) (simp add: demo_thread_def demo_reads_def)
  with r show ?thesis by simp
qed

end
