(* ===== verification/Crm_At.thy ===== *)
theory Crm_At
  imports Crm_File
begin

text \<open>
  libs/utils/src/at.c and plugins/hal/common/src/ping.c: sending an AT command to the modem and
  reading its answer line by line, and pinging the modem with such a command until it answers.

  The buffer of the code is a list of 2048 characters. A line that is consumed is removed by moving
  what follows to the front of the buffer; the terminator is not moved with it, and the search of
  the next line sees what the move leaves behind.
\<close>

abbreviation (input) AT_BUFFER :: nat where "AT_BUFFER \<equiv> 2048"
abbreviation (input) CR :: char where "CR \<equiv> CHR 0x0D"
abbreviation (input) LF :: char where "LF \<equiv> CHR 0x0A"
abbreviation (input) NUL :: char where "NUL \<equiv> CHR 0x00"

section \<open>The answer\<close>

text \<open>\<open>strstr (buffer, "\r\n")\<close> on the string before the terminator.\<close>

fun find_crlf :: "string \<Rightarrow> nat option" where
  "find_crlf (x # y # s) = (if x = CR \<and> y = LF then Some 0 else map_option Suc (find_crlf (y # s)))"
| "find_crlf s = None"

definition memmove_front :: "string \<Rightarrow> nat \<Rightarrow> nat \<Rightarrow> string" where
  "memmove_front buf from n = take n (drop from buf) @ drop n buf"

text \<open>
  The inner loop. The result is 1 while no final answer has been seen. The number of bytes left is
  unsigned: when the line found ends after them, the move is asked for almost the whole address
  space.
\<close>

function parse_lines :: "string \<Rightarrow> nat \<Rightarrow> (int \<times> string \<times> nat) option" where
  "parse_lines buf idx =
     (case find_crlf (c_str buf) of
        None \<Rightarrow> Some (1, buf, idx)
      | Some k \<Rightarrow>
          let buf = buf[k := NUL]
          in if c_str buf = ''OK'' then Some (0, buf, idx)
             else if c_str buf = ''ERROR'' then Some (-1, buf, idx)
             else if k + 2 \<le> idx then parse_lines (memmove_front buf (k + 2) (idx - (k + 2))) (idx - (k + 2))
             else None)"
  by pat_completeness auto
termination
  by (relation "measure snd") auto

datatype at_poll =
    AtTimeout
  | AtHangup
  | AtAborted
  | AtData string
  | AtReadError
  | AtOther

text \<open>The outer loop: what each \<open>poll\<close> and the \<open>read\<close> after it bring; \<open>None\<close> when the list ends
  before an answer, the call has not returned.\<close>

fun at_loop :: "at_poll list \<Rightarrow> string \<Rightarrow> nat \<Rightarrow> int option" where
  "at_loop [] buf idx = None"
| "at_loop (e # es) buf idx =
     (case e of
        AtTimeout \<Rightarrow> Some (-1)
      | AtHangup \<Rightarrow> Some (-1)
      | AtAborted \<Rightarrow> Some (-2)
      | AtReadError \<Rightarrow> Some (-1)
      | AtOther \<Rightarrow> at_loop es buf idx
      | AtData d \<Rightarrow> do {
          let d = take (AT_BUFFER - idx) d;
          if d = [] then Some (-1)
          else do {
            let buf = take idx buf @ d @ drop (idx + length d) buf;
            let idx = idx + length d;
            ASSERT (idx < AT_BUFFER);
            (ret, buf, idx) \<leftarrow> parse_lines (buf[idx := NUL]) idx;
            if ret > 0 then at_loop es buf idx else Some ret
          }
        })"

text \<open>\<open>garbage\<close> is what the uninitialised buffer holds, \<open>len\<close> what \<open>write\<close> answers.\<close>

definition crm_send_at :: "string \<Rightarrow> string \<Rightarrow> int \<Rightarrow> at_poll list \<Rightarrow> int option" where
  "crm_send_at garbage at_cmd len es = do {
     let line = at_cmd @ [CR, LF];
     ASSERT (length line < AT_BUFFER);
     let buf = line @ [NUL] @ drop (length line + 1) garbage;
     if len \<noteq> int (length line) then Some (-1) else at_loop es buf 0
   }"

section \<open>The ping\<close>

text \<open>
  An attempt: what \<open>open\<close> answers, whether the terminal could be configured, the exchange of the AT
  command, the time left after it and whether the caller asks to stop while it waits.
\<close>

record ping_try =
  pt_open :: int
  pt_tty :: bool
  pt_garbage :: string
  pt_write :: int
  pt_answer :: "at_poll list"
  pt_remain :: int
  pt_abort :: bool

text \<open>\<open>None\<close> when the attempts end before a result.\<close>

fun ping_loop :: "ping_try list \<Rightarrow> bool \<Rightarrow> int option" where
  "ping_loop [] is_tty = None"
| "ping_loop (t # ts) is_tty = do {
     r \<leftarrow> (if pt_open t \<ge> 0
          then do {
            ASSERT (is_tty \<longrightarrow> pt_tty t);
            err \<leftarrow> crm_send_at (pt_garbage t) ''ATE0'' (pt_write t) (pt_answer t);
            Some (if err = 0 then Some (pt_open t) else if -2 = err then Some (-2) else None)
          }
          else Some None);
     (case r of
        Some v \<Rightarrow> Some v
      | None \<Rightarrow> if pt_remain t \<le> 0 then Some (-1) else if pt_abort t then Some (-2) else ping_loop ts is_tty)
   }"

definition crm_hal_ping_modem :: "int \<Rightarrow> bool \<Rightarrow> ping_try list \<Rightarrow> int option" where
  "crm_hal_ping_modem ping_timeout is_tty ts = do { ASSERT (ping_timeout > 0); ping_loop ts is_tty }"

section \<open>Whole lines\<close>

text \<open>A line of the modem: no end of line and no terminator inside.\<close>

definition line_ok :: "string \<Rightarrow> bool" where
  "line_ok l \<longleftrightarrow> CR \<notin> set l \<and> LF \<notin> set l \<and> NUL \<notin> set l"

definition text_of :: "string list \<Rightarrow> string" where
  "text_of ls = concat (map (\<lambda>l. l @ [CR, LF]) ls)"

text \<open>What the exchange has to answer: the first final line decides.\<close>

fun verdict :: "string list \<Rightarrow> int" where
  "verdict [] = 1"
| "verdict (l # ls) = (if l = ''OK'' then 0 else if l = ''ERROR'' then -1 else verdict ls)"

lemma c_str_app: "NUL \<notin> set xs \<Longrightarrow> c_str (xs @ ys) = xs @ c_str ys"
  by (induction xs) (auto simp: c_str_def)

lemma c_str_NUL: "NUL \<notin> set xs \<Longrightarrow> c_str (xs @ NUL # ys) = xs"
  by (simp add: c_str_app) (simp add: c_str_def)

lemma find_crlf_line: "CR \<notin> set l \<Longrightarrow> find_crlf (l @ CR # LF # s) = Some (length l)"
proof (induction l)
  case Nil
  then show ?case by simp
next
  case (Cons x l)
  then show ?case by (cases l) auto
qed

lemma find_crlf_none: "CR \<notin> set l \<Longrightarrow> find_crlf l = None"
  by (induction l rule: find_crlf.induct) auto

lemma parse_whole_lines:
  assumes "\<forall>l \<in> set ls. line_ok l" "buf = text_of ls @ rest" "find_crlf (c_str buf) = None \<or> ls \<noteq> []"
  shows "\<exists>buf' i. parse_lines buf (length (text_of ls)) = Some (verdict ls, buf', i) \<and> length buf' = length buf \<and> (verdict ls = 1 \<longrightarrow> i = 0)"
  using assms
proof (induction ls arbitrary: buf rest)
  case Nil
  then show ?case by (subst parse_lines.simps) (simp add: text_of_def)
next
  case (Cons l ls)
  have l: "CR \<notin> set l" "LF \<notin> set l" "NUL \<notin> set l" using Cons.prems(1) by (auto simp: line_ok_def)
  have t: "text_of (l # ls) = l @ [CR, LF] @ text_of ls" by (simp add: text_of_def)
  have "c_str buf = l @ CR # LF # c_str (text_of ls @ rest)"
    unfolding Cons.prems(2) t using l by (simp add: c_str_app) (simp add: c_str_def)
  then have f: "find_crlf (c_str buf) = Some (length l)" using l(1) find_crlf_line by simp
  have b: "buf[length l := NUL] = l @ [NUL, LF] @ text_of ls @ rest"
    unfolding Cons.prems(2) t by simp
  have cs: "c_str (buf[length l := NUL]) = l" unfolding b using l(3) c_str_NUL by simp
  show ?case
  proof (cases "l = ''OK'' \<or> l = ''ERROR''")
    case True
    then show ?thesis using f cs by (subst parse_lines.simps) auto
  next
    case False
    let ?b = "memmove_front (buf[length l := NUL]) (length l + 2) (length (text_of ls))"
    have m: "?b = text_of ls @ drop (length (text_of ls)) (buf[length l := NUL])"
      unfolding b memmove_front_def by simp
    have lb: "length (text_of ls) \<le> length buf" unfolding Cons.prems(2) t by simp
    have p: "parse_lines buf (length (text_of (l # ls))) = parse_lines ?b (length (text_of ls))"
      using f cs False t by (subst parse_lines.simps) (simp del: parse_lines.simps)
    have "find_crlf (c_str ?b) = None \<or> ls \<noteq> []"
    proof (cases "ls = []")
      case True
      then have "?b = buf[length l := NUL]" unfolding m by (simp add: text_of_def)
      then show ?thesis using cs find_crlf_none [OF l(1)] by simp
    qed simp
    from Cons.IH [OF _ m this] Cons.prems(1) obtain buf' i where
      "parse_lines ?b (length (text_of ls)) = Some (verdict ls, buf', i)" "length buf' = length ?b" "verdict ls = 1 \<longrightarrow> i = 0"
      by auto
    moreover have "length ?b = length buf" unfolding m using lb by simp
    ultimately show ?thesis using p False by auto
  qed
qed


lemma verdict_append: "verdict (xs @ ys) = (if verdict xs = 1 then verdict ys else verdict xs)"
  by (induction xs) auto

lemma verdict_cases: "verdict ls = 1 \<or> verdict ls = 0 \<or> verdict ls = -1"
  by (induction ls) auto

lemma at_loop_data:
  assumes "d \<noteq> []" "length d < AT_BUFFER"
  shows "at_loop (AtData d # es) buf 0 = Option.bind (parse_lines ((d @ drop (length d) buf)[length d := NUL]) (length d))
    (\<lambda>(ret, buf, idx). if ret > 0 then at_loop es buf idx else Some ret)"
  using assms by (simp add: Let_def del: parse_lines.simps)

lemma at_loop_lines:
  assumes "\<forall>ls \<in> set chunks. ls \<noteq> [] \<and> (\<forall>l \<in> set ls. line_ok l) \<and> length (text_of ls) < AT_BUFFER" "length buf = AT_BUFFER"
  shows "at_loop (map (\<lambda>ls. AtData (text_of ls)) chunks @ [AtTimeout]) buf 0 =
    Some (if verdict (concat chunks) = 1 then -1 else verdict (concat chunks))"
  using assms
proof (induction chunks arbitrary: buf)
  case Nil
  then show ?case by simp
next
  case (Cons ls chunks)
  let ?d = "text_of ls"
  let ?b = "(?d @ drop (length ?d) buf)[length ?d := NUL]"
  have d: "length ?d < AT_BUFFER" "?d \<noteq> []" using Cons.prems(1) by (auto simp: text_of_def)
  have "drop (length ?d) buf \<noteq> []" using d(1) Cons.prems(2) by simp
  then obtain r where b: "?b = ?d @ NUL # r" by (cases "drop (length ?d) buf") auto
  obtain buf' i where p: "parse_lines ?b (length ?d) = Some (verdict ls, buf', i)" "length buf' = length ?b" "verdict ls = 1 \<longrightarrow> i = 0"
    using parse_whole_lines [of ls ?b "NUL # r"] Cons.prems(1) b by auto
  have l: "length buf' = AT_BUFFER" using p(2) d(1) Cons.prems(2) by simp
  show ?case
  proof (cases "verdict ls = 1")
    case True
    then show ?thesis using p d Cons.IH [of buf'] Cons.prems(1) l by (simp add: verdict_append del: parse_lines.simps)
  next
    case False
    then have "verdict ls \<le> 0" using verdict_cases [of ls] by auto
    then show ?thesis using p(1) d False by (simp add: verdict_append del: parse_lines.simps)
  qed
qed

text \<open>
  An answer that arrives in whole lines, in whatever chunks, is read correctly: the exchange
  succeeds exactly when the first final line is OK, fails when it is ERROR or when the time is over
  before a final line, and every line is read however long the lines before it were.
\<close>

theorem crm_send_at_answer:
  assumes "length at_cmd + 2 < AT_BUFFER" "length garbage = AT_BUFFER"
    and "\<forall>ls \<in> set chunks. ls \<noteq> [] \<and> (\<forall>l \<in> set ls. line_ok l) \<and> length (text_of ls) < AT_BUFFER"
  shows "crm_send_at garbage at_cmd (int (length at_cmd) + 2) (map (\<lambda>ls. AtData (text_of ls)) chunks @ [AtTimeout]) =
    Some (if verdict (concat chunks) = 1 then -1 else verdict (concat chunks))"
proof -
  let ?b = "at_cmd @ CR # LF # NUL # drop (length at_cmd + 3) garbage"
  have "length ?b = AT_BUFFER" using assms(1,2) by simp
  from at_loop_lines [OF assms(3) this] assms(1) show ?thesis by (simp add: crm_send_at_def numeral_3_eq_3)
qed

theorem crm_send_at_answer_witness:
  "crm_send_at (replicate 2048 NUL) ''ATE0'' 6 [AtData (text_of [''ATE0'', '''']), AtData (text_of [''OK'']), AtTimeout] = Some 0"
  using crm_send_at_answer [of "''ATE0''" "replicate 2048 NUL" "[[''ATE0'', ''''], [''OK'']]"]
  by (simp add: line_ok_def text_of_def)

text \<open>
  C38: an answer that arrives cut between the two characters that end its second line corrupts the
  memory of CRM when the two lines have the same length: what the first move leaves in the buffer
  completes the end of line, the line is taken before its last character has arrived, and the number
  of bytes left, unsigned, wraps around in the next move.
\<close>

theorem at_split_line_corrupts:
  assumes "length at_cmd + 2 < AT_BUFFER" "length garbage = AT_BUFFER"
    and "line_ok a" "line_ok b" "length b = length a" "a \<notin> {''OK'', ''ERROR''}" "b \<notin> {''OK'', ''ERROR''}" "2 * length a + 3 < AT_BUFFER"
  shows "crm_send_at garbage at_cmd (int (length at_cmd) + 2) (AtData (a @ [CR, LF] @ b @ [CR]) # es) = None"
proof -
  let ?n = "length a"
  have l: "CR \<notin> set a" "NUL \<notin> set a" "CR \<notin> set b" "NUL \<notin> set b" using assms(3,4) by (auto simp: line_ok_def)
  define buf where "buf = at_cmd @ CR # LF # NUL # drop (length at_cmd + 3) garbage"
  have "length buf = AT_BUFFER" using assms(1,2) by (simp add: buf_def)
  then have "drop (2 * ?n + 3) buf \<noteq> []" using assms(8) by simp
  then obtain x r where x: "drop (2 * ?n + 3) buf = x # r" by (cases "drop (2 * ?n + 3) buf") auto
  let ?b1 = "a @ [CR, LF] @ b @ [CR] @ NUL # r"
  let ?b2 = "b @ [CR, LF] @ b @ [CR] @ NUL # r"
  have c1: "c_str ?b1 = a @ CR # LF # b @ [CR]" "c_str ?b2 = b @ CR # LF # b @ [CR]"
    using l c_str_NUL [of "a @ CR # LF # b @ [CR]" r] c_str_NUL [of "b @ CR # LF # b @ [CR]" r] by simp_all
  have u: "?b1[?n := NUL] = a @ NUL # LF # b @ CR # NUL # r" "?b2[?n := NUL] = b @ NUL # LF # b @ CR # NUL # r"
    using assms(5) list_update_length [of a CR "LF # b @ CR # NUL # r" NUL] list_update_length [of b CR "LF # b @ CR # NUL # r" NUL] by simp_all
  have m: "memmove_front (?b1[?n := NUL]) (?n + 2) (?n + 1) = ?b2"
    unfolding u memmove_front_def using assms(5) by simp
  have "parse_lines ?b2 (?n + 1) = None"
    using c1(2) find_crlf_line [OF l(3), of "b @ [CR]"] u(2) c_str_NUL [OF l(4)] assms(5,7)
    by (subst parse_lines.simps) simp
  moreover have "parse_lines ?b1 (2 * ?n + 3) = parse_lines ?b2 (?n + 1)"
    using c1(1) find_crlf_line [OF l(1), of "b @ [CR]"] u(1) c_str_NUL [OF l(2)] m assms(6)
    by (subst parse_lines.simps) (simp del: parse_lines.simps)
  ultimately have z: "parse_lines ?b1 (2 * ?n + 3) = None" by simp
  define d where "d = a @ [CR, LF] @ b @ [CR]"
  have d: "length d = 2 * ?n + 3" "d \<noteq> []" using assms(5) by (simp_all add: d_def)
  have "(d @ drop (2 * ?n + 3) buf)[2 * ?n + 3 := NUL] = ?b1"
    using list_update_length [of d x r NUL] unfolding x d(1) by (simp add: d_def)
  then have "at_loop (AtData d # es) buf 0 = None"
    using at_loop_data [OF d(2), of es buf] assms(8) z unfolding d(1) by (simp del: parse_lines.simps at_loop.simps)
  then show ?thesis
    using assms(1) unfolding d_def buf_def by (simp add: crm_send_at_def numeral_3_eq_3 del: at_loop.simps)
qed

theorem at_split_line_corrupts_witness:
  "crm_send_at (replicate 2048 NUL) ''ATE0'' 6 [AtData (''AB'' @ [CR, LF] @ ''CD'' @ [CR]), AtData [LF], AtTimeout] = None"
  using at_split_line_corrupts [of "''ATE0''" "replicate 2048 NUL" "''AB''" "''CD''" "[AtData [LF], AtTimeout]"] by (simp add: line_ok_def)

end
