(* ===== verification/Crm_Custom.thy ===== *)
theory Crm_Custom
  imports Crm_Text Crm_Mdmcli Crm_At
begin

text \<open>
  plugins/customization/src/customization.c: the customization files (TLV) are sent to the modem, in chunks of 256 bytes,
  as AT commands with \<open>crm_send_at\<close>. What the exchange of each command of the run meets is the argument \<open>at\<close>: what the
  buffer of \<open>crm_send_at\<close> holds before, what its \<open>write\<close> answers and what its polls bring; the commands are appended to a trace. \<open>decode_cmd\<close> is what the modem makes of a command.
\<close>

section \<open>Commands\<close>

abbreviation (input) TLV_CHUNK :: nat where "TLV_CHUNK \<equiv> 256"
abbreviation (input) TLV_ENCODED_CHUNK :: nat where "TLV_ENCODED_CHUNK \<equiv> 1124"

definition gti_header :: "nat \<Rightarrow> string" where
  "gti_header off = ''AT@gticom:config_script['' @ print_num 10 off @ '']={''"

text \<open>The bytes of a chunk are appended to the command; a command that does not fit its buffer aborts.\<close>

fun add_bytes :: "string \<Rightarrow> string \<Rightarrow> string option" where
  "add_bytes gti_cmd [] = Some gti_cmd"
| "add_bytes gti_cmd (b # chunk) = do {
     let gti_cmd = gti_cmd @ print_num 10 (of_char b) @ '','';
     ASSERT (length gti_cmd < TLV_ENCODED_CHUNK);
     add_bytes gti_cmd chunk
   }"

definition encode_chunk :: "nat \<Rightarrow> string \<Rightarrow> string option" where
  "encode_chunk off chunk = do {
     gti_cmd \<leftarrow> add_bytes (gti_header off) chunk;
     ASSERT (length gti_cmd > 0);
     let gti_cmd = butlast gti_cmd @ ''}'';
     ASSERT (length gti_cmd < TLV_ENCODED_CHUNK);
     Some gti_cmd
   }"

section \<open>Sending\<close>

definition nb_chunks :: "string \<Rightarrow> nat" where
  "nb_chunks tlv_data = (length tlv_data + TLV_CHUNK - 1) div TLV_CHUNK"

definition chunk_of :: "string \<Rightarrow> nat \<Rightarrow> string" where
  "chunk_of tlv_data i = take (min TLV_CHUNK (length tlv_data - i * TLV_CHUNK)) (drop (i * TLV_CHUNK) tlv_data)"

type_synonym at_env = "nat \<Rightarrow> string \<Rightarrow> string \<times> int \<times> at_poll list"

definition at_answer :: "at_env \<Rightarrow> nat \<Rightarrow> string \<Rightarrow> int option" where
  "at_answer at i cmd = (case at i cmd of (garbage, len, es) \<Rightarrow> crm_send_at garbage cmd len es)"

definition send_at :: "at_env \<Rightarrow> string \<Rightarrow> string list \<Rightarrow> (int \<times> string list) option" where
  "send_at at cmd tr = do {
     err \<leftarrow> at_answer at (length tr) cmd;
     Some (err, tr @ [cmd])
   }"

fun send_chunks :: "at_env \<Rightarrow> string \<Rightarrow> nat list \<Rightarrow> string list \<Rightarrow> (int \<times> string list) option" where
  "send_chunks at tlv_data [] tr = Some (0, tr)"
| "send_chunks at tlv_data (i # is) tr = do {
     cmd \<leftarrow> encode_chunk (i * TLV_CHUNK) (chunk_of tlv_data i);
     (err, tr) \<leftarrow> send_at at cmd tr;
     if err = 0 then send_chunks at tlv_data is tr else Some (err, tr)
   }"

abbreviation (input) RUN_CMD :: string where "RUN_CMD \<equiv> ''AT@gticom:run_configuration()''"

definition send_tlv :: "at_env \<Rightarrow> string \<Rightarrow> string list \<Rightarrow> (int \<times> string list) option" where
  "send_tlv at tlv_data tr = do {
     (err, tr) \<leftarrow> send_chunks at tlv_data [0..<nb_chunks tlv_data] tr;
     if err = 0 then send_at at RUN_CMD tr else Some (err, tr)
   }"

section \<open>The thread\<close>

datatype custo_out = CuNotify mdm_cli_dbg_info | CuStatus int | CuThread

record customization =
  cu_tlvs :: "string list option"
  cu_ongoing :: bool
  cu_out :: "custo_out list"

definition cu_emit :: "custo_out \<Rightarrow> customization \<Rightarrow> customization" where
  "cu_emit x c = c\<lparr>cu_out := cu_out c @ [x]\<rparr>"

definition tlv_failure :: "mdm_cli \<Rightarrow> string \<Rightarrow> mdm_cli_dbg_info" where
  "tlv_failure k path = mk_dbg (DBG_TYPE_ERROR k) (DBG_DEFAULT_LOG_SIZE k) (DBG_DEFAULT_LOG_SIZE k) (DBG_DEFAULT_LOG_TIME k)
     [str_bytes ''TFT_ERROR_TLV'', str_bytes ''TLV failure: failed to apply TLV'', str_bytes path]"

text \<open>\<open>load_tlv_file\<close> aborts when the file cannot be read; \<open>fs\<close> gives the contents of the files that can.\<close>

fun send_tlvs :: "mdm_cli \<Rightarrow> (string \<Rightarrow> string option) \<Rightarrow> at_env \<Rightarrow> string list \<Rightarrow> customization \<times> string list \<Rightarrow> (int \<times> customization \<times> string list) option" where
  "send_tlvs k fs at [] (c, tr) = Some (0, c, tr)"
| "send_tlvs k fs at (tlv # tlvs) (c, tr) = do {
     tlv_data \<leftarrow> fs tlv;
     (err, tr) \<leftarrow> send_tlv at tlv_data tr;
     if err = 0 then send_tlvs k fs at tlvs (c, tr)
     else Some (err, cu_emit (CuNotify (tlv_failure k tlv)) c, tr)
   }"

text \<open>\<open>opened\<close>, \<open>closed\<close>: the device of the modem.\<close>

definition write_tlvs ::
  "mdm_cli \<Rightarrow> (string \<Rightarrow> string option) \<Rightarrow> at_env \<Rightarrow> bool \<Rightarrow> bool \<Rightarrow> customization \<Rightarrow> (customization \<times> string list) option" where
  "write_tlvs k fs at opened closed c = do {
     tlvs \<leftarrow> cu_tlvs c;
     ASSERT (\<not> cu_ongoing c);
     let c = c\<lparr>cu_ongoing := True\<rparr>;
     ASSERT opened;
     (err, c, tr) \<leftarrow> send_tlvs k fs at tlvs (c, []);
     let c = c\<lparr>cu_tlvs := None\<rparr>;
     ASSERT closed;
     Some (cu_emit (CuStatus err) (c\<lparr>cu_ongoing := False\<rparr>), tr)
   }"

definition custo_send :: "string list \<Rightarrow> customization \<Rightarrow> customization option" where
  "custo_send tlv_list c = do {
     ASSERT (tlv_list \<noteq> []);
     ASSERT (\<not> cu_ongoing c);
     ASSERT (cu_tlvs c = None);
     Some (cu_emit CuThread (c\<lparr>cu_tlvs := Some tlv_list\<rparr>))
   }"

definition crm_customization_init :: customization where
  "crm_customization_init = \<lparr>cu_tlvs = None, cu_ongoing = False, cu_out = []\<rparr>"

section \<open>The modem\<close>

function split_commas :: "string \<Rightarrow> string list" where
  "split_commas s = (let p = takeWhile (\<lambda>c. c \<noteq> CHR '','') s; r = dropWhile (\<lambda>c. c \<noteq> CHR '','') s
     in if r = [] then [p] else p # split_commas (tl r))"
  by pat_completeness auto
termination
proof (relation "measure length", simp, goal_cases)
  case (1 s p r)
  then have "length r \<le> length s" "0 < length r" by (simp_all add: length_dropWhile_le)
  then have "length r - 1 < length s" by linarith
  then show ?case using 1 by simp
qed

declare split_commas.simps [simp del]

datatype gti = Script nat "nat list" | Run

definition decode_cmd :: "string \<Rightarrow> gti option" where
  "decode_cmd s =
     (if s = RUN_CMD then Some Run
      else if take 24 s = ''AT@gticom:config_script['' \<and> CHR '']'' \<in> set s \<and> last s = CHR ''}''
      then let r = drop 24 s; off = takeWhile (\<lambda>c. c \<noteq> CHR '']'') r
           in Some (Script (read_num 10 off) (map (read_num 10) (split_commas (butlast (drop (length off + 3) r)))))
      else None)"

text \<open>
  A script is written into the memory of the modem piece by piece, each where it belongs, and is then run: the result is the list
  of the scripts that have been run.
\<close>

definition write_at :: "nat \<Rightarrow> 'a list \<Rightarrow> 'a list \<Rightarrow> 'a list" where
  "write_at off bs mem = take off mem @ bs @ drop (off + length bs) mem"

fun modem :: "string list \<Rightarrow> nat list \<Rightarrow> nat list list option" where
  "modem [] mem = Some []"
| "modem (s # ss) mem =
     (case decode_cmd s of
        None \<Rightarrow> None
      | Some Run \<Rightarrow> map_option ((#) mem) (modem ss [])
      | Some (Script off bs) \<Rightarrow> modem ss (write_at off bs mem))"

section \<open>What the modem gets\<close>

definition body_of :: "string \<Rightarrow> string" where
  "body_of chunk = concat (map (\<lambda>b. print_num 10 (of_char b) @ '','') chunk)"

lemma body_simps [simp]: "body_of [] = []" "body_of (b # chunk) = print_num 10 (of_char b) @ '','' @ body_of chunk"
  by (simp_all add: body_of_def)

lemma of_char_lt: "of_char c < (256::nat)"
  using of_char_mod_256 [of c, where ?'a = nat] by (metis mod_less_divisor zero_less_numeral)

lemma length_byte: "length (print_num 10 (of_char b)) \<le> 3"
  using length_print_num [of 10 "of_char b" 3] of_char_lt [of b] by simp

lemma add_bytes_ok:
  assumes "length cmd + 4 * length chunk < TLV_ENCODED_CHUNK"
  shows "add_bytes cmd chunk = Some (cmd @ body_of chunk)"
  using assms
proof (induction chunk arbitrary: cmd)
  case (Cons b chunk)
  have "length (cmd @ print_num 10 (of_char b) @ '','') + 4 * length chunk < TLV_ENCODED_CHUNK"
    using Cons(2) length_byte [of b] by simp
  from Cons(1) [OF this] this show ?case by simp
qed simp

lemma length_body: "length (body_of chunk) \<le> 4 * length chunk"
proof (induction chunk)
  case (Cons b chunk)
  then show ?case using length_byte [of b] by simp
qed simp

lemma body_ne: "chunk \<noteq> [] \<Longrightarrow> body_of chunk \<noteq> []"
  by (cases chunk) simp_all

lemma length_header: "off < 10 ^ 20 \<Longrightarrow> length (gti_header off) \<le> 47"
  using length_print_num [of 10 off 20] by (simp add: gti_header_def)

lemma encode_ok:
  assumes "off < 10 ^ 20" "chunk \<noteq> []" "length chunk \<le> TLV_CHUNK"
  shows "encode_chunk off chunk = Some (gti_header off @ butlast (body_of chunk) @ ''}'')"
proof -
  have "length (gti_header off) + 4 * length chunk < TLV_ENCODED_CHUNK" using length_header [OF assms(1)] assms(3) by linarith
  from add_bytes_ok [OF this] body_ne [OF assms(2)] length_body [of chunk] this show ?thesis
    by (simp add: encode_chunk_def butlast_append Let_def)
qed

lemma digit_char_sep:
  assumes "d < 10"
  shows "digit_char d \<noteq> CHR '',''" "digit_char d \<noteq> CHR '']''"
proof -
  have "of_char (digit_char d) = 48 + d" using assms by (simp add: digit_char_def)
  then have "of_char (digit_char d) \<noteq> (44::nat)" "of_char (digit_char d) \<noteq> (93::nat)" using assms by simp_all
  then show "digit_char d \<noteq> CHR '',''" "digit_char d \<noteq> CHR '']''" by auto
qed

lemma num_no_sep: "CHR '','' \<notin> set (print_num 10 v)" "CHR '']'' \<notin> set (print_num 10 v)"
  using digits_lt [of 10 _ v] digit_char_sep by (fastforce simp: print_num_def)+

lemma split_one: "CHR '','' \<notin> set p \<Longrightarrow> split_commas p = [p]"
  by (subst split_commas.simps) (auto simp: Let_def takeWhile_eq_all_conv dropWhile_eq_Nil_conv)

lemma split_next:
  assumes "CHR '','' \<notin> set p"
  shows "split_commas (p @ CHR '','' # r) = p # split_commas r"
proof -
  have "takeWhile (\<lambda>c. c \<noteq> CHR '','') (p @ CHR '','' # r) = p" by (rule takeWhile_sep [OF assms])
  moreover have "dropWhile (\<lambda>c. c \<noteq> CHR '','') (p @ CHR '','' # r) = CHR '','' # r" using assms by (subst dropWhile_append2) auto
  ultimately show ?thesis by (subst split_commas.simps) (simp add: Let_def)
qed

lemma split_body: "chunk \<noteq> [] \<Longrightarrow> map (read_num 10) (split_commas (butlast (body_of chunk))) = map of_char chunk"
proof (induction chunk)
  case (Cons b chunk)
  show ?case
  proof (cases "chunk = []")
    case True
    then show ?thesis using split_one [OF num_no_sep(1)] read_print_num [of 10] by (simp add: butlast_append)
  next
    case False
    then have "butlast (body_of (b # chunk)) = print_num 10 (of_char b) @ CHR '','' # butlast (body_of chunk)"
      using body_ne by (simp add: butlast_append)
    with Cons(1) [OF False] split_next [OF num_no_sep(1)] read_print_num [of 10] show ?thesis by simp
  qed
qed simp

lemma decode_encoded:
  assumes "chunk \<noteq> []"
  shows "decode_cmd (gti_header off @ butlast (body_of chunk) @ ''}'') = Some (Script off (map of_char chunk))" (is "decode_cmd ?s = _")
proof -
  have t: "take 24 ?s = ''AT@gticom:config_script[''" "drop 24 ?s = print_num 10 off @ CHR '']'' # ''={'' @ butlast (body_of chunk) @ ''}''"
    by (simp_all add: gti_header_def)
  have w: "takeWhile (\<lambda>c. c \<noteq> CHR '']'') (drop 24 ?s) = print_num 10 off" unfolding t(2) by (rule takeWhile_sep [OF num_no_sep(2)])
  have "?s \<noteq> RUN_CMD" using t(1) by (auto simp: gti_header_def)
  moreover have "CHR '']'' \<in> set ?s" "last ?s = CHR ''}''" by (simp_all add: gti_header_def)
  moreover have "butlast (drop (length (print_num 10 off) + 3) (drop 24 ?s)) = butlast (body_of chunk)"
    unfolding t(2) by (simp add: numeral_3_eq_3 butlast_append)
  ultimately show ?thesis unfolding decode_cmd_def Let_def w using t(1) split_body [OF assms] read_print_num [of 10 off] by simp
qed

lemma chunk_eq: "chunk_of d i = take TLV_CHUNK (drop (i * TLV_CHUNK) d)"
  by (simp add: chunk_of_def min_def)

lemma chunk_props:
  assumes "i < nb_chunks d"
  shows "chunk_of d i \<noteq> []" "length (chunk_of d i) \<le> TLV_CHUNK" "i * TLV_CHUNK < length d"
proof -
  have "i + 1 \<le> (length d + 255) div 256" using assms by (simp add: nb_chunks_def)
  then have "(i + 1) * 256 \<le> length d + 255" by (metis div_le_dividend le_trans mult_le_mono1 div_times_less_eq_dividend)
  then show l: "i * TLV_CHUNK < length d" by simp
  then show "chunk_of d i \<noteq> []" "length (chunk_of d i) \<le> TLV_CHUNK" by (simp_all add: chunk_eq)
qed

lemma write_chunk:
  assumes "i < nb_chunks d"
  shows "write_at (i * TLV_CHUNK) (map f (chunk_of d i)) (map f (take (i * TLV_CHUNK) d)) = map f (take (Suc i * TLV_CHUNK) d)"
proof -
  have "take (Suc i * TLV_CHUNK) d = take (i * TLV_CHUNK) d @ chunk_of d i"
    by (simp add: chunk_eq take_add [symmetric] add.commute)
  then show ?thesis using chunk_props(3) [OF assms] by (simp add: write_at_def)
qed

lemma chunks_all: "take (nb_chunks d * TLV_CHUNK) d = d"
proof -
  have "length d \<le> nb_chunks d * TLV_CHUNK" unfolding nb_chunks_def by linarith
  then show ?thesis by simp
qed

lemma send_chunks_from:
  assumes "i \<le> nb_chunks d" "length d < 10 ^ 20" "send_chunks at d [i..<nb_chunks d] tr = Some (err, tr')"
  shows "\<exists>cs. tr' = tr @ cs \<and>
    (err = 0 \<longrightarrow> (\<forall>rest. modem (cs @ rest) (map of_char (take (i * TLV_CHUNK) d)) = modem rest (map of_char d))) \<and>
    (err \<noteq> 0 \<longrightarrow> cs \<noteq> [] \<and> modem (butlast cs) (map of_char (take (i * TLV_CHUNK) d)) = Some [])"
  using assms(1,3)
proof (induction "nb_chunks d - i" arbitrary: i tr)
  case 0
  then have "i = nb_chunks d" by simp
  then show ?case using chunks_all [of d] 0 by (intro exI [of _ "[]"]) simp
next
  case (Suc n)
  then have i: "i < nb_chunks d" by simp
  note p = chunk_props [OF i]
  have off: "i * TLV_CHUNK < 10 ^ 20" using p(3) assms(2) by linarith
  define cmd where "cmd = gti_header (i * TLV_CHUNK) @ butlast (body_of (chunk_of d i)) @ ''}''"
  have e: "encode_chunk (i * TLV_CHUNK) (chunk_of d i) = Some cmd" unfolding cmd_def by (rule encode_ok [OF off p(1,2)])
  have m: "modem (cmd # rest) (map of_char (take (i * TLV_CHUNK) d)) = modem rest (map of_char (take (Suc i * TLV_CHUNK) d))" for rest
    using decode_encoded [OF p(1)] write_chunk [OF i, where f = "of_char :: char \<Rightarrow> nat"] by (simp add: cmd_def)
  have up: "[i..<nb_chunks d] = i # [Suc i..<nb_chunks d]" using i by (rule upt_conv_Cons)
  obtain r where r: "at_answer at (length tr) cmd = Some r"
    "(if r = 0 then send_chunks at d [Suc i..<nb_chunks d] (tr @ [cmd]) else Some (r, tr @ [cmd])) = Some (err, tr')"
    using Suc.prems(2) by (auto simp: up e send_at_def bind_Some_iff)
  show ?case
  proof (cases "r = 0")
    case False
    then show ?thesis using r(2) by (intro exI [of _ "[cmd]"]) simp
  next
    case True
    with r(2) have s: "send_chunks at d [Suc i..<nb_chunks d] (tr @ [cmd]) = Some (err, tr')" by simp
    from Suc have "n = nb_chunks d - Suc i" "Suc i \<le> nb_chunks d" by simp_all
    from Suc(1) [OF this s] obtain cs where c: "tr' = (tr @ [cmd]) @ cs"
      "err = 0 \<longrightarrow> (\<forall>rest. modem (cs @ rest) (map of_char (take (Suc i * TLV_CHUNK) d)) = modem rest (map of_char d))"
      "err \<noteq> 0 \<longrightarrow> cs \<noteq> [] \<and> modem (butlast cs) (map of_char (take (Suc i * TLV_CHUNK) d)) = Some []" by (elim exE conjE)
    with m show ?thesis by (intro exI [of _ "cmd # cs"]) (simp del: modem.simps)
  qed
qed

lemma send_tlv_result:
  assumes "length d < 10 ^ 20" "send_tlv at d tr = Some (err, tr')"
  shows "\<exists>cs. tr' = tr @ cs \<and>
    (err = 0 \<longrightarrow> (\<forall>rest. modem (cs @ rest) [] = map_option ((#) (map of_char d)) (modem rest []))) \<and>
    (err \<noteq> 0 \<longrightarrow> cs \<noteq> [] \<and> modem (butlast cs) [] = Some [])"
proof -
  obtain e tr1 where s: "send_chunks at d [0..<nb_chunks d] tr = Some (e, tr1)"
    "(if e = 0 then send_at at RUN_CMD tr1 else Some (e, tr1)) = Some (err, tr')"
    using assms(2) by (auto simp: send_tlv_def bind_Some_iff)
  from send_chunks_from [OF _ assms(1) s(1)] obtain cs where c: "tr1 = tr @ cs"
    "e = 0 \<longrightarrow> (\<forall>rest. modem (cs @ rest) [] = modem rest (map of_char d))" "e \<noteq> 0 \<longrightarrow> cs \<noteq> [] \<and> modem (butlast cs) [] = Some []"
    by auto
  show ?thesis
  proof (cases "e = 0")
    case True
    have r: "decode_cmd RUN_CMD = Some Run" by (simp add: decode_cmd_def)
    have "tr' = tr @ (cs @ [RUN_CMD])" using True s(2) c(1) by (auto simp: send_at_def bind_Some_iff)
    moreover from True c(2) have "modem cs [] = modem [] (map of_char d)" by (metis append_Nil2)
    then have "modem cs [] = Some []" by simp
    ultimately show ?thesis using True c r by (intro exI [of _ "cs @ [RUN_CMD]"]) simp
  next
    case False
    with c s(2) show ?thesis by (intro exI [of _ cs]) simp
  qed
qed

lemma send_tlvs_result:
  assumes "\<forall>f \<in> set tlvs. \<exists>d. fs f = Some d \<and> length d < 10 ^ 20" "send_tlvs k fs at tlvs (c, tr) = Some (err, c', tr')"
  shows "\<exists>out cs. c' = c\<lparr>cu_out := cu_out c @ out\<rparr> \<and> tr' = tr @ cs \<and>
    (err = 0 \<longrightarrow> out = [] \<and> modem cs [] = Some (map (\<lambda>f. map of_char (the (fs f))) tlvs)) \<and>
    (err \<noteq> 0 \<longrightarrow> cs \<noteq> [] \<and> (\<exists>j < length tlvs. out = [CuNotify (tlv_failure k (tlvs ! j))] \<and>
       modem (butlast cs) [] = Some (map (\<lambda>f. map of_char (the (fs f))) (take j tlvs))))"
  using assms
proof (induction tlvs arbitrary: tr)
  case Nil
  then show ?case by (intro exI [of _ "[]"]) simp
next
  case (Cons f tlvs)
  then obtain d where d: "fs f = Some d" "length d < 10 ^ 20" by auto
  obtain e tr1 where s1: "send_tlv at d tr = Some (e, tr1)"
    "(if e = 0 then send_tlvs k fs at tlvs (c, tr1) else Some (e, cu_emit (CuNotify (tlv_failure k f)) c, tr1)) = Some (err, c', tr')"
    using Cons.prems(2) d(1) by (auto simp: bind_Some_iff)
  from send_tlv_result [OF d(2) s1(1)] obtain cs where s: "tr1 = tr @ cs"
    "e = 0 \<longrightarrow> (\<forall>rest. modem (cs @ rest) [] = map_option ((#) (map of_char d)) (modem rest []))"
    "e \<noteq> 0 \<longrightarrow> cs \<noteq> [] \<and> modem (butlast cs) [] = Some []" by (elim exE conjE)
  show ?case
  proof (cases "e = 0")
    case False
    with d s s1(2) show ?thesis
      by (intro exI [of _ "[CuNotify (tlv_failure k f)]"] exI [of _ cs]) (auto simp: cu_emit_def intro!: exI [of _ 0])
  next
    case True
    with s1(2) have n0: "send_tlvs k fs at tlvs (c, tr1) = Some (err, c', tr')" by simp
    from Cons have "\<forall>f \<in> set tlvs. \<exists>d. fs f = Some d \<and> length d < 10 ^ 20" by simp
    from Cons(1) [OF this n0] obtain out cs' where n: "c' = c\<lparr>cu_out := cu_out c @ out\<rparr>" "tr' = tr1 @ cs'"
      "err = 0 \<longrightarrow> out = [] \<and> modem cs' [] = Some (map (\<lambda>f. map of_char (the (fs f))) tlvs)"
      "err \<noteq> 0 \<longrightarrow> cs' \<noteq> [] \<and> (\<exists>j < length tlvs. out = [CuNotify (tlv_failure k (tlvs ! j))] \<and>
         modem (butlast cs') [] = Some (map (\<lambda>f. map of_char (the (fs f))) (take j tlvs)))" by (elim exE conjE)
    note a = s(2) [rule_format, OF True]
    have f: "\<exists>j < length (f # tlvs). out = [CuNotify (tlv_failure k ((f # tlvs) ! j))] \<and>
       modem (butlast (cs @ cs')) [] = Some (map (\<lambda>f. map of_char (the (fs f))) (take j (f # tlvs)))" if e: "err \<noteq> 0"
    proof -
      from n(4) e obtain j where j: "j < length tlvs" "out = [CuNotify (tlv_failure k (tlvs ! j))]"
        "modem (butlast cs') [] = Some (map (\<lambda>f. map of_char (the (fs f))) (take j tlvs))" by blast
      have "butlast (cs @ cs') = cs @ butlast cs'" using n(4) e by (simp add: butlast_append)
      with a [of "butlast cs'"] j d(1) show ?thesis by (intro exI [of _ "Suc j"]) simp
    qed
    show ?thesis
      using n(1-4) s(1) a [of cs'] d(1) f by (intro exI [of _ out] exI [of _ "cs @ cs'"]) simp
  qed
qed

text \<open>Only an exchange that aborts, or that does not return, keeps the thread from ending.\<close>

lemma send_chunks_ends:
  assumes "length d < 10 ^ 20" "set is \<subseteq> {..<nb_chunks d}" "send_chunks at d is tr = None"
  shows "\<exists>i cmd. length cmd < TLV_ENCODED_CHUNK \<and> at_answer at i cmd = None"
  using assms(2,3)
proof (induction "is" arbitrary: tr)
  case (Cons i "is")
  have i: "i < nb_chunks d" using Cons.prems(1) by simp
  note p = chunk_props [OF i]
  have "i * TLV_CHUNK < 10 ^ 20" using p(3) assms(1) by linarith
  then obtain cmd where e: "encode_chunk (i * TLV_CHUNK) (chunk_of d i) = Some cmd" using encode_ok [OF _ p(1,2)] by blast
  then have "length cmd < TLV_ENCODED_CHUNK" by (auto simp: encode_chunk_def bind_Some_iff Let_def split: if_splits)
  show ?case
  proof (cases "at_answer at (length tr) cmd")
    case None
    with \<open>length cmd < TLV_ENCODED_CHUNK\<close> show ?thesis by blast
  next
    case (Some r)
    then have "send_chunks at d is (tr @ [cmd]) = None" using Cons.prems(2) e by (simp add: send_at_def split: if_splits)
    then show ?thesis using Cons.IH Cons.prems(1) by simp
  qed
qed simp

lemma send_tlvs_ends:
  assumes "\<forall>f \<in> set tlvs. \<exists>d. fs f = Some d \<and> length d < 10 ^ 20" "send_tlvs k fs at tlvs (c, tr) = None"
  shows "\<exists>i cmd. length cmd < TLV_ENCODED_CHUNK \<and> at_answer at i cmd = None"
  using assms
proof (induction tlvs arbitrary: tr)
  case (Cons f tlvs)
  then obtain d where d: "fs f = Some d" "length d < 10 ^ 20" by auto
  show ?case
  proof (cases "send_tlv at d tr")
    case None
    show ?thesis
    proof (cases "send_chunks at d [0..<nb_chunks d] tr")
      case None
      then show ?thesis using send_chunks_ends [OF d(2), of "[0..<nb_chunks d]" at tr] by (simp add: atLeast0LessThan)
    next
      case (Some r)
      obtain e tr1 where r: "r = (e, tr1)" by (cases r)
      have "(if e = 0 then send_at at RUN_CMD tr1 else Some (e, tr1)) = None" using None Some by (simp add: send_tlv_def r)
      then have "send_at at RUN_CMD tr1 = None" by (simp split: if_splits)
      then have "at_answer at (length tr1) RUN_CMD = None" by (cases "at_answer at (length tr1) RUN_CMD") (simp_all add: send_at_def)
      moreover have "length RUN_CMD < TLV_ENCODED_CHUNK" by simp
      ultimately show ?thesis by (intro exI [of _ "length tr1"] exI [of _ RUN_CMD] conjI)
    qed
  next
    case (Some r)
    then have "send_tlvs k fs at tlvs (c, snd r) = None" using Cons.prems(2) d(1) by (cases r) (simp split: if_splits)
    then show ?thesis using Cons.IH Cons.prems(1) by simp
  qed
qed simp

text \<open>No command fails.\<close>

lemma send_chunks_no_err: "\<forall>i cmd r. at_answer at i cmd = Some r \<longrightarrow> r = 0 \<Longrightarrow> send_chunks at d is tr = Some (err, tr') \<Longrightarrow> err = 0"
proof (induction "is" arbitrary: tr)
  case (Cons i "is")
  then show ?case by (auto simp: bind_Some_iff send_at_def split: if_splits)
qed simp

lemma send_tlvs_no_err:
  "\<forall>i cmd r. at_answer at i cmd = Some r \<longrightarrow> r = 0 \<Longrightarrow> send_tlvs k fs at tlvs (c, tr) = Some (err, c', tr') \<Longrightarrow> err = 0"
proof (induction tlvs arbitrary: tr)
  case (Cons f tlvs)
  then show ?case by (auto simp: bind_Some_iff send_tlv_def send_at_def dest: send_chunks_no_err split: if_splits)
qed simp

lemma write_no_err:
  assumes "\<forall>i cmd r. at_answer at i cmd = Some r \<longrightarrow> r = 0" "write_tlvs k fs at True True c = Some (c', tr)"
  shows "last (cu_out c') = CuStatus 0"
  using assms by (auto simp: write_tlvs_def bind_Some_iff cu_emit_def Let_def dest: send_tlvs_no_err)

section \<open>Properties\<close>

text \<open>
  C17: the modem is customized with the files it was meant to get. Whatever the sizes and the contents of the files, and
  whatever the modem answers, no command overflows its buffer and no assertion of the thread fails: it ends unless the exchange of one of its
  commands (\<open>crm_send_at\<close>) aborts or does not return, and Control is told once. If every
  command succeeds the modem has run exactly the contents of the files, in order, put together from the chunks at the places they
  belong to; otherwise the clients are told which file failed, and the modem has run the files before it, and no other.
\<close>

theorem custo_roundtrip:
  assumes "cu_tlvs c = None" "\<not> cu_ongoing c" "tlvs \<noteq> []" "\<forall>f \<in> set tlvs. \<exists>d. fs f = Some d \<and> length d < 10 ^ 20"
  shows "\<exists>c1. custo_send tlvs c = Some c1 \<and>
    (write_tlvs k fs at True True c1 = None \<longrightarrow> (\<exists>i cmd. length cmd < TLV_ENCODED_CHUNK \<and> at_answer at i cmd = None)) \<and>
    (\<forall>c2 tr. write_tlvs k fs at True True c1 = Some (c2, tr) \<longrightarrow> (\<exists>err out.
      cu_out c2 = cu_out c @ [CuThread] @ out @ [CuStatus err] \<and> cu_tlvs c2 = None \<and> \<not> cu_ongoing c2 \<and>
      (err = 0 \<longrightarrow> out = [] \<and> modem tr [] = Some (map (\<lambda>f. map of_char (the (fs f))) tlvs)) \<and>
      (err \<noteq> 0 \<longrightarrow> (\<exists>j < length tlvs. out = [CuNotify (tlv_failure k (tlvs ! j))] \<and>
         modem (butlast tr) [] = Some (map (\<lambda>f. map of_char (the (fs f))) (take j tlvs))))))"
proof -
  define c1 where "c1 = cu_emit CuThread (c\<lparr>cu_tlvs := Some tlvs\<rparr>)"
  have c1: "custo_send tlvs c = Some c1" "cu_tlvs c1 = Some tlvs" "\<not> cu_ongoing c1" "cu_out c1 = cu_out c @ [CuThread]"
    using assms(1-3) by (simp_all add: custo_send_def c1_def cu_emit_def)
  have w: "write_tlvs k fs at True True c1 = map_option (\<lambda>(err, c, tr). (cu_emit (CuStatus err) (c\<lparr>cu_tlvs := None, cu_ongoing := False\<rparr>), tr))
      (send_tlvs k fs at tlvs (c1\<lparr>cu_ongoing := True\<rparr>, []))"
    using c1(2,3) by (cases "send_tlvs k fs at tlvs (c1\<lparr>cu_ongoing := True\<rparr>, [])") (auto simp: write_tlvs_def)
  show ?thesis
  proof (intro exI [of _ c1] conjI allI impI)
    show "custo_send tlvs c = Some c1" by (rule c1(1))
    assume "write_tlvs k fs at True True c1 = None"
    with w show "\<exists>i cmd. length cmd < TLV_ENCODED_CHUNK \<and> at_answer at i cmd = None" using send_tlvs_ends [OF assms(4)] by fastforce
  next
    fix c2 tr
    assume "write_tlvs k fs at True True c1 = Some (c2, tr)"
    then obtain err c' where s: "send_tlvs k fs at tlvs (c1\<lparr>cu_ongoing := True\<rparr>, []) = Some (err, c', tr)"
      and c2: "c2 = cu_emit (CuStatus err) (c'\<lparr>cu_tlvs := None, cu_ongoing := False\<rparr>)" unfolding w by auto
    from send_tlvs_result [OF assms(4) s] obtain out where r: "c' = (c1\<lparr>cu_ongoing := True\<rparr>)\<lparr>cu_out := cu_out c1 @ out\<rparr>"
      "err = 0 \<longrightarrow> out = [] \<and> modem tr [] = Some (map (\<lambda>f. map of_char (the (fs f))) tlvs)"
      "err \<noteq> 0 \<longrightarrow> (\<exists>j < length tlvs. out = [CuNotify (tlv_failure k (tlvs ! j))] \<and>
         modem (butlast tr) [] = Some (map (\<lambda>f. map of_char (the (fs f))) (take j tlvs)))" by auto
    have "cu_out c2 = cu_out c @ [CuThread] @ out @ [CuStatus err]" "cu_tlvs c2 = None" "\<not> cu_ongoing c2"
      using c1(4) by (simp_all add: c2 r(1) cu_emit_def)
    with r(2,3) show "\<exists>err out. cu_out c2 = cu_out c @ [CuThread] @ out @ [CuStatus err] \<and> cu_tlvs c2 = None \<and> \<not> cu_ongoing c2 \<and>
      (err = 0 \<longrightarrow> out = [] \<and> modem tr [] = Some (map (\<lambda>f. map of_char (the (fs f))) tlvs)) \<and>
      (err \<noteq> 0 \<longrightarrow> (\<exists>j < length tlvs. out = [CuNotify (tlv_failure k (tlvs ! j))] \<and>
         modem (butlast tr) [] = Some (map (\<lambda>f. map of_char (the (fs f))) (take j tlvs))))" by blast
  qed
qed

text \<open>A modem that answers every command with OK.\<close>

definition at_good :: at_env where
  "at_good i cmd = (replicate AT_BUFFER NUL, int (length cmd) + 2, [AtData (text_of [''OK'']), AtTimeout])"

lemma at_good_answer: "length cmd + 2 < AT_BUFFER \<Longrightarrow> at_answer at_good i cmd = Some 0"
  using crm_send_at_answer [of cmd "replicate AT_BUFFER NUL" "[[''OK'']]"]
  by (simp add: at_answer_def at_good_def line_ok_def text_of_def)

lemma at_good_zero: "at_answer at_good i cmd = Some r \<Longrightarrow> r = 0"
proof (cases "length cmd + 2 < AT_BUFFER")
  case True
  then show "at_answer at_good i cmd = Some r \<Longrightarrow> r = 0" using at_good_answer by simp
qed (simp add: at_answer_def at_good_def crm_send_at_def)

theorem custo_roundtrip_witness:
  "\<exists>c1 c2 tr. custo_send [''a'', ''b''] crm_customization_init = Some c1 \<and>
     write_tlvs demo_cli (\<lambda>f. Some (if f = ''a'' then replicate 300 (CHR ''x'') else ''yz'')) at_good True True c1 = Some (c2, tr) \<and>
     modem tr [] = Some [replicate 300 120, [121, 122]]"
proof -
  define fs :: "string \<Rightarrow> string option" where "fs = (\<lambda>f. Some (if f = ''a'' then replicate 300 (CHR ''x'') else ''yz''))"
  have f: "\<forall>f \<in> set [''a'', ''b'']. \<exists>d. fs f = Some d \<and> length d < 10 ^ 20" by (simp add: fs_def)
  have i: "cu_tlvs crm_customization_init = None" "\<not> cu_ongoing crm_customization_init" by (simp_all add: crm_customization_init_def)
  have ne: "[''a'', ''b''] \<noteq> []" by simp
  have a: "\<exists>r. at_answer at_good i cmd = Some r" if "length cmd < TLV_ENCODED_CHUNK" for i cmd using at_good_answer that by simp
  from custo_roundtrip [OF i ne f, of demo_cli at_good] obtain c1 where c1: "custo_send [''a'', ''b''] crm_customization_init = Some c1"
    "write_tlvs demo_cli fs at_good True True c1 = None \<longrightarrow> (\<exists>i cmd. length cmd < TLV_ENCODED_CHUNK \<and> at_answer at_good i cmd = None)"
    "\<forall>c2 tr. write_tlvs demo_cli fs at_good True True c1 = Some (c2, tr) \<longrightarrow> (\<exists>err out.
      cu_out c2 = cu_out crm_customization_init @ [CuThread] @ out @ [CuStatus err] \<and> cu_tlvs c2 = None \<and> \<not> cu_ongoing c2 \<and>
      (err = 0 \<longrightarrow> out = [] \<and> modem tr [] = Some (map (\<lambda>f. map of_char (the (fs f))) [''a'', ''b''])) \<and>
      (err \<noteq> 0 \<longrightarrow> (\<exists>j < length [''a'', ''b'']. out = [CuNotify (tlv_failure demo_cli ([''a'', ''b''] ! j))] \<and>
         modem (butlast tr) [] = Some (map (\<lambda>f. map of_char (the (fs f))) (take j [''a'', ''b''])))))"
    by (elim exE conjE)
  have "write_tlvs demo_cli fs at_good True True c1 \<noteq> None"
  proof
    assume "write_tlvs demo_cli fs at_good True True c1 = None"
    with c1(2) obtain i cmd where "length cmd < TLV_ENCODED_CHUNK" "at_answer at_good i cmd = None" by (elim impE exE conjE)
    with a [of cmd i] show False by simp
  qed
  then obtain c2 tr where w: "write_tlvs demo_cli fs at_good True True c1 = Some (c2, tr)" by force
  with c1(3) obtain err out where r: "cu_out c2 = cu_out crm_customization_init @ [CuThread] @ out @ [CuStatus err]"
    "err = 0 \<longrightarrow> out = [] \<and> modem tr [] = Some (map (\<lambda>f. map of_char (the (fs f))) [''a'', ''b''])" by blast
  have "err = 0" using write_no_err [OF _ w] at_good_zero r(1) by simp
  with r(2) have "modem tr [] = Some [replicate 300 120, [121, 122]]" by (simp add: fs_def map_replicate)
  with c1(1) w show ?thesis unfolding fs_def by (intro exI conjI)
qed

end
