(* ===== verification/Crm_Elector.thy ===== *)
theory Crm_Elector
  imports Crm_Property
begin

text \<open>
  plugins/fw_elector/src/elector.c: which firmware is flashed and which customization files (TLV) are applied. The
  files of an update (MIU) come before those of the system, and the customization is applied when the hash of the
  firmware blob or of the configuration is not the one stored when it was applied last.

  The environment \<open>w\<close> is what the plugin reads: the directories, the regular expressions (POSIX), MD5 (OpenSSL).
  The stored hashes are properties of the platform, of the instance \<open>g\<close>.
\<close>

section \<open>State\<close>

abbreviation (input) MD5_HASH_SIZE :: nat where "MD5_HASH_SIZE \<equiv> 16"
abbreviation (input) HASH_SIZE :: nat where "HASH_SIZE \<equiv> 33"
abbreviation (input) FW_FOLDER :: string where "FW_FOLDER \<equiv> ''/system/vendor/firmware/telephony/''"
abbreviation (input) MIU_FOLDER :: string where "MIU_FOLDER \<equiv> ''/system/vendor/firmware/telephony/miu_@/''"

record elector_world =
  miu_is_dir :: bool
  miu_entries :: "string list option"
  fw_entries :: "string list option"
  regcomp :: "string \<Rightarrow> bool"
  regexec :: "string \<Rightarrow> string \<Rightarrow> bool"
  md5 :: "string \<Rightarrow> nat list"

record fw_elector =
  el_filter :: string
  el_fw_path :: "string option"
  el_tlvs :: "string list"
  el_found :: "string list"
  blob_hash_value :: string
  config_hash_value :: string
  miu_folder :: string
  are_hashes_readable :: bool

abbreviation (input) KEY_BLOB_HASH :: string where "KEY_BLOB_HASH \<equiv> ''persist.sys.crm@.blob_hash''"
abbreviation (input) KEY_CONFIG_HASH :: string where "KEY_CONFIG_HASH \<equiv> ''persist.sys.crm@.config_hash''"

section \<open>Hashes\<close>

definition is_hash_equal :: "int \<Rightarrow> properties \<Rightarrow> string \<Rightarrow> string \<Rightarrow> bool option" where
  "is_hash_equal g ps key hash_value = do { v \<leftarrow> crm_property_get g ps key ''''; Some (v = hash_value) }"

text \<open>\<open>strstr\<close>: the pattern anywhere in the name.\<close>

definition filter_tlv :: "string \<Rightarrow> bool" where
  "filter_tlv name = list_ex (\<lambda>i. take 4 (drop i name) = ''.tlv'') [0..<length name]"

text \<open>The files of an update, in the order of \<open>scandir\<close>.\<close>

definition update_miu_tlvs :: "elector_world \<Rightarrow> fw_elector \<Rightarrow> fw_elector option" where
  "update_miu_tlvs w e = do {
     let e = e\<lparr>el_found := []\<rparr>;
     if miu_is_dir w
     then do {
       entries \<leftarrow> miu_entries w;
       Some (e\<lparr>el_found := map (\<lambda>n. miu_folder e @ n) (filter filter_tlv entries)\<rparr>)
     }
     else Some e
   }"

definition hex_byte :: "nat \<Rightarrow> string" where
  "hex_byte b = pad 2 (print_num 16 b)"

definition compute_config_hash :: "elector_world \<Rightarrow> fw_elector \<Rightarrow> fw_elector option" where
  "compute_config_hash w e = do {
     path \<leftarrow> el_fw_path e;
     Some (e\<lparr>config_hash_value := concat (map hex_byte (md5 w (concat (el_tlvs e @ el_found e) @ path)))\<rparr>)
   }"

section \<open>The firmware\<close>

text \<open>More than one firmware is an error; a directory that cannot be read has none.\<close>

fun search_loop :: "(string \<Rightarrow> bool) \<Rightarrow> string \<Rightarrow> string list \<Rightarrow> string option \<Rightarrow> string option option" where
  "search_loop match folder [] fw_file = Some fw_file"
| "search_loop match folder (n # ns) fw_file =
     (if match n then do { ASSERT (fw_file = None); search_loop match folder ns (Some (folder @ n)) }
      else search_loop match folder ns fw_file)"

definition search_fw :: "elector_world \<Rightarrow> string \<Rightarrow> string list option \<Rightarrow> string \<Rightarrow> string option option" where
  "search_fw w folder entries fw_filter = do {
     ASSERT (regcomp w fw_filter);
     search_loop (regexec w fw_filter) folder (case entries of None \<Rightarrow> [] | Some ns \<Rightarrow> ns) None
   }"

abbreviation (input) MIU_FILTER :: string where "MIU_FILTER \<equiv> [CHR 0x5C] @ ''.fls$''"

definition get_fw_path :: "elector_world \<Rightarrow> fw_elector \<Rightarrow> (string \<times> fw_elector) option" where
  "get_fw_path w e = do {
     found \<leftarrow> (if miu_is_dir w then search_fw w (miu_folder e) (miu_entries w) MIU_FILTER else Some None);
     found \<leftarrow> (if found = None then search_fw w FW_FOLDER (fw_entries w) (el_filter e) else Some found);
     path \<leftarrow> found;
     Some (path, e\<lparr>el_fw_path := Some path\<rparr>)
   }"

text \<open>\<open>get_rnd_path\<close> is not implemented: its assertion always fails.\<close>

definition get_rnd_path :: "fw_elector \<Rightarrow> string option" where
  "get_rnd_path e = do { ASSERT False; Some '''' }"

section \<open>The customization\<close>

text \<open>The list is null when there is nothing to apply.\<close>

definition hashes_equal :: "int \<Rightarrow> properties \<Rightarrow> fw_elector \<Rightarrow> bool option" where
  "hashes_equal g ps e = do {
     b \<leftarrow> is_hash_equal g ps KEY_BLOB_HASH (blob_hash_value e);
     if b then is_hash_equal g ps KEY_CONFIG_HASH (config_hash_value e) else Some False
   }"

definition get_tlv_list :: "elector_world \<Rightarrow> int \<Rightarrow> properties \<Rightarrow> fw_elector \<Rightarrow> (nat \<times> string list option \<times> fw_elector) option" where
  "get_tlv_list w g ps e =
     (if are_hashes_readable e
      then do {
        e \<leftarrow> update_miu_tlvs w e;
        e \<leftarrow> compute_config_hash w e;
        equal \<leftarrow> hashes_equal g ps e;
        let nb = (if \<not> equal then length (el_tlvs e) + length (el_found e) else 0);
        Some (nb, if nb = 0 then None else Some (el_tlvs e @ el_found e), e)
      }
      else Some (0, None, e))"

definition notify_fw_flashed :: "int \<Rightarrow> fw_elector \<Rightarrow> fw_elector" where
  "notify_fw_flashed status e = e"

definition notify_tlv_applied :: "int \<Rightarrow> int \<Rightarrow> properties \<Rightarrow> fw_elector \<Rightarrow> properties option" where
  "notify_tlv_applied status g ps e =
     (if status = 0 \<and> are_hashes_readable e
      then do { ps \<leftarrow> crm_property_set g ps KEY_BLOB_HASH (blob_hash_value e); crm_property_set g ps KEY_CONFIG_HASH (config_hash_value e) }
      else Some ps)"

text \<open>
  The configuration: the filter, the TLV files, and the state of the encryption of the data partition, without which the
  properties cannot be read. \<open>io\<close> is what reading the file with the hash of the blob answers.
\<close>

definition crm_fw_elector_init :: "string option \<Rightarrow> string list \<Rightarrow> string \<Rightarrow> file_io \<Rightarrow> int \<Rightarrow> fw_elector option" where
  "crm_fw_elector_init filter_key tlv_key encryption io inst_id = do {
     flt \<leftarrow> filter_key;
     miu \<leftarrow> set_instance_id MIU_FOLDER inst_id;
     let e = \<lparr>el_filter = flt, el_fw_path = None, el_tlvs = map (\<lambda>n. FW_FOLDER @ n) tlv_key, el_found = [], blob_hash_value = '''',
       config_hash_value = '''', miu_folder = miu, are_hashes_readable = False\<rparr>;
     if encryption = ''trigger_restart_framework''
     then do {
       (ret, blob_hash) \<leftarrow> crm_file_read io (int (HASH_SIZE + 1));
       ASSERT (ret = 0);
       Some (e\<lparr>are_hashes_readable := True, blob_hash_value := snprintf HASH_SIZE (c_str blob_hash)\<rparr>)
     }
     else Some e
   }"

section \<open>Hashes that fit\<close>

definition world_ok :: "elector_world \<Rightarrow> bool" where
  "world_ok w \<longleftrightarrow> (\<forall>s. length (md5 w s) = MD5_HASH_SIZE \<and> (\<forall>b \<in> set (md5 w s). b < 256)) \<and> (miu_is_dir w \<longrightarrow> miu_entries w \<noteq> None)"

text \<open>The files to apply and the hash of the configuration, as the directories are.\<close>

definition all_tlvs :: "elector_world \<Rightarrow> fw_elector \<Rightarrow> string list" where
  "all_tlvs w e = el_tlvs e @ (if miu_is_dir w then map (\<lambda>n. miu_folder e @ n) (filter filter_tlv (the (miu_entries w))) else [])"

definition config_hash :: "elector_world \<Rightarrow> fw_elector \<Rightarrow> string \<Rightarrow> string" where
  "config_hash w e path = concat (map hex_byte (md5 w (concat (all_tlvs w e) @ path)))"

lemma length_hex: "b < 256 \<Longrightarrow> length (hex_byte b) = 2"
  using length_print_num [of 16 b 2] by (simp add: hex_byte_def length_pad)

lemma length_hexes: "\<forall>b \<in> set bs. b < 256 \<Longrightarrow> length (concat (map hex_byte bs)) = 2 * length bs"
  by (induction bs) (simp_all add: length_hex)

lemma length_config: "world_ok w \<Longrightarrow> length (config_hash w e path) = 32"
  by (simp add: config_hash_def world_ok_def length_hexes)

lemma keys:
  "compute_key g KEY_BLOB_HASH = Some (''persist.sys.crm'' @ char_of (nat ((48 + g) mod 256)) # ''.blob_hash'')"
  "compute_key g KEY_CONFIG_HASH = Some (''persist.sys.crm'' @ char_of (nat ((48 + g) mod 256)) # ''.config_hash'')"
  using compute_key_split [of "''persist.sys.crm''" "''.blob_hash''" g] compute_key_split [of "''persist.sys.crm''" "''.config_hash''" g] by simp_all

definition refreshed :: "elector_world \<Rightarrow> string \<Rightarrow> fw_elector \<Rightarrow> fw_elector" where
  "refreshed w path e = e\<lparr>el_found := drop (length (el_tlvs e)) (all_tlvs w e), config_hash_value := config_hash w e path\<rparr>"

lemma refreshed_simps [simp]:
  "are_hashes_readable (refreshed v path e) = are_hashes_readable e" "el_fw_path (refreshed v path e) = el_fw_path e"
  "blob_hash_value (refreshed v path e) = blob_hash_value e" "config_hash_value (refreshed v path e) = config_hash v e path"
  "all_tlvs w (refreshed v path e) = all_tlvs w e" "config_hash w (refreshed v path e) path = config_hash w e path"
  "refreshed w path (refreshed v path e) = refreshed w path e"
  by (simp_all add: refreshed_def all_tlvs_def config_hash_def)

lemma tlv_list_eq:
  assumes "world_ok w" "are_hashes_readable e" "el_fw_path e = Some path"
  shows "get_tlv_list w g ps e = do { equal \<leftarrow> hashes_equal g ps (refreshed w path e);
    let nb = (if \<not> equal then length (all_tlvs w e) else 0); Some (nb, if nb = 0 then None else Some (all_tlvs w e), refreshed w path e) }"
proof -
  have u: "update_miu_tlvs w e = Some (e\<lparr>el_found := drop (length (el_tlvs e)) (all_tlvs w e)\<rparr>)"
    using assms(1) by (auto simp: update_miu_tlvs_def all_tlvs_def world_ok_def Let_def)
  have c: "compute_config_hash w (e\<lparr>el_found := drop (length (el_tlvs e)) (all_tlvs w e)\<rparr>) = Some (refreshed w path e)"
    using assms(3) by (simp add: compute_config_hash_def refreshed_def config_hash_def all_tlvs_def)
  have "length (el_tlvs (refreshed w path e)) + length (el_found (refreshed w path e)) = length (all_tlvs w e)"
    "el_tlvs (refreshed w path e) @ el_found (refreshed w path e) = all_tlvs w e"
    by (simp_all add: refreshed_def all_tlvs_def)
  then show ?thesis using assms(2) u c
    by (cases "hashes_equal g ps (refreshed w path e)") (simp_all add: get_tlv_list_def Let_def cong: if_cong)
qed

text \<open>What was stored last: both hashes.\<close>

definition stored :: "int \<Rightarrow> properties \<Rightarrow> string \<Rightarrow> string \<Rightarrow> bool" where
  "stored g ps b c \<longleftrightarrow> crm_property_get g ps KEY_BLOB_HASH '''' = Some b \<and> crm_property_get g ps KEY_CONFIG_HASH '''' = Some c"

lemma hashes_stored: "stored g ps b c \<Longrightarrow> hashes_equal g ps e = Some (blob_hash_value e = b \<and> config_hash_value e = c)"
  by (auto simp: stored_def hashes_equal_def is_hash_equal_def)

lemma hashes_iff_stored: "hashes_equal g ps e = Some b \<Longrightarrow> b = stored g ps (blob_hash_value e) (config_hash_value e)"
  by (auto simp: stored_def hashes_equal_def is_hash_equal_def bind_Some_iff split: if_splits)

lemma applied_stored:
  assumes "are_hashes_readable e" "length (blob_hash_value e) < 92" "length (config_hash_value e) < 92"
  shows "\<exists>ps'. notify_tlv_applied 0 g ps e = Some ps' \<and> stored g ps' (blob_hash_value e) (config_hash_value e)"
  using assms by (simp add: notify_tlv_applied_def crm_property_set_def crm_property_get_def keys stored_def)

lemma search_loop_eq:
  "search_loop match folder ns (Some f) = (if filter match ns = [] then Some (Some f) else None)"
  "search_loop match folder ns None = (case filter match ns of [] \<Rightarrow> Some None | [n] \<Rightarrow> Some (Some (folder @ n)) | _ \<Rightarrow> None)"
proof -
  show s: "search_loop match folder ns (Some f) = (if filter match ns = [] then Some (Some f) else None)" for ns f
    by (induction ns) simp_all
  show "search_loop match folder ns None = (case filter match ns of [] \<Rightarrow> Some None | [n] \<Rightarrow> Some (Some (folder @ n)) | _ \<Rightarrow> None)"
    by (induction ns) (auto simp: s split: list.splits)
qed

section \<open>Properties\<close>


text \<open>
  The firmware is the only candidate of the first place that has one. When exactly one file of the update matches it is
  the firmware, whatever the system has; when the update has none and exactly one file of the system matches the configured
  filter it is that one; two candidates in the place that is searched, or none at all, abort.
\<close>

theorem elector_fw_choice:
  assumes "regcomp w MIU_FILTER" "regcomp w (el_filter e)" "miu_is_dir w" "miu_entries w = Some ms" "fw_entries w = Some fs"
  shows "get_fw_path w e =
    (case filter (regexec w MIU_FILTER) ms of
       [m] \<Rightarrow> Some (miu_folder e @ m, e\<lparr>el_fw_path := Some (miu_folder e @ m)\<rparr>)
     | [] \<Rightarrow> (case filter (regexec w (el_filter e)) fs of
               [n] \<Rightarrow> Some (FW_FOLDER @ n, e\<lparr>el_fw_path := Some (FW_FOLDER @ n)\<rparr>)
             | _ \<Rightarrow> None)
     | _ \<Rightarrow> None)"
  unfolding get_fw_path_def search_fw_def using assms by (simp add: search_loop_eq del: search_loop.simps split: list.splits)

text \<open>A hash that is the length of the text, and an update with one file more.\<close>

definition demo_world :: "string list \<Rightarrow> elector_world" where
  "demo_world ns = \<lparr>miu_is_dir = True, miu_entries = Some ns, fw_entries = Some [''modem.fls'', ''hash''],
     regcomp = (\<lambda>f. True), regexec = (\<lambda>f n. 4 \<le> length n \<and> drop (length n - 4) n = ''.fls''), md5 = (\<lambda>s. (length s mod 256) # replicate 15 0)\<rparr>"

definition demo_elector :: fw_elector where
  "demo_elector = \<lparr>el_filter = ''x'', el_fw_path = Some ''/fw'', el_tlvs = [''/a.tlv''], el_found = [], blob_hash_value = ''b'', config_hash_value = '''',
     miu_folder = ''/miu/'', are_hashes_readable = True\<rparr>"

lemma demo_world_ok: "world_ok (demo_world ns)"
  by (simp add: world_ok_def demo_world_def)

lemma demo_tlvs: "all_tlvs (demo_world []) demo_elector = [''/a.tlv'']" "all_tlvs (demo_world [''b.tlv'']) demo_elector = [''/a.tlv'', ''/miu/b.tlv'']"
  by (simp_all add: all_tlvs_def demo_world_def demo_elector_def filter_tlv_def upt_rec)


theorem elector_fw_choice_witness:
  "get_fw_path (demo_world [''b.tlv'', ''new.fls'']) demo_elector = Some (''/miu/new.fls'', demo_elector\<lparr>el_fw_path := Some ''/miu/new.fls''\<rparr>)"
  using elector_fw_choice [of "demo_world [''b.tlv'', ''new.fls'']" demo_elector "[''b.tlv'', ''new.fls'']" "[''modem.fls'', ''hash'']"]
  by (simp add: demo_world_def) (simp add: demo_elector_def)

end
