(* ===== verification/Crm_Hal_Contract.thy ===== *)
theory Crm_Hal_Contract
  imports Crm_Mdmcli
begin

text \<open>
  inc/plugins/dependent_types.h and inc/plugins/hal.h: the contract of a HAL. A HAL that says the
  modem is busy gives the reason in a second message, and a reason (reset needed, ready to flash,
  core dump, unresponsive) is never reported without the busy message before it: Control aborts
  otherwise. \<open>paired\<close> is the contract on the sequence of event types a HAL reports, and the
  interface \<open>hal_driver\<close> is what the thread of a HAL has to show for it.
\<close>

fun paired :: "bool \<Rightarrow> int list \<Rightarrow> bool" where
  "paired w [] = True"
| "paired w (t # ts) =
     (if t = HAL_MDM_BUSY then paired True ts
      else if t \<in> {HAL_MDM_NEED_RESET, HAL_MDM_FLASH, HAL_MDM_DUMP, HAL_MDM_UNRESPONSIVE} then w \<and> paired False ts
      else t \<in> {HAL_MDM_OFF, HAL_MDM_RUN} \<and> paired w ts)"

lemma paired_mono: "paired False ts \<Longrightarrow> paired w ts"
  by (induction ts arbitrary: w) (auto split: if_splits)

lemma paired_append: "paired w xs \<Longrightarrow> paired False ys \<Longrightarrow> paired w (xs @ ys)"
  by (induction w xs rule: paired.induct) (auto simp: paired_mono)

text \<open>Whether a reason is still due after a sequence of reports.\<close>

fun busy_after :: "bool \<Rightarrow> int list \<Rightarrow> bool" where
  "busy_after w [] = w"
| "busy_after w (t # ts) =
     busy_after (if t = HAL_MDM_BUSY then True
                 else if t \<in> {HAL_MDM_NEED_RESET, HAL_MDM_FLASH, HAL_MDM_DUMP, HAL_MDM_UNRESPONSIVE} then False
                 else w) ts"

lemma paired_app: "paired w (xs @ ys) = (paired w xs \<and> paired (busy_after w xs) ys)"
  by (induction w xs rule: paired.induct) auto

lemma busy_after_app: "busy_after w (xs @ ys) = busy_after (busy_after w xs) ys"
  by (induction w xs rule: busy_after.induct) auto

lemma busy_after_mono: "busy_after False ts \<Longrightarrow> busy_after w ts"
proof (induction ts arbitrary: w)
  case (Cons t ts)
  then show ?case by (auto split: if_splits)
qed simp

text \<open>A thread as a function of its inputs, and inputs that suit the states they meet.\<close>

fun run_thread :: "('i \<Rightarrow> 's \<Rightarrow> 's option) \<Rightarrow> 'i list \<Rightarrow> 's \<Rightarrow> 's option" where
  "run_thread step [] s = Some s"
| "run_thread step (i # is) s = Option.bind (step i s) (run_thread step is)"

fun inputs_ok :: "('i \<Rightarrow> 's \<Rightarrow> 's option) \<Rightarrow> ('i \<Rightarrow> 's \<Rightarrow> bool) \<Rightarrow> 'i list \<Rightarrow> 's \<Rightarrow> bool" where
  "inputs_ok step ok [] s = True"
| "inputs_ok step ok (i # is) s = (ok i s \<and> (case step i s of None \<Rightarrow> True | Some s' \<Rightarrow> inputs_ok step ok is s'))"

text \<open>A thread that reports: each step gives a reason only when one is due.\<close>

locale hal_reporter =
  fixes step :: "'i \<Rightarrow> 's \<Rightarrow> 's option"
    and ok :: "'i \<Rightarrow> 's \<Rightarrow> bool"
    and inv :: "'s \<Rightarrow> bool"
    and reports :: "'s \<Rightarrow> int list"
  assumes keeps: "inv s \<Longrightarrow> ok i s \<Longrightarrow> step i s = Some s' \<Longrightarrow> inv s'"
    and reasons: "inv s \<Longrightarrow> ok i s \<Longrightarrow> step i s = Some s' \<Longrightarrow>
      \<exists>ts. reports s' = reports s @ ts \<and> paired (busy_after False (reports s)) ts"
begin

lemma run_reports:
  assumes "inv s" "paired False (reports s)" "inputs_ok step ok is s" "run_thread step is s = Some s'"
  shows "inv s' \<and> paired False (reports s')"
  using assms
proof (induction "is" arbitrary: s)
  case Nil
  then show ?case by simp
next
  case (Cons i "is")
  then obtain s1 where s1: "step i s = Some s1" "run_thread step is s1 = Some s'"
    by (auto simp: bind_Some_iff)
  have "ok i s" "inputs_ok step ok is s1" using Cons.prems(3) s1(1) by auto
  moreover have "paired False (reports s1)"
    using reasons [OF Cons.prems(1) \<open>ok i s\<close> s1(1)] Cons.prems(2) by (auto simp: paired_app)
  ultimately show ?case using Cons.IH keeps [OF Cons.prems(1) _ s1(1)] s1(2) by blast
qed

end

text \<open>A driver whose steps are complete: every reason is given in the step of its busy message.\<close>

locale hal_driver =
  fixes step :: "'i \<Rightarrow> 's \<Rightarrow> 's option"
    and input_ok :: "'i \<Rightarrow> bool"
    and inv :: "'s \<Rightarrow> bool"
    and reports :: "'s \<Rightarrow> int list"
  assumes step_inv: "inv s \<Longrightarrow> input_ok i \<Longrightarrow> step i s = Some s' \<Longrightarrow> inv s'"
    and step_reports: "inv s \<Longrightarrow> input_ok i \<Longrightarrow> step i s = Some s' \<Longrightarrow>
      \<exists>ts. reports s' = reports s @ ts \<and> paired False ts"

sublocale hal_driver \<subseteq> reporter: hal_reporter step "\<lambda>i s. input_ok i" inv reports
  by unfold_locales (use step_inv step_reports paired_mono in blast)+

context hal_driver begin

lemma all_inputs_ok: "\<forall>i \<in> set is. input_ok i \<Longrightarrow> inputs_ok step (\<lambda>i s. input_ok i) is s"
  by (induction "is" arbitrary: s) (auto split: option.splits)

lemma run_contract:
  assumes "inv s" "paired False (reports s)" "\<forall>i \<in> set is. input_ok i" "run_thread step is s = Some s'"
  shows "inv s' \<and> paired False (reports s')"
  using reporter.run_reports [OF assms(1,2) all_inputs_ok [OF assms(3)] assms(4)] .

end

end
