(* ===== verification/Crm_Hal_Stub.thy ===== *)
theory Crm_Hal_Stub
  imports Crm_Hal_Contract
begin

text \<open>
  plugins/hal/stub/src/hal_stub.c: the HAL of a platform without a modem. A request is a message to its thread, which
  reports the events a modem would give.
\<close>

section \<open>State\<close>

abbreviation (input) STUB_MDM_POWER :: int where "STUB_MDM_POWER \<equiv> 0"
abbreviation (input) STUB_MDM_BOOT :: int where "STUB_MDM_BOOT \<equiv> 1"
abbreviation (input) STUB_MDM_RESET :: int where "STUB_MDM_RESET \<equiv> 2"
abbreviation (input) STUB_MDM_STOP :: int where "STUB_MDM_STOP \<equiv> 3"

text \<open>What the stub does to the others: a message to its own thread, an event to Control, the start of a daemon.\<close>

datatype stub_out = StubSend int | StubNotify crm_hal_evt | StubStartRpcd | StubDispose

text \<open>\<open>stub_control\<close> says that the context of Control is there.\<close>

record hal_stub_ctx =
  stub_control :: bool
  stub_trace :: "stub_out list"

definition stub_emit :: "stub_out \<Rightarrow> hal_stub_ctx \<Rightarrow> hal_stub_ctx" where
  "stub_emit x c = c\<lparr>stub_trace := stub_trace c @ [x]\<rparr>"

section \<open>Operations\<close>

fun notify_ctrl :: "int list \<Rightarrow> hal_stub_ctx \<Rightarrow> hal_stub_ctx" where
  "notify_ctrl [] c = c"
| "notify_ctrl (e # es) c = notify_ctrl es (stub_emit (StubNotify \<lparr>hal_type = e, nodes = [], hal_dbg_info = None\<rparr>) c)"

definition fake_mdm_power :: "hal_stub_ctx \<Rightarrow> hal_stub_ctx option" where
  "fake_mdm_power c = do { ASSERT (stub_control c); Some (notify_ctrl [HAL_MDM_FLASH] c) }"

definition fake_mdm_boot :: "hal_stub_ctx \<Rightarrow> hal_stub_ctx option" where
  "fake_mdm_boot c = do { ASSERT (stub_control c); Some (notify_ctrl [HAL_MDM_RUN] c) }"

definition fake_mdm_reset :: "hal_stub_ctx \<Rightarrow> hal_stub_ctx option" where
  "fake_mdm_reset c = do { ASSERT (stub_control c); Some (notify_ctrl [HAL_MDM_BUSY, HAL_MDM_FLASH] c) }"

definition fake_mdm_shutdown :: "hal_stub_ctx \<Rightarrow> hal_stub_ctx option" where
  "fake_mdm_shutdown c = do { ASSERT (stub_control c); Some (notify_ctrl [HAL_MDM_BUSY, HAL_MDM_OFF] c) }"

definition stub_power_on :: "hal_stub_ctx \<Rightarrow> hal_stub_ctx" where
  "stub_power_on c = stub_emit (StubSend STUB_MDM_POWER) c"

definition stub_boot :: "hal_stub_ctx \<Rightarrow> hal_stub_ctx" where
  "stub_boot c = stub_emit (StubSend STUB_MDM_BOOT) c"

text \<open>The type of the reset is not used.\<close>

definition stub_reset :: "int \<Rightarrow> hal_stub_ctx \<Rightarrow> hal_stub_ctx" where
  "stub_reset type c = stub_emit (StubSend STUB_MDM_RESET) c"

definition stub_shutdown :: "hal_stub_ctx \<Rightarrow> hal_stub_ctx" where
  "stub_shutdown c = stub_emit (StubSend STUB_MDM_STOP) c"

definition stub_dispose :: "hal_stub_ctx \<Rightarrow> hal_stub_ctx" where
  "stub_dispose c = stub_emit StubDispose c"

text \<open>A scalar that is none of the requests is ignored.\<close>

definition stub_msg :: "int \<Rightarrow> hal_stub_ctx \<Rightarrow> hal_stub_ctx option" where
  "stub_msg scalar c =
     (if scalar = STUB_MDM_POWER then fake_mdm_power c
      else if scalar = STUB_MDM_BOOT then fake_mdm_boot c
      else if scalar = STUB_MDM_RESET then fake_mdm_reset c
      else if scalar = STUB_MDM_STOP then fake_mdm_shutdown c
      else Some c)"

fun stub_msgs :: "int list \<Rightarrow> hal_stub_ctx \<Rightarrow> hal_stub_ctx option" where
  "stub_msgs [] c = Some c"
| "stub_msgs (m # ms) c = do { c \<leftarrow> stub_msg m c; stub_msgs ms c }"

text \<open>The thread: \<open>None\<close> is the end of the pipe, \<open>Some ms\<close> a wake-up with the messages it finds.\<close>

fun hal_stub :: "int list option list \<Rightarrow> hal_stub_ctx \<Rightarrow> hal_stub_ctx option" where
  "hal_stub [] c = Some c"
| "hal_stub (None # is) c = Some c"
| "hal_stub (Some ms # is) c = do { c \<leftarrow> stub_msgs ms c; hal_stub is c }"

definition crm_hal_stub_init :: "bool \<Rightarrow> hal_stub_ctx option" where
  "crm_hal_stub_init control = do {
     ASSERT control;
     Some (stub_emit StubStartRpcd \<lparr>stub_control = control, stub_trace = []\<rparr>)
   }"

section \<open>Reports\<close>

fun stub_reports :: "stub_out list \<Rightarrow> int list" where
  "stub_reports [] = []"
| "stub_reports (StubNotify e # xs) = hal_type e # stub_reports xs"
| "stub_reports (x # xs) = stub_reports xs"

lemma stub_reports_append [simp]: "stub_reports (xs @ ys) = stub_reports xs @ stub_reports ys"
  by (induction xs rule: stub_reports.induct) auto

text \<open>The events of a request.\<close>

definition stub_answer :: "int \<Rightarrow> int list" where
  "stub_answer m = (if m = STUB_MDM_POWER then [HAL_MDM_FLASH] else if m = STUB_MDM_BOOT then [HAL_MDM_RUN]
     else if m = STUB_MDM_RESET then [HAL_MDM_BUSY, HAL_MDM_FLASH] else if m = STUB_MDM_STOP then [HAL_MDM_BUSY, HAL_MDM_OFF] else [])"

text \<open>Whether a power-on comes only when a reason is due: \<open>w\<close> says that one is.\<close>

fun power_due :: "bool \<Rightarrow> int list \<Rightarrow> bool" where
  "power_due w [] = True"
| "power_due w (m # ms) =
     (if m = STUB_MDM_POWER then w \<and> power_due False ms
      else if m = STUB_MDM_RESET then power_due False ms
      else if m = STUB_MDM_STOP then power_due True ms
      else power_due w ms)"

lemma notify_ctrl_frame: "stub_reports (stub_trace (notify_ctrl es c)) = stub_reports (stub_trace c) @ es \<and> stub_control (notify_ctrl es c) = stub_control c"
  by (induction es c rule: notify_ctrl.induct) (auto simp: stub_emit_def)

lemma stub_msg_total:
  "stub_control c \<Longrightarrow> \<exists>c'. stub_msg m c = Some c' \<and> stub_control c' \<and> stub_reports (stub_trace c') = stub_reports (stub_trace c) @ stub_answer m"
  using notify_ctrl_frame [of _ c]
  by (auto simp: stub_msg_def stub_answer_def fake_mdm_power_def fake_mdm_boot_def fake_mdm_reset_def fake_mdm_shutdown_def simp del: notify_ctrl.simps)

lemma stub_msgs_total:
  "stub_control c \<Longrightarrow> \<exists>c'. stub_msgs ms c = Some c' \<and> stub_control c' \<and> stub_reports (stub_trace c') = stub_reports (stub_trace c) @ concat (map stub_answer ms)"
proof (induction ms arbitrary: c)
  case (Cons m ms)
  from stub_msg_total [OF Cons.prems, of m] obtain c1 where c1: "stub_msg m c = Some c1" "stub_control c1"
    "stub_reports (stub_trace c1) = stub_reports (stub_trace c) @ stub_answer m" by blast
  from Cons.IH [OF c1(2)] c1 show ?case by auto
qed simp

lemma hal_stub_total:
  "stub_control c \<Longrightarrow>
   \<exists>c'. hal_stub (map Some mss) c = Some c' \<and> stub_control c' \<and> stub_reports (stub_trace c') = stub_reports (stub_trace c) @ concat (map stub_answer (concat mss))"
proof (induction mss arbitrary: c)
  case (Cons ms mss)
  from stub_msgs_total [OF Cons.prems, of ms] obtain c1 where c1: "stub_msgs ms c = Some c1" "stub_control c1"
    "stub_reports (stub_trace c1) = stub_reports (stub_trace c) @ concat (map stub_answer ms)" by blast
  from Cons.IH [OF c1(2)] c1 show ?case by auto
qed simp

lemma paired_stub: "paired w (concat (map stub_answer ms)) = power_due w ms"
  by (induction ms arbitrary: w) (auto simp: stub_answer_def)

text \<open>
  The stub answers every request and keeps the contract of a HAL except for a power-on. Whatever the wake-ups of its
  thread, it reports the events of the requests in their order; the reports follow the contract exactly when
  each power-on comes after a shutdown with no reset or power-on in between, since it announces the modem to be ready
  for flashing without the busy event before it. The first power-on breaks it.
\<close>

theorem stub_contract:
  assumes "crm_hal_stub_init True = Some c"
  shows "\<exists>c'. hal_stub (map Some mss) c = Some c' \<and>
    stub_reports (stub_trace c') = concat (map stub_answer (concat mss)) \<and>
    paired False (stub_reports (stub_trace c')) = power_due False (concat mss) \<and>
    (\<forall>ms. concat mss = STUB_MDM_POWER # ms \<longrightarrow> \<not> paired False (stub_reports (stub_trace c')))"
proof -
  have "stub_control c" "stub_reports (stub_trace c) = []" using assms by (auto simp: crm_hal_stub_init_def stub_emit_def)
  then show ?thesis using hal_stub_total [of c mss] paired_stub [of False "concat mss"] by auto
qed

theorem stub_contract_witness:
  "\<exists>c c'. crm_hal_stub_init True = Some c \<and> hal_stub [Some [STUB_MDM_POWER, STUB_MDM_BOOT]] c = Some c' \<and>
     stub_reports (stub_trace c') = [HAL_MDM_FLASH, HAL_MDM_RUN] \<and> \<not> paired False (stub_reports (stub_trace c'))"
proof -
  obtain c where c: "crm_hal_stub_init True = Some c" by (simp add: crm_hal_stub_init_def)
  from stub_contract [OF c, of "[[STUB_MDM_POWER, STUB_MDM_BOOT]]"] c show ?thesis by (auto simp: stub_answer_def)
qed

end
