(* ===== verification/Crm_Control.thy ===== *)
theory Crm_Control
  imports Crm_Fsm Crm_Watchdog Crm_Escalation Crm_Mdmcli
begin

text \<open>
  plugins/control/src (fsm_ctrl.c, common.h, request.c, notify.c, utils.c): the Control module,
  the state machine that drives the modem through the other modules.

  The context is the C structure. The calls Control makes to the other modules, to the Java bridge
  and to its watchdog are appended, in order, to the field \<open>out\<close>; the escalation module, whose
  answers decide what Control does, is the model of \<open>Crm_Escalation\<close>. What Control reads from the
  outside during an event travels with it: the clock, the number of TLV files of the elector (0
  for none), whether a dump plugin is loaded, the answers of the bridge to the reboot broadcasts
  and the constants of the client API.

  The argument of an event is a pointer to a pointer: to nothing, to a HAL event or to a debug
  information. Reading one as the other is undefined (\<open>None\<close>).
\<close>

section \<open>Enumerations\<close>

abbreviation (input) ST_INITIAL :: int where "ST_INITIAL \<equiv> 0"
abbreviation (input) ST_DOWN :: int where "ST_DOWN \<equiv> 1"
abbreviation (input) ST_PACKAGING :: int where "ST_PACKAGING \<equiv> 2"
abbreviation (input) ST_FLASHING :: int where "ST_FLASHING \<equiv> 3"
abbreviation (input) ST_CUSTOMIZING :: int where "ST_CUSTOMIZING \<equiv> 4"
abbreviation (input) ST_UP :: int where "ST_UP \<equiv> 5"
abbreviation (input) ST_WAITING :: int where "ST_WAITING \<equiv> 6"
abbreviation (input) ST_DUMPING :: int where "ST_DUMPING \<equiv> 7"
abbreviation (input) ST_NUM :: int where "ST_NUM \<equiv> 8"

abbreviation (input) EV_CLI_START :: int where "EV_CLI_START \<equiv> 0"
abbreviation (input) EV_CLI_STOP :: int where "EV_CLI_STOP \<equiv> 1"
abbreviation (input) EV_CLI_RESET :: int where "EV_CLI_RESET \<equiv> 2"
abbreviation (input) EV_CLI_UPDATE :: int where "EV_CLI_UPDATE \<equiv> 3"
abbreviation (input) EV_CLI_NVM_BACKUP :: int where "EV_CLI_NVM_BACKUP \<equiv> 4"
abbreviation (input) EV_HAL_MDM_OFF :: int where "EV_HAL_MDM_OFF \<equiv> 5"
abbreviation (input) EV_HAL_MDM_RUN :: int where "EV_HAL_MDM_RUN \<equiv> 6"
abbreviation (input) EV_HAL_MDM_BUSY :: int where "EV_HAL_MDM_BUSY \<equiv> 7"
abbreviation (input) EV_HAL_MDM_NEED_RESET :: int where "EV_HAL_MDM_NEED_RESET \<equiv> 8"
abbreviation (input) EV_HAL_MDM_FLASH :: int where "EV_HAL_MDM_FLASH \<equiv> 9"
abbreviation (input) EV_HAL_MDM_DUMP :: int where "EV_HAL_MDM_DUMP \<equiv> 10"
abbreviation (input) EV_HAL_MDM_UNRESPONSIVE :: int where "EV_HAL_MDM_UNRESPONSIVE \<equiv> 11"
abbreviation (input) EV_NVM_SUCCESS :: int where "EV_NVM_SUCCESS \<equiv> 12"
abbreviation (input) EV_FW_SUCCESS :: int where "EV_FW_SUCCESS \<equiv> 13"
abbreviation (input) EV_DUMP_SUCCESS :: int where "EV_DUMP_SUCCESS \<equiv> 14"
abbreviation (input) EV_FAILURE :: int where "EV_FAILURE \<equiv> 15"
abbreviation (input) EV_TIMEOUT :: int where "EV_TIMEOUT \<equiv> 16"
abbreviation (input) EV_NUM :: int where "EV_NUM \<equiv> 17"

abbreviation (input) MAX_RESET_TIMEOUT :: int where "MAX_RESET_TIMEOUT \<equiv> 100"

datatype cli_request = REQ_NONE | REQ_RESET | REQ_STOP | REQ_START

section \<open>State\<close>

record crm_ctrl_state =
  client_request :: cli_request
  fw_ready :: bool
  hal_evt :: "crm_hal_evt option"
  waiting_hal_busy_reason :: bool
  flash_done :: bool
  run_ipc :: bool

record crm_ctrl_dbg_info =
  do_not_report :: bool
  reset_initiated_by_cla :: bool
  dbg_evt :: "mdm_cli_dbg_info option"

datatype ctrl_out =
    CliOpResult int
  | CliModemState int
  | CliNotify int mdm_cli_dbg_info
  | HalPowerOn
  | HalBoot
  | HalShutdown
  | HalReset int
  | UploadPackage
  | UploadFlash string
  | ElectorFlashed int
  | ElectorTlv int
  | CustoSend nat
  | DumpRead string
  | DumpStop
  | Broadcast string
  | WatchMsg "64 word"

record crm_control_ctx =
  cstate :: crm_ctrl_state
  is_mdm_oos :: bool
  watch_id :: int
  timeout :: int
  cdbg :: crm_ctrl_dbg_info
  timer_armed :: bool
  ctimer_end :: timespec
  esc :: crm_escalation
  out :: "ctrl_out list"

datatype ctrl_evt = ED_null | ED_hal crm_hal_evt | ED_dbg mdm_cli_dbg_info

record ctrl_param =
  evt_param :: ctrl_evt
  now :: timespec
  nb_tlvs :: nat
  has_dump :: bool
  reboot_bcast :: "nat \<Rightarrow> int"
  cli :: mdm_cli

definition zero_state :: crm_ctrl_state where
  "zero_state = \<lparr>client_request = REQ_NONE, fw_ready = False, hal_evt = None,
     waiting_hal_busy_reason = False, flash_done = False, run_ipc = False\<rparr>"

text \<open>\<open>crm_ctrl_init\<close>: a zeroed context, the watchdog timeout of the configuration.\<close>

definition crm_ctrl_init :: "int \<Rightarrow> crm_escalation \<Rightarrow> crm_control_ctx" where
  "crm_ctrl_init watchdog_timeout e =
     \<lparr>cstate = zero_state, is_mdm_oos = False, watch_id = -1, timeout = watchdog_timeout,
      cdbg = \<lparr>do_not_report = False, reset_initiated_by_cla = False, dbg_evt = None\<rparr>,
      timer_armed = False, ctimer_end = \<lparr>tv_sec = 0, tv_nsec = 0\<rparr>, esc = e, out = []\<rparr>"

definition emit :: "crm_control_ctx \<Rightarrow> ctrl_out \<Rightarrow> crm_control_ctx" where
  "emit c o' = c\<lparr>out := out c @ [o']\<rparr>"

section \<open>Names\<close>

definition get_event_txt :: "int \<Rightarrow> string option" where
  "get_event_txt evt =
     (if evt = EV_CLI_START then Some ''CLI: start''
      else if evt = EV_CLI_STOP then Some ''CLI: stop''
      else if evt = EV_CLI_RESET then Some ''CLI: reset''
      else if evt = EV_CLI_UPDATE then Some ''CLI: update''
      else if evt = EV_CLI_NVM_BACKUP then Some ''CLI: backup''
      else if evt = EV_HAL_MDM_OFF then Some ''HAL: off''
      else if evt = EV_HAL_MDM_RUN then Some ''HAL: run''
      else if evt = EV_HAL_MDM_UNRESPONSIVE then Some ''HAL: unresp''
      else if evt = EV_HAL_MDM_BUSY then Some ''HAL: busy''
      else if evt = EV_HAL_MDM_NEED_RESET then Some ''HAL: need_reset''
      else if evt = EV_HAL_MDM_FLASH then Some ''HAL: flash''
      else if evt = EV_HAL_MDM_DUMP then Some ''HAL: dump''
      else if evt = EV_NVM_SUCCESS then Some ''OP : nvm ok''
      else if evt = EV_FW_SUCCESS then Some ''OP : fw ok''
      else if evt = EV_DUMP_SUCCESS then Some ''OP : dump ok''
      else if evt = EV_FAILURE then Some ''OP : err''
      else if evt = EV_TIMEOUT then Some ''OP : timeout''
      else None)"

definition get_state_txt :: "int \<Rightarrow> string option" where
  "get_state_txt state =
     (if state = ST_INITIAL then Some ''INITIAL''
      else if state = ST_DOWN then Some ''DOWN''
      else if state = ST_PACKAGING then Some ''PACKAGING''
      else if state = ST_FLASHING then Some ''FLASHING''
      else if state = ST_CUSTOMIZING then Some ''CUSTOMIZING''
      else if state = ST_UP then Some ''UP''
      else if state = ST_WAITING then Some ''WAITING''
      else if state = ST_DUMPING then Some ''DUMPING''
      else None)"

section \<open>Helpers\<close>

definition start_timer :: "timespec \<Rightarrow> crm_control_ctx \<Rightarrow> int \<Rightarrow> crm_control_ctx option" where
  "start_timer t c ms = do {
     ASSERT (timer_armed c = False);
     ASSERT (ms \<ge> 0);
     Some (c\<lparr>timer_armed := True, ctimer_end := crm_time_add_ms t ms\<rparr>)
   }"

definition get_timeout :: "timespec \<Rightarrow> crm_control_ctx \<Rightarrow> int" where
  "get_timeout t c = (if timer_armed c = False then -1 else crm_time_get_remain_ms t (ctimer_end c))"

definition clear_internal_state :: "crm_control_ctx \<Rightarrow> crm_control_ctx" where
  "clear_internal_state c = c\<lparr>cstate := zero_state\<rparr>"

definition watchdog_start :: "crm_control_ctx \<Rightarrow> int \<Rightarrow> crm_control_ctx option" where
  "watchdog_start c ms = do {
     let c = c\<lparr>watch_id := watchdog_get_new_id (watch_id c)\<rparr>;
     msg \<leftarrow> watchdog_gen_scalar CRM_WATCH_START ms (watch_id c);
     Some (emit c (WatchMsg msg))
   }"

definition watchdog_stop :: "crm_control_ctx \<Rightarrow> crm_control_ctx option" where
  "watchdog_stop c = do {
     msg \<leftarrow> watchdog_gen_scalar CRM_WATCH_STOP 0 (watch_id c);
     Some (emit c (WatchMsg msg))
   }"

definition notify_op_result_if_needed :: "crm_control_ctx \<Rightarrow> int \<Rightarrow> crm_control_ctx" where
  "notify_op_result_if_needed c status =
     (if REQ_NONE \<noteq> client_request (cstate c)
      then emit (c\<lparr>cstate := (cstate c)\<lparr>client_request := REQ_NONE\<rparr>\<rparr>) (CliOpResult status)
      else c)"

definition mdm_flash :: "crm_control_ctx \<Rightarrow> (int \<times> crm_control_ctx) option" where
  "mdm_flash c =
     (case hal_evt (cstate c) of
        Some e \<Rightarrow>
          if fw_ready (cstate c)
          then do {
            ASSERT (hal_type e = HAL_MDM_FLASH);
            let c = emit c (UploadFlash (nodes e));
            Some (ST_FLASHING, c\<lparr>cstate := (cstate c)\<lparr>hal_evt := None, fw_ready := False\<rparr>\<rparr>)
          }
          else Some (-1, c)
      | None \<Rightarrow> Some (-1, c))"

definition mdm_cfg :: "crm_control_ctx \<Rightarrow> ctrl_param \<Rightarrow> (int \<times> crm_control_ctx) option" where
  "mdm_cfg c p =
     (if flash_done (cstate c) \<and> run_ipc (cstate c)
      then (let c = c\<lparr>cstate := (cstate c)\<lparr>flash_done := False, run_ipc := False\<rparr>\<rparr>
            in if nb_tlvs p > 0 then Some (ST_CUSTOMIZING, emit c (CustoSend (nb_tlvs p)))
               else Some (ST_UP, emit (notify_op_result_if_needed c 0) (CliModemState MDM_STATE_READY)))
      else Some (-1, c))"

text \<open>
  \<open>store_dbg_info\<close> takes the debug information over and clears the caller's pointer. The frees
  leave no trace in the model.
\<close>

definition store_dbg_info ::
  "crm_control_ctx \<Rightarrow> ctrl_param \<Rightarrow> bool \<Rightarrow> (crm_control_ctx \<times> ctrl_param) option" where
  "store_dbg_info c p overwrite =
     (case evt_param p of
        ED_null \<Rightarrow> Some (c, p)
      | ED_dbg d \<Rightarrow>
          Some (if dbg_evt (cdbg c) = None \<or> overwrite
                then c\<lparr>cdbg := (cdbg c)\<lparr>dbg_evt := Some d\<rparr>\<rparr> else c,
                p\<lparr>evt_param := ED_null\<rparr>)
      | ED_hal _ \<Rightarrow> None)"

definition notify_dbg_info :: "crm_control_ctx \<Rightarrow> ctrl_param \<Rightarrow> bool \<Rightarrow> crm_control_ctx option" where
  "notify_dbg_info c p report = do {
     c \<leftarrow> (if report \<and> \<not> do_not_report (cdbg c)
          then (let e = (if dbg_evt (cdbg c) = None \<and> reset_initiated_by_cla (cdbg c)
                         then Some (mk_dbg (DBG_TYPE_APIMR (cli p)) (DBG_DEFAULT_LOG_SIZE (cli p))
                                      (DBG_DEFAULT_NO_LOG (cli p)) (DBG_DEFAULT_NO_LOG (cli p)) [])
                         else dbg_evt (cdbg c))
                in case e of
                     None \<Rightarrow> None
                   | Some d \<Rightarrow> Some (emit (c\<lparr>cdbg := (cdbg c)\<lparr>dbg_evt := Some d\<rparr>\<rparr>)
                                         (CliNotify (MDM_DBG_INFO (cli p)) d)))
          else Some c);
     Some (c\<lparr>cdbg := \<lparr>do_not_report = False, reset_initiated_by_cla = False, dbg_evt = None\<rparr>\<rparr>)
   }"

definition mdm_restart ::
  "crm_control_ctx \<Rightarrow> ctrl_param \<Rightarrow> bool \<Rightarrow> bool \<Rightarrow> (int \<times> crm_control_ctx) option" where
  "mdm_restart c p report_dbg_info backup = do {
     c \<leftarrow> notify_dbg_info c p report_dbg_info;
     let c = emit c UploadPackage;
     let c = emit c (HalReset (if backup then RESET_BACKUP else RESET_COLD));
     let c = emit c (Broadcast ''com.intel.action.MODEM_COLD_RESET'');
     Some (ST_PACKAGING, c)
   }"

definition set_oos :: "crm_control_ctx \<Rightarrow> ctrl_param \<Rightarrow> (int \<times> crm_control_ctx) option" where
  "set_oos c p = do {
     ASSERT (is_mdm_oos c \<noteq> True);
     c \<leftarrow> notify_dbg_info c p True;
     let c = emit c (CliModemState MDM_STATE_UNRESP);
     let c = notify_op_result_if_needed c (-1);
     let c = c\<lparr>is_mdm_oos := True\<rparr>;
     Some (ST_DOWN, emit c (Broadcast ''com.intel.action.MODEM_OUT_OF_SERVICE''))
   }"

text \<open>
  The loop that asks Android to reboot: it goes on as long as the broadcast succeeds (answers 0),
  half a second apart, so that the program keeps asking until the platform goes down, and leaves
  the loop at the first failure. \<open>bcast i\<close> is the answer to the \<open>i\<close>-th broadcast. The result is the
  number of broadcasts made; \<open>None\<close> when none fails.
\<close>

partial_function (option) reboot_loop :: "(nat \<Rightarrow> int) \<Rightarrow> nat \<Rightarrow> nat option" where
  "reboot_loop bcast i = (if bcast i = 0 then reboot_loop bcast (Suc i) else Some (Suc i))"

definition platform_reboot :: "crm_control_ctx \<Rightarrow> ctrl_param \<Rightarrow> (int \<times> crm_control_ctx) option" where
  "platform_reboot c p = do {
     c \<leftarrow> notify_dbg_info c p True;
     let k = cli p;
     let c = emit c (CliNotify (MDM_DBG_INFO k)
                (mk_dbg (DBG_TYPE_PLATFORM_REBOOT k) (DBG_DEFAULT_LOG_SIZE k) (DBG_DEFAULT_LOG_SIZE k)
                   (DBG_DEFAULT_LOG_TIME k) []));
     let c = emit c (CliModemState MDM_STATE_PLATFORM_REBOOT);
     let c = notify_op_result_if_needed c (-1);
     let c = c\<lparr>is_mdm_oos := True\<rparr>;
     let c = emit c (Broadcast ''com.intel.action.PLATFORM_REBOOT'');
     n \<leftarrow> reboot_loop (reboot_bcast p) 0;
     Some (ST_DOWN, c\<lparr>out := out c @ replicate n (Broadcast ''android.intent.action.REBOOT'')\<rparr>)
   }"

section \<open>Operations of the table\<close>

definition flash_evt :: "crm_control_ctx \<Rightarrow> ctrl_param \<Rightarrow> (int \<times> crm_control_ctx) option" where
  "flash_evt c p = do {
     ASSERT (hal_evt (cstate c) = None);
     h \<leftarrow> (case evt_param p of ED_null \<Rightarrow> Some None | ED_hal h \<Rightarrow> Some (Some h) | ED_dbg _ \<Rightarrow> None);
     mdm_flash (c\<lparr>cstate := (cstate c)\<lparr>hal_evt := h\<rparr>\<rparr>)
   }"

definition fw_ready_evt :: "crm_control_ctx \<Rightarrow> ctrl_param \<Rightarrow> (int \<times> crm_control_ctx) option" where
  "fw_ready_evt c p = mdm_flash (c\<lparr>cstate := (cstate c)\<lparr>fw_ready := True\<rparr>\<rparr>)"

definition run_evt_initial :: "crm_control_ctx \<Rightarrow> ctrl_param \<Rightarrow> (int \<times> crm_control_ctx) option" where
  "run_evt_initial c p = mdm_cfg (c\<lparr>cstate := (cstate c)\<lparr>run_ipc := True, flash_done := True\<rparr>\<rparr>) p"

definition run_evt :: "crm_control_ctx \<Rightarrow> ctrl_param \<Rightarrow> (int \<times> crm_control_ctx) option" where
  "run_evt c p = mdm_cfg (c\<lparr>cstate := (cstate c)\<lparr>run_ipc := True\<rparr>\<rparr>) p"

definition flash_success_evt :: "crm_control_ctx \<Rightarrow> ctrl_param \<Rightarrow> (int \<times> crm_control_ctx) option" where
  "flash_success_evt c p =
     (let c = (if \<not> run_ipc (cstate c) then emit c HalBoot else c);
          c = emit c (ElectorFlashed 0)
      in mdm_cfg (c\<lparr>cstate := (cstate c)\<lparr>flash_done := True\<rparr>\<rparr>) p)"

definition mdm_stop :: "crm_control_ctx \<Rightarrow> ctrl_param \<Rightarrow> (int \<times> crm_control_ctx) option" where
  "mdm_stop c p = Some (ST_WAITING, emit c HalShutdown)"

definition fw_flash_failure :: "crm_control_ctx \<Rightarrow> ctrl_param \<Rightarrow> (int \<times> crm_control_ctx) option" where
  "fw_flash_failure c p = do { (c, p) \<leftarrow> store_dbg_info c p True; set_oos c p }"

definition escalation :: "crm_control_ctx \<Rightarrow> ctrl_param \<Rightarrow> (int \<times> crm_control_ctx) option" where
  "escalation c p = do {
     (c, p) \<leftarrow> store_dbg_info c p True;
     (step, e) \<leftarrow> get_next_step (now p) (esc c);
     let c = c\<lparr>esc := e\<rparr>;
     if step = STEP_MDM_WARM_RESET then None
     else if step = STEP_MDM_COLD_RESET then mdm_restart c p True False
     else if step = STEP_PLATFORM_REBOOT then platform_reboot c p
     else if step = STEP_OOS then set_oos c p
     else None
   }"

definition requested_operation :: "crm_control_ctx \<Rightarrow> ctrl_param \<Rightarrow> (int \<times> crm_control_ctx) option" where
  "requested_operation c p = do {
     (c, p) \<leftarrow> store_dbg_info c p True;
     (case client_request (cstate c) of
        REQ_NONE \<Rightarrow> Some (ST_WAITING, c)
      | REQ_RESET \<Rightarrow> escalation c p
      | REQ_START \<Rightarrow> escalation c p
      | REQ_STOP \<Rightarrow> mdm_stop c p)
   }"

definition set_request :: "crm_control_ctx \<Rightarrow> cli_request \<Rightarrow> crm_control_ctx option" where
  "set_request c r = do {
     ASSERT (client_request (cstate c) = REQ_NONE);
     Some (c\<lparr>cstate := (cstate c)\<lparr>client_request := r\<rparr>\<rparr>)
   }"

definition accept_stop :: "crm_control_ctx \<Rightarrow> ctrl_param \<Rightarrow> (int \<times> crm_control_ctx) option" where
  "accept_stop c p = do { c \<leftarrow> set_request c REQ_STOP; Some (-1, c) }"

definition accept_reset :: "crm_control_ctx \<Rightarrow> ctrl_param \<Rightarrow> (int \<times> crm_control_ctx) option" where
  "accept_reset c p = do { c \<leftarrow> set_request c REQ_RESET; Some (-1, c) }"

definition request_start :: "crm_control_ctx \<Rightarrow> ctrl_param \<Rightarrow> (int \<times> crm_control_ctx) option" where
  "request_start c p = do {
     c \<leftarrow> set_request c REQ_START;
     if is_mdm_oos c then Some (-1, notify_op_result_if_needed c (-1))
     else Some (ST_PACKAGING, emit (emit c UploadPackage) HalPowerOn)
   }"

definition request_reset :: "crm_control_ctx \<Rightarrow> ctrl_param \<Rightarrow> (int \<times> crm_control_ctx) option" where
  "request_reset c p = do {
     (c, p) \<leftarrow> store_dbg_info c p False;
     c \<leftarrow> set_request c REQ_RESET;
     if waiting_hal_busy_reason (cstate c) then Some (-1, c)
     else escalation c (p\<lparr>evt_param := ED_null\<rparr>)
   }"

definition request_reset_timer :: "crm_control_ctx \<Rightarrow> ctrl_param \<Rightarrow> (int \<times> crm_control_ctx) option" where
  "request_reset_timer c p = do {
     (c, p) \<leftarrow> store_dbg_info c p False;
     c \<leftarrow> set_request c REQ_RESET;
     let c = c\<lparr>cdbg := (cdbg c)\<lparr>reset_initiated_by_cla := True\<rparr>\<rparr>;
     c \<leftarrow> start_timer (now p) c MAX_RESET_TIMEOUT;
     Some (-1, c)
   }"

definition request_update :: "crm_control_ctx \<Rightarrow> ctrl_param \<Rightarrow> (int \<times> crm_control_ctx) option" where
  "request_update c p = do {
     c \<leftarrow> set_request c REQ_RESET;
     let c = c\<lparr>cdbg := (cdbg c)\<lparr>do_not_report := True\<rparr>\<rparr>;
     if waiting_hal_busy_reason (cstate c) then Some (-1, c)
     else mdm_restart c p False False
   }"

definition request_backup :: "crm_control_ctx \<Rightarrow> ctrl_param \<Rightarrow> (int \<times> crm_control_ctx) option" where
  "request_backup c p = do { c \<leftarrow> set_request c REQ_RESET; mdm_restart c p False True }"

definition request_stop :: "crm_control_ctx \<Rightarrow> ctrl_param \<Rightarrow> (int \<times> crm_control_ctx) option" where
  "request_stop c p = do {
     c \<leftarrow> set_request c REQ_STOP;
     if waiting_hal_busy_reason (cstate c) then Some (-1, c) else mdm_stop c p
   }"

definition no_log_dbg :: "mdm_cli \<Rightarrow> 32 word \<Rightarrow> mdm_cli_dbg_info" where
  "no_log_dbg k ty = mk_dbg ty (DBG_DEFAULT_NO_LOG k) (DBG_DEFAULT_NO_LOG k) (DBG_DEFAULT_NO_LOG k) []"

definition reset_after_tlv :: "crm_control_ctx \<Rightarrow> ctrl_param \<Rightarrow> (int \<times> crm_control_ctx) option" where
  "reset_after_tlv c p =
     (let k = cli p;
          c = emit c (Broadcast ''com.intel.action.MODEM_TLV_APPLY_SUCCESS'');
          c = emit c (ElectorTlv 0);
          c = emit c (CliNotify (MDM_DBG_INFO k) (no_log_dbg k (DBG_TYPE_TLV_SUCCESS k)))
      in mdm_restart c p False False)"

definition flash_failure :: "crm_control_ctx \<Rightarrow> ctrl_param \<Rightarrow> (int \<times> crm_control_ctx) option" where
  "flash_failure c p = Some (-2, emit c (ElectorFlashed (-1)))"

definition custo_failure :: "crm_control_ctx \<Rightarrow> ctrl_param \<Rightarrow> (int \<times> crm_control_ctx) option" where
  "custo_failure c p =
     (let k = cli p;
          c = emit c (Broadcast ''com.intel.action.MODEM_TLV_APPLY_ERROR'');
          c = emit c (ElectorTlv (-1))
      in Some (-2, emit c (CliNotify (MDM_DBG_INFO k) (no_log_dbg k (DBG_TYPE_TLV_FAILURE k)))))"

definition pack_failure :: "crm_control_ctx \<Rightarrow> ctrl_param \<Rightarrow> (int \<times> crm_control_ctx) option" where
  "pack_failure c p = Some (-2, emit c (ElectorFlashed (-1)))"

definition notify_off :: "crm_control_ctx \<Rightarrow> ctrl_param \<Rightarrow> (int \<times> crm_control_ctx) option" where
  "notify_off c p = Some (ST_DOWN, emit (notify_op_result_if_needed c 0) (CliModemState MDM_STATE_OFF))"

definition notify_unresp :: "crm_control_ctx \<Rightarrow> ctrl_param \<Rightarrow> (int \<times> crm_control_ctx) option" where
  "notify_unresp c p = do {
     (c, p) \<leftarrow> store_dbg_info c p True;
     (last_step, e) \<leftarrow> get_last_step (esc c);
     let c = c\<lparr>esc := e\<rparr>;
     if last_step = STEP_PLATFORM_REBOOT then platform_reboot c p
     else if last_step = STEP_OOS then set_oos c p
     else None
   }"

definition notify_busy :: "crm_control_ctx \<Rightarrow> ctrl_param \<Rightarrow> (int \<times> crm_control_ctx) option" where
  "notify_busy c p = Some (-1, emit c (CliModemState MDM_STATE_BUSY))"

definition dump_start :: "crm_control_ctx \<Rightarrow> ctrl_param \<Rightarrow> (int \<times> crm_control_ctx) option" where
  "dump_start c p =
     (case evt_param p of
        ED_hal h \<Rightarrow> do {
          let k = cli p;
          let c = c\<lparr>cdbg := (cdbg c)\<lparr>do_not_report := True\<rparr>\<rparr>;
          let c = emit c (CliNotify (MDM_DBG_INFO k)
                    (mk_dbg (DBG_TYPE_DUMP_START k) (DBG_DEFAULT_LOG_SIZE k) (DBG_DEFAULT_NO_LOG k)
                       (DBG_DEFAULT_NO_LOG k) []));
          let c = emit c (Broadcast ''com.intel.action.CORE_DUMP_WARNING'');
          ASSERT (has_dump p);
          Some (ST_DUMPING, emit c (DumpRead (nodes h)))
        }
      | _ \<Rightarrow> None)"

definition dump_end :: "crm_control_ctx \<Rightarrow> ctrl_param \<Rightarrow> (int \<times> crm_control_ctx) option" where
  "dump_end c p = requested_operation (emit c (Broadcast ''com.intel.action.CORE_DUMP_COMPLETE'')) p"

definition dump_error :: "crm_control_ctx \<Rightarrow> ctrl_param \<Rightarrow> (int \<times> crm_control_ctx) option" where
  "dump_error c p =
     (let k = cli p;
          c = emit c DumpStop;
          c = emit c (CliNotify (MDM_DBG_INFO k)
                (mk_dbg (DBG_TYPE_ERROR k) (DBG_DEFAULT_LOG_SIZE k) (DBG_DEFAULT_LOG_SIZE k)
                   (DBG_DEFAULT_LOG_TIME k) [DUMP_STR_LINK_ERR k]))
      in requested_operation c (p\<lparr>evt_param := ED_null\<rparr>))"

definition todo :: "crm_control_ctx \<Rightarrow> ctrl_param \<Rightarrow> (int \<times> crm_control_ctx) option" where
  "todo c p = None"

definition assert :: "crm_control_ctx \<Rightarrow> ctrl_param \<Rightarrow> (int \<times> crm_control_ctx) option" where
  "assert c p = None"

definition failsafe :: "crm_control_ctx \<Rightarrow> ctrl_param \<Rightarrow> (int \<times> crm_control_ctx) option" where
  "failsafe c p = request_stop (clear_internal_state (notify_op_result_if_needed c (-1))) p"

section \<open>Hooks\<close>

definition state_trans :: "int \<Rightarrow> int \<Rightarrow> int \<Rightarrow> crm_control_ctx \<Rightarrow> ctrl_param \<Rightarrow> crm_control_ctx option" where
  "state_trans prev_state new_state evt c p = do {
     ASSERT (new_state \<noteq> ST_INITIAL);
     c \<leftarrow> (if ST_UP = prev_state \<or> ST_DOWN = prev_state then watchdog_start c (timeout c) else Some c);
     let c = (if ST_UP = prev_state \<and> timer_armed c then c\<lparr>timer_armed := False\<rparr> else c);
     if ST_UP = new_state \<or> ST_DOWN = new_state then watchdog_stop c else Some c
   }"

definition pre_op :: "int \<Rightarrow> crm_control_ctx \<Rightarrow> crm_control_ctx option" where
  "pre_op evt c =
     (if evt = EV_HAL_MDM_BUSY
      then Some (c\<lparr>cstate := (cstate c)\<lparr>waiting_hal_busy_reason := True\<rparr>\<rparr>)
      else if evt = EV_HAL_MDM_NEED_RESET \<or> evt = EV_HAL_MDM_FLASH \<or> evt = EV_HAL_MDM_DUMP \<or>
              evt = EV_HAL_MDM_UNRESPONSIVE
      then do {
        ASSERT (waiting_hal_busy_reason (cstate c));
        Some (c\<lparr>cstate := (cstate c)\<lparr>waiting_hal_busy_reason := False\<rparr>\<rparr>)
      }
      else Some c)"

section \<open>The table\<close>

abbreviation (input) cell :: "(crm_control_ctx \<Rightarrow> ctrl_param \<Rightarrow> (int \<times> crm_control_ctx) option) \<Rightarrow>
    (crm_control_ctx, ctrl_param) crm_fsm_ops" where
  "cell f \<equiv> \<lparr>force_new_state = -1, operation = Some f\<rparr>"

abbreviation (input) no_op :: "(crm_control_ctx, ctrl_param) crm_fsm_ops" where
  "no_op \<equiv> \<lparr>force_new_state = -1, operation = None\<rparr>"

text \<open>A row per event, in the order of the states.\<close>

definition ctrl_rows :: "(crm_control_ctx, ctrl_param) crm_fsm_ops list list" where
  "ctrl_rows =
    [[cell assert, cell request_start, cell assert, cell assert, cell assert, cell assert, cell assert, cell assert],
     [cell assert, cell assert, cell assert, cell assert, cell assert, cell request_stop, cell request_stop, cell accept_stop],
     [cell assert, cell request_start, cell assert, cell assert, cell assert, cell request_reset_timer, cell request_reset, cell accept_reset],
     [cell assert, cell request_start, cell assert, cell assert, cell assert, cell request_update, cell request_update, cell accept_reset],
     [cell assert, cell assert, cell assert, cell assert, cell assert, cell request_backup, cell assert, no_op],

     [cell notify_off, no_op, cell escalation, cell todo, cell todo, cell todo, cell notify_off, cell assert],
     [cell run_evt_initial, cell mdm_stop, cell escalation, cell run_evt, cell todo, cell assert, cell escalation, cell assert],
     [cell assert, no_op, cell notify_busy, no_op, no_op, \<lparr>force_new_state = ST_WAITING, operation = Some notify_busy\<rparr>, no_op, cell dump_error],
     [cell assert, cell todo, cell escalation, cell escalation, cell escalation, cell assert, cell requested_operation, cell assert],
     [cell assert, cell todo, cell flash_evt, cell assert, cell todo, cell assert, cell requested_operation, cell assert],
     [cell assert, cell dump_start, cell dump_start, cell dump_start, cell dump_start, cell assert, cell dump_start, cell assert],
     [cell assert, cell assert, cell notify_unresp, cell fw_flash_failure, cell assert, cell assert, cell notify_unresp, cell assert],

     [cell assert, cell todo, cell todo, cell todo, cell todo, cell todo, cell todo, cell assert],
     [cell assert, cell todo, cell fw_ready_evt, cell flash_success_evt, cell reset_after_tlv, cell todo, cell todo, cell assert],
     [cell assert, cell todo, cell todo, cell todo, cell todo, cell todo, cell todo, cell dump_end],

     [cell assert, cell failsafe, cell pack_failure, cell flash_failure, cell custo_failure, cell failsafe, cell failsafe, cell requested_operation],
     [cell assert, cell assert, cell assert, cell assert, cell assert, cell escalation, cell assert, cell assert]]"

definition ctrl_fsm :: "(crm_control_ctx, ctrl_param) crm_fsm_ctx" where
  "ctrl_fsm = \<lparr>fsm = concat ctrl_rows, num_events = EV_NUM, num_states = ST_NUM,
     pre_op = Some pre_op, state_trans = Some state_trans, failsafe = failsafe,
     get_state_txt = get_state_txt, get_event_txt = get_event_txt\<rparr>"

section \<open>The event loop\<close>

text \<open>Before the loop: the machine is created and the watchdog started.\<close>

definition event_loop_start :: "crm_control_ctx \<Rightarrow> (int \<times> crm_control_ctx) option" where
  "event_loop_start c = do {
     st \<leftarrow> crm_fsm_init ctrl_fsm ST_INITIAL ''CTRL'';
     c \<leftarrow> watchdog_start c (timeout c);
     Some (st, c)
   }"

text \<open>
  What \<open>poll\<close> returns with: an error, the timeout, messages of the control pipe (identifier and
  argument) or messages of the watchdog.
\<close>

datatype ctrl_input =
    CtrlError
  | CtrlTimeout ctrl_param
  | CtrlMsgs "(int \<times> ctrl_param) list"
  | CtrlWatch "64 word list"

fun ctrl_msgs :: "(int \<times> ctrl_param) list \<Rightarrow> bool \<times> int \<times> crm_control_ctx \<Rightarrow> (bool \<times> int \<times> crm_control_ctx) option" where
  "ctrl_msgs [] s = Some s"
| "ctrl_msgs ((sc, p) # ms) (running, st, c) =
     (if sc = -1 then ctrl_msgs ms (False, st, c)
      else do {
        (st, c) \<leftarrow> notify_event ctrl_fsm st sc c p;
        ctrl_msgs ms (running, st, c)
      })"

fun watch_msgs :: "64 word list \<Rightarrow> crm_control_ctx \<Rightarrow> crm_control_ctx option" where
  "watch_msgs [] c = Some c"
| "watch_msgs (m # ms) c = do {
     ASSERT (CRM_WATCH_PING = watchdog_get_request m);
     r \<leftarrow> watchdog_gen_scalar CRM_WATCH_PONG 0 (watchdog_get_id m);
     watch_msgs ms (emit c (WatchMsg r))
   }"

definition event_loop_iter ::
  "ctrl_input \<Rightarrow> bool \<times> int \<times> crm_control_ctx \<Rightarrow> (bool \<times> int \<times> crm_control_ctx) option" where
  "event_loop_iter inp s =
     (case s of (running, st, c) \<Rightarrow>
       (case inp of
          CtrlError \<Rightarrow> None
        | CtrlTimeout p \<Rightarrow> do {
            ASSERT (timer_armed c = True);
            (st, c) \<leftarrow> notify_event ctrl_fsm st EV_TIMEOUT c (p\<lparr>evt_param := ED_null\<rparr>);
            Some (running, st, c)
          }
        | CtrlMsgs ms \<Rightarrow> ctrl_msgs ms (running, st, c)
        | CtrlWatch ms \<Rightarrow> do { c \<leftarrow> watch_msgs ms c; Some (running, st, c) }))"

fun event_loop :: "ctrl_input list \<Rightarrow> bool \<times> int \<times> crm_control_ctx \<Rightarrow> (bool \<times> int \<times> crm_control_ctx) option" where
  "event_loop [] s = Some s"
| "event_loop (i # is) s = (if fst s then do { s \<leftarrow> event_loop_iter i s; event_loop is s } else Some s)"

section \<open>Requests and notifications of the other modules\<close>

text \<open>
  request.c and notify.c run in the threads of the other modules and post to the pipe of Control.
  A message is its identifier and its argument.
\<close>

type_synonym ctrl_pipe = "(int \<times> ctrl_evt) crm_ipc_ctx"

definition post :: "8 word \<Rightarrow> ctrl_pipe \<Rightarrow> int \<Rightarrow> ctrl_evt \<Rightarrow> (8 word \<times> ctrl_pipe) option" where
  "post d q sc e = do { (r, d, q) \<leftarrow> send_msg_thread d q (sc, e); Some (d, q) }"

definition post_checked :: "8 word \<Rightarrow> ctrl_pipe \<Rightarrow> int \<Rightarrow> ctrl_evt \<Rightarrow> (8 word \<times> ctrl_pipe) option" where
  "post_checked d q sc e = do { (r, d, q) \<leftarrow> send_msg_thread d q (sc, e); ASSERT r; Some (d, q) }"

definition copy_dbg_info :: "mdm_cli_dbg_info \<Rightarrow> mdm_cli_dbg_info option" where
  "copy_dbg_info d = do {
     ASSERT (unat (nb_data d) \<le> length (ddata d));
     Some (d\<lparr>ddata := take (unat (nb_data d)) (ddata d)\<rparr>)
   }"

definition crm_ctrl_start :: "8 word \<Rightarrow> ctrl_pipe \<Rightarrow> (8 word \<times> ctrl_pipe) option" where
  "crm_ctrl_start d q = post d q EV_CLI_START ED_null"

definition crm_ctrl_stop :: "8 word \<Rightarrow> ctrl_pipe \<Rightarrow> (8 word \<times> ctrl_pipe) option" where
  "crm_ctrl_stop d q = post d q EV_CLI_STOP ED_null"

definition get_restart_type_string :: "int \<Rightarrow> string option" where
  "get_restart_type_string ty =
     (if ty = CTRL_MODEM_RESTART then Some ''modem restart''
      else if ty = CTRL_MODEM_UPDATE then Some ''modem update''
      else if ty = CTRL_BACKUP_NVM then Some ''modem NVM backup''
      else None)"

definition crm_ctrl_restart ::
  "8 word \<Rightarrow> ctrl_pipe \<Rightarrow> int \<Rightarrow> mdm_cli_dbg_info option \<Rightarrow> (8 word \<times> ctrl_pipe) option" where
  "crm_ctrl_restart d q ty dbg = do {
     (sc, e) \<leftarrow>
       (if ty = CTRL_MODEM_RESTART
        then (case dbg of
                None \<Rightarrow> Some (EV_CLI_RESET, ED_null)
              | Some di \<Rightarrow> do { di \<leftarrow> copy_dbg_info di; Some (EV_CLI_RESET, ED_dbg di) })
        else if ty = CTRL_MODEM_UPDATE then do { ASSERT (dbg = None); Some (EV_CLI_UPDATE, ED_null) }
        else if ty = CTRL_BACKUP_NVM then do { ASSERT (dbg = None); Some (EV_CLI_NVM_BACKUP, ED_null) }
        else None);
     get_restart_type_string ty;
     post d q sc e
   }"

definition notify_simple_event :: "8 word \<Rightarrow> ctrl_pipe \<Rightarrow> int \<Rightarrow> int \<Rightarrow> (8 word \<times> ctrl_pipe) option" where
  "notify_simple_event d q evt status = post d q (if status \<noteq> 0 then EV_FAILURE else evt) ED_null"

definition get_hal_id :: "int \<Rightarrow> int option" where
  "get_hal_id ty =
     (if ty = HAL_MDM_OFF then Some EV_HAL_MDM_OFF
      else if ty = HAL_MDM_RUN then Some EV_HAL_MDM_RUN
      else if ty = HAL_MDM_BUSY then Some EV_HAL_MDM_BUSY
      else if ty = HAL_MDM_NEED_RESET then Some EV_HAL_MDM_NEED_RESET
      else if ty = HAL_MDM_FLASH then Some EV_HAL_MDM_FLASH
      else if ty = HAL_MDM_DUMP then Some EV_HAL_MDM_DUMP
      else if ty = HAL_MDM_UNRESPONSIVE then Some EV_HAL_MDM_UNRESPONSIVE
      else None)"

definition notify_hal_event :: "8 word \<Rightarrow> ctrl_pipe \<Rightarrow> crm_hal_evt \<Rightarrow> (8 word \<times> ctrl_pipe) option" where
  "notify_hal_event d q event = do {
     sc \<leftarrow> get_hal_id (hal_type event);
     if hal_type event \<in> {HAL_MDM_OFF, HAL_MDM_RUN, HAL_MDM_BUSY} then post_checked d q sc ED_null
     else if hal_type event \<in> {HAL_MDM_NEED_RESET, HAL_MDM_UNRESPONSIVE}
     then do {
       di \<leftarrow> hal_dbg_info event;
       di \<leftarrow> copy_dbg_info di;
       post_checked d q sc (ED_dbg di)
     }
     else post_checked d q sc (ED_hal event)
   }"

definition notify_nvm_status :: "8 word \<Rightarrow> ctrl_pipe \<Rightarrow> int \<Rightarrow> (8 word \<times> ctrl_pipe) option" where
  "notify_nvm_status d q status = notify_simple_event d q EV_NVM_SUCCESS status"

definition notify_fw_upload_status :: "8 word \<Rightarrow> ctrl_pipe \<Rightarrow> int \<Rightarrow> (8 word \<times> ctrl_pipe) option" where
  "notify_fw_upload_status d q status = notify_simple_event d q EV_FW_SUCCESS status"

definition notify_customization_status :: "8 word \<Rightarrow> ctrl_pipe \<Rightarrow> int \<Rightarrow> (8 word \<times> ctrl_pipe) option" where
  "notify_customization_status d q status = notify_simple_event d q EV_FW_SUCCESS status"

definition notify_dump_status :: "8 word \<Rightarrow> ctrl_pipe \<Rightarrow> int \<Rightarrow> (8 word \<times> ctrl_pipe) option" where
  "notify_dump_status d q status = notify_simple_event d q EV_DUMP_SUCCESS status"

lemmas ctrl_helper_defs [crm_defs] = emit_def start_timer_def clear_internal_state_def
  notify_op_result_if_needed_def mdm_flash_def mdm_cfg_def store_dbg_info_def notify_dbg_info_def
  mdm_restart_def set_oos_def platform_reboot_def set_request_def zero_state_def

lemmas ctrl_op_defs [crm_defs] = flash_evt_def fw_ready_evt_def run_evt_initial_def run_evt_def
  flash_success_evt_def mdm_stop_def fw_flash_failure_def escalation_def requested_operation_def
  accept_stop_def accept_reset_def request_start_def request_reset_def request_reset_timer_def
  request_update_def request_backup_def request_stop_def no_log_dbg_def reset_after_tlv_def
  flash_failure_def custo_failure_def pack_failure_def notify_off_def notify_unresp_def
  notify_busy_def dump_start_def dump_end_def dump_error_def todo_def assert_def failsafe_def

end
