(* ===== verification/Crm_Control_Props.thy ===== *)
theory Crm_Control_Props
  imports Crm_Control
begin

text \<open>
  Correctness of the Control module: what every operation of the table keeps (the frame), the
  invariants of the machine with its watchdog and its timer, the accounting of the replies to the
  client requests, and the sequences of events the table handles or does not handle.
\<close>

section \<open>Observations on a context\<close>

fun is_result :: "ctrl_out \<Rightarrow> bool" where
  "is_result (CliOpResult _) = True"
| "is_result _ = False"

fun watch_of :: "ctrl_out \<Rightarrow> 64 word list" where
  "watch_of (WatchMsg m) = [m]"
| "watch_of _ = []"

text \<open>Replies sent to the clients, requests pending, messages sent to the watchdog.\<close>

definition replies :: "crm_control_ctx \<Rightarrow> nat" where
  "replies c = length (filter is_result (out c))"

definition pending :: "crm_control_ctx \<Rightarrow> nat" where
  "pending c = (if client_request (cstate c) = REQ_NONE then 0 else 1)"

definition wd_msgs :: "crm_control_ctx \<Rightarrow> 64 word list" where
  "wd_msgs c = concat (map watch_of (out c))"

definition esc_ok :: "crm_control_ctx \<Rightarrow> bool" where
  "esc_ok c \<longleftrightarrow> esc_inv (esc c) \<and> \<not> has_warm (esc c)"

text \<open>
  The frame of an operation that accounts for \<open>n\<close> new requests: replies and pending requests
  together grow by \<open>n\<close>; out of service is for ever; the watchdog, its timeout and the escalation
  contract are left alone.
\<close>

definition ctrl_frame :: "nat \<Rightarrow> crm_control_ctx \<Rightarrow> crm_control_ctx \<Rightarrow> bool" where
  "ctrl_frame n c c' \<longleftrightarrow>
     replies c' + pending c' = replies c + pending c + n \<and>
     (is_mdm_oos c \<longrightarrow> is_mdm_oos c') \<and>
     watch_id c' = watch_id c \<and> timeout c' = timeout c \<and> wd_msgs c' = wd_msgs c \<and>
     (esc_ok c \<longrightarrow> esc_ok c')"

lemmas frame_simps = ctrl_frame_def replies_def pending_def wd_msgs_def esc_ok_def

lemma ctrl_frame_refl [simp]: "ctrl_frame 0 c c"
  by (simp add: ctrl_frame_def)

lemma ctrl_frame_trans: "ctrl_frame n c c1 \<Longrightarrow> ctrl_frame m c1 c2 \<Longrightarrow> k = n + m \<Longrightarrow> ctrl_frame k c c2"
  by (simp add: ctrl_frame_def)

lemma ctrl_frame_trans0: "ctrl_frame n c c1 \<Longrightarrow> ctrl_frame 0 c1 c2 \<Longrightarrow> ctrl_frame n c c2"
  "ctrl_frame 0 c c1 \<Longrightarrow> ctrl_frame n c1 c2 \<Longrightarrow> ctrl_frame n c c2"
  by (simp_all add: ctrl_frame_def)

text \<open>Updates the frame does not see, made before an operation.\<close>

lemma ctrl_frame_left [simp]:
  "client_request s = client_request (cstate c) \<Longrightarrow> ctrl_frame n (c\<lparr>cstate := s\<rparr>) c' = ctrl_frame n c c'"
  "ctrl_frame n (c\<lparr>cdbg := d\<rparr>) c' = ctrl_frame n c c'"
  "\<not> is_result o' \<Longrightarrow> watch_of o' = [] \<Longrightarrow> ctrl_frame n (emit c o') c' = ctrl_frame n c c'"
  by (simp_all add: frame_simps emit_def)

lemma emit_cstate [simp]: "cstate (emit c o') = cstate c"
  by (simp add: emit_def)

lemma emit_frame: "\<not> is_result o' \<Longrightarrow> watch_of o' = [] \<Longrightarrow> ctrl_frame 0 c (emit c o')"
  by (simp add: frame_simps emit_def)

lemma emit_timer [simp]: "timer_armed (emit c o') = timer_armed c"
  by (simp add: emit_def)

text \<open>An operation that keeps the frame and the timer, and whose next state is in a set.\<close>

definition op_ok :: "nat \<Rightarrow> int set \<Rightarrow> (crm_control_ctx \<Rightarrow> ctrl_param \<Rightarrow> (int \<times> crm_control_ctx) option) \<Rightarrow> bool" where
  "op_ok n S f \<longleftrightarrow> (\<forall>c p s c'. f c p = Some (s, c') \<longrightarrow>
     ctrl_frame n c c' \<and> timer_armed c' = timer_armed c \<and> s \<in> S)"

lemma op_okD: "op_ok n S f \<Longrightarrow> f c p = Some (s, c') \<Longrightarrow> ctrl_frame n c c' \<and> timer_armed c' = timer_armed c \<and> s \<in> S"
  by (simp add: op_ok_def)

lemma op_ok_mono: "op_ok n S f \<Longrightarrow> S \<subseteq> T \<Longrightarrow> op_ok n T f"
  by (auto simp: op_ok_def)

section \<open>The helpers\<close>

lemma notify_op_result_frame:
  "ctrl_frame 0 c (notify_op_result_if_needed c s) \<and>
   timer_armed (notify_op_result_if_needed c s) = timer_armed c \<and>
   client_request (cstate (notify_op_result_if_needed c s)) = REQ_NONE"
  by (simp add: frame_simps notify_op_result_if_needed_def emit_def)

lemma store_dbg_info_frame:
  "store_dbg_info c p b = Some (c', p') \<Longrightarrow>
   ctrl_frame 0 c c' \<and> timer_armed c' = timer_armed c \<and> cstate c' = cstate c \<and> esc c' = esc c \<and> is_mdm_oos c' = is_mdm_oos c"
  by (auto simp: store_dbg_info_def frame_simps split: ctrl_evt.splits if_splits)

lemma notify_dbg_info_frame:
  "notify_dbg_info c p b = Some c' \<Longrightarrow>
   ctrl_frame 0 c c' \<and> timer_armed c' = timer_armed c \<and> cstate c' = cstate c \<and> is_mdm_oos c' = is_mdm_oos c"
  by (auto simp: notify_dbg_info_def frame_simps emit_def Let_def bind_Some_iff split: option.splits if_splits)

lemma frame_emit: "ctrl_frame n c c' \<Longrightarrow> \<not> is_result o' \<Longrightarrow> watch_of o' = [] \<Longrightarrow> ctrl_frame n c (emit c' o')"
  by (rule ctrl_frame_trans [OF _ emit_frame]) auto

lemma frame_result: "ctrl_frame n c c' \<Longrightarrow> ctrl_frame n c (notify_op_result_if_needed c' s)"
  by (rule ctrl_frame_trans [where m = 0]) (use notify_op_result_frame in auto)

lemma frame_oos: "ctrl_frame n c c' \<Longrightarrow> ctrl_frame n c (c'\<lparr>is_mdm_oos := True\<rparr>)"
  by (simp add: frame_simps)

lemma mdm_restart_frame:
  "mdm_restart c p r b = Some (s, c') \<Longrightarrow> ctrl_frame 0 c c' \<and> timer_armed c' = timer_armed c \<and> s = ST_PACKAGING"
  by (auto simp: mdm_restart_def bind_Some_iff Let_def dest!: notify_dbg_info_frame intro!: frame_emit)

lemma set_oos_frame:
  "set_oos c p = Some (s, c') \<Longrightarrow>
   ctrl_frame 0 c c' \<and> timer_armed c' = timer_armed c \<and> s = ST_DOWN \<and> is_mdm_oos c' \<and> pending c' = 0"
  using notify_op_result_frame
  by (auto simp: set_oos_def bind_Some_iff Let_def pending_def dest!: notify_dbg_info_frame
      intro!: frame_emit frame_oos frame_result) (auto simp: emit_def)

lemma reboot_frame: "ctrl_frame n c c' \<Longrightarrow>
    ctrl_frame n c (c'\<lparr>out := out c' @ replicate k (Broadcast t)\<rparr>)"
  by (simp add: frame_simps)

lemma platform_reboot_frame:
  "platform_reboot c p = Some (s, c') \<Longrightarrow>
   ctrl_frame 0 c c' \<and> timer_armed c' = timer_armed c \<and> s = ST_DOWN \<and> is_mdm_oos c' \<and> pending c' = 0"
  using notify_op_result_frame
  by (auto simp: platform_reboot_def bind_Some_iff Let_def pending_def dest!: notify_dbg_info_frame
      intro!: frame_emit frame_oos frame_result reboot_frame) (auto simp: emit_def)

lemma mdm_flash_frame:
  "mdm_flash c = Some (s, c') \<Longrightarrow> ctrl_frame 0 c c' \<and> timer_armed c' = timer_armed c \<and> s \<in> {-1, ST_FLASHING}"
  by (auto simp: mdm_flash_def bind_Some_iff Let_def frame_simps emit_def split: option.splits if_splits)

lemma mdm_cfg_frame:
  "mdm_cfg c p = Some (s, c') \<Longrightarrow> ctrl_frame 0 c c' \<and> timer_armed c' = timer_armed c \<and> s \<in> {-1, ST_CUSTOMIZING, ST_UP}"
  by (auto simp: mdm_cfg_def notify_op_result_if_needed_def Let_def frame_simps emit_def split: if_splits)

lemma frame_esc: "ctrl_frame n c c' \<Longrightarrow> (esc_ok c \<longrightarrow> esc_inv e \<and> \<not> has_warm e) \<Longrightarrow> ctrl_frame n c (c'\<lparr>esc := e\<rparr>)"
  by (simp add: frame_simps)

lemma next_step_ok: "esc_ok c \<Longrightarrow> get_next_step t (esc c) = Some (step, e) \<Longrightarrow> esc_inv e \<and> \<not> has_warm e"
  using esc.next_cases [of "esc c" t] by (auto simp: esc_ok_def)

lemma last_step_ok: "esc_ok c \<Longrightarrow> get_last_step (esc c) = Some (step, e) \<Longrightarrow> esc_inv e \<and> \<not> has_warm e"
  using esc.last_cases [of "esc c"] by (auto simp: esc_ok_def)

section \<open>The operations\<close>

lemma op_flash_evt: "op_ok 0 {-1, ST_FLASHING} flash_evt"
  by (auto simp: op_ok_def flash_evt_def bind_Some_iff dest!: mdm_flash_frame)

lemma op_fw_ready_evt: "op_ok 0 {-1, ST_FLASHING} fw_ready_evt"
  by (auto simp: op_ok_def fw_ready_evt_def dest!: mdm_flash_frame)

lemma op_run_evt_initial: "op_ok 0 {-1, ST_CUSTOMIZING, ST_UP} run_evt_initial"
  by (auto simp: op_ok_def run_evt_initial_def dest!: mdm_cfg_frame)

lemma op_run_evt: "op_ok 0 {-1, ST_CUSTOMIZING, ST_UP} run_evt"
  by (auto simp: op_ok_def run_evt_def dest!: mdm_cfg_frame)

lemma op_flash_success_evt: "op_ok 0 {-1, ST_CUSTOMIZING, ST_UP} flash_success_evt"
  by (auto simp: op_ok_def flash_success_evt_def Let_def dest!: mdm_cfg_frame split: if_splits)

lemma op_mdm_stop: "op_ok 0 {ST_WAITING} mdm_stop"
  by (auto simp: op_ok_def mdm_stop_def intro!: emit_frame)

lemma op_fw_flash_failure: "op_ok 0 {ST_DOWN} fw_flash_failure"
  by (auto simp: op_ok_def fw_flash_failure_def bind_Some_iff
      dest!: store_dbg_info_frame set_oos_frame intro: ctrl_frame_trans0)

lemma escalation_frame:
  assumes "escalation c p = Some (s, c')"
  shows "ctrl_frame 0 c c' \<and> timer_armed c' = timer_armed c \<and> s \<in> {ST_PACKAGING, ST_DOWN}"
proof -
  from assms obtain c1 p1 step e where 1: "store_dbg_info c p True = Some (c1, p1)"
    "get_next_step (now p1) (esc c1) = Some (step, e)"
    and 2: "(if step = STEP_MDM_WARM_RESET then None
      else if step = STEP_MDM_COLD_RESET then mdm_restart (c1\<lparr>esc := e\<rparr>) p1 True False
      else if step = STEP_PLATFORM_REBOOT then platform_reboot (c1\<lparr>esc := e\<rparr>) p1
      else if step = STEP_OOS then set_oos (c1\<lparr>esc := e\<rparr>) p1 else None) = Some (s, c')"
    by (auto simp: escalation_def bind_Some_iff Let_def)
  have f: "ctrl_frame 0 c (c1\<lparr>esc := e\<rparr>)"
    using store_dbg_info_frame [OF 1(1)] next_step_ok [of c] 1(2) by (intro frame_esc) auto
  have "ctrl_frame 0 (c1\<lparr>esc := e\<rparr>) c' \<and> timer_armed c' = timer_armed c1 \<and> s \<in> {ST_PACKAGING, ST_DOWN}"
    using 2 by (auto split: if_splits dest!: mdm_restart_frame platform_reboot_frame set_oos_frame)
  with f store_dbg_info_frame [OF 1(1)] show ?thesis by (auto intro: ctrl_frame_trans0)
qed

lemma op_escalation: "op_ok 0 {ST_PACKAGING, ST_DOWN} escalation"
  using escalation_frame by (auto simp: op_ok_def)

lemma op_notify_unresp: "op_ok 0 {ST_DOWN} notify_unresp"
proof -
  have "ctrl_frame 0 c c' \<and> timer_armed c' = timer_armed c \<and> s = ST_DOWN"
    if "notify_unresp c p = Some (s, c')" for c p s c'
  proof -
    from that obtain c1 p1 step e where 1: "store_dbg_info c p True = Some (c1, p1)"
      "get_last_step (esc c1) = Some (step, e)"
      and 2: "(if step = STEP_PLATFORM_REBOOT then platform_reboot (c1\<lparr>esc := e\<rparr>) p1
        else if step = STEP_OOS then set_oos (c1\<lparr>esc := e\<rparr>) p1 else None) = Some (s, c')"
      by (auto simp: notify_unresp_def bind_Some_iff Let_def)
    have f: "ctrl_frame 0 c (c1\<lparr>esc := e\<rparr>)"
      using store_dbg_info_frame [OF 1(1)] last_step_ok [of c] 1(2) by (intro frame_esc) auto
    have "ctrl_frame 0 (c1\<lparr>esc := e\<rparr>) c' \<and> timer_armed c' = timer_armed c1 \<and> s = ST_DOWN"
      using 2 by (auto split: if_splits dest!: platform_reboot_frame set_oos_frame)
    with f store_dbg_info_frame [OF 1(1)] show ?thesis by (auto intro: ctrl_frame_trans0)
  qed
  then show ?thesis by (auto simp: op_ok_def)
qed

lemma requested_operation_frame:
  assumes "requested_operation c p = Some (s, c')"
  shows "ctrl_frame 0 c c' \<and> timer_armed c' = timer_armed c \<and> s \<in> {ST_WAITING, ST_PACKAGING, ST_DOWN}"
proof -
  from assms obtain c1 p1 where 1: "store_dbg_info c p True = Some (c1, p1)"
    and 2: "(case client_request (cstate c1) of REQ_NONE \<Rightarrow> Some (ST_WAITING, c1)
      | REQ_RESET \<Rightarrow> escalation c1 p1 | REQ_START \<Rightarrow> escalation c1 p1 | REQ_STOP \<Rightarrow> mdm_stop c1 p1) = Some (s, c')"
    by (auto simp: requested_operation_def bind_Some_iff)
  have "ctrl_frame 0 c1 c' \<and> timer_armed c' = timer_armed c1 \<and> s \<in> {ST_WAITING, ST_PACKAGING, ST_DOWN}"
    using 2 by (cases "client_request (cstate c1)") (auto dest!: escalation_frame op_okD [OF op_mdm_stop])
  with store_dbg_info_frame [OF 1] show ?thesis by (auto intro: ctrl_frame_trans0)
qed

lemma op_requested_operation: "op_ok 0 {ST_WAITING, ST_PACKAGING, ST_DOWN} requested_operation"
  using requested_operation_frame by (auto simp: op_ok_def)

lemma set_request_frame:
  "set_request c r = Some c' \<Longrightarrow> r \<noteq> REQ_NONE \<Longrightarrow>
   ctrl_frame 1 c c' \<and> timer_armed c' = timer_armed c \<and> c' = c\<lparr>cstate := (cstate c)\<lparr>client_request := r\<rparr>\<rparr>"
  by (auto simp: set_request_def bind_Some_iff frame_simps)

lemma op_accept_stop: "op_ok 1 {-1} accept_stop"
  by (auto simp: op_ok_def accept_stop_def bind_Some_iff dest: set_request_frame)

lemma op_accept_reset: "op_ok 1 {-1} accept_reset"
  by (auto simp: op_ok_def accept_reset_def bind_Some_iff dest: set_request_frame)

lemma op_request_start: "op_ok 1 {-1, ST_PACKAGING} request_start"
  using notify_op_result_frame
  by (auto simp: op_ok_def request_start_def bind_Some_iff split: if_splits
      dest!: set_request_frame intro!: frame_emit frame_result)

lemma op_request_reset: "op_ok 1 {-1, ST_PACKAGING, ST_DOWN} request_reset"
proof -
  have "ctrl_frame 1 c c' \<and> timer_armed c' = timer_armed c \<and> s \<in> {-1, ST_PACKAGING, ST_DOWN}"
    if "request_reset c p = Some (s, c')" for c p s c'
  proof -
    from that obtain c1 p1 c2 where 1: "store_dbg_info c p False = Some (c1, p1)" "set_request c1 REQ_RESET = Some c2"
      and 2: "(if waiting_hal_busy_reason (cstate c2) then Some (-1, c2)
        else escalation c2 (p1\<lparr>evt_param := ED_null\<rparr>)) = Some (s, c')"
      by (auto simp: request_reset_def bind_Some_iff)
    have "ctrl_frame 1 c c2 \<and> timer_armed c2 = timer_armed c"
      using store_dbg_info_frame [OF 1(1)] set_request_frame [OF 1(2)] by (auto intro: ctrl_frame_trans0)
    moreover have "ctrl_frame 0 c2 c' \<and> timer_armed c' = timer_armed c2 \<and> s \<in> {-1, ST_PACKAGING, ST_DOWN}"
      using 2 by (auto split: if_splits dest!: escalation_frame)
    ultimately show ?thesis by (blast intro: ctrl_frame_trans0)
  qed
  then show ?thesis by (auto simp: op_ok_def)
qed

lemma frame_cdbg: "ctrl_frame n c c' \<Longrightarrow> ctrl_frame n c (c'\<lparr>cdbg := d\<rparr>)"
  by (simp add: frame_simps)

lemma op_request_update: "op_ok 1 {-1, ST_PACKAGING} request_update"
  by (auto simp: op_ok_def request_update_def bind_Some_iff Let_def split: if_splits
      dest!: set_request_frame mdm_restart_frame intro: ctrl_frame_trans0 frame_cdbg)

lemma op_request_backup: "op_ok 1 {ST_PACKAGING} request_backup"
  by (auto simp: op_ok_def request_backup_def bind_Some_iff
      dest!: set_request_frame mdm_restart_frame intro: ctrl_frame_trans0)

lemma op_request_stop: "op_ok 1 {-1, ST_WAITING} request_stop"
  by (auto simp: op_ok_def request_stop_def bind_Some_iff split: if_splits
      dest!: set_request_frame op_okD [OF op_mdm_stop] intro: ctrl_frame_trans0)

lemma op_reset_after_tlv: "op_ok 0 {ST_PACKAGING} reset_after_tlv"
  by (auto simp: op_ok_def reset_after_tlv_def Let_def dest!: mdm_restart_frame
      intro: ctrl_frame_trans0 frame_emit)

lemma op_failures: "op_ok 0 {-2} flash_failure" "op_ok 0 {-2} custo_failure" "op_ok 0 {-2} pack_failure"
  by (auto simp: op_ok_def flash_failure_def custo_failure_def pack_failure_def Let_def
      intro!: frame_emit)

lemma op_notify_off: "op_ok 0 {ST_DOWN} notify_off"
  using notify_op_result_frame by (auto simp: op_ok_def notify_off_def intro!: frame_emit frame_result)

lemma op_notify_busy: "op_ok 0 {-1} notify_busy"
  by (auto simp: op_ok_def notify_busy_def intro!: frame_emit)

lemma op_dump_start: "op_ok 0 {ST_DUMPING} dump_start"
  by (auto simp: op_ok_def dump_start_def bind_Some_iff Let_def split: ctrl_evt.splits
      intro!: frame_emit frame_cdbg)

lemma op_dump_end: "op_ok 0 {ST_WAITING, ST_PACKAGING, ST_DOWN} dump_end"
  unfolding op_ok_def dump_end_def by (auto dest!: op_okD [OF op_requested_operation])

lemma op_dump_error: "op_ok 0 {ST_WAITING, ST_PACKAGING, ST_DOWN} dump_error"
  unfolding op_ok_def dump_error_def Let_def by (auto dest!: op_okD [OF op_requested_operation])

lemma op_aborts: "op_ok n S todo" "op_ok n S assert"
  by (auto simp: op_ok_def todo_def assert_def)

lemma failsafe_frame:
  assumes "failsafe c p = Some (s, c')"
  shows "ctrl_frame 1 c c' \<and> timer_armed c' = timer_armed c \<and> s = ST_WAITING"
proof -
  let ?c = "clear_internal_state (notify_op_result_if_needed c (-1))"
  have "ctrl_frame 0 c ?c \<and> timer_armed ?c = timer_armed c"
    by (simp add: frame_simps clear_internal_state_def notify_op_result_if_needed_def zero_state_def emit_def)
  moreover have "ctrl_frame 1 ?c c' \<and> timer_armed c' = timer_armed ?c"
    using assms op_okD [OF op_request_stop, of ?c p s c'] by (simp add: failsafe_def)
  moreover have "s = ST_WAITING"
    using assms by (auto simp: failsafe_def request_stop_def set_request_def clear_internal_state_def
        zero_state_def mdm_stop_def bind_Some_iff)
  ultimately show ?thesis by (blast intro: ctrl_frame_trans0)
qed

lemma op_failsafe: "op_ok 1 {ST_WAITING} failsafe"
  using failsafe_frame by (auto simp: op_ok_def)

lemma request_reset_timer_ok:
  assumes "request_reset_timer c p = Some (s, c')"
  shows "ctrl_frame 1 c c' \<and> timer_armed c' \<and> s = -1"
proof -
  from assms obtain c1 p1 c2 where 1: "store_dbg_info c p False = Some (c1, p1)" "set_request c1 REQ_RESET = Some c2"
    and 2: "s = -1" "c' = c2\<lparr>cdbg := (cdbg c2)\<lparr>reset_initiated_by_cla := True\<rparr>, timer_armed := True,
       ctimer_end := crm_time_add_ms (now p1) MAX_RESET_TIMEOUT\<rparr>"
    by (auto simp: request_reset_timer_def start_timer_def bind_Some_iff Let_def)
  have "ctrl_frame 1 c c2"
    using store_dbg_info_frame [OF 1(1)] set_request_frame [OF 1(2)] by (auto intro: ctrl_frame_trans0)
  then show ?thesis using 2 by (simp add: frame_simps)
qed

section \<open>The cells of the table\<close>

lemma ops_no_request:
  "op_ok 0 {s. -1 \<le> s} flash_evt" "op_ok 0 {s. -1 \<le> s} fw_ready_evt"
  "op_ok 0 {s. -1 \<le> s} run_evt_initial" "op_ok 0 {s. -1 \<le> s} run_evt"
  "op_ok 0 {s. -1 \<le> s} flash_success_evt" "op_ok 0 {s. -1 \<le> s} mdm_stop"
  "op_ok 0 {s. -1 \<le> s} fw_flash_failure" "op_ok 0 {s. -1 \<le> s} escalation"
  "op_ok 0 {s. -1 \<le> s} notify_unresp" "op_ok 0 {s. -1 \<le> s} requested_operation"
  "op_ok 0 {s. -1 \<le> s} reset_after_tlv" "op_ok 0 {s. -1 \<le> s} notify_off"
  "op_ok 0 {s. -1 \<le> s} notify_busy" "op_ok 0 {s. -1 \<le> s} dump_start"
  "op_ok 0 {s. -1 \<le> s} dump_end" "op_ok 0 {s. -1 \<le> s} dump_error"
  by (rule op_flash_evt [THEN op_ok_mono] op_fw_ready_evt [THEN op_ok_mono] op_run_evt_initial [THEN op_ok_mono]
      op_run_evt [THEN op_ok_mono] op_flash_success_evt [THEN op_ok_mono] op_mdm_stop [THEN op_ok_mono]
      op_fw_flash_failure [THEN op_ok_mono] op_escalation [THEN op_ok_mono] op_notify_unresp [THEN op_ok_mono]
      op_requested_operation [THEN op_ok_mono] op_reset_after_tlv [THEN op_ok_mono] op_notify_off [THEN op_ok_mono]
      op_notify_busy [THEN op_ok_mono] op_dump_start [THEN op_ok_mono] op_dump_end [THEN op_ok_mono]
      op_dump_error [THEN op_ok_mono], simp)+

lemma ops_request:
  "op_ok (Suc 0) {s. -1 \<le> s} accept_stop" "op_ok (Suc 0) {s. -1 \<le> s} accept_reset"
  "op_ok (Suc 0) {s. -1 \<le> s} request_start" "op_ok (Suc 0) {s. -1 \<le> s} request_reset"
  "op_ok (Suc 0) {s. -1 \<le> s} request_update" "op_ok (Suc 0) {s. -1 \<le> s} request_backup"
  "op_ok (Suc 0) {s. -1 \<le> s} request_stop" "op_ok (Suc 0) {s. -1 \<le> s} failsafe"
  unfolding One_nat_def [symmetric]
  by (rule op_accept_stop [THEN op_ok_mono] op_accept_reset [THEN op_ok_mono] op_request_start [THEN op_ok_mono]
      op_request_reset [THEN op_ok_mono] op_request_update [THEN op_ok_mono] op_request_backup [THEN op_ok_mono]
      op_request_stop [THEN op_ok_mono] op_failsafe [THEN op_ok_mono], simp)+

text \<open>
  The requests an event accounts for: one for an event of the clients (but the backup request the
  table ignores while a dump is read), one for the stop that the failsafe operation makes up.
\<close>

definition credit :: "int \<Rightarrow> int \<Rightarrow> nat" where
  "credit evt st =
     (if evt \<le> EV_CLI_NVM_BACKUP then (if evt = EV_CLI_NVM_BACKUP \<and> st = ST_DUMPING then 0 else 1)
      else if evt = EV_FAILURE \<and> st \<noteq> ST_DUMPING then 1 else 0)"

definition cell_spec :: "nat \<Rightarrow> int \<Rightarrow> (crm_control_ctx, ctrl_param) crm_fsm_ops \<Rightarrow> bool" where
  "cell_spec n st op =
     (case operation op of
        None \<Rightarrow> n = 0
      | Some f \<Rightarrow> op_ok n {s. -1 \<le> s} f \<or> (n = 1 \<and> op_ok 0 {-2} f) \<or>
          (n = 1 \<and> st = ST_UP \<and> f = request_reset_timer))"

lemma ctrl_rows_shape: "length ctrl_rows = 17" "\<forall>r \<in> set ctrl_rows. length r = 8"
  by (simp_all add: ctrl_rows_def)

lemma nat_cases_17:
  assumes "n < (17::nat)"
  shows "n \<in> {0, 1, 2, 3, 4, 5, 6, 7, 8, 9, 10, 11, 12, 13, 14, 15, 16}"
  using assms unfolding insert_iff empty_iff by presburger

lemma nat_cases_8:
  assumes "n < (8::nat)"
  shows "n \<in> {0, 1, 2, 3, 4, 5, 6, 7}"
  using assms by auto

lemma ctrl_cell_spec:
  assumes "e < 17" "s < 8"
  shows "cell_spec (credit (int e) (int s)) (int s) (ctrl_rows ! e ! s)"
  using nat_cases_17 [OF assms(1)] nat_cases_8 [OF assms(2)]
  by (elim insertE emptyE; hypsubst)
    (simp_all add: ctrl_rows_def credit_def cell_spec_def ops_no_request ops_request op_aborts op_failures)

lemma ctrl_fsm_failsafe: "crm_fsm_ctx.failsafe ctrl_fsm = failsafe"
  by (simp add: ctrl_fsm_def)

lemma ctrl_fsm_state_trans: "crm_fsm_ctx.state_trans ctrl_fsm = Some state_trans"
  by (simp add: ctrl_fsm_def)

lemma run_operation_frame:
  assumes "cell_spec n st op" "run_operation ctrl_fsm op st c p = Some (s, err, c')"
  shows "ctrl_frame n c c' \<and> (timer_armed c' \<longrightarrow> timer_armed c \<or> st = ST_UP)"
proof (cases "operation op")
  case None
  then show ?thesis using assms by (auto simp: run_operation_def cell_spec_def)
next
  case (Some f)
  obtain s1 c1 where f: "f c p = Some (s1, c1)"
    and r: "(if s1 = -1 then Some (st, False, c1)
      else if s1 \<le> -2 then (do { (s2, c2) \<leftarrow> failsafe c1 p; Some (s2, True, c2) })
      else Some (s1, False, c1)) = Some (s, err, c')"
    using assms(2) unfolding run_operation_def Some ctrl_fsm_failsafe by (auto simp: bind_Some_iff)
  consider "op_ok n {s. -1 \<le> s} f" | "n = 1" "op_ok 0 {-2} f" | "n = 1" "st = ST_UP" "f = request_reset_timer"
    using assms(1) Some by (auto simp: cell_spec_def)
  then show ?thesis
  proof cases
    case 1
    then have "ctrl_frame n c c1 \<and> timer_armed c1 = timer_armed c \<and> -1 \<le> s1" using op_okD [OF 1 f] by simp
    then show ?thesis using r by (auto split: if_splits)
  next
    case 2
    then have 3: "ctrl_frame 0 c c1 \<and> timer_armed c1 = timer_armed c \<and> s1 = -2" using op_okD [OF 2(2) f] by simp
    then have "failsafe c1 p = Some (s, c')" using r by (auto simp: bind_Some_iff)
    from failsafe_frame [OF this] 2 3 show ?thesis by (auto intro: ctrl_frame_trans0)
  next
    case 3
    then have "ctrl_frame 1 c c1 \<and> s1 = -1" using request_reset_timer_ok f by blast
    then show ?thesis using r 3 by (auto split: if_splits)
  qed
qed

section \<open>One event\<close>

lemma ctrl_notifyE:
  assumes "notify_event ctrl_fsm st evt c p = Some (st', c')" "0 \<le> st" "st < 8"
  obtains c1 s err c2 where "0 \<le> evt" "evt < 17" "pre_op evt c = Some c1"
    "run_operation ctrl_fsm (ctrl_rows ! nat evt ! nat st) st c1 p = Some (s, err, c2)"
    "st' = (if \<not> err \<and> -1 \<noteq> force_new_state (ctrl_rows ! nat evt ! nat st)
            then force_new_state (ctrl_rows ! nat evt ! nat st) else s)"
    "(if st \<noteq> st' then state_trans st st' evt c2 p else Some c2) = Some c'" "0 \<le> st'" "st' < 8"
proof -
  have sh: "length (fsm ctrl_fsm) = nat (num_states ctrl_fsm * num_events ctrl_fsm)"
    "num_states ctrl_fsm = 8" "num_events ctrl_fsm = 17"
    by (simp_all add: ctrl_fsm_def ctrl_rows_def)
  have e: "0 \<le> evt" "evt < 17" using notify_event_evt_range [OF assms(1)] assms(2,3) sh by auto
  have cell: "array_get (fsm ctrl_fsm) (st + evt * num_states ctrl_fsm) = Some (ctrl_rows ! nat evt ! nat st)"
    using array_get_rows [OF ctrl_rows_shape(2), of evt st] ctrl_rows_shape(1) assms(2,3) e sh
    by (simp add: ctrl_fsm_def)
  have r: "0 \<le> st'" "st' < 8" using notify_event_state_range [OF assms(1)] sh by auto
  from assms(1) show ?thesis
  proof (rule notify_eventE)
    fix op c1 s err c2
    assume "array_get (fsm ctrl_fsm) (st + evt * num_states ctrl_fsm) = Some op"
      and run: "run_operation ctrl_fsm op st c1 p = Some (s, err, c2)"
      and st': "st' = (if \<not> err \<and> -1 \<noteq> force_new_state op then force_new_state op else s)"
      and pre: "(case crm_fsm_ctx.pre_op ctrl_fsm of None \<Rightarrow> Some c | Some pre \<Rightarrow> pre evt c) = Some c1"
      and tr: "(if st \<noteq> st'
        then (case crm_fsm_ctx.state_trans ctrl_fsm of None \<Rightarrow> Some c2 | Some tr \<Rightarrow> tr st st' evt c2 p)
        else Some c2) = Some c'"
    then have op: "op = ctrl_rows ! nat evt ! nat st" using cell by simp
    have "pre_op evt c = Some c1" using pre by (simp add: ctrl_fsm_def)
    moreover have "(if st \<noteq> st' then state_trans st st' evt c2 p else Some c2) = Some c'"
      using tr unfolding ctrl_fsm_state_trans option.case .
    ultimately show ?thesis using that [OF e _ run [unfolded op] st' [unfolded op] _ r] by blast
  qed
qed

text \<open>Evaluation of one event whose cell is known.\<close>

lemma ctrl_txt: "0 \<le> evt \<Longrightarrow> evt < 17 \<Longrightarrow> \<exists>t. get_event_txt evt = Some t"
  "0 \<le> st \<Longrightarrow> st < 8 \<Longrightarrow> \<exists>t. get_state_txt st = Some t"
  unfolding get_event_txt_def get_state_txt_def by auto presburger

lemma ctrl_notify_unfold:
  assumes "0 \<le> st" "st < 8" "0 \<le> evt" "evt < 17"
  shows "notify_event ctrl_fsm st evt c p = do {
     c \<leftarrow> pre_op evt c;
     (s, err, c) \<leftarrow> run_operation ctrl_fsm (ctrl_rows ! nat evt ! nat st) st c p;
     let s = (if \<not> err \<and> -1 \<noteq> force_new_state (ctrl_rows ! nat evt ! nat st)
              then force_new_state (ctrl_rows ! nat evt ! nat st) else s);
     get_state_txt s;
     c \<leftarrow> (if st \<noteq> s then state_trans st s evt c p else Some c);
     check_state ctrl_fsm s;
     Some (s, c)
   }"
proof -
  have cell: "array_get (fsm ctrl_fsm) (st + evt * num_states ctrl_fsm) = Some (ctrl_rows ! nat evt ! nat st)"
    using array_get_rows [OF ctrl_rows_shape(2), of evt st] ctrl_rows_shape(1) assms
    by (simp add: ctrl_fsm_def)
  obtain t u where t: "crm_fsm_ctx.get_event_txt ctrl_fsm evt = Some t" "crm_fsm_ctx.get_state_txt ctrl_fsm st = Some u"
    using ctrl_txt(1) [OF assms(3,4)] ctrl_txt(2) [OF assms(1,2)] by (auto simp: ctrl_fsm_def)
  have f: "num_events ctrl_fsm = 17" "crm_fsm_ctx.pre_op ctrl_fsm = Some pre_op"
    "crm_fsm_ctx.get_state_txt ctrl_fsm = get_state_txt"
    by (simp_all add: ctrl_fsm_def)
  show ?thesis
    unfolding notify_event_def cell t f ctrl_fsm_state_trans option.case bind.bind_lunit
    using assms t(2) unfolding f by simp
qed

lemma ctrl_notify_stay:
  assumes "0 \<le> st" "st < 8" "0 \<le> evt" "evt < 17" "ctrl_rows ! nat evt ! nat st = cell f"
    "pre_op evt c = Some c1" "f c1 p = Some (-1, c2)"
  shows "notify_event ctrl_fsm st evt c p = Some (st, c2)"
  using assms ctrl_txt(2) [of st]
  by (auto simp: ctrl_notify_unfold run_operation_def check_state_def) (simp_all add: ctrl_fsm_def)

lemma ctrl_notify_move:
  assumes "0 \<le> st" "st < 8" "0 \<le> evt" "evt < 17" "ctrl_rows ! nat evt ! nat st = cell f"
    "pre_op evt c = Some c1" "f c1 p = Some (s, c2)" "0 \<le> s" "s < 8" "s \<noteq> st"
    "state_trans st s evt c2 p = Some c3"
  shows "notify_event ctrl_fsm st evt c p = Some (s, c3)"
  using assms ctrl_txt(2) [of s]
  by (auto simp: ctrl_notify_unfold run_operation_def check_state_def) (simp_all add: ctrl_fsm_def)

lemma ctrl_notify_same:
  assumes "0 \<le> st" "st < 8" "0 \<le> evt" "evt < 17" "ctrl_rows ! nat evt ! nat st = cell f"
    "pre_op evt c = Some c1" "f c1 p = Some (st, c2)"
  shows "notify_event ctrl_fsm st evt c p = Some (st, c2)"
  using assms ctrl_txt(2) [of st]
  by (auto simp: ctrl_notify_unfold run_operation_def check_state_def) (simp_all add: ctrl_fsm_def)

lemma ctrl_notify_abort:
  assumes "0 \<le> st" "st < 8" "0 \<le> evt" "evt < 17" "ctrl_rows ! nat evt ! nat st = cell f"
    "pre_op evt c = Some c1" "f c1 p = None"
  shows "notify_event ctrl_fsm st evt c p = None"
  using assms by (simp add: ctrl_notify_unfold run_operation_def)

lemma pre_op_frame: "pre_op evt c = Some c1 \<Longrightarrow>
    ctrl_frame 0 c c1 \<and> timer_armed c1 = timer_armed c \<and> cdbg c1 = cdbg c \<and> is_mdm_oos c1 = is_mdm_oos c"
  by (auto simp: pre_op_def frame_simps bind_Some_iff split: if_splits)

lemma ctrl_notify_op:
  assumes "notify_event ctrl_fsm st evt c p = Some (st', c')" "0 \<le> st" "st < 8"
  obtains c2 where "ctrl_frame (credit evt st) c c2" "timer_armed c2 \<longrightarrow> timer_armed c \<or> st = ST_UP"
    "(if st \<noteq> st' then state_trans st st' evt c2 p else Some c2) = Some c'" "0 \<le> st'" "st' < 8"
proof -
  from assms obtain c1 s err c2 where n: "0 \<le> evt" "evt < 17" "pre_op evt c = Some c1"
    "run_operation ctrl_fsm (ctrl_rows ! nat evt ! nat st) st c1 p = Some (s, err, c2)"
    "(if st \<noteq> st' then state_trans st st' evt c2 p else Some c2) = Some c'" "0 \<le> st'" "st' < 8"
    by (rule ctrl_notifyE)
  have "cell_spec (credit evt st) st (ctrl_rows ! nat evt ! nat st)"
    using ctrl_cell_spec [of "nat evt" "nat st"] n(1,2) assms(2,3) by simp
  from run_operation_frame [OF this n(4)] pre_op_frame [OF n(3)] that n(5-7)
  show ?thesis by (auto intro: ctrl_frame_trans0)
qed

section \<open>The watchdog as Control sees it\<close>

text \<open>
  The request timer of the watchdog after the messages of Control, by the rules of watchdog.h:
  whether it is armed, and the last identifier. \<open>None\<close> when a rule is broken. A PONG does not
  touch the request timer.
\<close>

fun wd_track :: "64 word list \<Rightarrow> bool \<times> int \<Rightarrow> (bool \<times> int) option" where
  "wd_track [] s = Some s"
| "wd_track (m # ms) (a, i) =
     (if watchdog_get_request m = CRM_WATCH_START
      then (if watchdog_get_id m = watchdog_get_new_id i then wd_track ms (True, watchdog_get_id m) else None)
      else if watchdog_get_request m = CRM_WATCH_STOP
      then (if a \<and> watchdog_get_id m = i then wd_track ms (False, i) else None)
      else if watchdog_get_request m = CRM_WATCH_PONG then wd_track ms (a, i)
      else None)"

lemma wd_track_append: "wd_track (xs @ ys) s = Option.bind (wd_track xs s) (wd_track ys)"
  by (induction xs s rule: wd_track.induct) auto

definition needs_watch :: "int \<Rightarrow> bool" where
  "needs_watch st \<longleftrightarrow> st \<noteq> ST_UP \<and> st \<noteq> ST_DOWN"

text \<open>
  The invariant of the machine: the reset timer runs in ST_UP only, and the watchdog is armed
  exactly in the states where something is awaited.
\<close>

definition ctrl_inv :: "int \<Rightarrow> crm_control_ctx \<Rightarrow> bool" where
  "ctrl_inv st c \<longleftrightarrow>
     0 \<le> st \<and> st < ST_NUM \<and> (timer_armed c \<longrightarrow> st = ST_UP) \<and>
     0 \<le> timeout c \<and> timeout c \<le> MAX_TIMEOUT \<and> 0 \<le> watch_id c \<and> watch_id c \<le> MAX_REQ_ID \<and>
     wd_track (wd_msgs c) (False, -1) = Some (needs_watch st, watch_id c)"

lemma watchdog_start_ok:
  assumes "0 \<le> timeout c" "timeout c \<le> MAX_TIMEOUT" "id_ok (watch_id c)"
  shows "\<exists>m. watchdog_start c (timeout c) =
      Some (emit (c\<lparr>watch_id := watchdog_get_new_id (watch_id c)\<rparr>) (WatchMsg m)) \<and>
    watchdog_get_request m = CRM_WATCH_START \<and> watchdog_get_id m = watchdog_get_new_id (watch_id c) \<and>
    watchdog_get_timeout m = timeout c"
proof -
  have i: "0 \<le> watchdog_get_new_id (watch_id c)" "watchdog_get_new_id (watch_id c) \<le> MAX_REQ_ID"
    using new_id_ok [OF assms(3)] by auto
  then obtain m where m: "watchdog_gen_scalar 1 (timeout c) (watchdog_get_new_id (watch_id c)) = Some m"
    using assms by (simp add: watchdog_gen_scalar_def)
  with watchdog_gen_scalar_fields [OF assms(1,2) i _ _ m] show ?thesis
    by (auto simp: watchdog_start_def)
qed

lemma watchdog_stop_ok:
  assumes "0 \<le> watch_id c" "watch_id c \<le> MAX_REQ_ID"
  shows "\<exists>m. watchdog_stop c = Some (emit c (WatchMsg m)) \<and>
    watchdog_get_request m = CRM_WATCH_STOP \<and> watchdog_get_id m = watch_id c"
proof -
  obtain m where m: "watchdog_gen_scalar 2 0 (watch_id c) = Some m"
    using assms by (simp add: watchdog_gen_scalar_def)
  with watchdog_gen_scalar_fields [OF _ _ assms _ _ m] show ?thesis by (auto simp: watchdog_stop_def)
qed

lemma wd_msgs_emit [simp]: "wd_msgs (emit c o') = wd_msgs c @ watch_of o'"
  by (simp add: wd_msgs_def emit_def)

lemma state_trans_inv:
  assumes "ctrl_inv st c \<or> (st = ST_UP \<and> ctrl_inv st (c\<lparr>timer_armed := False\<rparr>))"
    and "st \<noteq> st'" "0 \<le> st'" "st' < 8" "st' \<noteq> ST_INITIAL"
  shows "\<exists>c'. state_trans st st' evt c p = Some c' \<and> ctrl_inv st' c'"
proof -
  have i: "0 \<le> timeout c" "timeout c \<le> MAX_TIMEOUT" "0 \<le> watch_id c" "watch_id c \<le> MAX_REQ_ID"
    "wd_track (wd_msgs c) (False, -1) = Some (needs_watch st, watch_id c)" "timer_armed c \<longrightarrow> st = ST_UP"
    using assms(1) by (auto simp: ctrl_inv_def wd_msgs_def)
  define c1 where "c1 = (if needs_watch st then c
      else emit (c\<lparr>watch_id := watchdog_get_new_id (watch_id c)\<rparr>) (WatchMsg (the (watchdog_gen_scalar 1 (timeout c) (watchdog_get_new_id (watch_id c))))))"
  have s1: "(if ST_UP = st \<or> ST_DOWN = st then watchdog_start c (timeout c) else Some c) = Some c1"
    using watchdog_start_ok [OF i(1,2)] i(3,4)
    by (auto simp: c1_def needs_watch_def watchdog_start_def id_ok_def bind_Some_iff Let_def)
  have t1: "wd_track (wd_msgs c1) (False, -1) = Some (True, watch_id c1) \<and> 0 \<le> watch_id c1 \<and>
      watch_id c1 \<le> MAX_REQ_ID \<and> timeout c1 = timeout c \<and> timer_armed c1 = timer_armed c"
  proof (cases "needs_watch st")
    case False
    then have "watchdog_start c (timeout c) = Some c1" using s1 by (auto simp: needs_watch_def)
    then obtain m where m: "c1 = emit (c\<lparr>watch_id := watchdog_get_new_id (watch_id c)\<rparr>) (WatchMsg m)"
      "watchdog_get_request m = CRM_WATCH_START" "watchdog_get_id m = watchdog_get_new_id (watch_id c)"
      using watchdog_start_ok [OF i(1,2)] i(3,4) by (auto simp: id_ok_def)
    then show ?thesis
      using i new_id_ok [of "watch_id c"]
      by (auto simp: wd_track_append id_ok_def) (auto simp: emit_def wd_msgs_def wd_track_append)
  qed (use i in \<open>auto simp: c1_def\<close>)
  define c2 where "c2 = (if ST_UP = st \<and> timer_armed c1 then c1\<lparr>timer_armed := False\<rparr> else c1)"
  have t2: "wd_msgs c2 = wd_msgs c1" "watch_id c2 = watch_id c1" "timeout c2 = timeout c1" "\<not> timer_armed c2"
    using i(6) t1 by (auto simp: c2_def wd_msgs_def)
  obtain m where m: "watchdog_stop c2 = Some (emit c2 (WatchMsg m))"
    "watchdog_get_request m = CRM_WATCH_STOP" "watchdog_get_id m = watch_id c2"
    using watchdog_stop_ok [of c2] t1 t2 by auto
  have st: "state_trans st st' evt c p =
      (if ST_UP = st' \<or> ST_DOWN = st' then watchdog_stop c2 else Some c2)"
    using s1 assms(5) by (simp add: state_trans_def c2_def)
  show ?thesis
  proof (cases "needs_watch st'")
    case True
    then show ?thesis using st t1 t2 i assms(3,4) by (auto simp: needs_watch_def ctrl_inv_def)
  next
    case False
    then have "state_trans st st' evt c p = Some (emit c2 (WatchMsg m))" using st m by (auto simp: needs_watch_def)
    moreover have "watch_id (emit c2 (WatchMsg m)) = watch_id c2" "timeout (emit c2 (WatchMsg m)) = timeout c2"
      by (simp_all add: emit_def)
    ultimately show ?thesis using t1 t2 i m False assms(3,4)
      by (auto simp: ctrl_inv_def wd_track_append)
  qed
qed

definition same_obs :: "crm_control_ctx \<Rightarrow> crm_control_ctx \<Rightarrow> bool" where
  "same_obs c c' \<longleftrightarrow> replies c' = replies c \<and> cstate c' = cstate c \<and> is_mdm_oos c' = is_mdm_oos c \<and>
     cdbg c' = cdbg c \<and> esc c' = esc c"

lemma watchdog_start_obs: "watchdog_start c ms = Some c' \<Longrightarrow> same_obs c c'"
  by (auto simp: watchdog_start_def bind_Some_iff Let_def same_obs_def replies_def emit_def)

lemma watchdog_stop_obs: "watchdog_stop c = Some c' \<Longrightarrow> same_obs c c'"
  by (auto simp: watchdog_stop_def bind_Some_iff same_obs_def replies_def emit_def)

lemma state_trans_obs:
  assumes "state_trans st st' evt c p = Some c'"
  shows "same_obs c c'"
proof -
  from assms obtain c1 where 1: "(if ST_UP = st \<or> ST_DOWN = st then watchdog_start c (timeout c) else Some c) = Some c1"
    and 2: "(if ST_UP = st' \<or> ST_DOWN = st'
      then watchdog_stop (if ST_UP = st \<and> timer_armed c1 then c1\<lparr>timer_armed := False\<rparr> else c1)
      else Some (if ST_UP = st \<and> timer_armed c1 then c1\<lparr>timer_armed := False\<rparr> else c1)) = Some c'"
    unfolding state_trans_def Let_def by (elim bind_Some_E) simp
  let ?c2 = "if ST_UP = st \<and> timer_armed c1 then c1\<lparr>timer_armed := False\<rparr> else c1"
  have "same_obs c c1" using 1 watchdog_start_obs by (cases "ST_UP = st \<or> ST_DOWN = st") (auto simp: same_obs_def)
  moreover have "same_obs c1 ?c2" by (simp add: same_obs_def replies_def)
  moreover have "same_obs ?c2 c'" using 2 watchdog_stop_obs by (cases "ST_UP = st' \<or> ST_DOWN = st'") (auto simp: same_obs_def)
  ultimately show ?thesis by (simp add: same_obs_def)
qed

lemma ctrl_step_inv:
  assumes "ctrl_inv st c" "notify_event ctrl_fsm st evt c p = Some (st', c')"
  shows "ctrl_inv st' c'"
proof -
  have st: "0 \<le> st" "st < 8" using assms(1) by (auto simp: ctrl_inv_def)
  obtain c2 where n: "ctrl_frame (credit evt st) c c2" "timer_armed c2 \<longrightarrow> timer_armed c \<or> st = ST_UP"
    "(if st \<noteq> st' then state_trans st st' evt c2 p else Some c2) = Some c'" "0 \<le> st'" "st' < 8"
    by (rule ctrl_notify_op [OF assms(2) st])
  have i: "ctrl_inv st c2" using n(1,2) assms(1) by (auto simp: ctrl_inv_def ctrl_frame_def)
  show ?thesis
  proof (cases "st = st'")
    case True
    then show ?thesis using n(3) i by simp
  next
    case False
    then have "state_trans st st' evt c2 p = Some c'" using n(3) by simp
    moreover then have "st' \<noteq> ST_INITIAL" by (auto simp: state_trans_def)
    ultimately show ?thesis using state_trans_inv [of st c2 st' evt p] i False n(4,5) by auto
  qed
qed

interpretation ctrl_machine: fsm_machine ctrl_fsm ctrl_inv "\<lambda>_ _. True"
  by unfold_locales (rule ctrl_step_inv)

lemma event_loop_start_inv:
  assumes "event_loop_start (crm_ctrl_init tmo e) = Some (st, c)" "0 \<le> tmo"
  shows "ctrl_inv st c"
proof -
  let ?c = "crm_ctrl_init tmo e"
  have c: "st = ST_INITIAL" "watchdog_start ?c tmo = Some c"
    using assms(1) by (auto simp: event_loop_start_def crm_fsm_init_def check_state_def ctrl_fsm_def
        bind_Some_iff crm_ctrl_init_def)
  then have t: "tmo \<le> MAX_TIMEOUT"
    by (auto simp: watchdog_start_def watchdog_gen_scalar_def bind_Some_iff Let_def)
  obtain m where "c = emit (?c\<lparr>watch_id := 0\<rparr>) (WatchMsg m)"
    "watchdog_get_request m = CRM_WATCH_START" "watchdog_get_id m = 0"
    using watchdog_start_ok [of ?c] assms(2) t c(2)
    by (auto simp: crm_ctrl_init_def id_ok_def watchdog_get_new_id_def)
  then show ?thesis
    using assms(2) t c(1)
    by (simp add: ctrl_inv_def crm_ctrl_init_def emit_def wd_msgs_def needs_watch_def watchdog_get_new_id_def)
qed

lemma watch_msgs_inv:
  "ctrl_inv st c \<Longrightarrow> watch_msgs ms c = Some c' \<Longrightarrow> ctrl_inv st c'"
proof (induction ms c rule: watch_msgs.induct)
  case (2 m ms c)
  then obtain r where r: "watchdog_gen_scalar CRM_WATCH_PONG 0 (watchdog_get_id m) = Some r"
    "watch_msgs ms (emit c (WatchMsg r)) = Some c'"
    by (auto simp: bind_Some_iff)
  have "watchdog_get_request r = CRM_WATCH_PONG"
    using r(1) watchdog_get_id_range [of m] by (intro watchdog_gen_scalar_fields(1) [OF _ _ _ _ _ _ r(1)]) auto
  then have "ctrl_inv st (emit c (WatchMsg r))"
    using 2(2) by (auto simp: ctrl_inv_def wd_track_append) (auto simp: emit_def)
  with 2 r show ?case by simp
qed simp

lemma ctrl_msgs_inv:
  "ctrl_inv st c \<Longrightarrow> ctrl_msgs ms (run, st, c) = Some (run', st', c') \<Longrightarrow> ctrl_inv st' c'"
proof (induction ms "(run, st, c)" arbitrary: run st c rule: ctrl_msgs.induct)
  case 1
  then show ?case by simp
next
  case (2 sc p ms running st c)
  then show ?case by (auto simp: bind_Some_iff dest: ctrl_step_inv split: if_splits)
qed

lemma event_loop_iter_inv:
  "ctrl_inv st c \<Longrightarrow> event_loop_iter inp (run, st, c) = Some (run', st', c') \<Longrightarrow> ctrl_inv st' c'"
  by (cases inp) (auto simp: event_loop_iter_def bind_Some_iff dest: ctrl_step_inv watch_msgs_inv ctrl_msgs_inv)

lemma event_loop_inv:
  "ctrl_inv st c \<Longrightarrow> event_loop is (run, st, c) = Some (run', st', c') \<Longrightarrow> ctrl_inv st' c'"
proof (induction "is" arbitrary: run st c)
  case Nil
  then show ?case by simp
next
  case (Cons i "is")
  then show ?case
    by (cases run) (auto simp: bind_Some_iff dest: event_loop_iter_inv)
qed

section \<open>Properties\<close>

text \<open>
  Through the whole life of the Control loop, whatever arrives, the request timer of the
  watchdog is armed exactly in the states where Control waits for something (all but ST_UP and
  ST_DOWN), the messages sent to it obey its protocol (each START carries the next identifier,
  each STOP the current one of an armed timer), and the reset timer runs in ST_UP only.
\<close>

theorem ctrl_watchdog_in_step:
  assumes "event_loop_start (crm_ctrl_init tmo e) = Some (st0, c0)" "0 \<le> tmo"
    and "event_loop is (True, st0, c0) = Some (run, st, c)"
  shows "wd_track (wd_msgs c) (False, -1) = Some (st \<noteq> ST_UP \<and> st \<noteq> ST_DOWN, watch_id c) \<and>
    (timer_armed c \<longrightarrow> st = ST_UP) \<and> 0 \<le> st \<and> st < ST_NUM"
  using event_loop_inv [OF event_loop_start_inv [OF assms(1,2)] assms(3)]
  by (simp add: ctrl_inv_def needs_watch_def)

text \<open>
  C29: every request of a client is answered once. Over one event, the replies sent plus the
  request pending grow by exactly one for a request of a client, and do not change for any other
  event: no request is lost or answered twice and no reply is unsolicited. The two exceptions are
  the backup request, which is dropped while a dump is being read, and the failure of a firmware
  operation, where the failsafe operation makes up a stop request of its own.
\<close>

theorem ctrl_replies_balanced:
  assumes "0 \<le> st" "st < ST_NUM" "notify_event ctrl_fsm st evt c p = Some (st', c')"
  shows "replies c' + pending c' = replies c + pending c +
    (if evt \<le> EV_CLI_NVM_BACKUP then (if evt = EV_CLI_NVM_BACKUP \<and> st = ST_DUMPING then 0 else 1)
     else if evt = EV_FAILURE \<and> st \<noteq> ST_DUMPING then 1 else 0)"
proof -
  obtain c2 where n: "ctrl_frame (credit evt st) c c2"
    "(if st \<noteq> st' then state_trans st st' evt c2 p else Some c2) = Some c'"
    by (rule ctrl_notify_op [OF assms(3) assms(1,2)])
  have "replies c' + pending c' = replies c2 + pending c2"
    using n(2) state_trans_obs [of st st' evt c2 p c']
    by (cases "st = st'") (simp_all add: same_obs_def pending_def)
  with n(1) show ?thesis by (simp add: ctrl_frame_def credit_def)
qed

text \<open>
  Out of service is for ever. No event clears the flag, and in ST_DOWN a start, reset or update
  request is then refused at once: the only effect is the reply -1, the machine stays down, and
  neither the firmware module nor the HAL is called.
\<close>

theorem ctrl_oos_absorbing:
  assumes "is_mdm_oos c"
  shows "(0 \<le> st \<and> st < ST_NUM \<and> notify_event ctrl_fsm st evt c p = Some (st', c') \<longrightarrow> is_mdm_oos c') \<and>
    (evt \<in> {EV_CLI_START, EV_CLI_RESET, EV_CLI_UPDATE} \<and> client_request (cstate c) = REQ_NONE \<longrightarrow>
      notify_event ctrl_fsm ST_DOWN evt c p = Some (ST_DOWN, c\<lparr>out := out c @ [CliOpResult (-1)]\<rparr>))"
proof (intro conjI impI)
  assume n: "0 \<le> st \<and> st < ST_NUM \<and> notify_event ctrl_fsm st evt c p = Some (st', c')"
  then obtain c2 where "ctrl_frame (credit evt st) c c2"
    "(if st \<noteq> st' then state_trans st st' evt c2 p else Some c2) = Some c'"
    by (blast elim: ctrl_notify_op)
  then show "is_mdm_oos c'"
    using assms state_trans_obs [of st st' evt c2 p c']
    by (cases "st = st'") (simp_all add: same_obs_def ctrl_frame_def)
next
  assume "evt \<in> {EV_CLI_START, EV_CLI_RESET, EV_CLI_UPDATE} \<and> client_request (cstate c) = REQ_NONE"
  then show "notify_event ctrl_fsm ST_DOWN evt c p = Some (ST_DOWN, c\<lparr>out := out c @ [CliOpResult (-1)]\<rparr>)"
    using assms
    by (intro ctrl_notify_stay [where f = request_start and ?c1.0 = c])
      (auto simp: ctrl_rows_def pre_op_def request_start_def set_request_def
        notify_op_result_if_needed_def emit_def)
qed

text \<open>Parameters of an event for concrete runs: ten seconds after boot, no TLV, no reboot.\<close>

definition demo_param :: "ctrl_evt \<Rightarrow> ctrl_param" where
  "demo_param e = \<lparr>evt_param = e, now = \<lparr>tv_sec = 10, tv_nsec = 0\<rparr>, nb_tlvs = 0, has_dump = True,
     reboot_bcast = (\<lambda>_. -1), cli = demo_cli\<rparr>"

definition demo_ctrl :: crm_control_ctx where
  "demo_ctrl = crm_ctrl_init 60000 esc_demo"

lemma demo_start: "\<exists>c. event_loop_start demo_ctrl = Some (ST_INITIAL, c)"
  using watchdog_start_ok [of demo_ctrl]
  by (auto simp: event_loop_start_def crm_fsm_init_def check_state_def ctrl_fsm_def demo_ctrl_def
      crm_ctrl_init_def id_ok_def)

theorem ctrl_watchdog_in_step_witness:
  "\<exists>c. event_loop_start demo_ctrl = Some (ST_INITIAL, c) \<and>
     wd_track (wd_msgs c) (False, -1) = Some (True, watch_id c)"
proof -
  obtain c where c: "event_loop_start demo_ctrl = Some (ST_INITIAL, c)" using demo_start by blast
  have l: "event_loop [] (True, ST_INITIAL, c) = Some (True, ST_INITIAL, c)" by simp
  from ctrl_watchdog_in_step [OF c [unfolded demo_ctrl_def] _ l] c show ?thesis by simp
qed

theorem ctrl_replies_balanced_witness:
  "\<exists>c'. notify_event ctrl_fsm ST_DUMPING EV_CLI_STOP demo_ctrl (demo_param ED_null) = Some (ST_DUMPING, c') \<and>
     replies c' + pending c' = 1"
proof -
  let ?c = "demo_ctrl\<lparr>cstate := zero_state\<lparr>client_request := REQ_STOP\<rparr>\<rparr>"
  have n: "notify_event ctrl_fsm ST_DUMPING EV_CLI_STOP demo_ctrl (demo_param ED_null) = Some (ST_DUMPING, ?c)"
    by (intro ctrl_notify_stay [where f = accept_stop and ?c1.0 = demo_ctrl])
      (auto simp: ctrl_rows_def pre_op_def accept_stop_def set_request_def demo_ctrl_def crm_ctrl_init_def zero_state_def)
  from ctrl_replies_balanced [OF _ _ n] n show ?thesis
    by (simp add: replies_def pending_def demo_ctrl_def crm_ctrl_init_def zero_state_def)
qed

theorem ctrl_oos_absorbing_witness:
  "notify_event ctrl_fsm ST_DOWN EV_CLI_START (demo_ctrl\<lparr>is_mdm_oos := True\<rparr>) (demo_param ED_null) =
     Some (ST_DOWN, demo_ctrl\<lparr>is_mdm_oos := True, out := [CliOpResult (-1)]\<rparr>)"
  using ctrl_oos_absorbing [of "demo_ctrl\<lparr>is_mdm_oos := True\<rparr>" 0 EV_CLI_START "demo_param ED_null" 0 demo_ctrl]
  by (simp add: demo_ctrl_def crm_ctrl_init_def zero_state_def)

section \<open>Flashing\<close>

lemma bind_busy: "pre_op EV_HAL_MDM_FLASH c =
    (if waiting_hal_busy_reason (cstate c)
     then Some (c\<lparr>cstate := (cstate c)\<lparr>waiting_hal_busy_reason := False\<rparr>\<rparr>) else None)"
  by (simp add: pre_op_def)

lemma flash_cells:
  "ctrl_rows ! 9 ! 2 = cell flash_evt" "ctrl_rows ! 13 ! 2 = cell fw_ready_evt"
  "ctrl_rows ! 13 ! 3 = cell flash_success_evt" "ctrl_rows ! 6 ! 3 = cell run_evt"
  "ctrl_rows ! 8 ! 2 = cell escalation" "ctrl_rows ! 8 ! 3 = cell escalation"
  "ctrl_rows ! 5 ! 2 = cell escalation" "ctrl_rows ! 9 ! 6 = cell requested_operation"
  by (simp_all add: ctrl_rows_def)

text \<open>Moves inside the states where something is awaited do not concern the watchdog.\<close>

lemma state_trans_watching:
  "needs_watch st \<Longrightarrow> needs_watch st' \<Longrightarrow> st' \<noteq> ST_INITIAL \<Longrightarrow> state_trans st st' evt c p = Some c"
  by (simp add: state_trans_def needs_watch_def)

text \<open>
  The two conditions for flashing may come in any order. When the firmware is packaged and the
  modem announces that it can be flashed (after its busy notice), the flashing starts once, on the
  nodes of the event, and the machine ends in the same state with the same context.
\<close>

theorem ctrl_flash_any_order:
  assumes "hal_type h = HAL_MDM_FLASH" "hal_evt (cstate c) = None" "\<not> fw_ready (cstate c)"
    and "waiting_hal_busy_reason (cstate c)" "evt_param p = ED_hal h"
  shows "notify_events ctrl_fsm ST_PACKAGING c [(EV_HAL_MDM_FLASH, p), (EV_FW_SUCCESS, q)] =
      Some (ST_FLASHING, c\<lparr>cstate := (cstate c)\<lparr>waiting_hal_busy_reason := False\<rparr>, out := out c @ [UploadFlash (nodes h)]\<rparr>) \<and>
    notify_events ctrl_fsm ST_PACKAGING c [(EV_FW_SUCCESS, q), (EV_HAL_MDM_FLASH, p)] =
      Some (ST_FLASHING, c\<lparr>cstate := (cstate c)\<lparr>waiting_hal_busy_reason := False\<rparr>, out := out c @ [UploadFlash (nodes h)]\<rparr>)"
proof
  let ?b = "c\<lparr>cstate := (cstate c)\<lparr>waiting_hal_busy_reason := False\<rparr>\<rparr>"
  let ?h = "c\<lparr>cstate := (cstate c)\<lparr>waiting_hal_busy_reason := False, hal_evt := Some h\<rparr>\<rparr>"
  let ?r = "c\<lparr>cstate := (cstate c)\<lparr>fw_ready := True\<rparr>\<rparr>"
  let ?f = "c\<lparr>cstate := (cstate c)\<lparr>waiting_hal_busy_reason := False\<rparr>, out := out c @ [UploadFlash (nodes h)]\<rparr>"
  have e1: "notify_event ctrl_fsm ST_PACKAGING EV_HAL_MDM_FLASH c p = Some (ST_PACKAGING, ?h)"
    using assms by (intro ctrl_notify_stay [where f = flash_evt and ?c1.0 = ?b])
      (auto simp: flash_cells bind_busy flash_evt_def mdm_flash_def)
  have e2: "notify_event ctrl_fsm ST_PACKAGING EV_FW_SUCCESS ?h q = Some (ST_FLASHING, ?f)"
    using assms by (intro ctrl_notify_move [where f = fw_ready_evt and ?c1.0 = ?h and ?c2.0 = ?f])
      (auto simp: flash_cells pre_op_def fw_ready_evt_def mdm_flash_def emit_def state_trans_watching needs_watch_def)
  show "notify_events ctrl_fsm ST_PACKAGING c [(EV_HAL_MDM_FLASH, p), (EV_FW_SUCCESS, q)] = Some (ST_FLASHING, ?f)"
    by (simp add: e1 e2)
  have e3: "notify_event ctrl_fsm ST_PACKAGING EV_FW_SUCCESS c q = Some (ST_PACKAGING, ?r)"
    using assms by (intro ctrl_notify_stay [where f = fw_ready_evt and ?c1.0 = c])
      (auto simp: flash_cells pre_op_def fw_ready_evt_def mdm_flash_def)
  have e4: "notify_event ctrl_fsm ST_PACKAGING EV_HAL_MDM_FLASH ?r p = Some (ST_FLASHING, ?f)"
    using assms by (intro ctrl_notify_move [where f = flash_evt and ?c2.0 = ?f and
        ?c1.0 = "c\<lparr>cstate := (cstate c)\<lparr>fw_ready := True, waiting_hal_busy_reason := False\<rparr>\<rparr>"])
      (auto simp: flash_cells bind_busy flash_evt_def mdm_flash_def emit_def state_trans_watching needs_watch_def)
  show "notify_events ctrl_fsm ST_PACKAGING c [(EV_FW_SUCCESS, q), (EV_HAL_MDM_FLASH, p)] = Some (ST_FLASHING, ?f)"
    by (simp add: e3 e4)
qed

definition demo_flash :: crm_hal_evt where
  "demo_flash = \<lparr>hal_type = HAL_MDM_FLASH, nodes = ''/dev/x'', hal_dbg_info = None\<rparr>"

theorem ctrl_flash_any_order_witness:
  "\<exists>c'. notify_events ctrl_fsm ST_PACKAGING (demo_ctrl\<lparr>cstate := zero_state\<lparr>waiting_hal_busy_reason := True\<rparr>\<rparr>)
     [(EV_FW_SUCCESS, demo_param ED_null), (EV_HAL_MDM_FLASH, demo_param (ED_hal demo_flash))] = Some (ST_FLASHING, c') \<and>
   out c' = [UploadFlash ''/dev/x'']"
  using ctrl_flash_any_order [of demo_flash "demo_ctrl\<lparr>cstate := zero_state\<lparr>waiting_hal_busy_reason := True\<rparr>\<rparr>"
      "demo_param (ED_hal demo_flash)" "demo_param ED_null"]
  by (simp add: demo_flash_def zero_state_def demo_ctrl_def crm_ctrl_init_def demo_param_def)

text \<open>
  A restart keeps the flash event of the attempt before. When the modem asked to be flashed
  before the firmware was ready and is then reset, the event stays in the context, and the flash
  event of the new attempt fails an assertion of \<open>flash_evt\<close>: the recovery aborts.
\<close>

theorem ctrl_stale_flash_event_aborts:
  assumes "hal_evt (cstate c) = Some h" "evt_param p = ED_hal h'"
  shows "notify_event ctrl_fsm ST_PACKAGING EV_HAL_MDM_FLASH c p = None \<and>
    (\<forall>q r b s c'. mdm_restart c q r b = Some (s, c') \<longrightarrow> s = ST_PACKAGING \<and> hal_evt (cstate c') = Some h)"
proof
  show "notify_event ctrl_fsm ST_PACKAGING EV_HAL_MDM_FLASH c p = None"
  proof (cases "waiting_hal_busy_reason (cstate c)")
    case True
    then show ?thesis
      using assms by (intro ctrl_notify_abort [where f = flash_evt and
          ?c1.0 = "c\<lparr>cstate := (cstate c)\<lparr>waiting_hal_busy_reason := False\<rparr>\<rparr>"])
        (auto simp: flash_cells bind_busy flash_evt_def)
  next
    case False
    then show ?thesis by (simp add: ctrl_notify_unfold bind_busy)
  qed
  show "\<forall>q r b s c'. mdm_restart c q r b = Some (s, c') \<longrightarrow> s = ST_PACKAGING \<and> hal_evt (cstate c') = Some h"
    using assms by (auto simp: mdm_restart_def bind_Some_iff Let_def dest!: notify_dbg_info_frame)
qed

theorem ctrl_stale_flash_event_aborts_witness:
  "notify_event ctrl_fsm ST_PACKAGING EV_HAL_MDM_FLASH
     (demo_ctrl\<lparr>cstate := zero_state\<lparr>hal_evt := Some demo_flash, waiting_hal_busy_reason := True\<rparr>\<rparr>)
     (demo_param (ED_hal demo_flash)) = None"
  using ctrl_stale_flash_event_aborts
    [of "demo_ctrl\<lparr>cstate := zero_state\<lparr>hal_evt := Some demo_flash, waiting_hal_busy_reason := True\<rparr>\<rparr>"
      demo_flash "demo_param (ED_hal demo_flash)" demo_flash]
  by (simp add: demo_param_def)

text \<open>
  A restart keeps the note that the modem runs, too. If the modem had announced that it runs
  before it was reset, then after the flashing of the new attempt Control neither boots the modem
  nor waits for it: it reports the modem ready although nothing has been heard of it since.
\<close>

theorem ctrl_stale_run_reports_ready:
  assumes "run_ipc (cstate c)" "nb_tlvs p = 0" "0 \<le> watch_id c" "watch_id c \<le> MAX_REQ_ID"
  shows "\<exists>c'. notify_event ctrl_fsm ST_FLASHING EV_FW_SUCCESS c p = Some (ST_UP, c') \<and>
    CliModemState MDM_STATE_READY \<in> set (out c') \<and> (HalBoot \<in> set (out c') \<longrightarrow> HalBoot \<in> set (out c)) \<and>
    (\<forall>q r b s c1. mdm_restart c q r b = Some (s, c1) \<longrightarrow> run_ipc (cstate c1))"
proof -
  define c1 where "c1 = emit (notify_op_result_if_needed ((emit c (ElectorFlashed 0))\<lparr>cstate := (cstate c)\<lparr>flash_done := False, run_ipc := False\<rparr>\<rparr>) 0) (CliModemState MDM_STATE_READY)"
  have f: "flash_success_evt c p = Some (ST_UP, c1)"
    using assms by (simp add: flash_success_evt_def mdm_cfg_def c1_def)
  have w: "watch_id c1 = watch_id c" "set (out c1) \<subseteq> set (out c) \<union> {ElectorFlashed 0, CliOpResult 0, CliModemState MDM_STATE_READY}"
    "CliModemState MDM_STATE_READY \<in> set (out c1)"
    by (auto simp: c1_def emit_def notify_op_result_if_needed_def)
  obtain m where m: "watchdog_stop c1 = Some (emit c1 (WatchMsg m))"
    using watchdog_stop_ok [of c1] assms w by auto
  have "state_trans ST_FLASHING ST_UP EV_FW_SUCCESS c1 p = Some (emit c1 (WatchMsg m))"
    using m by (simp add: state_trans_def)
  then have "notify_event ctrl_fsm ST_FLASHING EV_FW_SUCCESS c p = Some (ST_UP, emit c1 (WatchMsg m))"
    using f by (intro ctrl_notify_move [where f = flash_success_evt and ?c1.0 = c and ?c2.0 = c1])
      (auto simp: flash_cells pre_op_def)
  moreover have "\<forall>q r b s c1. mdm_restart c q r b = Some (s, c1) \<longrightarrow> run_ipc (cstate c1)"
    using assms by (auto simp: mdm_restart_def bind_Some_iff Let_def dest!: notify_dbg_info_frame)
  ultimately show ?thesis using w by (auto simp: emit_def)
qed

theorem ctrl_stale_run_reports_ready_witness:
  "\<exists>c'. notify_event ctrl_fsm ST_FLASHING EV_FW_SUCCESS
     (demo_ctrl\<lparr>cstate := zero_state\<lparr>run_ipc := True\<rparr>, watch_id := 3\<rparr>) (demo_param ED_null) = Some (ST_UP, c') \<and>
   HalBoot \<notin> set (out c')"
  using ctrl_stale_run_reports_ready
    [of "demo_ctrl\<lparr>cstate := zero_state\<lparr>run_ipc := True\<rparr>, watch_id := 3\<rparr>" "demo_param ED_null"]
  by (auto simp: demo_param_def demo_ctrl_def crm_ctrl_init_def)

text \<open>
  The escalation of an event without debug information aborts. In ST_PACKAGING the table
  answers the loss of the modem (HAL: off) with a recovery; when the escalation module asks for a
  cold reset and no debug information has been stored, the assertion of \<open>notify_dbg_info\<close> fails
  and the recovery does not take place.
\<close>

theorem ctrl_off_while_packaging_aborts:
  assumes "dbg_evt (cdbg c) = None" "\<not> reset_initiated_by_cla (cdbg c)" "\<not> do_not_report (cdbg c)"
    and "evt_param p = ED_null"
  shows "notify_event ctrl_fsm ST_PACKAGING EV_HAL_MDM_OFF c p = None"
proof -
  have n: "notify_dbg_info (c\<lparr>esc := e\<rparr>) p True = None" for e
    using assms by (simp add: notify_dbg_info_def)
  have "escalation c p = None"
    using assms n
    by (auto simp: escalation_def store_dbg_info_def mdm_restart_def platform_reboot_def set_oos_def Let_def
        split: bind_splits)
  then show ?thesis
    by (intro ctrl_notify_abort [where f = escalation and ?c1.0 = c]) (auto simp: flash_cells pre_op_def)
qed

theorem ctrl_off_while_packaging_aborts_witness:
  "notify_event ctrl_fsm ST_PACKAGING EV_HAL_MDM_OFF demo_ctrl (demo_param ED_null) = None"
  using ctrl_off_while_packaging_aborts [of demo_ctrl "demo_param ED_null"]
  by (simp add: demo_ctrl_def crm_ctrl_init_def demo_param_def)

text \<open>
  A flash event in ST_WAITING is read as a debug information. The table sends it to
  \<open>requested_operation\<close>, which takes its argument for the debug information of a client although
  it is an event of the HAL: the access is undefined.
\<close>

theorem ctrl_flash_in_waiting_confused:
  assumes "evt_param p = ED_hal h"
  shows "notify_event ctrl_fsm ST_WAITING EV_HAL_MDM_FLASH c p = None"
proof (cases "waiting_hal_busy_reason (cstate c)")
  case True
  then show ?thesis
    using assms by (intro ctrl_notify_abort [where f = requested_operation and
        ?c1.0 = "c\<lparr>cstate := (cstate c)\<lparr>waiting_hal_busy_reason := False\<rparr>\<rparr>"])
      (auto simp: flash_cells bind_busy requested_operation_def store_dbg_info_def)
next
  case False
  then show ?thesis by (simp add: ctrl_notify_unfold bind_busy)
qed

theorem ctrl_flash_in_waiting_confused_witness:
  "notify_event ctrl_fsm ST_WAITING EV_HAL_MDM_FLASH
     (demo_ctrl\<lparr>cstate := zero_state\<lparr>waiting_hal_busy_reason := True\<rparr>\<rparr>) (demo_param (ED_hal demo_flash)) = None"
  using ctrl_flash_in_waiting_confused [of "demo_param (ED_hal demo_flash)" demo_flash]
  by (simp add: demo_param_def)

section \<open>The reboot loop\<close>

lemma reboot_loop_fails:
  "(\<forall>j < n. bcast (i + j) = 0) \<Longrightarrow> bcast (i + n) \<noteq> 0 \<Longrightarrow> reboot_loop bcast i = Some (Suc (i + n))"
proof (induction n arbitrary: i)
  case 0
  then show ?case by (simp add: reboot_loop.simps)
next
  case (Suc n)
  have "bcast i = 0" using Suc.prems(1) by (metis add.right_neutral zero_less_Suc)
  moreover have "reboot_loop bcast (Suc i) = Some (Suc (Suc i + n))"
    using Suc.prems by (intro Suc.IH) (auto simp: add.assoc [symmetric] dest: spec [of _ "Suc _"])
  ultimately show ?case by (simp add: reboot_loop.simps [of bcast i])
qed

lemma reboot_loop_returns:
  assumes "reboot_loop bcast i = Some n"
  shows "i < n \<and> bcast (n - 1) \<noteq> 0"
proof (rule reboot_loop.raw_induct [where P = "\<lambda>bcast i n. i < n \<and> bcast (n - 1) \<noteq> 0", OF _ assms])
  fix rl bcast i n
  assume ih: "\<And>bcast i n. rl bcast i = Some n \<Longrightarrow> i < n \<and> bcast (n - 1) \<noteq> 0"
    and "(if bcast i = 0 then rl bcast (Suc i) else Some (Suc i)) = Some n"
  then show "i < n \<and> bcast (n - 1) \<noteq> 0" by (cases "bcast i = 0") (auto dest: ih)
qed

lemma reboot_loop_ends: "(\<exists>n. reboot_loop bcast 0 = Some n) \<longleftrightarrow> (\<exists>i. bcast i \<noteq> 0)"
proof
  assume "\<exists>n. reboot_loop bcast 0 = Some n"
  then show "\<exists>i. bcast i \<noteq> 0" using reboot_loop_returns by blast
next
  assume "\<exists>i. bcast i \<noteq> 0"
  then obtain n where "bcast n \<noteq> 0" "\<forall>j < n. bcast j = 0"
    using exists_least_iff [of "\<lambda>i. bcast i \<noteq> 0"] by auto
  then show "\<exists>n. reboot_loop bcast 0 = Some n" using reboot_loop_fails [of n bcast 0] by auto
qed

text \<open>
  C40: a recovery of the modem that has reached the platform reboot. The handler of the event ends if and only if a
  request to reboot fails: as long as the bridge accepts them Control asks again, for ever, and reads no other event.
  When the first failure is that of request \<open>n\<close> (counted from 0) it ends in ST_DOWN, out of service, with no client request pending, after exactly this: the clients are told
  of the cause, of the reboot and of the state of the modem, a pending request gets its failure, once, the intent of the platform reboot is broadcast
  once and the reboot is asked for \<open>n + 1\<close> times. This is for an event with debug information that clients may be told of.
\<close>

theorem ctrl_reboot_sequence:
  assumes "evt_param p = ED_dbg d" "\<not> do_not_report (cdbg c)" "get_next_step (now p) (esc c) = Some (STEP_PLATFORM_REBOOT, e)"
  shows "((\<exists>s c'. escalation c p = Some (s, c')) \<longleftrightarrow> (\<exists>i. reboot_bcast p i \<noteq> 0)) \<and>
    (\<forall>n. reboot_bcast p n \<noteq> 0 \<and> (\<forall>i < n. reboot_bcast p i = 0) \<longrightarrow>
      (\<exists>c'. escalation c p = Some (ST_DOWN, c') \<and> is_mdm_oos c' \<and> client_request (cstate c') = REQ_NONE \<and> esc c' = e \<and>
        out c' = out c @
          [CliNotify (MDM_DBG_INFO (cli p)) d,
           CliNotify (MDM_DBG_INFO (cli p)) (mk_dbg (DBG_TYPE_PLATFORM_REBOOT (cli p)) (DBG_DEFAULT_LOG_SIZE (cli p))
             (DBG_DEFAULT_LOG_SIZE (cli p)) (DBG_DEFAULT_LOG_TIME (cli p)) []),
           CliModemState MDM_STATE_PLATFORM_REBOOT] @
          (if client_request (cstate c) = REQ_NONE then [] else [CliOpResult (-1)]) @
          Broadcast ''com.intel.action.PLATFORM_REBOOT'' # replicate (Suc n) (Broadcast ''android.intent.action.REBOOT'')))"
proof (intro conjI allI impI)
  note defs = escalation_def store_dbg_info_def platform_reboot_def notify_dbg_info_def notify_op_result_if_needed_def emit_def
  show "(\<exists>s c'. escalation c p = Some (s, c')) \<longleftrightarrow> (\<exists>i. reboot_bcast p i \<noteq> 0)"
    using assms by (simp add: defs Let_def reboot_loop_ends [symmetric] bind_Some_iff)
  fix n
  assume n: "reboot_bcast p n \<noteq> 0 \<and> (\<forall>i < n. reboot_bcast p i = 0)"
  then have "reboot_loop (reboot_bcast p) 0 = Some (Suc n)" using reboot_loop_fails [of n "reboot_bcast p" 0] by simp
  then show "\<exists>c'. escalation c p = Some (ST_DOWN, c') \<and> is_mdm_oos c' \<and> client_request (cstate c') = REQ_NONE \<and> esc c' = e \<and>
        out c' = out c @
          [CliNotify (MDM_DBG_INFO (cli p)) d,
           CliNotify (MDM_DBG_INFO (cli p)) (mk_dbg (DBG_TYPE_PLATFORM_REBOOT (cli p)) (DBG_DEFAULT_LOG_SIZE (cli p))
             (DBG_DEFAULT_LOG_SIZE (cli p)) (DBG_DEFAULT_LOG_TIME (cli p)) []),
           CliModemState MDM_STATE_PLATFORM_REBOOT] @
          (if client_request (cstate c) = REQ_NONE then [] else [CliOpResult (-1)]) @
          Broadcast ''com.intel.action.PLATFORM_REBOOT'' # replicate (Suc n) (Broadcast ''android.intent.action.REBOOT'')"
    using assms by (simp add: defs Let_def del: replicate_Suc)
qed

definition reboot_demo :: crm_control_ctx where
  "reboot_demo = demo_ctrl\<lparr>esc := esc_demo\<lparr>counter := 0, cfg_idx := 1, timer_end := \<lparr>tv_sec = 60, tv_nsec = 0\<rparr>\<rparr>\<rparr>"

theorem ctrl_reboot_sequence_witness:
  "\<exists>c' xs. escalation reboot_demo ((demo_param (ED_dbg (mk_dbg 1 0 0 0 [])))\<lparr>reboot_bcast := \<lambda>i. if i < 2 then 0 else -1\<rparr>) = Some (ST_DOWN, c') \<and>
     out c' = xs @ Broadcast ''com.intel.action.PLATFORM_REBOOT'' # replicate 3 (Broadcast ''android.intent.action.REBOOT'')"
proof -
  let ?p = "(demo_param (ED_dbg (mk_dbg 1 0 0 0 [])))\<lparr>reboot_bcast := \<lambda>i. if i < 2 then 0 else -1\<rparr>"
  have e: "get_next_step (now ?p) (esc reboot_demo) = Some (STEP_PLATFORM_REBOOT, snd (the (get_next_step (now ?p) (esc reboot_demo))))"
    by (simp add: reboot_demo_def demo_param_def esc_demo_def get_next_step_def go_next_step.simps array_get_def update_reboot_counter_def time_eval)
  have d: "\<not> do_not_report (cdbg reboot_demo)" "out reboot_demo = []" by (simp_all add: reboot_demo_def demo_ctrl_def crm_ctrl_init_def)
  have p: "evt_param ?p = ED_dbg (mk_dbg 1 0 0 0 [])" "reboot_bcast ?p 2 \<noteq> 0 \<and> (\<forall>i < 2. reboot_bcast ?p i = 0)" by (simp_all add: demo_param_def)
  from ctrl_reboot_sequence [OF p(1) d(1) e, THEN conjunct2, rule_format, OF p(2)] show ?thesis
    unfolding d(2) append_Nil append_assoc [symmetric] by (elim exE conjE) (intro exI conjI, assumption, simp add: numeral_eq_Suc)
qed

end
