(* ===== verification/Crm_System.thy ===== *)
theory Crm_System
  imports Crm_Upload Crm_Dump Crm_Hal_Stub Crm_Control_Props
begin

text \<open>
  Control (plugins/control) together with the plugins it drives: the firmware upload (plugins/fw_upload) and the core
  dump (plugins/dump). What Control asks of a plugin is read from its trace and served by the model of the plugin, and what the plugin
  answers comes back as an event.
\<close>

section \<open>The plugin serves Control\<close>

text \<open>
  The requests of Control to the PCIe plugin in their order: the packaging of \<open>path\<close>, and the flashing up to its
  end. \<open>inject\<close>, \<open>created\<close> and \<open>r\<close> are the answers of the library, of the factory and of the process.
\<close>

fun upload_serves :: "int \<Rightarrow> string \<Rightarrow> int \<Rightarrow> flash_poll \<Rightarrow> ctrl_out list \<Rightarrow> fw_upload \<Rightarrow> fw_upload option" where
  "upload_serves inject path created r [] u = Some u"
| "upload_serves inject path created r (x # xs) u = do {
     u \<leftarrow> (case x of
         UploadPackage \<Rightarrow> package True inject path u
       | UploadFlash ns \<Rightarrow> do { u \<leftarrow> flash created ns u; control_flash_process r u }
       | _ \<Rightarrow> Some u);
     upload_serves inject path created r xs u
   }"

text \<open>Everything but the messages to the watchdog.\<close>

definition effects :: "ctrl_out list \<Rightarrow> ctrl_out list" where
  "effects xs = filter (\<lambda>x. case x of WatchMsg _ \<Rightarrow> False | _ \<Rightarrow> True) xs"

text \<open>The orders in which the packaging and the modem may announce that they are ready for flashing.\<close>

definition packaging_orders :: "ctrl_param \<Rightarrow> ctrl_param \<Rightarrow> ctrl_param \<Rightarrow> (int \<times> ctrl_param) list set" where
  "packaging_orders b f q =
     {[(EV_HAL_MDM_BUSY, b), (EV_HAL_MDM_FLASH, f), (EV_FW_SUCCESS, q)],
      [(EV_HAL_MDM_BUSY, b), (EV_FW_SUCCESS, q), (EV_HAL_MDM_FLASH, f)],
      [(EV_FW_SUCCESS, q), (EV_HAL_MDM_BUSY, b), (EV_HAL_MDM_FLASH, f)]}"

section \<open>Steps of Control\<close>

lemma system_cells:
  "ctrl_rows ! 0 ! Suc 0 = cell request_start" "ctrl_rows ! 7 ! 2 = cell notify_busy" "ctrl_rows ! 7 ! 7 = cell dump_error"
  by (simp_all add: ctrl_rows_def)

lemma down_start:
  assumes "ctrl_inv ST_DOWN c" "\<not> is_mdm_oos c" "client_request (cstate c) = REQ_NONE"
  shows "\<exists>m i. notify_event ctrl_fsm ST_DOWN EV_CLI_START c p = Some (ST_PACKAGING,
    c\<lparr>cstate := (cstate c)\<lparr>client_request := REQ_START\<rparr>, watch_id := i, out := out c @ [UploadPackage, HalPowerOn, WatchMsg m]\<rparr>)"
proof -
  let ?c = "c\<lparr>cstate := (cstate c)\<lparr>client_request := REQ_START\<rparr>, out := out c @ [UploadPackage, HalPowerOn]\<rparr>"
  have "0 \<le> timeout ?c" "timeout ?c \<le> MAX_TIMEOUT" "id_ok (watch_id ?c)" using assms(1) by (auto simp: ctrl_inv_def id_ok_def)
  from watchdog_start_ok [OF this] obtain m where m: "watchdog_start ?c (timeout ?c) =
      Some (emit (?c\<lparr>watch_id := watchdog_get_new_id (watch_id ?c)\<rparr>) (WatchMsg m))" by blast
  have "request_start c p = Some (ST_PACKAGING, ?c)"
    using assms(2,3) by (simp add: request_start_def set_request_def emit_def)
  moreover have "state_trans ST_DOWN ST_PACKAGING EV_CLI_START ?c p =
      Some (c\<lparr>cstate := (cstate c)\<lparr>client_request := REQ_START\<rparr>, watch_id := watchdog_get_new_id (watch_id c), out := out c @ [UploadPackage, HalPowerOn, WatchMsg m]\<rparr>)"
    using m by (simp add: state_trans_def emit_def)
  ultimately show ?thesis
    by (intro exI ctrl_notify_move [where f = request_start and ?c1.0 = c]) (auto simp: system_cells pre_op_def)
qed

lemma busy_packaging:
  "notify_event ctrl_fsm ST_PACKAGING EV_HAL_MDM_BUSY c p = Some (ST_PACKAGING,
    c\<lparr>cstate := (cstate c)\<lparr>waiting_hal_busy_reason := True\<rparr>, out := out c @ [CliModemState MDM_STATE_BUSY]\<rparr>)"
  by (rule ctrl_notify_stay [where f = notify_busy and ?c1.0 = "c\<lparr>cstate := (cstate c)\<lparr>waiting_hal_busy_reason := True\<rparr>\<rparr>"]) (simp_all add: system_cells pre_op_def notify_busy_def emit_def)

text \<open>Ready: neither a flash event nor a firmware is pending.\<close>

lemma packaging_flashes:
  assumes "es \<in> packaging_orders b f q" "evt_param f = ED_hal h" "hal_type h = HAL_MDM_FLASH"
    and "hal_evt (cstate c) = None" "\<not> fw_ready (cstate c)"
  shows "notify_events ctrl_fsm ST_PACKAGING c es = Some (ST_FLASHING,
    c\<lparr>cstate := (cstate c)\<lparr>waiting_hal_busy_reason := False\<rparr>, out := out c @ [CliModemState MDM_STATE_BUSY, UploadFlash (nodes h)]\<rparr>)"
proof -
  have fw1: "notify_event ctrl_fsm ST_PACKAGING EV_FW_SUCCESS d q = Some (ST_PACKAGING, d\<lparr>cstate := (cstate d)\<lparr>fw_ready := True\<rparr>\<rparr>)"
    if "hal_evt (cstate d) = None" for d
    by (rule ctrl_notify_stay [where f = fw_ready_evt and ?c1.0 = d]) (use that in \<open>simp_all add: flash_cells pre_op_def fw_ready_evt_def mdm_flash_def\<close>)
  have fw2: "notify_event ctrl_fsm ST_PACKAGING EV_FW_SUCCESS d q =
      Some (ST_FLASHING, d\<lparr>cstate := (cstate d)\<lparr>hal_evt := None, fw_ready := False\<rparr>, out := out d @ [UploadFlash (nodes h)]\<rparr>)"
    if "hal_evt (cstate d) = Some h" for d
    by (rule ctrl_notify_move [where f = fw_ready_evt and ?c1.0 = d and ?c2.0 = "d\<lparr>cstate := (cstate d)\<lparr>hal_evt := None, fw_ready := False\<rparr>, out := out d @ [UploadFlash (nodes h)]\<rparr>"])
      (use that assms(3) in \<open>simp_all add: flash_cells pre_op_def fw_ready_evt_def mdm_flash_def emit_def state_trans_watching needs_watch_def\<close>)
  have hal1: "notify_event ctrl_fsm ST_PACKAGING EV_HAL_MDM_FLASH d f =
      Some (ST_PACKAGING, d\<lparr>cstate := (cstate d)\<lparr>waiting_hal_busy_reason := False, hal_evt := Some h\<rparr>\<rparr>)"
    if "hal_evt (cstate d) = None" "\<not> fw_ready (cstate d)" "waiting_hal_busy_reason (cstate d)" for d
    by (rule ctrl_notify_stay [where f = flash_evt and ?c1.0 = "d\<lparr>cstate := (cstate d)\<lparr>waiting_hal_busy_reason := False\<rparr>\<rparr>"]) (use that assms(2) in \<open>simp_all add: flash_cells bind_busy flash_evt_def mdm_flash_def\<close>)
  have hal2: "notify_event ctrl_fsm ST_PACKAGING EV_HAL_MDM_FLASH d f =
      Some (ST_FLASHING, d\<lparr>cstate := (cstate d)\<lparr>waiting_hal_busy_reason := False, fw_ready := False\<rparr>, out := out d @ [UploadFlash (nodes h)]\<rparr>)"
    if "hal_evt (cstate d) = None" "fw_ready (cstate d)" "waiting_hal_busy_reason (cstate d)" for d
    by (rule ctrl_notify_move [where f = flash_evt and ?c1.0 = "d\<lparr>cstate := (cstate d)\<lparr>waiting_hal_busy_reason := False\<rparr>\<rparr>"])
      (use that assms(2,3) in \<open>simp_all add: flash_cells bind_busy flash_evt_def mdm_flash_def emit_def state_trans_watching needs_watch_def\<close>)
  have s: "(cstate c)\<lparr>waiting_hal_busy_reason := False, hal_evt := None, fw_ready := False\<rparr> = (cstate c)\<lparr>waiting_hal_busy_reason := False\<rparr>"
    using assms(4,5) by (cases "cstate c") simp
  show ?thesis
    using assms(1,4,5) s unfolding packaging_orders_def by (elim insertE emptyE) (simp_all add: busy_packaging fw1 fw2 hal1 hal2)
qed

lemma flashing_ends:
  assumes "es = [(EV_FW_SUCCESS, q), (EV_HAL_MDM_RUN, r)] \<and> boot = [HalBoot] \<or> es = [(EV_HAL_MDM_RUN, q), (EV_FW_SUCCESS, r)] \<and> boot = []"
    and "nb_tlvs r = 0" "\<not> flash_done (cstate c)" "\<not> run_ipc (cstate c)" "client_request (cstate c) \<noteq> REQ_NONE"
    and "0 \<le> watch_id c" "watch_id c \<le> MAX_REQ_ID"
  shows "\<exists>m. notify_events ctrl_fsm ST_FLASHING c es = Some (ST_UP,
    c\<lparr>cstate := (cstate c)\<lparr>client_request := REQ_NONE\<rparr>,
      out := out c @ boot @ [ElectorFlashed 0, CliOpResult 0, CliModemState MDM_STATE_READY, WatchMsg m]\<rparr>)"
proof -
  let ?c = "c\<lparr>cstate := (cstate c)\<lparr>client_request := REQ_NONE\<rparr>, out := out c @ boot @ [ElectorFlashed 0, CliOpResult 0, CliModemState MDM_STATE_READY]\<rparr>"
  from watchdog_stop_ok [of ?c] assms(6,7) obtain m where m: "watchdog_stop ?c = Some (emit ?c (WatchMsg m))" by auto
  let ?e = "c\<lparr>cstate := (cstate c)\<lparr>client_request := REQ_NONE\<rparr>, out := out c @ boot @ [ElectorFlashed 0, CliOpResult 0, CliModemState MDM_STATE_READY, WatchMsg m]\<rparr>"
  have t: "state_trans ST_FLASHING ST_UP e ?c p = Some ?e" for e p
    using m by (simp add: state_trans_def emit_def)
  have s: "(cstate c)\<lparr>flash_done := False, run_ipc := False, client_request := REQ_NONE\<rparr> = (cstate c)\<lparr>client_request := REQ_NONE\<rparr>"
    "(cstate c)\<lparr>run_ipc := False, flash_done := False, client_request := REQ_NONE\<rparr> = (cstate c)\<lparr>client_request := REQ_NONE\<rparr>"
    using assms(3,4) by (cases "cstate c"; simp)+
  show ?thesis using assms(1)
  proof
    assume e: "es = [(EV_FW_SUCCESS, q), (EV_HAL_MDM_RUN, r)] \<and> boot = [HalBoot]"
    let ?d = "c\<lparr>cstate := (cstate c)\<lparr>flash_done := True\<rparr>, out := out c @ [HalBoot, ElectorFlashed 0]\<rparr>"
    have "notify_event ctrl_fsm ST_FLASHING EV_FW_SUCCESS c q = Some (ST_FLASHING, ?d)"
      by (rule ctrl_notify_stay [where f = flash_success_evt and ?c1.0 = c])
        (use assms(4) in \<open>simp_all add: flash_cells pre_op_def flash_success_evt_def mdm_cfg_def emit_def\<close>)
    moreover have "run_evt ?d r = Some (ST_UP, ?c)"
      using assms(2,5) s e by (simp add: run_evt_def mdm_cfg_def notify_op_result_if_needed_def emit_def Let_def)
    then have "notify_event ctrl_fsm ST_FLASHING EV_HAL_MDM_RUN ?d r = Some (ST_UP, ?e)"
      by (rule ctrl_notify_move [where f = run_evt and ?c1.0 = ?d, rotated 6]) (simp_all add: flash_cells pre_op_def t)
    ultimately show ?thesis using e by auto
  next
    assume e: "es = [(EV_HAL_MDM_RUN, q), (EV_FW_SUCCESS, r)] \<and> boot = []"
    let ?d = "c\<lparr>cstate := (cstate c)\<lparr>run_ipc := True\<rparr>\<rparr>"
    have "notify_event ctrl_fsm ST_FLASHING EV_HAL_MDM_RUN c q = Some (ST_FLASHING, ?d)"
      by (rule ctrl_notify_stay [where f = run_evt and ?c1.0 = c]) (use assms(3) in \<open>simp_all add: flash_cells pre_op_def run_evt_def mdm_cfg_def\<close>)
    moreover have "flash_success_evt ?d r = Some (ST_UP, ?c)"
      using assms(2,5) s e by (simp add: flash_success_evt_def mdm_cfg_def notify_op_result_if_needed_def emit_def Let_def)
    then have "notify_event ctrl_fsm ST_FLASHING EV_FW_SUCCESS ?d r = Some (ST_UP, ?e)"
      by (rule ctrl_notify_move [where f = flash_success_evt and ?c1.0 = ?d, rotated 6]) (simp_all add: flash_cells pre_op_def t)
    ultimately show ?thesis using e by auto
  qed
qed

section \<open>Properties\<close>

text \<open>
  C10: the modem is brought up end to end. From ST_DOWN a start request of a client, with the answers of an idle upload plugin and of the
  modem in any of the orders they may come, leads Control to ST_UP: it packages, powers the modem on, flashes the nodes the
  modem named, boots the modem unless it runs already, tells the elector, and answers the client once, with
  success; the plugin, served by what Control asked in that order, gives exactly the two successes Control was sent, and is idle
  again. This is for a firmware without customization files to apply.
\<close>

theorem modem_brought_up:
  assumes "ctrl_inv ST_DOWN c" "\<not> is_mdm_oos c" "cstate c = zero_state"
    and "es \<in> packaging_orders b f q" "evt_param f = ED_hal h" "hal_type h = HAL_MDM_FLASH"
    and "fs = [(EV_FW_SUCCESS, q'), (EV_HAL_MDM_RUN, r)] \<and> boot = [HalBoot] \<or> fs = [(EV_HAL_MDM_RUN, q'), (EV_FW_SUCCESS, r)] \<and> boot = []"
    and "nb_tlvs r = 0"
    and "process_id u = -1" "\<not> fw_injected_ready u" "inject \<noteq> 0" "created \<ge> 0"
  shows "\<exists>c' xs u'. notify_events ctrl_fsm ST_DOWN c ((EV_CLI_START, p) # es @ fs) = Some (ST_UP, c') \<and>
    out c' = out c @ xs \<and> cstate c' = zero_state \<and>
    effects xs = [UploadPackage, HalPowerOn, CliModemState MDM_STATE_BUSY, UploadFlash (nodes h)] @ boot @
      [ElectorFlashed 0, CliOpResult 0, CliModemState MDM_STATE_READY] \<and>
    upload_serves inject path created (FpMsg 0) xs u = Some u' \<and> process_id u' = -1 \<and> \<not> fw_injected_ready u' \<and>
    up_statuses (up_out u') = up_statuses (up_out u) @ [0, 0]"
proof -
  have z: "client_request (cstate c) = REQ_NONE" using assms(3) by (simp add: zero_state_def)
  from down_start [OF assms(1,2) z, of p] obtain m i where m: "notify_event ctrl_fsm ST_DOWN EV_CLI_START c p = Some (ST_PACKAGING,
    c\<lparr>cstate := (cstate c)\<lparr>client_request := REQ_START\<rparr>, watch_id := i, out := out c @ [UploadPackage, HalPowerOn, WatchMsg m]\<rparr>)" by blast
  let ?d = "c\<lparr>cstate := (cstate c)\<lparr>client_request := REQ_START\<rparr>, watch_id := i, out := out c @ [UploadPackage, HalPowerOn, WatchMsg m]\<rparr>"
  let ?e = "?d\<lparr>cstate := (cstate ?d)\<lparr>waiting_hal_busy_reason := False\<rparr>, out := out ?d @ [CliModemState MDM_STATE_BUSY, UploadFlash (nodes h)]\<rparr>"
  have e: "notify_events ctrl_fsm ST_PACKAGING ?d es = Some (ST_FLASHING, ?e)"
    by (rule packaging_flashes [OF assms(4-6)]) (simp_all add: assms(3) zero_state_def)
  have "0 \<le> i \<and> i \<le> MAX_REQ_ID" using ctrl_step_inv [OF assms(1) m] by (simp add: ctrl_inv_def)
  then obtain m' where m': "notify_events ctrl_fsm ST_FLASHING ?e fs = Some (ST_UP,
      ?e\<lparr>cstate := (cstate ?e)\<lparr>client_request := REQ_NONE\<rparr>,
        out := out ?e @ boot @ [ElectorFlashed 0, CliOpResult 0, CliModemState MDM_STATE_READY, WatchMsg m']\<rparr>)"
    using flashing_ends [OF assms(7,8), of ?e] assms(3) by (auto simp: zero_state_def)
  let ?xs = "[UploadPackage, HalPowerOn, WatchMsg m, CliModemState MDM_STATE_BUSY, UploadFlash (nodes h)] @ boot @
      [ElectorFlashed 0, CliOpResult 0, CliModemState MDM_STATE_READY, WatchMsg m']"
  have b: "boot = [] \<or> boot = [HalBoot]" using assms(7) by auto
  then obtain u' where "upload_serves inject path created (FpMsg 0) ?xs u = Some u'" "process_id u' = -1" "\<not> fw_injected_ready u'"
    "up_statuses (up_out u') = up_statuses (up_out u) @ [0, 0]"
    using assms(9-12) by (auto simp: upload_defs)
  moreover have "effects ?xs = [UploadPackage, HalPowerOn, CliModemState MDM_STATE_BUSY, UploadFlash (nodes h)] @ boot @
      [ElectorFlashed 0, CliOpResult 0, CliModemState MDM_STATE_READY]" using b by (auto simp: effects_def)
  moreover obtain c' where "notify_events ctrl_fsm ST_DOWN c ((EV_CLI_START, p) # es @ fs) = Some (ST_UP, c')" "out c' = out c @ ?xs" "cstate c' = zero_state"
    using m e m' assms(3) by (simp add: notify_events_append zero_state_def)
  ultimately show ?thesis by blast
qed

text \<open>Control after its start, once the modem has said that it is off.\<close>

definition system_demo :: "(int \<times> crm_control_ctx) option" where
  "system_demo = do { (st, c) \<leftarrow> event_loop_start demo_ctrl; notify_event ctrl_fsm st EV_HAL_MDM_OFF c (demo_param ED_null) }"

lemma system_demo_down:
  obtains c where "system_demo = Some (ST_DOWN, c)" "ctrl_inv ST_DOWN c" "\<not> is_mdm_oos c" "cstate c = zero_state"
proof -
  have "map_option (\<lambda>(st, c). (st, is_mdm_oos c, cstate c = zero_state)) system_demo = Some (ST_DOWN, False, True)" by code_simp
  then obtain c where c: "system_demo = Some (ST_DOWN, c)" "\<not> is_mdm_oos c" "cstate c = zero_state" by auto
  then obtain st0 c0 where s: "event_loop_start (crm_ctrl_init 60000 esc_demo) = Some (st0, c0)"
    "notify_event ctrl_fsm st0 EV_HAL_MDM_OFF c0 (demo_param ED_null) = Some (ST_DOWN, c)"
    by (auto simp: system_demo_def demo_ctrl_def bind_Some_iff)
  have "ctrl_inv ST_DOWN c" using ctrl_step_inv [OF event_loop_start_inv [OF s(1)] s(2)] by simp
  with c that show thesis by blast
qed

theorem modem_brought_up_witness:
  "\<exists>c c' xs u'. system_demo = Some (ST_DOWN, c) \<and>
    notify_events ctrl_fsm ST_DOWN c [(EV_CLI_START, demo_param ED_null), (EV_HAL_MDM_BUSY, demo_param ED_null), (EV_FW_SUCCESS, demo_param ED_null),
      (EV_HAL_MDM_FLASH, demo_param (ED_hal demo_flash)), (EV_FW_SUCCESS, demo_param ED_null), (EV_HAL_MDM_RUN, demo_param ED_null)] = Some (ST_UP, c') \<and>
    out c' = out c @ xs \<and> upload_serves 1 ''fw'' 3 (FpMsg 0) xs (pcie_demo\<lparr>fw_injected_ready := False\<rparr>) = Some u' \<and> up_statuses (up_out u') = [0, 0]"
proof -
  obtain c where c: "system_demo = Some (ST_DOWN, c)" "ctrl_inv ST_DOWN c" "\<not> is_mdm_oos c" "cstate c = zero_state" by (rule system_demo_down)
  have o: "[(EV_HAL_MDM_BUSY, demo_param ED_null), (EV_FW_SUCCESS, demo_param ED_null), (EV_HAL_MDM_FLASH, demo_param (ED_hal demo_flash))] \<in>
      packaging_orders (demo_param ED_null) (demo_param (ED_hal demo_flash)) (demo_param ED_null)" by (simp add: packaging_orders_def)
  have h: "evt_param (demo_param (ED_hal demo_flash)) = ED_hal demo_flash" "hal_type demo_flash = HAL_MDM_FLASH" "nb_tlvs (demo_param ED_null) = 0"
    by (simp_all add: demo_param_def demo_flash_def)
  have u: "process_id (pcie_demo\<lparr>fw_injected_ready := False\<rparr>) = -1" "\<not> fw_injected_ready (pcie_demo\<lparr>fw_injected_ready := False\<rparr>)"
    "(1::int) \<noteq> 0" "(3::int) \<ge> 0" "up_statuses (up_out (pcie_demo\<lparr>fw_injected_ready := False\<rparr>)) = []" by (simp_all add: pcie_demo_def)
  show ?thesis
    using modem_brought_up [OF c(2-4) o h(1,2) disjI1 [OF conjI [OF refl refl]] h(3) u(1-4), of "demo_param ED_null" "demo_param ED_null" "''fw''"] c(1)
    unfolding u(5) by fastforce
qed

section \<open>Interruptions\<close>

text \<open>What Control appends to its trace.\<close>

lemma notify_dbg_info_outs: "notify_dbg_info c p b = Some c' \<Longrightarrow> \<exists>xs. out c' = out c @ xs \<and> (\<forall>x \<in> set xs. \<exists>k d. x = CliNotify k d)"
  by (auto simp: notify_dbg_info_def emit_def bind_Some_iff Let_def split: if_splits option.splits)

lemma mdm_restart_outs:
  assumes "mdm_restart c p b b' = Some (s, c')"
  shows "\<exists>xs. s = ST_PACKAGING \<and> out c' = out c @ xs @ [UploadPackage, HalReset (if b' then RESET_BACKUP else RESET_COLD), Broadcast ''com.intel.action.MODEM_COLD_RESET''] \<and>
    (\<forall>x \<in> set xs. \<exists>k d. x = CliNotify k d)"
  using assms by (auto simp: mdm_restart_def emit_def bind_Some_iff Let_def dest!: notify_dbg_info_outs)

lemma terminal_outs:
  "set_oos c p = Some (s, c') \<Longrightarrow> s = ST_DOWN \<and> (\<exists>xs. out c' = out c @ xs)"
  "platform_reboot c p = Some (s, c') \<Longrightarrow> s = ST_DOWN \<and> (\<exists>xs. out c' = out c @ xs)"
  by (auto simp: set_oos_def platform_reboot_def emit_def notify_op_result_if_needed_def bind_Some_iff Let_def dest!: notify_dbg_info_outs split: if_splits)

lemma escalation_outs:
  assumes "escalation c p = Some (s, c')"
  shows "(\<exists>xs. out c' = out c @ xs) \<and> (s = ST_PACKAGING \<longrightarrow> (\<exists>xs ys. out c' = out c @ xs @ UploadPackage # ys \<and> (\<forall>x \<in> set xs. \<exists>k d. x = CliNotify k d)))"
proof -
  from assms obtain c1 p1 step e where e: "store_dbg_info c p True = Some (c1, p1)" "get_next_step (now p1) (esc c1) = Some (step, e)"
    "(if step = STEP_MDM_WARM_RESET then None else if step = STEP_MDM_COLD_RESET then mdm_restart (c1\<lparr>esc := e\<rparr>) p1 True False
     else if step = STEP_PLATFORM_REBOOT then platform_reboot (c1\<lparr>esc := e\<rparr>) p1
     else if step = STEP_OOS then set_oos (c1\<lparr>esc := e\<rparr>) p1 else None) = Some (s, c')"
    by (auto simp: escalation_def bind_Some_iff Let_def)
  have o: "out (c1\<lparr>esc := e\<rparr>) = out c" using e(1) by (auto simp: store_dbg_info_def split: ctrl_evt.splits)
  show ?thesis
    using e(3) mdm_restart_outs [of "c1\<lparr>esc := e\<rparr>" p1 True False s c'] terminal_outs [of "c1\<lparr>esc := e\<rparr>" p1 s c'] o
    by (auto split: if_splits)
qed

lemma requested_operation_outs:
  assumes "requested_operation c p = Some (s, c')"
  shows "\<exists>xs. out c' = out c @ xs"
proof -
  from assms obtain c1 p1 where e: "store_dbg_info c p True = Some (c1, p1)"
    "(case client_request (cstate c1) of REQ_NONE \<Rightarrow> Some (ST_WAITING, c1) | REQ_RESET \<Rightarrow> escalation c1 p1
      | REQ_START \<Rightarrow> escalation c1 p1 | REQ_STOP \<Rightarrow> mdm_stop c1 p1) = Some (s, c')"
    by (auto simp: requested_operation_def bind_Some_iff)
  have "out c1 = out c" using e(1) by (auto simp: store_dbg_info_def split: ctrl_evt.splits)
  with e(2) escalation_outs [of c1 p1 s c'] show ?thesis by (auto simp: mdm_stop_def emit_def split: cli_request.splits)
qed

lemma serves_notifications: "\<forall>x \<in> set xs. \<exists>k d. x = CliNotify k d \<Longrightarrow> upload_serves inject path created r (xs @ ys) u = upload_serves inject path created r ys u"
  by (induction xs) auto

lemma state_trans_outs: "state_trans st st' evt c p = Some c' \<Longrightarrow> \<exists>xs. out c' = out c @ xs"
  by (auto simp: state_trans_def watchdog_start_def watchdog_stop_def emit_def bind_Some_iff Let_def split: if_splits)

lemma ctrl_notify_out:
  assumes "notify_event ctrl_fsm st evt c p = Some (st', c')" "0 \<le> st" "st < 8" "0 \<le> evt" "evt < 17" "ctrl_rows ! nat evt ! nat st = cell f"
    and "\<And>d s d'. f d p = Some (s, d') \<Longrightarrow> s > -2"
  shows "\<exists>c1 c2 s xs. pre_op evt c = Some c1 \<and> f c1 p = Some (s, c2) \<and> out c' = out c2 @ xs \<and> (s = -1 \<and> st' = st \<or> s = st')"
proof -
  from assms(1-6) obtain c1 s err c2 where n: "pre_op evt c = Some c1" "run_operation ctrl_fsm (cell f) st c1 p = Some (s, err, c2)"
    "(if st \<noteq> s then state_trans st s evt c2 p else Some c2) = Some c'" "s = st'"
    by (auto simp: ctrl_notify_unfold bind_Some_iff)
  from n(2) obtain s' d where f: "f c1 p = Some (s', d)" by (auto simp: run_operation_def bind_Some_iff)
  with n(2) assms(7) [OF f] have "d = c2" "s = (if s' = -1 then st else s')" by (auto simp: run_operation_def bind_Some_iff split: if_splits)
  moreover have "\<exists>xs. out c' = out c2 @ xs" using n(3) state_trans_outs by (cases "st = s") auto
  ultimately show ?thesis using n f by (auto split: if_splits)
qed

lemma pre_op_out: "pre_op evt c = Some c1 \<Longrightarrow> out c1 = out c"
  by (auto simp: pre_op_def bind_Some_iff split: if_splits)

lemma op_states:
  "escalation c p = Some (s, c') \<Longrightarrow> s \<in> {ST_PACKAGING, ST_DOWN}"
  "requested_operation c p = Some (s, c') \<Longrightarrow> s \<in> {ST_PACKAGING, ST_DOWN, ST_WAITING}"
  "dump_error c p = Some (s, c') \<Longrightarrow> s \<in> {ST_PACKAGING, ST_DOWN, ST_WAITING}"
proof -
  have e: "s \<in> {ST_PACKAGING, ST_DOWN}" if "escalation c p = Some (s, c')" for c p c'
    using that by (auto simp: escalation_def bind_Some_iff Let_def dest!: mdm_restart_outs terminal_outs split: if_splits)
  have r: "s \<in> {ST_PACKAGING, ST_DOWN, ST_WAITING}" if "requested_operation c p = Some (s, c')" for c p c'
    using that e by (auto simp: requested_operation_def mdm_stop_def bind_Some_iff split: cli_request.splits) (metis cli_request.exhaust)
  show "escalation c p = Some (s, c') \<Longrightarrow> s \<in> {ST_PACKAGING, ST_DOWN}" by (rule e)
  show "requested_operation c p = Some (s, c') \<Longrightarrow> s \<in> {ST_PACKAGING, ST_DOWN, ST_WAITING}" by (rule r)
  show "dump_error c p = Some (s, c') \<Longrightarrow> s \<in> {ST_PACKAGING, ST_DOWN, ST_WAITING}" unfolding dump_error_def Let_def by (rule r)
qed

text \<open>
  C35: a modem that resets while it is being flashed brings CRM down. Control answers a reset event in ST_FLASHING with a new packaging as
  soon as the escalation chooses a cold reset, but the flashing goes on in the plugin, which asserts that none
  is: served by what Control asks, the PCIe plugin aborts, and so do those of Sofia.
\<close>

theorem reset_while_flashing_aborts:
  assumes a: "notify_event ctrl_fsm ST_FLASHING EV_HAL_MDM_NEED_RESET c p = Some (ST_PACKAGING, c')" "process_id u \<ge> 0" "op_ongoing v"
  shows "\<exists>xs. out c' = out c @ xs \<and> UploadPackage \<in> set xs \<and> upload_serves inject path created r xs u = None \<and> sofia_package path v = None"
proof -
  have "\<exists>c1 c2 s xs. pre_op EV_HAL_MDM_NEED_RESET c = Some c1 \<and> escalation c1 p = Some (s, c2) \<and> out c' = out c2 @ xs \<and> (s = -1 \<and> ST_PACKAGING = ST_FLASHING \<or> s = ST_PACKAGING)"
    by (rule ctrl_notify_out [OF a(1)]) (fastforce simp: flash_cells dest: op_states(1))+
  then obtain c1 c2 zs where z: "pre_op EV_HAL_MDM_NEED_RESET c = Some c1" "escalation c1 p = Some (ST_PACKAGING, c2)" "out c' = out c2 @ zs" by auto
  from escalation_outs [OF z(2)] obtain xs ys where x: "out c2 = out c1 @ xs @ UploadPackage # ys" "\<forall>x \<in> set xs. \<exists>k d. x = CliNotify k d" by blast
  have "upload_serves inject path created r (xs @ UploadPackage # ys @ zs) u = None"
    using a(2) by (simp add: serves_notifications [OF x(2)] package_def)
  moreover have "out c' = out c @ xs @ UploadPackage # ys @ zs" using z(3) x(1) pre_op_out [OF z(1)] by simp
  moreover have "sofia_package path v = None" using a(3) by (simp add: sofia_package_def)
  ultimately show ?thesis
    by (intro exI [of _ "xs @ UploadPackage # ys @ zs"]) simp
qed

text \<open>
  A modem that crashes again while its dump is read brings CRM down. A busy event in ST_DUMPING makes Control stop the dump, whatever
  comes next, and the plugins implement that by an assertion that fails.
\<close>

theorem busy_while_dumping_aborts:
  assumes a: "notify_event ctrl_fsm ST_DUMPING EV_HAL_MDM_BUSY d p = Some (st, d')"
  shows "\<exists>xs. out d' = out d @ xs \<and> DumpStop \<in> set xs \<and> dump_stop w = None"
proof -
  have "\<exists>c1 c2 s xs. pre_op EV_HAL_MDM_BUSY d = Some c1 \<and> dump_error c1 p = Some (s, c2) \<and> out d' = out c2 @ xs \<and> (s = -1 \<and> st = ST_DUMPING \<or> s = st)"
    by (rule ctrl_notify_out [OF a]) (fastforce simp: system_cells dest: op_states(3))+
  then obtain c1 c2 s zs where z: "pre_op EV_HAL_MDM_BUSY d = Some c1" "dump_error c1 p = Some (s, c2)" "out d' = out c2 @ zs" by auto
  have "\<exists>xs. out c2 = out c1 @ DumpStop # xs"
    using z(2) by (auto simp: dump_error_def Let_def emit_def dest!: requested_operation_outs)
  then show ?thesis
    using z(3) pre_op_out [OF z(1)] by (auto simp: dump_stop_def)
qed

theorem reset_while_flashing_aborts_witness:
  "\<exists>c' xs. notify_event ctrl_fsm ST_FLASHING EV_HAL_MDM_NEED_RESET (demo_ctrl\<lparr>cstate := zero_state\<lparr>waiting_hal_busy_reason := True\<rparr>\<rparr>)
      (demo_param (ED_dbg (mk_dbg 1 0 0 0 []))) = Some (ST_PACKAGING, c') \<and>
    out c' = xs \<and> upload_serves 1 ''fw'' 3 (FpMsg 0) xs (pcie_demo\<lparr>process_id := 4\<rparr>) = None"
proof -
  let ?c = "demo_ctrl\<lparr>cstate := zero_state\<lparr>waiting_hal_busy_reason := True\<rparr>\<rparr>" and ?p = "demo_param (ED_dbg (mk_dbg 1 0 0 0 []))"
  have "map_option fst (notify_event ctrl_fsm ST_FLASHING EV_HAL_MDM_NEED_RESET ?c ?p) = Some ST_PACKAGING" by code_simp
  then obtain c' where c': "notify_event ctrl_fsm ST_FLASHING EV_HAL_MDM_NEED_RESET ?c ?p = Some (ST_PACKAGING, c')" by auto
  have "out ?c = []" by (simp add: demo_ctrl_def crm_ctrl_init_def)
  with reset_while_flashing_aborts [OF c', of "pcie_demo\<lparr>process_id := 4\<rparr>" "sofia_upload_init\<lparr>op_ongoing := True\<rparr>" 1 "''fw''" 3 "FpMsg 0"] c'
  show ?thesis by auto
qed

theorem busy_while_dumping_aborts_witness:
  "\<exists>st d'. notify_event ctrl_fsm ST_DUMPING EV_HAL_MDM_BUSY demo_ctrl (demo_param ED_null) = Some (st, d') \<and> DumpStop \<in> set (out d')"
proof -
  have "notify_event ctrl_fsm ST_DUMPING EV_HAL_MDM_BUSY demo_ctrl (demo_param ED_null) \<noteq> None" by code_simp
  then obtain st d' where d: "notify_event ctrl_fsm ST_DUMPING EV_HAL_MDM_BUSY demo_ctrl (demo_param ED_null) = Some (st, d')" by auto
  with busy_while_dumping_aborts [OF d, of "()"] show ?thesis by auto
qed

section \<open>Control and the stub\<close>

text \<open>
  With the stub as its HAL, CRM aborts at the first start of the modem. From its start Control awaits no reason, and the
  event the stub reports for the first power-on is a flash event: in every state Control fails the assertion of its pre-operation.
\<close>

theorem stub_power_on_aborts_control:
  assumes "crm_hal_stub_init True = Some s" "hal_stub [Some (STUB_MDM_POWER # ms)] s = Some s'"
    and "\<not> waiting_hal_busy_reason (cstate c)" "0 \<le> st" "st < ST_NUM"
  shows "\<exists>ts. stub_reports (stub_trace s') = HAL_MDM_FLASH # ts \<and> get_hal_id HAL_MDM_FLASH = Some EV_HAL_MDM_FLASH \<and>
    notify_event ctrl_fsm st EV_HAL_MDM_FLASH c p = None"
proof -
  have "stub_control s" "stub_reports (stub_trace s) = []" using assms(1) by (auto simp: crm_hal_stub_init_def stub_emit_def)
  with hal_stub_total [of s "[STUB_MDM_POWER # ms]"] assms(2) have "\<exists>ts. stub_reports (stub_trace s') = HAL_MDM_FLASH # ts" by (auto simp: stub_answer_def)
  moreover have "notify_event ctrl_fsm st EV_HAL_MDM_FLASH c p = None" using assms(3-5) by (simp add: ctrl_notify_unfold bind_busy)
  ultimately show ?thesis by (simp add: get_hal_id_def)
qed

theorem stub_power_on_aborts_control_witness:
  "\<exists>s s' ts. crm_hal_stub_init True = Some s \<and> hal_stub [Some [STUB_MDM_POWER]] s = Some s' \<and> stub_reports (stub_trace s') = HAL_MDM_FLASH # ts \<and>
     notify_event ctrl_fsm ST_PACKAGING EV_HAL_MDM_FLASH demo_ctrl (demo_param (ED_hal demo_flash)) = None"
proof -
  obtain s where s: "crm_hal_stub_init True = Some s" by (simp add: crm_hal_stub_init_def)
  then have "stub_control s" by (auto simp: crm_hal_stub_init_def stub_emit_def)
  with hal_stub_total [of s "[[STUB_MDM_POWER]]"] obtain s' where s': "hal_stub [Some [STUB_MDM_POWER]] s = Some s'" by auto
  from stub_power_on_aborts_control [OF s s', of demo_ctrl ST_PACKAGING "demo_param (ED_hal demo_flash)"] s s' show ?thesis
    by (auto simp: demo_ctrl_def crm_ctrl_init_def zero_state_def)
qed

end
