(* ===== verification/Crm_Client.thy ===== *)
theory Crm_Client
  imports Crm_Strings
begin

text \<open>
  mdmcli/src/mdmcli.c: the library a client of CRM is linked with. Its calls send requests to the client
  abstraction, its thread hands the events of CRM to the callbacks of the client, and when CRM goes away
  it tells the client that the modem is down and connects again, with the registration and the hold of
  the modem the client last asked for.

  The lock makes a call atomic. A callback runs without the lock: \<open>callback_calls\<close> are the calls that it, or
  another thread of the client, makes meanwhile. Sockets are an environment indexed by the position in the
  trace, in which every call of the client is recorded with its answer when it returns. A write that fails is taken to deliver nothing. \<open>None\<close> is a failed assertion, an undefined
  behaviour or a call that does not return.
\<close>

section \<open>State\<close>

record mdm_cli_register =
  reg_id :: int
  reg_callback :: bool
  reg_context :: int

datatype cli_call =
    Acquire
  | Release
  | RestartModem "32 word" "mdm_cli_dbg_info option"
  | Shutdown
  | NvmBckup
  | AckColdReset
  | AckShutdown
  | NotifyDbg "mdm_cli_dbg_info option"

datatype cli_io =
    CliConnect int
  | CliSent int crm_mdmcli_wire_msg bool
  | CliClose int
  | CliCallback int int "mdm_cli_dbg_info option"
  | CliCall cli_call int

record crm_mdm_cli_ctx =
  evts :: "mdm_cli_register list"
  bitmap :: "32 word"
  sock_fd :: int
  cname :: "8 word list"
  reconnecting :: bool
  disconnect :: bool
  holds :: bool
  register_id :: int
  cli_io :: "cli_io list"

record cli_env =
  socket_connect :: "nat \<Rightarrow> int"
  write_ok :: "nat \<Rightarrow> bool"
  callback_calls :: "nat \<Rightarrow> cli_call list"
  callback_ret :: "nat \<Rightarrow> int"
  in_sanity :: bool

definition cli_emit :: "cli_io \<Rightarrow> crm_mdm_cli_ctx \<Rightarrow> crm_mdm_cli_ctx" where
  "cli_emit x c = c\<lparr>cli_io := cli_io c @ [x]\<rparr>"

section \<open>The calls\<close>

text \<open>A message written to the socket of the connection; true when the whole of it is written.\<close>

definition wire_send :: "mdm_cli \<Rightarrow> cli_env \<Rightarrow> crm_mdmcli_wire_msg \<Rightarrow> crm_mdm_cli_ctx \<Rightarrow> (bool \<times> crm_mdm_cli_ctx) option" where
  "wire_send k env m c = do {
     bytes \<leftarrow> send_msg k CRM_CLIENT_TO_SERVER m;
     ASSERT (sock_fd c \<ge> 0);
     let ok = write_ok env (length (cli_io c));
     Some (ok, cli_emit (CliSent (sock_fd c) m ok) c)
   }"

abbreviation (input) simple :: "int \<Rightarrow> crm_mdmcli_wire_msg" where
  "simple i \<equiv> \<lparr>msg_id = i, msg = NoBody\<rparr>"

definition mdm_cli_send_simple_msg :: "mdm_cli \<Rightarrow> cli_env \<Rightarrow> int \<Rightarrow> crm_mdm_cli_ctx \<Rightarrow> (int \<times> crm_mdm_cli_ctx) option" where
  "mdm_cli_send_simple_msg k env message c = do {
     crm_mdmcli_wire_req_to_string k message;
     if reconnecting c then Some (-1, c)
     else do {
       (ok, c) \<leftarrow> wire_send k env (simple message) c;
       Some (if ok then 0 else -1, c)
     }
   }"

definition mdm_cli_acquire :: "mdm_cli \<Rightarrow> cli_env \<Rightarrow> crm_mdm_cli_ctx \<Rightarrow> (int \<times> crm_mdm_cli_ctx) option" where
  "mdm_cli_acquire k env c = do {
     crm_mdmcli_wire_req_to_string k (CRM_REQ_ACQUIRE k);
     (ok, c) \<leftarrow> (if reconnecting c then Some (True, c) else wire_send k env (simple (CRM_REQ_ACQUIRE k)) c);
     Some (if ok then (0, c\<lparr>holds := True\<rparr>) else (-1, c))
   }"

definition mdm_cli_release :: "mdm_cli \<Rightarrow> cli_env \<Rightarrow> crm_mdm_cli_ctx \<Rightarrow> (int \<times> crm_mdm_cli_ctx) option" where
  "mdm_cli_release k env c = do {
     crm_mdmcli_wire_req_to_string k (CRM_REQ_RELEASE k);
     (ok, c) \<leftarrow> (if reconnecting c then Some (True, c) else wire_send k env (simple (CRM_REQ_RELEASE k)) c);
     Some (if ok then (0, c\<lparr>holds := False\<rparr>) else (-1, c))
   }"

text \<open>The log of a call names the kind of its debug information.\<close>

definition log_dbg :: "mdm_cli \<Rightarrow> mdm_cli_dbg_info option \<Rightarrow> unit option" where
  "log_dbg k dbg =
     (case dbg of None \<Rightarrow> Some () | Some d \<Rightarrow> do { crm_mdmcli_dbg_type_to_string k (dtype d); Some () })"

definition mdm_cli_restart ::
  "mdm_cli \<Rightarrow> cli_env \<Rightarrow> 32 word \<Rightarrow> mdm_cli_dbg_info option \<Rightarrow> crm_mdm_cli_ctx \<Rightarrow> (int \<times> crm_mdm_cli_ctx) option" where
  "mdm_cli_restart k env rc dbg c = do {
     crm_mdmcli_wire_req_to_string k (CRM_REQ_RESTART k);
     crm_mdmcli_restart_cause_to_string k rc;
     log_dbg k dbg;
     if reconnecting c then Some (-1, c)
     else do {
       (ok, c) \<leftarrow> wire_send k env \<lparr>msg_id = CRM_REQ_RESTART k, msg = Restart rc dbg\<rparr> c;
       Some (if ok then 0 else -1, c)
     }
   }"

definition mdm_cli_shutdown :: "mdm_cli \<Rightarrow> cli_env \<Rightarrow> crm_mdm_cli_ctx \<Rightarrow> (int \<times> crm_mdm_cli_ctx) option" where
  "mdm_cli_shutdown k env c = mdm_cli_send_simple_msg k env (CRM_REQ_SHUTDOWN k) c"

definition mdm_cli_nvm_bckup :: "mdm_cli \<Rightarrow> cli_env \<Rightarrow> crm_mdm_cli_ctx \<Rightarrow> (int \<times> crm_mdm_cli_ctx) option" where
  "mdm_cli_nvm_bckup k env c = mdm_cli_send_simple_msg k env (CRM_REQ_NVM_BACKUP k) c"

definition mdm_cli_ack_cold_reset :: "mdm_cli \<Rightarrow> cli_env \<Rightarrow> crm_mdm_cli_ctx \<Rightarrow> (int \<times> crm_mdm_cli_ctx) option" where
  "mdm_cli_ack_cold_reset k env c = mdm_cli_send_simple_msg k env (CRM_REQ_ACK_COLD_RESET k) c"

definition mdm_cli_ack_shutdown :: "mdm_cli \<Rightarrow> cli_env \<Rightarrow> crm_mdm_cli_ctx \<Rightarrow> (int \<times> crm_mdm_cli_ctx) option" where
  "mdm_cli_ack_shutdown k env c = mdm_cli_send_simple_msg k env (CRM_REQ_ACK_SHUTDOWN k) c"

definition mdm_cli_notify_dbg ::
  "mdm_cli \<Rightarrow> cli_env \<Rightarrow> mdm_cli_dbg_info option \<Rightarrow> crm_mdm_cli_ctx \<Rightarrow> (int \<times> crm_mdm_cli_ctx) option" where
  "mdm_cli_notify_dbg k env dbg c = do {
     crm_mdmcli_wire_req_to_string k (CRM_REQ_NOTIFY_DBG k);
     log_dbg k dbg;
     if reconnecting c then Some (-1, c)
     else do {
       (ok, c) \<leftarrow> wire_send k env \<lparr>msg_id = CRM_REQ_NOTIFY_DBG k, msg = Debug dbg\<rparr> c;
       Some (if ok then 0 else -1, c)
     }
   }"

definition call_op :: "mdm_cli \<Rightarrow> cli_env \<Rightarrow> cli_call \<Rightarrow> crm_mdm_cli_ctx \<Rightarrow> (int \<times> crm_mdm_cli_ctx) option" where
  "call_op k env x c =
     (case x of
        Acquire \<Rightarrow> mdm_cli_acquire k env c
      | Release \<Rightarrow> mdm_cli_release k env c
      | RestartModem rc dbg \<Rightarrow> mdm_cli_restart k env rc dbg c
      | Shutdown \<Rightarrow> mdm_cli_shutdown k env c
      | NvmBckup \<Rightarrow> mdm_cli_nvm_bckup k env c
      | AckColdReset \<Rightarrow> mdm_cli_ack_cold_reset k env c
      | AckShutdown \<Rightarrow> mdm_cli_ack_shutdown k env c
      | NotifyDbg dbg \<Rightarrow> mdm_cli_notify_dbg k env dbg c)"

text \<open>A call of the client and the answer it sees.\<close>

definition cli_call :: "mdm_cli \<Rightarrow> cli_env \<Rightarrow> cli_call \<Rightarrow> crm_mdm_cli_ctx \<Rightarrow> (int \<times> crm_mdm_cli_ctx) option" where
  "cli_call k env x c = do { (r, c) \<leftarrow> call_op k env x c; Some (r, cli_emit (CliCall x r) c) }"

fun cli_calls :: "mdm_cli \<Rightarrow> cli_env \<Rightarrow> cli_call list \<Rightarrow> crm_mdm_cli_ctx \<Rightarrow> crm_mdm_cli_ctx option" where
  "cli_calls k env [] c = Some c"
| "cli_calls k env (x # xs) c = do { (r, c) \<leftarrow> cli_call k env x c; cli_calls k env xs c }"

section \<open>The connection\<close>

definition register_msg :: "crm_mdm_cli_ctx \<Rightarrow> crm_mdmcli_wire_msg" where
  "register_msg c = \<lparr>msg_id = register_id c, msg = RegisterClient (bitmap c) (cname c)\<rparr>"

definition drop_connection :: "crm_mdm_cli_ctx \<Rightarrow> crm_mdm_cli_ctx" where
  "drop_connection c = (cli_emit (CliClose (sock_fd c)) c)\<lparr>sock_fd := -1\<rparr>"

definition reconnect :: "mdm_cli \<Rightarrow> cli_env \<Rightarrow> crm_mdm_cli_ctx \<Rightarrow> crm_mdm_cli_ctx option" where
  "reconnect k env c = do {
     ASSERT (reconnecting c);
     let fd = socket_connect env (length (cli_io c));
     let c = (cli_emit (CliConnect fd) c)\<lparr>sock_fd := fd\<rparr>;
     if fd \<ge> 0
     then do {
       (ok, c) \<leftarrow> wire_send k env (register_msg c) c;
       (ok, c) \<leftarrow> (if ok \<and> holds c then wire_send k env (simple (CRM_REQ_ACQUIRE k)) c else Some (ok, c));
       Some (if ok then c\<lparr>reconnecting := False\<rparr> else drop_connection c)
     }
     else Some c
   }"

text \<open>A callback, with what it answers.\<close>

definition run_callback ::
  "mdm_cli \<Rightarrow> cli_env \<Rightarrow> mdm_cli_register \<Rightarrow> mdm_cli_dbg_info option \<Rightarrow> crm_mdm_cli_ctx \<Rightarrow> (int \<times> crm_mdm_cli_ctx) option" where
  "run_callback k env r dbg c = do {
     let n = length (cli_io c);
     c \<leftarrow> cli_calls k env (callback_calls env n) (cli_emit (CliCallback (reg_id r) (reg_context r) dbg) c);
     Some (callback_ret env n, c)
   }"

text \<open>The event a client is told when CRM is gone, if it registered for it.\<close>

definition fake_event :: "mdm_cli \<Rightarrow> cli_env \<Rightarrow> int \<Rightarrow> crm_mdm_cli_ctx \<Rightarrow> crm_mdm_cli_ctx option" where
  "fake_event k env i c =
     (case find (\<lambda>r. reg_id r = i) (evts c) of
        None \<Rightarrow> Some c
      | Some r \<Rightarrow> do { (ret, c) \<leftarrow> run_callback k env r None c; Some c })"

definition handle_error :: "mdm_cli \<Rightarrow> cli_env \<Rightarrow> crm_mdm_cli_ctx \<Rightarrow> crm_mdm_cli_ctx option" where
  "handle_error k env c = do {
     let c = (drop_connection c)\<lparr>reconnecting := True\<rparr>;
     c \<leftarrow> fake_event k env (MDM_DOWN k) c;
     c \<leftarrow> fake_event k env (MDM_COLD_RESET k) c;
     if \<not> in_sanity env \<or> register_id c = CRM_REQ_REGISTER_DBG k then reconnect k env c else Some c
   }"

section \<open>The thread\<close>

definition cli_timeout :: "mdm_cli \<Rightarrow> cli_env \<Rightarrow> crm_mdm_cli_ctx \<Rightarrow> int" where
  "cli_timeout k env c =
     (if reconnecting c then if in_sanity env \<and> register_id c = CRM_REQ_REGISTER k then 10000 else 1000 else -1)"

text \<open>The log of a message reads its debug information through the pointer.\<close>

definition log_event :: "mdm_cli \<Rightarrow> crm_mdmcli_wire_msg \<Rightarrow> unit option" where
  "log_event k m =
     (if msg_id m = MDM_DBG_INFO k
      then (case msg m of
              Debug (Some d) \<Rightarrow> do { crm_mdmcli_wire_req_to_string k (msg_id m); crm_mdmcli_dbg_type_to_string k (dtype d); Some () }
            | _ \<Rightarrow> None)
      else do { crm_mdmcli_wire_req_to_string k (msg_id m); Some () })"

definition event_data :: "mdm_cli \<Rightarrow> crm_mdmcli_wire_msg \<Rightarrow> mdm_cli_dbg_info option" where
  "event_data k m = (if msg_id m = MDM_DBG_INFO k then (case msg m of Debug dbg \<Rightarrow> dbg | _ \<Rightarrow> None) else None)"

definition handle_event :: "mdm_cli \<Rightarrow> cli_env \<Rightarrow> crm_mdmcli_wire_msg \<Rightarrow> crm_mdm_cli_ctx \<Rightarrow> crm_mdm_cli_ctx option" where
  "handle_event k env m c = do {
     log_event k m;
     r \<leftarrow> find (\<lambda>r. reg_id r = msg_id m) (evts c);
     (ret, c) \<leftarrow> run_callback k env r (event_data k m) c;
     if msg_id m = MDM_COLD_RESET k \<and> ret = 0
     then map_option snd (mdm_cli_send_simple_msg k env (CRM_REQ_ACK_COLD_RESET k) c)
     else if msg_id m = MDM_SHUTDOWN k \<and> ret = 0
     then map_option snd (mdm_cli_send_simple_msg k env (CRM_REQ_ACK_SHUTDOWN k) c)
     else Some c
   }"

text \<open>
  What \<open>poll\<close> reports: a time-out, an error of \<open>poll\<close>, the pipe of the thread, or the socket with the
  message the wire plugin reads from it. The socket is not polled while there is no connection, and
  there is no time-out while there is one.
\<close>

datatype cli_input =
    CliTimeout
  | CliPollError
  | CliIpcError
  | CliIpc
  | CliSockError
  | CliSock "crm_mdmcli_wire_msg option"

text \<open>The answer of an iteration: whether the thread goes on.\<close>

definition mdmcli_iter :: "mdm_cli \<Rightarrow> cli_env \<Rightarrow> cli_input \<Rightarrow> crm_mdm_cli_ctx \<Rightarrow> (bool \<times> crm_mdm_cli_ctx) option" where
  "mdmcli_iter k env inp c =
     (case inp of
        CliPollError \<Rightarrow> None
      | CliTimeout \<Rightarrow> if cli_timeout k env c < 0 then Some (True, c) else map_option (Pair True) (reconnect k env c)
      | CliIpcError \<Rightarrow> do { ASSERT (disconnect c); Some (False, c) }
      | CliIpc \<Rightarrow> Some (False, c)
      | CliSockError \<Rightarrow> if reconnecting c then Some (True, c) else map_option (Pair True) (handle_error k env c)
      | CliSock m \<Rightarrow>
          if reconnecting c then Some (True, c)
          else (case m of
                  None \<Rightarrow> map_option (Pair True) (handle_error k env c)
                | Some m \<Rightarrow> map_option (Pair True) (handle_event k env m c)))"

fun mdmcli_event_loop :: "mdm_cli \<Rightarrow> cli_env \<Rightarrow> cli_input list \<Rightarrow> crm_mdm_cli_ctx \<Rightarrow> (bool \<times> crm_mdm_cli_ctx) option" where
  "mdmcli_event_loop k env [] c = Some (True, c)"
| "mdmcli_event_loop k env (i # is) c = do {
     (on, c) \<leftarrow> mdmcli_iter k env i c;
     if on then mdmcli_event_loop k env is c else Some (False, c)
   }"

section \<open>Connecting\<close>

text \<open>The events of the registration as a bitmap; shifting an \<open>int\<close> by more than 30 is undefined.\<close>

fun events_bitmap_of :: "mdm_cli_register list \<Rightarrow> 32 word \<Rightarrow> 32 word option" where
  "events_bitmap_of [] bm = Some bm"
| "events_bitmap_of (r # rs) bm = do {
     ASSERT (0 \<le> reg_id r \<and> reg_id r < 31);
     let event_bit = push_bit (nat (reg_id r)) 1;
     ASSERT (and event_bit bm = 0);
     ASSERT (reg_callback r);
     events_bitmap_of rs (or bm event_bit)
   }"

text \<open>
  The two halves of \<open>crm_connect\<close>: the thread of the library runs between them. \<open>Some None\<close> is the null
  pointer. When the registration cannot be sent, \<open>dispose\<close> joins the thread, which nobody told to stop.
\<close>

definition crm_connect_open ::
  "mdm_cli \<Rightarrow> cli_env \<Rightarrow> 8 word list \<Rightarrow> mdm_cli_register list \<Rightarrow> int \<Rightarrow> crm_mdm_cli_ctx option option" where
  "crm_connect_open k env name es request = do {
     ASSERT (length name < MDM_CLI_NAME_LEN k);
     ASSERT (int (length es) \<le> MDM_NUM_EVENTS k);
     ASSERT (request = CRM_REQ_REGISTER k \<or> request = CRM_REQ_REGISTER_DBG k);
     bm \<leftarrow> events_bitmap_of es 0;
     let fd = socket_connect env 0;
     Some (if fd < 0 then None
       else Some \<lparr>evts = es, bitmap = bm, sock_fd = fd, cname = name, reconnecting = False, disconnect = False,
              holds = False, register_id = request, cli_io = [CliConnect fd]\<rparr>)
   }"

definition crm_connect_register :: "mdm_cli \<Rightarrow> cli_env \<Rightarrow> crm_mdm_cli_ctx \<Rightarrow> crm_mdm_cli_ctx option" where
  "crm_connect_register k env c = do {
     crm_mdmcli_wire_req_to_string k (register_id c);
     (ok, c) \<leftarrow> wire_send k env (register_msg c) c;
     if ok then Some c else None
   }"

definition crm_connect ::
  "mdm_cli \<Rightarrow> cli_env \<Rightarrow> 8 word list \<Rightarrow> mdm_cli_register list \<Rightarrow> int \<Rightarrow> crm_mdm_cli_ctx option option" where
  "crm_connect k env name es request = do {
     r \<leftarrow> crm_connect_open k env name es request;
     (case r of None \<Rightarrow> Some None | Some c \<Rightarrow> map_option Some (crm_connect_register k env c))
   }"

definition mdm_cli_connect :: "mdm_cli \<Rightarrow> cli_env \<Rightarrow> 8 word list \<Rightarrow> mdm_cli_register list \<Rightarrow> crm_mdm_cli_ctx option option" where
  "mdm_cli_connect k env name es = crm_connect k env name es (CRM_REQ_REGISTER k)"

definition mdm_cli_connect_dbg :: "mdm_cli \<Rightarrow> cli_env \<Rightarrow> 8 word list \<Rightarrow> mdm_cli_register list \<Rightarrow> crm_mdm_cli_ctx option option" where
  "mdm_cli_connect_dbg k env name es = crm_connect k env name es (CRM_REQ_REGISTER_DBG k)"

text \<open>
  \<open>mdm_cli_disconnect\<close> posts the stop message; \<open>is\<close> is what the thread still handles before it reads it.
  What is closed last is the socket.
\<close>

definition mdm_cli_disconnect :: "mdm_cli \<Rightarrow> cli_env \<Rightarrow> cli_input list \<Rightarrow> crm_mdm_cli_ctx \<Rightarrow> cli_io list option" where
  "mdm_cli_disconnect k env is c = do {
     (on, c) \<leftarrow> mdmcli_event_loop k env (is @ [CliIpc]) (c\<lparr>disconnect := True\<rparr>);
     Some (cli_io c @ (if sock_fd c \<ge> 0 then [CliClose (sock_fd c)] else []))
   }"

end
