(* ===== verification/Crm_Cla.thy ===== *)
theory Crm_Cla
  imports Crm_Fsm Crm_Time Crm_Watchdog Crm_Strings
begin

text \<open>
  plugins/client_abstraction/src/client_abstraction.c: the module the clients of CRM connect to. It
  counts the clients that hold the modem, asks Control to start, stop or restart it, tells the
  clients what the modem does and collects their acknowledgements before a shutdown or a cold
  reset. One thread handles the messages of Control and of at most 16 clients.

  The clients are an array, as in the code, with the descriptors of their sockets beside it;
  \<open>to_clean\<close> is the bit set of the clients to forget at the end of an iteration. \<open>out\<close> is the
  trace of what is sent: bytes on a socket (as the wire plugin encodes them), requests to Control,
  sockets closed. \<open>cla_param\<close> holds the clock and, for the position of a message in the trace,
  whether its sending fails. The state of the machine is kept beside the context.
\<close>

section \<open>States and events\<close>

abbreviation (input) ST_INITIAL :: int where "ST_INITIAL \<equiv> 0"
abbreviation (input) ST_OFF :: int where "ST_OFF \<equiv> 1"
abbreviation (input) ST_STARTING :: int where "ST_STARTING \<equiv> 2"
abbreviation (input) ST_UP :: int where "ST_UP \<equiv> 3"
abbreviation (input) ST_ACK_WAITING_COLD :: int where "ST_ACK_WAITING_COLD \<equiv> 4"
abbreviation (input) ST_ACK_WAITING_SHTDWN :: int where "ST_ACK_WAITING_SHTDWN \<equiv> 5"
abbreviation (input) ST_STOPPING :: int where "ST_STOPPING \<equiv> 6"
abbreviation (input) ST_NUM :: int where "ST_NUM \<equiv> 7"

abbreviation (input) EV_NONE :: int where "EV_NONE \<equiv> -1"
abbreviation (input) EV_SUCCESS :: int where "EV_SUCCESS \<equiv> 0"
abbreviation (input) EV_FAILURE :: int where "EV_FAILURE \<equiv> 1"
abbreviation (input) EV_MDM_OFF :: int where "EV_MDM_OFF \<equiv> 2"
abbreviation (input) EV_MDM_UNRESP :: int where "EV_MDM_UNRESP \<equiv> 3"
abbreviation (input) EV_MDM_BUSY :: int where "EV_MDM_BUSY \<equiv> 4"
abbreviation (input) EV_MDM_READY :: int where "EV_MDM_READY \<equiv> 5"
abbreviation (input) EV_CLI_ACQUIRE :: int where "EV_CLI_ACQUIRE \<equiv> 6"
abbreviation (input) EV_CLI_RELEASE :: int where "EV_CLI_RELEASE \<equiv> 7"
abbreviation (input) EV_CLI_RESTART :: int where "EV_CLI_RESTART \<equiv> 8"
abbreviation (input) EV_CLI_ACKED :: int where "EV_CLI_ACKED \<equiv> 9"
abbreviation (input) EV_NUM :: int where "EV_NUM \<equiv> 10"

abbreviation (input) MAX_CLIENTS :: nat where "MAX_CLIENTS \<equiv> 16"
abbreviation (input) WAKELOCK_CLA :: int where "WAKELOCK_CLA \<equiv> 2"
abbreviation (input) TIMEOUT_ACK_IDX :: nat where "TIMEOUT_ACK_IDX \<equiv> 1"
abbreviation (input) TIMEOUT_BOOT_IDX :: nat where "TIMEOUT_BOOT_IDX \<equiv> 2"

abbreviation (input) CLI_ABS_MSG_NOTIFY_OPERATION_RESULT :: int where "CLI_ABS_MSG_NOTIFY_OPERATION_RESULT \<equiv> 1"
abbreviation (input) CLI_ABS_MSG_NOTIFY_CLIENT :: int where "CLI_ABS_MSG_NOTIFY_CLIENT \<equiv> 2"
abbreviation (input) CLI_ABS_MSG_NOTIFY_MODEM_STATE :: int where "CLI_ABS_MSG_NOTIFY_MODEM_STATE \<equiv> 3"

section \<open>State\<close>

record crm_client =
  registered :: bool
  cl_name :: "8 word list"
  cl_events :: "32 word"
  acquired :: bool
  waiting_cold_reset_ack :: bool
  waiting_shutdown_ack :: bool

datatype cla_out =
    CliSend int "8 word list"
  | CtrlStart
  | CtrlStop
  | CtrlRestart int "mdm_cli_dbg_info option"
  | Close int

record crm_cli_abs =
  wakelock :: crm_wakelock
  sanity_test_mode :: bool
  num_clients :: nat
  clients :: "crm_client list"
  cl_fd :: "int list"
  to_clean :: "32 word"
  modem_state :: int
  real_modem_state :: int
  fake_modem_state :: bool
  request_in_progress :: bool
  reject_requests :: bool
  num_acquired :: int
  num_waiting_cold_reset_ack :: int
  num_waiting_shutdown_ack :: int
  restart_type :: int
  dbg_info :: "mdm_cli_dbg_info"
  dbg_info_present :: bool
  timer_ack_end :: timespec
  timer_boot_end :: timespec
  timer_boot_armed :: bool
  out :: "cla_out list"

record cla_param =
  now :: timespec
  send_fails :: "nat \<Rightarrow> bool"
  cli :: mdm_cli

definition emit :: "crm_cli_abs \<Rightarrow> cla_out \<Rightarrow> crm_cli_abs" where
  "emit c o' = c\<lparr>out := out c @ [o']\<rparr>"

definition zero_client :: crm_client where
  "zero_client = \<lparr>registered = False, cl_name = [], cl_events = 0, acquired = False,
     waiting_cold_reset_ack = False, waiting_shutdown_ack = False\<rparr>"

section \<open>Scalars\<close>

definition CLI_ABS_GEN_SCALAR :: "int \<Rightarrow> int \<Rightarrow> 64 word" where
  "CLI_ABS_GEN_SCALAR t i = or (push_bit 56 (word_of_int t)) (word_of_int i)"

definition CLI_ABS_GET_MSG_TYPE :: "64 word \<Rightarrow> int" where
  "CLI_ABS_GET_MSG_TYPE s = uint (and (signed_drop_bit 56 s) 0xFF)"

text \<open>The payload is stored in an \<open>int\<close>.\<close>

definition CLI_ABS_GET_MSG_PAYLOAD :: "64 word \<Rightarrow> int" where
  "CLI_ABS_GET_MSG_PAYLOAD s = sint (ucast (and s 0xFFFFFFFFFFFFFF) :: 32 word)"

text \<open>\<open>(1u << i) & w\<close>, undefined when \<open>i\<close> is not a bit number.\<close>

definition bit_at :: "32 word \<Rightarrow> int \<Rightarrow> bool option" where
  "bit_at w i = (if 0 \<le> i \<and> i < 32 then Some (bit w (nat i)) else None)"

section \<open>Names\<close>

definition map_modem_state_to_cli_event :: "mdm_cli \<Rightarrow> int \<Rightarrow> int option" where
  "map_modem_state_to_cli_event k mdm_state =
     (if mdm_state = MDM_STATE_OFF then Some (MDM_DOWN k)
      else if mdm_state = MDM_STATE_UNRESP then Some (MDM_OOS k)
      else if mdm_state = MDM_STATE_PLATFORM_REBOOT then Some (MDM_OOS k)
      else if mdm_state = MDM_STATE_BUSY then Some (MDM_DOWN k)
      else if mdm_state = MDM_STATE_READY then Some (MDM_UP k)
      else if mdm_state = MDM_STATE_UNKNOWN then Some (MDM_DOWN k)
      else None)"

definition get_state_txt :: "int \<Rightarrow> string option" where
  "get_state_txt state =
     (if state = ST_INITIAL then Some ''INITIAL''
      else if state = ST_OFF then Some ''OFF''
      else if state = ST_STARTING then Some ''STARTING''
      else if state = ST_UP then Some ''UP''
      else if state = ST_ACK_WAITING_COLD then Some ''WAITING C ACK''
      else if state = ST_ACK_WAITING_SHTDWN then Some ''WAITING S ACK''
      else if state = ST_STOPPING then Some ''STOPPING''
      else None)"

definition get_event_txt :: "int \<Rightarrow> string option" where
  "get_event_txt event =
     (if event = EV_SUCCESS then Some ''CTRL: success''
      else if event = EV_FAILURE then Some ''CTRL: failure''
      else if event = EV_MDM_OFF then Some ''CTRL: mdm off''
      else if event = EV_MDM_UNRESP then Some ''CTRL: mdm unresp''
      else if event = EV_MDM_BUSY then Some ''CTRL: mdm busy''
      else if event = EV_MDM_READY then Some ''CTRL: mdm ready''
      else if event = EV_CLI_ACQUIRE then Some ''CLI : acquire''
      else if event = EV_CLI_RELEASE then Some ''CLI : release''
      else if event = EV_CLI_RESTART then Some ''CLI : restart''
      else if event = EV_CLI_ACKED then Some ''CLI : acked''
      else None)"

definition get_restart_type :: "mdm_cli \<Rightarrow> 32 word \<Rightarrow> int option" where
  "get_restart_type k rc =
     (if rc = RESTART_MDM_ERR k then Some CTRL_MODEM_RESTART
      else if rc = RESTART_APPLY_UPDATE k then Some CTRL_MODEM_UPDATE
      else None)"

section \<open>Notifying the clients\<close>

definition drop_acquired :: "crm_client \<Rightarrow> crm_cli_abs \<Rightarrow> crm_cli_abs option" where
  "drop_acquired cl c =
     (if acquired cl
      then do {
        let c = c\<lparr>num_acquired := num_acquired c - 1\<rparr>;
        ASSERT (num_acquired c \<ge> 0);
        Some c
      }
      else Some c)"

definition drop_cold_reset_ack :: "crm_client \<Rightarrow> crm_cli_abs \<Rightarrow> crm_cli_abs option" where
  "drop_cold_reset_ack cl c =
     (if waiting_cold_reset_ack cl
      then do {
        let c = c\<lparr>num_waiting_cold_reset_ack := num_waiting_cold_reset_ack c - 1\<rparr>;
        ASSERT (num_waiting_cold_reset_ack c \<ge> 0);
        Some c
      }
      else Some c)"

definition drop_shutdown_ack :: "crm_client \<Rightarrow> crm_cli_abs \<Rightarrow> crm_cli_abs option" where
  "drop_shutdown_ack cl c =
     (if waiting_shutdown_ack cl
      then do {
        let c = c\<lparr>num_waiting_shutdown_ack := num_waiting_shutdown_ack c - 1\<rparr>;
        ASSERT (num_waiting_shutdown_ack c \<ge> 0);
        Some c
      }
      else Some c)"

definition handle_client_unregister :: "crm_cli_abs \<Rightarrow> nat \<Rightarrow> crm_cli_abs option" where
  "handle_client_unregister c idx = do {
     b \<leftarrow> bit_at (to_clean c) (int idx);
     ASSERT (\<not> b);
     cl \<leftarrow> array_get (clients c) (int idx);
     c \<leftarrow> (if registered cl
          then do {
            c \<leftarrow> drop_acquired cl c;
            c \<leftarrow> drop_cold_reset_ack cl c;
            c \<leftarrow> drop_shutdown_ack cl c;
            Some (c\<lparr>clients := (clients c)[idx := cl\<lparr>acquired := False, waiting_cold_reset_ack := False,
                waiting_shutdown_ack := False\<rparr>]\<rparr>)
          }
          else Some c);
     Some (c\<lparr>to_clean := or (to_clean c) (push_bit idx 1)\<rparr>)
   }"

text \<open>The bytes sent are the serialised message given, or those of a message without a body.\<close>

definition event_bytes :: "mdm_cli \<Rightarrow> int \<Rightarrow> 8 word list option \<Rightarrow> 8 word list option" where
  "event_bytes k event ser =
     (case ser of
        Some b \<Rightarrow> send_serialized_msg k b
      | None \<Rightarrow> send_msg k CRM_SERVER_TO_CLIENT \<lparr>msg_id = event, msg = NoBody\<rparr>)"

definition mark_waiting :: "cla_param \<Rightarrow> int \<Rightarrow> nat \<Rightarrow> crm_client \<Rightarrow> crm_cli_abs \<Rightarrow> crm_cli_abs option" where
  "mark_waiting p event idx cl c =
     (if event = MDM_COLD_RESET (cli p)
      then do {
        ASSERT (num_waiting_shutdown_ack c = 0);
        Some (c\<lparr>clients := (clients c)[idx := cl\<lparr>waiting_cold_reset_ack := True\<rparr>],
          num_waiting_cold_reset_ack := num_waiting_cold_reset_ack c + 1\<rparr>)
      }
      else if event = MDM_SHUTDOWN (cli p)
      then do {
        ASSERT (num_waiting_cold_reset_ack c = 0);
        Some (c\<lparr>clients := (clients c)[idx := cl\<lparr>waiting_shutdown_ack := True\<rparr>],
          num_waiting_shutdown_ack := num_waiting_shutdown_ack c + 1\<rparr>)
      }
      else Some c)"

definition send_event ::
  "cla_param \<Rightarrow> nat \<Rightarrow> int \<Rightarrow> 8 word list option \<Rightarrow> crm_cli_abs \<Rightarrow> crm_cli_abs option" where
  "send_event p idx event ser c = do {
     bytes \<leftarrow> event_bytes (cli p) event ser;
     fd \<leftarrow> array_get (cl_fd c) (int idx);
     let failure = send_fails p (length (out c));
     let c = emit c (CliSend fd bytes);
     if failure then handle_client_unregister c idx else Some c
   }"

definition notify_cli_event_single ::
  "cla_param \<Rightarrow> nat \<Rightarrow> int \<Rightarrow> 8 word list option \<Rightarrow> crm_cli_abs \<Rightarrow> crm_cli_abs option" where
  "notify_cli_event_single p idx event ser c = do {
     b \<leftarrow> bit_at (to_clean c) (int idx);
     ASSERT (\<not> b);
     cl \<leftarrow> array_get (clients c) (int idx);
     wanted \<leftarrow> bit_at (cl_events cl) event;
     if wanted
     then do {
       crm_mdmcli_wire_req_to_string (cli p) event;
       c \<leftarrow> mark_waiting p event idx cl c;
       send_event p idx event ser c
     }
     else Some c
   }"

fun for_loop :: "('i \<Rightarrow> 's \<Rightarrow> 's option) \<Rightarrow> 'i list \<Rightarrow> 's \<Rightarrow> 's option" where
  "for_loop body [] s = Some s"
| "for_loop body (i # is) s = do { s \<leftarrow> body i s; for_loop body is s }"

definition notify_cli_event_all ::
  "cla_param \<Rightarrow> int \<Rightarrow> 8 word list option \<Rightarrow> crm_cli_abs \<Rightarrow> crm_cli_abs option" where
  "notify_cli_event_all p event ser c = do {
     crm_mdmcli_wire_req_to_string (cli p) event;
     for_loop (\<lambda>idx c. do {
         b \<leftarrow> bit_at (to_clean c) (int idx);
         if \<not> b then notify_cli_event_single p idx event ser c else Some c
       }) [0..<num_clients c] c
   }"

text \<open>A message without a body, serialised once for all the clients.\<close>

definition notify_all_simple :: "cla_param \<Rightarrow> int \<Rightarrow> crm_cli_abs \<Rightarrow> crm_cli_abs option" where
  "notify_all_simple p event c = do {
     ser \<leftarrow> serialize_msg (cli p) CRM_SERVER_TO_CLIENT \<lparr>msg_id = event, msg = NoBody\<rparr>;
     notify_cli_event_all p event (Some ser) c
   }"

section \<open>Operations of the machine\<close>

type_synonym cla_op = "crm_cli_abs \<Rightarrow> cla_param \<Rightarrow> (int \<times> crm_cli_abs) option"

definition failsafe :: cla_op where
  "failsafe c p = None"

definition assert :: cla_op where
  "assert c p = None"

definition start_request :: "crm_cli_abs \<Rightarrow> cla_out \<Rightarrow> crm_cli_abs option" where
  "start_request c r = do {
     ASSERT (request_in_progress c = False);
     Some (emit (c\<lparr>request_in_progress := True\<rparr>) r)
   }"

definition client_acquire :: cla_op where
  "client_acquire c p = do {
     c \<leftarrow> start_request c CtrlStart;
     Some (ST_STARTING, c)
   }"

definition start_ack_timer :: "crm_cli_abs \<Rightarrow> cla_param \<Rightarrow> crm_cli_abs option" where
  "start_ack_timer c p = do {
     let c = c\<lparr>timer_ack_end := crm_time_add_ms (now p) 1000\<rparr>;
     held \<leftarrow> is_held_by_module (wakelock c) WAKELOCK_CLA;
     if \<not> held
     then do { w \<leftarrow> acquire (wakelock c) WAKELOCK_CLA; Some (c\<lparr>wakelock := w\<rparr>) }
     else Some c
   }"

text \<open>The timeout of \<open>poll\<close> and the set of the timers that may have expired after it.\<close>

definition get_timeout :: "timespec \<Rightarrow> crm_cli_abs \<Rightarrow> int \<times> nat" where
  "get_timeout t c =
     (let (tmo, idx) =
        (if num_waiting_cold_reset_ack c \<noteq> 0 \<or> num_waiting_shutdown_ack c \<noteq> 0
         then (crm_time_get_remain_ms t (timer_ack_end c), TIMEOUT_ACK_IDX) else (-1, 0))
      in if timer_boot_armed c
         then (let tmp = crm_time_get_remain_ms t (timer_boot_end c)
               in if tmo = tmp then (tmo, or idx TIMEOUT_BOOT_IDX)
                  else if tmo < 0 \<or> (tmo > 0 \<and> tmp < tmo) then (tmp, TIMEOUT_BOOT_IDX)
                  else (tmo, idx))
         else (tmo, idx))"

definition start_shutdown_procedure :: "crm_cli_abs \<Rightarrow> cla_param \<Rightarrow> (int \<times> crm_cli_abs) option" where
  "start_shutdown_procedure c p = do {
     c \<leftarrow> notify_all_simple p (MDM_SHUTDOWN (cli p)) c;
     c \<leftarrow> (if \<not> fake_modem_state c then notify_all_simple p (MDM_DOWN (cli p)) c else Some c);
     let c = c\<lparr>fake_modem_state := True, modem_state := MDM_STATE_OFF\<rparr>;
     if num_waiting_shutdown_ack c = 0
     then do { c \<leftarrow> start_request c CtrlStop; Some (ST_STOPPING, c) }
     else do { c \<leftarrow> start_ack_timer c p; Some (ST_ACK_WAITING_SHTDWN, c) }
   }"

definition restart_request :: "crm_cli_abs \<Rightarrow> cla_out" where
  "restart_request c = CtrlRestart (restart_type c) (if dbg_info_present c then Some (dbg_info c) else None)"

definition start_restart_procedure :: "crm_cli_abs \<Rightarrow> cla_param \<Rightarrow> (int \<times> crm_cli_abs) option" where
  "start_restart_procedure c p = do {
     c \<leftarrow> (if modem_state c \<noteq> MDM_STATE_BUSY
          then do {
            c \<leftarrow> notify_all_simple p (MDM_DOWN (cli p)) c;
            ASSERT (\<not> fake_modem_state c);
            Some (c\<lparr>modem_state := MDM_STATE_BUSY, fake_modem_state := True\<rparr>)
          }
          else Some c);
     c \<leftarrow> notify_all_simple p (MDM_COLD_RESET (cli p)) c;
     if num_waiting_cold_reset_ack c = 0
     then do { c \<leftarrow> start_request c (restart_request c); Some (ST_STARTING, c) }
     else do { c \<leftarrow> start_ack_timer c p; Some (ST_ACK_WAITING_COLD, c) }
   }"

definition mdm_busy :: cla_op where
  "mdm_busy c p = start_restart_procedure (c\<lparr>restart_type := CTRL_MODEM_RESTART\<rparr>) p"

definition check_pending_up :: cla_op where
  "check_pending_up c p =
     (if request_in_progress c \<or> modem_state c \<noteq> MDM_STATE_READY then Some (-1, c)
      else if num_acquired c = 0 then start_shutdown_procedure c p
      else if restart_type c \<noteq> 0 then start_restart_procedure c p
      else Some (ST_UP, c))"

definition check_pending_down :: cla_op where
  "check_pending_down c p =
     (if request_in_progress c \<or> modem_state c \<noteq> MDM_STATE_OFF then Some (-1, c)
      else if num_acquired c > 0 then Some (ST_STARTING, emit (c\<lparr>request_in_progress := True\<rparr>) CtrlStart)
      else Some (ST_OFF, c))"

definition client_release :: cla_op where
  "client_release c p = start_shutdown_procedure c p"

definition client_restart :: cla_op where
  "client_restart c p = start_restart_procedure c p"

definition client_acked_cold :: cla_op where
  "client_acked_cold c p =
     (if modem_state c = MDM_STATE_UNRESP then Some (ST_OFF, c)
      else if num_acquired c = 0 then start_shutdown_procedure c p
      else if restart_type c \<noteq> 0
      then do { c \<leftarrow> start_request c (restart_request c); Some (ST_STARTING, c) }
      else do {
        ASSERT (request_in_progress c = False);
        ASSERT (real_modem_state c = MDM_STATE_BUSY);
        Some (ST_STARTING, emit (c\<lparr>request_in_progress := True\<rparr>) (CtrlRestart CTRL_MODEM_RESTART None))
      })"

definition client_acked_shtdwn :: cla_op where
  "client_acked_shtdwn c p =
     (if num_acquired c = 0 then do { c \<leftarrow> start_request c CtrlStop; Some (ST_STOPPING, c) }
      else if restart_type c \<noteq> 0 then start_restart_procedure c p
      else if real_modem_state c = MDM_STATE_READY
      then do { c \<leftarrow> start_request c CtrlStop; Some (ST_STOPPING, c) }
      else do {
        let c = c\<lparr>fake_modem_state := False, modem_state := real_modem_state c\<rparr>;
        ASSERT (real_modem_state c = MDM_STATE_BUSY);
        c \<leftarrow> start_request c (CtrlRestart CTRL_MODEM_RESTART None);
        Some (ST_STARTING, c)
      })"

text \<open>The debug information posted before the abort is never read.\<close>

definition check_failure :: cla_op where
  "check_failure c p = do { ASSERT (modem_state c = MDM_STATE_UNRESP); Some (-1, c) }"

definition state_trans :: "int \<Rightarrow> int \<Rightarrow> int \<Rightarrow> crm_cli_abs \<Rightarrow> cla_param \<Rightarrow> crm_cli_abs option" where
  "state_trans prev_state new_state evt c p = do { ASSERT (new_state \<noteq> ST_INITIAL); Some c }"

section \<open>The table\<close>

abbreviation (input) cell :: "cla_op \<Rightarrow> (crm_cli_abs, cla_param) crm_fsm_ops" where
  "cell f \<equiv> \<lparr>force_new_state = -1, operation = Some f\<rparr>"

abbreviation (input) no_op :: "(crm_cli_abs, cla_param) crm_fsm_ops" where
  "no_op \<equiv> \<lparr>force_new_state = -1, operation = None\<rparr>"

abbreviation (input) to_off :: "(crm_cli_abs, cla_param) crm_fsm_ops" where
  "to_off \<equiv> \<lparr>force_new_state = ST_OFF, operation = None\<rparr>"

definition cla_rows :: "(crm_cli_abs, cla_param) crm_fsm_ops list list" where
  "cla_rows =
    [[cell assert, cell assert, cell check_pending_up, cell assert, cell assert, cell assert, cell check_pending_down],
     [cell assert, cell check_failure, cell assert, cell assert, cell assert, cell assert, to_off],
     [cell check_pending_down, cell assert, cell assert, cell assert, cell assert, cell assert, cell check_pending_down],
     [cell assert, to_off, to_off, cell assert, no_op, cell assert, no_op],
     [cell assert, cell assert, no_op, cell mdm_busy, no_op, no_op, no_op],
     [cell check_pending_up, cell assert, cell check_pending_up, cell assert, cell assert, cell assert, cell assert],
     [no_op, cell client_acquire, no_op, cell assert, no_op, no_op, no_op],
     [no_op, cell check_failure, no_op, cell client_release, no_op, no_op, no_op],
     [no_op, cell assert, no_op, cell client_restart, cell assert, no_op, cell assert],
     [no_op, cell assert, cell assert, cell assert, cell client_acked_cold, cell client_acked_shtdwn, cell assert]]"

definition cla_fsm :: "(crm_cli_abs, cla_param) crm_fsm_ctx" where
  "cla_fsm = \<lparr>fsm = concat cla_rows, num_events = EV_NUM, num_states = ST_NUM,
     pre_op = None, state_trans = Some state_trans, failsafe = failsafe,
     get_state_txt = get_state_txt, get_event_txt = get_event_txt\<rparr>"

section \<open>Messages of Control\<close>

text \<open>
  \<open>notify_client\<close>, \<open>notify_modem_state\<close> and \<open>notify_operation_result\<close> run in the thread of
  Control: they build the message posted to the pipe of the module, its scalar and its data.
\<close>

type_synonym cla_msg = "64 word \<times> 8 word list option"

definition notify_client :: "mdm_cli \<Rightarrow> int \<Rightarrow> mdm_cli_dbg_info option \<Rightarrow> cla_msg option" where
  "notify_client k evt_id dbg = do {
     crm_mdmcli_wire_req_to_string k evt_id;
     ASSERT (evt_id \<ge> MDM_DBG_INFO k \<or> evt_id = MDM_ON k);
     ser \<leftarrow> serialize_msg k CRM_SERVER_TO_CLIENT \<lparr>msg_id = evt_id, msg = Debug dbg\<rparr>;
     Some (CLI_ABS_GEN_SCALAR CLI_ABS_MSG_NOTIFY_CLIENT evt_id, Some ser)
   }"

definition notify_modem_state :: "int \<Rightarrow> cla_msg option" where
  "notify_modem_state mdm_state = do {
     crm_cli_abs_mdm_state_to_string mdm_state;
     Some (CLI_ABS_GEN_SCALAR CLI_ABS_MSG_NOTIFY_MODEM_STATE mdm_state, None)
   }"

definition notify_operation_result :: "int \<Rightarrow> cla_msg" where
  "notify_operation_result result =
     (CLI_ABS_GEN_SCALAR CLI_ABS_MSG_NOTIFY_OPERATION_RESULT (if result = 0 then 0 else 1), None)"

text \<open>
  The three kinds of messages. \<open>record_modem_state\<close> answers whether a state is filtered because the
  module fakes another one. The assertions of the code on a faked state compare the state with
  itself and always hold; they are kept as they are written.
\<close>

definition handle_operation_result :: "cla_param \<Rightarrow> int \<Rightarrow> int \<times> crm_cli_abs \<Rightarrow> (int \<times> crm_cli_abs) option" where
  "handle_operation_result p payload s =
     (case s of (st, c) \<Rightarrow>
       notify_event cla_fsm st (if payload \<noteq> 0 then EV_FAILURE else EV_SUCCESS) (c\<lparr>request_in_progress := False\<rparr>) p)"

definition record_modem_state :: "int \<Rightarrow> bool \<Rightarrow> crm_cli_abs \<Rightarrow> (bool \<times> crm_cli_abs) option" where
  "record_modem_state new_state send_cli_msg c = do {
     let c = c\<lparr>real_modem_state := new_state\<rparr>;
     let c = (if new_state = MDM_STATE_READY \<or> new_state = MDM_STATE_OFF then c\<lparr>restart_type := 0\<rparr>
              else if new_state = MDM_STATE_UNRESP then c\<lparr>reject_requests := True\<rparr>
              else c);
     (if send_cli_msg
      then do {
        crm_cli_abs_mdm_state_to_string new_state;
        (if fake_modem_state c then crm_cli_abs_mdm_state_to_string (modem_state c) else Some '''')
      }
      else Some '''');
     ASSERT (modem_state c \<noteq> MDM_STATE_UNRESP);
     if fake_modem_state c
     then do {
       ASSERT ((modem_state c = MDM_STATE_OFF \<and> modem_state c = MDM_STATE_READY) = False);
       ASSERT ((modem_state c = MDM_STATE_BUSY \<and>
                (modem_state c = MDM_STATE_READY \<or> modem_state c = MDM_STATE_OFF)) = False);
       if new_state = MDM_STATE_UNRESP then Some (False, c\<lparr>fake_modem_state := False\<rparr>)
       else if modem_state c = new_state then Some (True, c\<lparr>fake_modem_state := False\<rparr>)
       else Some (True, c)
     }
     else Some (False, c)
   }"

text \<open>Whether the state, as the clients see it, changes.\<close>

definition client_sees :: "mdm_cli \<Rightarrow> bool \<Rightarrow> int \<Rightarrow> int \<Rightarrow> bool option" where
  "client_sees k send_cli_msg cli_evt old_state =
     (if \<not> send_cli_msg then Some False
      else if old_state = MDM_STATE_UNKNOWN then Some True
      else do {
        old \<leftarrow> map_modem_state_to_cli_event k old_state;
        Some (cli_evt \<noteq> old)
      })"

definition handle_modem_state :: "cla_param \<Rightarrow> int \<Rightarrow> int \<times> crm_cli_abs \<Rightarrow> (int \<times> crm_cli_abs) option" where
  "handle_modem_state p payload s = (case s of (st, c) \<Rightarrow> do {
     let send_cli_msg = (payload \<noteq> MDM_STATE_PLATFORM_REBOOT);
     let new_state = (if payload = MDM_STATE_PLATFORM_REBOOT then MDM_STATE_UNRESP else payload);
     (filter_state, c) \<leftarrow> record_modem_state new_state send_cli_msg c;
     if \<not> filter_state \<and> modem_state c \<noteq> new_state
     then do {
       cli_evt \<leftarrow> map_modem_state_to_cli_event (cli p) new_state;
       changed \<leftarrow> client_sees (cli p) send_cli_msg cli_evt (modem_state c);
       c \<leftarrow> (if changed then notify_all_simple p cli_evt c else Some c);
       notify_event cla_fsm st (new_state - MDM_STATE_OFF + EV_MDM_OFF) (c\<lparr>modem_state := new_state\<rparr>) p
     }
     else Some (st, c)
   })"

definition handle_control_msg ::
  "cla_param \<Rightarrow> cla_msg \<Rightarrow> int \<times> crm_cli_abs \<Rightarrow> (bool \<times> int \<times> crm_cli_abs) option" where
  "handle_control_msg p m s =
     (if fst m = -1 then Some (True, s)
      else do {
        let payload = CLI_ABS_GET_MSG_PAYLOAD (fst m);
        let ty = CLI_ABS_GET_MSG_TYPE (fst m);
        s \<leftarrow> (if ty = CLI_ABS_MSG_NOTIFY_OPERATION_RESULT then handle_operation_result p payload s
             else if ty = CLI_ABS_MSG_NOTIFY_CLIENT
             then do {
               crm_mdmcli_wire_req_to_string (cli p) payload;
               ser \<leftarrow> snd m;
               c \<leftarrow> notify_cli_event_all p payload (Some ser) (snd s);
               Some (fst s, c)
             }
             else if ty = CLI_ABS_MSG_NOTIFY_MODEM_STATE then handle_modem_state p payload s
             else Some s);
        Some (False, s)
      })"

section \<open>Messages of the clients\<close>

definition set_client :: "crm_cli_abs \<Rightarrow> nat \<Rightarrow> crm_client \<Rightarrow> crm_cli_abs" where
  "set_client c idx cl = c\<lparr>clients := (clients c)[idx := cl]\<rparr>"

definition handle_register ::
  "cla_param \<Rightarrow> nat \<Rightarrow> 32 word \<Rightarrow> 8 word list \<Rightarrow> crm_cli_abs \<Rightarrow> crm_cli_abs option" where
  "handle_register p idx bitmap name c = do {
     cl \<leftarrow> array_get (clients c) (int idx);
     if registered cl then handle_client_unregister c idx
     else do {
       let c = set_client c idx (cl\<lparr>registered := True, cl_name := take (MDM_CLI_NAME_LEN (cli p) - 1) name,
                 cl_events := bitmap\<rparr>);
       if modem_state c \<noteq> MDM_STATE_UNKNOWN
       then do {
         evt \<leftarrow> map_modem_state_to_cli_event (cli p) (modem_state c);
         notify_cli_event_single p idx evt None c
       }
       else Some c
     }
   }"

definition handle_acquire :: "nat \<Rightarrow> crm_cli_abs \<Rightarrow> crm_cli_abs option" where
  "handle_acquire idx c = do {
     cl \<leftarrow> array_get (clients c) (int idx);
     if \<not> reject_requests c \<and> \<not> acquired cl
     then Some ((set_client c idx (cl\<lparr>acquired := True\<rparr>))\<lparr>num_acquired := num_acquired c + 1\<rparr>)
     else Some c
   }"

definition handle_release :: "nat \<Rightarrow> crm_cli_abs \<Rightarrow> crm_cli_abs option" where
  "handle_release idx c = do {
     cl \<leftarrow> array_get (clients c) (int idx);
     if \<not> reject_requests c \<and> acquired cl
     then do {
       let c = (set_client c idx (cl\<lparr>acquired := False\<rparr>))\<lparr>num_acquired := num_acquired c - 1\<rparr>;
       ASSERT (num_acquired c \<ge> 0);
       Some c
     }
     else Some c
   }"

text \<open>The debug information is copied to the buffers of the module, each string cut to its buffer.\<close>

definition copy_debug :: "mdm_cli \<Rightarrow> mdm_cli_dbg_info option \<Rightarrow> crm_cli_abs \<Rightarrow> crm_cli_abs option" where
  "copy_debug k dbg c =
     (case dbg of
        None \<Rightarrow> Some (c\<lparr>dbg_info_present := False\<rparr>)
      | Some d \<Rightarrow> do {
          let n = unat (nb_data d);
          ASSERT (n \<le> MDM_CLI_MAX_NB_DATA k);
          ASSERT (n \<le> length (ddata d));
          Some (c\<lparr>dbg_info_present := True,
            dbg_info := d\<lparr>ddata := map (take (MDM_CLI_MAX_LEN_DATA k - 1)) (take n (ddata d))\<rparr>\<rparr>)
        })"

definition handle_restart ::
  "cla_param \<Rightarrow> 32 word \<Rightarrow> mdm_cli_dbg_info option \<Rightarrow> int \<times> crm_cli_abs \<Rightarrow> (int \<times> crm_cli_abs) option" where
  "handle_restart p rc dbg s = (case s of (st, c) \<Rightarrow> do {
     let ignore = (restart_type c \<noteq> 0 \<or> real_modem_state c \<noteq> MDM_STATE_READY \<or> reject_requests c);
     crm_mdmcli_restart_cause_to_string (cli p) rc;
     (case dbg of Some d \<Rightarrow> crm_mdmcli_dbg_type_to_string (cli p) (dtype d) | None \<Rightarrow> Some '''');
     if ignore then Some (st, c)
     else do {
       ty \<leftarrow> get_restart_type (cli p) rc;
       c \<leftarrow> copy_debug (cli p) dbg (c\<lparr>restart_type := ty\<rparr>);
       notify_event cla_fsm st EV_CLI_RESTART c p
     }
   })"

definition handle_ack_cold :: "nat \<Rightarrow> crm_cli_abs \<Rightarrow> crm_cli_abs option" where
  "handle_ack_cold idx c = do {
     cl \<leftarrow> array_get (clients c) (int idx);
     if waiting_cold_reset_ack cl
     then do {
       let c = (set_client c idx (cl\<lparr>waiting_cold_reset_ack := False\<rparr>))
                 \<lparr>num_waiting_cold_reset_ack := num_waiting_cold_reset_ack c - 1\<rparr>;
       ASSERT (num_waiting_cold_reset_ack c \<ge> 0);
       Some c
     }
     else Some c
   }"

definition handle_ack_shutdown :: "nat \<Rightarrow> crm_cli_abs \<Rightarrow> crm_cli_abs option" where
  "handle_ack_shutdown idx c = do {
     cl \<leftarrow> array_get (clients c) (int idx);
     if waiting_shutdown_ack cl
     then do {
       let c = (set_client c idx (cl\<lparr>waiting_shutdown_ack := False\<rparr>))
                 \<lparr>num_waiting_shutdown_ack := num_waiting_shutdown_ack c - 1\<rparr>;
       ASSERT (num_waiting_shutdown_ack c \<ge> 0);
       Some c
     }
     else Some c
   }"

definition handle_notify_dbg :: "cla_param \<Rightarrow> mdm_cli_dbg_info option \<Rightarrow> crm_cli_abs \<Rightarrow> crm_cli_abs option" where
  "handle_notify_dbg p dbg c = do {
     (case dbg of Some d \<Rightarrow> crm_mdmcli_dbg_type_to_string (cli p) (dtype d) | None \<Rightarrow> Some '''');
     ser \<leftarrow> serialize_msg (cli p) CRM_SERVER_TO_CLIENT \<lparr>msg_id = MDM_DBG_INFO (cli p), msg = Debug dbg\<rparr>;
     notify_cli_event_all p (MDM_DBG_INFO (cli p)) (Some ser) c
   }"

text \<open>
  The switch of \<open>handle_client_msg\<close>. The union of a message is read according to its identifier,
  which is how the wire plugin fills it.
\<close>

definition dispatch_client_msg ::
  "cla_param \<Rightarrow> nat \<Rightarrow> crm_mdmcli_wire_msg \<Rightarrow> int \<times> crm_cli_abs \<Rightarrow> (int \<times> crm_cli_abs) option" where
  "dispatch_client_msg p idx m s =
     (let k = cli p; i = msg_id m; st = fst s; c = snd s; keep = map_option (Pair st)
      in if i = CRM_REQ_REGISTER k \<or> i = CRM_REQ_REGISTER_DBG k
         then (case msg m of RegisterClient bitmap name \<Rightarrow> keep (handle_register p idx bitmap name c) | _ \<Rightarrow> None)
         else if i = CRM_REQ_ACQUIRE k then keep (handle_acquire idx c)
         else if i = CRM_REQ_RELEASE k then keep (handle_release idx c)
         else if i = CRM_REQ_RESTART k
         then (case msg m of Restart rc dbg \<Rightarrow> handle_restart p rc dbg s | _ \<Rightarrow> None)
         else if i = CRM_REQ_SHUTDOWN k then Some (st, c\<lparr>reject_requests := True, num_acquired := 0\<rparr>)
         else if i = CRM_REQ_NVM_BACKUP k
         then notify_event cla_fsm st EV_CLI_RESTART (c\<lparr>restart_type := CTRL_BACKUP_NVM\<rparr>) p
         else if i = CRM_REQ_ACK_COLD_RESET k then keep (handle_ack_cold idx c)
         else if i = CRM_REQ_ACK_SHUTDOWN k then keep (handle_ack_shutdown idx c)
         else if i = CRM_REQ_NOTIFY_DBG k
         then (case msg m of Debug dbg \<Rightarrow> keep (handle_notify_dbg p dbg c) | _ \<Rightarrow> None)
         else Some s)"

definition handle_client_msg ::
  "cla_param \<Rightarrow> nat \<Rightarrow> crm_mdmcli_wire_msg \<Rightarrow> int \<times> crm_cli_abs \<Rightarrow> (int \<times> crm_cli_abs) option" where
  "handle_client_msg p idx m s = (case s of (st, c) \<Rightarrow> do {
     let k = cli p;
     let i = msg_id m;
     let is_register = (i = CRM_REQ_REGISTER k \<or> i = CRM_REQ_REGISTER_DBG k);
     crm_mdmcli_wire_req_to_string k i;
     b \<leftarrow> bit_at (to_clean c) (int idx);
     if b then Some s
     else if (i = CRM_REQ_REGISTER k \<and> sanity_test_mode c) \<or> (i = CRM_REQ_REGISTER_DBG k \<and> \<not> sanity_test_mode c)
     then map_option (Pair st) (handle_client_unregister c idx)
     else do {
       cl \<leftarrow> array_get (clients c) (int idx);
       if \<not> is_register \<and> \<not> registered cl then map_option (Pair st) (handle_client_unregister c idx)
       else dispatch_client_msg p idx m s
     }
   })"

section \<open>The client list\<close>

text \<open>\<open>memmove\<close> of the elements after \<open>j\<close>, up to the \<open>n\<close>-th, one place down.\<close>

definition memmove_down :: "'a list \<Rightarrow> nat \<Rightarrow> nat \<Rightarrow> 'a list" where
  "memmove_down xs j n = take j xs @ take (n - j - 1) (drop (j + 1) xs) @ drop (n - 1) xs"

fun clean_loop :: "nat list \<Rightarrow> nat \<Rightarrow> nat \<Rightarrow> crm_cli_abs \<Rightarrow> (nat \<times> crm_cli_abs) option" where
  "clean_loop [] j n c = Some (n, c)"
| "clean_loop (i # is) j n c = do {
     b \<leftarrow> bit_at (to_clean c) (int i);
     if b
     then do {
       fd \<leftarrow> array_get (cl_fd c) (int j);
       let c = emit c (Close fd);
       let c = (if j \<noteq> n - 1 then c\<lparr>cl_fd := memmove_down (cl_fd c) j n, clients := memmove_down (clients c) j n\<rparr> else c);
       clean_loop is j (n - 1) c
     }
     else clean_loop is (j + 1) n c
   }"

definition update_client_list :: "crm_cli_abs \<Rightarrow> crm_cli_abs option" where
  "update_client_list c =
     (if to_clean c \<noteq> 0
      then do {
        (n, c) \<leftarrow> clean_loop [0..<num_clients c] 0 (num_clients c) c;
        Some (c\<lparr>num_clients := n\<rparr>)
      }
      else Some c)"

section \<open>The thread\<close>

text \<open>
  What \<open>poll\<close> reports for a descriptor: the pipe of the module (its messages), the server socket
  (the descriptor \<open>accept\<close> answers) or a client (the message the wire plugin reads, \<open>None\<close> when it
  reads none).
\<close>

datatype cla_slot =
    SlotNone
  | SlotError
  | SlotIpc "cla_msg list"
  | SlotAccept int
  | SlotClient "crm_mdmcli_wire_msg option"

fun control_msgs :: "cla_param \<Rightarrow> cla_msg list \<Rightarrow> bool \<times> int \<times> crm_cli_abs \<Rightarrow> (bool \<times> int \<times> crm_cli_abs) option" where
  "control_msgs p [] s = Some s"
| "control_msgs p (m # ms) (stop, s) = do {
     (e, s) \<leftarrow> handle_control_msg p m s;
     control_msgs p ms (stop \<or> e, s)
   }"

definition accept_client :: "int \<Rightarrow> crm_cli_abs \<Rightarrow> crm_cli_abs option" where
  "accept_client sock c =
     (if sock \<ge> 0
      then do {
        ASSERT (num_clients c < MAX_CLIENTS);
        fds \<leftarrow> array_set (cl_fd c) (int (num_clients c)) sock;
        cls \<leftarrow> array_set (clients c) (int (num_clients c)) zero_client;
        Some (c\<lparr>cl_fd := fds, clients := cls, num_clients := num_clients c + 1\<rparr>)
      }
      else Some c)"

definition handle_slot ::
  "cla_param \<Rightarrow> nat \<Rightarrow> cla_slot \<Rightarrow> bool \<times> int \<times> crm_cli_abs \<Rightarrow> (bool \<times> int \<times> crm_cli_abs) option" where
  "handle_slot p i sl s = (case s of (running, st, c) \<Rightarrow>
     (case sl of
        SlotNone \<Rightarrow> Some s
      | SlotError \<Rightarrow> do {
          ASSERT (\<not> i < 2);
          b \<leftarrow> bit_at (to_clean c) (int i - 2);
          if \<not> b then do { c \<leftarrow> handle_client_unregister c (i - 2); Some (running, st, c) } else Some s
        }
      | SlotIpc ms \<Rightarrow> do {
          ASSERT (i = 0);
          (stop, st, c) \<leftarrow> control_msgs p ms (False, st, c);
          Some (running \<and> \<not> stop, st, c)
        }
      | SlotAccept sock \<Rightarrow> do { ASSERT (i = 1); c \<leftarrow> accept_client sock c; Some (running, st, c) }
      | SlotClient m \<Rightarrow> do {
          ASSERT (i \<ge> 2);
          (case m of
             Some m \<Rightarrow> do { (st, c) \<leftarrow> handle_client_msg p (i - 2) m (st, c); Some (running, st, c) }
           | None \<Rightarrow> do {
               b \<leftarrow> bit_at (to_clean c) (int i - 2);
               if \<not> b then do { c \<leftarrow> handle_client_unregister c (i - 2); Some (running, st, c) } else Some s
             })
        }))"

text \<open>The event the change of the counters during a slot stands for.\<close>

definition waiting_ack :: "crm_cli_abs \<Rightarrow> bool" where
  "waiting_ack c \<longleftrightarrow> num_waiting_cold_reset_ack c \<noteq> 0 \<or> num_waiting_shutdown_ack c \<noteq> 0"

definition slot_event :: "bool \<Rightarrow> bool \<Rightarrow> crm_cli_abs \<Rightarrow> (int \<times> crm_cli_abs) option" where
  "slot_event was_acquired was_waiting c =
     (let evt = (if was_waiting \<and> \<not> waiting_ack c then EV_CLI_ACKED else EV_NONE)
      in if was_acquired \<and> num_acquired c = 0
         then if evt = EV_CLI_ACKED then Some (evt, c\<lparr>restart_type := 0\<rparr>) else Some (EV_CLI_RELEASE, c)
         else if \<not> was_acquired \<and> num_acquired c \<noteq> 0
         then do { ASSERT (evt = EV_NONE); Some (EV_CLI_ACQUIRE, c) }
         else Some (evt, c))"

definition process_slot ::
  "cla_param \<Rightarrow> nat \<times> cla_slot \<Rightarrow> bool \<times> int \<times> crm_cli_abs \<Rightarrow> (bool \<times> int \<times> crm_cli_abs) option" where
  "process_slot p x s = do {
     let was_acquired = (num_acquired (snd (snd s)) \<noteq> 0);
     let was_waiting = waiting_ack (snd (snd s));
     (running, st, c) \<leftarrow> handle_slot p (fst x) (snd x) s;
     (evt, c) \<leftarrow> slot_event was_acquired was_waiting c;
     if evt \<noteq> EV_NONE
     then do { (st, c) \<leftarrow> notify_event cla_fsm st evt c p; Some (running, st, c) }
     else Some (running, st, c)
   }"

definition ack_timeout :: "crm_cli_abs \<Rightarrow> crm_cli_abs" where
  "ack_timeout c =
     c\<lparr>clients := map (\<lambda>cl. cl\<lparr>waiting_cold_reset_ack := False, waiting_shutdown_ack := False\<rparr>)
                    (take (num_clients c) (clients c)) @ drop (num_clients c) (clients c),
       num_waiting_cold_reset_ack := 0, num_waiting_shutdown_ack := 0\<rparr>"

definition handle_timeout :: "cla_param \<Rightarrow> nat \<Rightarrow> int \<times> crm_cli_abs \<Rightarrow> (int \<times> crm_cli_abs) option" where
  "handle_timeout p idx s = (case s of (st, c) \<Rightarrow> do {
     ASSERT (idx \<noteq> 0);
     held \<leftarrow> is_held_by_module (wakelock c) WAKELOCK_CLA;
     ASSERT held;
     let c = (if and TIMEOUT_BOOT_IDX idx \<noteq> 0
              then c\<lparr>timer_boot_armed := crm_time_get_remain_ms (now p) (timer_boot_end c) > 0\<rparr> else c);
     (st, c) \<leftarrow> (if and TIMEOUT_ACK_IDX idx \<noteq> 0 then notify_event cla_fsm st EV_CLI_ACKED (ack_timeout c) p else Some (st, c));
     if \<not> timer_boot_armed c \<and> num_waiting_cold_reset_ack c = 0 \<and> num_waiting_shutdown_ack c = 0
     then do { w \<leftarrow> release (wakelock c) WAKELOCK_CLA; Some (st, c\<lparr>wakelock := w\<rparr>) }
     else Some (st, c)
   })"

text \<open>
  An iteration: the timeout of \<open>poll\<close> is computed at \<open>t\<close>; \<open>None\<close> is a \<open>poll\<close> that timed out, a
  list holds what was found for each descriptor in order. \<open>poll\<close> looks at \<open>2 + num_clients\<close>
  descriptors; a client accepted meanwhile has nothing to report yet.
\<close>

definition cla_iter ::
  "timespec \<Rightarrow> cla_param \<Rightarrow> cla_slot list option \<Rightarrow> bool \<times> int \<times> crm_cli_abs \<Rightarrow> (bool \<times> int \<times> crm_cli_abs) option" where
  "cla_iter t p inp s = (case s of (running, st, c) \<Rightarrow> do {
     let (tmo, idx) = get_timeout t c;
     held \<leftarrow> is_held_by_module (wakelock c) WAKELOCK_CLA;
     c \<leftarrow> (if tmo = -1 \<and> held
          then do { w \<leftarrow> release (wakelock c) WAKELOCK_CLA; Some (c\<lparr>wakelock := w\<rparr>) } else Some c);
     (case inp of
        None \<Rightarrow> do { (st, c) \<leftarrow> handle_timeout p idx (st, c); Some (running, st, c) }
      | Some slots \<Rightarrow> do {
          (running, st, c) \<leftarrow> for_loop (process_slot p) (enumerate 0 (take (2 + num_clients c) slots)) (running, st, c\<lparr>to_clean := 0\<rparr>);
          c \<leftarrow> update_client_list c;
          Some (running, st, c)
        })
   })"

definition cla_start :: "timespec \<Rightarrow> crm_cli_abs \<Rightarrow> crm_cli_abs option" where
  "cla_start t c = do {
     w \<leftarrow> acquire (wakelock c) WAKELOCK_CLA;
     Some (c\<lparr>timer_boot_armed := True, timer_boot_end := crm_time_add_ms t 2000, wakelock := w\<rparr>)
   }"

fun cla_loop ::
  "(timespec \<times> cla_param \<times> cla_slot list option) list \<Rightarrow> bool \<times> int \<times> crm_cli_abs \<Rightarrow> (bool \<times> int \<times> crm_cli_abs) option" where
  "cla_loop [] s = Some s"
| "cla_loop ((t, p, inp) # is) s = (if fst s then do { s \<leftarrow> cla_iter t p inp s; cla_loop is s } else Some s)"

definition crm_cli_abs_init ::
  "bool \<Rightarrow> bool \<Rightarrow> crm_wakelock \<Rightarrow> mdm_cli_dbg_info \<Rightarrow> crm_cli_abs" where
  "crm_cli_abs_init sanity_mode enable_fmmo w dbg =
     \<lparr>wakelock = w, sanity_test_mode = sanity_mode, num_clients = 0,
      clients = replicate MAX_CLIENTS zero_client, cl_fd = replicate MAX_CLIENTS 0, to_clean = 0,
      modem_state = MDM_STATE_UNKNOWN, real_modem_state = MDM_STATE_UNKNOWN, fake_modem_state = False,
      request_in_progress = False, reject_requests = False, num_acquired = (if enable_fmmo then 0 else 1),
      num_waiting_cold_reset_ack = 0, num_waiting_shutdown_ack = 0, restart_type = 0,
      dbg_info = dbg, dbg_info_present = False, timer_ack_end = \<lparr>tv_sec = 0, tv_nsec = 0\<rparr>,
      timer_boot_end = \<lparr>tv_sec = 0, tv_nsec = 0\<rparr>, timer_boot_armed = False, out = []\<rparr>"

end
