(* ===== verification/Crm_Cla_Props.thy ===== *)
theory Crm_Cla_Props
  imports Crm_Cla
begin

text \<open>
  The properties of the client abstraction: the counters of the module are the numbers of clients
  with the corresponding flag, acknowledgements are awaited only in the two states made for it, the
  compaction of the client list forgets exactly the clients marked, and the ways a client can make
  the module abort.
\<close>

section \<open>Bits\<close>

lemma bit_at_nat [simp]: "i < 32 \<Longrightarrow> bit_at w (int i) = Some (bit w i)"
  by (simp add: bit_at_def)

lemma bit_at_SomeD: "bit_at w (int i) = Some b \<Longrightarrow> i < 32 \<and> b = bit w i"
  by (auto simp: bit_at_def split: if_splits)

lemma bit_set: "i < 32 \<Longrightarrow> bit (or w (push_bit i 1) :: 32 word) j = (bit w j \<or> j = i)"
  by (auto simp: bit_or_iff bit_exp_iff)

section \<open>The invariant of the counters\<close>

abbreviation present :: "crm_cli_abs \<Rightarrow> crm_client list" where
  "present c \<equiv> take (num_clients c) (clients c)"

definition no_flag :: "crm_client \<Rightarrow> bool" where
  "no_flag cl \<longleftrightarrow> \<not> acquired cl \<and> \<not> waiting_cold_reset_ack cl \<and> \<not> waiting_shutdown_ack cl"

text \<open>\<open>base\<close> is the hold of the module itself, 1 when the modem has to be always on.\<close>

definition cla_ok :: "int \<Rightarrow> crm_cli_abs \<Rightarrow> bool" where
  "cla_ok base c \<longleftrightarrow> length (clients c) = MAX_CLIENTS \<and> length (cl_fd c) = MAX_CLIENTS \<and> num_clients c \<le> MAX_CLIENTS \<and>
     num_waiting_cold_reset_ack c = int (countp waiting_cold_reset_ack (present c)) \<and>
     num_waiting_shutdown_ack c = int (countp waiting_shutdown_ack (present c)) \<and>
     (num_acquired c = base + int (countp acquired (present c)) \<or> reject_requests c \<and> num_acquired c = 0) \<and>
     (\<forall>cl \<in> set (present c). \<not> registered cl \<longrightarrow> no_flag cl \<and> cl_events cl = 0)"

text \<open>The clients marked to be forgotten have no flag.\<close>

definition clean_ok :: "crm_cli_abs \<Rightarrow> bool" where
  "clean_ok c \<longleftrightarrow> (\<forall>i < num_clients c. bit (to_clean c) i \<longrightarrow> no_flag (clients c ! i))"

lemma countp_take_update:
  assumes "i < n" "n \<le> length xs"
  shows "int (countp P (take n (xs[i := v]))) = int (countp P (take n xs)) - of_bool (P (xs ! i)) + of_bool (P v)"
  using countp_update [of i "take n xs" P v] assms by (auto simp: take_update_swap split: if_splits)

lemma present_update:
  assumes "i < n" "n \<le> length xs" "\<forall>x \<in> set (take n xs). Q x" "Q v"
  shows "\<forall>x \<in> set (take n (xs[i := v])). Q x"
  using assms set_update_subset_insert [of "take n xs" i v] by (auto simp: take_update_swap)

lemma present_nth: "i < num_clients c \<Longrightarrow> num_clients c \<le> length (clients c) \<Longrightarrow> clients c ! i \<in> set (present c)"
  by (metis length_take min.absorb2 nth_mem nth_take)

text \<open>A client changed together with the counters.\<close>

lemma cla_ok_update:
  assumes "cla_ok base c" "i < num_clients c" "\<not> registered v \<longrightarrow> no_flag v \<and> cl_events v = 0"
    and "clients c' = (clients c)[i := v]" "num_clients c' = num_clients c" "cl_fd c' = cl_fd c" "reject_requests c' = reject_requests c"
    and "num_waiting_cold_reset_ack c' = num_waiting_cold_reset_ack c - of_bool (waiting_cold_reset_ack (clients c ! i)) + of_bool (waiting_cold_reset_ack v)"
    and "num_waiting_shutdown_ack c' = num_waiting_shutdown_ack c - of_bool (waiting_shutdown_ack (clients c ! i)) + of_bool (waiting_shutdown_ack v)"
    and "num_acquired c' = num_acquired c - of_bool (acquired (clients c ! i)) + of_bool (acquired v)"
    and "reject_requests c \<and> num_acquired c = 0 \<longrightarrow> num_acquired c' = 0"
  shows "cla_ok base c'"
proof -
  have l: "num_clients c \<le> length (clients c)" using assms(1) by (simp add: cla_ok_def)
  have "\<forall>x \<in> set (take (num_clients c) ((clients c)[i := v])). \<not> registered x \<longrightarrow> no_flag x \<and> cl_events x = 0"
    using present_update [OF assms(2) l, of "\<lambda>x. \<not> registered x \<longrightarrow> no_flag x \<and> cl_events x = 0" v] assms(1,3)
    by (simp add: cla_ok_def)
  then show ?thesis
    using assms(1,11) unfolding cla_ok_def assms(4-10) countp_take_update [OF assms(2) l] by auto
qed

lemma clean_ok_update:
  assumes "clean_ok c" "clients c' = (clients c)[i := v]" "num_clients c' = num_clients c" "to_clean c' = to_clean c"
    "bit (to_clean c) i \<longrightarrow> no_flag v"
  shows "clean_ok c'"
  unfolding clean_ok_def assms(2-4)
proof (intro allI impI)
  fix j
  assume j: "j < num_clients c" "bit (to_clean c) j"
  then have "no_flag (clients c ! j)" using assms(1) by (simp add: clean_ok_def)
  then show "no_flag ((clients c)[i := v] ! j)"
    using j(2) assms(5) by (cases "i < length (clients c)") (auto simp: nth_list_update list_update_beyond)
qed

section \<open>Forgetting and notifying a client\<close>

text \<open>What the rest of the module sees of a notification.\<close>

definition calm :: "crm_cli_abs \<Rightarrow> crm_cli_abs \<Rightarrow> bool" where
  "calm c c' \<longleftrightarrow> num_clients c' = num_clients c \<and> reject_requests c' = reject_requests c \<and>
     modem_state c' = modem_state c \<and> real_modem_state c' = real_modem_state c \<and> fake_modem_state c' = fake_modem_state c \<and>
     request_in_progress c' = request_in_progress c \<and> restart_type c' = restart_type c \<and>
     dbg_info_present c' = dbg_info_present c \<and> dbg_info c' = dbg_info c \<and> wakelock c' = wakelock c"

lemma calm_refl: "calm c c" by (simp add: calm_def)

lemma calm_trans: "calm a b \<Longrightarrow> calm b c \<Longrightarrow> calm a c" by (simp add: calm_def)

lemma drop_eq:
  "drop_acquired cl c = (if acquired cl \<and> num_acquired c < 1 then None
     else Some (c\<lparr>num_acquired := num_acquired c - of_bool (acquired cl)\<rparr>))"
  "drop_cold_reset_ack cl c = (if waiting_cold_reset_ack cl \<and> num_waiting_cold_reset_ack c < 1 then None
     else Some (c\<lparr>num_waiting_cold_reset_ack := num_waiting_cold_reset_ack c - of_bool (waiting_cold_reset_ack cl)\<rparr>))"
  "drop_shutdown_ack cl c = (if waiting_shutdown_ack cl \<and> num_waiting_shutdown_ack c < 1 then None
     else Some (c\<lparr>num_waiting_shutdown_ack := num_waiting_shutdown_ack c - of_bool (waiting_shutdown_ack cl)\<rparr>))"
  by (simp_all add: drop_acquired_def drop_cold_reset_ack_def drop_shutdown_ack_def)

text \<open>A client is forgotten unless it holds the modem and nobody is counted as holding it.\<close>

lemma unregister_SomeD:
  assumes "handle_client_unregister c i = Some c'"
  shows "i < 32 \<and> i < length (clients c) \<and> \<not> bit (to_clean c) i \<and>
    (if registered (clients c ! i)
     then (acquired (clients c ! i) \<longrightarrow> num_acquired c \<ge> 1) \<and>
       c' = c\<lparr>num_acquired := num_acquired c - of_bool (acquired (clients c ! i)),
         num_waiting_cold_reset_ack := num_waiting_cold_reset_ack c - of_bool (waiting_cold_reset_ack (clients c ! i)),
         num_waiting_shutdown_ack := num_waiting_shutdown_ack c - of_bool (waiting_shutdown_ack (clients c ! i)),
         clients := (clients c)[i := (clients c ! i)\<lparr>acquired := False, waiting_cold_reset_ack := False, waiting_shutdown_ack := False\<rparr>],
         to_clean := or (to_clean c) (push_bit i 1)\<rparr>
     else c' = c\<lparr>to_clean := or (to_clean c) (push_bit i 1)\<rparr>)"
proof -
  obtain cl where cl: "array_get (clients c) (int i) = Some cl" and b: "bit_at (to_clean c) (int i) = Some False"
    using assms by (auto simp: handle_client_unregister_def bind_Some_iff)
  have d: "i < length (clients c)" "cl = clients c ! i" using array_get_SomeD [OF cl] by auto
  have "i < 32" "\<not> bit (to_clean c) i" using bit_at_SomeD [OF b] by auto
  with d assms cl show ?thesis
    unfolding handle_client_unregister_def b cl drop_eq
    by (cases "registered cl") (auto simp del: of_bool_eq split: if_splits split del: split_of_bool)
qed

lemma unregister_ok:
  assumes "handle_client_unregister c i = Some c'" "cla_ok base c" "i < num_clients c"
  shows "cla_ok base c' \<and> calm c c' \<and> (clean_ok c \<longrightarrow> clean_ok c') \<and>
    num_waiting_cold_reset_ack c' \<le> num_waiting_cold_reset_ack c \<and> num_waiting_shutdown_ack c' \<le> num_waiting_shutdown_ack c \<and>
    (\<forall>j. j \<noteq> i \<longrightarrow> clients c' ! j = clients c ! j)"
proof (cases "registered (clients c ! i)")
  case False
  then have c': "c' = c\<lparr>to_clean := or (to_clean c) (push_bit i 1)\<rparr>" and i: "i < 32"
    using unregister_SomeD [OF assms(1)] by auto
  have "no_flag (clients c ! i)" using False assms(2,3) present_nth [of i c] by (auto simp: cla_ok_def)
  then have "clean_ok c \<longrightarrow> clean_ok c'" unfolding c' clean_ok_def using i bit_set [OF i] by auto
  with assms(2) c' show ?thesis by (simp add: cla_ok_def calm_def)
next
  case True
  let ?cl = "clients c ! i"
  let ?v = "?cl\<lparr>acquired := False, waiting_cold_reset_ack := False, waiting_shutdown_ack := False\<rparr>"
  have i: "i < 32" "i < length (clients c)" and n: "acquired ?cl \<longrightarrow> num_acquired c \<ge> 1"
    and c': "c' = c\<lparr>num_acquired := num_acquired c - of_bool (acquired ?cl),
         num_waiting_cold_reset_ack := num_waiting_cold_reset_ack c - of_bool (waiting_cold_reset_ack ?cl),
         num_waiting_shutdown_ack := num_waiting_shutdown_ack c - of_bool (waiting_shutdown_ack ?cl),
         clients := (clients c)[i := ?v], to_clean := or (to_clean c) (push_bit i 1)\<rparr>"
    using unregister_SomeD [OF assms(1)] True by simp_all
  have "cla_ok base c'"
    by (rule cla_ok_update [OF assms(2,3), where v = ?v]) (use True n in \<open>auto simp: c'\<close>)
  moreover have "clean_ok c'" if "clean_ok c"
    unfolding clean_ok_def
  proof (intro allI impI)
    fix j
    assume "j < num_clients c'" "bit (to_clean c') j"
    then show "no_flag (clients c' ! j)"
      using that i bit_set [OF i(1), of "to_clean c" j] by (cases "j = i") (simp_all add: c' clean_ok_def no_flag_def)
  qed
  ultimately show ?thesis by (simp add: c' calm_def)
qed

definition notified :: "int \<Rightarrow> cla_param \<Rightarrow> int \<Rightarrow> crm_cli_abs \<Rightarrow> crm_cli_abs \<Rightarrow> bool" where
  "notified base p event c c' \<longleftrightarrow> cla_ok base c' \<and> calm c c' \<and> (clean_ok c \<longrightarrow> clean_ok c') \<and>
     (event \<noteq> MDM_COLD_RESET (cli p) \<longrightarrow> num_waiting_cold_reset_ack c' \<le> num_waiting_cold_reset_ack c) \<and>
     (event = MDM_COLD_RESET (cli p) \<or> event \<noteq> MDM_SHUTDOWN (cli p) \<longrightarrow>
       num_waiting_shutdown_ack c' \<le> num_waiting_shutdown_ack c)"

lemma notified_refl: "cla_ok base c \<Longrightarrow> notified base p event c c"
  by (simp add: notified_def calm_refl)

lemma notified_trans: "notified base p event a b \<Longrightarrow> notified base p event b c \<Longrightarrow> notified base p event a c"
  by (auto simp: notified_def intro: calm_trans)

definition fresh_for :: "cla_param \<Rightarrow> int \<Rightarrow> crm_client \<Rightarrow> bool" where
  "fresh_for p event cl \<longleftrightarrow>
     (event = MDM_COLD_RESET (cli p) \<longrightarrow> \<not> waiting_cold_reset_ack cl) \<and> (event = MDM_SHUTDOWN (cli p) \<longrightarrow> \<not> waiting_shutdown_ack cl)"

text \<open>The counting part of a notification.\<close>

lemma mark_waiting_ok:
  assumes "mark_waiting p event i (clients c ! i) c = Some c'"
    and "cla_ok base c" "i < num_clients c" "fresh_for p event (clients c ! i)" "registered (clients c ! i)"
    "\<not> bit (to_clean c) i"
  shows "notified base p event c c' \<and> (\<forall>j. j \<noteq> i \<longrightarrow> clients c' ! j = clients c ! j)"
proof -
  consider "event = MDM_COLD_RESET (cli p)"
    "c' = c\<lparr>clients := (clients c)[i := (clients c ! i)\<lparr>waiting_cold_reset_ack := True\<rparr>],
       num_waiting_cold_reset_ack := num_waiting_cold_reset_ack c + 1\<rparr>"
  | "event = MDM_SHUTDOWN (cli p)" "event \<noteq> MDM_COLD_RESET (cli p)"
    "c' = c\<lparr>clients := (clients c)[i := (clients c ! i)\<lparr>waiting_shutdown_ack := True\<rparr>],
       num_waiting_shutdown_ack := num_waiting_shutdown_ack c + 1\<rparr>"
  | "c' = c"
    using assms(1) unfolding mark_waiting_def by (auto split: if_split_asm)
  then show ?thesis
  proof cases
    case 1
    have "cla_ok base c'"
      by (rule cla_ok_update [OF assms(2,3), where v = "(clients c ! i)\<lparr>waiting_cold_reset_ack := True\<rparr>"])
        (use assms(4,5) 1 in \<open>simp_all add: fresh_for_def\<close>)
    moreover have "clean_ok c'" if "clean_ok c"
      using clean_ok_update [OF that, of c' i] assms(6) 1(2) by simp
    ultimately show ?thesis using 1 by (simp add: notified_def calm_def)
  next
    case 2
    have "cla_ok base c'"
      by (rule cla_ok_update [OF assms(2,3), where v = "(clients c ! i)\<lparr>waiting_shutdown_ack := True\<rparr>"])
        (use assms(4,5) 2 in \<open>simp_all add: fresh_for_def\<close>)
    moreover have "clean_ok c'" if "clean_ok c"
      using clean_ok_update [OF that, of c' i] assms(6) 2(3) by simp
    ultimately show ?thesis using 2 by (simp add: notified_def calm_def)
  next
    case 3
    then show ?thesis using assms(2) by (simp add: notified_refl)
  qed
qed

lemma cla_ok_emit [simp]: "cla_ok base (emit c x) = cla_ok base c" "clean_ok (emit c x) = clean_ok c"
  by (simp_all add: emit_def cla_ok_def clean_ok_def)

lemma emit_simps [simp]:
  "num_clients (emit c x) = num_clients c" "clients (emit c x) = clients c"
  "num_waiting_cold_reset_ack (emit c x) = num_waiting_cold_reset_ack c"
  "num_waiting_shutdown_ack (emit c x) = num_waiting_shutdown_ack c"
  "num_acquired (emit c x) = num_acquired c" "to_clean (emit c x) = to_clean c"
  by (simp_all add: emit_def)

lemma calm_emit: "calm c (emit c x)" by (simp add: calm_def emit_def)

lemma notified_emit: "cla_ok base c \<Longrightarrow> notified base p event c (emit c x)"
  by (simp add: notified_def calm_emit)

lemma send_event_ok:
  assumes "send_event p i event ser c = Some c'" "cla_ok base c" "i < num_clients c"
  shows "notified base p e c c' \<and> (\<forall>j. j \<noteq> i \<longrightarrow> clients c' ! j = clients c ! j)"
proof -
  obtain x where x: "c' = emit c x \<or> handle_client_unregister (emit c x) i = Some c'"
    using assms(1) by (auto simp: send_event_def bind_Some_iff Let_def split: if_split_asm)
  from x show ?thesis
  proof
    assume "c' = emit c x"
    then show ?thesis using assms(2) notified_emit by simp
  next
    assume u: "handle_client_unregister (emit c x) i = Some c'"
    have "notified base p e (emit c x) c'" "\<forall>j. j \<noteq> i \<longrightarrow> clients c' ! j = clients c ! j"
      using unregister_ok [OF u, of base] assms(2,3) by (auto simp: notified_def)
    then show ?thesis using notified_trans [OF notified_emit [OF assms(2)]] by blast
  qed
qed

lemma single_ok:
  assumes "notify_cli_event_single p i event ser c = Some c'" "cla_ok base c" "i < num_clients c"
    "fresh_for p event (clients c ! i)"
  shows "notified base p event c c' \<and> (\<forall>j. j \<noteq> i \<longrightarrow> clients c' ! j = clients c ! j)"
proof -
  obtain cl w where b: "bit_at (to_clean c) (int i) = Some False" and cl: "array_get (clients c) (int i) = Some cl"
    and w: "bit_at (cl_events cl) event = Some w"
    and s: "(if w then Option.bind (crm_mdmcli_wire_req_to_string (cli p) event)
        (\<lambda>_. Option.bind (mark_waiting p event i cl c) (send_event p i event ser)) else Some c) = Some c'"
    using assms(1) by (auto simp: notify_cli_event_single_def bind_Some_iff)
  have d: "cl = clients c ! i" "\<not> bit (to_clean c) i"
    using array_get_SomeD [OF cl] bit_at_SomeD [OF b] by auto
  show ?thesis
  proof (cases w)
    case False
    with s assms(2) show ?thesis by (simp add: notified_refl)
  next
    case True
    then obtain c1 where c1: "mark_waiting p event i (clients c ! i) c = Some c1" "send_event p i event ser c1 = Some c'"
      using s d(1) by (auto simp: bind_Some_iff)
    have "clients c ! i \<in> set (present c)" using present_nth assms(2,3) by (simp add: cla_ok_def)
    moreover have "cl_events (clients c ! i) \<noteq> 0" using w True d(1) by (auto simp: bit_at_def split: if_splits)
    ultimately have r: "registered (clients c ! i)" using assms(2) by (auto simp: cla_ok_def)
    have m: "notified base p event c c1" "\<forall>j. j \<noteq> i \<longrightarrow> clients c1 ! j = clients c ! j"
      using mark_waiting_ok [OF c1(1) assms(2-4) r d(2)] by auto
    then have "cla_ok base c1" "i < num_clients c1" using assms(3) by (auto simp: notified_def calm_def)
    from send_event_ok [OF c1(2) this, of event] m show ?thesis using notified_trans by metis
  qed
qed

section \<open>Notifying all the clients\<close>

lemma notify_loop_ok:
  assumes "for_loop (\<lambda>idx c. do { b \<leftarrow> bit_at (to_clean c) (int idx);
      if \<not> b then notify_cli_event_single p idx event ser c else Some c }) is c = Some c'"
    and "cla_ok base c" "distinct is" "\<forall>i \<in> set is. i < num_clients c \<and> fresh_for p event (clients c ! i)"
  shows "notified base p event c c'"
  using assms
proof (induction "is" arbitrary: c)
  case Nil
  then show ?case by (simp add: notified_refl)
next
  case (Cons i "is")
  then obtain b c1 where b: "bit_at (to_clean c) (int i) = Some b"
    and c1: "(if \<not> b then notify_cli_event_single p i event ser c else Some c) = Some c1"
    and r: "for_loop (\<lambda>idx c. do { b \<leftarrow> bit_at (to_clean c) (int idx);
      if \<not> b then notify_cli_event_single p idx event ser c else Some c }) is c1 = Some c'"
    by (auto simp: bind_Some_iff)
  have n: "notified base p event c c1 \<and> (\<forall>j. j \<noteq> i \<longrightarrow> clients c1 ! j = clients c ! j)"
  proof (cases b)
    case True
    with c1 Cons.prems(2) show ?thesis by (simp add: notified_refl)
  next
    case False
    then have "notify_cli_event_single p i event ser c = Some c1" using c1 by simp
    from single_ok [OF this Cons.prems(2)] Cons.prems(4) show ?thesis by simp
  qed
  have k: "cla_ok base c1" "num_clients c1 = num_clients c" using n by (auto simp: notified_def calm_def)
  have "\<forall>k \<in> set is. k < num_clients c1 \<and> fresh_for p event (clients c1 ! k)"
  proof
    fix k
    assume "k \<in> set is"
    moreover from this have "k \<noteq> i" using Cons.prems(3) by auto
    ultimately show "k < num_clients c1 \<and> fresh_for p event (clients c1 ! k)"
      using n Cons.prems(4) k(2) by simp
  qed
  from Cons.IH [OF r k(1) _ this] Cons.prems(3) have "notified base p event c1 c'" by simp
  with n show ?case using notified_trans by blast
qed

lemma countp_zero: "countp P xs = 0 \<Longrightarrow> i < length xs \<Longrightarrow> \<not> P (xs ! i)"
  by (auto simp: filter_empty_conv)

lemma fresh_all:
  assumes "cla_ok base c" "i < num_clients c"
    "event = MDM_COLD_RESET (cli p) \<longrightarrow> num_waiting_cold_reset_ack c = 0"
    "event = MDM_SHUTDOWN (cli p) \<longrightarrow> num_waiting_shutdown_ack c = 0"
  shows "fresh_for p event (clients c ! i)"
proof -
  have "i < length (present c)" "present c ! i = clients c ! i" using assms(1,2) by (auto simp: cla_ok_def)
  then show ?thesis
    using assms countp_zero [of waiting_cold_reset_ack "present c" i] countp_zero [of waiting_shutdown_ack "present c" i]
    by (auto simp: fresh_for_def cla_ok_def)
qed

lemma notify_all_ok:
  assumes "notify_cli_event_all p event ser c = Some c'" "cla_ok base c"
    "event = MDM_COLD_RESET (cli p) \<longrightarrow> num_waiting_cold_reset_ack c = 0"
    "event = MDM_SHUTDOWN (cli p) \<longrightarrow> num_waiting_shutdown_ack c = 0"
  shows "notified base p event c c'"
proof -
  have "for_loop (\<lambda>idx c. do { b \<leftarrow> bit_at (to_clean c) (int idx);
      if \<not> b then notify_cli_event_single p idx event ser c else Some c }) [0..<num_clients c] c = Some c'"
    using assms(1) by (auto simp: notify_cli_event_all_def bind_Some_iff)
  then show ?thesis
    by (rule notify_loop_ok [OF _ assms(2)]) (use fresh_all [OF assms(2) _ assms(3,4)] in auto)
qed

lemma notify_simple_ok:
  assumes "notify_all_simple p event c = Some c'" "cla_ok base c"
    "event = MDM_COLD_RESET (cli p) \<longrightarrow> num_waiting_cold_reset_ack c = 0"
    "event = MDM_SHUTDOWN (cli p) \<longrightarrow> num_waiting_shutdown_ack c = 0"
  shows "notified base p event c c'"
  using assms(1) notify_all_ok [OF _ assms(2-4)] by (auto simp: notify_all_simple_def bind_Some_iff)

section \<open>The invariant of the machine\<close>

definition ready :: "crm_cli_abs \<Rightarrow> bool" where
  "ready c \<longleftrightarrow> num_waiting_cold_reset_ack c = 0 \<and> num_waiting_shutdown_ack c = 0"

definition cla_inv :: "int \<Rightarrow> int \<Rightarrow> crm_cli_abs \<Rightarrow> bool" where
  "cla_inv base st c \<longleftrightarrow> cla_ok base c \<and> 0 \<le> st \<and> st < ST_NUM \<and>
     (num_waiting_cold_reset_ack c \<noteq> 0 \<longrightarrow> st = ST_ACK_WAITING_COLD) \<and>
     (num_waiting_shutdown_ack c \<noteq> 0 \<longrightarrow> st = ST_ACK_WAITING_SHTDWN)"

text \<open>What an operation leaves alone.\<close>

definition kept :: "crm_cli_abs \<Rightarrow> crm_cli_abs \<Rightarrow> bool" where
  "kept c c' \<longleftrightarrow> num_clients c \<le> num_clients c' \<and> (clean_ok c \<longrightarrow> clean_ok c')"

lemma kept_refl: "kept c c" by (simp add: kept_def)

lemma kept_trans: "kept a b \<Longrightarrow> kept b c \<Longrightarrow> kept a c" by (auto simp: kept_def)

lemma notified_kept: "notified base p event c c' \<Longrightarrow> kept c c'"
  by (simp add: notified_def kept_def calm_def)

lemma cla_ok_nonneg: "cla_ok base c \<Longrightarrow> 0 \<le> num_waiting_cold_reset_ack c \<and> 0 \<le> num_waiting_shutdown_ack c"
  by (simp add: cla_ok_def)

text \<open>Changes of the fields the invariant does not look at.\<close>

definition same_clients :: "crm_cli_abs \<Rightarrow> crm_cli_abs \<Rightarrow> bool" where
  "same_clients c c' \<longleftrightarrow> clients c' = clients c \<and> num_clients c' = num_clients c \<and> cl_fd c' = cl_fd c \<and>
     num_waiting_cold_reset_ack c' = num_waiting_cold_reset_ack c \<and> num_waiting_shutdown_ack c' = num_waiting_shutdown_ack c \<and>
     num_acquired c' = num_acquired c \<and> (reject_requests c \<longrightarrow> reject_requests c') \<and> to_clean c' = to_clean c"

lemma same_clients_ok: "same_clients c c' \<Longrightarrow> cla_ok base c \<Longrightarrow> cla_ok base c'"
  by (auto simp: same_clients_def cla_ok_def)

lemma same_clients_inv: "same_clients c c' \<Longrightarrow> cla_inv base st c \<Longrightarrow> cla_inv base st c'"
  using same_clients_ok by (auto simp: cla_inv_def same_clients_def)

lemma same_clients_kept: "same_clients c c' \<Longrightarrow> kept c c'"
  by (simp add: same_clients_def kept_def clean_ok_def)

lemma same_clients_ready: "same_clients c c' \<Longrightarrow> ready c' = ready c"
  by (simp add: same_clients_def ready_def)

lemma same_clients_trans: "same_clients a b \<Longrightarrow> same_clients b c \<Longrightarrow> same_clients a c"
  by (simp add: same_clients_def)

lemma start_request_same: "start_request c r = Some c' \<Longrightarrow> same_clients c c'"
  by (auto simp: start_request_def emit_def same_clients_def)

lemma ack_timer_same: "start_ack_timer c p = Some c' \<Longrightarrow> same_clients c c'"
  by (auto simp: start_ack_timer_def same_clients_def bind_Some_iff Let_def split: if_splits)

lemma cla_inv_enter:
  assumes "cla_ok base c" "same_clients c c'" "0 \<le> st" "st < ST_NUM"
    "num_waiting_cold_reset_ack c \<noteq> 0 \<longrightarrow> st = ST_ACK_WAITING_COLD"
    "num_waiting_shutdown_ack c \<noteq> 0 \<longrightarrow> st = ST_ACK_WAITING_SHTDWN"
  shows "cla_inv base st c'"
  using assms same_clients_ok [OF assms(2,1)] by (simp add: cla_inv_def same_clients_def)

lemma cli_events_distinct:
  assumes "mdm_cli_ok k"
  shows "MDM_SHUTDOWN k \<noteq> MDM_COLD_RESET k" "MDM_DOWN k \<noteq> MDM_COLD_RESET k" "MDM_DOWN k \<noteq> MDM_SHUTDOWN k"
    "MDM_UP k \<noteq> MDM_COLD_RESET k" "MDM_UP k \<noteq> MDM_SHUTDOWN k" "MDM_OOS k \<noteq> MDM_COLD_RESET k" "MDM_OOS k \<noteq> MDM_SHUTDOWN k"
    "MDM_DBG_INFO k \<noteq> MDM_COLD_RESET k" "MDM_DBG_INFO k \<noteq> MDM_SHUTDOWN k"
  using assms by (auto simp: mdm_cli_ok_def cli_events_def)

section \<open>The operations\<close>

text \<open>An operation started with no acknowledgement pending stays or moves within the invariant.\<close>

definition moves_to :: "int \<Rightarrow> int \<Rightarrow> crm_cli_abs \<Rightarrow> crm_cli_abs \<Rightarrow> bool" where
  "moves_to base s c c' \<longleftrightarrow> (s = -1 \<and> same_clients c c' \<or> cla_inv base s c') \<and> kept c c'"

lemma moves_same:
  assumes "cla_ok base c" "ready c" "same_clients c c'" "0 \<le> s" "s < ST_NUM"
  shows "moves_to base s c c'"
  using cla_inv_enter [OF assms(1,3-5)] assms(2) same_clients_kept [OF assms(3)]
  by (simp add: moves_to_def ready_def)

lemma shutdown_procedure_ok:
  assumes "start_shutdown_procedure c p = Some (s, c')" "cla_ok base c" "ready c" "mdm_cli_ok (cli p)"
  shows "moves_to base s c c'"
proof -
  note d = cli_events_distinct [OF assms(4)]
  obtain c1 where c1: "notify_all_simple p (MDM_SHUTDOWN (cli p)) c = Some c1"
    and x1: "Option.bind (if \<not> fake_modem_state c1 then notify_all_simple p (MDM_DOWN (cli p)) c1 else Some c1)
      (\<lambda>c. let c = c\<lparr>fake_modem_state := True, modem_state := MDM_STATE_OFF\<rparr>
        in if num_waiting_shutdown_ack c = 0
           then Option.bind (start_request c CtrlStop) (\<lambda>c. Some (ST_STOPPING, c))
           else Option.bind (start_ack_timer c p) (\<lambda>c. Some (ST_ACK_WAITING_SHTDWN, c))) = Some (s, c')"
    using assms(1) unfolding start_shutdown_procedure_def by (rule bind_Some_E)
  from x1 obtain c2 where c2: "(if \<not> fake_modem_state c1 then notify_all_simple p (MDM_DOWN (cli p)) c1 else Some c1) = Some c2"
    and r: "(let c = c2\<lparr>fake_modem_state := True, modem_state := MDM_STATE_OFF\<rparr>
        in if num_waiting_shutdown_ack c = 0
           then Option.bind (start_request c CtrlStop) (\<lambda>c. Some (ST_STOPPING, c))
           else Option.bind (start_ack_timer c p) (\<lambda>c. Some (ST_ACK_WAITING_SHTDWN, c))) = Some (s, c')"
    by (rule bind_Some_E)
  have n1: "notified base p (MDM_SHUTDOWN (cli p)) c c1"
    using notify_simple_ok [OF c1 assms(2)] assms(3) d by (auto simp: ready_def)
  have n2: "notified base p (MDM_DOWN (cli p)) c1 c2"
    using notify_simple_ok [of p "MDM_DOWN (cli p)" c1 c2 base] c2 n1 d notified_refl [of base c1]
    by (auto simp: notified_def split: if_splits)
  have "num_waiting_cold_reset_ack c2 \<le> 0" using n1 n2 d assms(3) by (auto simp: notified_def ready_def)
  then have z: "num_waiting_cold_reset_ack c2 = 0" "cla_ok base c2"
    using n2 cla_ok_nonneg [of base c2] by (auto simp: notified_def)
  let ?c = "c2\<lparr>fake_modem_state := True, modem_state := MDM_STATE_OFF\<rparr>"
  have s0: "same_clients c2 ?c" by (simp add: same_clients_def)
  have k: "kept c c2" using notified_kept n1 n2 kept_trans by blast
  have "same_clients ?c c'" "s = (if num_waiting_shutdown_ack c2 = 0 then ST_STOPPING else ST_ACK_WAITING_SHTDWN)"
    using r start_request_same ack_timer_same by (auto simp: Let_def bind_Some_iff split: if_splits)
  with same_clients_trans [OF s0] have x: "same_clients c2 c'" by blast
  have "cla_inv base s c'"
    by (rule cla_inv_enter [OF z(2) x]) (use z in \<open>simp_all add: \<open>s = _\<close>\<close>)
  with k same_clients_kept [OF x] kept_trans show ?thesis by (auto simp: moves_to_def)
qed

lemma restart_procedure_ok:
  assumes "start_restart_procedure c p = Some (s, c')" "cla_ok base c" "ready c" "mdm_cli_ok (cli p)"
  shows "moves_to base s c c'"
proof -
  note d = cli_events_distinct [OF assms(4)]
  obtain c1 where c1: "(if modem_state c \<noteq> MDM_STATE_BUSY
      then Option.bind (notify_all_simple p (MDM_DOWN (cli p)) c) (\<lambda>c. Option.bind (ASSERT (\<not> fake_modem_state c))
        (\<lambda>_. Some (c\<lparr>modem_state := MDM_STATE_BUSY, fake_modem_state := True\<rparr>))) else Some c) = Some c1"
    and x1: "Option.bind (notify_all_simple p (MDM_COLD_RESET (cli p)) c1) (\<lambda>c.
      if num_waiting_cold_reset_ack c = 0 then Option.bind (start_request c (restart_request c)) (\<lambda>c. Some (ST_STARTING, c))
      else Option.bind (start_ack_timer c p) (\<lambda>c. Some (ST_ACK_WAITING_COLD, c))) = Some (s, c')"
    using assms(1) unfolding start_restart_procedure_def by (rule bind_Some_E)
  from x1 obtain c2 where c2: "notify_all_simple p (MDM_COLD_RESET (cli p)) c1 = Some c2"
    and r: "(if num_waiting_cold_reset_ack c2 = 0 then Option.bind (start_request c2 (restart_request c2)) (\<lambda>c. Some (ST_STARTING, c))
      else Option.bind (start_ack_timer c2 p) (\<lambda>c. Some (ST_ACK_WAITING_COLD, c))) = Some (s, c')"
    by (rule bind_Some_E)
  have n1: "cla_ok base c1 \<and> ready c1 \<and> kept c c1"
  proof (cases "modem_state c = MDM_STATE_BUSY")
    case True
    with c1 assms(2,3) show ?thesis by (simp add: kept_refl)
  next
    case False
    then obtain c0 where c0: "notify_all_simple p (MDM_DOWN (cli p)) c = Some c0"
      "c1 = c0\<lparr>modem_state := MDM_STATE_BUSY, fake_modem_state := True\<rparr>"
      using c1 by (auto simp: bind_Some_iff)
    have n: "notified base p (MDM_DOWN (cli p)) c c0" using notify_simple_ok [OF c0(1) assms(2)] d by auto
    have "ready c0" using n assms(3) d cla_ok_nonneg [of base c0] by (auto simp: notified_def ready_def)
    moreover have "same_clients c0 c1" by (simp add: c0(2) same_clients_def)
    ultimately show ?thesis
      using n same_clients_ok same_clients_ready same_clients_kept notified_kept [OF n] kept_trans
      by (metis notified_def)
  qed
  have n2: "notified base p (MDM_COLD_RESET (cli p)) c1 c2"
    using notify_simple_ok [OF c2, of base] n1 d by (auto simp: ready_def)
  then have z: "num_waiting_shutdown_ack c2 = 0" "cla_ok base c2"
    using n1 cla_ok_nonneg [of base c2] by (auto simp: notified_def ready_def)
  have x: "same_clients c2 c'" "s = (if num_waiting_cold_reset_ack c2 = 0 then ST_STARTING else ST_ACK_WAITING_COLD)"
    using r start_request_same ack_timer_same by (auto simp: bind_Some_iff split: if_splits)
  have "cla_inv base s c'"
    by (rule cla_inv_enter [OF z(2) x(1)]) (use z in \<open>simp_all add: x(2)\<close>)
  with n1 notified_kept [OF n2] same_clients_kept [OF x(1)] kept_trans show ?thesis by (metis moves_to_def)
qed

lemma procedure_after:
  assumes "same_clients c c1" "cla_ok base c" "ready c" "moves_to base s c1 c'"
  shows "moves_to base s c c'"
  using assms same_clients_trans same_clients_kept kept_trans by (metis moves_to_def)

definition cla_op_ok :: "int \<Rightarrow> cla_op \<Rightarrow> bool" where
  "cla_op_ok base f \<longleftrightarrow> (\<forall>c p s c'. f c p = Some (s, c') \<longrightarrow> cla_ok base c \<longrightarrow> ready c \<longrightarrow> mdm_cli_ok (cli p) \<longrightarrow> moves_to base s c c')"

lemma request_ok:
  assumes "start_request c1 r = Some c'" "same_clients c c1" "cla_ok base c" "ready c" "0 \<le> s" "s < ST_NUM"
  shows "moves_to base s c c'"
  using moves_same [OF assms(3,4) same_clients_trans [OF assms(2) start_request_same [OF assms(1)]] assms(5,6)] .

lemma same_clients_refl: "same_clients c c" by (simp add: same_clients_def)

lemma op_cla_aborts: "cla_op_ok base assert" "cla_op_ok base failsafe"
  by (simp_all add: cla_op_ok_def assert_def failsafe_def)

lemma op_client_acquire: "cla_op_ok base client_acquire"
  by (auto simp: cla_op_ok_def client_acquire_def bind_Some_iff intro: request_ok [OF _ same_clients_refl])

lemma op_mdm_busy: "cla_op_ok base mdm_busy"
  unfolding cla_op_ok_def mdm_busy_def
proof (intro allI impI)
  fix c p s c'
  assume a: "start_restart_procedure (c\<lparr>restart_type := CTRL_MODEM_RESTART\<rparr>) p = Some (s, c')" "cla_ok base c" "ready c" "mdm_cli_ok (cli p)"
  have x: "same_clients c (c\<lparr>restart_type := CTRL_MODEM_RESTART\<rparr>)" by (simp add: same_clients_def)
  from restart_procedure_ok [OF a(1) same_clients_ok [OF x a(2)] _ a(4)] show "moves_to base s c c'"
    using procedure_after [OF x a(2,3)] same_clients_ready [OF x] a(3) by simp
qed

lemma op_check_pending_up: "cla_op_ok base check_pending_up"
  unfolding cla_op_ok_def check_pending_up_def
  using shutdown_procedure_ok restart_procedure_ok moves_same [OF _ _ same_clients_refl, of base _ ST_UP]
  by (auto simp: moves_to_def same_clients_refl kept_refl split: if_splits)

lemma op_check_pending_down: "cla_op_ok base check_pending_down"
  unfolding cla_op_ok_def
proof (intro allI impI)
  fix c p s c'
  assume a: "check_pending_down c p = Some (s, c')" "cla_ok base c" "ready c"
  have e: "same_clients c (emit (c\<lparr>request_in_progress := True\<rparr>) CtrlStart)" by (simp add: same_clients_def emit_def)
  from a(1) consider "s = -1" "c' = c" | "s = ST_STARTING" "c' = emit (c\<lparr>request_in_progress := True\<rparr>) CtrlStart" | "s = ST_OFF" "c' = c"
    by (auto simp: check_pending_down_def split: if_splits)
  then show "moves_to base s c c'"
    using moves_same [OF a(2,3) e, of ST_STARTING] moves_same [OF a(2,3) same_clients_refl, of ST_OFF]
    by cases (simp_all add: moves_to_def same_clients_refl kept_refl)
qed

lemma op_procedures: "cla_op_ok base client_release" "cla_op_ok base client_restart"
  using shutdown_procedure_ok restart_procedure_ok
  by (auto simp: cla_op_ok_def client_release_def client_restart_def)

lemma op_check_failure: "cla_op_ok base check_failure"
  by (auto simp: cla_op_ok_def check_failure_def moves_to_def same_clients_refl kept_refl)

lemma op_client_acked_cold: "cla_op_ok base client_acked_cold"
  unfolding cla_op_ok_def
proof (intro allI impI)
  fix c p s c'
  assume a: "client_acked_cold c p = Some (s, c')" "cla_ok base c" "ready c" "mdm_cli_ok (cli p)"
  let ?e = "emit (c\<lparr>request_in_progress := True\<rparr>) (CtrlRestart CTRL_MODEM_RESTART None)"
  have e: "same_clients c ?e" by (simp add: same_clients_def emit_def)
  consider "modem_state c = MDM_STATE_UNRESP" | "modem_state c \<noteq> MDM_STATE_UNRESP" "num_acquired c = 0"
    | "modem_state c \<noteq> MDM_STATE_UNRESP" "num_acquired c \<noteq> 0" "restart_type c \<noteq> 0"
    | "modem_state c \<noteq> MDM_STATE_UNRESP" "num_acquired c \<noteq> 0" "restart_type c = 0"
    by blast
  then show "moves_to base s c c'"
  proof cases
    case 1
    then show ?thesis using a(1) moves_same [OF a(2,3) same_clients_refl, of ST_OFF] by (simp add: client_acked_cold_def)
  next
    case 2
    then show ?thesis using a(1) shutdown_procedure_ok [OF _ a(2-4)] by (simp add: client_acked_cold_def)
  next
    case 3
    then show ?thesis using a(1) request_ok [OF _ same_clients_refl a(2,3), of "restart_request c" c' ST_STARTING]
      by (simp add: client_acked_cold_def bind_Some_iff)
  next
    case 4
    then show ?thesis using a(1) moves_same [OF a(2,3) e, of ST_STARTING] by (simp add: client_acked_cold_def)
  qed
qed

lemma op_client_acked_shtdwn: "cla_op_ok base client_acked_shtdwn"
  unfolding cla_op_ok_def
proof (intro allI impI)
  fix c p s c'
  assume a: "client_acked_shtdwn c p = Some (s, c')" "cla_ok base c" "ready c" "mdm_cli_ok (cli p)"
  let ?e = "c\<lparr>fake_modem_state := False, modem_state := real_modem_state c\<rparr>"
  have e: "same_clients c ?e" by (simp add: same_clients_def)
  consider "num_acquired c = 0" | "num_acquired c \<noteq> 0" "restart_type c \<noteq> 0"
    | "num_acquired c \<noteq> 0" "restart_type c = 0" "real_modem_state c = MDM_STATE_READY"
    | "num_acquired c \<noteq> 0" "restart_type c = 0" "real_modem_state c \<noteq> MDM_STATE_READY"
    by blast
  then show "moves_to base s c c'"
  proof cases
    case 2
    then show ?thesis using a(1) restart_procedure_ok [OF _ a(2-4)] by (simp add: client_acked_shtdwn_def)
  next
    case 4
    then show ?thesis using a(1) request_ok [OF _ e a(2,3), of "CtrlRestart CTRL_MODEM_RESTART None" c' ST_STARTING]
      by (auto simp: client_acked_shtdwn_def bind_Some_iff)
  qed (use a(1) request_ok [OF _ same_clients_refl a(2,3), of CtrlStop c' ST_STOPPING] in
      \<open>simp_all add: client_acked_shtdwn_def bind_Some_iff\<close>)
qed

lemmas cla_ops_ok = op_cla_aborts op_client_acquire op_mdm_busy op_check_pending_up op_check_pending_down
  op_procedures op_check_failure op_client_acked_cold op_client_acked_shtdwn

section \<open>The machine\<close>

lemma cla_shape: "length cla_rows = 10" "\<forall>r \<in> set cla_rows. length r = 7"
  by (simp_all add: cla_rows_def)

interpretation cla_table: fsm_table cla_fsm cla_rows 7 10
proof
  fix s :: int
  assume "0 \<le> s" "s < int 7"
  then show "\<exists>t. crm_fsm_ctx.get_state_txt cla_fsm s = Some t"
    by (auto simp: cla_fsm_def get_state_txt_def)
qed (simp_all add: cla_fsm_def cla_shape)

lemma int_cases_10:
  assumes "0 \<le> n" "n < (10::int)"
  shows "n \<in> {0, 1, 2, 3, 4, 5, 6, 7, 8, 9}"
  using assms unfolding insert_iff empty_iff by presburger

lemma int_range_7:
  assumes "0 \<le> n" "n < (7::int)"
  shows "n \<in> {0, 1, 2, 3, 4, 5, 6}"
  using assms unfolding insert_iff empty_iff by presburger

definition cla_cell_ok :: "int \<Rightarrow> int \<Rightarrow> int \<Rightarrow> (crm_cli_abs, cla_param) crm_fsm_ops \<Rightarrow> bool" where
  "cla_cell_ok base evt st cl \<longleftrightarrow>
     (case operation cl of
        None \<Rightarrow> force_new_state cl = -1 \<or> force_new_state cl = ST_OFF \<and> st \<notin> {ST_ACK_WAITING_COLD, ST_ACK_WAITING_SHTDWN}
      | Some f \<Rightarrow> force_new_state cl = -1 \<and> cla_op_ok base f \<and>
          (st \<notin> {ST_ACK_WAITING_COLD, ST_ACK_WAITING_SHTDWN} \<or> evt = EV_CLI_ACKED \<or> f = assert))"

lemma cla_cells:
  assumes "evt \<in> {0, 1, 2, 3, 4, 5, 6, 7, 8, 9}" "st \<in> {0, 1, 2, 3, 4, 5, 6}"
  shows "cla_cell_ok base evt st (cla_rows ! nat evt ! nat st)"
  using assms
  by (elim insertE emptyE; hypsubst) (simp_all add: cla_rows_def cla_cell_ok_def cla_ops_ok)

lemma cla_hooks:
  "crm_fsm_ctx.pre_op cla_fsm = None" "crm_fsm_ctx.state_trans cla_fsm = Some state_trans"
  "crm_fsm_ctx.failsafe cla_fsm = failsafe" "crm_fsm_ctx.get_state_txt cla_fsm = get_state_txt"
  "crm_fsm_ctx.get_event_txt cla_fsm = get_event_txt" "num_states cla_fsm = 7"
  by (simp_all add: cla_fsm_def)

lemma cla_notify_eq:
  assumes "0 \<le> st" "st < 7" "0 \<le> evt" "evt < 10"
  shows "notify_event cla_fsm st evt c p = do {
     get_event_txt evt;
     (s, err, c) \<leftarrow> run_operation cla_fsm (cla_rows ! nat evt ! nat st) st c p;
     let s = (if \<not> err \<and> -1 \<noteq> force_new_state (cla_rows ! nat evt ! nat st)
              then force_new_state (cla_rows ! nat evt ! nat st) else s);
     get_state_txt s;
     c \<leftarrow> (if st \<noteq> s then state_trans st s evt c p else Some c);
     check_state cla_fsm s;
     Some (s, c)
   }"
  using cla_table.notify_eq [of st evt c p] assms unfolding cla_hooks option.case by simp

lemma cla_notify:
  assumes "notify_event cla_fsm st evt c p = Some (st', c')" "cla_inv base st c"
    "evt = EV_CLI_ACKED \<longrightarrow> ready c" "mdm_cli_ok (cli p)"
  shows "cla_inv base st' c' \<and> kept c c'"
proof -
  have st: "0 \<le> st" "st < 7" using assms(2) by (auto simp: cla_inv_def)
  then have e: "0 \<le> evt" "evt < 10" "0 \<le> st'" "st' < 7" using cla_table.evt_range [OF assms(1)] by auto
  let ?cl = "cla_rows ! nat evt ! nat st"
  have cl: "cla_cell_ok base evt st ?cl" using cla_cells int_cases_10 [OF e(1,2)] int_range_7 [OF st] by blast
  have "st < int 7" using st by simp
  from assms(1) st(1) this obtain s err c1 where run: "run_operation cla_fsm ?cl st c p = Some (s, err, c1)"
    and s': "st' = (if \<not> err \<and> -1 \<noteq> force_new_state ?cl then force_new_state ?cl else s)"
    and t: "(if st \<noteq> st' then state_trans st st' evt c1 p else Some c1) = Some c'"
    by (rule cla_table.notify_cellE [unfolded cla_hooks option.case option.inject]) blast
  have c1: "c1 = c'" using t by (simp add: state_trans_def split: if_splits)
  note run = run [unfolded c1]
  have r: "st \<notin> {ST_ACK_WAITING_COLD, ST_ACK_WAITING_SHTDWN} \<Longrightarrow> ready c"
    using assms(2) by (auto simp: cla_inv_def ready_def)
  show ?thesis
  proof (cases "operation ?cl")
    case None
    then have "s = st" "\<not> err" "c' = c" using run by (auto simp: run_operation_def)
    show ?thesis
    proof (cases "force_new_state ?cl = -1")
      case True
      then have "st' = st" using s' \<open>s = st\<close> by simp
      with assms(2) \<open>c' = c\<close> show ?thesis by (simp add: kept_refl)
    next
      case False
      then have f: "force_new_state ?cl = ST_OFF" "st \<notin> {ST_ACK_WAITING_COLD, ST_ACK_WAITING_SHTDWN}"
        using cl None by (auto simp: cla_cell_ok_def)
      then have "st' = ST_OFF" using s' \<open>\<not> err\<close> by simp
      with r [OF f(2)] assms(2) \<open>c' = c\<close> show ?thesis by (simp add: cla_inv_def ready_def kept_refl)
    qed
  next
    case (Some f)
    then have f: "cla_op_ok base f" "force_new_state ?cl = -1" using cl by (auto simp: cla_cell_ok_def)
    obtain s2 c2 where o: "f c p = Some (s2, c2)"
      and q: "(if s2 = -1 then Some (st, False, c2)
        else if s2 \<le> -2 then (do { (s3, c3) \<leftarrow> failsafe c2 p; Some (s3, True, c3) })
        else Some (s2, False, c2)) = Some (s, err, c')"
      using run unfolding run_operation_def Some cla_hooks by (auto simp: bind_Some_iff)
    have "f \<noteq> assert" using o by (auto simp: assert_def)
    then have "ready c" using cl Some r assms(3) by (auto simp: cla_cell_ok_def)
    then have m: "moves_to base s2 c c2"
      using f(1) o assms(2,4) by (auto simp: cla_op_ok_def cla_inv_def)
    show ?thesis
    proof (cases "s2 = -1")
      case True
      then have "same_clients c c2 \<or> cla_inv base (-1) c2" using m by (auto simp: moves_to_def)
      then have "same_clients c c2" by (auto simp: cla_inv_def)
      with True q s' f(2) assms(2) m show ?thesis
        by (auto simp: moves_to_def same_clients_inv)
    next
      case False
      then have "cla_inv base s2 c2" "kept c c2" using m by (auto simp: moves_to_def)
      moreover from this have "\<not> s2 \<le> -2" by (auto simp: cla_inv_def)
      ultimately show ?thesis using False q s' f(2) by auto
    qed
  qed
qed

end
