(* ===== verification/Crm_Cla_Loop.thy ===== *)
theory Crm_Cla_Loop
  imports Crm_Cla_Props
begin

text \<open>
  The client abstraction, continued: the messages of Control and of the clients, the compaction of
  the client list, the loop of the thread, and the properties of the module.
\<close>

section \<open>Messages of Control\<close>

lemma map_modem_event:
  assumes "map_modem_state_to_cli_event k m = Some e"
  shows "e = MDM_DOWN k \<or> e = MDM_OOS k \<or> e = MDM_UP k"
  using assms by (auto simp: map_modem_state_to_cli_event_def split: if_splits)

lemma notified_inv:
  assumes "notified base p event c c'" "cla_inv base st c" "event \<noteq> MDM_COLD_RESET (cli p)" "event \<noteq> MDM_SHUTDOWN (cli p)"
  shows "cla_inv base st c' \<and> kept c c'"
proof -
  have "0 \<le> num_waiting_cold_reset_ack c'" "0 \<le> num_waiting_shutdown_ack c'"
    using assms(1) cla_ok_nonneg [of base c'] by (auto simp: notified_def)
  then show ?thesis using assms notified_kept [OF assms(1)] by (auto simp: notified_def cla_inv_def)
qed

lemma notify_all_inv:
  assumes "notify_cli_event_all p event ser c = Some c'" "cla_inv base st c"
    "event \<noteq> MDM_COLD_RESET (cli p)" "event \<noteq> MDM_SHUTDOWN (cli p)"
  shows "cla_inv base st c' \<and> kept c c'"
  using notified_inv [OF notify_all_ok [OF assms(1)] assms(2-4)] assms by (simp add: cla_inv_def)

lemma notify_simple_inv:
  assumes "notify_all_simple p event c = Some c'" "cla_inv base st c"
    "event \<noteq> MDM_COLD_RESET (cli p)" "event \<noteq> MDM_SHUTDOWN (cli p)"
  shows "cla_inv base st c' \<and> kept c c'"
  using notified_inv [OF notify_simple_ok [OF assms(1)] assms(2-4)] assms by (simp add: cla_inv_def)

lemma cla_notify_other:
  assumes "notify_event cla_fsm st evt c1 p = Some (st', c')" "cla_inv base st c1 \<and> kept c c1"
    "evt \<noteq> EV_CLI_ACKED" "mdm_cli_ok (cli p)"
  shows "cla_inv base st' c' \<and> kept c c'"
  using cla_notify [OF assms(1), of base] assms(2-4) kept_trans by blast

lemma operation_result_inv:
  assumes "handle_operation_result p payload (st, c) = Some (st', c')" "cla_inv base st c" "mdm_cli_ok (cli p)"
  shows "cla_inv base st' c' \<and> kept c c'"
proof -
  have s: "same_clients c (c\<lparr>request_in_progress := False\<rparr>)" by (simp add: same_clients_def)
  show ?thesis
    using assms(1) cla_notify_other [of st "if payload \<noteq> 0 then EV_FAILURE else EV_SUCCESS" "c\<lparr>request_in_progress := False\<rparr>" p st' c' base c]
      same_clients_inv [OF s assms(2)] same_clients_kept [OF s] assms(3)
    by (simp add: handle_operation_result_def del: if_split)
qed

lemma record_modem_state_same:
  assumes "record_modem_state m b0 c = Some (b, c')"
  shows "same_clients c c'"
  using assms
  by (auto simp: record_modem_state_def same_clients_def Let_def bind_Some_iff split: if_splits)

lemma modem_state_inv:
  assumes "handle_modem_state p payload (st, c) = Some (st', c')" "cla_inv base st c" "mdm_cli_ok (cli p)"
  shows "cla_inv base st' c' \<and> kept c c'"
proof -
  note d = cli_events_distinct [OF assms(3)]
  define m where "m = (if payload = MDM_STATE_PLATFORM_REBOOT then MDM_STATE_UNRESP else payload)"
  obtain b c1 where r1: "record_modem_state m (payload \<noteq> MDM_STATE_PLATFORM_REBOOT) c = Some (b, c1)"
    and r2: "(if \<not> b \<and> modem_state c1 \<noteq> m
      then Option.bind (map_modem_state_to_cli_event (cli p) m) (\<lambda>cli_evt.
        Option.bind (client_sees (cli p) (payload \<noteq> MDM_STATE_PLATFORM_REBOOT) cli_evt (modem_state c1)) (\<lambda>changed.
        Option.bind (if changed then notify_all_simple p cli_evt c1 else Some c1) (\<lambda>c.
        notify_event cla_fsm st (m - MDM_STATE_OFF + EV_MDM_OFF) (c\<lparr>modem_state := m\<rparr>) p)))
      else Some (st, c1)) = Some (st', c')"
    using assms(1) unfolding handle_modem_state_def m_def Let_def prod.case
    by (elim bind_Some_E) (auto split: prod.splits)
  have s: "same_clients c c1" using record_modem_state_same [OF r1] .
  have i: "cla_inv base st c1 \<and> kept c c1" using same_clients_inv [OF s assms(2)] same_clients_kept [OF s] by simp
  show ?thesis
  proof (cases "\<not> b \<and> modem_state c1 \<noteq> m")
    case False
    with r2 i show ?thesis by simp
  next
    case True
    then obtain e ch c2 where e: "map_modem_state_to_cli_event (cli p) m = Some e"
      and c2: "(if ch then notify_all_simple p e c1 else Some c1) = Some c2"
      and n: "notify_event cla_fsm st (m - MDM_STATE_OFF + EV_MDM_OFF) (c2\<lparr>modem_state := m\<rparr>) p = Some (st', c')"
      using r2 by (auto simp: bind_Some_iff simp del: if_split)
    have "e \<noteq> MDM_COLD_RESET (cli p)" "e \<noteq> MDM_SHUTDOWN (cli p)" using map_modem_event [OF e] d by auto
    then have "cla_inv base st c2 \<and> kept c1 c2"
      using notify_simple_inv [of p e c1 c2 base st] c2 i by (cases ch) (auto simp: kept_refl)
    moreover have s2: "same_clients c2 (c2\<lparr>modem_state := m\<rparr>)" by (simp add: same_clients_def)
    ultimately have "cla_inv base st (c2\<lparr>modem_state := m\<rparr>) \<and> kept c (c2\<lparr>modem_state := m\<rparr>)"
      using i same_clients_inv [OF s2] same_clients_kept [OF s2] kept_trans by blast
    moreover have "m - MDM_STATE_OFF + EV_MDM_OFF \<noteq> EV_CLI_ACKED"
      using e by (auto simp: map_modem_state_to_cli_event_def split: if_splits)
    ultimately show ?thesis using cla_notify_other [OF n] assms(3) by blast
  qed
qed

text \<open>A message of Control does not ask for an acknowledgement by itself: those events are sent by the
  procedures of the module only.\<close>

definition cla_msg_ok :: "mdm_cli \<Rightarrow> cla_msg \<Rightarrow> bool" where
  "cla_msg_ok k m \<longleftrightarrow> CLI_ABS_GET_MSG_TYPE (fst m) = CLI_ABS_MSG_NOTIFY_CLIENT \<longrightarrow>
     CLI_ABS_GET_MSG_PAYLOAD (fst m) \<noteq> MDM_COLD_RESET k \<and> CLI_ABS_GET_MSG_PAYLOAD (fst m) \<noteq> MDM_SHUTDOWN k"

lemma control_msg_inv:
  assumes "handle_control_msg p m (st, c) = Some (e, st', c')" "cla_inv base st c" "mdm_cli_ok (cli p)" "cla_msg_ok (cli p) m"
  shows "cla_inv base st' c' \<and> kept c c'"
proof -
  let ?t = "CLI_ABS_GET_MSG_TYPE (fst m)" and ?l = "CLI_ABS_GET_MSG_PAYLOAD (fst m)"
  consider "fst m = -1" | "fst m \<noteq> -1" "?t = CLI_ABS_MSG_NOTIFY_OPERATION_RESULT" | "fst m \<noteq> -1" "?t = CLI_ABS_MSG_NOTIFY_CLIENT"
    | "fst m \<noteq> -1" "?t = CLI_ABS_MSG_NOTIFY_MODEM_STATE"
    | "fst m \<noteq> -1" "?t \<notin> {CLI_ABS_MSG_NOTIFY_OPERATION_RESULT, CLI_ABS_MSG_NOTIFY_CLIENT, CLI_ABS_MSG_NOTIFY_MODEM_STATE}"
    by blast
  then show ?thesis
  proof cases
    case 2
    then have "handle_operation_result p ?l (st, c) = Some (st', c')"
      using assms(1) by (auto simp: handle_control_msg_def bind_Some_iff Let_def)
    then show ?thesis using operation_result_inv assms(2,3) by blast
  next
    case 3
    then obtain ser where "notify_cli_event_all p ?l (Some ser) c = Some c'" "st' = st"
      using assms(1) by (auto simp: handle_control_msg_def bind_Some_iff Let_def)
    then show ?thesis using notify_all_inv assms(2,4) 3 by (auto simp: cla_msg_ok_def)
  next
    case 4
    then have "handle_modem_state p ?l (st, c) = Some (st', c')"
      using assms(1) by (auto simp: handle_control_msg_def bind_Some_iff Let_def)
    then show ?thesis using modem_state_inv assms(2,3) by blast
  qed (use assms in \<open>auto simp: handle_control_msg_def kept_refl Let_def\<close>)
qed

lemma control_msgs_inv:
  assumes "control_msgs p ms (b, st, c) = Some (b', st', c')" "cla_inv base st c" "mdm_cli_ok (cli p)" "\<forall>m \<in> set ms. cla_msg_ok (cli p) m"
  shows "cla_inv base st' c' \<and> kept c c'"
  using assms
proof (induction ms arbitrary: b st c)
  case Nil
  then show ?case by (simp add: kept_refl)
next
  case (Cons m ms)
  then obtain e st1 c1 where m: "handle_control_msg p m (st, c) = Some (e, st1, c1)" and r: "control_msgs p ms (b \<or> e, st1, c1) = Some (b', st', c')"
    by (auto simp: bind_Some_iff)
  have i: "cla_inv base st1 c1 \<and> kept c c1" using control_msg_inv [OF m Cons.prems(2,3)] Cons.prems(4) by simp
  with Cons.IH [OF r] Cons.prems(3,4) kept_trans show ?case by auto
qed

section \<open>Messages of the clients\<close>

lemma cla_inv_shrink:
  assumes "cla_inv base st c" "cla_ok base c'"
    "num_waiting_cold_reset_ack c' \<le> num_waiting_cold_reset_ack c" "num_waiting_shutdown_ack c' \<le> num_waiting_shutdown_ack c"
  shows "cla_inv base st c'"
  using assms cla_ok_nonneg [OF assms(2)] by (auto simp: cla_inv_def)

lemma unregister_inv:
  assumes "handle_client_unregister c i = Some c'" "cla_inv base st c" "i < num_clients c"
  shows "cla_inv base st c' \<and> kept c c'"
  using unregister_ok [OF assms(1), of base] assms(2,3) cla_inv_shrink [OF assms(2), of c']
  by (auto simp: cla_inv_def kept_def calm_def)

text \<open>A client whose flags do not grow.\<close>

lemma set_client_inv:
  assumes "cla_inv base st c" "i < num_clients c" "\<not> registered v \<longrightarrow> no_flag v \<and> cl_events v = 0"
    and "clients c' = (clients c)[i := v]" "num_clients c' = num_clients c" "cl_fd c' = cl_fd c" "reject_requests c' = reject_requests c"
    and "to_clean c' = to_clean c" "\<not> bit (to_clean c) i \<or> no_flag v"
    and "num_waiting_cold_reset_ack c' = num_waiting_cold_reset_ack c - of_bool (waiting_cold_reset_ack (clients c ! i)) + of_bool (waiting_cold_reset_ack v)"
    and "num_waiting_shutdown_ack c' = num_waiting_shutdown_ack c - of_bool (waiting_shutdown_ack (clients c ! i)) + of_bool (waiting_shutdown_ack v)"
    and "num_acquired c' = num_acquired c - of_bool (acquired (clients c ! i)) + of_bool (acquired v)"
    and "reject_requests c \<and> num_acquired c = 0 \<longrightarrow> num_acquired c' = 0"
    and "waiting_cold_reset_ack v \<longrightarrow> waiting_cold_reset_ack (clients c ! i)" "waiting_shutdown_ack v \<longrightarrow> waiting_shutdown_ack (clients c ! i)"
  shows "cla_inv base st c' \<and> kept c c'"
proof -
  have "cla_ok base c" using assms(1) by (simp add: cla_inv_def)
  then have "cla_ok base c'" by (rule cla_ok_update) (fact assms)+
  moreover have "clean_ok c'" if "clean_ok c"
    using clean_ok_update [OF that assms(4,5,8)] assms(9) by blast
  ultimately show ?thesis
    using cla_inv_shrink [OF assms(1), of c'] assms(5,10,11,14,15) by (auto simp: kept_def)
qed

lemma client_no_flag: "cla_ok base c \<Longrightarrow> i < num_clients c \<Longrightarrow> \<not> registered (clients c ! i) \<Longrightarrow> no_flag (clients c ! i)"
  using present_nth [of i c] by (auto simp: cla_ok_def)

lemma register_inv:
  assumes "handle_register p i bitmap nm c = Some c'" "cla_inv base st c" "i < num_clients c" "mdm_cli_ok (cli p)"
  shows "cla_inv base st c' \<and> kept c c'"
proof (cases "registered (clients c ! i)")
  case True
  then show ?thesis
    using assms(1) unregister_inv [OF _ assms(2,3)]
    by (auto simp: handle_register_def bind_Some_iff dest!: array_get_SomeD)
next
  case False
  let ?v = "(clients c ! i)\<lparr>registered := True, cl_name := take (MDM_CLI_NAME_LEN (cli p) - 1) nm, cl_events := bitmap\<rparr>"
  let ?c = "set_client c i ?v"
  have f: "no_flag ?v" using client_no_flag [of base c i] False assms(2,3) by (simp add: cla_inv_def no_flag_def)
  have s: "cla_inv base st ?c \<and> kept c ?c"
    by (rule set_client_inv [OF assms(2,3), of ?v]) (use f in \<open>simp_all add: set_client_def no_flag_def\<close>)
  obtain cl where "array_get (clients c) (int i) = Some cl" "cl = clients c ! i"
    using assms(1) by (auto simp: handle_register_def bind_Some_iff dest: array_get_SomeD)
  then have r: "(if modem_state ?c \<noteq> MDM_STATE_UNKNOWN
      then Option.bind (map_modem_state_to_cli_event (cli p) (modem_state ?c)) (\<lambda>evt. notify_cli_event_single p i evt None ?c)
      else Some ?c) = Some c'"
    using assms(1) False by (simp add: handle_register_def Let_def del: One_nat_def split del: if_split)
  show ?thesis
  proof (cases "modem_state ?c = MDM_STATE_UNKNOWN")
    case True
    with r s show ?thesis by simp
  next
    case False
    then obtain e where e: "map_modem_state_to_cli_event (cli p) (modem_state ?c) = Some e"
      and n: "notify_cli_event_single p i e None ?c = Some c'"
      using r by (auto simp: bind_Some_iff)
    have ne: "e \<noteq> MDM_COLD_RESET (cli p)" "e \<noteq> MDM_SHUTDOWN (cli p)"
      using map_modem_event [OF e] cli_events_distinct [OF assms(4)] by auto
    have "notified base p e ?c c'"
      using single_ok [OF n, of base] s ne assms(3) by (auto simp: cla_inv_def fresh_for_def set_client_def)
    then show ?thesis using notified_inv [of base p e ?c c' st] s ne kept_trans by blast
  qed
qed


lemma cla_base: "cla_inv base st c \<Longrightarrow> cla_ok base c" by (simp add: cla_inv_def)

text \<open>A client that acquires, releases or acknowledges is not among those marked: \<open>handle_client_msg\<close>
  ignores their messages.\<close>

lemma acquire_inv:
  assumes "handle_acquire i c = Some c'" "cla_inv base st c" "i < num_clients c" "\<not> bit (to_clean c) i" "registered (clients c ! i)"
  shows "cla_inv base st c' \<and> kept c c'"
proof (cases "\<not> reject_requests c \<and> \<not> acquired (clients c ! i)")
  case True
  then have c': "c' = (set_client c i ((clients c ! i)\<lparr>acquired := True\<rparr>))\<lparr>num_acquired := num_acquired c + 1\<rparr>"
    using assms(1) by (auto simp: handle_acquire_def bind_Some_iff dest!: array_get_SomeD)
  show ?thesis
    by (rule set_client_inv [OF assms(2,3), of "(clients c ! i)\<lparr>acquired := True\<rparr>"])
      (use True assms(4,5) in \<open>simp_all add: c' set_client_def\<close>)
next
  case False
  then have "c' = c" using assms(1) by (auto simp: handle_acquire_def bind_Some_iff dest!: array_get_SomeD split: if_splits)
  with assms(2) show ?thesis by (simp add: kept_refl)
qed

lemma release_inv:
  assumes "handle_release i c = Some c'" "cla_inv base st c" "i < num_clients c" "\<not> bit (to_clean c) i" "registered (clients c ! i)"
  shows "cla_inv base st c' \<and> kept c c'"
proof (cases "\<not> reject_requests c \<and> acquired (clients c ! i)")
  case True
  then have c': "c' = (set_client c i ((clients c ! i)\<lparr>acquired := False\<rparr>))\<lparr>num_acquired := num_acquired c - 1\<rparr>"
    using assms(1) by (auto simp: handle_release_def bind_Some_iff Let_def dest!: array_get_SomeD)
  show ?thesis
    by (rule set_client_inv [OF assms(2,3), of "(clients c ! i)\<lparr>acquired := False\<rparr>"])
      (use True assms(4,5) in \<open>simp_all add: c' set_client_def\<close>)
next
  case False
  then have "c' = c" using assms(1) by (auto simp: handle_release_def bind_Some_iff dest!: array_get_SomeD split: if_splits)
  with assms(2) show ?thesis by (simp add: kept_refl)
qed

lemma ack_cold_inv:
  assumes "handle_ack_cold i c = Some c'" "cla_inv base st c" "i < num_clients c" "\<not> bit (to_clean c) i" "registered (clients c ! i)"
  shows "cla_inv base st c' \<and> kept c c'"
proof (cases "waiting_cold_reset_ack (clients c ! i)")
  case True
  then have c': "c' = (set_client c i ((clients c ! i)\<lparr>waiting_cold_reset_ack := False\<rparr>))
      \<lparr>num_waiting_cold_reset_ack := num_waiting_cold_reset_ack c - 1\<rparr>"
    using assms(1) by (auto simp: handle_ack_cold_def bind_Some_iff Let_def dest!: array_get_SomeD)
  show ?thesis
    by (rule set_client_inv [OF assms(2,3), of "(clients c ! i)\<lparr>waiting_cold_reset_ack := False\<rparr>"])
      (use True assms(4,5) in \<open>simp_all add: c' set_client_def\<close>)
next
  case False
  then have "c' = c" using assms(1) by (auto simp: handle_ack_cold_def bind_Some_iff dest!: array_get_SomeD split: if_splits)
  with assms(2) show ?thesis by (simp add: kept_refl)
qed

lemma ack_shutdown_inv:
  assumes "handle_ack_shutdown i c = Some c'" "cla_inv base st c" "i < num_clients c" "\<not> bit (to_clean c) i" "registered (clients c ! i)"
  shows "cla_inv base st c' \<and> kept c c'"
proof (cases "waiting_shutdown_ack (clients c ! i)")
  case True
  then have c': "c' = (set_client c i ((clients c ! i)\<lparr>waiting_shutdown_ack := False\<rparr>))
      \<lparr>num_waiting_shutdown_ack := num_waiting_shutdown_ack c - 1\<rparr>"
    using assms(1) by (auto simp: handle_ack_shutdown_def bind_Some_iff Let_def dest!: array_get_SomeD)
  show ?thesis
    by (rule set_client_inv [OF assms(2,3), of "(clients c ! i)\<lparr>waiting_shutdown_ack := False\<rparr>"])
      (use True assms(4,5) in \<open>simp_all add: c' set_client_def\<close>)
next
  case False
  then have "c' = c" using assms(1) by (auto simp: handle_ack_shutdown_def bind_Some_iff dest!: array_get_SomeD split: if_splits)
  with assms(2) show ?thesis by (simp add: kept_refl)
qed

lemma restart_inv:
  assumes "handle_restart p rc dbg (st, c) = Some (st', c')" "cla_inv base st c" "mdm_cli_ok (cli p)"
  shows "cla_inv base st' c' \<and> kept c c'"
proof (cases "restart_type c \<noteq> 0 \<or> real_modem_state c \<noteq> MDM_STATE_READY \<or> reject_requests c")
  case True
  then have "st' = st \<and> c' = c" using assms(1) by (auto simp: handle_restart_def bind_Some_iff Let_def)
  with assms(2) show ?thesis by (simp add: kept_refl)
next
  case False
  then obtain ty c1 where c1: "copy_debug (cli p) dbg (c\<lparr>restart_type := ty\<rparr>) = Some c1"
    and n: "notify_event cla_fsm st EV_CLI_RESTART c1 p = Some (st', c')"
    using assms(1) by (auto simp: handle_restart_def bind_Some_iff Let_def)
  have s: "same_clients c c1"
    using c1 by (auto simp: copy_debug_def same_clients_def Let_def split: option.splits if_splits)
  from cla_notify_other [OF n, of base c] show ?thesis
    using same_clients_inv [OF s assms(2)] same_clients_kept [OF s] assms(3) by simp
qed

lemma notify_dbg_inv:
  assumes "handle_notify_dbg p dbg c = Some c'" "cla_inv base st c" "mdm_cli_ok (cli p)"
  shows "cla_inv base st c' \<and> kept c c'"
  using assms(1) notify_all_inv [OF _ assms(2)] cli_events_distinct [OF assms(3)]
  by (auto simp: handle_notify_dbg_def bind_Some_iff)

lemma nvm_backup_inv:
  assumes "notify_event cla_fsm st EV_CLI_RESTART (c\<lparr>restart_type := t\<rparr>) p = Some (st', c')" "cla_inv base st c" "mdm_cli_ok (cli p)"
  shows "cla_inv base st' c' \<and> kept c c'"
proof -
  have s: "same_clients c (c\<lparr>restart_type := t\<rparr>)" by (simp add: same_clients_def)
  from cla_notify_other [OF assms(1), of base c] show ?thesis
    using same_clients_inv [OF s assms(2)] same_clients_kept [OF s] assms(3) by simp
qed

lemma shutdown_request_inv:
  assumes "cla_inv base st c"
  shows "cla_inv base st (c\<lparr>reject_requests := True, num_acquired := 0\<rparr>) \<and> kept c (c\<lparr>reject_requests := True, num_acquired := 0\<rparr>)"
  using assms by (simp add: cla_inv_def cla_ok_def kept_def clean_ok_def)


lemma map_Pair_Some: "map_option (Pair st) x = Some (st', c') \<longleftrightarrow> st' = st \<and> x = Some c'"
  by (cases x) auto

lemmas client_msg_invs = register_inv acquire_inv release_inv ack_cold_inv ack_shutdown_inv restart_inv notify_dbg_inv
  nvm_backup_inv shutdown_request_inv

lemma dispatch_inv:
  assumes "dispatch_client_msg p i m (st, c) = Some (st', c')" "cla_inv base st c" "i < num_clients c" "\<not> bit (to_clean c) i"
    "msg_id m = CRM_REQ_REGISTER (cli p) \<or> msg_id m = CRM_REQ_REGISTER_DBG (cli p) \<or> registered (clients c ! i)" "mdm_cli_ok (cli p)"
  shows "cla_inv base st' c' \<and> kept c c'"
proof (cases "msg_id m = CRM_REQ_REGISTER (cli p) \<or> msg_id m = CRM_REQ_REGISTER_DBG (cli p)")
  case True
  then obtain b nm where "handle_register p i b nm c = Some c'" "st' = st"
    using assms(1) by (auto simp: dispatch_client_msg_def Let_def map_Pair_Some split: wire_body.splits)
  then show ?thesis using register_inv [OF _ assms(2,3,6)] by blast
next
  case False
  with assms(5) have r: "registered (clients c ! i)" by blast
  show ?thesis
    using assms(1) False unfolding dispatch_client_msg_def Let_def fst_conv snd_conv
    using acquire_inv [OF _ assms(2-4) r] release_inv [OF _ assms(2-4) r] ack_cold_inv [OF _ assms(2-4) r]
      ack_shutdown_inv [OF _ assms(2-4) r] restart_inv [OF _ assms(2,6)] notify_dbg_inv [OF _ assms(2,6)]
      nvm_backup_inv [OF _ assms(2,6)] shutdown_request_inv [OF assms(2)] assms(2) kept_refl
    by (auto simp: map_Pair_Some split: if_split_asm wire_body.splits)
qed

lemma client_msg_inv:
  assumes "handle_client_msg p i m (st, c) = Some (st', c')" "cla_inv base st c" "i < num_clients c" "mdm_cli_ok (cli p)"
  shows "cla_inv base st' c' \<and> kept c c'"
proof -
  let ?reg = "msg_id m = CRM_REQ_REGISTER (cli p) \<or> msg_id m = CRM_REQ_REGISTER_DBG (cli p)"
  consider "st' = st" "c' = c" | "st' = st" "handle_client_unregister c i = Some c'"
    | "dispatch_client_msg p i m (st, c) = Some (st', c')" "\<not> bit (to_clean c) i" "?reg \<or> registered (clients c ! i)"
    using assms(1) unfolding handle_client_msg_def
    by (auto simp: bind_Some_iff Let_def map_Pair_Some dest!: bit_at_SomeD array_get_SomeD split: if_split_asm)
  then show ?thesis
  proof cases
    case 1
    with assms(2) show ?thesis by (simp add: kept_refl)
  next
    case 2
    with unregister_inv [OF 2(2) assms(2,3)] show ?thesis by simp
  next
    case 3
    from dispatch_inv [OF 3(1) assms(2,3) 3(2) _ assms(4)] 3(3) show ?thesis by blast
  qed
qed


section \<open>The slots of an iteration\<close>

lemma accept_inv:
  assumes "accept_client sock c = Some c'" "cla_inv base st c"
  shows "cla_inv base st c' \<and> kept c c'"
proof (cases "sock \<ge> 0")
  case False
  with assms show ?thesis by (simp add: accept_client_def kept_refl)
next
  case True
  let ?n = "num_clients c"
  have l: "length (clients c) = 16" "length (cl_fd c) = 16" using assms(2) by (simp_all add: cla_inv_def cla_ok_def)
  have n: "?n < 16" and c': "c' = c\<lparr>cl_fd := (cl_fd c)[?n := sock], clients := (clients c)[?n := zero_client], num_clients := ?n + 1\<rparr>"
    using assms(1) True l by (auto simp: accept_client_def bind_Some_iff array_set_def split: if_splits)
  have p: "present c' = present c @ [zero_client]"
    using n l by (simp add: c' take_Suc_conv_app_nth)
  have "cla_ok base c'"
    using assms(2) n unfolding cla_inv_def cla_ok_def p by (simp add: c' zero_client_def no_flag_def)
  moreover have "clean_ok c \<longrightarrow> clean_ok c'"
    using n l by (auto simp: clean_ok_def c' less_Suc_eq nth_list_update zero_client_def no_flag_def)
  ultimately show ?thesis using assms(2) by (auto simp: cla_inv_def kept_def c')
qed

definition slot_ok :: "mdm_cli \<Rightarrow> cla_slot \<Rightarrow> bool" where
  "slot_ok k sl \<longleftrightarrow> (case sl of SlotIpc ms \<Rightarrow> \<forall>m \<in> set ms. cla_msg_ok k m | _ \<Rightarrow> True)"

lemma handle_slot_inv:
  assumes "handle_slot p i sl (r, st, c) = Some (r', st', c')" "cla_inv base st c" "i < num_clients c + 2" "mdm_cli_ok (cli p)"
    "slot_ok (cli p) sl"
  shows "cla_inv base st' c' \<and> kept c c'"
proof (cases sl)
  case SlotNone
  with assms(1,2) show ?thesis by (simp add: handle_slot_def kept_refl)
next
  case SlotError
  with assms(1) have "i \<ge> 2" "st' = st" "c' = c \<or> handle_client_unregister c (i - 2) = Some c'"
    by (auto simp: handle_slot_def bind_Some_iff split: if_splits)
  with unregister_inv [of c "i - 2" c' base st] assms(2,3) show ?thesis by (auto simp: kept_refl)
next
  case (SlotIpc ms)
  with assms(1) obtain b where "control_msgs p ms (False, st, c) = Some (b, st', c')"
    by (auto simp: handle_slot_def bind_Some_iff split: if_splits)
  from control_msgs_inv [OF this assms(2,4)] SlotIpc assms(5) show ?thesis by (simp add: slot_ok_def)
next
  case (SlotAccept sock)
  with assms(1) have "st' = st" "accept_client sock c = Some c'"
    by (auto simp: handle_slot_def bind_Some_iff split: if_splits)
  with accept_inv assms(2) show ?thesis by blast
next
  case (SlotClient m)
  then have i: "i \<ge> 2" using assms(1) by (auto simp: handle_slot_def split: if_splits)
  show ?thesis
  proof (cases m)
    case None
    with SlotClient assms(1) have "st' = st" "c' = c \<or> handle_client_unregister c (i - 2) = Some c'"
      by (auto simp: handle_slot_def bind_Some_iff split: if_splits)
    with unregister_inv [of c "i - 2" c' base st] assms(2,3) i show ?thesis by (auto simp: kept_refl)
  next
    case (Some x)
    with SlotClient assms(1) have "handle_client_msg p (i - 2) x (st, c) = Some (st', c')"
      by (auto simp: handle_slot_def bind_Some_iff split: if_splits)
    from client_msg_inv [OF this assms(2) _ assms(4)] assms(3) i show ?thesis by simp
  qed
qed

lemma slot_event_inv:
  assumes "slot_event a w c = Some (evt, c')" "cla_inv base st c"
  shows "cla_inv base st c' \<and> kept c c' \<and> (evt = EV_CLI_ACKED \<longrightarrow> ready c')"
proof -
  have "same_clients c c'" "evt = EV_CLI_ACKED \<longrightarrow> ready c"
    using assms(1) by (auto simp: slot_event_def Let_def same_clients_def waiting_ack_def ready_def split: if_splits)
  then show ?thesis using same_clients_inv [OF _ assms(2)] same_clients_kept same_clients_ready by blast
qed

lemma process_slot_inv:
  assumes "process_slot p (i, sl) (r, st, c) = Some (r', st', c')" "cla_inv base st c" "i < num_clients c + 2" "mdm_cli_ok (cli p)"
    "slot_ok (cli p) sl"
  shows "cla_inv base st' c' \<and> kept c c'"
proof -
  obtain r1 st1 c1 evt c2 where s1: "handle_slot p i sl (r, st, c) = Some (r1, st1, c1)"
    and s2: "slot_event (num_acquired c \<noteq> 0) (waiting_ack c) c1 = Some (evt, c2)"
    and s3: "(if evt \<noteq> EV_NONE then Option.bind (notify_event cla_fsm st1 evt c2 p) (\<lambda>(st, c). Some (r1, st, c))
      else Some (r1, st1, c2)) = Some (r', st', c')"
    using assms(1) unfolding process_slot_def Let_def fst_conv snd_conv
    by (auto simp: bind_Some_iff simp del: if_split)
  note i1 = handle_slot_inv [OF s1 assms(2-5)]
  have i2: "cla_inv base st1 c2 \<and> kept c c2" "evt = EV_CLI_ACKED \<longrightarrow> ready c2"
    using slot_event_inv [OF s2, of base st1] i1 kept_trans by blast+
  show ?thesis
  proof (cases "evt = EV_NONE")
    case True
    with s3 i2 show ?thesis by simp
  next
    case False
    then have "notify_event cla_fsm st1 evt c2 p = Some (st', c')" using s3 by (auto simp: bind_Some_iff)
    from cla_notify [OF this _ i2(2) assms(4), of base] i2 kept_trans show ?thesis by blast
  qed
qed

lemma slots_inv:
  assumes "for_loop (process_slot p) (enumerate i slots) (r, st, c) = Some (r', st', c')" "cla_inv base st c"
    "i + length slots \<le> num_clients c + 2" "mdm_cli_ok (cli p)" "\<forall>sl \<in> set slots. slot_ok (cli p) sl"
  shows "cla_inv base st' c' \<and> kept c c'"
  using assms
proof (induction slots arbitrary: i r st c)
  case Nil
  then show ?case by (simp add: kept_refl)
next
  case (Cons sl slots)
  then obtain r1 st1 c1 where s: "process_slot p (i, sl) (r, st, c) = Some (r1, st1, c1)"
    and t: "for_loop (process_slot p) (enumerate (Suc i) slots) (r1, st1, c1) = Some (r', st', c')"
    by (auto simp: bind_Some_iff)
  have i: "cla_inv base st1 c1 \<and> kept c c1"
    using process_slot_inv [OF s Cons.prems(2)] Cons.prems(3-5) by simp
  then have "Suc i + length slots \<le> num_clients c1 + 2" using Cons.prems(3) by (simp add: kept_def)
  from Cons.IH [OF t _ this Cons.prems(4)] i Cons.prems(5) kept_trans show ?case by auto
qed


section \<open>The client list\<close>

lemma memmove_down_take:
  assumes "j < n" "n \<le> length xs"
  shows "take (n - 1) (memmove_down xs j n) = take j xs @ drop (j + 1) (take n xs)"
  using assms by (simp add: memmove_down_def drop_take)

lemma memmove_down_length [simp]: "j < n \<Longrightarrow> n \<le> length xs \<Longrightarrow> length (memmove_down xs j n) = length xs"
  by (simp add: memmove_down_def)

definition closed_up :: "'a list \<Rightarrow> nat \<Rightarrow> nat \<Rightarrow> 'a list" where
  "closed_up xs j n = (if j \<noteq> n - 1 then memmove_down xs j n else xs)"

lemma closed_up_take:
  assumes "take n xs = A @ b # B" "n \<le> length xs"
  shows "take (n - 1) (closed_up xs (length A) n) = A @ B" "length (closed_up xs (length A) n) = length xs"
proof -
  have n: "n = length A + Suc (length B)" using arg_cong [OF assms(1), of length] assms(2) by simp
  have t: "take (length A) xs = A"
    using arg_cong [OF assms(1), of "take (length A)"] n by (simp add: min_def)
  show "take (n - 1) (closed_up xs (length A) n) = A @ B"
  proof (cases "length A = n - 1")
    case True
    then show ?thesis using n t by (simp add: closed_up_def)
  next
    case False
    then show ?thesis
      using memmove_down_take [of "length A" n xs] n assms t by (simp add: closed_up_def)
  qed
  show "length (closed_up xs (length A) n) = length xs" using n assms(2) by (simp add: closed_up_def)
qed

lemma nths_shift: "nths (x # xs) {k. P (i + k)} = (if P i then [x] else []) @ nths xs {k. P (Suc i + k)}"
  by (simp add: nths_Cons)

lemmas nths_bits = nths_shift [where P = "bit w" for w] nths_shift [where P = "\<lambda>j. \<not> bit w j" for w]

text \<open>
  What the loop leaves of \<open>B\<close>, the clients from \<open>i\<close> on, after the clients \<open>A\<close> already kept; \<open>A'\<close> and
  \<open>B'\<close> are their sockets. The clients marked are gone and their sockets closed, the others are in order.
\<close>

definition cleaned ::
  "nat \<Rightarrow> crm_client list \<times> int list \<Rightarrow> crm_client list \<times> int list \<Rightarrow> crm_cli_abs \<Rightarrow> nat \<times> crm_cli_abs \<Rightarrow> bool" where
  "cleaned i A B c r \<longleftrightarrow> (let stay = {k. \<not> bit (to_clean c) (i + k)}; n' = fst r; c' = snd r in
     n' = length (fst A) + length (nths (fst B) stay) \<and>
     c' = c\<lparr>clients := clients c', cl_fd := cl_fd c', out := out c @ map Close (nths (snd B) {k. bit (to_clean c) (i + k)})\<rparr> \<and>
     length (clients c') = length (clients c) \<and> length (cl_fd c') = length (cl_fd c) \<and>
     take n' (clients c') = fst A @ nths (fst B) stay \<and> take n' (cl_fd c') = snd A @ nths (snd B) stay)"

lemma cleaned_kept:
  assumes "cleaned (Suc i) (A @ [b], A' @ [b']) (B, B') c r" "\<not> bit (to_clean c) i"
  shows "cleaned i (A, A') (b # B, b' # B') c r"
  using assms unfolding cleaned_def Let_def fst_conv snd_conv nths_bits by auto

lemma cleaned_dropped:
  assumes "cleaned (Suc i) (A, A') (B, B') (emit c (Close b')\<lparr>cl_fd := xs, clients := ys\<rparr>) r" "bit (to_clean c) i"
    "length xs = length (cl_fd c)" "length ys = length (clients c)"
  shows "cleaned i (A, A') (b # B, b' # B') c r"
  using assms unfolding cleaned_def Let_def fst_conv snd_conv nths_bits by (auto simp: emit_def)

lemma clean_loop_nths:
  assumes "take n (clients c) = A @ B" "take n (cl_fd c) = A' @ B'" "length A' = length A" "length B' = length B"
    "i + length B \<le> 32" "n \<le> length (clients c)" "n \<le> length (cl_fd c)"
  shows "\<exists>r. clean_loop [i..<i + length B] (length A) n c = Some r \<and> cleaned i (A, A') (B, B') c r"
  using assms
proof (induction B arbitrary: A A' B' i n c)
  case Nil
  have "n = length (take n (clients c))" using Nil.prems(6) by simp
  then have "n = length A" unfolding Nil.prems(1) by simp
  with Nil.prems show ?case by (simp add: cleaned_def)
next
  case (Cons b B)
  then obtain b' B2 where B': "B' = b' # B2" "length B2 = length B" by (cases B') auto
  have "n = length (take n (clients c))" using Cons.prems(6) by simp
  then have n: "n = length A + Suc (length B)" unfolding Cons.prems(1) by simp
  have i: "[i..<i + length (b # B)] = i # [Suc i..<Suc i + length B]" "i < 32" using Cons.prems(5) by (simp_all add: upt_rec)
  have "take n (cl_fd c) ! length A = b'" unfolding Cons.prems(2) B'(1) using Cons.prems(3) by (simp add: nth_append)
  then have fd: "array_get (cl_fd c) (int (length A)) = Some b'" using n Cons.prems(7) by (simp add: array_get_def)
  show ?case
  proof (cases "bit (to_clean c) i")
    case False
    have "\<exists>r. clean_loop [Suc i..<Suc i + length B] (length (A @ [b])) n c = Some r \<and> cleaned (Suc i) (A @ [b], A' @ [b']) (B, B2) c r"
      by (rule Cons.IH) (use Cons.prems B' in simp_all)
    then show ?thesis
      unfolding i(1) clean_loop.simps B'(1) using False i(2) cleaned_kept by (auto simp: bit_at_def)
  next
    case True
    let ?d = "(emit c (Close b'))\<lparr>cl_fd := closed_up (cl_fd c) (length A) n, clients := closed_up (clients c) (length A) n\<rparr>"
    have e: "clean_loop [i..<i + length (b # B)] (length A) n c = clean_loop [Suc i..<Suc i + length B] (length A) (n - 1) ?d"
      unfolding i(1) clean_loop.simps using True i(2) fd
      by (simp add: bit_at_def closed_up_def Let_def emit_def)
    note cu = closed_up_take [OF Cons.prems(1,6)] closed_up_take [OF Cons.prems(2) [unfolded B'(1)] Cons.prems(7), unfolded Cons.prems(3)]
    have "\<exists>r. clean_loop [Suc i..<Suc i + length B] (length A) (n - 1) ?d = Some r \<and> cleaned (Suc i) (A, A') (B, B2) ?d r"
      by (rule Cons.IH) (use Cons.prems B' cu n in simp_all)
    then show ?thesis unfolding e B'(1) using cleaned_dropped [OF _ True cu(4,2)] by blast
  qed
qed


definition stay :: "crm_cli_abs \<Rightarrow> nat set" where
  "stay c = {i. \<not> bit (to_clean c) i}"

lemma update_client_list_nths:
  assumes "length (clients c) = MAX_CLIENTS" "length (cl_fd c) = MAX_CLIENTS" "num_clients c \<le> MAX_CLIENTS"
  shows "\<exists>c'. update_client_list c = Some c' \<and>
    c' = c\<lparr>clients := clients c', cl_fd := cl_fd c', num_clients := num_clients c',
      out := out c @ map Close (nths (take (num_clients c) (cl_fd c)) (- stay c))\<rparr> \<and>
    length (clients c') = MAX_CLIENTS \<and> length (cl_fd c') = MAX_CLIENTS \<and>
    num_clients c' = length (nths (present c) (stay c)) \<and> present c' = nths (present c) (stay c) \<and>
    take (num_clients c') (cl_fd c') = nths (take (num_clients c) (cl_fd c)) (stay c)"
proof (cases "to_clean c = 0")
  case True
  have a: "nths xs {i. \<not> bit (0::32 word) i} = xs" "nths xs {i. bit (0::32 word) i} = []" for xs :: "'x list"
    by (simp_all add: nths_all)
  show ?thesis using True assms by (simp add: update_client_list_def stay_def Collect_neg_eq [symmetric] a nths_all)
next
  case False
  let ?n = "num_clients c"
  obtain r where r: "clean_loop [0..<0 + length (present c)] (length []) ?n c = Some r"
    "cleaned 0 ([], []) (present c, take ?n (cl_fd c)) c r"
    using clean_loop_nths [of ?n c "[]" "present c" "[]" "take ?n (cl_fd c)" 0] assms by auto
  have l: "length (present c) = ?n" using assms by simp
  then have "update_client_list c = Some ((snd r)\<lparr>num_clients := fst r\<rparr>)"
    using r(1) False by (simp add: update_client_list_def case_prod_beta)
  moreover have "snd r = c\<lparr>clients := clients (snd r), cl_fd := cl_fd (snd r),
      out := out c @ map Close (nths (take ?n (cl_fd c)) (- stay c))\<rparr>"
    using r(2) by (simp add: cleaned_def Let_def stay_def Collect_neg_eq [symmetric])
  note arg_cong [OF this, of "num_clients_update (\<lambda>_. fst r)"]
  ultimately show ?thesis
    using r(2) assms by (auto simp: cleaned_def Let_def stay_def)
qed


lemma filter_nths:
  assumes "\<forall>i < length xs. i \<notin> A \<longrightarrow> \<not> P (xs ! i)"
  shows "filter P (nths xs A) = filter P xs"
  using assms
proof (induction xs arbitrary: A)
  case Nil
  then show ?case by simp
next
  case (Cons x xs)
  have "\<forall>i < length xs. i \<notin> {j. Suc j \<in> A} \<longrightarrow> \<not> P (xs ! i)" using Cons.prems by force
  moreover have "0 \<notin> A \<longrightarrow> \<not> P x" using Cons.prems by force
  ultimately show ?case using Cons.IH by (simp add: nths_Cons)
qed

lemma length_nths_le: "length (nths xs A) \<le> length xs"
  unfolding nths_def by (simp add: order_trans [OF length_filter_le])

lemma update_client_list_inv:
  assumes "update_client_list c = Some c'" "cla_inv base st c" "clean_ok c"
  shows "cla_inv base st c'"
proof -
  have l: "length (clients c) = 16" "length (cl_fd c) = 16" "num_clients c \<le> 16" using assms(2) by (simp_all add: cla_inv_def cla_ok_def)
  have c': "c' = c\<lparr>clients := clients c', cl_fd := cl_fd c', num_clients := num_clients c',
      out := out c @ map Close (nths (take (num_clients c) (cl_fd c)) (- stay c))\<rparr>"
    "length (clients c') = 16" "length (cl_fd c') = 16" "num_clients c' = length (nths (present c) (stay c))"
    and p: "present c' = nths (present c) (stay c)"
    using update_client_list_nths [OF l] assms(1) by auto
  have f: "filter P (present c') = filter P (present c)" if "\<forall>cl. no_flag cl \<longrightarrow> \<not> P cl" for P
    unfolding p by (rule filter_nths) (use assms(3) l that in \<open>auto simp: clean_ok_def stay_def\<close>)
  note counts = f [of acquired] f [of waiting_cold_reset_ack] f [of waiting_shutdown_ack]
  have s: "num_waiting_cold_reset_ack c' = num_waiting_cold_reset_ack c" "num_waiting_shutdown_ack c' = num_waiting_shutdown_ack c"
    "num_acquired c' = num_acquired c" "reject_requests c' = reject_requests c"
    by (subst c'(1); simp)+
  have "num_clients c' \<le> 16" using length_nths_le [of "present c" "stay c"] l c'(4) by simp
  moreover have "set (present c') \<subseteq> set (present c)" unfolding p by (rule set_nths_subset)
  ultimately show ?thesis
    using assms(2) c'(2,3) counts unfolding cla_inv_def cla_ok_def s by (auto simp: no_flag_def)
qed


section \<open>The loop\<close>

lemma ack_timeout_ok:
  assumes "cla_inv base st c"
  shows "cla_inv base st (ack_timeout c) \<and> ready (ack_timeout c)"
proof -
  let ?f = "\<lambda>cl. cl\<lparr>waiting_cold_reset_ack := False, waiting_shutdown_ack := False\<rparr>"
  have p: "present (ack_timeout c) = map ?f (present c)"
    using assms by (simp add: ack_timeout_def cla_inv_def cla_ok_def)
  have "filter acquired (map ?f xs) = map ?f (filter acquired xs)" "filter waiting_cold_reset_ack (map ?f xs) = []"
    "filter waiting_shutdown_ack (map ?f xs) = []" for xs :: "crm_client list"
    by (simp_all add: filter_map comp_def)
  then have "cla_ok base (ack_timeout c)"
    using assms unfolding cla_inv_def cla_ok_def p by (auto simp: ack_timeout_def no_flag_def)
  with assms show ?thesis by (simp add: cla_inv_def ready_def ack_timeout_def)
qed

lemma timeout_inv:
  assumes "handle_timeout p idx (st, c) = Some (st', c')" "cla_inv base st c" "mdm_cli_ok (cli p)"
  shows "cla_inv base st' c'"
proof -
  define c0 where "c0 = (if and TIMEOUT_BOOT_IDX idx \<noteq> 0
    then c\<lparr>timer_boot_armed := crm_time_get_remain_ms (now p) (timer_boot_end c) > 0\<rparr> else c)"
  obtain st1 c1 where n: "(if and TIMEOUT_ACK_IDX idx \<noteq> 0 then notify_event cla_fsm st EV_CLI_ACKED (ack_timeout c0) p
      else Some (st, c0)) = Some (st1, c1)"
    and r: "(if \<not> timer_boot_armed c1 \<and> num_waiting_cold_reset_ack c1 = 0 \<and> num_waiting_shutdown_ack c1 = 0
       then Option.bind (release (wakelock c1) WAKELOCK_CLA) (\<lambda>w. Some (st1, c1\<lparr>wakelock := w\<rparr>)) else Some (st1, c1)) = Some (st', c')"
    using assms(1) unfolding handle_timeout_def Let_def prod.case c0_def [symmetric]
    by (auto simp: bind_Some_iff simp del: if_split)
  have "same_clients c c0" by (simp add: c0_def same_clients_def)
  then have i0: "cla_inv base st c0" using same_clients_inv assms(2) by blast
  have "cla_inv base st1 c1"
  proof (cases "and TIMEOUT_ACK_IDX idx = 0")
    case True
    with n i0 show ?thesis by simp
  next
    case False
    then have "notify_event cla_fsm st EV_CLI_ACKED (ack_timeout c0) p = Some (st1, c1)" using n by simp
    from cla_notify [OF this, of base] ack_timeout_ok [OF i0] assms(3) show ?thesis by blast
  qed
  moreover have "st' = st1 \<and> same_clients c1 c'"
    using r by (auto simp: same_clients_def bind_Some_iff split: if_splits)
  ultimately show ?thesis using same_clients_inv by blast
qed

text \<open>What the clients and Control may send in an iteration.\<close>

definition input_ok :: "cla_param \<Rightarrow> cla_slot list option \<Rightarrow> bool" where
  "input_ok p inp \<longleftrightarrow> mdm_cli_ok (cli p) \<and> (case inp of None \<Rightarrow> True | Some slots \<Rightarrow> \<forall>sl \<in> set slots. slot_ok (cli p) sl)"

lemma iter_inv:
  assumes "cla_iter t p inp (r, st, c) = Some (r', st', c')" "cla_inv base st c" "input_ok p inp"
  shows "cla_inv base st' c'"
proof -
  obtain tmo idx where t: "get_timeout t c = (tmo, idx)" by fastforce
  obtain held c0 where c0: "(if tmo = -1 \<and> held then Option.bind (release (wakelock c) WAKELOCK_CLA) (\<lambda>w. Some (c\<lparr>wakelock := w\<rparr>))
      else Some c) = Some c0"
    and r: "(case inp of
        None \<Rightarrow> Option.bind (handle_timeout p idx (st, c0)) (\<lambda>(st, c). Some (r, st, c))
      | Some slots \<Rightarrow> Option.bind (for_loop (process_slot p) (enumerate 0 (take (2 + num_clients c0) slots)) (r, st, c0\<lparr>to_clean := 0\<rparr>))
          (\<lambda>(r, st, c). Option.bind (update_client_list c) (\<lambda>c. Some (r, st, c)))) = Some (r', st', c')"
    using assms(1) unfolding cla_iter_def prod.case Let_def t
    by (elim bind_Some_E) blast
  have "same_clients c c0" using c0 by (auto simp: same_clients_def bind_Some_iff split: if_splits)
  then have i0: "cla_inv base st c0" using same_clients_inv assms(2) by blast
  show ?thesis
  proof (cases inp)
    case None
    then have "handle_timeout p idx (st, c0) = Some (st', c')" using r by (auto simp: bind_Some_iff)
    from timeout_inv [OF this i0] assms(3) show ?thesis by (simp add: input_ok_def)
  next
    case (Some slots)
    let ?c = "c0\<lparr>to_clean := 0\<rparr>"
    obtain c2 where l: "for_loop (process_slot p) (enumerate 0 (take (2 + num_clients c0) slots)) (r, st, ?c) = Some (r', st', c2)"
      and u: "update_client_list c2 = Some c'"
      using r Some by (auto simp: bind_Some_iff)
    have "cla_inv base st ?c" "clean_ok ?c" using i0 by (simp_all add: cla_inv_def cla_ok_def clean_ok_def)
    moreover have "\<forall>sl \<in> set (take (2 + num_clients c0) slots). slot_ok (cli p) sl"
      using assms(3) Some by (auto simp: input_ok_def dest: in_set_takeD)
    ultimately have "cla_inv base st' c2 \<and> clean_ok c2"
      using slots_inv [OF l, of base] assms(3) by (auto simp: input_ok_def kept_def)
    with update_client_list_inv [OF u] show ?thesis by blast
  qed
qed

lemma loop_inv:
  assumes "cla_loop is (r, st, c) = Some (r', st', c')" "cla_inv base st c" "\<forall>(t, p, inp) \<in> set is. input_ok p inp"
  shows "cla_inv base st' c'"
  using assms
proof (induction "is" arbitrary: r st c)
  case Nil
  then show ?case by simp
next
  case (Cons x "is")
  obtain t p inp where x: "x = (t, p, inp)" by (cases x)
  show ?case
  proof (cases r)
    case False
    with Cons.prems x show ?thesis by simp
  next
    case True
    then obtain r1 st1 c1 where i: "cla_iter t p inp (r, st, c) = Some (r1, st1, c1)"
      and l: "cla_loop is (r1, st1, c1) = Some (r', st', c')"
      using Cons.prems(1) x by (auto simp: bind_Some_iff)
    from iter_inv [OF i Cons.prems(2)] Cons.IH [OF l] Cons.prems(3) x show ?thesis by simp
  qed
qed

lemma init_inv: "cla_inv (if fmmo then 0 else 1) ST_INITIAL (crm_cli_abs_init sanity fmmo w dbg)"
  by (simp add: cla_inv_def cla_ok_def crm_cli_abs_init_def)


section \<open>The request of a restart\<close>

text \<open>The restart procedure, when it awaits no acknowledgement, ends with the request it was started for.\<close>

lemma calm_restart_request: "calm c c' \<Longrightarrow> restart_request c' = restart_request c"
  by (simp add: calm_def restart_request_def)

lemma restart_procedure_request:
  assumes "start_restart_procedure c p = Some (ST_STARTING, c')" "cla_ok base c" "ready c" "mdm_cli_ok (cli p)"
  shows "last (out c') = restart_request c"
proof -
  note d = cli_events_distinct [OF assms(4)]
  from assms(1) obtain c1 c2 where c1: "(if modem_state c \<noteq> MDM_STATE_BUSY
      then Option.bind (notify_all_simple p (MDM_DOWN (cli p)) c) (\<lambda>c. Option.bind (ASSERT (\<not> fake_modem_state c))
        (\<lambda>_. Some (c\<lparr>modem_state := MDM_STATE_BUSY, fake_modem_state := True\<rparr>))) else Some c) = Some c1"
    and c2: "notify_all_simple p (MDM_COLD_RESET (cli p)) c1 = Some c2"
    and r: "(if num_waiting_cold_reset_ack c2 = 0 then Option.bind (start_request c2 (restart_request c2)) (\<lambda>c. Some (ST_STARTING, c))
      else Option.bind (start_ack_timer c2 p) (\<lambda>c. Some (ST_ACK_WAITING_COLD, c))) = Some (ST_STARTING, c')"
    unfolding start_restart_procedure_def by (elim bind_Some_E) blast
  have n1: "cla_ok base c1 \<and> ready c1 \<and> restart_request c1 = restart_request c"
  proof (cases "modem_state c = MDM_STATE_BUSY")
    case True
    with c1 assms(2,3) show ?thesis by simp
  next
    case False
    then obtain c0 where c0: "notify_all_simple p (MDM_DOWN (cli p)) c = Some c0"
      "c1 = c0\<lparr>modem_state := MDM_STATE_BUSY, fake_modem_state := True\<rparr>"
      using c1 by (auto simp: bind_Some_iff)
    have n: "notified base p (MDM_DOWN (cli p)) c c0" using notify_simple_ok [OF c0(1) assms(2)] d by auto
    moreover have "ready c0" using n assms(3) d cla_ok_nonneg [of base c0] by (auto simp: notified_def ready_def)
    moreover have s: "same_clients c0 c1" by (simp add: c0(2) same_clients_def)
    moreover have "restart_request c1 = restart_request c0" by (simp add: c0(2) restart_request_def)
    ultimately show ?thesis
      using same_clients_ok [OF s, of base] same_clients_ready [OF s] calm_restart_request [of c c0] by (simp add: notified_def)
  qed
  have "calm c1 c2" using notify_simple_ok [OF c2, of base] n1 d by (auto simp: ready_def notified_def)
  moreover have "start_request c2 (restart_request c2) = Some c'"
    using r by (auto simp: bind_Some_iff split: if_splits)
  ultimately show ?thesis
    using n1 calm_restart_request by (auto simp: start_request_def emit_def)
qed

section \<open>A run\<close>

text \<open>
  A client connects, registers for the shutdown event and acquires; Control reports the modem off,
  then ready, and the success of the start; the client releases, is asked for its acknowledgement
  and gives it.
\<close>

definition cla_demo_param :: cla_param where
  "cla_demo_param = \<lparr>now = \<lparr>tv_sec = 5, tv_nsec = 0\<rparr>, send_fails = (\<lambda>_. False), cli = demo_cli\<rparr>"

definition cla_demo_req :: "int \<Rightarrow> cla_slot" where
  "cla_demo_req i = SlotClient (Some \<lparr>msg_id = i, msg = NoBody\<rparr>)"

definition cla_demo_slots :: "cla_slot list list" where
  "cla_demo_slots = [[SlotNone, SlotAccept 7],
     [SlotNone, SlotNone, SlotClient (Some \<lparr>msg_id = CRM_REQ_REGISTER demo_cli, msg = RegisterClient 32 [65]\<rparr>)],
     [SlotNone, SlotNone, cla_demo_req (CRM_REQ_ACQUIRE demo_cli)],
     [SlotIpc [(CLI_ABS_GEN_SCALAR CLI_ABS_MSG_NOTIFY_MODEM_STATE MDM_STATE_OFF, None)], SlotNone, SlotNone],
     [SlotIpc [(CLI_ABS_GEN_SCALAR CLI_ABS_MSG_NOTIFY_MODEM_STATE MDM_STATE_BUSY, None),
       (CLI_ABS_GEN_SCALAR CLI_ABS_MSG_NOTIFY_MODEM_STATE MDM_STATE_READY, None), notify_operation_result 0], SlotNone, SlotNone],
     [SlotNone, SlotNone, cla_demo_req (CRM_REQ_RELEASE demo_cli)]]"

definition cla_demo_inputs :: "(timespec \<times> cla_param \<times> cla_slot list option) list" where
  "cla_demo_inputs = map (\<lambda>s. (now cla_demo_param, cla_demo_param, Some s)) cla_demo_slots"

definition cla_demo_start :: "crm_cli_abs option" where
  "cla_demo_start = cla_start \<lparr>tv_sec = 1, tv_nsec = 0\<rparr> (crm_cli_abs_init False True (crm_wakelock_init (3, 4) 0) (mk_dbg 0 0 0 0 []))"


section \<open>Selections of a list\<close>

lemma nths_enumerate: "nths xs A = map snd (filter (\<lambda>(i, _). i \<in> A) (enumerate 0 xs))"
proof -
  have "zip xs [0..<length xs] = map (\<lambda>(i, x). (x, i)) (enumerate 0 xs)"
    using zip_commute [of xs "[0..<length xs]"] by (simp add: enumerate_eq_zip)
  then show ?thesis by (simp add: nths_def filter_map comp_def case_prod_unfold)
qed

lemma zip_nths: "length xs = length ys \<Longrightarrow> zip (nths xs A) (nths ys A) = nths (zip xs ys) A"
  by (induction xs ys arbitrary: A rule: list_induct2) (simp_all add: nths_Cons)

lemma length_nths_eq: "length xs = length ys \<Longrightarrow> length (nths xs A) = length (nths ys A)"
  by (simp add: length_nths)

section \<open>Properties\<close>


lemma cla_demo_ok: "\<forall>(t, p, inp) \<in> set cla_demo_inputs. input_ok p inp"
  using demo_cli_ok
  by (simp add: cla_demo_inputs_def cla_demo_slots_def cla_demo_param_def cla_demo_req_def input_ok_def slot_ok_def cla_msg_ok_def
      CLI_ABS_GEN_SCALAR_def CLI_ABS_GET_MSG_TYPE_def notify_operation_result_def)


text \<open>
  C24: forgetting the clients marked is filtering the list: whatever the marks, the loop that shifts
  the two arrays in place returns, leaves exactly the clients that are not marked, each with its own
  socket and in the order of their arrival, and closes exactly the sockets of the others.
\<close>

theorem update_client_list_is_filter:
  assumes "length (clients c) = MAX_CLIENTS" "length (cl_fd c) = MAX_CLIENTS" "num_clients c \<le> MAX_CLIENTS"
  defines "entries \<equiv> enumerate 0 (zip (take (num_clients c) (clients c)) (take (num_clients c) (cl_fd c)))"
  shows "\<exists>c'. update_client_list c = Some c' \<and>
    zip (take (num_clients c') (clients c')) (take (num_clients c') (cl_fd c')) = map snd (filter (\<lambda>(i, _). \<not> bit (to_clean c) i) entries) \<and>
    num_clients c' = length (filter (\<lambda>(i, _). \<not> bit (to_clean c) i) entries) \<and>
    out c' = out c @ map (\<lambda>(i, cl, fd). Close fd) (filter (\<lambda>(i, _). bit (to_clean c) i) entries)"
proof -
  let ?xs = "take (num_clients c) (clients c)" and ?ys = "take (num_clients c) (cl_fd c)"
  obtain c' where c': "update_client_list c = Some c'" "num_clients c' = length (nths ?xs (stay c))"
    "present c' = nths ?xs (stay c)" "take (num_clients c') (cl_fd c') = nths ?ys (stay c)"
    and "c' = c\<lparr>clients := clients c', cl_fd := cl_fd c', num_clients := num_clients c',
      out := out c @ map Close (nths ?ys (- stay c))\<rparr>"
    using update_client_list_nths [OF assms(1-3)] by blast
  then have o: "out c' = out c @ map Close (nths ?ys (- stay c))" by (metis crm_cli_abs.select_convs(21) crm_cli_abs.surjective crm_cli_abs.update_convs(21))
  have l: "length ?xs = length ?ys" using assms(1,2) by simp
  have e: "nths (zip ?xs ?ys) A = map snd (filter (\<lambda>(i, _). i \<in> A) entries)" for A
    by (simp add: nths_enumerate entries_def)
  have s: "nths ?ys A = map snd (nths (zip ?xs ?ys) A)" for A
    using l by (simp add: nths_map [symmetric])
  have "length (nths ?xs (stay c)) = length (nths (zip ?xs ?ys) (stay c))" using l by (intro length_nths_eq) simp
  moreover have "map Close (nths ?ys (- stay c)) = map (\<lambda>(i, cl, fd). Close fd) (filter (\<lambda>(i, _). bit (to_clean c) i) entries)"
    unfolding s e by (simp add: stay_def comp_def case_prod_beta)
  ultimately show ?thesis
    using c' o zip_nths [OF l, of "stay c"] unfolding e by (simp add: stay_def case_prod_beta)
qed

theorem update_client_list_is_filter_witness:
  "\<exists>c'. update_client_list ((crm_cli_abs_init False True (crm_wakelock_init (3, 4) 0) (mk_dbg 0 0 0 0 []))
       \<lparr>num_clients := 3, cl_fd := [10, 11, 12] @ replicate 13 0, to_clean := 5\<rparr>) = Some c' \<and>
     num_clients c' = 1 \<and> out c' = [Close 10, Close 12]"
proof -
  let ?c = "(crm_cli_abs_init False True (crm_wakelock_init (3, 4) 0) (mk_dbg 0 0 0 0 []))
       \<lparr>num_clients := 3, cl_fd := [10, 11, 12] @ replicate 13 0, to_clean := 5\<rparr>"
  have b: "bit (5::32 word) 0" "\<not> bit (5::32 word) 1" "bit (5::32 word) 2" by simp_all
  from update_client_list_is_filter [of ?c] b show ?thesis
    by (auto simp: crm_cli_abs_init_def numeral_3_eq_3)
qed


lemma cla_scalar:
  assumes "1 \<le> t" "t \<le> 3" "0 \<le> i" "i < 2 ^ 31"
  shows "CLI_ABS_GET_MSG_TYPE (CLI_ABS_GEN_SCALAR t i) = t" "CLI_ABS_GET_MSG_PAYLOAD (CLI_ABS_GEN_SCALAR t i) = i"
    "CLI_ABS_GEN_SCALAR t i \<noteq> -1"
proof -
  let ?s = "CLI_ABS_GEN_SCALAR t i"
  have t: "0 \<le> t" "t < 2 ^ 2" using assms(1,2) by simp_all
  have mask: "(0xFFFFFFFFFFFFFF :: 64 word) = mask 56" by (simp add: mask_eq_exp_minus_1)
  note bits = scalar_bits word_of_int_field [OF t] word_of_int_field [OF assms(3,4)]
  have "take_bit 8 (signed_drop_bit 56 ?s) = word_of_int t"
    unfolding CLI_ABS_GEN_SCALAR_def by (rule bit_word_eqI) (auto simp: bits simp del: take_bit_of_int)
  then show a: "CLI_ABS_GET_MSG_TYPE ?s = t"
    unfolding CLI_ABS_GET_MSG_TYPE_def and_field_masks using t by (simp add: uint_word_of_int_eq take_bit_int_eq_self)
  have "(ucast (take_bit 56 ?s) :: 32 word) = word_of_int i"
    unfolding CLI_ABS_GEN_SCALAR_def
    by (rule bit_word_eqI) (auto simp: bits bit_ucast_iff bit_word_of_int_iff simp del: take_bit_of_int)
  then show "CLI_ABS_GET_MSG_PAYLOAD ?s = i"
    unfolding CLI_ABS_GET_MSG_PAYLOAD_def mask take_bit_eq_mask [symmetric] using sint_word_of_int_32 [OF assms(3,4)] by simp
  show "?s \<noteq> -1" using a assms(1,2) by (auto simp: CLI_ABS_GET_MSG_TYPE_def)
qed


text \<open>
  What Control posts to the module is what the module handles: the scalar of each of the three
  kinds of messages is decoded to the handler of its kind with the value Control gave. A message
  for the clients carries the bytes the wire plugin made of it.
\<close>

theorem cla_control_msg_roundtrip:
  assumes "mdm_cli_ok (cli p)"
  shows "(\<forall>m. notify_modem_state mdm_state = Some m \<longrightarrow>
      handle_control_msg p m s = map_option (Pair False) (handle_modem_state p mdm_state s)) \<and>
    handle_control_msg p (notify_operation_result result) s =
      map_option (Pair False) (handle_operation_result p (if result = 0 then 0 else 1) s) \<and>
    (\<forall>m. notify_client (cli p) evt_id dbg = Some m \<longrightarrow>
      (\<exists>ser. serialize_msg (cli p) CRM_SERVER_TO_CLIENT \<lparr>msg_id = evt_id, msg = Debug dbg\<rparr> = Some ser \<and>
        handle_control_msg p m s = map_option (\<lambda>c. (False, fst s, c)) (notify_cli_event_all p evt_id (Some ser) (snd s))))"
proof (intro conjI allI impI)
  fix m
  assume m: "notify_modem_state mdm_state = Some m"
  then have "0 \<le> mdm_state" "mdm_state < 2 ^ 31" "m = (CLI_ABS_GEN_SCALAR CLI_ABS_MSG_NOTIFY_MODEM_STATE mdm_state, None)"
    using mdm_state_named [of mdm_state] by (auto simp: notify_modem_state_def bind_Some_iff)
  with cla_scalar [of CLI_ABS_MSG_NOTIFY_MODEM_STATE mdm_state]
  show "handle_control_msg p m s = map_option (Pair False) (handle_modem_state p mdm_state s)"
    by (simp add: handle_control_msg_def map_conv_bind_option comp_def)
next
  show "handle_control_msg p (notify_operation_result result) s =
      map_option (Pair False) (handle_operation_result p (if result = 0 then 0 else 1) s)"
    using cla_scalar [of CLI_ABS_MSG_NOTIFY_OPERATION_RESULT "if result = 0 then 0 else 1"]
    by (simp add: handle_control_msg_def notify_operation_result_def map_conv_bind_option comp_def)
next
  fix m
  assume "notify_client (cli p) evt_id dbg = Some m"
  then obtain ser t where m: "m = (CLI_ABS_GEN_SCALAR CLI_ABS_MSG_NOTIFY_CLIENT evt_id, Some ser)"
    and ser: "serialize_msg (cli p) CRM_SERVER_TO_CLIENT \<lparr>msg_id = evt_id, msg = Debug dbg\<rparr> = Some ser"
    and n: "crm_mdmcli_wire_req_to_string (cli p) evt_id = Some t"
    by (auto simp: notify_client_def bind_Some_iff)
  have "0 \<le> evt_id \<and> evt_id < 1009" using req_named [of "cli p" evt_id] n assms by (auto simp: mdm_cli_ok_def cli_events_def)
  with cla_scalar [of CLI_ABS_MSG_NOTIFY_CLIENT evt_id] m n ser
  show "\<exists>ser. serialize_msg (cli p) CRM_SERVER_TO_CLIENT \<lparr>msg_id = evt_id, msg = Debug dbg\<rparr> = Some ser \<and>
        handle_control_msg p m s = map_option (\<lambda>c. (False, fst s, c)) (notify_cli_event_all p evt_id (Some ser) (snd s))"
    by (simp add: handle_control_msg_def map_conv_bind_option comp_def)
qed

theorem cla_control_msg_roundtrip_witness:
  "\<exists>m. notify_modem_state MDM_STATE_OFF = Some m \<and>
     handle_control_msg cla_demo_param m (0, crm_cli_abs_init False True (crm_wakelock_init (3, 4) 0) (mk_dbg 0 0 0 0 [])) =
     map_option (Pair False) (handle_modem_state cla_demo_param MDM_STATE_OFF
       (0, crm_cli_abs_init False True (crm_wakelock_init (3, 4) 0) (mk_dbg 0 0 0 0 [])))"
proof -
  have "mdm_cli_ok (cli cla_demo_param)" by (simp add: cla_demo_param_def demo_cli_ok)
  moreover obtain m where "notify_modem_state MDM_STATE_OFF = Some m"
    by (simp add: notify_modem_state_def crm_cli_abs_mdm_state_to_string_def)
  ultimately show ?thesis using cla_control_msg_roundtrip [of cla_demo_param MDM_STATE_OFF] by blast
qed

text \<open>
  A client that holds the modem and asks for the shutdown of the platform makes CRM abort when it
  disconnects. The request zeroes the number of holders without clearing the flag of the client, so
  forgetting it brings the counter below zero and fails the assertion.
\<close>

theorem cla_disconnect_after_shutdown_aborts:
  assumes "mdm_cli_ok (cli p)" "i < length (clients c)" "i < 32" "\<not> bit (to_clean c) i"
    "registered (clients c ! i)" "acquired (clients c ! i)"
  shows "\<exists>c'. handle_client_msg p i \<lparr>msg_id = CRM_REQ_SHUTDOWN (cli p), msg = NoBody\<rparr> (st, c) = Some (st, c') \<and>
    handle_slot p (i + 2) SlotError (r, st, c') = None \<and> handle_slot p (i + 2) (SlotClient None) (r, st, c') = None"
proof -
  let ?c = "c\<lparr>reject_requests := True, num_acquired := 0\<rparr>"
  obtain t where t: "crm_mdmcli_wire_req_to_string (cli p) (CRM_REQ_SHUTDOWN (cli p)) = Some t"
    using req_named [of "cli p" "CRM_REQ_SHUTDOWN (cli p)"] by auto
  have "handle_client_unregister ?c i = None"
    using assms(2-6) by (simp add: handle_client_unregister_def array_get_def drop_eq)
  moreover have "handle_client_msg p i \<lparr>msg_id = CRM_REQ_SHUTDOWN (cli p), msg = NoBody\<rparr> (st, c) = Some (st, ?c)"
    using assms(2-5) t by (simp add: handle_client_msg_def dispatch_client_msg_def array_get_def Let_def)
  ultimately show ?thesis using assms(3,4) by (simp add: handle_slot_def bit_at_def)
qed

text \<open>The client of the run above, which disconnects after it asked for the shutdown.\<close>

definition cla_demo_holder :: crm_cli_abs where
  "cla_demo_holder = (crm_cli_abs_init False True (crm_wakelock_init (3, 4) 0) (mk_dbg 0 0 0 0 []))
     \<lparr>num_clients := 1, num_acquired := 1, clients := zero_client\<lparr>registered := True, acquired := True\<rparr> # replicate 15 zero_client\<rparr>"

theorem cla_disconnect_after_shutdown_aborts_witness:
  "\<exists>c'. handle_client_msg cla_demo_param 0 \<lparr>msg_id = CRM_REQ_SHUTDOWN (cli cla_demo_param), msg = NoBody\<rparr> (ST_UP, cla_demo_holder) =
      Some (ST_UP, c') \<and> handle_slot cla_demo_param 2 SlotError (True, ST_UP, c') = None"
  using cla_disconnect_after_shutdown_aborts [of cla_demo_param 0 cla_demo_holder ST_UP True] demo_cli_ok
  by (auto simp: cla_demo_holder_def cla_demo_param_def crm_cli_abs_init_def numeral_2_eq_2)

end
