(* ===== verification/Crm_Client_Props.thy ===== *)
theory Crm_Client_Props
  imports Crm_Client Crm_Cla_Loop
begin

text \<open>
  The properties of the client library, alone and with the client abstraction of CRM at the other end of
  its connection: what CRM knows of a client is what the client last asked for, also after CRM has been
  restarted; an event CRM sends has a callback; and a debug notification without data crashes the clients.
\<close>

section \<open>What is on the connection\<close>

text \<open>The messages delivered on the current connection.\<close>

fun on_connection :: "crm_mdmcli_wire_msg list \<Rightarrow> cli_io \<Rightarrow> crm_mdmcli_wire_msg list" where
  "on_connection ms (CliConnect fd) = []"
| "on_connection ms (CliClose fd) = []"
| "on_connection ms (CliSent fd m ok) = (if ok then ms @ [m] else ms)"
| "on_connection ms (CliCallback i x d) = ms"
| "on_connection ms (CliCall x r) = ms"

definition delivered :: "crm_mdm_cli_ctx \<Rightarrow> crm_mdmcli_wire_msg list" where
  "delivered c = foldl on_connection [] (cli_io c)"

text \<open>The hold of the modem the messages of a client ask for.\<close>

definition hold_after :: "mdm_cli \<Rightarrow> bool \<Rightarrow> crm_mdmcli_wire_msg list \<Rightarrow> bool" where
  "hold_after k = foldl (\<lambda>h m. if msg_id m = CRM_REQ_ACQUIRE k then True else if msg_id m = CRM_REQ_RELEASE k then False else h)"

text \<open>The hold the client last asked for: its last call to acquire or to release that was answered with success.\<close>

definition asks :: "bool \<Rightarrow> cli_io \<Rightarrow> bool" where
  "asks h x = (if x = CliCall Acquire 0 then True else if x = CliCall Release 0 then False else h)"

definition asked_hold :: "crm_mdm_cli_ctx \<Rightarrow> bool" where
  "asked_hold c = foldl asks False (cli_io c)"

definition is_register :: "mdm_cli \<Rightarrow> crm_mdmcli_wire_msg \<Rightarrow> bool" where
  "is_register k m \<longleftrightarrow> msg_id m = CRM_REQ_REGISTER k \<or> msg_id m = CRM_REQ_REGISTER_DBG k"

text \<open>
  A client without a connection has no socket. A client with one has sent its registration, once and
  first, and then what amounts to the hold it remembers.
\<close>

definition in_line :: "mdm_cli \<Rightarrow> crm_mdm_cli_ctx \<Rightarrow> bool" where
  "in_line k c \<longleftrightarrow> (\<exists>rest. delivered c = register_msg c # rest \<and> (\<forall>m \<in> set rest. \<not> is_register k m) \<and> hold_after k False rest = holds c)"

definition cli_inv :: "mdm_cli \<Rightarrow> crm_mdm_cli_ctx \<Rightarrow> bool" where
  "cli_inv k c \<longleftrightarrow> (if reconnecting c then sock_fd c < 0 else sock_fd c \<ge> 0 \<and> in_line k c)"

definition same_client :: "crm_mdm_cli_ctx \<Rightarrow> crm_mdm_cli_ctx \<Rightarrow> bool" where
  "same_client c c' \<longleftrightarrow> evts c' = evts c \<and> bitmap c' = bitmap c \<and> cname c' = cname c \<and> register_id c' = register_id c"

lemma same_client_refl [simp]: "same_client c c" by (simp add: same_client_def)

lemma same_client_trans: "same_client a b \<Longrightarrow> same_client b c \<Longrightarrow> same_client a c" by (simp add: same_client_def)

lemma delivered_emit: "delivered (cli_emit x c) = on_connection (delivered c) x"
  by (simp add: delivered_def cli_emit_def)

lemma delivered_fields [simp]:
  "delivered (c\<lparr>holds := h\<rparr>) = delivered c" "delivered (c\<lparr>sock_fd := n\<rparr>) = delivered c" "delivered (c\<lparr>reconnecting := b\<rparr>) = delivered c"
  "delivered (c\<lparr>disconnect := b\<rparr>) = delivered c"
  by (simp_all add: delivered_def)

lemma hold_after_snoc: "hold_after k h (ms @ [m]) =
    (if msg_id m = CRM_REQ_ACQUIRE k then True else if msg_id m = CRM_REQ_RELEASE k then False else hold_after k h ms)"
  by (simp add: hold_after_def)

lemma wire_send_eq:
  assumes "wire_send k env m c = Some (ok, c')"
  shows "c' = cli_emit (CliSent (sock_fd c) m ok) c" "sock_fd c \<ge> 0"
  using assms by (auto simp: wire_send_def bind_Some_iff Let_def)

lemma emit_fields [simp]:
  "evts (cli_emit x c) = evts c" "bitmap (cli_emit x c) = bitmap c" "cname (cli_emit x c) = cname c"
  "register_id (cli_emit x c) = register_id c" "sock_fd (cli_emit x c) = sock_fd c" "reconnecting (cli_emit x c) = reconnecting c"
  "holds (cli_emit x c) = holds c" "disconnect (cli_emit x c) = disconnect c"
  by (simp_all add: cli_emit_def)

text \<open>A message that is not a registration keeps the two ends in line when the hold follows it.\<close>

lemma in_line_sent:
  assumes "in_line k c" "\<not> is_register k m" "same_client c c'" "delivered c' = (if ok then delivered c @ [m] else delivered c)"
    and "holds c' = (if ok \<and> msg_id m = CRM_REQ_ACQUIRE k then True else if ok \<and> msg_id m = CRM_REQ_RELEASE k then False else holds c)"
  shows "in_line k c'"
proof -
  obtain rest where r: "delivered c = register_msg c # rest" "\<forall>m \<in> set rest. \<not> is_register k m" "hold_after k False rest = holds c"
    using assms(1) by (auto simp: in_line_def)
  have reg: "register_msg c' = register_msg c" using assms(3) by (simp add: same_client_def register_msg_def)
  show ?thesis
    unfolding in_line_def reg using r assms(2,4,5) by (intro exI [of _ "if ok then rest @ [m] else rest"]) (auto simp: hold_after_snoc)
qed

lemma sent_inv:
  assumes "wire_send k env m c = Some (ok, c1)" "cli_inv k c" "\<not> reconnecting c" "\<not> is_register k m"
    and "c' = c1\<lparr>holds := h\<rparr>"
    and "h = (if ok \<and> msg_id m = CRM_REQ_ACQUIRE k then True else if ok \<and> msg_id m = CRM_REQ_RELEASE k then False else holds c)"
  shows "cli_inv k c' \<and> same_client c c' \<and> reconnecting c' = reconnecting c"
proof -
  note w = wire_send_eq [OF assms(1)]
  have s: "same_client c c'" by (simp add: assms(5) w(1) same_client_def)
  have "delivered c' = (if ok then delivered c @ [m] else delivered c)"
    by (simp add: assms(5) w(1) delivered_emit)
  moreover have "in_line k c" using assms(2,3) by (simp add: cli_inv_def)
  ultimately have "in_line k c'"
    using in_line_sent [OF _ assms(4) s, of ok] assms(5,6) w(1) by simp
  then show ?thesis using s assms(3) w by (simp add: cli_inv_def assms(5))
qed

text \<open>The identifiers of the requests.\<close>

lemma not_register [simp]:
  "\<not> is_register k \<lparr>msg_id = CRM_REQ_ACQUIRE k, msg = b\<rparr>" "\<not> is_register k \<lparr>msg_id = CRM_REQ_RELEASE k, msg = b\<rparr>"
  "\<not> is_register k \<lparr>msg_id = CRM_REQ_RESTART k, msg = b\<rparr>" "\<not> is_register k \<lparr>msg_id = CRM_REQ_SHUTDOWN k, msg = b\<rparr>"
  "\<not> is_register k \<lparr>msg_id = CRM_REQ_NVM_BACKUP k, msg = b\<rparr>" "\<not> is_register k \<lparr>msg_id = CRM_REQ_ACK_COLD_RESET k, msg = b\<rparr>"
  "\<not> is_register k \<lparr>msg_id = CRM_REQ_ACK_SHUTDOWN k, msg = b\<rparr>" "\<not> is_register k \<lparr>msg_id = CRM_REQ_NOTIFY_DBG k, msg = b\<rparr>"
  by (simp_all add: is_register_def)

definition keeps :: "mdm_cli \<Rightarrow> crm_mdm_cli_ctx \<Rightarrow> crm_mdm_cli_ctx \<Rightarrow> bool" where
  "keeps k c c' \<longleftrightarrow> (cli_inv k c \<longrightarrow> cli_inv k c' \<and> same_client c c' \<and> reconnecting c' = reconnecting c)"

lemma keeps_refl [simp]: "keeps k c c" by (simp add: keeps_def)

lemma keeps_trans: "keeps k a b \<Longrightarrow> keeps k b c \<Longrightarrow> keeps k a c"
  by (auto simp: keeps_def intro: same_client_trans)

lemma keeps_sent:
  assumes "wire_send k env m c = Some (ok, c')" "\<not> reconnecting c" "\<not> is_register k m" "msg_id m \<noteq> CRM_REQ_ACQUIRE k" "msg_id m \<noteq> CRM_REQ_RELEASE k"
  shows "keeps k c c'"
  unfolding keeps_def
proof
  assume inv: "cli_inv k c"
  have e: "c'\<lparr>holds := holds c\<rparr> = c'" by (simp add: wire_send_eq(1) [OF assms(1)] cli_emit_def)
  from sent_inv [OF assms(1) inv assms(2,3) refl, of "holds c"] assms(4,5)
  show "cli_inv k c' \<and> same_client c c' \<and> reconnecting c' = reconnecting c" unfolding e by simp
qed

section \<open>The calls keep the two ends in line\<close>

lemma simple_keeps:
  assumes "mdm_cli_send_simple_msg k env i c = Some (r, c')" "i > CRM_REQ_RELEASE k"
  shows "keeps k c c'"
proof (cases "reconnecting c")
  case True
  then show ?thesis using assms(1) by (auto simp: mdm_cli_send_simple_msg_def bind_Some_iff)
next
  case False
  then obtain ok where "wire_send k env (simple i) c = Some (ok, c')"
    using assms(1) by (auto simp: mdm_cli_send_simple_msg_def bind_Some_iff)
  then show ?thesis using keeps_sent [OF _ False] assms(2) by (simp add: is_register_def)
qed

text \<open>The two calls that change the hold have the same shape.\<close>

definition hold_call :: "mdm_cli \<Rightarrow> cli_env \<Rightarrow> int \<Rightarrow> bool \<Rightarrow> crm_mdm_cli_ctx \<Rightarrow> (int \<times> crm_mdm_cli_ctx) option" where
  "hold_call k env i h c = do {
     crm_mdmcli_wire_req_to_string k i;
     (ok, c) \<leftarrow> (if reconnecting c then Some (True, c) else wire_send k env (simple i) c);
     Some (if ok then (0, c\<lparr>holds := h\<rparr>) else (-1, c))
   }"

lemma hold_calls:
  "mdm_cli_acquire k env c = hold_call k env (CRM_REQ_ACQUIRE k) True c"
  "mdm_cli_release k env c = hold_call k env (CRM_REQ_RELEASE k) False c"
  by (simp_all add: hold_call_def mdm_cli_acquire_def mdm_cli_release_def)

lemma hold_call_sends:
  assumes "hold_call k env i h c = Some (r, c')" "\<not> reconnecting c"
  shows "\<exists>ok c1. wire_send k env (simple i) c = Some (ok, c1) \<and> c' = (if ok then c1\<lparr>holds := h\<rparr> else c1)"
proof (cases "wire_send k env (simple i) c")
  case None
  then show ?thesis using assms by (simp add: hold_call_def bind_Some_iff)
next
  case (Some q)
  obtain ok c1 where q: "q = (ok, c1)" by fastforce
  have "(if ok then (0, c1\<lparr>holds := h\<rparr>) else (-1, c1)) = (r, c')" using assms by (simp add: hold_call_def bind_Some_iff Some q)
  then have "c' = (if ok then c1\<lparr>holds := h\<rparr> else c1)" by (cases ok) simp_all
  with Some q show ?thesis by blast
qed

lemma hold_call_keeps:
  assumes "hold_call k env i h c = Some (r, c')" "i = CRM_REQ_ACQUIRE k \<and> h \<or> i = CRM_REQ_RELEASE k \<and> \<not> h"
  shows "keeps k c c'"
proof (cases "reconnecting c")
  case True
  then have "(0, c\<lparr>holds := h\<rparr>) = (r, c')" using assms(1) by (simp add: hold_call_def bind_Some_iff)
  then have "c' = c\<lparr>holds := h\<rparr>" by simp
  then show ?thesis using True by (simp add: keeps_def cli_inv_def same_client_def)
next
  case False
  obtain ok c1 where w: "wire_send k env (simple i) c = Some (ok, c1)" and c': "c' = (if ok then c1\<lparr>holds := h\<rparr> else c1)"
    using hold_call_sends [OF assms(1) False] by blast
  have e: "c1\<lparr>holds := holds c\<rparr> = c1" by (simp add: wire_send_eq(1) [OF w] cli_emit_def)
  have i: "\<not> is_register k (simple i)" using assms(2) by auto
  show ?thesis
    unfolding keeps_def
  proof
    assume inv: "cli_inv k c"
    show "cli_inv k c' \<and> same_client c c' \<and> reconnecting c' = reconnecting c"
      using sent_inv [OF w inv False i refl, of "if ok then h else holds c"] assms(2) e by (cases ok) (auto simp: c')
  qed
qed

lemma body_call_keeps:
  assumes "mdm_cli_restart k env rc dbg c = Some (r, c') \<or> mdm_cli_notify_dbg k env dbg c = Some (r, c')"
  shows "keeps k c c'"
proof (cases "reconnecting c")
  case True
  then show ?thesis using assms by (auto simp: mdm_cli_restart_def mdm_cli_notify_dbg_def bind_Some_iff)
next
  case False
  then obtain ok i b where "wire_send k env \<lparr>msg_id = i, msg = b\<rparr> c = Some (ok, c')" "i > CRM_REQ_RELEASE k"
    using assms by (fastforce simp: mdm_cli_restart_def mdm_cli_notify_dbg_def bind_Some_iff)
  then show ?thesis using keeps_sent [OF _ False] by (simp add: is_register_def)
qed

lemma trace_emit: "keeps k c (cli_emit (CliCallback i x d) c)" "keeps k c (cli_emit (CliCall y r) c)"
  by (simp_all add: keeps_def cli_inv_def in_line_def same_client_def delivered_emit register_msg_def)

lemma call_op_keeps: "call_op k env x c = Some (r, c') \<Longrightarrow> keeps k c c'"
  by (cases x) (auto simp: call_op_def hold_calls mdm_cli_shutdown_def mdm_cli_nvm_bckup_def mdm_cli_ack_cold_reset_def mdm_cli_ack_shutdown_def
      intro: hold_call_keeps simple_keeps body_call_keeps)

lemma call_keeps: "cli_call k env x c = Some (r, c') \<Longrightarrow> keeps k c c'"
  using call_op_keeps trace_emit(2) keeps_trans by (fastforce simp: cli_call_def bind_Some_iff)

lemma calls_keep: "cli_calls k env xs c = Some c' \<Longrightarrow> keeps k c c'"
proof (induction xs arbitrary: c)
  case (Cons x xs)
  then obtain r c1 where "cli_call k env x c = Some (r, c1)" "cli_calls k env xs c1 = Some c'" by (auto simp: bind_Some_iff)
  with Cons.IH call_keeps keeps_trans show ?case by blast
qed simp

lemma callback_keeps:
  assumes "run_callback k env r d c = Some (ret, c')"
  shows "keeps k c c'"
proof -
  let ?c = "cli_emit (CliCallback (reg_id r) (reg_context r) d) c"
  have "keeps k c ?c" by (rule trace_emit)
  moreover have "cli_calls k env (callback_calls env (length (cli_io c))) ?c = Some c'"
    using assms by (auto simp: run_callback_def bind_Some_iff Let_def)
  ultimately show ?thesis using calls_keep keeps_trans by blast
qed

lemma fake_keeps: "fake_event k env i c = Some c' \<Longrightarrow> keeps k c c'"
  using callback_keeps by (fastforce simp: fake_event_def bind_Some_iff split: option.splits)

lemma event_split:
  assumes "handle_event k env m c = Some c'"
  obtains r ret c1 where "run_callback k env r (event_data k m) c = Some (ret, c1)"
    and "c' = c1 \<or> (\<exists>q. mdm_cli_send_simple_msg k env (CRM_REQ_ACK_COLD_RESET k) c1 = Some (q, c')) \<or>
      (\<exists>q. mdm_cli_send_simple_msg k env (CRM_REQ_ACK_SHUTDOWN k) c1 = Some (q, c'))"
  using assms by (auto simp: handle_event_def bind_Some_iff split: if_splits)

lemma event_keeps:
  assumes "handle_event k env m c = Some c'"
  shows "keeps k c c'"
proof -
  obtain r ret c1 where c1: "run_callback k env r (event_data k m) c = Some (ret, c1)"
    and c': "c' = c1 \<or> (\<exists>q. mdm_cli_send_simple_msg k env (CRM_REQ_ACK_COLD_RESET k) c1 = Some (q, c')) \<or>
      (\<exists>q. mdm_cli_send_simple_msg k env (CRM_REQ_ACK_SHUTDOWN k) c1 = Some (q, c'))"
    by (rule event_split [OF assms])
  have "keeps k c1 c'" using c' simple_keeps [of k env _ c1] by auto
  with callback_keeps [OF c1] show ?thesis using keeps_trans by blast
qed

section \<open>Connecting again\<close>

lemma reconnect_inv:
  assumes "reconnect k env c = Some c'" "cli_inv k c"
  shows "cli_inv k c' \<and> same_client c c'"
proof -
  let ?fd = "socket_connect env (length (cli_io c))"
  let ?c = "(cli_emit (CliConnect ?fd) c)\<lparr>sock_fd := ?fd\<rparr>"
  have r: "reconnecting c" using assms(1) by (simp add: reconnect_def bind_Some_iff)
  show ?thesis
  proof (cases "?fd \<ge> 0")
    case False
    then have "c' = ?c" using assms(1) r by (simp add: reconnect_def Let_def)
    then show ?thesis using False r by (simp add: cli_inv_def same_client_def)
  next
    case True
    obtain ok c1 ok' c2 where w: "wire_send k env (register_msg ?c) ?c = Some (ok, c1)"
      "(if ok \<and> holds c1 then wire_send k env (simple (CRM_REQ_ACQUIRE k)) c1 else Some (ok, c1)) = Some (ok', c2)"
      "c' = (if ok' then c2\<lparr>reconnecting := False\<rparr> else drop_connection c2)"
      using assms(1) True r by (auto simp: reconnect_def Let_def bind_Some_iff)
    note c1 = wire_send_eq(1) [OF w(1)]
    have c2: "c2 = (if ok \<and> holds c then cli_emit (CliSent ?fd (simple (CRM_REQ_ACQUIRE k)) ok') c1 else c1)" "\<not> ok \<longrightarrow> \<not> ok'"
      "ok \<and> \<not> holds c \<longrightarrow> ok'"
      using w(2) wire_send_eq(1) [of k env "simple (CRM_REQ_ACQUIRE k)" c1] by (auto simp: c1 split: if_splits)
    have s: "same_client c c2" "reconnecting c2" "sock_fd c2 = ?fd" "holds c2 = holds c"
      using r by (simp_all add: c2(1) c1 same_client_def)
    show ?thesis
    proof (cases ok')
      case False
      then show ?thesis using s w(3) by (simp add: cli_inv_def same_client_def drop_connection_def)
    next
      case True'': True
      then have "delivered c2 = register_msg c # (if holds c then [simple (CRM_REQ_ACQUIRE k)] else [])"
        using c2(2) by (auto simp: c2(1) c1 delivered_emit register_msg_def)
      then have "in_line k c'"
        using True'' s w(3) unfolding in_line_def
        by (intro exI [of _ "if holds c then [simple (CRM_REQ_ACQUIRE k)] else []"])
          (simp add: register_msg_def same_client_def hold_after_def)
      then show ?thesis using True'' s w(3) True by (simp add: cli_inv_def same_client_def)
    qed
  qed
qed

lemma handle_error_inv:
  assumes "handle_error k env c = Some c'"
  shows "cli_inv k c' \<and> same_client c c'"
proof -
  let ?c = "(drop_connection c)\<lparr>reconnecting := True\<rparr>"
  have i: "cli_inv k ?c" "same_client c ?c" "reconnecting ?c" by (simp_all add: cli_inv_def same_client_def drop_connection_def)
  obtain c1 c2 where c: "fake_event k env (MDM_DOWN k) ?c = Some c1" "fake_event k env (MDM_COLD_RESET k) c1 = Some c2"
    "c' = c2 \<or> reconnect k env c2 = Some c'"
    using assms by (auto simp: handle_error_def bind_Some_iff Let_def split: if_splits)
  have "keeps k ?c c2" using keeps_trans [OF fake_keeps [OF c(1)] fake_keeps [OF c(2)]] .
  then have "cli_inv k c2" "same_client c c2" using i same_client_trans by (auto simp: keeps_def)
  then show ?thesis using c(3) reconnect_inv same_client_trans by blast
qed

lemma iter_client_inv:
  assumes "mdmcli_iter k env inp c = Some (on, c')" "cli_inv k c"
  shows "cli_inv k c' \<and> same_client c c'"
proof (cases inp)
  case (CliSock m)
  then show ?thesis
    using assms handle_error_inv [of k env c c'] event_keeps [of k env _ c c']
    by (cases m) (auto simp: mdmcli_iter_def keeps_def split: if_splits)
qed (use assms handle_error_inv [of k env c c'] reconnect_inv [of k env c c'] in
    \<open>auto simp: mdmcli_iter_def bind_Some_iff split: if_splits\<close>)

section \<open>The library remembers what was asked\<close>

definition minds :: "crm_mdm_cli_ctx \<Rightarrow> crm_mdm_cli_ctx \<Rightarrow> bool" where
  "minds c c' \<longleftrightarrow> (holds c = asked_hold c \<longrightarrow> holds c' = asked_hold c')"

lemma minds_refl [simp]: "minds c c" by (simp add: minds_def)

lemma minds_trans: "minds a b \<Longrightarrow> minds b c \<Longrightarrow> minds a c" by (simp add: minds_def)

lemma asked_emit: "asked_hold (cli_emit x c) = asks (asked_hold c) x"
  by (simp add: asked_hold_def cli_emit_def)

lemma asked_fields [simp]:
  "asked_hold (c\<lparr>holds := h\<rparr>) = asked_hold c" "asked_hold (c\<lparr>sock_fd := n\<rparr>) = asked_hold c" "asked_hold (c\<lparr>reconnecting := b\<rparr>) = asked_hold c"
  by (simp_all add: asked_hold_def)

lemma asks_other [simp]: "asks h (CliConnect fd) = h" "asks h (CliSent fd m ok) = h" "asks h (CliClose fd) = h" "asks h (CliCallback i x d) = h"
  by (simp_all add: asks_def)

lemma sent_quiet: "wire_send k env m c = Some (ok, c') \<Longrightarrow> holds c' = holds c \<and> asked_hold c' = asked_hold c"
  using wire_send_eq(1) by (fastforce simp: asked_emit)

lemma simple_quiet: "mdm_cli_send_simple_msg k env i c = Some (r, c') \<Longrightarrow> holds c' = holds c \<and> asked_hold c' = asked_hold c"
  by (cases "reconnecting c") (auto simp: mdm_cli_send_simple_msg_def bind_Some_iff dest!: sent_quiet)

lemma body_quiet:
  assumes "mdm_cli_restart k env rc dbg c = Some (r, c') \<or> mdm_cli_notify_dbg k env dbg c = Some (r, c')"
  shows "holds c' = holds c \<and> asked_hold c' = asked_hold c"
  using assms by (cases "reconnecting c") (auto simp: mdm_cli_restart_def mdm_cli_notify_dbg_def bind_Some_iff dest!: sent_quiet)

lemma hold_call_asked:
  assumes "hold_call k env i h c = Some (r, c')"
  shows "asked_hold c' = asked_hold c \<and> (r = 0 \<and> holds c' = h \<or> r = -1 \<and> holds c' = holds c \<and> \<not> reconnecting c)"
proof (cases "reconnecting c")
  case True
  then show ?thesis using assms by (auto simp: hold_call_def bind_Some_iff)
next
  case False
  then obtain ok c1 where "wire_send k env (simple i) c = Some (ok, c1)" "(if ok then (0, c1\<lparr>holds := h\<rparr>) else (-1, c1)) = (r, c')"
    using assms by (auto simp: hold_call_def bind_Some_iff)
  then show ?thesis using sent_quiet False by (fastforce split: if_splits)
qed

lemma call_minds:
  assumes "cli_call k env x c = Some (r, c')"
  shows "minds c c'"
proof -
  obtain c1 where c1: "call_op k env x c = Some (r, c1)" "c' = cli_emit (CliCall x r) c1"
    using assms by (auto simp: cli_call_def bind_Some_iff)
  show ?thesis
  proof (cases x)
    case Acquire
    then show ?thesis using c1 hold_call_asked [of k env _ True c r c1] by (auto simp: call_op_def hold_calls minds_def asked_emit asks_def)
  next
    case Release
    then show ?thesis using c1 hold_call_asked [of k env _ False c r c1] by (auto simp: call_op_def hold_calls minds_def asked_emit asks_def)
  qed (use c1 body_quiet [of k env _ _ c r c1] simple_quiet [of k env _ c r c1] in
      \<open>auto simp: call_op_def mdm_cli_shutdown_def mdm_cli_nvm_bckup_def mdm_cli_ack_cold_reset_def mdm_cli_ack_shutdown_def minds_def asked_emit asks_def\<close>)
qed

lemma calls_mind: "cli_calls k env xs c = Some c' \<Longrightarrow> minds c c'"
proof (induction xs arbitrary: c)
  case (Cons x xs)
  then obtain r c1 where "cli_call k env x c = Some (r, c1)" "cli_calls k env xs c1 = Some c'" by (auto simp: bind_Some_iff)
  with Cons.IH call_minds minds_trans show ?case by blast
qed simp

lemma callback_minds:
  assumes "run_callback k env r d c = Some (ret, c')"
  shows "minds c c'"
proof -
  let ?c = "cli_emit (CliCallback (reg_id r) (reg_context r) d) c"
  have "minds c ?c" by (simp add: minds_def asked_emit)
  moreover have "cli_calls k env (callback_calls env (length (cli_io c))) ?c = Some c'"
    using assms by (auto simp: run_callback_def bind_Some_iff Let_def)
  ultimately show ?thesis using calls_mind minds_trans by blast
qed

lemma fake_minds: "fake_event k env i c = Some c' \<Longrightarrow> minds c c'"
  using callback_minds by (fastforce simp: fake_event_def bind_Some_iff split: option.splits)

lemma reconnect_quiet:
  assumes "reconnect k env c = Some c'"
  shows "holds c' = holds c \<and> asked_hold c' = asked_hold c"
proof -
  let ?fd = "socket_connect env (length (cli_io c))"
  let ?c = "(cli_emit (CliConnect ?fd) c)\<lparr>sock_fd := ?fd\<rparr>"
  have q: "holds ?c = holds c" "asked_hold ?c = asked_hold c" by (simp_all add: asked_emit)
  show ?thesis
  proof (cases "?fd \<ge> 0")
    case False
    then have "c' = ?c" using assms by (auto simp: reconnect_def Let_def bind_Some_iff)
    then show ?thesis using q by simp
  next
    case True
    obtain ok c1 ok' c2 where w: "wire_send k env (register_msg ?c) ?c = Some (ok, c1)"
      "(if ok \<and> holds c1 then wire_send k env (simple (CRM_REQ_ACQUIRE k)) c1 else Some (ok, c1)) = Some (ok', c2)"
      "c' = (if ok' then c2\<lparr>reconnecting := False\<rparr> else drop_connection c2)"
      using assms True by (auto simp: reconnect_def Let_def bind_Some_iff)
    have "holds c2 = holds c1 \<and> asked_hold c2 = asked_hold c1" using w(2) sent_quiet by (auto split: if_splits)
    then have "holds c2 = holds c \<and> asked_hold c2 = asked_hold c" using sent_quiet [OF w(1)] q by simp
    then show ?thesis using w(3) by (auto simp: drop_connection_def asked_emit)
  qed
qed

lemma handle_error_minds:
  assumes "handle_error k env c = Some c'"
  shows "minds c c'"
proof -
  let ?c = "(drop_connection c)\<lparr>reconnecting := True\<rparr>"
  obtain c1 c2 where c: "fake_event k env (MDM_DOWN k) ?c = Some c1" "fake_event k env (MDM_COLD_RESET k) c1 = Some c2"
    "c' = c2 \<or> reconnect k env c2 = Some c'"
    using assms by (auto simp: handle_error_def bind_Some_iff Let_def split: if_splits)
  have "minds c ?c" by (simp add: minds_def drop_connection_def asked_emit)
  moreover have "minds c2 c'" using c(3) reconnect_quiet [of k env c2 c'] by (auto simp: minds_def)
  ultimately show ?thesis using fake_minds [OF c(1)] fake_minds [OF c(2)] minds_trans by blast
qed

lemma event_minds:
  assumes "handle_event k env m c = Some c'"
  shows "minds c c'"
proof -
  obtain r ret c1 where c1: "run_callback k env r (event_data k m) c = Some (ret, c1)"
    and c': "c' = c1 \<or> (\<exists>q. mdm_cli_send_simple_msg k env (CRM_REQ_ACK_COLD_RESET k) c1 = Some (q, c')) \<or>
      (\<exists>q. mdm_cli_send_simple_msg k env (CRM_REQ_ACK_SHUTDOWN k) c1 = Some (q, c'))"
    by (rule event_split [OF assms])
  have "minds c1 c'" using c' simple_quiet by (fastforce simp: minds_def)
  with callback_minds [OF c1] show ?thesis using minds_trans by blast
qed

lemma iter_minds:
  assumes "mdmcli_iter k env inp c = Some (on, c')"
  shows "minds c c'"
proof (cases inp)
  case (CliSock m)
  then show ?thesis
    using assms handle_error_minds [of k env c c'] event_minds [of k env _ c c']
    by (cases m) (auto simp: mdmcli_iter_def split: if_splits)
qed (use assms handle_error_minds [of k env c c'] reconnect_quiet [of k env c c'] in
    \<open>auto simp: mdmcli_iter_def bind_Some_iff minds_def split: if_splits\<close>)

section \<open>With CRM at the other end\<close>

text \<open>A message of a sender is written whole.\<close>

lemma send_returns:
  assumes "mdm_cli_ok k" "wire_msg_ok k dir m"
  shows "\<exists>bs. send_msg k dir m = Some bs"
  using send_recv [OF assms, of "replicate (MSG_SIZE_MAX k) 0"] by auto

text \<open>What CRM has to be for the messages of a client to be taken into account.\<close>

definition serving :: "int \<Rightarrow> int \<Rightarrow> nat \<Rightarrow> crm_cli_abs \<Rightarrow> bool" where
  "serving base st idx s \<longleftrightarrow> cla_inv base st s \<and> base \<ge> 0 \<and> idx < num_clients s \<and> \<not> bit (to_clean s) idx \<and> \<not> reject_requests s"

lemma serving_get: "serving base st idx s \<Longrightarrow> array_get (clients s) (int idx) = Some (clients s ! idx) \<and> idx < 16 \<and> idx < length (clients s)"
  by (simp add: serving_def cla_inv_def cla_ok_def)

lemma serving_counts:
  assumes "serving base st idx s"
  shows "acquired (clients s ! idx) \<Longrightarrow> num_acquired s \<ge> 1"
    "waiting_cold_reset_ack (clients s ! idx) \<Longrightarrow> num_waiting_cold_reset_ack s \<ge> 1"
    "waiting_shutdown_ack (clients s ! idx) \<Longrightarrow> num_waiting_shutdown_ack s \<ge> 1"
proof -
  have p: "idx < length (present s)" "present s ! idx = clients s ! idx" using assms by (simp_all add: serving_def cla_inv_def cla_ok_def)
  have c: "P (clients s ! idx) \<Longrightarrow> 0 < countp P (present s)" for P using countp_pos [OF p(1), of P] unfolding p(2) .
  have e: "num_acquired s = base + int (countp acquired (present s))" "0 \<le> base"
    "num_waiting_cold_reset_ack s = int (countp waiting_cold_reset_ack (present s))"
    "num_waiting_shutdown_ack s = int (countp waiting_shutdown_ack (present s))"
    using assms by (auto simp: serving_def cla_inv_def cla_ok_def)
  show "acquired (clients s ! idx) \<Longrightarrow> num_acquired s \<ge> 1" using c [of acquired] e(1,2) by linarith
  show "waiting_cold_reset_ack (clients s ! idx) \<Longrightarrow> num_waiting_cold_reset_ack s \<ge> 1" using c [of waiting_cold_reset_ack] e(3) by linarith
  show "waiting_shutdown_ack (clients s ! idx) \<Longrightarrow> num_waiting_shutdown_ack s \<ge> 1" using c [of waiting_shutdown_ack] e(4) by linarith
qed

text \<open>The messages that concern nobody but the client: its hold and its acknowledgements.\<close>

definition own_msg :: "mdm_cli \<Rightarrow> crm_mdmcli_wire_msg \<Rightarrow> bool" where
  "own_msg k m \<longleftrightarrow> msg_id m = CRM_REQ_ACQUIRE k \<or> msg_id m = CRM_REQ_RELEASE k \<or> msg_id m = CRM_REQ_ACK_COLD_RESET k \<or>
     msg_id m = CRM_REQ_ACK_SHUTDOWN k"

definition same_slot :: "crm_client \<Rightarrow> crm_client \<Rightarrow> bool" where
  "same_slot a b \<longleftrightarrow> registered b = registered a \<and> cl_name b = cl_name a \<and> cl_events b = cl_events a"

lemma own_dispatch:
  assumes "serving base st idx s" "own_msg (cli p) m"
  shows "\<exists>s'. dispatch_client_msg p idx m (st, s) = Some (st, s') \<and> same_slot (clients s ! idx) (clients s' ! idx) \<and>
    acquired (clients s' ! idx) = hold_after (cli p) (acquired (clients s ! idx)) [m] \<and>
    num_clients s' = num_clients s \<and> to_clean s' = to_clean s \<and> reject_requests s' = reject_requests s"
proof -
  note g = serving_get [OF assms(1)] and n = serving_counts [OF assms(1)]
  have r: "\<not> reject_requests s" using assms(1) by (simp add: serving_def)
  consider "msg_id m = CRM_REQ_ACQUIRE (cli p)" | "msg_id m = CRM_REQ_RELEASE (cli p)"
    | "msg_id m = CRM_REQ_ACK_COLD_RESET (cli p)" | "msg_id m = CRM_REQ_ACK_SHUTDOWN (cli p)"
    using assms(2) by (auto simp: own_msg_def)
  then show ?thesis
  proof cases
    case 1
    then show ?thesis
      using g r by (cases "acquired (clients s ! idx)")
        (simp_all add: dispatch_client_msg_def Let_def handle_acquire_def set_client_def same_slot_def hold_after_def)
  next
    case 2
    then show ?thesis
      using g r n(1) by (cases "acquired (clients s ! idx)")
        (simp_all add: dispatch_client_msg_def Let_def handle_release_def set_client_def same_slot_def hold_after_def)
  next
    case 3
    then show ?thesis
      using g r n(2) by (cases "waiting_cold_reset_ack (clients s ! idx)")
        (simp_all add: dispatch_client_msg_def Let_def handle_ack_cold_def set_client_def same_slot_def hold_after_def)
  next
    case 4
    then show ?thesis
      using g r n(3) by (cases "waiting_shutdown_ack (clients s ! idx)")
        (simp_all add: dispatch_client_msg_def Let_def handle_ack_shutdown_def set_client_def same_slot_def hold_after_def)
  qed
qed

lemma own_step:
  assumes "serving base st idx s" "own_msg (cli p) m" "registered (clients s ! idx)" "mdm_cli_ok (cli p)"
  shows "\<exists>s'. handle_client_msg p idx m (st, s) = Some (st, s') \<and> serving base st idx s' \<and> same_slot (clients s ! idx) (clients s' ! idx) \<and>
    acquired (clients s' ! idx) = hold_after (cli p) (acquired (clients s ! idx)) [m]"
proof -
  obtain s' where s': "dispatch_client_msg p idx m (st, s) = Some (st, s')" "same_slot (clients s ! idx) (clients s' ! idx)"
    "acquired (clients s' ! idx) = hold_after (cli p) (acquired (clients s ! idx)) [m]"
    "num_clients s' = num_clients s" "to_clean s' = to_clean s" "reject_requests s' = reject_requests s"
    using own_dispatch [OF assms(1,2)] by blast
  obtain t where t: "crm_mdmcli_wire_req_to_string (cli p) (msg_id m) = Some t"
    using assms(2) req_named [of "cli p" "msg_id m"] by (auto simp: own_msg_def)
  have "\<not> bit (to_clean s) idx" using assms(1) by (simp add: serving_def)
  moreover have "msg_id m \<noteq> CRM_REQ_REGISTER (cli p)" "msg_id m \<noteq> CRM_REQ_REGISTER_DBG (cli p)" using assms(2) by (auto simp: own_msg_def)
  ultimately have h: "handle_client_msg p idx m (st, s) = Some (st, s')"
    using serving_get [OF assms(1)] assms(3) s'(1) t by (simp add: handle_client_msg_def Let_def)
  have "cla_inv base st s'" using client_msg_inv [OF h _ _ assms(4)] assms(1) by (auto simp: serving_def)
  then have "serving base st idx s'" using assms(1) s' by (simp add: serving_def)
  with h s' show ?thesis by blast
qed

lemma own_steps:
  assumes "serving base st idx s" "\<forall>m \<in> set ms. own_msg (cli p) m" "registered (clients s ! idx)" "mdm_cli_ok (cli p)"
  shows "\<exists>s'. for_loop (handle_client_msg p idx) ms (st, s) = Some (st, s') \<and> same_slot (clients s ! idx) (clients s' ! idx) \<and>
    acquired (clients s' ! idx) = hold_after (cli p) (acquired (clients s ! idx)) ms"
  using assms
proof (induction ms arbitrary: s)
  case Nil
  then show ?case by (simp add: same_slot_def hold_after_def)
next
  case (Cons m ms)
  have m: "own_msg (cli p) m" "\<forall>m \<in> set ms. own_msg (cli p) m" using Cons.prems(2) by auto
  obtain s1 where s1: "handle_client_msg p idx m (st, s) = Some (st, s1)" "serving base st idx s1" "same_slot (clients s ! idx) (clients s1 ! idx)"
    "acquired (clients s1 ! idx) = hold_after (cli p) (acquired (clients s ! idx)) [m]"
    using own_step [OF Cons.prems(1) m(1) Cons.prems(3,4)] by blast
  have "registered (clients s1 ! idx)" using s1(3) Cons.prems(3) by (simp add: same_slot_def)
  from Cons.IH [OF s1(2) m(2) this Cons.prems(4)] s1 show ?case by (auto simp: same_slot_def hold_after_def)
qed

text \<open>An event that asks for no acknowledgement, when the sockets work.\<close>

lemma event_facts:
  assumes "mdm_cli_ok k" "e \<in> set (cli_events k)"
  shows "0 \<le> e" "e < MDM_NUM_EVENTS k" "\<exists>t. crm_mdmcli_wire_req_to_string k e = Some t"
  using assms req_named [of k e] by (auto simp: mdm_cli_ok_def)

lemma single_eq:
  assumes "mdm_cli_ok (cli p)" "MDM_NUM_EVENTS (cli p) \<le> 32" "e \<in> set (cli_events (cli p))" "e \<noteq> MDM_COLD_RESET (cli p)" "e \<noteq> MDM_SHUTDOWN (cli p)"
    and "idx < 16" "idx < length (clients c)" "idx < length (cl_fd c)" "\<not> bit (to_clean c) idx" "\<And>n. \<not> send_fails p n"
    and "event_bytes (cli p) e ser = Some bs"
  shows "notify_cli_event_single p idx e ser c =
    Some (if bit (cl_events (clients c ! idx)) (nat e) then emit c (CliSend (cl_fd c ! idx) bs) else c)"
proof -
  note f = event_facts [OF assms(1,3)]
  obtain t where "crm_mdmcli_wire_req_to_string (cli p) e = Some t" using f(3) by blast
  then show ?thesis
    using assms(2,4-11) f(1,2) by (simp add: notify_cli_event_single_def bit_at_def mark_waiting_def send_event_def Let_def)
qed

lemma plain_event_bytes:
  assumes "mdm_cli_ok k" "e \<in> set (cli_events k)" "e \<noteq> MDM_DBG_INFO k"
  shows "\<exists>bs. event_bytes k e None = Some bs"
proof -
  have "wire_msg_ok k CRM_SERVER_TO_CLIENT \<lparr>msg_id = e, msg = NoBody\<rparr>"
    using event_facts(1,2) [OF assms(1,2)] assms(1,3) by (auto simp: wire_msg_ok_def body_ok_def mdm_cli_ok_def)
  then show ?thesis using send_returns [OF assms(1)] by (simp add: event_bytes_def)
qed

lemma register_step:
  assumes "serving base st idx s" "clients s ! idx = zero_client" "mdm_cli_ok (cli p)" "MDM_NUM_EVENTS (cli p) \<le> 32"
    and "rid = (if sanity_test_mode s then CRM_REQ_REGISTER_DBG (cli p) else CRM_REQ_REGISTER (cli p))"
    and "0 \<le> modem_state s" "modem_state s \<le> 5" "\<And>n. \<not> send_fails p n" "length nm < MDM_CLI_NAME_LEN (cli p)"
  shows "\<exists>s'. handle_client_msg p idx \<lparr>msg_id = rid, msg = RegisterClient bm nm\<rparr> (st, s) = Some (st, s') \<and> serving base st idx s' \<and>
    clients s' ! idx = zero_client\<lparr>registered := True, cl_name := nm, cl_events := bm\<rparr>"
proof -
  let ?v = "zero_client\<lparr>registered := True, cl_name := nm, cl_events := bm\<rparr>"
  let ?c = "set_client s idx ?v"
  note g = serving_get [OF assms(1)]
  have l: "idx < length (cl_fd s)" "\<not> bit (to_clean s) idx" using assms(1) by (simp_all add: serving_def cla_inv_def cla_ok_def)
  have n: "take (MDM_CLI_NAME_LEN (cli p) - 1) nm = nm" using assms(9) by simp
  have "\<exists>s'. handle_register p idx bm nm s = Some s' \<and> (s' = ?c \<or> (\<exists>x. s' = emit ?c x))"
  proof (cases "modem_state s = 5")
    case True
    then show ?thesis using g assms(2) n by (simp add: handle_register_def Let_def set_client_def zero_client_def del: One_nat_def)
  next
    case False
    then have "modem_state s \<in> {0, 1, 2, 3, 4}" using assms(6,7) by auto
    then obtain e where e: "map_modem_state_to_cli_event (cli p) (modem_state s) = Some e" by (auto simp: map_modem_state_to_cli_event_def)
    have d: "e \<in> set (cli_events (cli p))" "e \<noteq> MDM_COLD_RESET (cli p)" "e \<noteq> MDM_SHUTDOWN (cli p)" "e \<noteq> MDM_DBG_INFO (cli p)"
      using map_modem_event [OF e] assms(3) by (auto simp: mdm_cli_ok_def cli_events_def)
    obtain bs where "event_bytes (cli p) e None = Some bs" using plain_event_bytes [OF assms(3) d(1,4)] by blast
    from single_eq [OF assms(3,4) d(1-3) _ _ _ _ assms(8) this, of idx ?c]
    obtain x where "notify_cli_event_single p idx e None ?c = Some (if bit (cl_events (clients ?c ! idx)) (nat e) then emit ?c x else ?c)"
      using g l by (auto simp: set_client_def)
    then show ?thesis
      using g assms(2) n e False by (auto simp: handle_register_def Let_def zero_client_def set_client_def simp del: One_nat_def)
  qed
  then obtain s' where s': "handle_register p idx bm nm s = Some s'" "s' = ?c \<or> (\<exists>x. s' = emit ?c x)" by blast
  obtain t where "crm_mdmcli_wire_req_to_string (cli p) rid = Some t" using req_named [of "cli p" rid] assms(5) by (auto split: if_splits)
  then have h: "handle_client_msg p idx \<lparr>msg_id = rid, msg = RegisterClient bm nm\<rparr> (st, s) = Some (st, s')"
    using g l assms(5) s'(1) by (auto simp: handle_client_msg_def dispatch_client_msg_def Let_def)
  have "cla_inv base st s'" using client_msg_inv [OF h _ _ assms(3)] assms(1) by (auto simp: serving_def)
  moreover have "num_clients s' = num_clients s" "to_clean s' = to_clean s" "reject_requests s' = reject_requests s" "clients s' ! idx = ?v"
    using s'(2) g by (auto simp: set_client_def emit_def)
  ultimately show ?thesis using h assms(1) by (simp add: serving_def)
qed

section \<open>Runs of a client\<close>

text \<open>Calls of the client and iterations of the thread, in any order.\<close>

datatype cli_act = ActCall cli_call | ActThread cli_input

fun cli_run :: "mdm_cli \<Rightarrow> cli_env \<Rightarrow> cli_act list \<Rightarrow> crm_mdm_cli_ctx \<Rightarrow> crm_mdm_cli_ctx option" where
  "cli_run k env [] c = Some c"
| "cli_run k env (ActCall x # as) c = do { (r, c) \<leftarrow> cli_call k env x c; cli_run k env as c }"
| "cli_run k env (ActThread i # as) c = do { (on, c) \<leftarrow> mdmcli_iter k env i c; if on then cli_run k env as c else Some c }"

lemma run_client_inv: "cli_run k env as c = Some c' \<Longrightarrow> cli_inv k c \<Longrightarrow> cli_inv k c' \<and> same_client c c'"
proof (induction k env as c rule: cli_run.induct)
  case (2 k env x as c)
  then obtain r c1 where c1: "cli_call k env x c = Some (r, c1)" "cli_run k env as c1 = Some c'" by (auto simp: bind_Some_iff)
  then have "cli_inv k c1" "same_client c c1" using call_keeps [OF c1(1)] 2(3) by (auto simp: keeps_def)
  with 2(1) c1 same_client_trans show ?case by blast
next
  case (3 k env i as c)
  then obtain on c1 where c1: "mdmcli_iter k env i c = Some (on, c1)" "if on then cli_run k env as c1 = Some c' else c1 = c'"
    by (auto simp: bind_Some_iff split: if_splits)
  note i = iter_client_inv [OF c1(1) 3(3)]
  show ?case
  proof (cases on)
    case True
    then show ?thesis using 3(1) [OF c1(1) refl True] c1(2) i same_client_trans by auto
  qed (use c1 i in auto)
qed simp

lemma run_minds: "cli_run k env as c = Some c' \<Longrightarrow> minds c c'"
proof (induction k env as c rule: cli_run.induct)
  case (2 k env x as c)
  then show ?case using call_minds minds_trans by (fastforce simp: bind_Some_iff)
next
  case (3 k env i as c)
  then obtain on c1 where c1: "mdmcli_iter k env i c = Some (on, c1)" "if on then cli_run k env as c1 = Some c' else c1 = c'"
    by (auto simp: bind_Some_iff split: if_splits)
  then show ?case using 3(1) [OF c1(1) refl] iter_minds [OF c1(1)] minds_trans by (cases on) auto
qed simp

text \<open>The bitmap of a registration has a bit for each of its events.\<close>

lemma bitmap_bits:
  "events_bitmap_of es bm0 = Some bm \<Longrightarrow> i < 32 \<Longrightarrow> bit bm i = (bit bm0 i \<or> (\<exists>r \<in> set es. reg_id r = int i))"
proof (induction es arbitrary: bm0)
  case (Cons r es)
  have r: "0 \<le> reg_id r" "reg_id r < 31" and e: "events_bitmap_of es (or bm0 (push_bit (nat (reg_id r)) 1)) = Some bm"
    using Cons.prems(1) by (auto simp: bind_Some_iff Let_def)
  have "bit bm i = (bit (or bm0 (push_bit (nat (reg_id r)) 1)) i \<or> (\<exists>r \<in> set es. reg_id r = int i))"
    using Cons.IH [OF e Cons.prems(2)] .
  moreover have "bit (or bm0 (push_bit (nat (reg_id r)) 1) :: 32 word) i = (bit bm0 i \<or> i = nat (reg_id r))"
    using r by (intro bit_set) simp
  ultimately show ?case using r by auto
qed simp

lemma connect_facts:
  assumes "crm_connect k env nm es request = Some (Some c)"
  shows "cli_inv k c" "evts c = es" "events_bitmap_of es 0 = Some (bitmap c)" "cname c = nm" "register_id c = request"
    "length nm < MDM_CLI_NAME_LEN k" "request = CRM_REQ_REGISTER k \<or> request = CRM_REQ_REGISTER_DBG k" "\<not> reconnecting c"
    "holds c = asked_hold c"
proof -
  obtain c0 where c0: "crm_connect_open k env nm es request = Some (Some c0)" "crm_connect_register k env c0 = Some c"
    using assms by (auto simp: crm_connect_def bind_Some_iff split: option.splits)
  obtain bm where bm: "events_bitmap_of es 0 = Some bm" "socket_connect env 0 \<ge> 0" "length nm < MDM_CLI_NAME_LEN k"
    "request = CRM_REQ_REGISTER k \<or> request = CRM_REQ_REGISTER_DBG k"
    "c0 = \<lparr>evts = es, bitmap = bm, sock_fd = socket_connect env 0, cname = nm, reconnecting = False, disconnect = False,
       holds = False, register_id = request, cli_io = [CliConnect (socket_connect env 0)]\<rparr>"
    using c0(1) by (auto simp: crm_connect_open_def bind_Some_iff Let_def split: if_splits)
  have w: "wire_send k env (register_msg c0) c0 = Some (True, c)"
    using c0(2) by (auto simp: crm_connect_register_def bind_Some_iff split: if_splits)
  have c: "c = cli_emit (CliSent (sock_fd c0) (register_msg c0) True) c0" using wire_send_eq(1) [OF w] .
  have "delivered c = [register_msg c]" by (simp add: c delivered_emit register_msg_def) (simp add: bm(5) delivered_def)
  then have "in_line k c" by (simp add: in_line_def c bm(5) hold_after_def)
  then show "cli_inv k c" using bm(2) by (simp add: cli_inv_def c bm(5))
  show "evts c = es" "events_bitmap_of es 0 = Some (bitmap c)" "cname c = nm" "register_id c = request" "length nm < MDM_CLI_NAME_LEN k"
    "request = CRM_REQ_REGISTER k \<or> request = CRM_REQ_REGISTER_DBG k" "\<not> reconnecting c"
    using bm by (simp_all add: c)
  show "holds c = asked_hold c" by (simp add: c asked_emit) (simp add: bm(5) asked_hold_def)
qed


definition client_demo_env :: cli_env where
  "client_demo_env = \<lparr>socket_connect = (\<lambda>n. if n = 2 \<or> n = 4 then -1 else 5), write_ok = (\<lambda>n. True), callback_calls = (\<lambda>n. []),
     callback_ret = (\<lambda>n. 0), in_sanity = False\<rparr>"

definition client_demo_evts :: "mdm_cli_register list" where
  "client_demo_evts = [\<lparr>reg_id = 0, reg_callback = True, reg_context = 1\<rparr>, \<lparr>reg_id = 6, reg_callback = True, reg_context = 2\<rparr>]"

text \<open>The connection is lost, the client acquires the modem meanwhile, and the second attempt to connect succeeds.\<close>

definition client_demo_run :: "cli_act list" where
  "client_demo_run = [ActThread CliSockError, ActCall Acquire, ActThread CliTimeout]"

definition client_demo_end :: "crm_mdm_cli_ctx option" where
  "client_demo_end = do {
     r \<leftarrow> crm_connect demo_cli client_demo_env [65] client_demo_evts (CRM_REQ_REGISTER demo_cli);
     (case r of None \<Rightarrow> None | Some c \<Rightarrow> cli_run demo_cli client_demo_env client_demo_run c)
   }"

lemma client_demo:
  "map_option (\<lambda>c. (reconnecting c, asked_hold c, map msg_id (delivered c))) client_demo_end = Some (False, True, [8, 10])"
  by code_simp

lemma client_demo_start:
  "\<exists>c0 c. crm_connect demo_cli client_demo_env [65] client_demo_evts (CRM_REQ_REGISTER demo_cli) = Some (Some c0) \<and>
     cli_run demo_cli client_demo_env client_demo_run c0 = Some c \<and> \<not> reconnecting c \<and> asked_hold c \<and> map msg_id (delivered c) = [8, 10]"
  using client_demo by (auto simp: client_demo_end_def bind_Some_iff split: option.splits)


text \<open>
  CRM, restarted, knows of a client what the client knows of itself. Whatever happened before, when the
  messages of a connected client, all about its own hold and acknowledgements, are handled by a client
  abstraction that accepts requests and has just accepted the connection, the slot of the client there has
  the name and exactly the events of the registration, and it holds the modem if and only if the last call of the
  client to acquire or release it that was answered with success is an acquisition.
\<close>

theorem client_state_restored:
  assumes "crm_connect (cli p) env nm es request = Some (Some c0)" "cli_run (cli p) env as c0 = Some c" "\<not> reconnecting c"
    and "\<forall>m \<in> set (tl (delivered c)). own_msg (cli p) m"
    and "cla_inv base st s" "base \<ge> 0" "idx < num_clients s" "clients s ! idx = zero_client" "\<not> bit (to_clean s) idx" "\<not> reject_requests s"
    and "request = CRM_REQ_REGISTER_DBG (cli p) \<longleftrightarrow> sanity_test_mode s" "0 \<le> modem_state s" "modem_state s \<le> 5"
    and "mdm_cli_ok (cli p)" "MDM_NUM_EVENTS (cli p) \<le> 32" "\<forall>n. \<not> send_fails p n"
  shows "\<exists>s'. for_loop (handle_client_msg p idx) (delivered c) (st, s) = Some (st, s') \<and> registered (clients s' ! idx) \<and>
    cl_name (clients s' ! idx) = nm \<and> (\<forall>i < 32. bit (cl_events (clients s' ! idx)) i \<longleftrightarrow> (\<exists>r \<in> set es. reg_id r = int i)) \<and>
    acquired (clients s' ! idx) = asked_hold c"
proof -
  note f = connect_facts [OF assms(1)]
  have i: "cli_inv (cli p) c" "same_client c0 c" using run_client_inv [OF assms(2) f(1)] by auto
  then obtain rest where rest: "delivered c = register_msg c # rest" "hold_after (cli p) False rest = asked_hold c"
    using assms(3) run_minds [OF assms(2)] f(9) by (auto simp: cli_inv_def in_line_def minds_def)
  have reg: "register_msg c = \<lparr>msg_id = request, msg = RegisterClient (bitmap c0) nm\<rparr>"
    using f i(2) by (simp add: same_client_def register_msg_def)
  have v: "serving base st idx s" using assms(5-10) by (simp add: serving_def)
  have rid: "request = (if sanity_test_mode s then CRM_REQ_REGISTER_DBG (cli p) else CRM_REQ_REGISTER (cli p))"
    using f(7) assms(11) by auto
  obtain s1 where s1: "handle_client_msg p idx (register_msg c) (st, s) = Some (st, s1)" "serving base st idx s1"
    "clients s1 ! idx = zero_client\<lparr>registered := True, cl_name := nm, cl_events := bitmap c0\<rparr>"
    using register_step [OF v assms(8,14,15) rid assms(12,13) _ f(6), of "bitmap c0"] assms(16) unfolding reg by blast
  have "\<forall>m \<in> set rest. own_msg (cli p) m" using assms(4) rest(1) by simp
  from own_steps [OF s1(2) this _ assms(14)] s1(3)
  obtain s' where s': "for_loop (handle_client_msg p idx) rest (st, s1) = Some (st, s')" "same_slot (clients s1 ! idx) (clients s' ! idx)"
    "acquired (clients s' ! idx) = hold_after (cli p) (acquired (clients s1 ! idx)) rest" by auto
  have "for_loop (handle_client_msg p idx) (delivered c) (st, s) = Some (st, s')" using s1(1) s'(1) by (simp add: rest(1))
  moreover have "registered (clients s' ! idx) \<and> cl_name (clients s' ! idx) = nm \<and> cl_events (clients s' ! idx) = bitmap c0 \<and>
      acquired (clients s' ! idx) = asked_hold c"
    using s'(2,3) s1(3) rest(2) by (simp add: same_slot_def zero_client_def)
  ultimately show ?thesis using bitmap_bits [OF f(3)] by auto
qed

definition restored_demo_server :: crm_cli_abs where
  "restored_demo_server = (crm_cli_abs_init False True (crm_wakelock_init (3, 4) 0) (mk_dbg 0 0 0 0 []))\<lparr>num_clients := 1\<rparr>"

theorem client_state_restored_witness:
  "\<exists>c s'. cli_run demo_cli client_demo_env client_demo_run (the (the (crm_connect demo_cli client_demo_env [65] client_demo_evts 8))) = Some c \<and>
     for_loop (handle_client_msg cla_demo_param 0) (delivered c) (ST_OFF, restored_demo_server) = Some (ST_OFF, s') \<and>
     cl_name (clients s' ! 0) = [65] \<and> bit (cl_events (clients s' ! 0)) 6 \<and> acquired (clients s' ! 0)"
proof -
  obtain c0 c where c: "crm_connect demo_cli client_demo_env [65] client_demo_evts (CRM_REQ_REGISTER demo_cli) = Some (Some c0)"
    "cli_run demo_cli client_demo_env client_demo_run c0 = Some c" "\<not> reconnecting c" "asked_hold c" "map msg_id (delivered c) = [8, 10]"
    using client_demo_start by (elim exE conjE) (rule that)
  have k: "cli cla_demo_param = demo_cli" "\<forall>n. \<not> send_fails cla_demo_param n" "MDM_NUM_EVENTS demo_cli = 8" by (simp_all add: cla_demo_param_def demo_cli_def)
  have own: "\<forall>m \<in> set (tl (delivered c)). own_msg demo_cli m"
    using c(5) by (auto simp: own_msg_def k(3) map_eq_Cons_conv)
  have s: "cla_inv 0 ST_OFF restored_demo_server" "num_clients restored_demo_server = 1" "clients restored_demo_server ! 0 = zero_client"
    "\<not> bit (to_clean restored_demo_server) 0" "\<not> reject_requests restored_demo_server" "\<not> sanity_test_mode restored_demo_server"
    "modem_state restored_demo_server = 5"
    by (simp_all add: restored_demo_server_def crm_cli_abs_init_def cla_inv_def cla_ok_def zero_client_def no_flag_def)
  from client_state_restored [of cla_demo_param client_demo_env "[65]" client_demo_evts 8 c0 client_demo_run c 0 ST_OFF restored_demo_server 0]
  obtain s' where "for_loop (handle_client_msg cla_demo_param 0) (delivered c) (ST_OFF, restored_demo_server) = Some (ST_OFF, s')"
    "cl_name (clients s' ! 0) = [65]" "\<forall>i < 32. bit (cl_events (clients s' ! 0)) i \<longleftrightarrow> (\<exists>r \<in> set client_demo_evts. reg_id r = int i)"
    "acquired (clients s' ! 0) = asked_hold c"
    using c(1-4) own s demo_cli_ok k(2) unfolding k(1,3) by auto
  moreover have "bit (cl_events (clients s' ! 0)) 6" using calculation(3) by (auto simp: client_demo_evts_def)
  ultimately show ?thesis using c(1-4) unfolding k(3) by auto
qed

section \<open>Events have a callback\<close>

text \<open>The calls whose arguments the library can send and name in its log.\<close>

fun call_ok :: "mdm_cli \<Rightarrow> cli_call \<Rightarrow> bool" where
  "call_ok k (RestartModem rc dbg) \<longleftrightarrow> crm_mdmcli_restart_cause_to_string k rc \<noteq> None \<and> dbg_ok k dbg \<and>
     (case dbg of None \<Rightarrow> True | Some d \<Rightarrow> crm_mdmcli_dbg_type_to_string k (dtype d) \<noteq> None)"
| "call_ok k (NotifyDbg dbg) \<longleftrightarrow> dbg_ok k dbg \<and> (case dbg of None \<Rightarrow> True | Some d \<Rightarrow> crm_mdmcli_dbg_type_to_string k (dtype d) \<noteq> None)"
| "call_ok k x \<longleftrightarrow> True"

lemma wire_send_returns:
  assumes "mdm_cli_ok k" "wire_msg_ok k CRM_CLIENT_TO_SERVER m" "sock_fd c \<ge> 0"
  shows "\<exists>ok c'. wire_send k env m c = Some (ok, c')"
  using send_returns [OF assms(1,2)] assms(3) by (auto simp: wire_send_def Let_def)

lemma request_facts:
  assumes "mdm_cli_ok k" "MDM_NUM_EVENTS k \<le> i" "i \<le> MDM_NUM_EVENTS k + 9"
  shows "\<exists>t. crm_mdmcli_wire_req_to_string k i = Some t" "0 \<le> i" "i < 2 ^ 31" "i \<noteq> MDM_DBG_INFO k"
  using assms req_named [of k i] by (auto simp: mdm_cli_ok_def cli_events_def)

lemma simple_ok:
  assumes "mdm_cli_ok k" "CRM_REQ_ACQUIRE k \<le> i" "i \<noteq> CRM_REQ_RESTART k" "i < CRM_REQ_NOTIFY_DBG k"
  shows "wire_msg_ok k CRM_CLIENT_TO_SERVER (simple i)"
  using request_facts [of k i] assms by (simp add: wire_msg_ok_def body_ok_def)

lemma simple_returns:
  assumes "mdm_cli_ok k" "cli_inv k c" "CRM_REQ_ACQUIRE k \<le> i" "i \<noteq> CRM_REQ_RESTART k" "i < CRM_REQ_NOTIFY_DBG k"
  shows "\<exists>r c'. mdm_cli_send_simple_msg k env i c = Some (r, c')" "\<exists>r c'. hold_call k env i h c = Some (r, c')"
proof -
  obtain t where t: "crm_mdmcli_wire_req_to_string k i = Some t" using request_facts(1) [OF assms(1), of i] assms(3,5) by auto
  have w: "\<not> reconnecting c \<Longrightarrow> \<exists>ok c'. wire_send k env (simple i) c = Some (ok, c')"
    using wire_send_returns [OF assms(1) simple_ok [OF assms(1,3-5)]] assms(2) by (simp add: cli_inv_def)
  show "\<exists>r c'. mdm_cli_send_simple_msg k env i c = Some (r, c')"
    using t w by (cases "reconnecting c") (auto simp: mdm_cli_send_simple_msg_def)
  show "\<exists>r c'. hold_call k env i h c = Some (r, c')"
  proof (cases "reconnecting c")
    case False
    then obtain ok c1 where "wire_send k env (simple i) c = Some (ok, c1)" using w by blast
    then show ?thesis using t False by (cases ok) (simp_all add: hold_call_def)
  qed (use t in \<open>simp add: hold_call_def\<close>)
qed

lemma body_returns:
  assumes "mdm_cli_ok k" "cli_inv k c"
  shows "call_ok k (RestartModem rc dbg) \<Longrightarrow> \<exists>r c'. mdm_cli_restart k env rc dbg c = Some (r, c')"
    "call_ok k (NotifyDbg dbg) \<Longrightarrow> \<exists>r c'. mdm_cli_notify_dbg k env dbg c = Some (r, c')"
proof -
  have l: "(case dbg of None \<Rightarrow> True | Some d \<Rightarrow> crm_mdmcli_dbg_type_to_string k (dtype d) \<noteq> None) \<Longrightarrow> log_dbg k dbg = Some ()"
    by (cases dbg) (auto simp: log_dbg_def)
  have s: "\<not> reconnecting c \<Longrightarrow> wire_msg_ok k CRM_CLIENT_TO_SERVER m \<Longrightarrow> \<exists>ok c'. wire_send k env m c = Some (ok, c')" for m
    using wire_send_returns [OF assms(1)] assms(2) by (simp add: cli_inv_def)
  show "\<exists>r c'. mdm_cli_restart k env rc dbg c = Some (r, c')" if "call_ok k (RestartModem rc dbg)"
    using that l s [of "\<lparr>msg_id = CRM_REQ_RESTART k, msg = Restart rc dbg\<rparr>"] request_facts [OF assms(1), of "CRM_REQ_RESTART k"]
    by (cases "reconnecting c") (auto simp: mdm_cli_restart_def wire_msg_ok_def body_ok_def)
  show "\<exists>r c'. mdm_cli_notify_dbg k env dbg c = Some (r, c')" if "call_ok k (NotifyDbg dbg)"
    using that l s [of "\<lparr>msg_id = CRM_REQ_NOTIFY_DBG k, msg = Debug dbg\<rparr>"] request_facts [OF assms(1), of "CRM_REQ_NOTIFY_DBG k"]
    by (cases "reconnecting c") (auto simp: mdm_cli_notify_dbg_def wire_msg_ok_def body_ok_def)
qed

lemma call_op_returns:
  assumes "mdm_cli_ok k" "cli_inv k c" "call_ok k x"
  shows "\<exists>r c'. call_op k env x c = Some (r, c')"
  using assms(3) simple_returns [OF assms(1,2)] body_returns [OF assms(1,2)]
  by (cases x) (simp_all add: call_op_def hold_calls mdm_cli_shutdown_def mdm_cli_nvm_bckup_def mdm_cli_ack_cold_reset_def mdm_cli_ack_shutdown_def)

lemma call_returns:
  assumes "mdm_cli_ok k" "cli_inv k c" "call_ok k x"
  shows "\<exists>r c'. cli_call k env x c = Some (r, c')"
  using call_op_returns [OF assms, of env] by (auto simp: cli_call_def)

text \<open>The trace only grows.\<close>

lemma wire_send_grows: "wire_send k env m c = Some (ok, c') \<Longrightarrow> \<exists>xs. cli_io c' = cli_io c @ xs"
  using wire_send_eq(1) by (fastforce simp: cli_emit_def)

lemma call_grows: "cli_call k env x c = Some (r, c') \<Longrightarrow> \<exists>xs. cli_io c' = cli_io c @ xs"
  by (cases x; cases "reconnecting c")
    (auto simp: cli_call_def call_op_def cli_emit_def hold_calls hold_call_def mdm_cli_shutdown_def mdm_cli_nvm_bckup_def mdm_cli_ack_cold_reset_def
      mdm_cli_ack_shutdown_def mdm_cli_send_simple_msg_def mdm_cli_restart_def mdm_cli_notify_dbg_def bind_Some_iff
      dest!: wire_send_grows split: if_splits)

lemma calls_return:
  assumes "mdm_cli_ok k" "cli_inv k c" "\<forall>x \<in> set xs. call_ok k x"
  shows "\<exists>c'. cli_calls k env xs c = Some c' \<and> cli_inv k c' \<and> same_client c c' \<and> (\<exists>ys. cli_io c' = cli_io c @ ys)"
  using assms(2,3)
proof (induction xs arbitrary: c)
  case (Cons x xs)
  obtain r c1 where c1: "cli_call k env x c = Some (r, c1)" using call_returns [OF assms(1) Cons.prems(1), of x env] Cons.prems(2) by auto
  have i: "cli_inv k c1" "same_client c c1" using call_keeps [OF c1] Cons.prems(1) by (auto simp: keeps_def)
  obtain ys where ys: "cli_io c1 = cli_io c @ ys" using call_grows [OF c1] by blast
  obtain c' zs where "cli_calls k env xs c1 = Some c'" "cli_inv k c'" "same_client c1 c'" "cli_io c' = cli_io c1 @ zs"
    using Cons.IH [OF i(1)] Cons.prems(2) by auto
  then show ?case using c1 i(2) ys same_client_trans by auto
qed simp

lemma callback_returns:
  assumes "mdm_cli_ok k" "cli_inv k c" "\<forall>n. \<forall>x \<in> set (callback_calls env n). call_ok k x"
  shows "\<exists>ret c'. run_callback k env r d c = Some (ret, c') \<and> cli_inv k c' \<and> same_client c c' \<and>
    CliCallback (reg_id r) (reg_context r) d \<in> set (cli_io c')"
proof -
  let ?c = "cli_emit (CliCallback (reg_id r) (reg_context r) d) c"
  have "cli_inv k ?c" using assms(2) trace_emit(1) by (simp add: keeps_def)
  from calls_return [OF assms(1) this, of "callback_calls env (length (cli_io c))" env] assms(3)
  obtain c' ys where c': "cli_calls k env (callback_calls env (length (cli_io c))) ?c = Some c'" "cli_inv k c'" "same_client ?c c'"
    "cli_io c' = cli_io ?c @ ys" by auto
  then have "run_callback k env r d c = Some (callback_ret env (length (cli_io c)), c')" by (simp add: run_callback_def Let_def)
  moreover have "same_client c c'" using c'(3) by (simp add: same_client_def)
  moreover have "CliCallback (reg_id r) (reg_context r) d \<in> set (cli_io c')" using c'(4) by (simp add: cli_emit_def)
  ultimately show ?thesis using c'(2) by blast
qed

lemma simple_grows: "mdm_cli_send_simple_msg k env i c = Some (r, c') \<Longrightarrow> \<exists>xs. cli_io c' = cli_io c @ xs"
  by (cases "reconnecting c") (auto simp: mdm_cli_send_simple_msg_def bind_Some_iff dest!: wire_send_grows)

lemma event_handled:
  assumes "mdm_cli_ok k" "cli_inv k c" "\<forall>n. \<forall>x \<in> set (callback_calls env n). call_ok k x"
    and "log_event k m = Some ()" "r0 \<in> set (evts c)" "reg_id r0 = msg_id m"
  shows "\<exists>c' r. handle_event k env m c = Some c' \<and> r \<in> set (evts c) \<and> reg_id r = msg_id m \<and>
    CliCallback (msg_id m) (reg_context r) (event_data k m) \<in> set (cli_io c')"
proof -
  obtain r where r: "find (\<lambda>r. reg_id r = msg_id m) (evts c) = Some r" "r \<in> set (evts c)" "reg_id r = msg_id m"
    using assms(5,6) by (cases "find (\<lambda>r. reg_id r = msg_id m) (evts c)") (auto simp: find_None_iff find_Some_iff)
  obtain ret c1 where c1: "run_callback k env r (event_data k m) c = Some (ret, c1)" "cli_inv k c1"
    "CliCallback (msg_id m) (reg_context r) (event_data k m) \<in> set (cli_io c1)"
    using callback_returns [OF assms(1-3), of r "event_data k m"] r(3) by auto
  have ack: "\<exists>q c'. mdm_cli_send_simple_msg k env i c1 = Some (q, c') \<and> set (cli_io c1) \<subseteq> set (cli_io c')"
    if i: "i = CRM_REQ_ACK_COLD_RESET k \<or> i = CRM_REQ_ACK_SHUTDOWN k" for i
  proof -
    obtain q c' where c': "mdm_cli_send_simple_msg k env i c1 = Some (q, c')"
      using simple_returns(1) [OF assms(1) c1(2), of i env] i by auto
    obtain xs where "cli_io c' = cli_io c1 @ xs" using simple_grows [OF c'] by blast
    with c' show ?thesis by auto
  qed
  obtain q1 d1 q2 d2 where d: "mdm_cli_send_simple_msg k env (CRM_REQ_ACK_COLD_RESET k) c1 = Some (q1, d1)" "set (cli_io c1) \<subseteq> set (cli_io d1)"
    "mdm_cli_send_simple_msg k env (CRM_REQ_ACK_SHUTDOWN k) c1 = Some (q2, d2)" "set (cli_io c1) \<subseteq> set (cli_io d2)"
    using ack [OF disjI1 [OF refl]] ack [OF disjI2 [OF refl]] by (elim exE conjE) (rule that)
  have "handle_event k env m c = Some (if msg_id m = MDM_COLD_RESET k \<and> ret = 0 then d1 else if msg_id m = MDM_SHUTDOWN k \<and> ret = 0 then d2 else c1)"
    using assms(4) r(1) c1(1) d by (simp add: handle_event_def)
  then obtain c' where "handle_event k env m c = Some c'" "set (cli_io c1) \<subseteq> set (cli_io c')" using d by (auto split: if_splits)
  with r c1(3) show ?thesis by blast
qed

text \<open>
  An event CRM sends to a client is one the client has a callback for. Whatever happened before, when
  the client abstraction sends an event to a slot that has the events of the client's registration, the
  thread of the client hands it to the callback registered for it, with its context, and goes on: the
  assertion that a callback is found does not fail.
\<close>

theorem client_events_have_callback:
  assumes "crm_connect (cli p) env nm es request = Some (Some c0)" "cli_run (cli p) env as c0 = Some c" "\<not> reconnecting c"
    and "notify_cli_event_single p idx e ser s = Some s'" "out s' \<noteq> out s" "cl_events (clients s ! idx) = bitmap c0" "mdm_cli_ok (cli p)"
    and "msg_id m = e" "e = MDM_DBG_INFO (cli p) \<longrightarrow> (\<exists>d. msg m = Debug (Some d) \<and> crm_mdmcli_dbg_type_to_string (cli p) (dtype d) \<noteq> None)"
    and "\<forall>n. \<forall>x \<in> set (callback_calls env n). call_ok (cli p) x"
  shows "\<exists>c' r. mdmcli_iter (cli p) env (CliSock (Some m)) c = Some (True, c') \<and> r \<in> set es \<and> reg_id r = e \<and>
    CliCallback e (reg_context r) (event_data (cli p) m) \<in> set (cli_io c')"
proof -
  note f = connect_facts [OF assms(1)]
  have i: "cli_inv (cli p) c" "same_client c0 c" using run_client_inv [OF assms(2) f(1)] by auto
  obtain b cl w where n: "array_get (clients s) (int idx) = Some cl" "bit_at (cl_events cl) e = Some w"
    "if w then (\<exists>t. crm_mdmcli_wire_req_to_string (cli p) e = Some t) else s' = s"
    using assms(4) by (auto simp: notify_cli_event_single_def bind_Some_iff split: if_splits)
  then have w: "w" using assms(5) by (auto split: if_splits)
  have e: "bit_at (bitmap c0) e = Some True" using n(1,2) w assms(6) by (auto dest: array_get_SomeD)
  then have "0 \<le> e" "nat e < 32" "bit (bitmap c0) (nat e)" by (auto simp: bit_at_def split: if_splits)
  then obtain r0 where r0: "r0 \<in> set es" "reg_id r0 = e" using bitmap_bits [OF f(3), of "nat e"] by auto
  have "log_event (cli p) m = Some ()" using n(3) w assms(8,9) by (auto simp: log_event_def)
  from event_handled [OF assms(7) i(1) assms(10) this, of r0] r0 assms(8) f(2) i(2)
  show ?thesis using assms(3) by (auto simp: mdmcli_iter_def same_client_def)
qed

definition events_demo_server :: crm_cli_abs where
  "events_demo_server = restored_demo_server\<lparr>clients := (clients restored_demo_server)[0 := zero_client\<lparr>registered := True, cl_events := 65\<rparr>]\<rparr>"

lemma client_demo_bitmap:
  "crm_connect demo_cli client_demo_env [65] client_demo_evts (CRM_REQ_REGISTER demo_cli) = Some (Some c0) \<Longrightarrow> bitmap c0 = 65"
proof -
  assume "crm_connect demo_cli client_demo_env [65] client_demo_evts (CRM_REQ_REGISTER demo_cli) = Some (Some c0)"
  from connect_facts(3) [OF this] have b: "events_bitmap_of client_demo_evts 0 = Some (bitmap c0)" .
  have "events_bitmap_of client_demo_evts 0 = Some 65" by code_simp
  with b show ?thesis by simp
qed

theorem client_events_have_callback_witness:
  "\<exists>c c'. \<not> reconnecting c \<and> mdmcli_iter demo_cli client_demo_env (CliSock (Some (simple 0))) c = Some (True, c') \<and>
     CliCallback 0 1 None \<in> set (cli_io c')"
proof -
  obtain c0 c where c: "crm_connect demo_cli client_demo_env [65] client_demo_evts (CRM_REQ_REGISTER demo_cli) = Some (Some c0)"
    "cli_run demo_cli client_demo_env client_demo_run c0 = Some c" "\<not> reconnecting c"
    using client_demo_start by blast
  have "map_option out (notify_cli_event_single cla_demo_param 0 0 None events_demo_server) =
    Some (out events_demo_server @ [CliSend 0 [0, 0, 0, 0, 0, 0, 0, 8]])" by code_simp
  then obtain s' where s': "notify_cli_event_single cla_demo_param 0 0 None events_demo_server = Some s'" "out s' \<noteq> out events_demo_server" by auto
  have k: "cli cla_demo_param = demo_cli" "MDM_DBG_INFO demo_cli = 6" by (simp_all add: cla_demo_param_def demo_cli_def)
  have ev: "cl_events (clients events_demo_server ! 0) = bitmap c0"
    by (simp add: client_demo_bitmap [OF c(1)] events_demo_server_def restored_demo_server_def crm_cli_abs_init_def)
  from client_events_have_callback [of cla_demo_param client_demo_env "[65]" client_demo_evts "CRM_REQ_REGISTER demo_cli" c0 client_demo_run c 0 0 None
      events_demo_server s' "simple 0"] c s' ev demo_cli_ok
  obtain c' r where "mdmcli_iter demo_cli client_demo_env (CliSock (Some (simple 0))) c = Some (True, c')" "r \<in> set client_demo_evts" "reg_id r = 0"
    "CliCallback 0 (reg_context r) None \<in> set (cli_io c')"
    unfolding k by (auto simp: k(2) client_demo_env_def event_data_def)
  then show ?thesis using c(3) by (auto simp: client_demo_evts_def)
qed

section \<open>A debug notification without data\<close>

text \<open>A notification of all the clients, when the sockets work and no acknowledgement is awaited.\<close>

definition listeners :: "int \<Rightarrow> crm_cli_abs \<Rightarrow> nat list \<Rightarrow> nat list" where
  "listeners e s is = filter (\<lambda>i. \<not> bit (to_clean s) i \<and> bit (cl_events (clients s ! i)) (nat e)) is"

lemma notify_loop_eq:
  assumes "mdm_cli_ok (cli p)" "MDM_NUM_EVENTS (cli p) \<le> 32" "e \<in> set (cli_events (cli p))" "e \<noteq> MDM_COLD_RESET (cli p)" "e \<noteq> MDM_SHUTDOWN (cli p)"
    and "\<And>n. \<not> send_fails p n" "event_bytes (cli p) e ser = Some bs"
  shows "\<forall>i \<in> set is. i < 16 \<Longrightarrow> length (clients s) = 16 \<Longrightarrow> length (cl_fd s) = 16 \<Longrightarrow>
    for_loop (\<lambda>idx c. do { b \<leftarrow> bit_at (to_clean c) (int idx); if \<not> b then notify_cli_event_single p idx e ser c else Some c }) is s =
    Some (s\<lparr>out := out s @ map (\<lambda>i. CliSend (cl_fd s ! i) bs) (listeners e s is)\<rparr>)"
proof (induction "is" arbitrary: s)
  case Nil
  then show ?case by (simp add: listeners_def)
next
  case (Cons i "is")
  define s1 where "s1 = (if \<not> bit (to_clean s) i \<and> bit (cl_events (clients s ! i)) (nat e) then emit s (CliSend (cl_fd s ! i) bs) else s)"
  have one: "(if \<not> bit (to_clean s) i then notify_cli_event_single p i e ser s else Some s) = Some s1"
    using single_eq [OF assms(1-5) _ _ _ _ assms(6,7), of i s] Cons.prems by (simp add: s1_def)
  have same: "clients s1 = clients s" "cl_fd s1 = cl_fd s" "to_clean s1 = to_clean s" by (simp_all add: s1_def emit_def)
  have l: "listeners e s1 is = listeners e s is" by (simp add: listeners_def same)
  have "for_loop (\<lambda>idx c. do { b \<leftarrow> bit_at (to_clean c) (int idx); if \<not> b then notify_cli_event_single p idx e ser c else Some c }) is s1 =
      Some (s1\<lparr>out := out s1 @ map (\<lambda>i. CliSend (cl_fd s ! i) bs) (listeners e s is)\<rparr>)"
    using Cons.IH [of s1] Cons.prems unfolding l same by simp
  moreover have "s1\<lparr>out := out s1 @ map (\<lambda>i. CliSend (cl_fd s ! i) bs) (listeners e s is)\<rparr> =
      s\<lparr>out := out s @ map (\<lambda>i. CliSend (cl_fd s ! i) bs) (listeners e s (i # is))\<rparr>"
    by (simp add: s1_def emit_def listeners_def)
  ultimately show ?case using Cons.prems one by simp
qed

lemma null_debug_broadcast:
  assumes "serving base st i s" "registered (clients s ! i)" "mdm_cli_ok (cli p)" "MDM_NUM_EVENTS (cli p) \<le> 32" "\<And>n. \<not> send_fails p n"
    and "j < num_clients s" "\<not> bit (to_clean s) j" "bit (cl_events (clients s ! j)) (nat (MDM_DBG_INFO (cli p)))"
  shows "\<exists>s' bs. handle_client_msg p i \<lparr>msg_id = CRM_REQ_NOTIFY_DBG (cli p), msg = Debug None\<rparr> (st, s) = Some (st, s') \<and>
    CliSend (cl_fd s ! j) bs \<in> set (out s') \<and>
    (\<forall>rcv_buf. length rcv_buf = MSG_SIZE_MAX (cli p) \<longrightarrow>
      recv_msg (cli p) rcv_buf bs = Some (Some (\<lparr>msg_id = MDM_DBG_INFO (cli p), msg = Debug None\<rparr>, [])))"
proof -
  let ?k = "cli p"
  let ?m = "\<lparr>msg_id = MDM_DBG_INFO (cli p), msg = Debug None\<rparr>"
  have e: "MDM_DBG_INFO ?k \<in> set (cli_events ?k)" "MDM_DBG_INFO ?k \<noteq> MDM_COLD_RESET ?k" "MDM_DBG_INFO ?k \<noteq> MDM_SHUTDOWN ?k"
    using assms(3) by (auto simp: cli_events_def mdm_cli_ok_def)
  have ok: "wire_msg_ok ?k CRM_SERVER_TO_CLIENT ?m"
    using event_facts(1,2) [OF assms(3) e(1)] assms(3) by (auto simp: wire_msg_ok_def body_ok_def dbg_ok_def mdm_cli_ok_def)
  obtain bs where bs: "send_msg ?k CRM_SERVER_TO_CLIENT ?m = Some bs"
    "\<And>rcv_buf. length rcv_buf = MSG_SIZE_MAX ?k \<Longrightarrow> recv_msg ?k rcv_buf bs = Some (Some (?m, []))"
    using send_recv [OF assms(3) ok, where rest = "[]"] send_returns [OF assms(3) ok] by auto
  obtain ser where ser: "serialize_msg ?k CRM_SERVER_TO_CLIENT ?m = Some ser" "send_serialized_msg ?k ser = Some bs"
    using bs(1) by (auto simp: send_msg_def bind_Some_iff)
  have l: "length (clients s) = 16" "length (cl_fd s) = 16" "num_clients s \<le> 16" "i < 16" "\<not> bit (to_clean s) i"
    using assms(1) by (auto simp: serving_def cla_inv_def cla_ok_def)
  let ?s = "s\<lparr>out := out s @ map (\<lambda>i. CliSend (cl_fd s ! i) bs) (listeners (MDM_DBG_INFO ?k) s [0..<num_clients s])\<rparr>"
  obtain t u where t: "crm_mdmcli_wire_req_to_string ?k (MDM_DBG_INFO ?k) = Some t" "crm_mdmcli_wire_req_to_string ?k (CRM_REQ_NOTIFY_DBG ?k) = Some u"
    using event_facts(3) [OF assms(3) e(1)] request_facts(1) [OF assms(3), of "CRM_REQ_NOTIFY_DBG ?k"] by auto
  have "notify_cli_event_all p (MDM_DBG_INFO ?k) (Some ser) s = Some ?s"
    using notify_loop_eq [OF assms(3,4) e assms(5), of "Some ser" bs "[0..<num_clients s]" s] l t ser(2)
    by (simp add: notify_cli_event_all_def event_bytes_def)
  then have "handle_notify_dbg p None s = Some ?s" by (simp add: handle_notify_dbg_def ser(1))
  then have "handle_client_msg p i \<lparr>msg_id = CRM_REQ_NOTIFY_DBG ?k, msg = Debug None\<rparr> (st, s) = Some (st, ?s)"
    using serving_get [OF assms(1)] l assms(2) t(2) by (simp add: handle_client_msg_def dispatch_client_msg_def Let_def)
  moreover have "CliSend (cl_fd s ! j) bs \<in> set (out ?s)" using assms(6-8) by (auto simp: listeners_def)
  ultimately show ?thesis using bs(2) by blast
qed

text \<open>
  A client that notifies a debug event without data crashes the others. The library takes the call, the
  client abstraction forwards the event without data to every client registered for it, and the thread of
  such a client follows the null pointer when it logs the event.
\<close>

theorem null_debug_crashes_clients:
  assumes "\<not> reconnecting a" "sock_fd a \<ge> 0" "write_ok env (length (cli_io a))" "mdm_cli_ok (cli p)" "MDM_NUM_EVENTS (cli p) \<le> 32"
    and "serving base st i s" "registered (clients s ! i)" "\<forall>n. \<not> send_fails p n"
    and "j < num_clients s" "\<not> bit (to_clean s) j" "bit (cl_events (clients s ! j)) (nat (MDM_DBG_INFO (cli p)))" "\<not> reconnecting b"
  shows "\<exists>a' m s' bs m'. mdm_cli_notify_dbg (cli p) env None a = Some (0, a') \<and> delivered a' = delivered a @ [m] \<and>
    handle_client_msg p i m (st, s) = Some (st, s') \<and> CliSend (cl_fd s ! j) bs \<in> set (out s') \<and>
    (\<forall>rcv_buf. length rcv_buf = MSG_SIZE_MAX (cli p) \<longrightarrow> recv_msg (cli p) rcv_buf bs = Some (Some (m', []))) \<and>
    mdmcli_iter (cli p) env' (CliSock (Some m')) b = None"
proof -
  let ?m = "\<lparr>msg_id = CRM_REQ_NOTIFY_DBG (cli p), msg = Debug None\<rparr>"
  note q = request_facts [OF assms(4), of "CRM_REQ_NOTIFY_DBG (cli p)"]
  have "wire_msg_ok (cli p) CRM_CLIENT_TO_SERVER ?m" using q by (simp add: wire_msg_ok_def body_ok_def dbg_ok_def)
  then obtain bytes where "send_msg (cli p) CRM_CLIENT_TO_SERVER ?m = Some bytes" using send_returns [OF assms(4)] by blast
  then have "wire_send (cli p) env ?m a = Some (True, cli_emit (CliSent (sock_fd a) ?m True) a)" using assms(2,3) by (simp add: wire_send_def Let_def)
  then have "mdm_cli_notify_dbg (cli p) env None a = Some (0, cli_emit (CliSent (sock_fd a) ?m True) a)"
    using q(1) assms(1) by (auto simp: mdm_cli_notify_dbg_def log_dbg_def)
  moreover have "delivered (cli_emit (CliSent (sock_fd a) ?m True) a) = delivered a @ [?m]" by (simp add: delivered_emit)
  moreover have "mdmcli_iter (cli p) env' (CliSock (Some \<lparr>msg_id = MDM_DBG_INFO (cli p), msg = Debug None\<rparr>)) b = None"
    using assms(12) by (simp add: mdmcli_iter_def handle_event_def log_event_def)
  ultimately show ?thesis using null_debug_broadcast [OF assms(6,7,4,5) _ assms(9-11)] assms(8) by blast
qed

theorem null_debug_crashes_clients_witness:
  "\<exists>a. \<exists>a' m s' bs m'. mdm_cli_notify_dbg demo_cli client_demo_env None a = Some (0, a') \<and>
    handle_client_msg cla_demo_param 0 m (ST_OFF, events_demo_server) = Some (ST_OFF, s') \<and> CliSend 0 bs \<in> set (out s') \<and>
    mdmcli_iter demo_cli client_demo_env (CliSock (Some m')) a = None"
proof -
  obtain c0 where c0: "crm_connect demo_cli client_demo_env [65] client_demo_evts (CRM_REQ_REGISTER demo_cli) = Some (Some c0)"
    using client_demo_start by blast
  have a: "\<not> reconnecting c0" "sock_fd c0 \<ge> 0" using connect_facts(1,8) [OF c0] by (simp_all add: cli_inv_def)
  have k: "cli cla_demo_param = demo_cli" "\<forall>n. \<not> send_fails cla_demo_param n" "MDM_NUM_EVENTS demo_cli \<le> 32" "nat (MDM_DBG_INFO demo_cli) = 6"
    "write_ok client_demo_env (length (cli_io c0))" by (simp_all add: cla_demo_param_def demo_cli_def client_demo_env_def)
  have s: "serving 0 ST_OFF 0 events_demo_server" "registered (clients events_demo_server ! 0)" "num_clients events_demo_server = 1"
    "\<not> bit (to_clean events_demo_server) 0" "bit (cl_events (clients events_demo_server ! 0)) 6" "cl_fd events_demo_server ! 0 = 0"
    by code_simp+
  from null_debug_crashes_clients [of c0 client_demo_env cla_demo_param 0 ST_OFF 0 events_demo_server 0 c0 client_demo_env] a s demo_cli_ok k(2-)
  show ?thesis unfolding k(1,4) by auto
qed

end
