(* ===== verification/Crm_Hal_Sofia.thy ===== *)
theory Crm_Hal_Sofia
  imports Crm_Fsm Crm_Time Crm_File Crm_Hal_Contract
begin

text \<open>
  plugins/hal/sofia: the modem driver of the platforms where the modem is a virtual machine. The
  thread of the HAL runs a state machine fed by the requests of Control, by the kernel (a uevent
  says that the modem state of sysfs changed), by the ping thread and by the RPC daemon (files
  created in a watched directory), and reports to Control.

  \<open>out\<close> is the trace of what the HAL does to the outside: events sent to Control, writes to the
  modem's control file, properties set, files removed. The answers of the system are the record
  \<open>sofia_param\<close>; \<open>file_wr\<close> answers a write to a file by its position in the trace.
\<close>

section \<open>States and events\<close>

abbreviation (input) ST_INITIAL :: int where "ST_INITIAL \<equiv> 0"
abbreviation (input) ST_OFF :: int where "ST_OFF \<equiv> 1"
abbreviation (input) ST_BOOTING :: int where "ST_BOOTING \<equiv> 2"
abbreviation (input) ST_PINGING :: int where "ST_PINGING \<equiv> 3"
abbreviation (input) ST_WAITING_RPC :: int where "ST_WAITING_RPC \<equiv> 4"
abbreviation (input) ST_RUN :: int where "ST_RUN \<equiv> 5"
abbreviation (input) ST_STOPPING :: int where "ST_STOPPING \<equiv> 6"
abbreviation (input) ST_NEED_RESETTING :: int where "ST_NEED_RESETTING \<equiv> 7"
abbreviation (input) ST_NUM :: int where "ST_NUM \<equiv> 8"

abbreviation (input) EV_POWER :: int where "EV_POWER \<equiv> 0"
abbreviation (input) EV_BOOT :: int where "EV_BOOT \<equiv> 1"
abbreviation (input) EV_STOP :: int where "EV_STOP \<equiv> 2"
abbreviation (input) EV_RESET :: int where "EV_RESET \<equiv> 3"
abbreviation (input) EV_BACKUP :: int where "EV_BACKUP \<equiv> 4"
abbreviation (input) EV_MDM_OFF :: int where "EV_MDM_OFF \<equiv> 5"
abbreviation (input) EV_MDM_ON :: int where "EV_MDM_ON \<equiv> 6"
abbreviation (input) EV_MDM_TRAP :: int where "EV_MDM_TRAP \<equiv> 7"
abbreviation (input) EV_MDM_FW_FAIL :: int where "EV_MDM_FW_FAIL \<equiv> 8"
abbreviation (input) EV_MDM_RUN :: int where "EV_MDM_RUN \<equiv> 9"
abbreviation (input) EV_TIMEOUT :: int where "EV_TIMEOUT \<equiv> 10"
abbreviation (input) EV_RPC_DEAD :: int where "EV_RPC_DEAD \<equiv> 11"
abbreviation (input) EV_RPC_RUN :: int where "EV_RPC_RUN \<equiv> 12"
abbreviation (input) EV_NUM :: int where "EV_NUM \<equiv> 13"

abbreviation (input) TIMEOUT_MDM_OFF :: int where "TIMEOUT_MDM_OFF \<equiv> 100"
abbreviation (input) TIMEOUT_MDM_ON :: int where "TIMEOUT_MDM_ON \<equiv> 5000"
abbreviation (input) TIMEOUT_RPCD_START :: int where "TIMEOUT_RPCD_START \<equiv> 5000"
abbreviation (input) RECV_BUFFER :: nat where "RECV_BUFFER \<equiv> 1024"
abbreviation (input) MAX_WATCHED_PATH :: nat where "MAX_WATCHED_PATH \<equiv> 256"

section \<open>State\<close>

datatype hal_out =
    Notify crm_hal_evt
  | FileWrite string string
  | PropertySet string string
  | Unlink string

record crm_hal_ctx =
  uevent_vmodem :: string
  vmodem_sysfs_mdm_ctrl :: string
  dump_node :: string
  flash_node :: string
  dump_enabled :: bool
  silent_reset_enabled :: bool
  secvm_flash :: bool
  support_mdm_up_on_start :: bool
  stopping :: bool
  timer_armed :: bool
  timer_end :: timespec
  mdm_state :: int
  thread_ping :: bool
  rpcd_running :: bool
  out :: "hal_out list"

record sofia_param =
  now :: timespec
  file_wr :: "nat \<Rightarrow> file_io"
  net_state :: string
  cli :: mdm_cli

definition emit :: "crm_hal_ctx \<Rightarrow> hal_out \<Rightarrow> crm_hal_ctx" where
  "emit c o' = c\<lparr>out := out c @ [o']\<rparr>"

definition bytes_of :: "string \<Rightarrow> 8 word list" where
  "bytes_of s = map of_char s"

section \<open>Names\<close>

definition get_event_txt :: "int \<Rightarrow> string option" where
  "get_event_txt evt =
     (if evt = EV_POWER then Some ''REQ: power''
      else if evt = EV_BOOT then Some ''REQ: boot''
      else if evt = EV_STOP then Some ''REQ: stop''
      else if evt = EV_RESET then Some ''REQ: reset''
      else if evt = EV_MDM_OFF then Some ''MDM: off''
      else if evt = EV_MDM_ON then Some ''MDM: on''
      else if evt = EV_MDM_TRAP then Some ''MDM: trap''
      else if evt = EV_MDM_RUN then Some ''MDM: run''
      else if evt = EV_MDM_FW_FAIL then Some ''MDM: bad firmware''
      else if evt = EV_TIMEOUT then Some ''TIMEOUT''
      else if evt = EV_RPC_DEAD then Some ''RPC: dead''
      else if evt = EV_RPC_RUN then Some ''RPC: run''
      else None)"

definition get_state_txt :: "int \<Rightarrow> string option" where
  "get_state_txt state =
     (if state = ST_INITIAL then Some ''INITIAL''
      else if state = ST_OFF then Some ''OFF''
      else if state = ST_BOOTING then Some ''BOOTING''
      else if state = ST_PINGING then Some ''PINGING''
      else if state = ST_WAITING_RPC then Some ''WAIT RPC''
      else if state = ST_RUN then Some ''RUN''
      else if state = ST_STOPPING then Some ''STOPPING''
      else if state = ST_NEED_RESETTING then Some ''NEED RESET''
      else None)"

section \<open>Modem and RPC daemon\<close>

text \<open>modem.c: the modem is started and stopped by a write to a sysfs file.\<close>

definition write_ctrl :: "crm_hal_ctx \<Rightarrow> sofia_param \<Rightarrow> string \<Rightarrow> int \<times> crm_hal_ctx" where
  "write_ctrl c p val =
     (crm_file_write (file_wr p (length (out c))) val, emit c (FileWrite (vmodem_sysfs_mdm_ctrl c) val))"

definition crm_hal_start_modem :: "crm_hal_ctx \<Rightarrow> sofia_param \<Rightarrow> int \<times> crm_hal_ctx" where
  "crm_hal_start_modem c p = write_ctrl c p ''1''"

definition crm_hal_stop_modem :: "crm_hal_ctx \<Rightarrow> sofia_param \<Rightarrow> int \<times> crm_hal_ctx" where
  "crm_hal_stop_modem c p = write_ctrl c p ''0''"

text \<open>rpcd.c: the daemon is a service of the system.\<close>

abbreviation (input) RPCD_FOLDER :: string where "RPCD_FOLDER \<equiv> ''/data/telephony/crm''"
abbreviation (input) RPCD_STARTED :: string where "RPCD_STARTED \<equiv> ''rpcd_started''"
abbreviation (input) RPCD_STOPPED :: string where "RPCD_STOPPED \<equiv> ''rpcd_stopped''"
abbreviation (input) SERVICE_RPCD :: string where "SERVICE_RPCD \<equiv> ''rpc-daemon''"

definition crm_hal_rpcd_init :: "crm_hal_ctx \<Rightarrow> int \<Rightarrow> int \<Rightarrow> crm_hal_ctx option" where
  "crm_hal_rpcd_init c inotify watch = do {
     let c = (emit c (PropertySet ''ctl.stop'' SERVICE_RPCD))\<lparr>rpcd_running := False\<rparr>;
     let c = emit (emit c (Unlink (RPCD_FOLDER @ ''/'' @ RPCD_STARTED))) (Unlink (RPCD_FOLDER @ ''/'' @ RPCD_STOPPED));
     ASSERT (inotify \<ge> 0);
     ASSERT (watch \<ge> 0);
     Some c
   }"

definition crm_hal_rpcd_start :: "crm_hal_ctx \<Rightarrow> crm_hal_ctx option" where
  "crm_hal_rpcd_start c = do {
     ASSERT (rpcd_running c = False);
     Some (emit (c\<lparr>rpcd_running := True\<rparr>) (PropertySet ''ctl.start'' SERVICE_RPCD))
   }"

definition crm_hal_rpcd_stop :: "crm_hal_ctx \<Rightarrow> crm_hal_ctx option" where
  "crm_hal_rpcd_stop c = do {
     ASSERT (rpcd_running c = True);
     Some (emit (c\<lparr>rpcd_running := False\<rparr>) (PropertySet ''ctl.stop'' SERVICE_RPCD))
   }"

text \<open>
  The inotify events of one read, each with its file name (empty when the event has none). The
  kernel returns whole events, so the loop ends with nothing left in the buffer.
\<close>

fun rpcd_event_loop :: "string list \<Rightarrow> int \<Rightarrow> crm_hal_ctx \<Rightarrow> (int \<times> crm_hal_ctx) option" where
  "rpcd_event_loop [] fsm_evt c = Some (fsm_evt, c)"
| "rpcd_event_loop (name # es) fsm_evt c =
     (if name = RPCD_STOPPED \<or> name = RPCD_STARTED
      then do {
        ASSERT (fsm_evt = -1);
        let path = RPCD_FOLDER @ ''/'' @ name;
        ASSERT (length path < MAX_WATCHED_PATH);
        rpcd_event_loop es (if name = RPCD_STOPPED then EV_RPC_DEAD else EV_RPC_RUN) (emit c (Unlink path))
      }
      else rpcd_event_loop es fsm_evt c)"

definition crm_hal_rpcd_event :: "crm_hal_ctx \<Rightarrow> string list \<Rightarrow> (int \<times> crm_hal_ctx) option" where
  "crm_hal_rpcd_event c es = do {
     ASSERT (es \<noteq> []);
     rpcd_event_loop es (-1) c
   }"

section \<open>Operations\<close>

definition notify_ctrl :: "crm_hal_ctx \<Rightarrow> crm_hal_evt \<Rightarrow> crm_hal_ctx" where
  "notify_ctrl c e = emit c (Notify e)"

definition notify_ctrl_event_only :: "crm_hal_ctx \<Rightarrow> int \<Rightarrow> crm_hal_ctx" where
  "notify_ctrl_event_only c evt = notify_ctrl c \<lparr>hal_type = evt, nodes = '''', hal_dbg_info = None\<rparr>"

definition timer_start :: "crm_hal_ctx \<Rightarrow> timespec \<Rightarrow> int \<Rightarrow> crm_hal_ctx option" where
  "timer_start c t ms = do {
     ASSERT (timer_armed c = False);
     Some (c\<lparr>timer_armed := True, timer_end := crm_time_add_ms t ms\<rparr>)
   }"

definition get_timeout :: "timespec \<Rightarrow> crm_hal_ctx \<Rightarrow> int" where
  "get_timeout t c = (if timer_armed c = False then -1 else crm_time_get_remain_ms t (timer_end c))"

type_synonym hal_op = "crm_hal_ctx \<Rightarrow> sofia_param \<Rightarrow> (int \<times> crm_hal_ctx) option"

definition notify_run :: hal_op where
  "notify_run c p =
     (let c = notify_ctrl_event_only c HAL_MDM_RUN;
          c = (if net_state p = '''' \<or> hd (net_state p) \<noteq> CHR ''1''
               then emit c (PropertySet ''system.net_device.state'' ''1'') else c)
      in Some (ST_RUN, c))"

definition notify_flash :: hal_op where
  "notify_flash c p =
     (let c = notify_ctrl_event_only c HAL_MDM_BUSY
      in Some (ST_OFF, notify_ctrl c \<lparr>hal_type = HAL_MDM_FLASH, nodes = take 127 (flash_node c), hal_dbg_info = None\<rparr>))"

definition notify_off :: hal_op where
  "notify_off c p = Some (ST_OFF, notify_ctrl_event_only (notify_ctrl_event_only c HAL_MDM_BUSY) HAL_MDM_OFF)"

definition notify_off_only :: hal_op where
  "notify_off_only c p = Some (ST_OFF, notify_ctrl_event_only c HAL_MDM_OFF)"

definition notify_off_or_flash :: hal_op where
  "notify_off_or_flash c p = do {
     ASSERT (mdm_state c = EV_MDM_OFF);
     if stopping c then notify_off (c\<lparr>stopping := False\<rparr>) p else notify_flash c p
   }"

definition notify_need_reset :: "crm_hal_ctx \<Rightarrow> mdm_cli_dbg_info \<Rightarrow> (int \<times> crm_hal_ctx) option" where
  "notify_need_reset c dbg_info =
     (let c = notify_ctrl_event_only c HAL_MDM_BUSY;
          c = notify_ctrl c \<lparr>hal_type = HAL_MDM_NEED_RESET, nodes = '''', hal_dbg_info = Some dbg_info\<rparr>
      in Some (if EV_MDM_OFF = mdm_state c then ST_OFF else ST_NEED_RESETTING, c))"

definition hal_dbg :: "mdm_cli \<Rightarrow> 32 word \<Rightarrow> 8 word list list \<Rightarrow> mdm_cli_dbg_info" where
  "hal_dbg k ty ss = mk_dbg ty (DBG_DEFAULT_LOG_SIZE k) (DBG_DEFAULT_NO_LOG k) (DBG_DEFAULT_NO_LOG k) ss"

definition self_reset :: hal_op where
  "self_reset c p =
     (let (r, c) = crm_hal_stop_modem c p
      in notify_need_reset c (hal_dbg (cli p) (DBG_TYPE_SELF_RESET (cli p)) []))"

definition notify_trap_evt :: hal_op where
  "notify_trap_evt c p =
     (if dump_enabled c
      then let c = notify_ctrl_event_only c HAL_MDM_BUSY;
               c = notify_ctrl c \<lparr>hal_type = HAL_MDM_DUMP, nodes = take 127 (dump_node c), hal_dbg_info = None\<rparr>
           in Some (ST_NEED_RESETTING, c)
      else notify_need_reset c (hal_dbg (cli p) (DBG_TYPE_SELF_RESET (cli p)) []))"

definition notify_fw_failure :: hal_op where
  "notify_fw_failure c p =
     (let c = notify_ctrl_event_only c HAL_MDM_BUSY;
          dbg = hal_dbg (cli p) (DBG_TYPE_FW_FAILURE (cli p)) [bytes_of ''firmware is corrupted'']
      in Some (ST_OFF, notify_ctrl c \<lparr>hal_type = HAL_MDM_UNRESPONSIVE, nodes = '''', hal_dbg_info = Some dbg\<rparr>))"

definition notify_rpc_dead :: hal_op where
  "notify_rpc_dead c p =
     notify_need_reset c (hal_dbg (cli p) (DBG_TYPE_ERROR (cli p)) [bytes_of ''RPC dead''])"

definition notify_timeout :: hal_op where
  "notify_timeout c p =
     notify_need_reset c (hal_dbg (cli p) (DBG_TYPE_ERROR (cli p)) [bytes_of ''HAL timeout''])"

definition stop_mdm :: "crm_hal_ctx \<Rightarrow> sofia_param \<Rightarrow> bool \<Rightarrow> (int \<times> crm_hal_ctx) option" where
  "stop_mdm c p stop =
     (if EV_MDM_OFF = mdm_state c then Some (ST_OFF, c)
      else let (r, c) = crm_hal_stop_modem c p
           in if r = 0
              then do { c \<leftarrow> timer_start c (now p) TIMEOUT_MDM_OFF; Some (ST_STOPPING, c\<lparr>stopping := stop\<rparr>) }
              else Some (-2, c))"

definition request_stop :: hal_op where
  "request_stop c p = stop_mdm c p True"

definition request_reset :: hal_op where
  "request_reset c p = stop_mdm c p False"

definition start_ping :: hal_op where
  "start_ping c p = do {
     ASSERT (\<not> thread_ping c);
     Some (ST_PINGING, c\<lparr>thread_ping := True\<rparr>)
   }"

definition request_boot :: hal_op where
  "request_boot c p =
     (if secvm_flash c
      then if mdm_state c = EV_MDM_ON then start_ping c p
           else do { c \<leftarrow> timer_start c (now p) TIMEOUT_MDM_ON; Some (ST_BOOTING, c) }
      else let (r, c) = crm_hal_start_modem c p
           in if r = 0 then do { c \<leftarrow> timer_start c (now p) TIMEOUT_MDM_ON; Some (ST_BOOTING, c) }
              else Some (-2, c))"

definition modem_on :: hal_op where
  "modem_on c p = do { ASSERT (secvm_flash c); Some (-1, c) }"

definition reject :: hal_op where
  "reject c p = None"

definition assert :: hal_op where
  "assert c p = None"

definition start_rpcd :: hal_op where
  "start_rpcd c p = do {
     c \<leftarrow> crm_hal_rpcd_start c;
     c \<leftarrow> timer_start c (now p) TIMEOUT_RPCD_START;
     Some (ST_WAITING_RPC, c)
   }"

definition state_trans :: "int \<Rightarrow> int \<Rightarrow> int \<Rightarrow> crm_hal_ctx \<Rightarrow> sofia_param \<Rightarrow> crm_hal_ctx option" where
  "state_trans prev_state new_state evt c p =
     (if prev_state = ST_STOPPING \<or> prev_state = ST_BOOTING
      then do { ASSERT (timer_armed c = True); Some (c\<lparr>timer_armed := False\<rparr>) }
      else if prev_state = ST_PINGING
      then Some (if thread_ping c then c\<lparr>thread_ping := False\<rparr> else c)
      else if prev_state = ST_RUN then crm_hal_rpcd_stop c
      else if prev_state = ST_WAITING_RPC
      then do {
        ASSERT (timer_armed c = True);
        let c = c\<lparr>timer_armed := False\<rparr>;
        if new_state \<noteq> ST_RUN then crm_hal_rpcd_stop c else Some c
      }
      else Some c)"

section \<open>The table\<close>

abbreviation (input) cell :: "hal_op \<Rightarrow> (crm_hal_ctx, sofia_param) crm_fsm_ops" where
  "cell f \<equiv> \<lparr>force_new_state = -1, operation = Some f\<rparr>"

abbreviation (input) no_op :: "(crm_hal_ctx, sofia_param) crm_fsm_ops" where
  "no_op \<equiv> \<lparr>force_new_state = -1, operation = None\<rparr>"

definition sofia_rows :: "(crm_hal_ctx, sofia_param) crm_fsm_ops list list" where
  "sofia_rows =
    [[cell assert, cell notify_flash, cell reject, cell reject, cell reject, cell reject, cell reject, cell reject],
     [cell assert, cell request_boot, cell reject, cell reject, cell reject, cell reject, cell reject, cell reject],
     [cell assert, cell notify_off, cell reject, cell reject, cell reject, cell request_stop, cell reject, cell request_stop],
     [cell assert, cell notify_flash, cell reject, cell reject, cell reject, cell request_reset, cell reject, cell request_reset],
     [cell assert, cell assert, cell assert, cell assert, cell assert, cell assert, cell assert, cell assert],

     [cell notify_off_only, cell assert, cell self_reset, cell self_reset, cell self_reset, cell self_reset, cell notify_off_or_flash, cell assert],
     [cell start_ping, cell modem_on, cell start_ping, cell assert, cell assert, cell assert, cell assert, cell assert],
     [cell assert, cell notify_trap_evt, cell notify_trap_evt, cell notify_trap_evt, cell notify_trap_evt, cell notify_trap_evt, cell notify_trap_evt, cell notify_trap_evt],
     [cell assert, cell assert, cell notify_fw_failure, cell assert, cell assert, cell assert, cell assert, cell assert],
     [cell assert, cell assert, cell assert, cell start_rpcd, cell assert, cell assert, cell assert, cell assert],
     [cell assert, cell assert, cell notify_timeout, cell notify_timeout, cell notify_timeout, cell assert, cell assert, cell assert],

     [cell assert, no_op, no_op, no_op, cell notify_rpc_dead, cell notify_rpc_dead, no_op, no_op],
     [cell assert, cell assert, cell assert, cell assert, cell notify_run, cell assert, cell assert, cell assert]]"

definition sofia_fsm :: "(crm_hal_ctx, sofia_param) crm_fsm_ctx" where
  "sofia_fsm = \<lparr>fsm = concat sofia_rows, num_events = EV_NUM, num_states = ST_NUM,
     pre_op = None, state_trans = Some state_trans, failsafe = request_stop,
     get_state_txt = get_state_txt, get_event_txt = get_event_txt\<rparr>"

section \<open>The state of the modem\<close>

text \<open>\<open>strcasestr\<close>: the needle occurs in the text, whatever the case of the letters.\<close>

definition to_lower :: "char \<Rightarrow> char" where
  "to_lower ch = (let n = of_char ch :: nat in if 65 \<le> n \<and> n \<le> 90 then char_of (n + 32) else ch)"

fun occurs :: "string \<Rightarrow> string \<Rightarrow> bool" where
  "occurs needle [] = (needle = [])"
| "occurs needle (x # xs) = (take (length needle) (x # xs) = needle \<or> occurs needle xs)"

definition strcasestr :: "string \<Rightarrow> string \<Rightarrow> bool" where
  "strcasestr txt needle = occurs (map to_lower needle) (map to_lower txt)"

definition get_mdm_state_from_sysfs :: "file_io \<Rightarrow> int option" where
  "get_mdm_state_from_sysfs io = do {
     (err, buf) \<leftarrow> crm_file_read io 15;
     ASSERT (err = 0);
     let tmp = c_str buf;
     if strcasestr tmp ''trap'' then Some EV_MDM_TRAP
     else if strcasestr tmp ''turning_on'' \<or> strcasestr tmp ''shutting_down'' then Some (-1)
     else if strcasestr tmp ''on'' then Some EV_MDM_ON
     else if strcasestr tmp ''off'' then Some EV_MDM_OFF
     else if strcasestr tmp ''verify-fail'' then Some EV_MDM_FW_FAIL
     else None
   }"

text \<open>
  One reading of the uevent socket: the answer of the second \<open>poll\<close>, its error and input flags
  and the datagram, \<open>None\<close> when \<open>recv\<close> answers nothing. \<open>recv\<close> is given the whole
  buffer of 1024 bytes and the terminator is written after what was received.
\<close>

record uevent =
  ue_poll :: int
  ue_error :: bool
  ue_in :: bool
  ue_recv :: "string option"
  ue_sysfs :: file_io

definition is_modem_event :: "crm_hal_ctx \<Rightarrow> uevent \<Rightarrow> bool option" where
  "is_modem_event c u = do {
     ASSERT (ue_poll u \<noteq> 0);
     if ue_error u then Some False
     else if ue_in u
     then (case ue_recv u of
             None \<Rightarrow> Some False
           | Some b \<Rightarrow> do {
               tmp \<leftarrow> array_set (take RECV_BUFFER b @ replicate (RECV_BUFFER - length b) (CHR 0x00))
                        (int (length b)) (CHR 0x00);
               Some (c_str tmp = uevent_vmodem c)
             })
     else Some False
   }"

definition crm_hal_get_mdm_state :: "crm_hal_ctx \<Rightarrow> uevent \<Rightarrow> int option" where
  "crm_hal_get_mdm_state c u = do {
     b \<leftarrow> is_modem_event c u;
     if b then get_mdm_state_from_sysfs (ue_sysfs u) else Some (-1)
   }"

text \<open>
  The wait of the initialisation: what each \<open>poll\<close> brings before the deadline; the list ends when
  the time is up. \<open>None\<close> in the list is a \<open>poll\<close> that timed out.
\<close>

fun init_modem_loop :: "crm_hal_ctx \<Rightarrow> uevent option list \<Rightarrow> crm_hal_ctx option" where
  "init_modem_loop c [] = Some c"
| "init_modem_loop c (None # us) = Some c"
| "init_modem_loop c (Some u # us) =
     (if ue_in u
      then do {
        evt \<leftarrow> crm_hal_get_mdm_state c u;
        if evt \<noteq> -1
        then let c = c\<lparr>mdm_state := evt\<rparr>
             in if EV_MDM_OFF = mdm_state c \<or> EV_MDM_TRAP = mdm_state c then Some c else init_modem_loop c us
        else init_modem_loop c us
      }
      else init_modem_loop c us)"

definition crm_hal_init_modem ::
  "crm_hal_ctx \<Rightarrow> sofia_param \<Rightarrow> bool \<Rightarrow> file_io \<Rightarrow> uevent option list \<Rightarrow> crm_hal_ctx option" where
  "crm_hal_init_modem c p force_stop sysfs us = do {
     c \<leftarrow> (if silent_reset_enabled c
          then do {
            let cmd = ''set_coredump_config silent_reset=1'';
            ASSERT (crm_file_write (file_wr p (length (out c))) cmd = 0);
            Some (emit c (FileWrite (dump_node c) cmd))
          }
          else Some c);
     st \<leftarrow> get_mdm_state_from_sysfs sysfs;
     let c = c\<lparr>mdm_state := st\<rparr>;
     let stop_modem = (force_stop \<or> \<not> support_mdm_up_on_start c \<or> mdm_state c = EV_MDM_TRAP \<or>
                       mdm_state c = EV_MDM_FW_FAIL \<or> mdm_state c = -1);
     if stop_modem
     then do {
       let (r, c) = crm_hal_stop_modem c p;
       ASSERT (r = 0);
       init_modem_loop (c\<lparr>mdm_state := EV_MDM_OFF\<rparr>) us
     }
     else Some c
   }"

text \<open>The ping thread: what \<open>crm_hal_ping_modem\<close> answers decides the message it sends.\<close>

definition crm_hal_ping_modem_thread :: "int \<Rightarrow> int list" where
  "crm_hal_ping_modem_thread fd = (if fd > -2 then [if -1 = fd then EV_TIMEOUT else EV_MDM_RUN] else [])"

section \<open>The thread of the HAL\<close>

definition crm_hal_sofia_start ::
  "crm_hal_ctx \<Rightarrow> sofia_param \<Rightarrow> string \<Rightarrow> file_io \<Rightarrow> uevent option list \<Rightarrow> int \<Rightarrow> int \<Rightarrow>
   (int \<times> crm_hal_ctx) option" where
  "crm_hal_sofia_start c p first_start sysfs us inotify watch = do {
     let first = (first_start \<noteq> '''' \<and> hd first_start = CHR ''1'');
     let c = (if first then emit c (PropertySet ''sys.crm@.first_start'' ''0'') else c);
     c \<leftarrow> crm_hal_init_modem c p (\<not> first) sysfs us;
     c \<leftarrow> crm_hal_rpcd_init c inotify watch;
     st \<leftarrow> crm_fsm_init sofia_fsm ST_INITIAL ''HAL'';
     ASSERT (mdm_state c = EV_MDM_OFF \<or> mdm_state c = EV_MDM_ON);
     notify_event sofia_fsm st (mdm_state c) c p
   }"

text \<open>What an iteration of the loop finds after \<open>poll\<close>, in the order of the tests of the code.\<close>

datatype sofia_input =
    HalError
  | HalTimeout sofia_param
  | HalMsgs "(int \<times> sofia_param) list"
  | HalUevent uevent sofia_param
  | HalPing "int list" sofia_param
  | HalRpcd "string list" sofia_param
  | HalNothing

fun sofia_msgs :: "(int \<times> sofia_param) list \<Rightarrow> bool \<times> int \<times> crm_hal_ctx \<Rightarrow> (bool \<times> int \<times> crm_hal_ctx) option" where
  "sofia_msgs [] s = Some s"
| "sofia_msgs ((sc, p) # ms) (running, st, c) =
     (if sc = -1 then sofia_msgs ms (False, st, c)
      else do {
        (st, c) \<leftarrow> notify_event sofia_fsm st sc c p;
        sofia_msgs ms (running, st, c)
      })"

fun ping_msgs :: "int list \<Rightarrow> int \<Rightarrow> int option" where
  "ping_msgs [] evt = Some evt"
| "ping_msgs (m # ms) evt = do { ASSERT (evt = -1); ping_msgs ms m }"

definition sofia_iter :: "sofia_input \<Rightarrow> bool \<times> int \<times> crm_hal_ctx \<Rightarrow> (bool \<times> int \<times> crm_hal_ctx) option" where
  "sofia_iter inp s =
     (case s of (running, st, c) \<Rightarrow>
       (case inp of
          HalError \<Rightarrow> None
        | HalTimeout p \<Rightarrow> do {
            ASSERT (timer_armed c);
            (st, c) \<leftarrow> notify_event sofia_fsm st EV_TIMEOUT c p;
            Some (running, st, c)
          }
        | HalMsgs ms \<Rightarrow> sofia_msgs ms (running, st, c)
        | HalUevent u p \<Rightarrow> do {
            evt \<leftarrow> crm_hal_get_mdm_state c u;
            if evt \<noteq> -1
            then do {
              (st, c) \<leftarrow> notify_event sofia_fsm st evt (c\<lparr>mdm_state := evt\<rparr>) p;
              Some (running, st, c)
            }
            else Some (running, st, c)
          }
        | HalPing ms p \<Rightarrow> do {
            ASSERT (thread_ping c);
            evt \<leftarrow> ping_msgs ms (-1);
            (st, c) \<leftarrow> notify_event sofia_fsm st evt (c\<lparr>thread_ping := False\<rparr>) p;
            Some (running, st, c)
          }
        | HalRpcd es p \<Rightarrow> do {
            (evt, c) \<leftarrow> crm_hal_rpcd_event c es;
            if evt \<noteq> -1
            then do {
              (st, c) \<leftarrow> notify_event sofia_fsm st evt c p;
              Some (running, st, c)
            }
            else Some (running, st, c)
          }
        | HalNothing \<Rightarrow> None))"

fun crm_hal_sofia_fsm :: "sofia_input list \<Rightarrow> bool \<times> int \<times> crm_hal_ctx \<Rightarrow> (bool \<times> int \<times> crm_hal_ctx) option" where
  "crm_hal_sofia_fsm [] s = Some s"
| "crm_hal_sofia_fsm (i # is) s = (if fst s then do { s \<leftarrow> sofia_iter i s; crm_hal_sofia_fsm is s } else Some s)"

section \<open>Requests of Control\<close>

text \<open>plugins/hal/common/src/request.c: the identifier each request posts to the pipe of the HAL.\<close>

definition hal_power_on :: int where "hal_power_on = EV_POWER"

definition hal_boot :: int where "hal_boot = EV_BOOT"

definition hal_shutdown :: int where "hal_shutdown = EV_STOP"

definition hal_reset :: "int \<Rightarrow> int option" where
  "hal_reset ty =
     (if ty = RESET_WARM \<or> ty = RESET_COLD then Some EV_RESET
      else if ty = RESET_BACKUP then Some EV_BACKUP
      else None)"

lemmas hal_op_defs [crm_defs] = notify_run_def notify_flash_def notify_off_def notify_off_only_def
  notify_off_or_flash_def notify_need_reset_def self_reset_def notify_trap_evt_def notify_fw_failure_def
  notify_rpc_dead_def notify_timeout_def stop_mdm_def request_stop_def request_reset_def start_ping_def
  request_boot_def modem_on_def reject_def assert_def start_rpcd_def

lemmas hal_helper_defs [crm_defs] = emit_def notify_ctrl_def notify_ctrl_event_only_def timer_start_def
  write_ctrl_def crm_hal_start_modem_def crm_hal_stop_modem_def crm_hal_rpcd_start_def crm_hal_rpcd_stop_def
  state_trans_def

section \<open>The machine of the HAL\<close>

lemma sofia_shape: "length sofia_rows = 13" "\<forall>r \<in> set sofia_rows. length r = 8"
  by (simp_all add: sofia_rows_def)

interpretation sofia_table: fsm_table sofia_fsm sofia_rows 8 13
proof
  fix s :: int
  assume "0 \<le> s" "s < int 8"
  then show "\<exists>t. crm_fsm_ctx.get_state_txt sofia_fsm s = Some t"
    by (auto simp: sofia_fsm_def get_state_txt_def)
qed (simp_all add: sofia_fsm_def sofia_shape)

end
