(* ===== verification/Crm_Hal_Sofia_Props.thy ===== *)
theory Crm_Hal_Sofia_Props
  imports Crm_Hal_Sofia
begin

text \<open>
  The properties of the Sofia HAL: an invariant that ties the timer, the RPC daemon, the ping
  thread and the modem state to the state of the machine, and the contract with Control.
\<close>

section \<open>Invariant\<close>

definition hal_reports :: "hal_out list \<Rightarrow> int list" where
  "hal_reports os = concat (map (\<lambda>o'. case o' of Notify e \<Rightarrow> [hal_type e] | _ \<Rightarrow> []) os)"

lemma hal_reports_simps [simp]:
  "hal_reports [] = []"
  "hal_reports (os @ os') = hal_reports os @ hal_reports os'"
  "hal_reports (Notify e # os) = hal_type e # hal_reports os"
  "hal_reports (FileWrite x y # os) = hal_reports os"
  "hal_reports (PropertySet x y # os) = hal_reports os"
  "hal_reports (Unlink x # os) = hal_reports os"
  by (simp_all add: hal_reports_def)

text \<open>The part of the invariant about the resources of the HAL.\<close>

definition res_ok :: "int \<Rightarrow> crm_hal_ctx \<Rightarrow> bool" where
  "res_ok st c \<longleftrightarrow> 1 \<le> st \<and> st < ST_NUM \<and>
     timer_armed c = (st \<in> {ST_BOOTING, ST_WAITING_RPC, ST_STOPPING}) \<and>
     rpcd_running c = (st \<in> {ST_WAITING_RPC, ST_RUN})"

text \<open>What the machine knows about the modem.\<close>

definition mdm_ok :: "int \<Rightarrow> crm_hal_ctx \<Rightarrow> bool" where
  "mdm_ok st c \<longleftrightarrow>
     (st \<in> {ST_PINGING, ST_WAITING_RPC, ST_RUN} \<longrightarrow> mdm_state c = EV_MDM_ON) \<and>
     (st \<in> {ST_STOPPING, ST_NEED_RESETTING} \<longrightarrow> mdm_state c \<noteq> EV_MDM_OFF) \<and>
     (st = ST_OFF \<longrightarrow> mdm_state c \<noteq> EV_MDM_TRAP)"

definition sofia_inv :: "int \<Rightarrow> crm_hal_ctx \<Rightarrow> bool" where
  "sofia_inv st c \<longleftrightarrow> res_ok st c \<and> mdm_ok st c \<and> thread_ping c = (st = ST_PINGING)"

text \<open>What has to hold when an event is given to the machine: the loop writes the modem state before
  a modem event and forgets the ping thread before the event it sent.\<close>

definition event_ok :: "int \<Rightarrow> int \<Rightarrow> crm_hal_ctx \<Rightarrow> bool" where
  "event_ok evt st c \<longleftrightarrow>
     (if EV_MDM_OFF \<le> evt \<and> evt \<le> EV_MDM_FW_FAIL then mdm_state c = evt else mdm_ok st c) \<and>
     (if evt = EV_MDM_RUN \<or> evt = EV_TIMEOUT \<and> st = ST_PINGING then \<not> thread_ping c else thread_ping c = (st = ST_PINGING))"

lemma int_cases_13:
  assumes "0 \<le> n" "n < (13::int)"
  shows "n \<in> {0, 1, 2, 3, 4, 5, 6, 7, 8, 9, 10, 11, 12}"
  using assms unfolding insert_iff empty_iff by presburger

lemma int_cases_7:
  assumes "1 \<le> n" "n < (8::int)"
  shows "n \<in> {1, 2, 3, 4, 5, 6, 7}"
  using assms unfolding insert_iff empty_iff by presburger

text \<open>What an operation of the table does, in the state it is called in: it stays, or it asks for
  the failsafe operation having done nothing but a write, or it moves the machine to a state the
  resources agree with once the exit action is done.\<close>

definition grows :: "crm_hal_ctx \<Rightarrow> crm_hal_ctx \<Rightarrow> bool" where
  "grows c c' \<longleftrightarrow> (\<exists>ts. hal_reports (out c') = hal_reports (out c) @ ts \<and> paired False ts)"

definition moves :: "int \<Rightarrow> crm_hal_ctx \<Rightarrow> int \<Rightarrow> crm_hal_ctx \<Rightarrow> bool" where
  "moves st c s c' \<longleftrightarrow> grows c c' \<and> 1 \<le> s \<and> s < ST_NUM \<and> mdm_ok s c' \<and>
     (timer_armed c' = (timer_armed c \<or> s \<in> {ST_BOOTING, ST_WAITING_RPC, ST_STOPPING})) \<and>
     (timer_armed c \<longrightarrow> s \<notin> {ST_BOOTING, ST_WAITING_RPC, ST_STOPPING}) \<and>
     (rpcd_running c' = (rpcd_running c \<or> s = ST_WAITING_RPC)) \<and>
     (s = ST_RUN \<longrightarrow> st = ST_WAITING_RPC) \<and> (s = ST_WAITING_RPC \<longrightarrow> st = ST_PINGING) \<and>
     (thread_ping c' = (thread_ping c \<or> s = ST_PINGING)) \<and> (s = ST_PINGING \<longrightarrow> st \<noteq> ST_PINGING)"

lemma state_trans_effect:
  assumes "state_trans st s evt c p = Some c'"
  shows "hal_reports (out c') = hal_reports (out c) \<and> mdm_state c' = mdm_state c \<and>
    timer_armed c' = (timer_armed c \<and> st \<notin> {ST_BOOTING, ST_WAITING_RPC, ST_STOPPING}) \<and>
    rpcd_running c' = (rpcd_running c \<and> \<not> (st = ST_RUN \<or> st = ST_WAITING_RPC \<and> s \<noteq> ST_RUN)) \<and>
    thread_ping c' = (thread_ping c \<and> st \<noteq> ST_PINGING)"
  using assms
  by (auto simp: state_trans_def crm_hal_rpcd_stop_def emit_def Let_def split: if_splits)

lemma sofia_trans:
  assumes "moves st c s c1" "res_ok st c" "thread_ping c \<longrightarrow> st = ST_PINGING"
    "(if st \<noteq> s then state_trans st s evt c1 p else Some c1) = Some c'"
  shows "sofia_inv s c' \<and> grows c c'"
proof (cases "st = s")
  case True
  then have "c' = c1" using assms(4) by simp
  with True assms(1-3) show ?thesis
    by (auto simp: moves_def sofia_inv_def res_ok_def)
next
  case False
  then have t: "state_trans st s evt c1 p = Some c'" using assms(4) by simp
  have m: "mdm_ok s c'" using assms(1) state_trans_effect [OF t] by (simp add: moves_def mdm_ok_def)
  have g: "grows c c'" using assms(1) state_trans_effect [OF t] by (simp add: moves_def grows_def)
  let ?T = "{ST_BOOTING, ST_WAITING_RPC, ST_STOPPING}"
  have "timer_armed c = (st \<in> ?T)" "timer_armed c1 = (timer_armed c \<or> s \<in> ?T)" "timer_armed c \<longrightarrow> s \<notin> ?T"
    "timer_armed c' = (timer_armed c1 \<and> st \<notin> ?T)"
    using assms(1,2) state_trans_effect [OF t] unfolding moves_def res_ok_def by fast+
  then have a: "timer_armed c' = (s \<in> ?T)" by blast
  have "rpcd_running c = (st \<in> {ST_WAITING_RPC, ST_RUN})"
    "rpcd_running c1 = (rpcd_running c \<or> s = ST_WAITING_RPC)" "s = ST_RUN \<longrightarrow> st = ST_WAITING_RPC"
    "s = ST_WAITING_RPC \<longrightarrow> st = ST_PINGING"
    "rpcd_running c' = (rpcd_running c1 \<and> \<not> (st = ST_RUN \<or> st = ST_WAITING_RPC \<and> s \<noteq> ST_RUN))"
    using assms(1,2) state_trans_effect [OF t] unfolding moves_def res_ok_def by fast+
  then have b: "rpcd_running c' = (s \<in> {ST_WAITING_RPC, ST_RUN})" by auto
  have d: "thread_ping c' = (s = ST_PINGING)" "1 \<le> s" "s < ST_NUM"
    using assms(1,3) state_trans_effect [OF t] unfolding moves_def by fast+
  from a b d m g show ?thesis unfolding sofia_inv_def res_ok_def by fast
qed

text \<open>The operations, each in the states whose cell has it.\<close>

lemma moves_notify_flash:
  "notify_flash c p = Some (s, c') \<Longrightarrow> mdm_state c \<noteq> EV_MDM_TRAP \<Longrightarrow> moves st c s c'"
  "notify_off c p = Some (s, c') \<Longrightarrow> mdm_state c \<noteq> EV_MDM_TRAP \<Longrightarrow> moves st c s c'"
  by (auto simp: notify_flash_def notify_off_def hal_helper_defs moves_def grows_def mdm_ok_def Let_def)

lemma moves_off_or_flash:
  "notify_off_or_flash c p = Some (s, c') \<Longrightarrow> moves st c s c'"
  by (auto simp: notify_off_or_flash_def notify_flash_def notify_off_def hal_helper_defs moves_def grows_def
      mdm_ok_def Let_def split: if_splits)

lemma moves_need_reset:
  "notify_need_reset c d = Some (s, c') \<Longrightarrow> moves st c s c'"
  by (auto simp: notify_need_reset_def hal_helper_defs moves_def grows_def mdm_ok_def Let_def split: if_splits)

lemma moves_self_reset:
  "self_reset c p = Some (s, c') \<Longrightarrow> moves st c s c'"
  by (auto simp: self_reset_def notify_need_reset_def hal_helper_defs moves_def grows_def mdm_ok_def Let_def
      split: if_splits)

lemma moves_trap:
  "notify_trap_evt c p = Some (s, c') \<Longrightarrow> mdm_state c = EV_MDM_TRAP \<Longrightarrow> moves st c s c'"
  by (auto simp: notify_trap_evt_def notify_need_reset_def hal_helper_defs moves_def grows_def mdm_ok_def Let_def
      split: if_splits)

lemma moves_fw_failure:
  "notify_fw_failure c p = Some (s, c') \<Longrightarrow> mdm_state c = EV_MDM_FW_FAIL \<Longrightarrow> moves st c s c'"
  by (auto simp: notify_fw_failure_def hal_helper_defs moves_def grows_def mdm_ok_def Let_def)

lemma moves_run:
  "notify_run c p = Some (s, c') \<Longrightarrow> mdm_state c = EV_MDM_ON \<Longrightarrow> moves ST_WAITING_RPC c s c'"
  by (auto simp: notify_run_def hal_helper_defs moves_def grows_def mdm_ok_def Let_def split: if_splits)

lemma moves_start_ping:
  "start_ping c p = Some (s, c') \<Longrightarrow> mdm_state c = EV_MDM_ON \<Longrightarrow> st \<noteq> ST_PINGING \<Longrightarrow> moves st c s c'"
  by (auto simp: start_ping_def moves_def grows_def mdm_ok_def)

lemma moves_start_rpcd:
  "start_rpcd c p = Some (s, c') \<Longrightarrow> mdm_state c = EV_MDM_ON \<Longrightarrow> moves ST_PINGING c s c'"
  by (auto simp: start_rpcd_def hal_helper_defs bind_Some_iff moves_def grows_def mdm_ok_def)

text \<open>A failed write changes nothing the invariant looks at.\<close>

definition quiet :: "crm_hal_ctx \<Rightarrow> crm_hal_ctx \<Rightarrow> bool" where
  "quiet c c' \<longleftrightarrow> hal_reports (out c') = hal_reports (out c) \<and> mdm_state c' = mdm_state c \<and>
     timer_armed c' = timer_armed c \<and> rpcd_running c' = rpcd_running c \<and> thread_ping c' = thread_ping c"

lemma moves_quiet: "moves st c1 s c' \<Longrightarrow> quiet c c1 \<Longrightarrow> moves st c s c'"
  by (simp add: moves_def quiet_def grows_def)

lemma stop_mdm_effect:
  assumes "stop_mdm c p stop = Some (s, c')"
  shows "s = -2 \<and> quiet c c' \<or> moves st c s c'"
  using assms
  by (auto simp: stop_mdm_def hal_helper_defs moves_def grows_def mdm_ok_def quiet_def bind_Some_iff Let_def
      split: if_splits)

lemma request_boot_effect:
  assumes "request_boot c p = Some (s, c')"
  shows "s = -2 \<and> quiet c c' \<or> moves ST_OFF c s c'"
  using assms
  by (auto simp: request_boot_def start_ping_def hal_helper_defs moves_def grows_def mdm_ok_def quiet_def
      bind_Some_iff Let_def split: if_splits)

definition cell_ok :: "int \<Rightarrow> int \<Rightarrow> (crm_hal_ctx, sofia_param) crm_fsm_ops \<Rightarrow> bool" where
  "cell_ok evt st cl \<longleftrightarrow> force_new_state cl = -1 \<and>
     (case operation cl of
        None \<Rightarrow> \<not> (EV_MDM_OFF \<le> evt \<and> evt \<le> EV_TIMEOUT)
      | Some f \<Rightarrow> (\<forall>c p s c'. event_ok evt st c \<longrightarrow> f c p = Some (s, c') \<longrightarrow>
          s = -1 \<and> c' = c \<and> st = ST_OFF \<and> evt = EV_MDM_ON \<or> s = -2 \<and> quiet c c' \<or> moves st c s c'))"

lemma sofia_cells:
  assumes "evt \<in> {0, 1, 2, 3, 4, 5, 6, 7, 8, 9, 10, 11, 12}" "st \<in> {1, 2, 3, 4, 5, 6, 7}"
  shows "cell_ok evt st (sofia_rows ! nat evt ! nat st)"
  using assms
  by (elim insertE emptyE; hypsubst)
    (simp_all add: sofia_rows_def cell_ok_def assert_def reject_def event_ok_def mdm_ok_def
      modem_on_def request_stop_def request_reset_def notify_rpc_dead_def notify_timeout_def
      moves_notify_flash moves_off_or_flash moves_need_reset moves_self_reset moves_trap moves_fw_failure
      moves_run moves_start_ping moves_start_rpcd stop_mdm_effect request_boot_effect)

lemma sofia_hooks:
  "crm_fsm_ctx.pre_op sofia_fsm = None" "crm_fsm_ctx.state_trans sofia_fsm = Some state_trans"
  "crm_fsm_ctx.failsafe sofia_fsm = request_stop" "crm_fsm_ctx.get_state_txt sofia_fsm = get_state_txt"
  "crm_fsm_ctx.get_event_txt sofia_fsm = get_event_txt"
  by (simp_all add: sofia_fsm_def)

lemma sofia_notify_eq:
  assumes "0 \<le> st" "st < 8" "0 \<le> evt" "evt < 13"
  shows "notify_event sofia_fsm st evt c p = do {
     get_event_txt evt;
     (s, err, c) \<leftarrow> run_operation sofia_fsm (sofia_rows ! nat evt ! nat st) st c p;
     let s = (if \<not> err \<and> -1 \<noteq> force_new_state (sofia_rows ! nat evt ! nat st)
              then force_new_state (sofia_rows ! nat evt ! nat st) else s);
     get_state_txt s;
     c \<leftarrow> (if st \<noteq> s then state_trans st s evt c p else Some c);
     check_state sofia_fsm s;
     Some (s, c)
   }"
  using sofia_table.notify_eq [of st evt c p] assms unfolding sofia_hooks option.case by simp

lemma sofia_notify:
  assumes "notify_event sofia_fsm st evt c p = Some (st', c')" "res_ok st c" "event_ok evt st c"
  shows "sofia_inv st' c' \<and> grows c c'"
proof -
  have st: "0 \<le> st" "st < 8" "st \<in> {1, 2, 3, 4, 5, 6, 7}"
    using assms(2) int_cases_7 [of st] by (auto simp: res_ok_def)
  then have e: "0 \<le> evt" "evt < 13" using sofia_table.evt_range [OF assms(1)] by auto
  let ?cl = "sofia_rows ! nat evt ! nat st"
  have cl: "cell_ok evt st ?cl" using sofia_cells int_cases_13 [OF e] st(3) by blast
  have f: "force_new_state ?cl = -1" using cl by (simp add: cell_ok_def)
  obtain err c1 where run: "run_operation sofia_fsm ?cl st c p = Some (st', err, c1)"
    and tx: "get_state_txt st' \<noteq> None"
    and tr: "(if st \<noteq> st' then state_trans st st' evt c1 p else Some c1) = Some c'"
    using assms(1) unfolding sofia_notify_eq [OF st(1,2) e] f
    by (auto simp: bind_Some_iff Let_def)
  have ping: "thread_ping c \<longrightarrow> st = ST_PINGING" using assms(3) by (auto simp: event_ok_def split: if_splits)
  show ?thesis
  proof (cases "operation ?cl")
    case None
    then have "\<not> (EV_MDM_OFF \<le> evt \<and> evt \<le> EV_TIMEOUT)" "st' = st" "c' = c"
      using cl run tr by (auto simp: cell_ok_def run_operation_def)
    with assms(2,3) show ?thesis
      by (auto simp: event_ok_def sofia_inv_def grows_def split: if_splits)
  next
    case (Some op)
    obtain s2 c2 where op: "op c p = Some (s2, c2)"
      and r: "(if s2 = -1 then Some (st, False, c2)
        else if s2 \<le> -2 then (do { (s3, c3) \<leftarrow> request_stop c2 p; Some (s3, True, c3) })
        else Some (s2, False, c2)) = Some (st', err, c1)"
      using run unfolding run_operation_def Some sofia_hooks by (auto simp: bind_Some_iff)
    consider "s2 = -1" "c2 = c" "st = ST_OFF" "evt = EV_MDM_ON" | "s2 = -2" "quiet c c2" | "moves st c s2 c2"
      using cl Some op assms(3) by (auto simp: cell_ok_def)
    then show ?thesis
    proof cases
      case 1
      with r tr have "st' = st" "c' = c" by auto
      with 1 assms(2,3) show ?thesis by (simp add: event_ok_def sofia_inv_def grows_def mdm_ok_def)
    next
      case 2
      then have "request_stop c2 p = Some (st', c1)" using r by (auto simp: bind_Some_iff)
      then have "st' = -2 \<or> moves st c2 st' c1" using stop_mdm_effect by (fastforce simp: request_stop_def)
      then have "moves st c st' c1" using tx 2 moves_quiet by (auto simp: get_state_txt_def)
      then show ?thesis using sofia_trans assms(2) ping tr by blast
    next
      case 3
      then have "st' = s2" "c1 = c2" using r by (auto simp: moves_def)
      then show ?thesis using sofia_trans 3 assms(2) ping tr by blast
    qed
  qed
qed

section \<open>The loop\<close>

text \<open>
  What the other parts of the program send: requests of Control or the stop message, and the one
  message of the ping thread.
\<close>

fun sofia_input_ok :: "sofia_input \<Rightarrow> bool" where
  "sofia_input_ok (HalMsgs ms) = (\<forall>(sc, p) \<in> set ms. sc = -1 \<or> EV_POWER \<le> sc \<and> sc \<le> EV_BACKUP)"
| "sofia_input_ok (HalPing ms p) = (ms \<noteq> [] \<and> (\<exists>fd. ms = crm_hal_ping_modem_thread fd))"
| "sofia_input_ok _ = True"

lemma grows_refl: "grows c c" by (simp add: grows_def)

lemma grows_trans: "grows a b \<Longrightarrow> grows b c \<Longrightarrow> grows a c"
  unfolding grows_def by (metis append_assoc paired_append)

lemma sofia_inv_request:
  "sofia_inv st c \<Longrightarrow> \<not> (EV_MDM_OFF \<le> evt \<and> evt \<le> EV_TIMEOUT) \<Longrightarrow> res_ok st c \<and> event_ok evt st c"
  by (auto simp: sofia_inv_def event_ok_def)

lemma sofia_msgs_inv:
  assumes "sofia_msgs ms (r, st, c) = Some (r', st', c')" "sofia_inv st c" "sofia_input_ok (HalMsgs ms)"
  shows "sofia_inv st' c' \<and> grows c c'"
  using assms
proof (induction ms arbitrary: r st c)
  case Nil
  then show ?case by (simp add: grows_refl)
next
  case (Cons m ms)
  obtain sc p where m: "m = (sc, p)" by force
  show ?case
  proof (cases "sc = -1")
    case True
    with Cons m show ?thesis by simp
  next
    case False
    then obtain st1 c1 where n: "notify_event sofia_fsm st sc c p = Some (st1, c1)"
      and r: "sofia_msgs ms (r, st1, c1) = Some (r', st', c')"
      using Cons.prems(1) m by (auto simp: bind_Some_iff)
    have "sofia_inv st1 c1 \<and> grows c c1"
      using sofia_notify [OF n] sofia_inv_request [OF Cons.prems(2), of sc] Cons.prems(3) m False by auto
    with Cons.IH [OF r] Cons.prems(3) grows_trans show ?thesis by auto
  qed
qed

lemma mdm_state_values:
  assumes "crm_hal_get_mdm_state c u = Some evt" "evt \<noteq> -1"
  shows "EV_MDM_OFF \<le> evt \<and> evt \<le> EV_MDM_FW_FAIL"
  using assms
  by (auto simp: crm_hal_get_mdm_state_def get_mdm_state_from_sysfs_def bind_Some_iff Let_def split: if_splits)

lemma rpcd_event_loop_effect:
  assumes "rpcd_event_loop es e c = Some (evt, c')"
  shows "(evt = e \<or> evt = EV_RPC_DEAD \<or> evt = EV_RPC_RUN) \<and> quiet c c'"
  using assms
proof (induction es e c rule: rpcd_event_loop.induct)
  case (1 e c)
  then show ?case by (simp add: quiet_def)
next
  case (2 name es e c)
  then show ?case by (auto simp: quiet_def emit_def Let_def split: if_splits)
qed

lemma quiet_inv: "quiet c c' \<Longrightarrow> sofia_inv st c' = sofia_inv st c"
  by (simp add: quiet_def sofia_inv_def res_ok_def mdm_ok_def)

lemma quiet_grows: "quiet c c' \<Longrightarrow> grows c c'"
  by (simp add: quiet_def grows_def)

lemma sofia_iter_inv:
  assumes "sofia_iter inp (r, st, c) = Some (r', st', c')" "sofia_inv st c" "sofia_input_ok inp"
  shows "sofia_inv st' c' \<and> grows c c'"
proof (cases inp)
  case (HalTimeout p)
  then have "timer_armed c" and n: "notify_event sofia_fsm st EV_TIMEOUT c p = Some (st', c')"
    using assms(1) by (auto simp: sofia_iter_def bind_Some_iff)
  with assms(2) have "res_ok st c \<and> event_ok EV_TIMEOUT st c"
    by (auto simp: sofia_inv_def event_ok_def res_ok_def)
  with sofia_notify [OF n] show ?thesis by simp
next
  case (HalMsgs ms)
  with assms sofia_msgs_inv show ?thesis by (auto simp: sofia_iter_def)
next
  case (HalUevent u p)
  then obtain evt where e: "crm_hal_get_mdm_state c u = Some evt"
    "(if evt \<noteq> -1 then notify_event sofia_fsm st evt (c\<lparr>mdm_state := evt\<rparr>) p else Some (st, c)) = Some (st', c')"
    using assms(1) by (auto simp: sofia_iter_def bind_Some_iff split: if_splits)
  show ?thesis
  proof (cases "evt = -1")
    case True
    with e assms(2) show ?thesis by (simp add: grows_refl)
  next
    case False
    have "res_ok st (c\<lparr>mdm_state := evt\<rparr>) \<and> event_ok evt st (c\<lparr>mdm_state := evt\<rparr>)"
      using assms(2) mdm_state_values [OF e(1) False] by (auto simp: sofia_inv_def res_ok_def event_ok_def)
    with sofia_notify e(2) False show ?thesis by (fastforce simp: grows_def)
  qed
next
  case (HalPing ms p)
  then obtain fd where fd: "ms = crm_hal_ping_modem_thread fd" "ms \<noteq> []" using assms(3) by auto
  obtain evt where t: "thread_ping c" and e: "ping_msgs ms (-1) = Some evt"
    and n: "notify_event sofia_fsm st evt (c\<lparr>thread_ping := False\<rparr>) p = Some (st', c')"
    using assms(1) HalPing by (auto simp: sofia_iter_def bind_Some_iff)
  have "evt = EV_TIMEOUT \<or> evt = EV_MDM_RUN"
    using e fd by (auto simp: crm_hal_ping_modem_thread_def split: if_splits)
  then have "res_ok st (c\<lparr>thread_ping := False\<rparr>) \<and> event_ok evt st (c\<lparr>thread_ping := False\<rparr>)"
    using assms(2) t by (auto simp: sofia_inv_def res_ok_def event_ok_def mdm_ok_def)
  with sofia_notify [OF n] show ?thesis by (simp add: grows_def)
next
  case (HalRpcd es p)
  then obtain evt c1 where e: "crm_hal_rpcd_event c es = Some (evt, c1)"
    "(if evt \<noteq> -1 then notify_event sofia_fsm st evt c1 p else Some (st, c1)) = Some (st', c')"
    using assms(1) by (auto simp: sofia_iter_def bind_Some_iff split: if_splits)
  then have "rpcd_event_loop es (-1) c = Some (evt, c1)" by (simp add: crm_hal_rpcd_event_def)
  from rpcd_event_loop_effect [OF this] have q: "evt = -1 \<or> evt = EV_RPC_DEAD \<or> evt = EV_RPC_RUN" "quiet c c1"
    by auto
  have i: "sofia_inv st c1" "grows c c1" using assms(2) quiet_inv quiet_grows q(2) by auto
  show ?thesis
  proof (cases "evt = -1")
    case True
    with e i show ?thesis by simp
  next
    case False
    then have n: "notify_event sofia_fsm st evt c1 p = Some (st', c')" using e(2) by simp
    show ?thesis
      using sofia_notify [OF n] sofia_inv_request [OF i(1), of evt] q(1) False i(2) grows_trans by auto
  qed
qed (use assms in \<open>simp_all add: sofia_iter_def\<close>)

text \<open>The thread as a driver of the contract.\<close>

definition sofia_step :: "sofia_input \<Rightarrow> bool \<times> int \<times> crm_hal_ctx \<Rightarrow> (bool \<times> int \<times> crm_hal_ctx) option" where
  "sofia_step i s = (if fst s then sofia_iter i s else Some s)"

interpretation sofia_driver: hal_driver sofia_step sofia_input_ok
  "\<lambda>(r, st, c). sofia_inv st c" "\<lambda>(r, st, c). hal_reports (out c)"
proof
  fix s s' :: "bool \<times> int \<times> crm_hal_ctx" and i
  obtain r st c r' st' c' where s: "s = (r, st, c)" "s' = (r', st', c')" by (metis prod.exhaust)
  assume "case s of (r, st, c) \<Rightarrow> sofia_inv st c" "sofia_input_ok i" "sofia_step i s = Some s'"
  then have "sofia_inv st' c' \<and> grows c c'"
    using s sofia_iter_inv by (auto simp: sofia_step_def grows_refl split: if_splits)
  then show "case s' of (r, st, c) \<Rightarrow> sofia_inv st c"
    "\<exists>ts. (case s' of (r, st, c) \<Rightarrow> hal_reports (out c)) = (case s of (r, st, c) \<Rightarrow> hal_reports (out c)) @ ts \<and> paired False ts"
    by (auto simp: s grows_def)
qed

lemma sofia_stopped: "\<not> fst s \<Longrightarrow> run_thread sofia_step is s = Some s"
  by (induction "is") (simp_all add: sofia_step_def)

lemma sofia_fsm_run: "crm_hal_sofia_fsm is s = run_thread sofia_step is s"
proof (induction "is" arbitrary: s)
  case Nil
  then show ?case by simp
next
  case (Cons i "is")
  show ?case
  proof (cases "fst s")
    case True
    then have "sofia_step i s = sofia_iter i s" by (simp add: sofia_step_def)
    then show ?thesis using True by (simp add: Cons.IH [abs_def])
  next
    case False
    then show ?thesis using sofia_stopped [of s "i # is"] by simp
  qed
qed

section \<open>The start of the thread\<close>

definition hal_initial :: "crm_hal_ctx \<Rightarrow> bool" where
  "hal_initial c \<longleftrightarrow> out c = [] \<and> \<not> timer_armed c \<and> \<not> thread_ping c \<and> \<not> rpcd_running c \<and> \<not> stopping c"

definition idle :: "crm_hal_ctx \<Rightarrow> bool" where
  "idle c \<longleftrightarrow> hal_reports (out c) = [] \<and> \<not> timer_armed c \<and> \<not> thread_ping c \<and> \<not> rpcd_running c"

lemma idle_mdm_state [simp]: "idle (c\<lparr>mdm_state := x\<rparr>) = idle c"
  by (simp add: idle_def)

lemma init_modem_loop_idle: "init_modem_loop c us = Some c' \<Longrightarrow> idle c \<Longrightarrow> idle c'"
  by (induction c us rule: init_modem_loop.induct) (auto simp: bind_Some_iff Let_def split: if_splits)

lemma init_modem_idle: "crm_hal_init_modem c p b io us = Some c' \<Longrightarrow> idle c \<Longrightarrow> idle c'"
  by (auto simp: crm_hal_init_modem_def crm_hal_stop_modem_def write_ctrl_def emit_def bind_Some_iff Let_def idle_def
      split: if_splits dest!: init_modem_loop_idle)

lemma sofia_start_inv:
  assumes "crm_hal_sofia_start c p fs io us i w = Some (st, c')" "hal_initial c"
  shows "sofia_inv st c' \<and> paired False (hal_reports (out c'))"
proof -
  let ?c = "if fs \<noteq> '''' \<and> hd fs = CHR ''1'' then emit c (PropertySet ''sys.crm@.first_start'' ''0'') else c"
  obtain b c1 c2 where c1: "crm_hal_init_modem ?c p b io us = Some c1"
    and c2: "crm_hal_rpcd_init c1 i w = Some c2"
    and m: "mdm_state c2 = EV_MDM_OFF \<or> mdm_state c2 = EV_MDM_ON"
    and n: "notify_event sofia_fsm ST_INITIAL (mdm_state c2) c2 p = Some (st, c')"
    using assms(1) by (auto simp: crm_hal_sofia_start_def bind_Some_iff crm_fsm_init_def Let_def)
  have "idle ?c" using assms(2) by (auto simp: idle_def hal_initial_def emit_def)
  from init_modem_idle [OF c1 this] have "idle c2"
    using c2 by (auto simp: crm_hal_rpcd_init_def idle_def emit_def Let_def)
  with m n show ?thesis
    by (auto simp: sofia_notify_eq sofia_rows_def run_operation_def get_event_txt_def get_state_txt_def state_trans_def
        notify_off_only_def start_ping_def notify_ctrl_event_only_def notify_ctrl_def emit_def idle_def
        sofia_inv_def res_ok_def mdm_ok_def check_state_def sofia_hooks)
qed

section \<open>Evaluation\<close>

lemma sofia_num: "num_states sofia_fsm = 8"
  by (simp add: sofia_fsm_def)

lemmas sofia_eval = sofia_notify_eq sofia_rows_def run_operation_def get_event_txt_def get_state_txt_def
  check_state_def sofia_num sofia_hooks state_trans_def timer_start_def write_ctrl_def emit_def
  notify_ctrl_event_only_def notify_ctrl_def

lemma get_mdm_state_cong:
  "uevent_vmodem c' = uevent_vmodem c \<Longrightarrow> crm_hal_get_mdm_state c' u = crm_hal_get_mdm_state c u"
  by (cases "ue_recv u") (simp_all add: crm_hal_get_mdm_state_def is_modem_event_def)

lemma sofia_boot_step:
  assumes "res_ok ST_OFF c" "\<not> secvm_flash c" "crm_file_write (file_wr p (length (out c))) ''1'' = 0"
  shows "notify_event sofia_fsm ST_OFF EV_BOOT c p = Some (ST_BOOTING,
    (emit c (FileWrite (vmodem_sysfs_mdm_ctrl c) ''1''))\<lparr>timer_armed := True, timer_end := crm_time_add_ms (now p) TIMEOUT_MDM_ON\<rparr>)"
  using assms by (simp add: sofia_eval request_boot_def crm_hal_start_modem_def res_ok_def)

lemma sofia_on_step:
  assumes "timer_armed c" "\<not> thread_ping c"
  shows "notify_event sofia_fsm ST_BOOTING EV_MDM_ON c p = Some (ST_PINGING, c\<lparr>timer_armed := False, thread_ping := True\<rparr>)"
  using assms by (simp add: sofia_eval start_ping_def)

lemma sofia_run_step:
  assumes "\<not> timer_armed c" "\<not> thread_ping c" "\<not> rpcd_running c"
  shows "notify_event sofia_fsm ST_PINGING EV_MDM_RUN c p = Some (ST_WAITING_RPC,
    (emit (c\<lparr>rpcd_running := True\<rparr>) (PropertySet ''ctl.start'' SERVICE_RPCD))\<lparr>timer_armed := True, timer_end := crm_time_add_ms (now p) TIMEOUT_RPCD_START\<rparr>)"
  using assms by (simp add: sofia_eval start_rpcd_def crm_hal_rpcd_start_def)

lemma sofia_rpc_run_step:
  assumes "timer_armed c"
  shows "\<exists>c'. notify_event sofia_fsm ST_WAITING_RPC EV_RPC_RUN c p = Some (ST_RUN, c') \<and>
    hal_reports (out c') = hal_reports (out c) @ [HAL_MDM_RUN]"
  using assms by (simp add: sofia_eval notify_run_def Let_def)

lemma sofia_stop_step:
  assumes "sofia_inv ST_RUN c" "crm_file_write (file_wr p (length (out c))) ''0'' = 0"
    "evt = EV_STOP \<and> stop \<or> evt = EV_RESET \<and> \<not> stop"
  shows "\<exists>c'. notify_event sofia_fsm ST_RUN evt c p = Some (ST_STOPPING, c') \<and> stopping c' = stop \<and>
    timer_armed c' \<and> hal_reports (out c') = hal_reports (out c) \<and> uevent_vmodem c' = uevent_vmodem c \<and> flash_node c' = flash_node c"
  using assms
  by (auto simp: sofia_eval request_stop_def request_reset_def stop_mdm_def crm_hal_stop_modem_def crm_hal_rpcd_stop_def
      sofia_inv_def res_ok_def mdm_ok_def)

lemma sofia_off_step:
  assumes "timer_armed c" "mdm_state c = EV_MDM_OFF"
  shows "\<exists>c'. notify_event sofia_fsm ST_STOPPING EV_MDM_OFF c p = Some (ST_OFF, c') \<and>
    hal_reports (out c') = hal_reports (out c) @ [HAL_MDM_BUSY, if stopping c then HAL_MDM_OFF else HAL_MDM_FLASH]"
  using assms by (simp add: sofia_eval notify_off_or_flash_def notify_off_def notify_flash_def Let_def)

section \<open>The uevent buffer\<close>

lemma c_str_terminated: "c_str ((b @ replicate (Suc n) (CHR 0x00))[length b := CHR 0x00]) = c_str b"
  by (induction b) (simp_all add: c_str_def)

lemma is_modem_event_short:
  assumes "ue_poll u \<noteq> 0" "\<not> ue_error u" "ue_in u" "ue_recv u = Some b" "length b < RECV_BUFFER"
  shows "is_modem_event c u = Some (c_str b = uevent_vmodem c)"
proof -
  obtain n where n: "RECV_BUFFER - length b = Suc n" using assms(5) by (metis Suc_diff_Suc)
  have "array_set (take RECV_BUFFER b @ replicate (RECV_BUFFER - length b) (CHR 0x00)) (int (length b)) (CHR 0x00) =
    Some ((b @ replicate (Suc n) (CHR 0x00))[length b := CHR 0x00])"
    using assms(5) unfolding n by (simp add: array_set_def)
  then show ?thesis using assms(1-4) unfolding is_modem_event_def c_str_terminated [of b n, symmetric] by simp
qed

section \<open>A concrete HAL\<close>

definition sofia_demo :: crm_hal_ctx where
  "sofia_demo = \<lparr>uevent_vmodem = ''vm'', vmodem_sysfs_mdm_ctrl = ''/ctrl'', dump_node = ''/dump'',
     flash_node = ''/flash'', dump_enabled = False, silent_reset_enabled = False, secvm_flash = False,
     support_mdm_up_on_start = True, stopping = False, timer_armed = False,
     timer_end = \<lparr>tv_sec = 0, tv_nsec = 0\<rparr>, mdm_state = 0, thread_ping = False, rpcd_running = False, out = []\<rparr>"

definition file_demo :: "string \<Rightarrow> file_io" where
  "file_demo s = \<lparr>io_open = 3, io_size = int (length s), io_bytes = s, io_close = 0\<rparr>"

lemma file_demo_fields: "io_open (file_demo s) = 3" "io_size (file_demo s) = int (length s)" "io_close (file_demo s) = 0"
  by (simp_all add: file_demo_def)

definition sofia_env :: sofia_param where
  "sofia_env = \<lparr>now = \<lparr>tv_sec = 10, tv_nsec = 0\<rparr>, file_wr = (\<lambda>_. file_demo ''x''), net_state = '''', cli = demo_cli\<rparr>"

definition uevent_demo :: "string \<Rightarrow> uevent" where
  "uevent_demo s = \<lparr>ue_poll = 1, ue_error = False, ue_in = True, ue_recv = Some ''vm'', ue_sysfs = file_demo s\<rparr>"

lemma demo_write: "crm_file_write (file_wr sofia_env n) [x] = 0"
  by (simp add: sofia_env_def file_demo_def crm_file_write_def c_str_def)

lemma demo_sysfs:
  "get_mdm_state_from_sysfs (file_demo ''off'') = Some EV_MDM_OFF"
  "get_mdm_state_from_sysfs (file_demo ''on'') = Some EV_MDM_ON"
  by (simp_all add: get_mdm_state_from_sysfs_def file_demo_def crm_file_read_def c_str_def strcasestr_def to_lower_def)

lemma demo_uevent:
  "uevent_vmodem c = ''vm'' \<Longrightarrow> crm_hal_get_mdm_state c (uevent_demo s) = get_mdm_state_from_sysfs (file_demo s)"
  by (simp add: crm_hal_get_mdm_state_def uevent_demo_def is_modem_event_short c_str_def)

lemma sofia_demo_start:
  "\<exists>c. crm_hal_sofia_start sofia_demo sofia_env ''1'' (file_demo ''off'') [] 4 5 = Some (ST_OFF, c) \<and>
     \<not> secvm_flash c \<and> uevent_vmodem c = ''vm''"
  by (simp add: crm_hal_sofia_start_def crm_hal_init_modem_def demo_sysfs crm_hal_rpcd_init_def crm_fsm_init_def
      sofia_eval sofia_demo_def notify_off_only_def)

section \<open>Events the machine always survives\<close>

text \<open>A crash of the modem and the death of the RPC daemon are handled in every state.\<close>

interpretation sofia_crash: fsm_total sofia_fsm res_ok "\<lambda>evt p. evt = EV_MDM_TRAP \<or> evt = EV_RPC_DEAD"
proof
  fix st c evt p
  assume r: "res_ok st c" and e: "evt = EV_MDM_TRAP \<or> evt = EV_RPC_DEAD"
  have "st \<in> {1, 2, 3, 4, 5, 6, 7}" using r int_cases_7 [of st] by (simp add: res_ok_def)
  then have x: "\<exists>st' c'. notify_event sofia_fsm st evt c p = Some (st', c') \<and> res_ok st' c'"
    using e r
    by (elim disjE insertE emptyE; hypsubst)
      (simp_all add: sofia_eval notify_trap_evt_def notify_rpc_dead_def notify_need_reset_def crm_hal_rpcd_stop_def
        res_ok_def Let_def)
  then show "\<exists>st' c'. notify_event sofia_fsm st evt c p = Some (st', c')" by blast
  show "res_ok st' c'" if "notify_event sofia_fsm st evt c p = Some (st', c')" for st' c'
    using x that by auto
qed

section \<open>Properties\<close>

text \<open>
  C22: from the start of the thread and for every sequence of requests, kernel events, ping results
  and daemon events it survives, the HAL arms its timer exactly while it waits for the modem or the
  RPC daemon, keeps the daemon running exactly while the modem is or comes up, has a ping thread
  exactly while it pings, and believes the modem is on in every state that needs it, and not off
  while it is stopping it or waiting for a reset.
\<close>

theorem sofia_resources_in_step:
  assumes "hal_initial c0" "crm_hal_sofia_start c0 p fs io us i w = Some (st0, c1)"
    and "\<forall>i \<in> set is. sofia_input_ok i"
    and "crm_hal_sofia_fsm is (True, st0, c1) = Some (r, st, c)"
  shows "ST_OFF \<le> st \<and> st \<le> ST_NEED_RESETTING \<and>
    timer_armed c = (st \<in> {ST_BOOTING, ST_WAITING_RPC, ST_STOPPING}) \<and>
    rpcd_running c = (st \<in> {ST_WAITING_RPC, ST_RUN}) \<and>
    thread_ping c = (st = ST_PINGING) \<and>
    (st \<in> {ST_PINGING, ST_WAITING_RPC, ST_RUN} \<longrightarrow> mdm_state c = EV_MDM_ON) \<and>
    (st \<in> {ST_STOPPING, ST_NEED_RESETTING} \<longrightarrow> mdm_state c \<noteq> EV_MDM_OFF)"
proof -
  have "sofia_inv st c"
    using sofia_driver.run_contract [OF _ _ assms(3), of "(True, st0, c1)" "(r, st, c)"] sofia_start_inv [OF assms(2,1)]
      assms(4) by (simp add: sofia_fsm_run)
  then show ?thesis unfolding sofia_inv_def res_ok_def mdm_ok_def by auto
qed

lemma demo_boot_run:
  assumes "res_ok ST_OFF c" "\<not> secvm_flash c" "uevent_vmodem c = ''vm''" "\<not> thread_ping c"
  shows "\<exists>c'. crm_hal_sofia_fsm [HalMsgs [(hal_boot, sofia_env)], HalUevent (uevent_demo ''on'') sofia_env] (True, ST_OFF, c) =
    Some (True, ST_PINGING, c') \<and> thread_ping c'"
  using assms
  by (simp add: sofia_iter_def hal_boot_def sofia_boot_step demo_write demo_uevent demo_sysfs sofia_on_step emit_def)

theorem sofia_resources_in_step_witness:
  "\<exists>st0 c1 c. crm_hal_sofia_start sofia_demo sofia_env ''1'' (file_demo ''off'') [] 4 5 = Some (st0, c1) \<and>
     crm_hal_sofia_fsm [HalMsgs [(hal_boot, sofia_env)], HalUevent (uevent_demo ''on'') sofia_env] (True, st0, c1) =
       Some (True, ST_PINGING, c) \<and> \<not> timer_armed c \<and> \<not> rpcd_running c \<and> mdm_state c = EV_MDM_ON"
proof -
  have ini: "hal_initial sofia_demo" by (simp add: hal_initial_def sofia_demo_def)
  obtain c1 where s: "crm_hal_sofia_start sofia_demo sofia_env ''1'' (file_demo ''off'') [] 4 5 = Some (ST_OFF, c1)"
    "\<not> secvm_flash c1" "uevent_vmodem c1 = ''vm''"
    using sofia_demo_start by blast
  have "sofia_inv ST_OFF c1" using sofia_start_inv [OF s(1) ini] by simp
  then obtain c where r: "crm_hal_sofia_fsm [HalMsgs [(hal_boot, sofia_env)], HalUevent (uevent_demo ''on'') sofia_env] (True, ST_OFF, c1) =
    Some (True, ST_PINGING, c)"
    using demo_boot_run [of c1] s by (auto simp: sofia_inv_def)
  then have "\<not> timer_armed c \<and> \<not> rpcd_running c \<and> mdm_state c = EV_MDM_ON"
    using sofia_resources_in_step [OF ini s(1) _ r] by (simp add: hal_boot_def)
  with r s(1) show ?thesis by blast
qed

text \<open>
  A boot request on a modem that is off brings it up: the driver is told to start it, and once
  the modem is on, answers the ping and the RPC daemon has started, the machine is in the running
  state and Control has been told exactly once that the modem runs.
\<close>

theorem sofia_boot_reaches_run:
  assumes "sofia_inv ST_OFF c" "\<not> secvm_flash c" "crm_file_write (file_wr p (length (out c))) ''1'' = 0"
    and "crm_hal_get_mdm_state c u = Some EV_MDM_ON" "0 \<le> fd"
  shows "\<exists>c'. crm_hal_sofia_fsm [HalMsgs [(hal_boot, p)], HalUevent u p,
      HalPing (crm_hal_ping_modem_thread fd) p, HalRpcd [''rpcd_started''] p] (True, ST_OFF, c) =
    Some (True, ST_RUN, c') \<and> hal_reports (out c') = hal_reports (out c) @ [HAL_MDM_RUN]"
proof -
  have ok: "res_ok ST_OFF c" "\<not> thread_ping c" "\<not> rpcd_running c" using assms(1) by (auto simp: sofia_inv_def res_ok_def)
  let ?c1 = "(emit c (FileWrite (vmodem_sysfs_mdm_ctrl c) ''1''))\<lparr>timer_armed := True, timer_end := crm_time_add_ms (now p) TIMEOUT_MDM_ON\<rparr>"
  have u: "crm_hal_get_mdm_state ?c1 u = Some EV_MDM_ON"
    using assms(4) get_mdm_state_cong [of ?c1 c u] by (simp add: emit_def)
  let ?c2 = "?c1\<lparr>mdm_state := EV_MDM_ON, timer_armed := False, thread_ping := True\<rparr>"
  let ?c3 = "(emit (?c2\<lparr>thread_ping := False, rpcd_running := True\<rparr>) (PropertySet ''ctl.start'' SERVICE_RPCD))
    \<lparr>timer_armed := True, timer_end := crm_time_add_ms (now p) TIMEOUT_RPCD_START\<rparr>"
  let ?c4 = "emit ?c3 (Unlink (RPCD_FOLDER @ ''/'' @ RPCD_STARTED))"
  have 1: "sofia_iter (HalMsgs [(hal_boot, p)]) (True, ST_OFF, c) = Some (True, ST_BOOTING, ?c1)"
    using sofia_boot_step [OF ok(1) assms(2,3)] by (simp add: sofia_iter_def hal_boot_def)
  have 2: "sofia_iter (HalUevent u p) (True, ST_BOOTING, ?c1) = Some (True, ST_PINGING, ?c2)"
    using u ok by (simp add: sofia_iter_def sofia_on_step emit_def)
  have 3: "sofia_iter (HalPing (crm_hal_ping_modem_thread fd) p) (True, ST_PINGING, ?c2) = Some (True, ST_WAITING_RPC, ?c3)"
    using assms(5) ok by (simp add: sofia_iter_def crm_hal_ping_modem_thread_def sofia_run_step emit_def)
  obtain c' where "notify_event sofia_fsm ST_WAITING_RPC EV_RPC_RUN ?c4 p = Some (ST_RUN, c')"
    and r: "hal_reports (out c') = hal_reports (out ?c4) @ [HAL_MDM_RUN]"
    using sofia_rpc_run_step [of ?c4 p] by (auto simp: emit_def)
  then have 4: "sofia_iter (HalRpcd [''rpcd_started''] p) (True, ST_WAITING_RPC, ?c3) = Some (True, ST_RUN, c')"
    by (simp add: sofia_iter_def crm_hal_rpcd_event_def)
  have "hal_reports (out ?c4) = hal_reports (out c)" by (simp add: emit_def)
  with 1 2 3 4 r show ?thesis by (simp add: bind_Some_iff)
qed

text \<open>A HAL in a given state, its resources in step with it.\<close>

definition sofia_at :: "int \<Rightarrow> crm_hal_ctx" where
  "sofia_at st = sofia_demo\<lparr>timer_armed := st \<in> {ST_BOOTING, ST_WAITING_RPC, ST_STOPPING},
     rpcd_running := st \<in> {ST_WAITING_RPC, ST_RUN}, thread_ping := st = ST_PINGING,
     mdm_state := if st = ST_OFF then EV_MDM_OFF else EV_MDM_ON\<rparr>"

lemma sofia_at_inv: "1 \<le> st \<Longrightarrow> st < 8 \<Longrightarrow> sofia_inv st (sofia_at st)"
  by (simp add: sofia_at_def sofia_inv_def res_ok_def mdm_ok_def)

lemma sofia_at_fields: "uevent_vmodem (sofia_at st) = ''vm''" "\<not> secvm_flash (sofia_at st)" "out (sofia_at st) = []"
  "mdm_state (sofia_at ST_OFF) = EV_MDM_OFF"
  by (simp_all add: sofia_at_def sofia_demo_def)

theorem sofia_boot_reaches_run_witness:
  "\<exists>c'. crm_hal_sofia_fsm [HalMsgs [(hal_boot, sofia_env)], HalUevent (uevent_demo ''on'') sofia_env,
      HalPing (crm_hal_ping_modem_thread 7) sofia_env, HalRpcd [''rpcd_started''] sofia_env] (True, ST_OFF, sofia_at ST_OFF) =
    Some (True, ST_RUN, c') \<and> hal_reports (out c') = [HAL_MDM_RUN]"
  using sofia_boot_reaches_run [of "sofia_at ST_OFF" sofia_env "uevent_demo ''on''" 7] sofia_at_inv [of ST_OFF]
  by (simp add: sofia_at_fields demo_write demo_uevent demo_sysfs)

text \<open>
  Stopping and resetting a running modem end differently: once the kernel says the modem is off,
  a shutdown request has made the HAL report the modem busy and then off, a cold reset busy and then
  ready to be flashed, and in both cases the machine is in the off state.
\<close>

theorem sofia_stop_or_reset:
  assumes "sofia_inv ST_RUN c" "crm_file_write (file_wr p (length (out c))) ''0'' = 0"
    and "crm_hal_get_mdm_state c u = Some EV_MDM_OFF" "hal_reset RESET_COLD = Some rst"
  shows "(\<exists>c'. crm_hal_sofia_fsm [HalMsgs [(hal_shutdown, p)], HalUevent u p] (True, ST_RUN, c) = Some (True, ST_OFF, c') \<and>
      hal_reports (out c') = hal_reports (out c) @ [HAL_MDM_BUSY, HAL_MDM_OFF]) \<and>
    (\<exists>c'. crm_hal_sofia_fsm [HalMsgs [(rst, p)], HalUevent u p] (True, ST_RUN, c) = Some (True, ST_OFF, c') \<and>
      hal_reports (out c') = hal_reports (out c) @ [HAL_MDM_BUSY, HAL_MDM_FLASH])"
proof -
  have run: "\<exists>c'. crm_hal_sofia_fsm [HalMsgs [(evt, p)], HalUevent u p] (True, ST_RUN, c) = Some (True, ST_OFF, c') \<and>
      hal_reports (out c') = hal_reports (out c) @ [HAL_MDM_BUSY, if stop then HAL_MDM_OFF else HAL_MDM_FLASH]"
    if e: "evt = EV_STOP \<and> stop \<or> evt = EV_RESET \<and> \<not> stop" for evt stop
  proof -
    obtain c1 where c1: "notify_event sofia_fsm ST_RUN evt c p = Some (ST_STOPPING, c1)" "stopping c1 = stop"
      "timer_armed c1" "hal_reports (out c1) = hal_reports (out c)" "uevent_vmodem c1 = uevent_vmodem c"
      using sofia_stop_step [OF assms(1,2) e] by blast
    obtain c2 where c2: "notify_event sofia_fsm ST_STOPPING EV_MDM_OFF (c1\<lparr>mdm_state := EV_MDM_OFF\<rparr>) p = Some (ST_OFF, c2)"
      "hal_reports (out c2) = hal_reports (out c1) @ [HAL_MDM_BUSY, if stop then HAL_MDM_OFF else HAL_MDM_FLASH]"
      using sofia_off_step [of "c1\<lparr>mdm_state := EV_MDM_OFF\<rparr>" p] c1 by auto
    have "crm_hal_get_mdm_state c1 u = Some EV_MDM_OFF" using get_mdm_state_cong [OF c1(5)] assms(3) by simp
    then show ?thesis using c1 c2 e by (auto simp: sofia_iter_def)
  qed
  show ?thesis
    using run [of EV_STOP True] run [of EV_RESET False] assms(4) by (simp add: hal_shutdown_def hal_reset_def)
qed

theorem sofia_stop_or_reset_witness:
  "(\<exists>c'. crm_hal_sofia_fsm [HalMsgs [(hal_shutdown, sofia_env)], HalUevent (uevent_demo ''off'') sofia_env] (True, ST_RUN, sofia_at ST_RUN) =
      Some (True, ST_OFF, c') \<and> hal_reports (out c') = [HAL_MDM_BUSY, HAL_MDM_OFF]) \<and>
   (\<exists>c'. crm_hal_sofia_fsm [HalMsgs [(EV_RESET, sofia_env)], HalUevent (uevent_demo ''off'') sofia_env] (True, ST_RUN, sofia_at ST_RUN) =
      Some (True, ST_OFF, c') \<and> hal_reports (out c') = [HAL_MDM_BUSY, HAL_MDM_FLASH])"
  using sofia_stop_or_reset [of "sofia_at ST_RUN" sofia_env "uevent_demo ''off''" EV_RESET] sofia_at_inv [of ST_RUN]
  by (simp add: sofia_at_fields demo_write demo_uevent demo_sysfs hal_reset_def)

text \<open>
  When the write that starts the modem fails, the failsafe operation finds the modem off and
  leaves the machine in the off state: the boot request is dropped and Control, which waits for the
  modem, is told nothing.
\<close>

theorem sofia_boot_failure_silent:
  assumes "sofia_inv ST_OFF c" "\<not> secvm_flash c" "mdm_state c = EV_MDM_OFF"
    and "crm_file_write (file_wr p (length (out c))) ''1'' \<noteq> 0"
  shows "\<exists>c'. notify_event sofia_fsm ST_OFF hal_boot c p = Some (ST_OFF, c') \<and>
    hal_reports (out c') = hal_reports (out c)"
  using assms
  by (simp add: sofia_eval hal_boot_def request_boot_def crm_hal_start_modem_def request_stop_def stop_mdm_def)

theorem sofia_boot_failure_silent_witness:
  "\<exists>c'. notify_event sofia_fsm ST_OFF hal_boot (sofia_at ST_OFF) (sofia_env\<lparr>file_wr := \<lambda>_. (file_demo ''x'')\<lparr>io_open := -1\<rparr>\<rparr>) =
     Some (ST_OFF, c') \<and> hal_reports (out c') = []"
  using sofia_boot_failure_silent [of "sofia_at ST_OFF" "sofia_env\<lparr>file_wr := \<lambda>_. (file_demo ''x'')\<lparr>io_open := -1\<rparr>\<rparr>"]
    sofia_at_inv [of ST_OFF]
  by (simp add: sofia_at_fields crm_file_write_def)

text \<open>
  When the write that stops the modem for a reset fails once and the second attempt, made by the
  failsafe operation, succeeds, the reset has become a shutdown: the HAL reports the modem off, and
  never that it is ready to be flashed.
\<close>

theorem sofia_reset_retry_becomes_stop:
  assumes "sofia_inv ST_RUN c" "crm_file_write (file_wr p (length (out c))) ''0'' \<noteq> 0"
    and "crm_file_write (file_wr p (Suc (length (out c)))) ''0'' = 0"
    and "crm_hal_get_mdm_state c u = Some EV_MDM_OFF"
  shows "\<exists>c'. crm_hal_sofia_fsm [HalMsgs [(EV_RESET, p)], HalUevent u p] (True, ST_RUN, c) = Some (True, ST_OFF, c') \<and>
    hal_reports (out c') = hal_reports (out c) @ [HAL_MDM_BUSY, HAL_MDM_OFF]"
proof -
  obtain c1 where c1: "notify_event sofia_fsm ST_RUN EV_RESET c p = Some (ST_STOPPING, c1)" "stopping c1"
    "timer_armed c1" "hal_reports (out c1) = hal_reports (out c)" "uevent_vmodem c1 = uevent_vmodem c"
    using assms(1-3)
    by (simp add: sofia_eval request_reset_def request_stop_def stop_mdm_def crm_hal_stop_modem_def crm_hal_rpcd_stop_def
        sofia_inv_def res_ok_def mdm_ok_def)
  have "crm_hal_get_mdm_state c1 u = Some EV_MDM_OFF" using get_mdm_state_cong [OF c1(5)] assms(4) by simp
  with c1 sofia_off_step [of "c1\<lparr>mdm_state := EV_MDM_OFF\<rparr>" p] show ?thesis
    by (auto simp: sofia_iter_def)
qed

theorem sofia_reset_retry_becomes_stop_witness:
  "\<exists>c'. crm_hal_sofia_fsm
      [HalMsgs [(EV_RESET, sofia_env\<lparr>file_wr := \<lambda>n. (file_demo ''x'')\<lparr>io_open := if n = 0 then -1 else 3\<rparr>\<rparr>)],
       HalUevent (uevent_demo ''off'') (sofia_env\<lparr>file_wr := \<lambda>n. (file_demo ''x'')\<lparr>io_open := if n = 0 then -1 else 3\<rparr>\<rparr>)]
      (True, ST_RUN, sofia_at ST_RUN) = Some (True, ST_OFF, c') \<and>
    hal_reports (out c') = [HAL_MDM_BUSY, HAL_MDM_OFF]"
  using sofia_reset_retry_becomes_stop [of "sofia_at ST_RUN"
      "sofia_env\<lparr>file_wr := \<lambda>n. (file_demo ''x'')\<lparr>io_open := if n = 0 then -1 else 3\<rparr>\<rparr>" "uevent_demo ''off''"]
    sofia_at_inv [of ST_RUN]
  by (simp add: sofia_at_fields demo_uevent demo_sysfs crm_file_write_def file_demo_fields c_str_def)

text \<open>
  A kernel message that fills the receive buffer makes the HAL write the terminating zero one
  byte after the end of the buffer.
\<close>

theorem sofia_uevent_overflow:
  assumes "ue_poll u \<noteq> 0" "\<not> ue_error u" "ue_in u" "ue_recv u = Some b" "length b = RECV_BUFFER"
  shows "is_modem_event c u = None"
  using assms by (simp add: is_modem_event_def array_set_def)

theorem sofia_uevent_overflow_witness:
  "is_modem_event sofia_demo ((uevent_demo ''on'')\<lparr>ue_recv := Some (replicate 1024 (CHR ''a''))\<rparr>) = None"
  using sofia_uevent_overflow [of "(uevent_demo ''on'')\<lparr>ue_recv := Some (replicate 1024 (CHR ''a''))\<rparr>"]
  by (simp add: uevent_demo_def del: replicate.simps)

text \<open>
  No sequence of modem crashes and RPC daemon deaths, in whatever state it starts, makes the
  HAL abort, and the timer and the daemon stay in step with the state of the machine.
\<close>

theorem sofia_crashes_survived:
  assumes "sofia_inv st c" "\<forall>(evt, p) \<in> set es. evt = EV_MDM_TRAP \<or> evt = EV_RPC_DEAD"
  shows "\<exists>st' c'. notify_events sofia_fsm st c es = Some (st', c') \<and>
    timer_armed c' = (st' \<in> {ST_BOOTING, ST_WAITING_RPC, ST_STOPPING}) \<and>
    rpcd_running c' = (st' \<in> {ST_WAITING_RPC, ST_RUN})"
proof -
  have "res_ok st c" using assms(1) by (simp add: sofia_inv_def)
  from sofia_crash.run_returns [OF this assms(2)] show ?thesis unfolding res_ok_def by blast
qed

theorem sofia_crashes_survived_witness:
  "\<exists>st' c'. notify_events sofia_fsm ST_WAITING_RPC (sofia_at ST_WAITING_RPC)
      [(EV_RPC_DEAD, sofia_env), (EV_MDM_TRAP, sofia_env), (EV_RPC_DEAD, sofia_env)] = Some (st', c') \<and>
    timer_armed c' = (st' \<in> {ST_BOOTING, ST_WAITING_RPC, ST_STOPPING}) \<and>
    rpcd_running c' = (st' \<in> {ST_WAITING_RPC, ST_RUN})"
  by (rule sofia_crashes_survived) (simp_all add: sofia_at_inv)

end
