(* ===== verification/Crm_Daemons.thy ===== *)
theory Crm_Daemons
  imports Crm_Mdmcli Crm_File
begin

text \<open>
  plugins/hal/common/src/daemons.c: the daemons a HAL starts and talks to. A daemon connects to the
  control socket, its connection is pending until it gives its name, and it is then bound to the
  entry registered under that name.

  A HAL holds the structure inside its own context and its callbacks change both. The context of
  the daemons is therefore a record that the context of a HAL extends, and the operations work on
  every extension. \<open>hal_trace\<close> is the trace of what is done to the rest of the system.
\<close>

section \<open>State\<close>

abbreviation (input) CRM_HAL_MAX_DAEMONS :: nat where "CRM_HAL_MAX_DAEMONS \<equiv> 2"
abbreviation (input) CRM_PROPERTY_VALUE_MAX :: nat where "CRM_PROPERTY_VALUE_MAX \<equiv> 92"

datatype crm_hal_daemon_evt = HAL_DAEMON_CONNECTED | HAL_DAEMON_DISCONNECTED | HAL_DAEMON_DATA_IN

text \<open>The answer of \<open>handle_poll\<close>, with the value of the callback when there is one.\<close>

datatype crm_hal_daemon_poll =
    HAL_DAEMON_POLL_NOT_HANDLED
  | HAL_DAEMON_NO_CALLBACK_RETVALUE_SET
  | HAL_DAEMON_CALLBACK_RETVALUE_SET int

datatype hal_io =
    PropertySet string string
  | CloseFd int
  | SocketSend int int nat
  | FileWrite string string
  | Ioctl string
  | FileCopy string string
  | AtCommand string
  | HalNotify crm_hal_evt
  | ClientNotify mdm_cli_dbg_info

text \<open>\<open>dcallback\<close> says whether the pointer is set; the function itself is an argument of \<open>handle_poll\<close>.\<close>

record crm_hal_daemons =
  dname :: "string option"
  dcallback :: bool
  dsocket :: int
  msg_to_read :: int

record crm_hal_daemon_ctx =
  server_socket :: int
  num_sockets :: int
  pending :: "int list"
  daemons :: "crm_hal_daemons list"
  hal_trace :: "hal_io list"

definition act :: "hal_io \<Rightarrow> 'a crm_hal_daemon_ctx_scheme \<Rightarrow> 'a crm_hal_daemon_ctx_scheme" where
  "act x c = c\<lparr>hal_trace := hal_trace c @ [x]\<rparr>"

definition set_daemon :: "nat \<Rightarrow> crm_hal_daemons \<Rightarrow> 'a crm_hal_daemon_ctx_scheme \<Rightarrow> 'a crm_hal_daemon_ctx_scheme" where
  "set_daemon i d c = c\<lparr>daemons := (daemons c)[i := d]\<rparr>"

section \<open>Registration\<close>

definition crm_hal_daemon_init :: "int \<Rightarrow> 'a crm_hal_daemon_ctx_scheme \<Rightarrow> 'a crm_hal_daemon_ctx_scheme option" where
  "crm_hal_daemon_init server c = do {
     ASSERT (server \<ge> 0);
     Some (c\<lparr>server_socket := server, num_sockets := 0, pending := replicate CRM_HAL_MAX_DAEMONS (-1),
       daemons := replicate CRM_HAL_MAX_DAEMONS \<lparr>dname = None, dcallback = False, dsocket = -1, msg_to_read = 0\<rparr>\<rparr>)
   }"

definition crm_hal_daemon_add ::
  "'a crm_hal_daemon_ctx_scheme \<Rightarrow> string \<Rightarrow> (nat \<times> 'a crm_hal_daemon_ctx_scheme) option" where
  "crm_hal_daemon_add c service_name = do {
     i \<leftarrow> find (\<lambda>i. dname (daemons c ! i) = None) [0..<CRM_HAL_MAX_DAEMONS];
     d \<leftarrow> array_get (daemons c) (int i);
     let c = set_daemon i (d\<lparr>dname := Some service_name, dcallback := True, dsocket := -1\<rparr>) c;
     Some (i, act (PropertySet ''ctl.stop'' service_name) c)
   }"

definition crm_hal_daemon_start :: "'a crm_hal_daemon_ctx_scheme \<Rightarrow> int \<Rightarrow> 'a crm_hal_daemon_ctx_scheme option" where
  "crm_hal_daemon_start c i = do {
     ASSERT (i \<ge> 0 \<and> i < int CRM_HAL_MAX_DAEMONS);
     d \<leftarrow> array_get (daemons c) i;
     n \<leftarrow> dname d;
     ASSERT (dsocket d = -1);
     Some (act (PropertySet ''ctl.start'' n) c)
   }"

definition crm_hal_daemon_stop :: "'a crm_hal_daemon_ctx_scheme \<Rightarrow> int \<Rightarrow> 'a crm_hal_daemon_ctx_scheme option" where
  "crm_hal_daemon_stop c i = do {
     ASSERT (i \<ge> 0 \<and> i < int CRM_HAL_MAX_DAEMONS);
     d \<leftarrow> array_get (daemons c) i;
     n \<leftarrow> dname d;
     let c = act (PropertySet ''ctl.stop'' n) c;
     if dsocket d \<ge> 0
     then do {
       let c = act (CloseFd (dsocket d)) c;
       let c = c\<lparr>num_sockets := num_sockets c - 1\<rparr>;
       ASSERT (num_sockets c \<ge> 0);
       Some (set_daemon (nat i) (d\<lparr>dsocket := -1\<rparr>) c)
     }
     else Some c
   }"

definition crm_hal_daemon_remove :: "'a crm_hal_daemon_ctx_scheme \<Rightarrow> int \<Rightarrow> 'a crm_hal_daemon_ctx_scheme option" where
  "crm_hal_daemon_remove c i = do {
     c \<leftarrow> crm_hal_daemon_stop c i;
     d \<leftarrow> array_get (daemons c) i;
     Some (set_daemon (nat i) (d\<lparr>dname := None\<rparr>) c)
   }"

text \<open>The control socket, then the daemons, then the pending connections; it aborts past the third.\<close>

fun add_fds :: "int list \<Rightarrow> int list \<Rightarrow> int list option" where
  "add_fds [] fds = Some fds"
| "add_fds (x # xs) fds = do {
     let fds = fds @ [x];
     ASSERT (length fds \<le> 1 + CRM_HAL_MAX_DAEMONS);
     add_fds xs fds
   }"

definition crm_hal_daemon_get_sockets :: "'a crm_hal_daemon_ctx_scheme \<Rightarrow> int list option" where
  "crm_hal_daemon_get_sockets c = do {
     ASSERT (server_socket c \<ge> 0);
     fds \<leftarrow> add_fds (map dsocket (filter (\<lambda>d. dname d \<noteq> None \<and> dsocket d \<ge> 0) (daemons c))) [server_socket c];
     add_fds (filter (\<lambda>s. s \<ge> 0) (pending c)) fds
   }"

section \<open>Messages\<close>

text \<open>
  \<open>wr\<close> tells for a position of the trace whether the write that is made there fails. The result is
  the number of bytes of data, or -1.
\<close>

definition crm_hal_daemon_msg_send ::
  "(nat \<Rightarrow> bool) \<Rightarrow> 'a crm_hal_daemon_ctx_scheme \<Rightarrow> int \<Rightarrow> int \<Rightarrow> 8 word list option \<Rightarrow> nat \<Rightarrow>
   (int \<times> 'a crm_hal_daemon_ctx_scheme) option" where
  "crm_hal_daemon_msg_send wr c i msg_id dat data_len = do {
     ASSERT (i \<ge> 0 \<and> i < int CRM_HAL_MAX_DAEMONS);
     ASSERT (data_len = 0 \<or> dat \<noteq> None);
     d \<leftarrow> array_get (daemons c) i;
     ASSERT (dsocket d \<ge> 0);
     let failed = wr (length (hal_trace c));
     let c = act (SocketSend (dsocket d) msg_id data_len) c;
     if failed then Some (-1, c)
     else if data_len > 0
     then do {
       let failed = wr (length (hal_trace c));
       let c = act (SocketSend (dsocket d) msg_id data_len) c;
       Some (if failed then -1 else int data_len, c)
     }
     else Some (int data_len, c)
   }"

text \<open>\<open>rd\<close> is what arrives on the socket before the time-out.\<close>

definition crm_hal_daemon_msg_read :: "8 word list \<Rightarrow> 'a crm_hal_daemon_ctx_scheme \<Rightarrow> int \<Rightarrow> int \<Rightarrow> (int \<times> 8 word list) option" where
  "crm_hal_daemon_msg_read rd c i data_len = do {
     ASSERT (i \<ge> 0 \<and> i < int CRM_HAL_MAX_DAEMONS);
     d \<leftarrow> array_get (daemons c) i;
     ASSERT (msg_to_read d > 0 \<and> data_len \<ge> msg_to_read d);
     ASSERT (dsocket d \<ge> 0);
     Some (if msg_to_read d \<le> int (length rd) then (msg_to_read d, take (nat (msg_to_read d)) rd) else (-1, []))
   }"

section \<open>Events on the sockets\<close>

text \<open>
  A descriptor \<open>poll\<close> reports, whether its only flag is POLLIN, and what reading from it finds: the
  descriptor \<open>accept\<close> answers, the header of a message, the size of a name and the bytes that follow.
\<close>

record daemon_pollfd =
  pfd_fd :: int
  pollin :: bool
  accepted :: int
  rd_hdr :: "(int \<times> int) option"
  rd_size :: "int option"
  rd_name :: string

type_synonym 'a daemon_callback =
  "nat \<Rightarrow> crm_hal_daemon_evt \<Rightarrow> int \<Rightarrow> int \<Rightarrow> 'a crm_hal_daemon_ctx_scheme \<Rightarrow> (int \<times> 'a crm_hal_daemon_ctx_scheme) option"

text \<open>A callback is called; its result is passed on when the caller asked for it.\<close>

definition call_back ::
  "'a daemon_callback \<Rightarrow> bool \<Rightarrow> nat \<Rightarrow> crm_hal_daemon_evt \<Rightarrow> int \<Rightarrow> int \<Rightarrow> crm_hal_daemon_poll \<Rightarrow>
   'a crm_hal_daemon_ctx_scheme \<Rightarrow> (crm_hal_daemon_poll \<times> 'a crm_hal_daemon_ctx_scheme) option" where
  "call_back cb want i evt msg_id len ret c = do {
     d \<leftarrow> array_get (daemons c) (int i);
     ASSERT (dcallback d);
     (r, c) \<leftarrow> cb i evt msg_id len c;
     Some (if want then HAL_DAEMON_CALLBACK_RETVALUE_SET r else ret, c)
   }"

definition handle_server :: "daemon_pollfd \<Rightarrow> 'a crm_hal_daemon_ctx_scheme \<Rightarrow> 'a crm_hal_daemon_ctx_scheme option" where
  "handle_server f c = do {
     ASSERT (pollin f);
     if accepted f \<ge> 0
     then (case find (\<lambda>i. pending c ! i = -1) [0..<CRM_HAL_MAX_DAEMONS] of
             None \<Rightarrow> None
           | Some i \<Rightarrow> do {
               ASSERT (num_sockets c < int CRM_HAL_MAX_DAEMONS);
               Some (c\<lparr>num_sockets := num_sockets c + 1, pending := (pending c)[i := accepted f]\<rparr>)
             })
     else Some c
   }"

definition handle_connected ::
  "'a daemon_callback \<Rightarrow> bool \<Rightarrow> nat \<Rightarrow> daemon_pollfd \<Rightarrow> 'a crm_hal_daemon_ctx_scheme \<Rightarrow>
   (crm_hal_daemon_poll \<times> 'a crm_hal_daemon_ctx_scheme) option" where
  "handle_connected cb want i f c =
     (case (if pollin f then rd_hdr f else None) of
        Some (msg_id, n) \<Rightarrow> do {
          let len = n mod 2 ^ 64;
          d \<leftarrow> array_get (daemons c) (int i);
          ASSERT (dcallback d);
          let c = set_daemon i (d\<lparr>msg_to_read := len\<rparr>) c;
          call_back cb want i HAL_DAEMON_DATA_IN msg_id len HAL_DAEMON_NO_CALLBACK_RETVALUE_SET c
        }
      | None \<Rightarrow> do {
          d \<leftarrow> array_get (daemons c) (int i);
          ASSERT (dcallback d);
          c \<leftarrow> crm_hal_daemon_stop c (int i);
          call_back cb want i HAL_DAEMON_DISCONNECTED 0 0 HAL_DAEMON_NO_CALLBACK_RETVALUE_SET c
        })"

text \<open>
  The name of a connecting daemon. The size is an \<open>int\<close> that becomes a \<open>size_t\<close>: \<open>crm_socket_read\<close>
  refuses 0 and stores what arrives, whatever the size of the buffer.
\<close>

definition read_name :: "int \<Rightarrow> string \<Rightarrow> string option option" where
  "read_name sz arrived = do {
     let need = nat (sz mod 2 ^ 64);
     ASSERT (need > 0);
     ASSERT (min need (length arrived) \<le> CRM_PROPERTY_VALUE_MAX);
     if length arrived < need then Some None
     else do {
       ASSERT (need < CRM_PROPERTY_VALUE_MAX);
       Some (Some (c_str (take need arrived)))
     }
   }"

text \<open>The search of the name: the loop goes on after a match.\<close>

fun register_loop ::
  "'a daemon_callback \<Rightarrow> bool \<Rightarrow> nat list \<Rightarrow> nat \<Rightarrow> string \<Rightarrow> bool \<times> crm_hal_daemon_poll \<times> 'a crm_hal_daemon_ctx_scheme \<Rightarrow>
   (bool \<times> crm_hal_daemon_poll \<times> 'a crm_hal_daemon_ctx_scheme) option" where
  "register_loop cb want [] i client_name s = Some s"
| "register_loop cb want (did # ids) i client_name (close_socket, ret, c) = do {
     d \<leftarrow> array_get (daemons c) (int did);
     s \<leftarrow> (if dname d = Some client_name
          then if dsocket d \<ge> 0
               then do {
                 c \<leftarrow> crm_hal_daemon_remove c (int did);
                 (ret, c) \<leftarrow> call_back cb want did HAL_DAEMON_DISCONNECTED 0 0 ret c;
                 Some (close_socket, ret, c)
               }
               else do {
                 let c = set_daemon did (d\<lparr>dsocket := pending c ! i\<rparr>) c;
                 let c = c\<lparr>pending := (pending c)[i := -1]\<rparr>;
                 (ret, c) \<leftarrow> call_back cb want did HAL_DAEMON_CONNECTED 0 0 ret c;
                 Some (False, ret, c)
               }
          else Some (close_socket, ret, c));
     register_loop cb want ids i client_name s
   }"

definition read_registration ::
  "'a daemon_callback \<Rightarrow> bool \<Rightarrow> nat \<Rightarrow> daemon_pollfd \<Rightarrow> 'a crm_hal_daemon_ctx_scheme \<Rightarrow>
   (bool \<times> crm_hal_daemon_poll \<times> 'a crm_hal_daemon_ctx_scheme) option" where
  "read_registration cb want i f c =
     (let s0 = (True, HAL_DAEMON_NO_CALLBACK_RETVALUE_SET, c)
      in case (if pollin f then rd_size f else None) of
           None \<Rightarrow> Some s0
         | Some sz \<Rightarrow>
             if sz < int CRM_PROPERTY_VALUE_MAX
             then do {
               n \<leftarrow> read_name sz (rd_name f);
               (case n of
                  None \<Rightarrow> Some s0
                | Some client_name \<Rightarrow> register_loop cb want [0..<CRM_HAL_MAX_DAEMONS] i client_name s0)
             }
             else Some s0)"

definition handle_pending ::
  "'a daemon_callback \<Rightarrow> bool \<Rightarrow> nat \<Rightarrow> daemon_pollfd \<Rightarrow> 'a crm_hal_daemon_ctx_scheme \<Rightarrow>
   (crm_hal_daemon_poll \<times> 'a crm_hal_daemon_ctx_scheme) option" where
  "handle_pending cb want i f c = do {
     (close_socket, ret, c) \<leftarrow> read_registration cb want i f c;
     if close_socket
     then do {
       let c = act (CloseFd (pending c ! i)) c;
       let c = c\<lparr>pending := (pending c)[i := -1], num_sockets := num_sockets c - 1\<rparr>;
       ASSERT (num_sockets c \<ge> 0);
       Some (ret, c)
     }
     else Some (ret, c)
   }"

definition crm_hal_daemon_handle_poll ::
  "'a daemon_callback \<Rightarrow> bool \<Rightarrow> daemon_pollfd \<Rightarrow> 'a crm_hal_daemon_ctx_scheme \<Rightarrow>
   (crm_hal_daemon_poll \<times> 'a crm_hal_daemon_ctx_scheme) option" where
  "crm_hal_daemon_handle_poll cb want f c =
     (if pfd_fd f = server_socket c
      then do { c \<leftarrow> handle_server f c; Some (HAL_DAEMON_NO_CALLBACK_RETVALUE_SET, c) }
      else case find (\<lambda>i. pfd_fd f = dsocket (daemons c ! i)) [0..<CRM_HAL_MAX_DAEMONS] of
             Some i \<Rightarrow> handle_connected cb want i f c
           | None \<Rightarrow>
               (case find (\<lambda>i. pfd_fd f = pending c ! i) [0..<CRM_HAL_MAX_DAEMONS] of
                  Some i \<Rightarrow> handle_pending cb want i f c
                | None \<Rightarrow> Some (HAL_DAEMON_POLL_NOT_HANDLED, c)))"

definition crm_hal_daemon_dispose :: "'a crm_hal_daemon_ctx_scheme \<Rightarrow> 'a crm_hal_daemon_ctx_scheme" where
  "crm_hal_daemon_dispose c =
     (let c' = c\<lparr>hal_trace := hal_trace c @ map (\<lambda>d. CloseFd (dsocket d)) (filter (\<lambda>d. dsocket d \<ge> 0) (daemons c)),
                daemons := map (\<lambda>d. if dsocket d \<ge> 0 then d\<lparr>dsocket := -1\<rparr> else d) (daemons c)\<rparr>
      in (act (CloseFd (server_socket c)) c')\<lparr>server_socket := -1\<rparr>)"

section \<open>The sockets are counted\<close>

text \<open>The counter is the number of connections, pending or bound, and never above the maximum.\<close>

definition daemon_ok :: "'a crm_hal_daemon_ctx_scheme \<Rightarrow> bool" where
  "daemon_ok c \<longleftrightarrow> server_socket c \<ge> 0 \<and> length (pending c) = CRM_HAL_MAX_DAEMONS \<and> length (daemons c) = CRM_HAL_MAX_DAEMONS \<and>
     num_sockets c = int (countp (\<lambda>s. s \<ge> 0) (pending c)) + int (countp (\<lambda>d. dsocket d \<ge> 0) (daemons c)) \<and>
     num_sockets c \<le> int CRM_HAL_MAX_DAEMONS \<and>
     (\<forall>d \<in> set (daemons c). dsocket d \<ge> 0 \<longrightarrow> dname d \<noteq> None \<and> dcallback d)"

lemma countp_int_update:
  "i < length xs \<Longrightarrow> int (countp P (xs[i := v])) = int (countp P xs) - of_bool (P (xs ! i)) + of_bool (P v)"
  using countp_update [of i xs P v] by (auto split: if_splits)

lemma daemon_ok_act [simp]: "daemon_ok (act x c) = daemon_ok c"
  by (simp add: act_def daemon_ok_def)

lemma act_simps [simp]:
  "pending (act x c) = pending c" "daemons (act x c) = daemons c" "num_sockets (act x c) = num_sockets c"
  "server_socket (act x c) = server_socket c" "hal_trace (act x c) = hal_trace c @ [x]"
  by (simp_all add: act_def)

text \<open>A daemon changed together with the counter.\<close>

lemma daemon_ok_update:
  assumes "daemon_ok c" "i < CRM_HAL_MAX_DAEMONS" "dsocket d \<ge> 0 \<longrightarrow> dname d \<noteq> None \<and> dcallback d"
    and "daemons c' = (daemons c)[i := d]" "pending c' = pending c" "server_socket c' = server_socket c"
    and "num_sockets c' = num_sockets c - of_bool (dsocket (daemons c ! i) \<ge> 0) + of_bool (dsocket d \<ge> 0)"
    and "num_sockets c' \<le> int CRM_HAL_MAX_DAEMONS"
  shows "daemon_ok c'"
proof -
  have "\<forall>x \<in> set ((daemons c)[i := d]). dsocket x \<ge> 0 \<longrightarrow> dname x \<noteq> None \<and> dcallback x"
    using assms(1,3) set_update_subset_insert [of "daemons c" i d] by (auto simp: daemon_ok_def)
  then show ?thesis
    using assms(1,2,7,8) unfolding daemon_ok_def assms(4-6)
    by (simp add: countp_int_update [of i "daemons c"] del: One_nat_def)
qed

lemma daemon_stop_ok:
  assumes "crm_hal_daemon_stop c i = Some c'" "daemon_ok c"
  shows "daemon_ok c' \<and> pending c' = pending c \<and> 0 \<le> i \<and> i < 2 \<and> dsocket (daemons c' ! nat i) < 0 \<and>
    dcallback (daemons c' ! nat i) = dcallback (daemons c ! nat i) \<and> dname (daemons c' ! nat i) = dname (daemons c ! nat i) \<and>
    (\<forall>j. j \<noteq> nat i \<longrightarrow> daemons c' ! j = daemons c ! j)"
proof -
  obtain n where i: "0 \<le> i" "i < 2" and n: "dname (daemons c ! nat i) = Some n" and d: "array_get (daemons c) i = Some (daemons c ! nat i)"
    using assms(1) by (auto simp: crm_hal_daemon_stop_def bind_Some_iff dest: array_get_SomeD)
  show ?thesis
  proof (cases "dsocket (daemons c ! nat i) \<ge> 0")
    case False
    then have "c' = act (PropertySet ''ctl.stop'' n) c"
      using assms(1) i n d by (simp add: crm_hal_daemon_stop_def)
    then show ?thesis using False assms(2) i by simp
  next
    case True
    let ?v = "(daemons c ! nat i)\<lparr>dsocket := -1\<rparr>"
    have c': "daemons c' = (daemons c)[nat i := ?v]" "pending c' = pending c" "server_socket c' = server_socket c"
      "num_sockets c' = num_sockets c - 1"
      using assms(1) i n d True by (auto simp: crm_hal_daemon_stop_def Let_def set_daemon_def)
    have "daemon_ok c'"
      by (rule daemon_ok_update [OF assms(2), of "nat i" ?v]) (use i c' True assms(2) in \<open>auto simp: daemon_ok_def\<close>)
    then show ?thesis using c' i assms(2) by (auto simp: daemon_ok_def)
  qed
qed

lemma daemon_remove_ok:
  assumes "crm_hal_daemon_remove c i = Some c'" "daemon_ok c"
  shows "daemon_ok c' \<and> pending c' = pending c"
proof -
  obtain c1 where s: "crm_hal_daemon_stop c i = Some c1" and c': "c' = set_daemon (nat i) ((daemons c1 ! nat i)\<lparr>dname := None\<rparr>) c1"
    using assms(1) by (auto simp: crm_hal_daemon_remove_def bind_Some_iff dest!: array_get_SomeD)
  note k = daemon_stop_ok [OF s assms(2)]
  have "daemon_ok c'"
    by (rule daemon_ok_update [of c1 "nat i" "(daemons c1 ! nat i)\<lparr>dname := None\<rparr>"])
      (use k in \<open>auto simp: c' set_daemon_def daemon_ok_def\<close>)
  with k show ?thesis by (simp add: c' set_daemon_def)
qed

lemma daemon_start_ok: "crm_hal_daemon_start c i = Some c' \<Longrightarrow> daemon_ok c' = daemon_ok c \<and> pending c' = pending c \<and> daemons c' = daemons c"
  by (auto simp: crm_hal_daemon_start_def bind_Some_iff)

lemma daemon_send_ok:
  "crm_hal_daemon_msg_send wr c i m dat n = Some (r, c') \<Longrightarrow> daemon_ok c' = daemon_ok c \<and> pending c' = pending c \<and> daemons c' = daemons c"
  by (auto simp: crm_hal_daemon_msg_send_def bind_Some_iff Let_def split: if_splits)


text \<open>
  The interface between the daemons and a HAL: a callback keeps the connections counted and does not
  touch those that are pending.
\<close>

locale daemon_client =
  fixes cb :: "'a daemon_callback"
  assumes cb_ok: "daemon_ok c \<Longrightarrow> cb i evt m l c = Some (r, c') \<Longrightarrow> daemon_ok c'"
    and cb_pending: "daemon_ok c \<Longrightarrow> cb i evt m l c = Some (r, c') \<Longrightarrow> pending c' = pending c"
begin

lemma call_back_ok:
  assumes "call_back cb want i evt m l ret c = Some (ret', c')" "daemon_ok c"
  shows "daemon_ok c' \<and> pending c' = pending c"
  using assms cb_ok cb_pending by (auto simp: call_back_def bind_Some_iff)

lemma connected_ok:
  assumes "handle_connected cb want i f c = Some (ret, c')" "daemon_ok c"
  shows "daemon_ok c'"
proof (cases "if pollin f then rd_hdr f else None")
  case None
  then obtain c1 where "crm_hal_daemon_stop c (int i) = Some c1"
    "call_back cb want i HAL_DAEMON_DISCONNECTED 0 0 HAL_DAEMON_NO_CALLBACK_RETVALUE_SET c1 = Some (ret, c')"
    using assms(1) by (auto simp: handle_connected_def bind_Some_iff)
  with daemon_stop_ok assms(2) call_back_ok show ?thesis by blast
next
  case (Some h)
  obtain m n where h: "h = (m, n)" by (cases h)
  let ?d = "(daemons c ! i)\<lparr>msg_to_read := n mod 2 ^ 64\<rparr>"
  have i: "i < length (daemons c)"
    and r: "call_back cb want i HAL_DAEMON_DATA_IN m (n mod 2 ^ 64) HAL_DAEMON_NO_CALLBACK_RETVALUE_SET (set_daemon i ?d c) = Some (ret, c')"
    using assms(1) Some h by (auto simp: handle_connected_def bind_Some_iff Let_def dest!: array_get_SomeD)
  have "daemon_ok (set_daemon i ?d c)"
    by (rule daemon_ok_update [OF assms(2), of i ?d]) (use i assms(2) in \<open>auto simp: set_daemon_def daemon_ok_def\<close>)
  then show ?thesis using call_back_ok [OF r] by blast
qed

text \<open>A connection found pending moves to the daemon of its name or stays pending.\<close>

lemma bind_pending_ok:
  assumes "daemon_ok c" "j < CRM_HAL_MAX_DAEMONS" "i < CRM_HAL_MAX_DAEMONS" "dname (daemons c ! j) \<noteq> None" "dsocket (daemons c ! j) < 0"
    "dcallback (daemons c ! j)"
  shows "daemon_ok ((set_daemon j ((daemons c ! j)\<lparr>dsocket := pending c ! i\<rparr>) c)\<lparr>pending := (pending c)[i := -1]\<rparr>)"
proof -
  let ?d = "(daemons c ! j)\<lparr>dsocket := pending c ! i\<rparr>"
  have "\<forall>x \<in> set ((daemons c)[j := ?d]). dsocket x \<ge> 0 \<longrightarrow> dname x \<noteq> None \<and> dcallback x"
    using assms set_update_subset_insert [of "daemons c" j ?d] by (auto simp: daemon_ok_def)
  then show ?thesis
    using assms unfolding daemon_ok_def
    by (simp add: set_daemon_def countp_int_update [of j "daemons c"] countp_int_update [of i "pending c"] del: One_nat_def)
qed

lemma register_loop_ok:
  assumes "register_loop cb want ids i nm (cs, ret, c) = Some (cs', ret', c')" "daemon_ok c" "i < CRM_HAL_MAX_DAEMONS"
  shows "daemon_ok c' \<and> (cs' \<longrightarrow> cs \<and> pending c' = pending c)"
  using assms
proof (induction ids arbitrary: cs ret c)
  case Nil
  then show ?case by simp
next
  case (Cons j ids)
  obtain d where d: "array_get (daemons c) (int j) = Some d" using Cons.prems(1) by (auto simp: bind_Some_iff)
  then have j: "j < CRM_HAL_MAX_DAEMONS" "d = daemons c ! j" using Cons.prems(2) by (auto simp: daemon_ok_def dest!: array_get_SomeD)
  consider "dname d \<noteq> Some nm" | "dname d = Some nm" "dsocket d \<ge> 0" | "dname d = Some nm" "dsocket d < 0" by linarith
  then show ?case
  proof cases
    case 1
    with Cons.prems(1) d have "register_loop cb want ids i nm (cs, ret, c) = Some (cs', ret', c')" by simp
    from Cons.IH [OF this Cons.prems(2,3)] show ?thesis .
  next
    case 2
    then obtain c1 ret1 c2 where "crm_hal_daemon_remove c (int j) = Some c1" "call_back cb want j HAL_DAEMON_DISCONNECTED 0 0 ret c1 = Some (ret1, c2)"
      and r: "register_loop cb want ids i nm (cs, ret1, c2) = Some (cs', ret', c')"
      using Cons.prems(1) d by (auto simp: bind_Some_iff)
    then have "daemon_ok c2 \<and> pending c2 = pending c" using daemon_remove_ok Cons.prems(2) call_back_ok by metis
    with Cons.IH [OF r _ Cons.prems(3)] show ?thesis by auto
  next
    case 3
    let ?c = "(set_daemon j (d\<lparr>dsocket := pending c ! i\<rparr>) c)\<lparr>pending := (pending c)[i := -1]\<rparr>"
    obtain ret1 c2 where cb: "call_back cb want j HAL_DAEMON_CONNECTED 0 0 ret ?c = Some (ret1, c2)"
      and r: "register_loop cb want ids i nm (False, ret1, c2) = Some (cs', ret', c')"
      using Cons.prems(1) d 3 by (auto simp: bind_Some_iff Let_def set_daemon_def)
    have "dcallback d" using cb j Cons.prems(2)
      by (auto simp: call_back_def bind_Some_iff set_daemon_def daemon_ok_def dest!: array_get_SomeD)
    then have "daemon_ok ?c" using bind_pending_ok [OF Cons.prems(2) j(1) Cons.prems(3)] 3 j(2) by simp
    then have "daemon_ok c2" using call_back_ok [OF cb] by blast
    with Cons.IH [OF r _ Cons.prems(3)] show ?thesis by simp
  qed
qed

lemma pending_ok:
  assumes "handle_pending cb want i f c = Some (ret, c')" "daemon_ok c" "i < CRM_HAL_MAX_DAEMONS" "pending c ! i \<ge> 0"
  shows "daemon_ok c'"
proof -
  obtain cs ret1 c1 where rg: "read_registration cb want i f c = Some (cs, ret1, c1)"
    and r: "(if cs then Option.bind (ASSERT (num_sockets c1 - 1 \<ge> 0)) (\<lambda>_. Some (ret1, (act (CloseFd (pending c1 ! i)) c1)
        \<lparr>pending := (pending c1)[i := -1], num_sockets := num_sockets c1 - 1\<rparr>)) else Some (ret1, c1)) = Some (ret, c')"
    using assms(1) by (auto simp: handle_pending_def bind_Some_iff Let_def simp del: bind_ASSERT split: if_splits)
  have s: "daemon_ok c1 \<and> (cs \<longrightarrow> pending c1 = pending c)"
    using rg assms(2) register_loop_ok [OF _ assms(2,3)]
    by (auto simp: read_registration_def Let_def bind_Some_iff split: option.splits if_splits)
  show ?thesis
  proof (cases cs)
    case False
    with r s show ?thesis by simp
  next
    case True
    then have "c' = (act (CloseFd (pending c1 ! i)) c1)\<lparr>pending := (pending c1)[i := -1], num_sockets := num_sockets c1 - 1\<rparr>"
      using r by simp
    moreover have "i < length (pending c)" using assms(2,3) by (simp add: daemon_ok_def)
    ultimately show ?thesis
      using s True assms(4) countp_int_update [of i "pending c" "\<lambda>s. s \<ge> 0" "-1"] by (auto simp: daemon_ok_def)
  qed
qed

lemma find_index: "find P [0..<n] = Some i \<Longrightarrow> i < n \<and> P i"
  by (auto simp: find_Some_iff)

lemma server_ok:
  assumes "handle_server f c = Some c'" "daemon_ok c"
  shows "daemon_ok c'"
proof (cases "accepted f \<ge> 0")
  case False
  with assms show ?thesis by (simp add: handle_server_def)
next
  case True
  then obtain i where i: "find (\<lambda>i. pending c ! i = -1) [0..<CRM_HAL_MAX_DAEMONS] = Some i" and n: "num_sockets c < 2"
    and c': "c' = c\<lparr>num_sockets := num_sockets c + 1, pending := (pending c)[i := accepted f]\<rparr>"
    using assms(1) by (auto simp: handle_server_def split: option.splits)
  show ?thesis using find_index [OF i] n True assms(2) by (simp add: c' daemon_ok_def countp_int_update)
qed

lemma handle_poll_ok:
  assumes "crm_hal_daemon_handle_poll cb want f c = Some (ret, c')" "daemon_ok c" "pfd_fd f \<ge> 0"
  shows "daemon_ok c'"
proof -
  consider c1 where "c' = c1" "handle_server f c = Some c1" | i where "handle_connected cb want i f c = Some (ret, c')"
    | i where "find (\<lambda>i. pfd_fd f = pending c ! i) [0..<CRM_HAL_MAX_DAEMONS] = Some i" "handle_pending cb want i f c = Some (ret, c')" | "c' = c"
    using assms(1) unfolding crm_hal_daemon_handle_poll_def by (auto simp: bind_Some_iff split: if_splits option.splits)
  then show ?thesis
  proof cases
    case 1
    then show ?thesis using server_ok assms(2) by blast
  next
    case 2
    then show ?thesis using connected_ok assms(2) by blast
  next
    case 3
    then show ?thesis using pending_ok assms(2,3) find_index [OF 3(1)] by auto
  qed (use assms(2) in simp)
qed

end

text \<open>
  What a HAL keeps beside its daemons: an observation that neither the bookkeeping of the connections
  nor the callback changes is the same after any event on the sockets.
\<close>

locale daemon_observer = daemon_client cb for cb :: "'a daemon_callback" +
  fixes obs :: "'a crm_hal_daemon_ctx_scheme \<Rightarrow> 'o"
    and vals :: "int set"
  assumes obs_act: "obs (act (PropertySet k v) c) = obs c" "obs (act (CloseFd fd) c) = obs c"
    and obs_daemon: "obs (set_daemon i d c) = obs c"
    and obs_pending: "obs (c\<lparr>pending := ps\<rparr>) = obs c"
    and obs_num: "obs (c\<lparr>num_sockets := n\<rparr>) = obs c"
    and obs_cb: "cb i evt m l c = Some (r, c') \<Longrightarrow> obs c' = obs c"
    and cb_vals: "cb i evt m l c = Some (r, c') \<Longrightarrow> r \<in> vals"
begin

lemmas obs_laws = obs_act obs_daemon obs_pending obs_num

lemma stop_obs: "crm_hal_daemon_stop c i = Some c' \<Longrightarrow> obs c' = obs c"
  by (auto simp: crm_hal_daemon_stop_def bind_Some_iff Let_def obs_laws split: if_splits)

lemma remove_obs: "crm_hal_daemon_remove c i = Some c' \<Longrightarrow> obs c' = obs c"
  by (auto simp: crm_hal_daemon_remove_def bind_Some_iff Let_def obs_laws dest: stop_obs)

lemma call_back_obs: "call_back cb want i evt m l ret c = Some (ret', c') \<Longrightarrow> obs c' = obs c"
  by (auto simp: call_back_def bind_Some_iff dest: obs_cb)

lemma connected_obs: "handle_connected cb want i f c = Some (ret, c') \<Longrightarrow> obs c' = obs c"
  by (auto simp: handle_connected_def bind_Some_iff Let_def obs_laws dest!: call_back_obs stop_obs split: option.splits if_splits)

lemma register_loop_obs: "register_loop cb want ids i nm (cs, ret, c) = Some (cs', ret', c') \<Longrightarrow> obs c' = obs c"
proof (induction ids arbitrary: cs ret c)
  case (Cons j ids)
  obtain cs1 ret1 c1 where "register_loop cb want ids i nm (cs1, ret1, c1) = Some (cs', ret', c')" "obs c1 = obs c"
    using Cons.prems by (auto simp: bind_Some_iff Let_def obs_laws dest!: call_back_obs remove_obs split: if_splits)
  with Cons.IH show ?case by metis
qed simp

lemma pending_obs:
  assumes "handle_pending cb want i f c = Some (ret, c')"
  shows "obs c' = obs c"
proof -
  obtain cs ret1 c1 where r: "read_registration cb want i f c = Some (cs, ret1, c1)"
    using assms by (auto simp: handle_pending_def bind_Some_iff)
  have "obs c1 = obs c"
    using r by (auto simp: read_registration_def Let_def bind_Some_iff dest: register_loop_obs split: option.splits if_splits)
  moreover have "obs (((act (CloseFd fd) c1)\<lparr>pending := ps\<rparr>)\<lparr>num_sockets := n\<rparr>) = obs c1" for fd ps n
    by (simp only: obs_laws)
  ultimately show ?thesis
    using assms r by (cases cs) (auto simp: handle_pending_def Let_def split: if_splits)
qed

lemma server_obs:
  assumes "handle_server f c = Some c'"
  shows "obs c' = obs c"
proof -
  have "c' = c \<or> (\<exists>n ps. c' = (c\<lparr>num_sockets := n\<rparr>)\<lparr>pending := ps\<rparr>)"
    using assms by (auto simp: handle_server_def split: if_splits option.splits)
  then show ?thesis by (auto simp only: obs_laws)
qed

lemma handle_poll_obs: "crm_hal_daemon_handle_poll cb want f c = Some (ret, c') \<Longrightarrow> obs c' = obs c"
  unfolding crm_hal_daemon_handle_poll_def
  by (auto simp: bind_Some_iff dest!: server_obs connected_obs pending_obs split: if_splits option.splits)

text \<open>The value \<open>handle_poll\<close> hands over is a value of the callback.\<close>

definition ret_ok :: "crm_hal_daemon_poll \<Rightarrow> bool" where
  "ret_ok ret = (case ret of HAL_DAEMON_CALLBACK_RETVALUE_SET r \<Rightarrow> r \<in> vals | _ \<Rightarrow> True)"

lemma call_back_vals: "call_back cb want i evt m l ret c = Some (ret', c') \<Longrightarrow> ret_ok ret \<Longrightarrow> ret_ok ret'"
  by (auto simp: call_back_def bind_Some_iff ret_ok_def dest: cb_vals)

lemma connected_vals: "handle_connected cb want i f c = Some (ret, c') \<Longrightarrow> ret_ok ret"
  by (auto simp: handle_connected_def bind_Some_iff Let_def ret_ok_def [of HAL_DAEMON_NO_CALLBACK_RETVALUE_SET]
      dest!: call_back_vals split: option.splits if_splits)

lemma register_loop_vals: "register_loop cb want ids i nm (cs, ret, c) = Some (cs', ret', c') \<Longrightarrow> ret_ok ret \<Longrightarrow> ret_ok ret'"
proof (induction ids arbitrary: cs ret c)
  case (Cons j ids)
  obtain cs1 ret1 c1 where "register_loop cb want ids i nm (cs1, ret1, c1) = Some (cs', ret', c')" "ret_ok ret1"
    using Cons.prems by (auto simp: bind_Some_iff Let_def dest!: call_back_vals split: if_splits)
  with Cons.IH show ?case by blast
qed simp

lemma pending_vals:
  assumes "handle_pending cb want i f c = Some (ret, c')"
  shows "ret_ok ret"
proof -
  obtain cs c1 where "read_registration cb want i f c = Some (cs, ret, c1)"
    using assms by (auto simp: handle_pending_def bind_Some_iff Let_def split: if_splits)
  then show ?thesis
    by (auto simp: read_registration_def Let_def bind_Some_iff ret_ok_def [of HAL_DAEMON_NO_CALLBACK_RETVALUE_SET]
        dest!: register_loop_vals split: option.splits if_splits)
qed

lemma handle_poll_vals: "crm_hal_daemon_handle_poll cb want f c = Some (HAL_DAEMON_CALLBACK_RETVALUE_SET r, c') \<Longrightarrow> r \<in> vals"
  unfolding crm_hal_daemon_handle_poll_def
  by (auto simp: bind_Some_iff ret_ok_def dest!: connected_vals pending_vals split: if_splits option.splits)

end

section \<open>The descriptors to poll\<close>

lemma add_fds_append: "length fds + length xs \<le> 3 \<Longrightarrow> add_fds xs fds = Some (fds @ xs)"
  by (induction xs arbitrary: fds) auto

text \<open>No connection is left out and the answer always fits three entries.\<close>

lemma get_sockets_all:
  assumes "daemon_ok c"
  shows "\<exists>fds. crm_hal_daemon_get_sockets c = Some fds \<and> int (length fds) = 1 + num_sockets c \<and> length fds \<le> 3 \<and>
    set fds = insert (server_socket c) ({s \<in> set (pending c). s \<ge> 0} \<union> {s \<in> dsocket ` set (daemons c). s \<ge> 0})"
proof -
  let ?d = "map dsocket (filter (\<lambda>d. dname d \<noteq> None \<and> dsocket d \<ge> 0) (daemons c))" and ?p = "filter (\<lambda>s. s \<ge> 0) (pending c)"
  have d: "filter (\<lambda>d. dname d \<noteq> None \<and> dsocket d \<ge> 0) (daemons c) = filter (\<lambda>d. dsocket d \<ge> 0) (daemons c)"
    using assms by (intro filter_cong) (auto simp: daemon_ok_def)
  have l: "int (length ?d) + int (length ?p) = num_sockets c" "num_sockets c \<le> 2"
    using assms d by (auto simp: daemon_ok_def)
  have "add_fds ?d [server_socket c] = Some (server_socket c # ?d)"
    "add_fds ?p (server_socket c # ?d) = Some (server_socket c # ?d @ ?p)"
    using l by (subst add_fds_append; simp)+
  then have "crm_hal_daemon_get_sockets c = Some (server_socket c # ?d @ ?p)"
    using assms by (simp add: crm_hal_daemon_get_sockets_def daemon_ok_def)
  moreover have "set ?d = {s \<in> dsocket ` set (daemons c). s \<ge> 0}" unfolding d by auto
  ultimately show ?thesis using l by auto
qed

end
