(* ===== verification/Crm_Hal_Pcie.thy ===== *)
theory Crm_Hal_Pcie
  imports Crm_Fsm Crm_Time Crm_Daemons Crm_At
begin

text \<open>
  plugins/hal/pcie: the HAL of a modem on PCIe. fsm_hal.c is its state machine and its thread,
  modem.c drives the modem (power, resets, the netlink messages of the driver, the configuration of
  the multiplexer), nvm_manager.c the daemon that saves the calibration of the modem.

  The context extends the context of the daemons, as in the code. \<open>pcie_param\<close> holds what the
  system answers during an operation: the clock and, for a position of the trace, the result of the
  \<open>ioctl\<close>, of the socket write or of the file copy that is made there. The pauses of the code have
  no effect on the state.
\<close>

section \<open>States, events and requests\<close>

abbreviation (input) ST_OFF :: int where "ST_OFF \<equiv> 0"
abbreviation (input) ST_BOOTING :: int where "ST_BOOTING \<equiv> 1"
abbreviation (input) ST_FLASHING :: int where "ST_FLASHING \<equiv> 2"
abbreviation (input) ST_CONFIGURING :: int where "ST_CONFIGURING \<equiv> 3"
abbreviation (input) ST_STARTING_DAEMONS :: int where "ST_STARTING_DAEMONS \<equiv> 4"
abbreviation (input) ST_RUN :: int where "ST_RUN \<equiv> 5"
abbreviation (input) ST_WAITING_DUMP :: int where "ST_WAITING_DUMP \<equiv> 6"
abbreviation (input) ST_STOPPING_DAEMONS :: int where "ST_STOPPING_DAEMONS \<equiv> 7"
abbreviation (input) ST_WAITING_LINK :: int where "ST_WAITING_LINK \<equiv> 8"
abbreviation (input) ST_NUM :: int where "ST_NUM \<equiv> 9"

abbreviation (input) EV_POWER :: int where "EV_POWER \<equiv> 0"
abbreviation (input) EV_BOOT :: int where "EV_BOOT \<equiv> 1"
abbreviation (input) EV_STOP :: int where "EV_STOP \<equiv> 2"
abbreviation (input) EV_RESET :: int where "EV_RESET \<equiv> 3"
abbreviation (input) EV_BACKUP :: int where "EV_BACKUP \<equiv> 4"
abbreviation (input) EV_MDM_OFF :: int where "EV_MDM_OFF \<equiv> 5"
abbreviation (input) EV_MDM_FLASH :: int where "EV_MDM_FLASH \<equiv> 6"
abbreviation (input) EV_MDM_RUN :: int where "EV_MDM_RUN \<equiv> 7"
abbreviation (input) EV_MDM_CRASH :: int where "EV_MDM_CRASH \<equiv> 8"
abbreviation (input) EV_MDM_DUMP_READY :: int where "EV_MDM_DUMP_READY \<equiv> 9"
abbreviation (input) EV_MDM_LINK_DOWN :: int where "EV_MDM_LINK_DOWN \<equiv> 10"
abbreviation (input) EV_MDM_CONFIGURED :: int where "EV_MDM_CONFIGURED \<equiv> 11"
abbreviation (input) EV_MUX_ERR :: int where "EV_MUX_ERR \<equiv> 12"
abbreviation (input) EV_MUX_DEAD :: int where "EV_MUX_DEAD \<equiv> 13"
abbreviation (input) EV_TIMEOUT :: int where "EV_TIMEOUT \<equiv> 14"
abbreviation (input) EV_RPC_DEAD :: int where "EV_RPC_DEAD \<equiv> 15"
abbreviation (input) EV_RPC_RUN :: int where "EV_RPC_RUN \<equiv> 16"
abbreviation (input) EV_NVM_RUN :: int where "EV_NVM_RUN \<equiv> 17"
abbreviation (input) EV_NVM_STOP :: int where "EV_NVM_STOP \<equiv> 18"
abbreviation (input) EV_NUM :: int where "EV_NUM \<equiv> 19"

abbreviation (input) CRM_MMB_MSG_START :: int where "CRM_MMB_MSG_START \<equiv> 0"
abbreviation (input) CRM_MMB_MSG_STOP :: int where "CRM_MMB_MSG_STOP \<equiv> 1"
abbreviation (input) MMB_CRM_MSG_SUCCESS :: int where "MMB_CRM_MSG_SUCCESS \<equiv> 0"

abbreviation (input) FSM_HAL_FDS_TO_POLL :: nat where "FSM_HAL_FDS_TO_POLL \<equiv> 5"

datatype ctrl_request = REQ_NONE | REQ_POWER | REQ_BOOT | REQ_RESET | REQ_STOP

section \<open>State\<close>

record crm_hal_pcie = crm_hal_daemon_ctx +
  flash_node :: string
  pcie_pwr_ctrl :: string
  pcie_rtpm :: "string option"
  pcie_rm :: "string option"
  pcie_rescan_node :: "string option"
  nvm_calib_file :: string
  nvm_calib_bkup_file :: string
  mux_fd :: int
  thread_cfg :: bool
  mdm_state :: int
  timer_armed :: bool
  first_expiration :: bool
  timer_end :: timespec
  request :: ctrl_request
  backup :: bool
  dump_disabled :: bool
  nvm_daemon_id :: int
  nvm_daemon_connected :: bool
  nvm_daemon_syncing :: bool

record pcie_param =
  now :: timespec
  ioctl_ret :: "nat \<Rightarrow> int"
  write_fails :: "nat \<Rightarrow> bool"
  copy_fails :: "nat \<Rightarrow> bool"
  shutdown_fd :: int
  cli :: mdm_cli

section \<open>Names\<close>

definition get_event_txt :: "int \<Rightarrow> string option" where
  "get_event_txt evt =
     map_of [(EV_POWER, ''REQ: power''), (EV_BOOT, ''REQ: boot''), (EV_STOP, ''REQ: stop''),
       (EV_RESET, ''REQ: reset''), (EV_BACKUP, ''REQ: backup''), (EV_MDM_OFF, ''MDM: off''),
       (EV_MDM_FLASH, ''MDM: flash''), (EV_MDM_CRASH, ''MDM: crash''), (EV_MDM_DUMP_READY, ''MDM: dump''),
       (EV_MDM_RUN, ''MDM: run''), (EV_MDM_LINK_DOWN, ''LINK: down''), (EV_MDM_CONFIGURED, ''MDM: configured''),
       (EV_MUX_ERR, ''MUX: hangout''), (EV_MUX_DEAD, ''MUX: dead''), (EV_TIMEOUT, ''TIMEOUT''),
       (EV_RPC_DEAD, ''RPC: dead''), (EV_RPC_RUN, ''RPC: run''), (EV_NVM_RUN, ''NVM: run''),
       (EV_NVM_STOP, ''NVM: stop'')] evt"

definition get_state_txt :: "int \<Rightarrow> string option" where
  "get_state_txt state =
     map_of [(ST_OFF, ''OFF''), (ST_BOOTING, ''BOOTING''), (ST_FLASHING, ''FLASHING''),
       (ST_CONFIGURING, ''CONFIGURING''), (ST_STARTING_DAEMONS, ''STARTING DAEMONS''),
       (ST_STOPPING_DAEMONS, ''STOPPING DAEMONS''), (ST_RUN, ''RUN''), (ST_WAITING_DUMP, ''WAITING DUMP''),
       (ST_WAITING_LINK, ''WAITING LINK'')] state"

section \<open>Driving the modem\<close>

definition opt_write :: "string option \<Rightarrow> string \<Rightarrow> crm_hal_pcie \<Rightarrow> crm_hal_pcie" where
  "opt_write node val c = (case node of None \<Rightarrow> c | Some path \<Rightarrow> act (FileWrite path val) c)"

definition pcie_rescan :: "crm_hal_pcie \<Rightarrow> crm_hal_pcie" where
  "pcie_rescan c = opt_write (pcie_rescan_node c) ''1'' c"

definition pcie_remove :: "crm_hal_pcie \<Rightarrow> crm_hal_pcie" where
  "pcie_remove c = opt_write (pcie_rm c) ''1'' c"

definition pcie_force_power_on :: "crm_hal_pcie \<Rightarrow> crm_hal_pcie" where
  "pcie_force_power_on c = act (FileWrite (pcie_pwr_ctrl c) ''on'') c"

definition pcie_enable_lpm :: "crm_hal_pcie \<Rightarrow> crm_hal_pcie" where
  "pcie_enable_lpm c = opt_write (pcie_rtpm c) ''1'' c"

definition pcie_disable_lpm :: "crm_hal_pcie \<Rightarrow> crm_hal_pcie" where
  "pcie_disable_lpm c = opt_write (pcie_rtpm c) ''0'' c"

definition close_mux :: "crm_hal_pcie \<Rightarrow> crm_hal_pcie" where
  "close_mux c = (if mux_fd c > 0 then (act (CloseFd (mux_fd c)) c)\<lparr>mux_fd := -1\<rparr> else c)"

definition mcd_ioctl :: "pcie_param \<Rightarrow> string \<Rightarrow> crm_hal_pcie \<Rightarrow> int \<times> crm_hal_pcie" where
  "mcd_ioctl p cmd c = (ioctl_ret p (length (hal_trace c)), act (Ioctl cmd) c)"

definition crm_hal_start_modem :: "crm_hal_pcie \<Rightarrow> pcie_param \<Rightarrow> (int \<times> crm_hal_pcie) option" where
  "crm_hal_start_modem c p = do {
     ASSERT (mux_fd c = -1);
     let (ret, c) = mcd_ioctl p ''MDM_CTRL_POWER_ON'' c;
     Some (ret, if ret = 0 then pcie_enable_lpm (pcie_force_power_on (pcie_rescan c)) else c)
   }"

definition crm_hal_stop_modem :: "crm_hal_pcie \<Rightarrow> pcie_param \<Rightarrow> int \<times> crm_hal_pcie" where
  "crm_hal_stop_modem c p =
     (let c = pcie_disable_lpm (pcie_force_power_on (close_mux c));
          (ret, c) = mcd_ioctl p ''MDM_CTRL_POWER_OFF'' c
      in (ret, if ret = 0 then pcie_rescan (pcie_remove c) else c))"

definition crm_hal_warm_reset_modem :: "crm_hal_pcie \<Rightarrow> pcie_param \<Rightarrow> int \<times> crm_hal_pcie" where
  "crm_hal_warm_reset_modem c p =
     (let c = pcie_disable_lpm (close_mux c);
          (ret, c) = mcd_ioctl p ''MDM_CTRL_WARM_RESET'' c
      in (ret, if ret = 0 then pcie_enable_lpm (pcie_rescan (pcie_remove c)) else c))"

definition crm_hal_cold_reset_modem :: "crm_hal_pcie \<Rightarrow> pcie_param \<Rightarrow> int \<times> crm_hal_pcie" where
  "crm_hal_cold_reset_modem c p =
     (let c = pcie_disable_lpm (pcie_force_power_on (close_mux c));
          (ret, c) = mcd_ioctl p ''MDM_CTRL_COLD_RESET'' c
      in (ret, if ret = 0 then pcie_rescan (pcie_remove (pcie_enable_lpm c)) else c))"

text \<open>
  A netlink message: the size of its payload as its header gives it and its bytes. \<open>None\<close> is a
  \<open>recvmsg\<close> that answers nothing. \<open>strncmp\<close> compares at most that many characters.
\<close>

definition strncmp_eq :: "string \<Rightarrow> string \<Rightarrow> nat \<Rightarrow> bool" where
  "strncmp_eq a b n \<longleftrightarrow> take n (c_str a @ [NUL]) = take n (c_str b @ [NUL])"

definition mdm_events :: "(string \<times> int) list" where
  "mdm_events = [(''MDM_NOT_READY'', EV_MDM_OFF), (''ROM_READY'', EV_MDM_FLASH), (''MDM_READY'', EV_MDM_RUN),
     (''CRASH'', EV_MDM_CRASH), (''CD_READY'', EV_MDM_DUMP_READY), (''CD_READY_LINK_DOWN'', EV_MDM_LINK_DOWN)]"

definition crm_hal_get_mdm_state :: "(nat \<times> string) option \<Rightarrow> int" where
  "crm_hal_get_mdm_state m =
     (case m of
        None \<Rightarrow> -1
      | Some (n, state) \<Rightarrow>
          (case find (\<lambda>(msg, _). strncmp_eq state msg n) mdm_events of None \<Rightarrow> -1 | Some (_, evt) \<Rightarrow> evt))"

text \<open>
  The initialisation: the results of opening and configuring the control device, and what each
  \<open>poll\<close> of the wait brings (\<open>None\<close> when it times out; the list ends when the time is over).
\<close>

fun init_wait :: "crm_hal_pcie \<Rightarrow> (nat \<times> string) option option list \<Rightarrow> crm_hal_pcie" where
  "init_wait c [] = c"
| "init_wait c (None # ms) = c"
| "init_wait c (Some m # ms) =
     (let evt = crm_hal_get_mdm_state m
      in if evt \<noteq> -1
         then if EV_MDM_OFF = evt then c\<lparr>mdm_state := evt\<rparr> else init_wait (c\<lparr>mdm_state := evt\<rparr>) ms
         else init_wait c ms)"

record mcd_init =
  mcd_open :: int
  mcd_cfg :: int
  mcd_busy :: bool
  mcd_polled :: int

definition crm_hal_init_modem ::
  "crm_hal_pcie \<Rightarrow> pcie_param \<Rightarrow> mcd_init \<Rightarrow> (nat \<times> string) option option list \<Rightarrow> crm_hal_pcie option" where
  "crm_hal_init_modem c p m ms = do {
     ASSERT (mcd_open m \<ge> 0);
     ASSERT (mcd_cfg m = 0 \<or> mcd_busy m);
     ASSERT (mcd_polled m = 0);
     let (ret, c) = crm_hal_stop_modem (c\<lparr>mdm_state := EV_MDM_OFF\<rparr>) p;
     ASSERT (ret = 0);
     Some (init_wait (pcie_rescan (pcie_remove c)) ms)
   }"

text \<open>The thread that configures the modem: pings, multiplexer, ping again.\<close>

record mux_env =
  mux_at :: "string \<times> int \<times> at_poll list"
  mux_setd :: int
  mux_getd :: int
  mux_ldisc_ok :: bool
  mux_getconf :: int
  mux_setconf :: int

definition mount_mux :: "mux_env \<Rightarrow> int option" where
  "mount_mux m = do {
     err \<leftarrow> crm_send_at (fst (mux_at m)) ''AT+CMUX=0,0,,1509,10,3,30,,'' (fst (snd (mux_at m))) (snd (snd (mux_at m)));
     if err \<noteq> 0 then Some (-1)
     else do {
       ASSERT (mux_setd m = 0);
       ASSERT (mux_getd m = 0);
       if \<not> mux_ldisc_ok m then Some (-2)
       else do {
         ASSERT (mux_getconf m = 0);
         Some (if mux_setconf m \<noteq> 0 then -2 else 0)
       }
     }
   }"

definition crm_hal_cfg_modem ::
  "int \<Rightarrow> ping_try list \<Rightarrow> mux_env \<Rightarrow> ping_try list \<Rightarrow> crm_hal_pcie \<Rightarrow> (int \<times> crm_hal_pcie) option" where
  "crm_hal_cfg_modem ping_timeout ts1 m ts2 c = do {
     ASSERT (mux_fd c = -1);
     fd \<leftarrow> crm_hal_ping_modem ping_timeout False ts1;
     if fd \<ge> 0
     then do {
       let c = c\<lparr>mux_fd := fd\<rparr>;
       err \<leftarrow> mount_mux m;
       if err = 0
       then do {
         fd \<leftarrow> crm_hal_ping_modem ping_timeout True ts2;
         if fd \<ge> 0 then Some (EV_MDM_CONFIGURED, act (CloseFd fd) c) else Some (EV_TIMEOUT, c)
       }
       else Some (if -1 = err then EV_MUX_ERR else EV_MUX_DEAD, (act (CloseFd (mux_fd c)) c)\<lparr>mux_fd := -1\<rparr>)
     }
     else Some (EV_MUX_ERR, c)
   }"

section \<open>The NVM daemon\<close>

definition crm_hal_nvm_daemon_cb ::
  "nat \<Rightarrow> crm_hal_daemon_evt \<Rightarrow> int \<Rightarrow> int \<Rightarrow> crm_hal_pcie \<Rightarrow> (int \<times> crm_hal_pcie) option" where
  "crm_hal_nvm_daemon_cb i evt msg_id msg_len c = do {
     ASSERT (nvm_daemon_id c = int i);
     (case evt of
        HAL_DAEMON_CONNECTED \<Rightarrow> Some (-1, c\<lparr>nvm_daemon_connected := True\<rparr>)
      | HAL_DAEMON_DISCONNECTED \<Rightarrow> do {
          c \<leftarrow> crm_hal_daemon_start c (nvm_daemon_id c);
          Some (EV_NVM_STOP, c\<lparr>nvm_daemon_connected := False, nvm_daemon_syncing := False\<rparr>)
        }
      | HAL_DAEMON_DATA_IN \<Rightarrow>
          if msg_id = MMB_CRM_MSG_SUCCESS
          then do {
            ASSERT (msg_len = 0);
            Some (EV_NVM_RUN, c\<lparr>nvm_daemon_syncing := True\<rparr>)
          }
          else None)
   }"

definition crm_hal_nvm_on_modem_up :: "crm_hal_pcie \<Rightarrow> pcie_param \<Rightarrow> crm_hal_pcie option" where
  "crm_hal_nvm_on_modem_up c p = do {
     (sent, c) \<leftarrow> crm_hal_daemon_msg_send (write_fails p) c (nvm_daemon_id c) CRM_MMB_MSG_START None 0;
     if sent < 0
     then do {
       let c = c\<lparr>nvm_daemon_connected := False\<rparr>;
       c \<leftarrow> crm_hal_daemon_stop c (nvm_daemon_id c);
       crm_hal_daemon_start c (nvm_daemon_id c)
     }
     else Some c
   }"

definition crm_hal_nvm_on_modem_down :: "crm_hal_pcie \<Rightarrow> pcie_param \<Rightarrow> crm_hal_pcie option" where
  "crm_hal_nvm_on_modem_down c p = do {
     (sent, c) \<leftarrow> crm_hal_daemon_msg_send (write_fails p) c (nvm_daemon_id c) CRM_MMB_MSG_STOP None 0;
     if sent < 0 then crm_hal_daemon_stop c (nvm_daemon_id c) else Some c
   }"

definition crm_hal_nvm_on_manager_crash :: "crm_hal_pcie \<Rightarrow> crm_hal_pcie option" where
  "crm_hal_nvm_on_manager_crash c = do {
     c \<leftarrow> crm_hal_daemon_stop c (nvm_daemon_id c);
     c \<leftarrow> crm_hal_daemon_start c (nvm_daemon_id c);
     Some (c\<lparr>nvm_daemon_syncing := False\<rparr>)
   }"


section \<open>Operations\<close>

definition notify_ctrl :: "crm_hal_evt \<Rightarrow> crm_hal_pcie \<Rightarrow> crm_hal_pcie" where
  "notify_ctrl e c = act (HalNotify e) c"

definition notify_ctrl_event_only :: "int \<Rightarrow> crm_hal_pcie \<Rightarrow> crm_hal_pcie" where
  "notify_ctrl_event_only evt c = notify_ctrl \<lparr>hal_type = evt, nodes = '''', hal_dbg_info = None\<rparr> c"

definition timer_start :: "crm_hal_pcie \<Rightarrow> timespec \<Rightarrow> int \<Rightarrow> bool \<Rightarrow> crm_hal_pcie option" where
  "timer_start c t ms update = do {
     ASSERT (timer_armed c \<longrightarrow> update);
     Some (c\<lparr>timer_armed := True, timer_end := crm_time_add_ms t ms\<rparr>)
   }"

definition get_timeout :: "timespec \<Rightarrow> crm_hal_pcie \<Rightarrow> int" where
  "get_timeout t c = (if timer_armed c = False then -1 else crm_time_get_remain_ms t (timer_end c))"

definition stop_daemons :: "crm_hal_pcie \<Rightarrow> pcie_param \<Rightarrow> crm_hal_pcie option" where
  "stop_daemons c p = do {
     c \<leftarrow> crm_hal_nvm_on_modem_down c p;
     timer_start c (now p) 10000 False
   }"

type_synonym pcie_op = "crm_hal_pcie \<Rightarrow> pcie_param \<Rightarrow> (int \<times> crm_hal_pcie) option"

definition cfg_modem :: pcie_op where
  "cfg_modem c p =
     (if request c = REQ_BOOT
      then do {
        ASSERT (\<not> thread_cfg c);
        let c = act (PropertySet ''sys.wwan0.state'' ''ready'') c;
        Some (ST_CONFIGURING, c\<lparr>request := REQ_NONE, timer_armed := False, thread_cfg := True\<rparr>)
      }
      else Some (-1, c))"

definition link_down_evt :: pcie_op where
  "link_down_evt c p = do {
     ASSERT (request c = REQ_STOP \<or> request c = REQ_RESET);
     ASSERT (timer_armed c);
     let c = notify_ctrl_event_only HAL_MDM_BUSY c;
     if request c = REQ_STOP
     then do {
       let (err, c) = crm_hal_stop_modem c p;
       if err \<noteq> 0 then Some (-2, c)
       else do { c \<leftarrow> timer_start c (now p) 1000 True; Some (-1, c) }
     }
     else Some (-1, c)
   }"

definition timeout_waiting_link :: pcie_op where
  "timeout_waiting_link c p = do {
     ASSERT (timer_armed c = True);
     if first_expiration c
     then do {
       let c = c\<lparr>first_expiration := False\<rparr>;
       let (err, c) = (if request c = REQ_STOP then crm_hal_stop_modem c p else crm_hal_cold_reset_modem c p);
       if err = 0 then do { c \<leftarrow> timer_start c (now p) 1000 True; Some (-1, c) }
       else Some (-2, c)
     }
     else Some (-2, c)
   }"

definition hal_dbg :: "mdm_cli \<Rightarrow> 32 word \<Rightarrow> 8 word list list \<Rightarrow> mdm_cli_dbg_info" where
  "hal_dbg k ty ss = mk_dbg ty (DBG_DEFAULT_LOG_SIZE k) (DBG_DEFAULT_LOG_SIZE k) (DBG_DEFAULT_LOG_TIME k) ss"

definition bytes_of :: "string \<Rightarrow> 8 word list" where
  "bytes_of s = map of_char s"

definition save_calibration :: "crm_hal_pcie \<Rightarrow> pcie_param \<Rightarrow> crm_hal_pcie option" where
  "save_calibration c p =
     (if backup c
      then do {
        let c = c\<lparr>backup := False\<rparr>;
        ASSERT (\<not> copy_fails p (length (hal_trace c)));
        let c = act (FileCopy (nvm_calib_file c) (nvm_calib_bkup_file c)) c;
        let no = DBG_DEFAULT_NO_LOG (cli p);
        Some (act (ClientNotify (mk_dbg (DBG_TYPE_NVM_BACKUP_SUCCESS (cli p)) no no no [])) c)
      }
      else Some c)"

definition reset_or_stop :: pcie_op where
  "reset_or_stop c p =
     (if nvm_daemon_syncing c then Some (-1, c)
      else do {
        c \<leftarrow> save_calibration c p;
        let c = c\<lparr>timer_armed := False\<rparr>;
        (case request c of
           REQ_RESET \<Rightarrow> do {
             let (err, c) = crm_hal_cold_reset_modem c p;
             ASSERT (err = 0);
             c \<leftarrow> timer_start c (now p) 100000 True;
             Some (ST_WAITING_LINK, c)
           }
         | REQ_STOP \<Rightarrow> do {
             let (err, c) = crm_hal_stop_modem c p;
             ASSERT (err = 0);
             if EV_MDM_LINK_DOWN = mdm_state c \<or> EV_MDM_OFF = mdm_state c then Some (ST_OFF, c)
             else do { c \<leftarrow> timer_start c (now p) 1000 True; Some (ST_WAITING_LINK, c) }
           }
         | _ \<Rightarrow> Some (-1, c))
      })"

definition timeout_daemons :: pcie_op where
  "timeout_daemons c p =
     (if first_expiration c
      then do {
        let c = c\<lparr>first_expiration := False\<rparr>;
        ASSERT (nvm_daemon_connected c);
        c \<leftarrow> crm_hal_nvm_on_manager_crash c;
        reset_or_stop (c\<lparr>timer_armed := False\<rparr>) p
      }
      else Some (-2, c))"

definition mdm_off_evt :: pcie_op where
  "mdm_off_evt c p = do {
     ASSERT (request c = REQ_STOP \<or> request c = REQ_RESET);
     ASSERT (timer_armed c);
     let c = notify_ctrl_event_only HAL_MDM_BUSY c;
     if request c = REQ_STOP
     then do {
       let (err, c) = crm_hal_stop_modem c p;
       let c = notify_ctrl_event_only HAL_MDM_OFF c;
       Some (ST_OFF, c\<lparr>timer_armed := False, request := REQ_NONE\<rparr>)
     }
     else Some (-1, c)
   }"

definition notify_need_reset :: "crm_hal_pcie \<Rightarrow> pcie_param \<Rightarrow> mdm_cli_dbg_info \<Rightarrow> (int \<times> crm_hal_pcie) option" where
  "notify_need_reset c p dbg_info = do {
     let c = notify_ctrl_event_only HAL_MDM_BUSY c;
     let c = notify_ctrl \<lparr>hal_type = HAL_MDM_NEED_RESET, nodes = '''', hal_dbg_info = Some dbg_info\<rparr> c;
     c \<leftarrow> crm_hal_nvm_on_modem_down c p;
     c \<leftarrow> timer_start c (now p) 10000 True;
     Some (ST_STOPPING_DAEMONS, c)
   }"

definition notify_mux_err :: pcie_op where
  "notify_mux_err c p = notify_need_reset c p (hal_dbg (cli p) (DBG_TYPE_ERROR (cli p)) [bytes_of ''MUX hangup''])"

definition notify_timeout :: pcie_op where
  "notify_timeout c p = notify_need_reset c p (hal_dbg (cli p) (DBG_TYPE_ERROR (cli p)) [bytes_of ''timeout''])"

definition notify_dump :: pcie_op where
  "notify_dump c p =
     Some (-1, notify_ctrl \<lparr>hal_type = HAL_MDM_DUMP, nodes = take 127 (flash_node c), hal_dbg_info = None\<rparr> c)"

definition notify_self :: pcie_op where
  "notify_self c p = notify_need_reset c p (hal_dbg (cli p) (DBG_TYPE_SELF_RESET (cli p)) [])"

definition notify_crash :: pcie_op where
  "notify_crash c p = Some (ST_WAITING_DUMP, notify_ctrl_event_only HAL_MDM_BUSY c)"

definition prepare_dump :: pcie_op where
  "prepare_dump c p = (if dump_disabled c then notify_self c p else Some (-1, snd (crm_hal_warm_reset_modem c p)))"

definition notify_flash :: pcie_op where
  "notify_flash c p = do {
     ASSERT (timer_armed c);
     let c = notify_ctrl_event_only HAL_MDM_BUSY (c\<lparr>timer_armed := False\<rparr>);
     Some (ST_FLASHING, notify_ctrl \<lparr>hal_type = HAL_MDM_FLASH, nodes = take 127 (flash_node c), hal_dbg_info = None\<rparr> c)
   }"

definition start_daemons :: pcie_op where
  "start_daemons c p = do {
     ASSERT (\<not> timer_armed c);
     c \<leftarrow> timer_start c (now p) 5000 False;
     ASSERT (nvm_daemon_connected c \<and> \<not> nvm_daemon_syncing c);
     c \<leftarrow> crm_hal_nvm_on_modem_up c p;
     Some (ST_STARTING_DAEMONS, c)
   }"

definition notify_run :: pcie_op where
  "notify_run c p = do {
     ASSERT (timer_armed c);
     Some (ST_RUN, notify_ctrl_event_only HAL_MDM_RUN (c\<lparr>timer_armed := False\<rparr>))
   }"

definition notify_dead :: "crm_hal_pcie \<Rightarrow> pcie_param \<Rightarrow> string \<Rightarrow> (int \<times> crm_hal_pcie) option" where
  "notify_dead c p reason =
     (let (err, c) = crm_hal_stop_modem c p;
          c = notify_ctrl_event_only HAL_MDM_BUSY c;
          no = DBG_DEFAULT_NO_LOG (cli p);
          dbg = mk_dbg (DBG_TYPE_ERROR (cli p)) (DBG_DEFAULT_LOG_SIZE (cli p)) no no [bytes_of reason]
      in Some (ST_OFF, notify_ctrl \<lparr>hal_type = HAL_MDM_UNRESPONSIVE, nodes = '''', hal_dbg_info = Some dbg\<rparr> c))"

definition mux_dead :: pcie_op where
  "mux_dead c p = notify_dead c p ''MUX is dead''"

definition modem_dead :: pcie_op where
  "modem_dead c p = notify_dead c p ''failsafe''"

text \<open>The answer to the shutdown command is not read: the command is sent with no time-out.\<close>

definition request_stop :: pcie_op where
  "request_stop c p = do {
     ASSERT (request c = REQ_NONE);
     c \<leftarrow> stop_daemons (c\<lparr>request := REQ_STOP\<rparr>) p;
     let c = (if EV_MDM_RUN = mdm_state c \<and> shutdown_fd p \<ge> 0
              then act (CloseFd (shutdown_fd p)) (act (AtCommand ''AT+CFUN=0'') c) else c);
     Some (ST_STOPPING_DAEMONS, c)
   }"

definition request_reset :: pcie_op where
  "request_reset c p = do {
     ASSERT (request c = REQ_NONE);
     c \<leftarrow> stop_daemons (c\<lparr>request := REQ_RESET\<rparr>) p;
     Some (ST_STOPPING_DAEMONS, c)
   }"

definition request_backup :: pcie_op where
  "request_backup c p = request_reset (c\<lparr>backup := True\<rparr>) p"

definition request_power :: pcie_op where
  "request_power c p = do {
     ASSERT (request c = REQ_NONE);
     (err, c) \<leftarrow> crm_hal_start_modem (c\<lparr>request := REQ_POWER\<rparr>) p;
     if err = 0 then do { c \<leftarrow> timer_start c (now p) 3000 False; Some (ST_BOOTING, c) }
     else Some (-2, c)
   }"

definition request_boot :: pcie_op where
  "request_boot c p = do {
     ASSERT (request c = REQ_POWER \<or> request c = REQ_RESET);
     let c = c\<lparr>request := REQ_BOOT\<rparr>;
     if mdm_state c = EV_MDM_RUN then cfg_modem c p
     else do { c \<leftarrow> timer_start c (now p) 1000 False; Some (-1, c) }
   }"

definition accept_stop :: pcie_op where
  "accept_stop c p = reset_or_stop (c\<lparr>request := REQ_STOP\<rparr>) p"

definition accept_reset :: pcie_op where
  "accept_reset c p = reset_or_stop (c\<lparr>request := REQ_RESET\<rparr>) p"

definition reject :: pcie_op where
  "reject c p = None"

definition assert :: pcie_op where
  "assert c p = None"

definition todo :: pcie_op where
  "todo c p = None"

definition state_trans :: "int \<Rightarrow> int \<Rightarrow> int \<Rightarrow> crm_hal_pcie \<Rightarrow> pcie_param \<Rightarrow> crm_hal_pcie option" where
  "state_trans prev_state new_state evt c p =
     (let c = c\<lparr>first_expiration := True\<rparr>
      in Some (if prev_state = ST_RUN then act (PropertySet ''ctl.stop'' ''rpc-daemon'') c else c))"

section \<open>The table\<close>

abbreviation (input) cell :: "pcie_op \<Rightarrow> (crm_hal_pcie, pcie_param) crm_fsm_ops" where
  "cell f \<equiv> \<lparr>force_new_state = -1, operation = Some f\<rparr>"

abbreviation (input) no_op :: "(crm_hal_pcie, pcie_param) crm_fsm_ops" where
  "no_op \<equiv> \<lparr>force_new_state = -1, operation = None\<rparr>"

definition pcie_rows :: "(crm_hal_pcie, pcie_param) crm_fsm_ops list list" where
  "pcie_rows =
    [[cell request_power, cell reject, cell reject, cell reject, cell reject, cell reject, cell reject, cell reject, cell reject],
     [cell reject, cell reject, cell request_boot, cell reject, cell reject, cell reject, cell reject, cell reject, cell reject],
     [cell reject, cell reject, cell reject, cell reject, cell reject, cell request_stop, cell request_stop, cell accept_stop, cell reject],
     [cell reject, cell reject, cell reject, cell reject, cell reject, cell request_reset, cell request_reset, cell accept_reset, cell reject],
     [cell reject, cell reject, cell reject, cell reject, cell reject, cell request_backup, cell reject, cell reject, cell reject],

     [cell assert, cell notify_self, cell notify_self, cell notify_self, cell notify_self, cell notify_self, no_op, no_op, cell mdm_off_evt],
     [cell assert, cell notify_flash, cell assert, cell assert, cell assert, cell assert, cell notify_dump, cell todo, cell notify_flash],
     [cell assert, cell assert, cell cfg_modem, cell assert, cell assert, cell assert, cell assert, cell todo, cell assert],
     [cell todo, cell todo, cell todo, cell todo, cell todo, cell notify_crash, cell assert, cell todo, cell todo],
     [cell assert, cell assert, cell assert, cell assert, cell assert, cell assert, cell prepare_dump, cell todo, cell assert],
     [cell assert, cell notify_self, cell notify_self, cell notify_self, cell notify_self, cell notify_self, cell notify_self, cell todo, cell link_down_evt],

     [cell assert, cell assert, cell assert, cell start_daemons, cell assert, cell assert, cell assert, cell todo, cell assert],
     [cell assert, cell assert, cell assert, cell notify_mux_err, cell notify_mux_err, cell notify_mux_err, cell assert, no_op, cell assert],
     [cell assert, cell assert, cell assert, cell mux_dead, cell assert, cell assert, cell assert, cell todo, cell assert],
     [cell assert, cell assert, cell notify_timeout, cell notify_timeout, cell todo, cell assert, cell todo, cell timeout_daemons, cell timeout_waiting_link],

     [cell assert, cell assert, cell assert, cell assert, cell todo, cell todo, cell assert, cell todo, cell assert],
     [cell assert, cell assert, cell assert, cell assert, cell todo, cell assert, cell assert, cell todo, cell assert],
     [cell assert, cell todo, cell todo, cell todo, cell notify_run, cell todo, cell todo, no_op, cell todo],
     [cell assert, cell todo, cell todo, cell todo, cell todo, cell todo, cell todo, cell reset_or_stop, cell todo]]"

definition pcie_fsm :: "(crm_hal_pcie, pcie_param) crm_fsm_ctx" where
  "pcie_fsm = \<lparr>fsm = concat pcie_rows, num_events = EV_NUM, num_states = ST_NUM,
     pre_op = None, state_trans = Some state_trans, failsafe = modem_dead,
     get_state_txt = get_state_txt, get_event_txt = get_event_txt\<rparr>"


section \<open>The thread of the HAL\<close>

text \<open>
  init.c: \<open>conf\<close> holds the configuration that was read; the rest of the structure is cleared. The
  calibration is restored when there is none.
\<close>

definition init_fields :: "crm_hal_pcie \<Rightarrow> bool \<Rightarrow> crm_hal_pcie" where
  "init_fields conf dump_off =
     conf\<lparr>mux_fd := -1, thread_cfg := False, mdm_state := 0, timer_armed := False, first_expiration := True,
       timer_end := \<lparr>tv_sec = 0, tv_nsec = 0\<rparr>, request := REQ_NONE, backup := False, dump_disabled := dump_off,
       nvm_daemon_syncing := False, hal_trace := []\<rparr>"

definition start_nvm_manager :: "crm_hal_pcie \<Rightarrow> crm_hal_pcie option" where
  "start_nvm_manager c = do {
     (i, c) \<leftarrow> crm_hal_daemon_add c ''nvm_manager'';
     let c = c\<lparr>nvm_daemon_id := int i\<rparr>;
     c \<leftarrow> crm_hal_daemon_start c (nvm_daemon_id c);
     Some (c\<lparr>nvm_daemon_connected := False\<rparr>)
   }"

definition crm_hal_init :: "crm_hal_pcie \<Rightarrow> int \<Rightarrow> bool \<Rightarrow> bool \<Rightarrow> crm_hal_pcie option" where
  "crm_hal_init conf server dump_off calib_exists = do {
     let c = init_fields conf dump_off;
     let c = (if \<not> calib_exists then act (FileCopy (nvm_calib_bkup_file c) (nvm_calib_file c)) c else c);
     c \<leftarrow> crm_hal_daemon_init server c;
     start_nvm_manager c
   }"

definition crm_hal_pcie_start ::
  "crm_hal_pcie \<Rightarrow> pcie_param \<Rightarrow> mcd_init \<Rightarrow> (nat \<times> string) option option list \<Rightarrow> (int \<times> crm_hal_pcie) option" where
  "crm_hal_pcie_start c p m ms = do {
     c \<leftarrow> crm_hal_init_modem c p m ms;
     let c = act (PropertySet ''ctl.stop'' ''rpc-daemon'') c;
     let c = notify_ctrl_event_only HAL_MDM_OFF c;
     st \<leftarrow> crm_fsm_init pcie_fsm ST_OFF ''HAL'';
     Some (st, c)
   }"

text \<open>
  What an iteration finds after \<open>poll\<close>, in the order of the tests of the code. The thread that
  configures the modem is described by what it meets; it runs to its end before its message is read.
\<close>

datatype pcie_input =
    PcieError
  | PcieTimeout pcie_param
  | PcieMsgs "(int \<times> pcie_param) list"
  | PcieNetlink "(nat \<times> string) option" pcie_param
  | PcieCfg int "ping_try list" mux_env "ping_try list" pcie_param
  | PcieMux pcie_param
  | PcieRpcd
  | PcieDaemons "(daemon_pollfd \<times> pcie_param) list"

definition pcie_event :: "pcie_param \<Rightarrow> int \<Rightarrow> bool \<times> int \<times> crm_hal_pcie \<Rightarrow> (bool \<times> int \<times> crm_hal_pcie) option" where
  "pcie_event p evt s = (case s of (running, st, c) \<Rightarrow> do {
     (st, c) \<leftarrow> notify_event pcie_fsm st evt c p;
     Some (running, st, c)
   })"

fun pcie_msgs :: "(int \<times> pcie_param) list \<Rightarrow> bool \<times> int \<times> crm_hal_pcie \<Rightarrow> (bool \<times> int \<times> crm_hal_pcie) option" where
  "pcie_msgs [] s = Some s"
| "pcie_msgs ((sc, p) # ms) (running, st, c) =
     (if sc = -1 then pcie_msgs ms (False, st, c)
      else do {
        s \<leftarrow> pcie_event p sc (running, st, c);
        pcie_msgs ms s
      })"

fun daemon_events :: "(daemon_pollfd \<times> pcie_param) list \<Rightarrow> bool \<times> int \<times> crm_hal_pcie \<Rightarrow> (bool \<times> int \<times> crm_hal_pcie) option" where
  "daemon_events [] s = Some s"
| "daemon_events ((f, p) # fs) (running, st, c) = do {
     (ret, c) \<leftarrow> crm_hal_daemon_handle_poll crm_hal_nvm_daemon_cb True f c;
     ASSERT (ret \<noteq> HAL_DAEMON_POLL_NOT_HANDLED);
     s \<leftarrow> (case ret of
            HAL_DAEMON_CALLBACK_RETVALUE_SET evt \<Rightarrow>
              if evt \<noteq> -1 then pcie_event p evt (running, st, c) else Some (running, st, c)
          | _ \<Rightarrow> Some (running, st, c));
     daemon_events fs s
   }"

text \<open>The array of descriptors has two entries left for the sockets of the daemons.\<close>

definition pcie_iter :: "pcie_input \<Rightarrow> bool \<times> int \<times> crm_hal_pcie \<Rightarrow> (bool \<times> int \<times> crm_hal_pcie) option" where
  "pcie_iter inp s = (case s of (running, st, c) \<Rightarrow> do {
     fds \<leftarrow> crm_hal_daemon_get_sockets c;
     ASSERT (FSM_HAL_FDS_TO_POLL + length fds \<le> FSM_HAL_FDS_TO_POLL + 2);
     (case inp of
        PcieError \<Rightarrow> None
      | PcieTimeout p \<Rightarrow> do {
          ASSERT (timer_armed c);
          pcie_event p EV_TIMEOUT s
        }
      | PcieMsgs ms \<Rightarrow> pcie_msgs ms s
      | PcieNetlink m p \<Rightarrow>
          (let evt = crm_hal_get_mdm_state m
           in if evt \<noteq> -1 then pcie_event p evt (running, st, c\<lparr>mdm_state := evt\<rparr>) else Some s)
      | PcieCfg tmo ts1 m ts2 p \<Rightarrow> do {
          ASSERT (thread_cfg c);
          (evt, c) \<leftarrow> crm_hal_cfg_modem tmo ts1 m ts2 c;
          pcie_event p evt (running, st, c\<lparr>thread_cfg := False\<rparr>)
        }
      | PcieMux p \<Rightarrow> pcie_event p EV_MUX_ERR (running, st, (act (CloseFd (mux_fd c)) c)\<lparr>mux_fd := -1\<rparr>)
      | PcieRpcd \<Rightarrow> None
      | PcieDaemons fs \<Rightarrow> do {
          ASSERT (fs \<noteq> []);
          daemon_events fs s
        })
   })"

fun crm_hal_pcie_fsm :: "pcie_input list \<Rightarrow> bool \<times> int \<times> crm_hal_pcie \<Rightarrow> (bool \<times> int \<times> crm_hal_pcie) option" where
  "crm_hal_pcie_fsm [] s = Some s"
| "crm_hal_pcie_fsm (i # is) s = (if fst s then do { s \<leftarrow> pcie_iter i s; crm_hal_pcie_fsm is s } else Some s)"

end
