(* ===== verification/Crm_Hal_Pcie_Props.thy ===== *)
theory Crm_Hal_Pcie_Props
  imports Crm_Hal_Pcie Crm_Hal_Contract
begin

text \<open>
  The properties of the PCIe HAL: the timer and the request agree with the state of the machine, the
  connections of the daemons stay counted, the events reported follow the contract with Control, and
  the ways the HAL leaves a state it cannot recover from.
\<close>

section \<open>What the lower layers leave alone\<close>

definition pcie_reports :: "hal_io list \<Rightarrow> int list" where
  "pcie_reports tr = concat (map (\<lambda>x. case x of HalNotify e \<Rightarrow> [hal_type e] | _ \<Rightarrow> []) tr)"

lemma pcie_reports_simps [simp]:
  "pcie_reports [] = []" "pcie_reports (xs @ ys) = pcie_reports xs @ pcie_reports ys"
  "pcie_reports (HalNotify e # xs) = hal_type e # pcie_reports xs"
  by (simp_all add: pcie_reports_def)

definition calm :: "crm_hal_pcie \<Rightarrow> crm_hal_pcie \<Rightarrow> bool" where
  "calm c c' \<longleftrightarrow> request c' = request c \<and> timer_armed c' = timer_armed c \<and>
     pcie_reports (hal_trace c') = pcie_reports (hal_trace c) \<and> (daemon_ok c \<longrightarrow> daemon_ok c')"

lemma pcie_calm_refl [simp]: "calm c c" by (simp add: calm_def)

lemma pcie_calm_trans: "calm a b \<Longrightarrow> calm b c \<Longrightarrow> calm a c" by (simp add: calm_def)

lemma act_fields [simp]:
  "request (act x c) = request c" "timer_armed (act x c) = timer_armed c" "mdm_state (act x c) = mdm_state c"
  "nvm_daemon_id (act x c) = nvm_daemon_id c" "mux_fd (act x c) = mux_fd c" "first_expiration (act x c) = first_expiration c"
  "nvm_daemon_connected (act x c) = nvm_daemon_connected c" "nvm_daemon_syncing (act x c) = nvm_daemon_syncing c"
  "thread_cfg (act x c) = thread_cfg c" "backup (act x c) = backup c" "flash_node (act x c) = flash_node c"
  "dump_disabled (act x c) = dump_disabled c" "timer_end (act x c) = timer_end c"
  by (simp_all add: act_def)

definition silent :: "hal_io \<Rightarrow> bool" where
  "silent x = (case x of HalNotify e \<Rightarrow> False | _ \<Rightarrow> True)"

lemma silent_simps [simp]:
  "silent (PropertySet k v)" "silent (CloseFd fd)" "silent (SocketSend fd m n)" "silent (FileWrite path v)" "silent (Ioctl cmd)"
  "silent (FileCopy a b)" "silent (AtCommand cmd)" "silent (ClientNotify dbg)"
  by (simp_all add: silent_def)

lemma reports_silent [simp]: "silent x \<Longrightarrow> pcie_reports (x # xs) = pcie_reports xs"
  by (cases x) (simp_all add: silent_def pcie_reports_def)

lemma calm_act: "silent x \<Longrightarrow> calm c (act x c)"
  by (cases x) (simp_all add: silent_def calm_def pcie_reports_def)

lemma daemon_ok_ext [simp]:
  "daemon_ok (c\<lparr>request := r\<rparr>) = daemon_ok c" "daemon_ok (c\<lparr>timer_armed := b\<rparr>) = daemon_ok c" "daemon_ok (c\<lparr>mdm_state := m\<rparr>) = daemon_ok c"
  "daemon_ok (c\<lparr>mux_fd := n\<rparr>) = daemon_ok c" "daemon_ok (c\<lparr>first_expiration := b\<rparr>) = daemon_ok c" "daemon_ok (c\<lparr>timer_end := t\<rparr>) = daemon_ok c"
  "daemon_ok (c\<lparr>nvm_daemon_connected := b\<rparr>) = daemon_ok c" "daemon_ok (c\<lparr>nvm_daemon_syncing := b\<rparr>) = daemon_ok c"
  "daemon_ok (c\<lparr>thread_cfg := b\<rparr>) = daemon_ok c" "daemon_ok (c\<lparr>backup := b\<rparr>) = daemon_ok c" "daemon_ok (c\<lparr>nvm_daemon_id := n\<rparr>) = daemon_ok c"
  "daemon_ok (c\<lparr>dump_disabled := b\<rparr>) = daemon_ok c"
  by (simp_all add: daemon_ok_def)

lemma calm_ext [simp]:
  "calm c (c\<lparr>mux_fd := n\<rparr>)" "calm c (c\<lparr>first_expiration := b\<rparr>)" "calm c (c\<lparr>nvm_daemon_connected := b\<rparr>)"
  "calm c (c\<lparr>nvm_daemon_syncing := b\<rparr>)" "calm c (c\<lparr>thread_cfg := b\<rparr>)" "calm c (c\<lparr>backup := b\<rparr>)"
  "calm c (c\<lparr>mdm_state := m\<rparr>)"
  by (simp_all add: calm_def)

lemma calm_under [simp]:
  "silent x \<Longrightarrow> calm c (act x c') = calm c c'"
  "calm c (c'\<lparr>mux_fd := n\<rparr>) = calm c c'" "calm c (c'\<lparr>first_expiration := b\<rparr>) = calm c c'" "calm c (c'\<lparr>nvm_daemon_connected := b\<rparr>) = calm c c'"
  "calm c (c'\<lparr>nvm_daemon_syncing := b\<rparr>) = calm c c'" "calm c (c'\<lparr>thread_cfg := b\<rparr>) = calm c c'" "calm c (c'\<lparr>backup := b\<rparr>) = calm c c'"
  by (cases x; simp add: silent_def calm_def pcie_reports_def) (simp_all add: calm_def)

lemma calm_opt_write: "calm c (opt_write n v c)"
  by (simp add: opt_write_def calm_act split: option.splits)

lemma calm_pcie: "calm c (pcie_rescan c)" "calm c (pcie_remove c)" "calm c (pcie_enable_lpm c)" "calm c (pcie_disable_lpm c)"
  "calm c (pcie_force_power_on c)" "calm c (close_mux c)" "calm c (snd (mcd_ioctl p s c))"
  by (auto simp: pcie_rescan_def pcie_remove_def pcie_enable_lpm_def pcie_disable_lpm_def pcie_force_power_on_def close_mux_def mcd_ioctl_def
      calm_opt_write calm_act intro: pcie_calm_trans [OF calm_act calm_ext(1)])

lemmas calm_steps = calm_pcie [THEN pcie_calm_trans [rotated]] calm_pcie

lemma calm_stop_modem: "calm c (snd (crm_hal_stop_modem c p))"
  unfolding crm_hal_stop_modem_def Let_def case_prod_beta snd_conv
  by (auto intro!: calm_pcie pcie_calm_trans [OF _ calm_pcie(1)] pcie_calm_trans [OF _ calm_pcie(2)] pcie_calm_trans [OF _ calm_pcie(7)]
      pcie_calm_trans [OF _ calm_pcie(4)] pcie_calm_trans [OF _ calm_pcie(5)])

lemma calm_cold_reset: "calm c (snd (crm_hal_cold_reset_modem c p))"
  unfolding crm_hal_cold_reset_modem_def Let_def case_prod_beta snd_conv
  by (auto intro!: calm_pcie pcie_calm_trans [OF _ calm_pcie(1)] pcie_calm_trans [OF _ calm_pcie(2)] pcie_calm_trans [OF _ calm_pcie(7)]
      pcie_calm_trans [OF _ calm_pcie(4)] pcie_calm_trans [OF _ calm_pcie(5)] pcie_calm_trans [OF _ calm_pcie(3)])

lemma calm_warm_reset: "calm c (snd (crm_hal_warm_reset_modem c p))"
  unfolding crm_hal_warm_reset_modem_def Let_def case_prod_beta snd_conv
  by (auto intro!: calm_pcie pcie_calm_trans [OF _ calm_pcie(1)] pcie_calm_trans [OF _ calm_pcie(2)] pcie_calm_trans [OF _ calm_pcie(7)]
      pcie_calm_trans [OF _ calm_pcie(4)] pcie_calm_trans [OF _ calm_pcie(5)] pcie_calm_trans [OF _ calm_pcie(3)])

lemma calm_start_modem: "crm_hal_start_modem c p = Some (r, c') \<Longrightarrow> calm c c'"
  unfolding crm_hal_start_modem_def Let_def case_prod_beta
  by (auto intro!: calm_pcie pcie_calm_trans [OF _ calm_pcie(1)] pcie_calm_trans [OF _ calm_pcie(7)]
      pcie_calm_trans [OF _ calm_pcie(5)] pcie_calm_trans [OF _ calm_pcie(3)] split: if_splits)


lemma calm_daemon_stop: "crm_hal_daemon_stop c i = Some c' \<Longrightarrow> daemon_ok c \<Longrightarrow> calm c c'"
  by (frule (1) daemon_stop_ok)
    (auto simp: calm_def crm_hal_daemon_stop_def bind_Some_iff Let_def set_daemon_def pcie_reports_def split: if_splits)

lemma calm_daemon_start: "crm_hal_daemon_start c i = Some c' \<Longrightarrow> calm c c'"
  by (auto simp: crm_hal_daemon_start_def bind_Some_iff intro: calm_act)

lemma calm_msg_send: "crm_hal_daemon_msg_send wr c i m dat n = Some (r, c') \<Longrightarrow> calm c c'"
  by (auto simp: crm_hal_daemon_msg_send_def bind_Some_iff Let_def intro: calm_act pcie_calm_trans [OF calm_act calm_act] split: if_splits)

lemma calm_ok: "calm c c' \<Longrightarrow> daemon_ok c \<Longrightarrow> daemon_ok c'" by (simp add: calm_def)

lemma calm_nvm_up: "crm_hal_nvm_on_modem_up c p = Some c' \<Longrightarrow> daemon_ok c \<Longrightarrow> calm c c'"
  unfolding crm_hal_nvm_on_modem_up_def Let_def
  by (elim bind_Some_E)
    (auto simp: bind_Some_iff dest!: calm_msg_send calm_daemon_start calm_daemon_stop intro: calm_ok split: if_splits, auto simp: calm_def)

lemma calm_nvm_down: "crm_hal_nvm_on_modem_down c p = Some c' \<Longrightarrow> daemon_ok c \<Longrightarrow> calm c c'"
  unfolding crm_hal_nvm_on_modem_down_def
  by (elim bind_Some_E)
    (auto dest!: calm_msg_send calm_daemon_stop intro: calm_ok split: if_splits, auto simp: calm_def)

lemma calm_nvm_crash: "crm_hal_nvm_on_manager_crash c = Some c' \<Longrightarrow> daemon_ok c \<Longrightarrow> calm c c'"
  unfolding crm_hal_nvm_on_manager_crash_def
  by (elim bind_Some_E) (auto dest!: calm_daemon_start calm_daemon_stop intro: calm_ok, auto simp: calm_def)

lemma calm_save: "save_calibration c p = Some c' \<Longrightarrow> calm c c'"
  by (auto simp: save_calibration_def Let_def split: if_splits)

lemma calm_cfg_modem:
  assumes "crm_hal_cfg_modem tmo ts1 m ts2 c = Some (evt, c')"
  shows "calm c c'"
proof -
  obtain fd where fd: "crm_hal_ping_modem tmo False ts1 = Some fd" and m: "mux_fd c = -1"
    using assms by (auto simp: crm_hal_cfg_modem_def bind_Some_iff)
  show ?thesis
  proof (cases "fd \<ge> 0")
    case False
    with assms fd m show ?thesis by (simp add: crm_hal_cfg_modem_def)
  next
    case True
    then obtain err where e: "mount_mux m = Some err" using assms fd m by (auto simp: crm_hal_cfg_modem_def bind_Some_iff Let_def)
    show ?thesis
    proof (cases "err = 0")
      case True': True
      obtain fd2 where "crm_hal_ping_modem tmo True ts2 = Some fd2"
        using assms fd m e True True' by (auto simp: crm_hal_cfg_modem_def bind_Some_iff Let_def)
      with assms fd m e True True' show ?thesis
        by (cases "fd2 \<ge> 0") (auto simp: crm_hal_cfg_modem_def Let_def)
    next
      case False
      with assms fd m e True show ?thesis by (auto simp: crm_hal_cfg_modem_def Let_def)
    qed
  qed
qed

section \<open>The NVM daemon as a client of the daemons\<close>

lemma nvm_cb_calm:
  assumes "crm_hal_nvm_daemon_cb i evt m l c = Some (r, c')"
  shows "calm c c' \<and> pending c' = pending c \<and> r \<in> {-1, EV_NVM_RUN, EV_NVM_STOP}"
proof (cases evt)
  case HAL_DAEMON_CONNECTED
  then have "c' = c\<lparr>nvm_daemon_connected := True\<rparr>" "r = -1" using assms by (auto simp: crm_hal_nvm_daemon_cb_def)
  then show ?thesis by simp
next
  case HAL_DAEMON_DISCONNECTED
  then obtain c1 where c1: "crm_hal_daemon_start c (nvm_daemon_id c) = Some c1"
    and "c' = c1\<lparr>nvm_daemon_connected := False, nvm_daemon_syncing := False\<rparr>" "r = EV_NVM_STOP"
    using assms by (auto simp: crm_hal_nvm_daemon_cb_def bind_Some_iff)
  with calm_daemon_start [OF c1] daemon_start_ok [OF c1] show ?thesis by simp
next
  case HAL_DAEMON_DATA_IN
  then have "c' = c\<lparr>nvm_daemon_syncing := True\<rparr>" "r = EV_NVM_RUN" using assms by (auto simp: crm_hal_nvm_daemon_cb_def split: if_splits)
  then show ?thesis by simp
qed

interpretation nvm_daemon: daemon_observer crm_hal_nvm_daemon_cb "\<lambda>c. (request c, timer_armed c, pcie_reports (hal_trace c))"
  "{-1, EV_NVM_RUN, EV_NVM_STOP}"
proof unfold_locales
  fix c c' :: crm_hal_pcie and i evt m l r
  assume "crm_hal_nvm_daemon_cb i evt m l c = Some (r, c')"
  note k = nvm_cb_calm [OF this]
  show "pending c' = pending c" "(request c', timer_armed c', pcie_reports (hal_trace c')) = (request c, timer_armed c, pcie_reports (hal_trace c))"
    "daemon_ok c \<Longrightarrow> daemon_ok c'" "r \<in> {-1, EV_NVM_RUN, EV_NVM_STOP}" using k by (simp_all add: calm_def)
qed (simp_all add: set_daemon_def pcie_reports_def)

lemma calm_handle_poll:
  assumes "crm_hal_daemon_handle_poll crm_hal_nvm_daemon_cb want f c = Some (ret, c')" "pfd_fd f \<ge> 0"
  shows "calm c c'"
  using nvm_daemon.handle_poll_obs [OF assms(1)] nvm_daemon.handle_poll_ok [OF assms(1) _ assms(2)] by (simp add: calm_def)


section \<open>The timer and the request follow the state\<close>

text \<open>What the state of the machine says of the timer and of the request that is served.\<close>

definition in_step :: "int \<Rightarrow> ctrl_request \<Rightarrow> bool \<Rightarrow> bool" where
  "in_step st r a \<longleftrightarrow>
     (st = ST_BOOTING \<longrightarrow> a \<and> r = REQ_POWER) \<and>
     (st = ST_FLASHING \<longrightarrow> r \<noteq> REQ_NONE \<and> a = (r = REQ_BOOT)) \<and>
     (st \<in> {ST_CONFIGURING, ST_RUN, ST_WAITING_DUMP} \<longrightarrow> \<not> a \<and> r = REQ_NONE) \<and>
     (st = ST_STARTING_DAEMONS \<longrightarrow> a \<and> r = REQ_NONE) \<and>
     (st = ST_WAITING_LINK \<longrightarrow> a \<and> (r = REQ_STOP \<or> r = REQ_RESET))"

definition pcie_inv :: "int \<Rightarrow> crm_hal_pcie \<Rightarrow> bool" where
  "pcie_inv st c \<longleftrightarrow> 0 \<le> st \<and> st < ST_NUM \<and> daemon_ok c \<and> in_step st (request c) (timer_armed c)"

text \<open>What an operation may do: \<open>r\<close> and \<open>a\<close> are the request and the timer it leaves, \<open>ts\<close> its reports.\<close>

definition leaves :: "crm_hal_pcie \<Rightarrow> crm_hal_pcie \<Rightarrow> ctrl_request \<Rightarrow> bool \<Rightarrow> int list \<Rightarrow> bool" where
  "leaves c c' r a ts \<longleftrightarrow> daemon_ok c' \<and> request c' = r \<and> timer_armed c' = a \<and>
     pcie_reports (hal_trace c') = pcie_reports (hal_trace c) @ ts"

text \<open>
  An operation that leaves the machine waiting for a core dump, other than the one that reports the
  dump, leaves the reason of the busy modem due: it was due before, or the operation said that the
  modem is busy.
\<close>

definition dump_due :: "bool \<Rightarrow> int \<Rightarrow> int \<Rightarrow> int list \<Rightarrow> bool" where
  "dump_due w st s ts \<longleftrightarrow> ((if s = -1 then st else s) = ST_WAITING_DUMP \<and> \<not> w \<longrightarrow> busy_after (st = ST_WAITING_DUMP) ts)"

definition outcome :: "bool \<Rightarrow> int \<Rightarrow> crm_hal_pcie \<Rightarrow> int \<Rightarrow> crm_hal_pcie \<Rightarrow> bool" where
  "outcome w st c s c' \<longleftrightarrow> (\<exists>r a ts. leaves c c' r a ts \<and> paired w ts \<and> dump_due w st s ts \<and>
     (s = -1 \<and> in_step st r a \<or> s = -2 \<or> 0 \<le> s \<and> s < ST_NUM \<and> in_step s r a))"

lemma outcomeI:
  "leaves c c' r a ts \<Longrightarrow> paired w ts \<Longrightarrow> in_step st r a \<Longrightarrow> st = ST_WAITING_DUMP \<longrightarrow> ts = [] \<Longrightarrow> outcome w st c (-1) c'"
  "leaves c c' r a ts \<Longrightarrow> paired w ts \<Longrightarrow> outcome w st c (-2) c'"
  "leaves c c' r a ts \<Longrightarrow> paired w ts \<Longrightarrow> 0 \<le> s \<Longrightarrow> s < ST_NUM \<Longrightarrow> in_step s r a \<Longrightarrow> s \<noteq> ST_WAITING_DUMP \<Longrightarrow> outcome w st c s c'"
  unfolding outcome_def dump_due_def by fastforce+

definition cell_ok :: "bool \<Rightarrow> int \<Rightarrow> pcie_op \<Rightarrow> bool" where
  "cell_ok w st f \<longleftrightarrow> (\<forall>c p s c'. pcie_inv st c \<longrightarrow> f c p = Some (s, c') \<longrightarrow> outcome w st c s c')"

lemma cell_okI:
  assumes "\<And>c p s c'. pcie_inv st c \<Longrightarrow> f c p = Some (s, c') \<Longrightarrow> outcome w st c s c'"
  shows "cell_ok w st f"
  using assms unfolding cell_ok_def by blast

lemma leaves_calm: "daemon_ok c \<Longrightarrow> calm c c' \<Longrightarrow> leaves c c' (request c) (timer_armed c) []"
  by (simp add: leaves_def calm_def)

lemma leaves_then_calm: "leaves c c1 r a ts \<Longrightarrow> calm c1 c' \<Longrightarrow> leaves c c' r a ts"
  by (simp add: leaves_def calm_def)

lemma leaves_notify: "leaves c c1 r a ts \<Longrightarrow> leaves c (notify_ctrl e c1) r a (ts @ [hal_type e])"
  by (simp add: leaves_def notify_ctrl_def)

lemma leaves_notify_only: "leaves c c1 r a ts \<Longrightarrow> leaves c (notify_ctrl_event_only t c1) r a (ts @ [t])"
  using leaves_notify [of c c1 r a ts "\<lparr>hal_type = t, nodes = '''', hal_dbg_info = None\<rparr>"] by (simp add: notify_ctrl_event_only_def)

lemma leaves_timer: "leaves c c1 r a ts \<Longrightarrow> timer_start c1 t ms u = Some c' \<Longrightarrow> leaves c c' r True ts"
  by (auto simp: leaves_def timer_start_def daemon_ok_def bind_Some_iff)

lemma leaves_set [intro]:
  "leaves c c1 r a ts \<Longrightarrow> leaves c (c1\<lparr>request := r'\<rparr>) r' a ts"
  "leaves c c1 r a ts \<Longrightarrow> leaves c (c1\<lparr>timer_armed := a'\<rparr>) r a' ts"
  by (simp_all add: leaves_def)

lemma leaves_ok: "leaves c c' r a ts \<Longrightarrow> daemon_ok c'" by (simp add: leaves_def)

lemma need_reset_leaves:
  assumes "notify_need_reset c p dbg = Some (s, c')" "daemon_ok c"
  shows "s = ST_STOPPING_DAEMONS \<and> leaves c c' (request c) True [HAL_MDM_BUSY, HAL_MDM_NEED_RESET]"
proof -
  let ?n = "notify_ctrl \<lparr>hal_type = HAL_MDM_NEED_RESET, nodes = '''', hal_dbg_info = Some dbg\<rparr> (notify_ctrl_event_only HAL_MDM_BUSY c)"
  have n: "leaves c ?n (request c) (timer_armed c) [HAL_MDM_BUSY, HAL_MDM_NEED_RESET]"
    using assms(2) by (simp add: leaves_def notify_ctrl_event_only_def notify_ctrl_def)
  obtain c1 where c1: "crm_hal_nvm_on_modem_down ?n p = Some c1" "timer_start c1 (now p) 10000 True = Some c'" and s: "s = ST_STOPPING_DAEMONS"
    using assms(1) by (auto simp: notify_need_reset_def bind_Some_iff Let_def)
  have "calm ?n c1" using calm_nvm_down [OF c1(1) leaves_ok [OF n]] .
  then show ?thesis using leaves_timer [OF leaves_then_calm [OF n] c1(2)] s by blast
qed

lemma need_reset_cell:
  assumes "\<And>c p s c'. f c p = Some (s, c') \<Longrightarrow> \<exists>dbg. notify_need_reset c p dbg = Some (s, c')"
  shows "cell_ok w st f"
proof (rule cell_okI)
  fix c p s c'
  assume "pcie_inv st c" "f c p = Some (s, c')"
  then obtain dbg where "notify_need_reset c p dbg = Some (s, c')" "daemon_ok c" using assms unfolding pcie_inv_def by blast
  from need_reset_leaves [OF this] show "outcome w st c s c'" by (intro outcomeI(3)) (auto simp: in_step_def)
qed

lemma failing_cells: "cell_ok w st reject" "cell_ok w st assert" "cell_ok w st todo"
  by (simp_all add: cell_ok_def reject_def assert_def todo_def)

lemma reset_cells: "cell_ok w st notify_mux_err" "cell_ok w st notify_timeout" "cell_ok w st notify_self"
  by (rule need_reset_cell; simp only: notify_mux_err_def notify_timeout_def notify_self_def; blast)+

lemma dead_leaves:
  assumes "notify_dead c p reason = Some (s, c')" "daemon_ok c"
  shows "s = ST_OFF \<and> leaves c c' (request c) (timer_armed c) [HAL_MDM_BUSY, HAL_MDM_UNRESPONSIVE]"
  using assms calm_stop_modem [of c p]
  by (auto simp: notify_dead_def Let_def case_prod_beta leaves_def calm_def notify_ctrl_event_only_def notify_ctrl_def)

lemma mux_dead_cell: "cell_ok w st mux_dead"
proof (rule cell_okI)
  fix c p s c'
  assume "pcie_inv st c" "mux_dead c p = Some (s, c')"
  with dead_leaves [of c p "''MUX is dead''" s c'] have "s = ST_OFF \<and> leaves c c' (request c) (timer_armed c) [HAL_MDM_BUSY, HAL_MDM_UNRESPONSIVE]"
    by (simp add: mux_dead_def pcie_inv_def)
  then show "outcome w st c s c'" by (intro outcomeI(3)) (auto simp: in_step_def)
qed

text \<open>Operations whose effect is read off their definition.\<close>

lemma pcie_flash_cells: "cell_ok True ST_WAITING_DUMP notify_dump" "cell_ok w ST_RUN notify_crash" "cell_ok w ST_FLASHING cfg_modem"
  "cell_ok w ST_STARTING_DAEMONS notify_run" "cell_ok w ST_BOOTING notify_flash" "cell_ok w ST_WAITING_LINK notify_flash"
  by (rule cell_okI; auto simp: outcome_def dump_due_def notify_dump_def notify_crash_def cfg_modem_def notify_run_def notify_flash_def Let_def
      leaves_def pcie_inv_def in_step_def notify_ctrl_event_only_def notify_ctrl_def pcie_reports_def split: if_splits)+

lemma power_cell: "cell_ok w ST_OFF request_power"
proof (rule cell_okI)
  fix c p s c'
  assume i: "pcie_inv ST_OFF c" and f: "request_power c p = Some (s, c')"
  then obtain err c1 where c1: "crm_hal_start_modem (c\<lparr>request := REQ_POWER\<rparr>) p = Some (err, c1)"
    and r: "if err = 0 then timer_start c1 (now p) 3000 False = Some c' \<and> s = ST_BOOTING else s = -2 \<and> c' = c1"
    by (auto simp: request_power_def bind_Some_iff split: if_splits)
  have l: "leaves c c1 REQ_POWER (timer_armed c) []"
    using calm_start_modem [OF c1] i by (simp add: leaves_def calm_def pcie_inv_def)
  then show "outcome w ST_OFF c s c'"
    using r by (cases "err = 0") (auto simp: in_step_def dest: leaves_timer [OF l] intro: outcomeI)
qed

lemma boot_cell: "cell_ok w ST_FLASHING request_boot"
proof (rule cell_okI)
  fix c p s c'
  assume i: "pcie_inv ST_FLASHING c" and f: "request_boot c p = Some (s, c')"
  have "leaves c c' REQ_NONE False [] \<and> s = ST_CONFIGURING \<or> leaves c c' REQ_BOOT True [] \<and> s = -1"
    using i f by (auto simp: request_boot_def cfg_modem_def timer_start_def leaves_def pcie_inv_def pcie_reports_def daemon_ok_def bind_Some_iff Let_def split: if_splits)
  then show "outcome w ST_FLASHING c s c'" by (auto simp: in_step_def intro: outcomeI)
qed

text \<open>Stopping the daemons, for a request or after a failure.\<close>

lemma stop_daemons_leaves:
  assumes "stop_daemons c1 p = Some c'" "leaves c c1 r a ts"
  shows "leaves c c' r True ts"
proof -
  obtain c2 where c2: "crm_hal_nvm_on_modem_down c1 p = Some c2" "timer_start c2 (now p) 10000 False = Some c'"
    using assms(1) by (auto simp: stop_daemons_def bind_Some_iff)
  have "leaves c c2 r a ts" using leaves_then_calm [OF assms(2) calm_nvm_down [OF c2(1) leaves_ok [OF assms(2)]]] .
  from leaves_timer [OF this c2(2)] show ?thesis .
qed

lemma request_reset_cell: "cell_ok w st request_reset"
proof (rule cell_okI)
  fix c p s c'
  assume "pcie_inv st c" and f: "request_reset c p = Some (s, c')"
  then have "leaves c (c\<lparr>request := REQ_RESET\<rparr>) REQ_RESET (timer_armed c) []" by (simp add: leaves_def pcie_inv_def)
  with f show "outcome w st c s c'"
    by (auto simp: request_reset_def bind_Some_iff in_step_def dest!: stop_daemons_leaves intro!: outcomeI(3))
qed

lemma request_backup_cell: "cell_ok w ST_RUN request_backup"
proof (rule cell_okI)
  fix c p s c'
  assume "pcie_inv ST_RUN c" and f: "request_backup c p = Some (s, c')"
  then have "pcie_inv ST_RUN (c\<lparr>backup := True\<rparr>)" by (simp add: pcie_inv_def)
  with f request_reset_cell [of w ST_RUN] have "outcome w ST_RUN (c\<lparr>backup := True\<rparr>) s c'"
    unfolding cell_ok_def request_backup_def by blast
  then show "outcome w ST_RUN c s c'" by (simp add: outcome_def leaves_def)
qed

lemma request_stop_cell: "cell_ok w st request_stop"
proof (rule cell_okI)
  fix c p s c'
  assume "pcie_inv st c" and f: "request_stop c p = Some (s, c')"
  then have l: "leaves c (c\<lparr>request := REQ_STOP\<rparr>) REQ_STOP (timer_armed c) []" by (simp add: leaves_def pcie_inv_def)
  obtain c1 where c1: "stop_daemons (c\<lparr>request := REQ_STOP\<rparr>) p = Some c1" and s: "s = ST_STOPPING_DAEMONS" and "calm c1 c'"
    using f by (auto simp: request_stop_def bind_Some_iff Let_def)
  then have "leaves c c' REQ_STOP True []" using stop_daemons_leaves [OF c1 l] leaves_then_calm by blast
  with s show "outcome w st c s c'" by (auto simp: in_step_def intro: outcomeI(3))
qed


text \<open>Powering the modem down or resetting it once the daemons have stopped, in whatever state of the request.\<close>

lemma reset_or_stop_outcome:
  assumes "reset_or_stop c1 p = Some (s, c')" "leaves c c1 r a []"
  shows "outcome w ST_STOPPING_DAEMONS c s c'"
proof (cases "nvm_daemon_syncing c1")
  case True
  with assms show ?thesis by (auto simp: reset_or_stop_def in_step_def intro: outcomeI(1))
next
  case False
  then obtain c2 where c2: "save_calibration c1 p = Some c2" using assms(1) by (auto simp: reset_or_stop_def bind_Some_iff)
  let ?c = "c2\<lparr>timer_armed := False\<rparr>"
  have l: "leaves c ?c r False []"
    using leaves_then_calm [OF assms(2) calm_save [OF c2]] by (simp add: leaves_def)
  have r: "request ?c = r" using l by (simp add: leaves_def)
  consider (none) "c' = ?c" "s = -1" | (off) "c' = snd (crm_hal_stop_modem ?c p)" "s = ST_OFF"
    | (stop) "timer_start (snd (crm_hal_stop_modem ?c p)) (now p) 1000 True = Some c'" "s = ST_WAITING_LINK" "r = REQ_STOP"
    | (reset) "timer_start (snd (crm_hal_cold_reset_modem ?c p)) (now p) 100000 True = Some c'" "s = ST_WAITING_LINK" "r = REQ_RESET"
    using assms(1) False c2 r
    by (cases r) (auto simp: reset_or_stop_def bind_Some_iff Let_def case_prod_beta split: if_splits)
  then show ?thesis
  proof cases
    case none
    with l show ?thesis by (auto simp: in_step_def intro: outcomeI(1))
  next
    case off
    have "leaves c c' r False []" unfolding off(1) by (rule leaves_then_calm [OF l calm_stop_modem])
    with off(2) show ?thesis by (auto simp: in_step_def intro: outcomeI(3))
  next
    case stop
    with leaves_timer [OF leaves_then_calm [OF l calm_stop_modem] stop(1)] show ?thesis by (auto simp: in_step_def intro: outcomeI(3))
  next
    case reset
    with leaves_timer [OF leaves_then_calm [OF l calm_cold_reset] reset(1)] show ?thesis by (auto simp: in_step_def intro: outcomeI(3))
  qed
qed

lemma stopping_cells: "cell_ok w ST_STOPPING_DAEMONS reset_or_stop" "cell_ok w ST_STOPPING_DAEMONS accept_stop"
  "cell_ok w ST_STOPPING_DAEMONS accept_reset"
  by (rule cell_okI; (simp only: accept_stop_def accept_reset_def)?; erule reset_or_stop_outcome; simp add: leaves_def pcie_inv_def)+

lemma timeout_daemons_cell: "cell_ok w ST_STOPPING_DAEMONS timeout_daemons"
proof (rule cell_okI)
  fix c p s c'
  assume i: "pcie_inv ST_STOPPING_DAEMONS c" and f: "timeout_daemons c p = Some (s, c')"
  then have l: "leaves c c (request c) (timer_armed c) []" by (simp add: leaves_def pcie_inv_def)
  show "outcome w ST_STOPPING_DAEMONS c s c'"
  proof (cases "first_expiration c")
    case True
    then obtain c1 where c1: "crm_hal_nvm_on_manager_crash (c\<lparr>first_expiration := False\<rparr>) = Some c1"
      and r: "reset_or_stop (c1\<lparr>timer_armed := False\<rparr>) p = Some (s, c')"
      using f by (auto simp: timeout_daemons_def bind_Some_iff Let_def)
    have "leaves c (c1\<lparr>timer_armed := False\<rparr>) (request c) False []"
      using calm_nvm_crash [OF c1] i by (simp add: leaves_def calm_def pcie_inv_def)
    from reset_or_stop_outcome [OF r this] show ?thesis .
  next
    case False
    with f l show ?thesis by (auto simp: timeout_daemons_def intro: outcomeI(2))
  qed
qed

lemma timeout_link_cell: "cell_ok w ST_WAITING_LINK timeout_waiting_link"
proof (rule cell_okI)
  fix c p s c'
  assume i: "pcie_inv ST_WAITING_LINK c" and f: "timeout_waiting_link c p = Some (s, c')"
  then have l: "leaves c c (request c) True []" by (simp add: leaves_def pcie_inv_def in_step_def)
  obtain err c1 where e: "(if request c = REQ_STOP then crm_hal_stop_modem (c\<lparr>first_expiration := False\<rparr>) p
    else crm_hal_cold_reset_modem (c\<lparr>first_expiration := False\<rparr>) p) = (err, c1)" by fastforce
  have "calm (c\<lparr>first_expiration := False\<rparr>) c1"
    using e calm_stop_modem [of "c\<lparr>first_expiration := False\<rparr>" p] calm_cold_reset [of "c\<lparr>first_expiration := False\<rparr>" p]
    by (cases "request c = REQ_STOP") simp_all
  then have m: "leaves c c1 (request c) True []" using l by (simp add: leaves_def calm_def)
  consider "s = -2" "c' = c" | "s = -2" "c' = c1" | "s = -1" "timer_start c1 (now p) 1000 True = Some c'"
    using f e by (cases "first_expiration c"; cases "err = 0") (auto simp: timeout_waiting_link_def Let_def bind_Some_iff)
  then show "outcome w ST_WAITING_LINK c s c'"
  proof cases
    case 1
    with l show ?thesis by (auto intro: outcomeI(2))
  next
    case 2
    with m show ?thesis by (auto intro: outcomeI(2))
  next
    case 3
    with leaves_timer [OF m 3(2)] i show ?thesis by (auto simp: pcie_inv_def in_step_def intro: outcomeI(1))
  qed
qed

lemma link_down_cell: "cell_ok w ST_WAITING_LINK link_down_evt"
proof (rule cell_okI)
  fix c p s c'
  assume i: "pcie_inv ST_WAITING_LINK c" and f: "link_down_evt c p = Some (s, c')"
  let ?c = "notify_ctrl_event_only HAL_MDM_BUSY c"
  have l: "leaves c ?c (request c) True [HAL_MDM_BUSY]"
    using i by (simp add: leaves_def pcie_inv_def in_step_def notify_ctrl_event_only_def notify_ctrl_def)
  note m = leaves_then_calm [OF l calm_stop_modem [of _ p]]
  have r: "request ?c = request c" using l by (simp add: leaves_def)
  consider "s = -1" "c' = ?c" | "s = -2" "c' = snd (crm_hal_stop_modem ?c p)"
    | "s = -1" "timer_start (snd (crm_hal_stop_modem ?c p)) (now p) 1000 True = Some c'"
    using f r by (cases "request c = REQ_STOP"; cases "fst (crm_hal_stop_modem ?c p) = 0")
      (auto simp: link_down_evt_def Let_def case_prod_beta bind_Some_iff)
  then show "outcome w ST_WAITING_LINK c s c'"
  proof cases
    case 1
    with l i show ?thesis by (auto simp: pcie_inv_def in_step_def intro: outcomeI(1))
  next
    case 2
    have "leaves c c' (request c) True [HAL_MDM_BUSY]" unfolding 2(2) by (rule m)
    with 2(1) show ?thesis by (auto intro: outcomeI(2))
  next
    case 3
    with leaves_timer [OF m 3(2)] i show ?thesis by (auto simp: pcie_inv_def in_step_def intro: outcomeI(1))
  qed
qed

lemma mdm_off_cell: "cell_ok w ST_WAITING_LINK mdm_off_evt"
proof (rule cell_okI)
  fix c p s c'
  assume i: "pcie_inv ST_WAITING_LINK c" and f: "mdm_off_evt c p = Some (s, c')"
  let ?c = "notify_ctrl_event_only HAL_MDM_BUSY c"
  have l: "leaves c ?c (request c) True [HAL_MDM_BUSY]"
    using i by (simp add: leaves_def pcie_inv_def in_step_def notify_ctrl_event_only_def notify_ctrl_def)
  note m = leaves_notify_only [OF leaves_then_calm [OF l calm_stop_modem [of _ p]], of HAL_MDM_OFF]
  have r: "request ?c = request c" using l by (simp add: leaves_def)
  show "outcome w ST_WAITING_LINK c s c'"
  proof (cases "request c = REQ_STOP")
    case True
    then have s: "s = ST_OFF" and c': "c' = (notify_ctrl_event_only HAL_MDM_OFF (snd (crm_hal_stop_modem ?c p)))\<lparr>timer_armed := False, request := REQ_NONE\<rparr>"
      using f r by (auto simp: mdm_off_evt_def Let_def case_prod_beta)
    have "leaves c c' REQ_NONE False [HAL_MDM_BUSY, HAL_MDM_OFF]" using m unfolding c' by (simp add: leaves_def)
    with s show ?thesis by (auto simp: in_step_def intro: outcomeI(3))
  next
    case False
    then have "s = -1" "c' = ?c" using f r by (auto simp: mdm_off_evt_def Let_def)
    with l i show ?thesis by (auto simp: pcie_inv_def in_step_def intro: outcomeI(1))
  qed
qed

lemma prepare_dump_cell: "cell_ok w ST_WAITING_DUMP prepare_dump"
proof (rule cell_okI)
  fix c p s c'
  assume i: "pcie_inv ST_WAITING_DUMP c" and f: "prepare_dump c p = Some (s, c')"
  show "outcome w ST_WAITING_DUMP c s c'"
  proof (cases "dump_disabled c")
    case True
    with f i reset_cells(3) [of w ST_WAITING_DUMP] show ?thesis unfolding cell_ok_def prepare_dump_def by auto
  next
    case False
    have l: "leaves c (snd (crm_hal_warm_reset_modem c p)) (request c) (timer_armed c) []"
      using i calm_warm_reset by (auto simp: pcie_inv_def intro: leaves_calm)
    from False f have "s = -1" "c' = snd (crm_hal_warm_reset_modem c p)" by (auto simp: prepare_dump_def)
    with outcomeI(1) [OF l, of w ST_WAITING_DUMP] i show ?thesis by (simp add: pcie_inv_def)
  qed
qed

lemma start_daemons_cell: "cell_ok w ST_CONFIGURING start_daemons"
proof (rule cell_okI)
  fix c p s c'
  assume i: "pcie_inv ST_CONFIGURING c" and f: "start_daemons c p = Some (s, c')"
  obtain c1 where c1: "timer_start c (now p) 5000 False = Some c1" "crm_hal_nvm_on_modem_up c1 p = Some c'" and s: "s = ST_STARTING_DAEMONS"
    using f by (auto simp: start_daemons_def bind_Some_iff)
  have "leaves c c REQ_NONE False []" using i by (simp add: leaves_def pcie_inv_def in_step_def)
  note l = leaves_timer [OF this c1(1)]
  have "leaves c c' REQ_NONE True []" using leaves_then_calm [OF l calm_nvm_up [OF c1(2) leaves_ok [OF l]]] .
  with s show "outcome w ST_CONFIGURING c s c'" by (auto simp: in_step_def intro: outcomeI(3))
qed

lemmas pcie_cells = failing_cells reset_cells mux_dead_cell pcie_flash_cells power_cell boot_cell request_reset_cell
  request_backup_cell request_stop_cell stopping_cells timeout_daemons_cell timeout_link_cell link_down_cell mdm_off_cell
  prepare_dump_cell start_daemons_cell

section \<open>The table\<close>

lemma pcie_shape: "length pcie_rows = 19" "\<forall>r \<in> set pcie_rows. length r = 9"
  by (simp_all add: pcie_rows_def)

lemma int_range_9: "0 \<le> x \<Longrightarrow> x < 9 \<Longrightarrow> x \<in> {0, 1, 2, 3, 4, 5, 6, 7, 8 :: int}"
  by auto

lemma int_range_19: "0 \<le> x \<Longrightarrow> x < 19 \<Longrightarrow> x \<in> {0, 1, 2, 3, 4, 5, 6, 7, 8, 9, 10, 11, 12, 13, 14, 15, 16, 17, 18 :: int}"
  unfolding insert_iff empty_iff by presburger

interpretation pcie_table: fsm_table pcie_fsm pcie_rows 9 19
proof unfold_locales
  fix s :: int
  assume "0 \<le> s" "s < int 9"
  then have "s \<in> {0, 1, 2, 3, 4, 5, 6, 7, 8}" using int_range_9 [of s] by simp
  then show "\<exists>t. crm_fsm_ctx.get_state_txt pcie_fsm s = Some t" by (auto simp: pcie_fsm_def get_state_txt_def)
qed (use pcie_shape in \<open>auto simp: pcie_fsm_def\<close>)

lemma pcie_hooks:
  "crm_fsm_ctx.pre_op pcie_fsm = None" "crm_fsm_ctx.state_trans pcie_fsm = Some state_trans"
  "crm_fsm_ctx.failsafe pcie_fsm = modem_dead" "crm_fsm_ctx.get_state_txt pcie_fsm = get_state_txt"
  "crm_fsm_ctx.get_event_txt pcie_fsm = get_event_txt" "num_states pcie_fsm = 9"
  by (simp_all add: pcie_fsm_def)

definition dump_cell :: "int \<Rightarrow> int \<Rightarrow> bool" where
  "dump_cell evt st \<longleftrightarrow> evt = EV_MDM_FLASH \<and> st = ST_WAITING_DUMP"

lemma pcie_all_cells:
  assumes "evt \<in> {0, 1, 2, 3, 4, 5, 6, 7, 8, 9, 10, 11, 12, 13, 14, 15, 16, 17, 18}" "st \<in> {0, 1, 2, 3, 4, 5, 6, 7, 8}"
  shows "force_new_state (pcie_rows ! nat evt ! nat st) = -1 \<and>
    (\<forall>f. operation (pcie_rows ! nat evt ! nat st) = Some f \<longrightarrow> cell_ok (dump_cell evt st) st f)"
  using assms
  by (elim insertE emptyE; hypsubst) (simp_all add: pcie_rows_def dump_cell_def pcie_cells)

lemma pcie_notify_step:
  assumes "notify_event pcie_fsm st evt c p = Some (st', c')" "pcie_inv st c"
  shows "pcie_inv st' c' \<and> (\<exists>ts. pcie_reports (hal_trace c') = pcie_reports (hal_trace c) @ ts \<and> paired (dump_cell evt st) ts \<and>
    dump_due (dump_cell evt st) st st' ts)"
proof -
  have st: "0 \<le> st" "st < 9" using assms(2) by (auto simp: pcie_inv_def)
  have e: "0 \<le> evt" "evt < 19" "0 \<le> st'" "st' < 9" using pcie_table.evt_range [OF assms(1)] st by auto
  let ?cl = "pcie_rows ! nat evt ! nat st"
  have cl: "force_new_state ?cl = -1" "\<And>f. operation ?cl = Some f \<Longrightarrow> cell_ok (dump_cell evt st) st f"
    using pcie_all_cells [OF int_range_19 [OF e(1,2)] int_range_9 [OF st]] by blast+
  have "st < int 9" using st by simp
  from assms(1) st(1) this obtain s err c1 where run: "run_operation pcie_fsm ?cl st c p = Some (s, err, c1)"
    and s': "st' = (if \<not> err \<and> -1 \<noteq> force_new_state ?cl then force_new_state ?cl else s)"
    and t: "(if st \<noteq> st' then state_trans st st' evt c1 p else Some c1) = Some c'"
    by (rule pcie_table.notify_cellE [unfolded pcie_hooks option.case option.inject]) blast
  have s: "s = st'" using s' cl(1) by simp
  have k: "calm c1 c'" using t by (auto simp: state_trans_def Let_def split: if_splits)
  have "\<exists>r a ts. leaves c c1 r a ts \<and> in_step st' r a \<and> paired (dump_cell evt st) ts \<and> dump_due (dump_cell evt st) st st' ts"
  proof (cases "operation ?cl")
    case None
    then have "st' = st" "c1 = c" using run s by (auto simp: run_operation_def)
    moreover have "leaves c c (request c) (timer_armed c) []" using assms(2) by (simp add: leaves_def pcie_inv_def)
    moreover have "dump_due (dump_cell evt st) st st []" by (simp add: dump_due_def)
    ultimately show ?thesis using assms(2) unfolding pcie_inv_def by (metis paired.simps(1))
  next
    case (Some f)
    then obtain s1 c2 where f: "f c p = Some (s1, c2)"
      and r: "if s1 = -1 then st' = st \<and> c1 = c2 else if s1 \<le> -2 then modem_dead c2 p = Some (st', c1) else st' = s1 \<and> c1 = c2"
      using run s by (auto simp: run_operation_def bind_Some_iff pcie_hooks split: if_splits)
    have "outcome (dump_cell evt st) st c s1 c2" using cl(2) [OF Some] assms(2) f by (auto simp: cell_ok_def)
    then obtain r a ts where o: "leaves c c2 r a ts" "paired (dump_cell evt st) ts" "dump_due (dump_cell evt st) st s1 ts"
      "s1 = -1 \<and> in_step st r a \<or> s1 = -2 \<or> 0 \<le> s1 \<and> s1 < ST_NUM \<and> in_step s1 r a"
      by (auto simp: outcome_def)
    show ?thesis
    proof (cases "s1 = -2")
      case True
      with r have "modem_dead c2 p = Some (st', c1)" by simp
      from dead_leaves [OF this [unfolded modem_dead_def] leaves_ok [OF o(1)]]
      have d: "st' = ST_OFF" "leaves c2 c1 (request c2) (timer_armed c2) [HAL_MDM_BUSY, HAL_MDM_UNRESPONSIVE]" by auto
      then have "leaves c c1 r a (ts @ [HAL_MDM_BUSY, HAL_MDM_UNRESPONSIVE])" using o(1) by (simp add: leaves_def)
      moreover have "paired (dump_cell evt st) (ts @ [HAL_MDM_BUSY, HAL_MDM_UNRESPONSIVE])" using o(2) by (simp add: paired_append)
      moreover have "in_step st' r a" "dump_due (dump_cell evt st) st st' (ts @ [HAL_MDM_BUSY, HAL_MDM_UNRESPONSIVE])"
        using d(1) by (simp_all add: in_step_def dump_due_def)
      ultimately show ?thesis by blast
    next
      case False
      with r o(3,4) st have "c1 = c2" "in_step st' r a" "dump_due (dump_cell evt st) st st' ts"
        by (auto simp: dump_due_def split: if_splits)
      with o show ?thesis by blast
    qed
  qed
  then obtain r a ts where o: "leaves c c1 r a ts" "in_step st' r a" "paired (dump_cell evt st) ts" "dump_due (dump_cell evt st) st st' ts"
    by blast
  from leaves_then_calm [OF o(1) k] o e show ?thesis by (auto simp: leaves_def pcie_inv_def)
qed

section \<open>The thread\<close>

text \<open>
  What the thread may be given: the requests of init.c's interface and descriptors that \<open>poll\<close> knows.
  The driver, the configuration thread, the timer and the daemons are not constrained.
\<close>

definition pcie_input_ok :: "pcie_input \<Rightarrow> bool" where
  "pcie_input_ok inp = (case inp of
      PcieMsgs ms \<Rightarrow> list_all (\<lambda>(sc, _). sc \<in> {-1, EV_POWER, EV_BOOT, EV_STOP, EV_RESET, EV_BACKUP}) ms
    | PcieDaemons fs \<Rightarrow> list_all (\<lambda>(f, _). pfd_fd f \<ge> 0) fs
    | _ \<Rightarrow> True)"

text \<open>The driver announces the ROM while the HAL waits for a core dump.\<close>

definition rom_in_dump :: "pcie_input \<Rightarrow> bool \<times> int \<times> crm_hal_pcie \<Rightarrow> bool" where
  "rom_in_dump inp s = (case s of (running, st, c) \<Rightarrow>
     (case inp of PcieNetlink m p \<Rightarrow> dump_cell (crm_hal_get_mdm_state m) st | _ \<Rightarrow> False))"

definition waits_dump :: "bool \<times> int \<times> crm_hal_pcie \<Rightarrow> bool" where
  "waits_dump s = (case s of (running, st, c) \<Rightarrow> st = ST_WAITING_DUMP)"

definition thread_inv :: "bool \<times> int \<times> crm_hal_pcie \<Rightarrow> bool" where
  "thread_inv s = (case s of (running, st, c) \<Rightarrow> pcie_inv st c)"

definition thread_reports :: "bool \<times> int \<times> crm_hal_pcie \<Rightarrow> int list" where
  "thread_reports s = (case s of (running, st, c) \<Rightarrow> pcie_reports (hal_trace c))"

definition advances :: "bool \<Rightarrow> bool \<times> int \<times> crm_hal_pcie \<Rightarrow> bool \<times> int \<times> crm_hal_pcie \<Rightarrow> bool" where
  "advances w s s' \<longleftrightarrow> thread_inv s' \<and> (\<exists>ts. thread_reports s' = thread_reports s @ ts \<and> paired w ts \<and>
     (waits_dump s' \<and> \<not> w \<longrightarrow> busy_after (waits_dump s) ts))"

lemma advances_refl: "thread_inv s \<Longrightarrow> advances w s s" by (simp add: advances_def)

lemma advances_trans:
  assumes "advances False s s1" "advances False s1 s'"
  shows "advances False s s'"
proof -
  obtain ts where ts: "thread_reports s1 = thread_reports s @ ts" "paired False ts" "waits_dump s1 \<longrightarrow> busy_after (waits_dump s) ts"
    using assms(1) by (auto simp: advances_def)
  obtain us where us: "thread_reports s' = thread_reports s1 @ us" "paired False us" "waits_dump s' \<longrightarrow> busy_after (waits_dump s1) us"
    "thread_inv s'" using assms(2) by (auto simp: advances_def)
  have "busy_after (waits_dump s) (ts @ us)" if "waits_dump s'"
    using ts(3) us(3) that busy_after_mono by (cases "waits_dump s1") (auto simp: busy_after_app)
  with ts us show ?thesis by (auto simp: advances_def paired_append)
qed

lemma pcie_event_advances:
  assumes "pcie_event p evt (b, st, c1) = Some s'" "thread_inv (b, st, c)" "calm c c1"
  shows "advances (dump_cell evt st) (b, st, c) s'"
proof -
  obtain st' c' where n: "notify_event pcie_fsm st evt c1 p = Some (st', c')" and s': "s' = (b, st', c')"
    using assms(1) by (auto simp: pcie_event_def bind_Some_iff)
  have "pcie_inv st c1" using assms(2,3) by (simp add: thread_inv_def pcie_inv_def calm_def)
  from pcie_notify_step [OF n this] show ?thesis
    using assms(3) by (auto simp: s' advances_def thread_inv_def thread_reports_def calm_def waits_dump_def dump_due_def pcie_inv_def)
qed

lemma pcie_msgs_advances:
  "pcie_msgs ms s = Some s' \<Longrightarrow> thread_inv s \<Longrightarrow> list_all (\<lambda>(sc, _). sc \<in> {-1, EV_POWER, EV_BOOT, EV_STOP, EV_RESET, EV_BACKUP}) ms \<Longrightarrow>
   advances False s s'"
proof (induction ms s rule: pcie_msgs.induct)
  case (1 s)
  then show ?case by (simp add: advances_refl)
next
  case (2 sc p ms b st c)
  show ?case
  proof (cases "sc = -1")
    case True
    have "advances False (False, st, c) s'"
      by (rule "2.IH"(1) [OF True]) (use 2 True in \<open>auto simp: thread_inv_def\<close>)
    then show ?thesis by (simp add: advances_def thread_reports_def waits_dump_def)
  next
    case False
    then obtain s1 where s1: "pcie_event p sc (b, st, c) = Some s1" "pcie_msgs ms s1 = Some s'"
      using "2.prems"(1) by (auto simp: bind_Some_iff)
    have "\<not> dump_cell sc st" using "2.prems"(3) by (auto simp: dump_cell_def)
    then have a: "advances False (b, st, c) s1" using pcie_event_advances [OF s1(1) "2.prems"(2) pcie_calm_refl] by simp
    have "advances False s1 s'"
      by (rule "2.IH"(2) [OF False s1]) (use a "2.prems"(3) in \<open>auto simp: advances_def\<close>)
    with a show ?thesis by (rule advances_trans)
  qed
qed

lemma daemon_events_advances:
  "daemon_events fs s = Some s' \<Longrightarrow> thread_inv s \<Longrightarrow> list_all (\<lambda>(f, _). pfd_fd f \<ge> 0) fs \<Longrightarrow> advances False s s'"
proof (induction fs arbitrary: s)
  case Nil
  then show ?case by (simp add: advances_refl)
next
  case (Cons fp fs)
  obtain f p where fp: "fp = (f, p)" by (cases fp)
  obtain b st c where s: "s = (b, st, c)" by (cases s)
  obtain ret c1 s1 where h: "crm_hal_daemon_handle_poll crm_hal_nvm_daemon_cb True f c = Some (ret, c1)"
    and s1: "(case ret of HAL_DAEMON_CALLBACK_RETVALUE_SET evt \<Rightarrow>
              if evt \<noteq> -1 then pcie_event p evt (b, st, c1) else Some (b, st, c1) | _ \<Rightarrow> Some (b, st, c1)) = Some s1"
    and r: "daemon_events fs s1 = Some s'"
    using Cons.prems(1) by (auto simp: fp s bind_Some_iff)
  have k: "calm c c1" using calm_handle_poll [OF h] Cons.prems(3) fp by simp
  have stay: "advances False s (b, st, c1)"
    using Cons.prems(2) k by (simp add: s advances_def thread_inv_def thread_reports_def pcie_inv_def calm_def waits_dump_def)
  have "advances False s s1"
  proof (cases "\<exists>evt. ret = HAL_DAEMON_CALLBACK_RETVALUE_SET evt \<and> evt \<noteq> -1")
    case True
    then obtain evt where e: "ret = HAL_DAEMON_CALLBACK_RETVALUE_SET evt" "evt \<noteq> -1" by blast
    have "\<not> dump_cell evt st" using nvm_daemon.handle_poll_vals [OF h [unfolded e(1)]] by (auto simp: dump_cell_def)
    with pcie_event_advances [of p evt b st c1 s1 c] s1 e k Cons.prems(2) show ?thesis by (simp add: s)
  next
    case False
    with s1 stay show ?thesis by (auto split: crm_hal_daemon_poll.splits if_splits)
  qed
  moreover have "advances False s1 s'"
    by (rule Cons.IH [OF r]) (use calculation Cons.prems(3) in \<open>auto simp: advances_def\<close>)
  ultimately show ?case by (rule advances_trans)
qed

text \<open>The event that ends the configuration is never the announcement of the ROM.\<close>

lemma cfg_modem_evt:
  assumes "crm_hal_cfg_modem tmo ts1 m ts2 c = Some (evt, c')"
  shows "evt \<in> {EV_MDM_CONFIGURED, EV_TIMEOUT, EV_MUX_ERR, EV_MUX_DEAD}"
  using assms by (auto simp: crm_hal_cfg_modem_def Let_def bind_Some_iff split: if_splits)

lemma pcie_iter_advances:
  assumes "pcie_iter inp s = Some s'" "thread_inv s" "pcie_input_ok inp"
  shows "advances (rom_in_dump inp s) s s'"
proof -
  have mono: "advances False s s' \<Longrightarrow> \<not> rom_in_dump inp s \<Longrightarrow> ?thesis" by simp
  obtain b st c where s: "s = (b, st, c)" by (cases s)
  show ?thesis
  proof (cases inp)
    case PcieError
    with assms(1) show ?thesis by (simp add: pcie_iter_def s bind_Some_iff)
  next
    case (PcieTimeout p)
    then have "pcie_event p EV_TIMEOUT (b, st, c) = Some s'" using assms(1) by (auto simp: pcie_iter_def s bind_Some_iff)
    from pcie_event_advances [OF this assms(2) [unfolded s] pcie_calm_refl] show ?thesis by (intro mono) (simp_all add: dump_cell_def s rom_in_dump_def PcieTimeout)
  next
    case (PcieMsgs ms)
    then have "pcie_msgs ms s = Some s'" using assms(1) by (auto simp: pcie_iter_def s bind_Some_iff)
    from pcie_msgs_advances [OF this assms(2)] PcieMsgs assms(3) show ?thesis by (intro mono) (simp_all add: pcie_input_ok_def s rom_in_dump_def PcieMsgs)
  next
    case (PcieNetlink m p)
    show ?thesis
    proof (cases "crm_hal_get_mdm_state m = -1")
      case True
      then have "s' = s" using assms(1) PcieNetlink by (auto simp: pcie_iter_def s bind_Some_iff)
      with advances_refl assms(2) show ?thesis by simp
    next
      case False
      then have "pcie_event p (crm_hal_get_mdm_state m) (b, st, c\<lparr>mdm_state := crm_hal_get_mdm_state m\<rparr>) = Some s'"
        using assms(1) PcieNetlink by (auto simp: pcie_iter_def s bind_Some_iff Let_def)
      from pcie_event_advances [OF this assms(2) [unfolded s]] show ?thesis by (simp add: s calm_def rom_in_dump_def PcieNetlink)
    qed
  next
    case (PcieCfg tmo ts1 m ts2 p)
    then obtain evt c1 where g: "crm_hal_cfg_modem tmo ts1 m ts2 c = Some (evt, c1)" "pcie_event p evt (b, st, c1\<lparr>thread_cfg := False\<rparr>) = Some s'"
      using assms(1) by (auto simp: pcie_iter_def s bind_Some_iff)
    have "\<not> dump_cell evt st" using cfg_modem_evt [OF g(1)] by (auto simp: dump_cell_def)
    with pcie_event_advances [OF g(2) assms(2) [unfolded s]] calm_cfg_modem [OF g(1)] show ?thesis
      by (intro mono) (simp_all add: s rom_in_dump_def PcieCfg)
  next
    case (PcieMux p)
    then have "pcie_event p EV_MUX_ERR (b, st, (act (CloseFd (mux_fd c)) c)\<lparr>mux_fd := -1\<rparr>) = Some s'"
      using assms(1) by (auto simp: pcie_iter_def s bind_Some_iff)
    from pcie_event_advances [OF this assms(2) [unfolded s]] show ?thesis by (intro mono) (simp_all add: dump_cell_def s rom_in_dump_def PcieMux)
  next
    case PcieRpcd
    with assms(1) show ?thesis by (simp add: pcie_iter_def s bind_Some_iff)
  next
    case (PcieDaemons fs)
    then have "daemon_events fs s = Some s'" using assms(1) by (auto simp: pcie_iter_def s bind_Some_iff)
    from daemon_events_advances [OF this assms(2)] PcieDaemons assms(3) show ?thesis by (intro mono) (simp_all add: pcie_input_ok_def s rom_in_dump_def PcieDaemons)
  qed
qed

text \<open>The loop of the thread, as the contract sees it.\<close>

definition pcie_step :: "pcie_input \<Rightarrow> bool \<times> int \<times> crm_hal_pcie \<Rightarrow> (bool \<times> int \<times> crm_hal_pcie) option" where
  "pcie_step inp s = (if fst s then pcie_iter inp s else Some s)"

lemma pcie_step_advances:
  "thread_inv s \<Longrightarrow> pcie_input_ok inp \<Longrightarrow> pcie_step inp s = Some s' \<Longrightarrow> advances (rom_in_dump inp s) s s'"
  by (auto simp: pcie_step_def intro: pcie_iter_advances advances_refl split: if_splits)

lemma pcie_run_inv: "thread_inv s \<Longrightarrow> list_all pcie_input_ok is \<Longrightarrow> run_thread pcie_step is s = Some s' \<Longrightarrow> thread_inv s'"
proof (induction "is" arbitrary: s)
  case (Cons i "is")
  then obtain s1 where s1: "pcie_step i s = Some s1" "run_thread pcie_step is s1 = Some s'" by (auto simp: bind_Some_iff)
  have "thread_inv s1" using pcie_step_advances [OF Cons.prems(1) _ s1(1)] Cons.prems(2) by (simp add: advances_def)
  with Cons.IH s1(2) Cons.prems(2) show ?case by simp
qed simp

subsection \<open>The ROM of a crashed modem\<close>

text \<open>
  What the HAL relies on: while it waits for the core dump of a modem, the driver announces the ROM at
  most once. \<open>seen\<close> is whether it was announced since the HAL waits.
\<close>

fun rom_once :: "bool \<Rightarrow> pcie_input list \<Rightarrow> bool \<times> int \<times> crm_hal_pcie \<Rightarrow> bool" where
  "rom_once seen [] s = True"
| "rom_once seen (inp # is) s = (\<not> (seen \<and> rom_in_dump inp s) \<and>
     (case pcie_step inp s of None \<Rightarrow> True | Some s' \<Rightarrow> rom_once ((seen \<or> rom_in_dump inp s) \<and> waits_dump s') is s'))"

text \<open>The thread with the announcement it has seen: the reason is due until the ROM is announced.\<close>

definition watched_step :: "pcie_input \<Rightarrow> bool \<times> bool \<times> int \<times> crm_hal_pcie \<Rightarrow> (bool \<times> bool \<times> int \<times> crm_hal_pcie) option" where
  "watched_step inp x = (case x of (seen, s) \<Rightarrow> map_option (\<lambda>s'. ((seen \<or> rom_in_dump inp s) \<and> waits_dump s', s')) (pcie_step inp s))"

definition watched_inv :: "bool \<times> bool \<times> int \<times> crm_hal_pcie \<Rightarrow> bool" where
  "watched_inv x = (case x of (seen, s) \<Rightarrow> thread_inv s \<and> (waits_dump s \<and> \<not> seen \<longrightarrow> busy_after False (thread_reports s)))"

lemma watched_run:
  "run_thread pcie_step is s = Some s' \<Longrightarrow> \<exists>seen'. run_thread watched_step is (seen, s) = Some (seen', s')"
proof (induction "is" arbitrary: seen s)
  case (Cons i "is")
  then obtain s1 where s1: "pcie_step i s = Some s1" "run_thread pcie_step is s1 = Some s'" by (auto simp: bind_Some_iff)
  from Cons.IH [OF s1(2)] s1(1) show ?case by (simp add: watched_step_def)
qed simp

lemma watched_inputs:
  "list_all pcie_input_ok is \<Longrightarrow> rom_once seen is s \<Longrightarrow>
   inputs_ok watched_step (\<lambda>i x. pcie_input_ok i \<and> \<not> (fst x \<and> rom_in_dump i (snd x))) is (seen, s)"
  by (induction seen "is" s rule: rom_once.induct) (auto simp: watched_step_def split: option.splits)

lemma watched_step_ok:
  assumes "watched_inv (seen, s)" "pcie_input_ok i" "\<not> (seen \<and> rom_in_dump i s)" "watched_step i (seen, s) = Some (seen', s')"
  shows "watched_inv (seen', s') \<and> (\<exists>ts. thread_reports s' = thread_reports s @ ts \<and> paired (busy_after False (thread_reports s)) ts)"
proof -
  have s': "pcie_step i s = Some s'" "seen' = ((seen \<or> rom_in_dump i s) \<and> waits_dump s')" using assms(4) by (auto simp: watched_step_def)
  obtain ts where ts: "thread_inv s'" "thread_reports s' = thread_reports s @ ts" "paired (rom_in_dump i s) ts"
    "waits_dump s' \<and> \<not> rom_in_dump i s \<longrightarrow> busy_after (waits_dump s) ts"
    using pcie_step_advances [OF _ assms(2) s'(1)] assms(1) by (auto simp: watched_inv_def advances_def)
  have "waits_dump s" if "rom_in_dump i s" using that
    by (auto simp: rom_in_dump_def waits_dump_def dump_cell_def split: prod.splits pcie_input.splits)
  then have "paired (busy_after False (thread_reports s)) ts"
    using assms(1,3) ts(3) paired_mono by (cases "rom_in_dump i s") (auto simp: watched_inv_def)
  moreover have "busy_after False (thread_reports s')" if "waits_dump s'" "\<not> seen'"
    using that s'(2) ts(2,4) assms(1) busy_after_mono by (cases "waits_dump s") (auto simp: busy_after_app watched_inv_def)
  ultimately show ?thesis using ts(1,2) by (auto simp: watched_inv_def)
qed

interpretation pcie_reporter: hal_reporter watched_step "\<lambda>i x. pcie_input_ok i \<and> \<not> (fst x \<and> rom_in_dump i (snd x))"
  watched_inv "\<lambda>x. thread_reports (snd x)"
proof unfold_locales
  fix x i x'
  assume a: "watched_inv x" "pcie_input_ok i \<and> \<not> (fst x \<and> rom_in_dump i (snd x))" "watched_step i x = Some x'"
  from watched_step_ok [of "fst x" "snd x" i "fst x'" "snd x'"] a
  show "watched_inv x'" "\<exists>ts. thread_reports (snd x') = thread_reports (snd x) @ ts \<and> paired (busy_after False (thread_reports (snd x))) ts"
    by simp_all
qed

lemma run_stopped: "run_thread pcie_step is (False, x) = Some (False, x)"
  by (induction "is") (simp_all add: pcie_step_def)

lemma crm_hal_pcie_fsm_run: "crm_hal_pcie_fsm is s = run_thread pcie_step is s"
proof (induction "is" arbitrary: s)
  case (Cons i "is")
  have rest: "crm_hal_pcie_fsm is = run_thread pcie_step is" using Cons.IH by (rule ext)
  show ?case
  proof (cases "fst s")
    case True
    then show ?thesis by (simp add: rest pcie_step_def [of i])
  next
    case False
    then have "s = (False, snd s)" by (metis prod.collapse)
    then show ?thesis using False run_stopped [of "i # is" "snd s"] by simp
  qed
qed simp

section \<open>The start of the HAL\<close>

lemma daemon_init_add:
  assumes "crm_hal_daemon_init server c = Some c1"
  shows "\<exists>c2. crm_hal_daemon_add c1 n = Some (0, c2) \<and> daemon_ok c2 \<and> calm c (c2\<lparr>server_socket := server_socket c,
    num_sockets := num_sockets c, pending := pending c, daemons := daemons c\<rparr>)"
proof -
  have c1: "c1 = c\<lparr>server_socket := server, num_sockets := 0, pending := [-1, -1],
      daemons := replicate 2 \<lparr>dname = None, dcallback = False, dsocket = -1, msg_to_read = 0\<rparr>\<rparr>" "server \<ge> 0"
    using assms by (auto simp: crm_hal_daemon_init_def numeral_2_eq_2)
  show ?thesis
    using c1(2) unfolding c1(1)
    by (simp add: crm_hal_daemon_add_def upt_rec array_get_def set_daemon_def daemon_ok_def calm_def numeral_2_eq_2)
qed

lemma init_fields_simps [simp]:
  "request (init_fields conf off) = REQ_NONE" "timer_armed (init_fields conf off) = False" "hal_trace (init_fields conf off) = []"
  by (simp_all add: init_fields_def)

lemma nvm_init_calm:
  assumes "start_nvm_manager c = Some c'" "crm_hal_daemon_add c ''nvm_manager'' = Some (0, c1)"
  shows "calm c1 c'"
proof -
  obtain c2 where c2: "crm_hal_daemon_start (c1\<lparr>nvm_daemon_id := 0\<rparr>) 0 = Some c2" and c': "c' = c2\<lparr>nvm_daemon_connected := False\<rparr>"
    using assms by (auto simp: start_nvm_manager_def bind_Some_iff)
  from calm_daemon_start [OF c2] show ?thesis by (simp add: c' calm_def)
qed

lemma nvm_init_ok:
  assumes "crm_hal_daemon_init server c1 = Some c2" "start_nvm_manager c2 = Some c"
  shows "daemon_ok c \<and> request c = request c1 \<and> timer_armed c = timer_armed c1 \<and>
    pcie_reports (hal_trace c) = pcie_reports (hal_trace c1)"
proof -
  obtain c3 where c3: "crm_hal_daemon_add c2 ''nvm_manager'' = Some (0, c3)" "daemon_ok c3"
    and k: "calm c1 (c3\<lparr>server_socket := server_socket c1, num_sockets := num_sockets c1, pending := pending c1, daemons := daemons c1\<rparr>)"
    using daemon_init_add [OF assms(1), of "''nvm_manager''"] by blast
  from k have "request c3 = request c1" "timer_armed c3 = timer_armed c1" "pcie_reports (hal_trace c3) = pcie_reports (hal_trace c1)"
    by (simp_all add: calm_def)
  with c3(2) nvm_init_calm [OF assms(2) c3(1)] show ?thesis by (simp add: calm_def)
qed

lemma pcie_init_ok:
  assumes "crm_hal_init conf server off cal = Some c"
  shows "daemon_ok c \<and> request c = REQ_NONE \<and> \<not> timer_armed c \<and> pcie_reports (hal_trace c) = []"
proof (cases cal)
  case True
  with assms obtain c2 where "crm_hal_daemon_init server (init_fields conf off) = Some c2" "start_nvm_manager c2 = Some c"
    unfolding crm_hal_init_def Let_def by (simp only: if_False not_True_eq_False bind_Some_iff) blast
  from nvm_init_ok [OF this] show ?thesis by simp
next
  case False
  let ?c = "act (FileCopy (nvm_calib_bkup_file (init_fields conf off)) (nvm_calib_file (init_fields conf off))) (init_fields conf off)"
  from False assms obtain c2 where "crm_hal_daemon_init server ?c = Some c2" "start_nvm_manager c2 = Some c"
    unfolding crm_hal_init_def Let_def by (simp only: if_True not_False_eq_True bind_Some_iff) blast
  from nvm_init_ok [OF this] show ?thesis by simp
qed

lemma calm_init_wait: "calm c c1 \<Longrightarrow> calm c (init_wait c1 ms)"
proof (induction c1 ms rule: init_wait.induct)
  case (3 c1 m ms)
  have k: "calm c (c1\<lparr>mdm_state := n\<rparr>)" for n using "3.prems" calm_ext(7) pcie_calm_trans by blast
  show ?case
  proof (cases "crm_hal_get_mdm_state m = -1")
    case True
    with "3.IH"(2) [OF refl] "3.prems" show ?thesis by (simp add: Let_def)
  next
    case False
    with "3.IH"(1) [OF refl _ _ k] k show ?thesis by (simp add: Let_def)
  qed
qed simp_all

lemma calm_init_modem:
  assumes "crm_hal_init_modem c p m ms = Some c'"
  shows "calm c c'"
proof -
  let ?s = "snd (crm_hal_stop_modem (c\<lparr>mdm_state := EV_MDM_OFF\<rparr>) p)"
  have c': "c' = init_wait (pcie_rescan (pcie_remove ?s)) ms"
    using assms unfolding crm_hal_init_modem_def Let_def case_prod_beta by (simp split: if_splits)
  have "calm c (pcie_rescan (pcie_remove ?s))"
    by (rule pcie_calm_trans [OF _ calm_pcie(1)], rule pcie_calm_trans [OF _ calm_pcie(2)], rule pcie_calm_trans [OF calm_ext(7) calm_stop_modem])
  then show ?thesis unfolding c' by (rule calm_init_wait)
qed

lemma pcie_start_inv:
  assumes "crm_hal_init conf server off cal = Some c0" "crm_hal_pcie_start c0 p m ms = Some (st, c)"
  shows "thread_inv (b, st, c) \<and> thread_reports (b, st, c) = [HAL_MDM_OFF]"
proof -
  obtain c1 where c1: "crm_hal_init_modem c0 p m ms = Some c1"
    and c: "c = notify_ctrl_event_only HAL_MDM_OFF (act (PropertySet ''ctl.stop'' ''rpc-daemon'') c1)" "st = ST_OFF"
    using assms(2) unfolding crm_hal_pcie_start_def crm_fsm_init_def Let_def by (elim bind_Some_E) simp
  have "leaves c0 c REQ_NONE False [HAL_MDM_OFF]"
    using calm_init_modem [OF c1] pcie_init_ok [OF assms(1)]
    by (simp add: c leaves_def calm_def notify_ctrl_event_only_def notify_ctrl_def)
  with pcie_init_ok [OF assms(1)] show ?thesis
    by (simp add: c(2) thread_inv_def thread_reports_def pcie_inv_def in_step_def leaves_def)
qed

lemma pcie_reached:
  assumes "crm_hal_init conf server off cal = Some c0" "crm_hal_pcie_start c0 p m ms = Some (st0, c1)"
    and "list_all pcie_input_ok is" "crm_hal_pcie_fsm is (True, st0, c1) = Some (b, st, c)"
  shows "pcie_inv st c"
  using pcie_run_inv [OF _ assms(3) assms(4) [unfolded crm_hal_pcie_fsm_run]] pcie_start_inv [OF assms(1,2), of True]
  by (simp add: thread_inv_def)

lemma pcie_reported:
  assumes "crm_hal_init conf server off cal = Some c0" "crm_hal_pcie_start c0 p m ms = Some (st0, c1)"
    and "list_all pcie_input_ok is" "rom_once False is (True, st0, c1)" "crm_hal_pcie_fsm is (True, st0, c1) = Some (b, st, c)"
  shows "paired False (pcie_reports (hal_trace c))"
proof -
  have "st0 = ST_OFF" using assms(2) unfolding crm_hal_pcie_start_def crm_fsm_init_def Let_def by (elim bind_Some_E) simp
  then have "watched_inv (False, True, st0, c1)" "paired False (thread_reports (True, st0, c1))"
    using pcie_start_inv [OF assms(1,2), of True] by (auto simp: watched_inv_def waits_dump_def)
  moreover obtain seen where "run_thread watched_step is (False, True, st0, c1) = Some (seen, b, st, c)"
    using watched_run [OF assms(5) [unfolded crm_hal_pcie_fsm_run]] by blast
  ultimately show ?thesis
    using pcie_reporter.run_reports [OF _ _ watched_inputs [OF assms(3,4)]] by (fastforce simp: thread_reports_def)
qed

section \<open>Properties\<close>

text \<open>
  C8: whatever happens to the PCIe HAL after its start, its timer and the request it serves agree with the
  state of its machine in seven of its nine states: it waits for the modem with the timer armed, runs with
  neither timer nor request, and knows whether it stops or resets the modem when it waits for the link.
  Nothing is said of the timer and of the request of a HAL that is off or that stops its daemons: a HAL that
  gave up may be off with its timer armed, and the daemons are stopped with and without a request. The
  connections of the daemons are counted and there are at most two of them; as long as there is at most
  one, the array of descriptors the HAL polls holds the server and every connection; with two the next
  iteration of the loop writes past the end of that array, which the model has as a failure.
\<close>

theorem pcie_resources_in_step:
  assumes "crm_hal_init conf server off cal = Some c0" "crm_hal_pcie_start c0 p m ms = Some (st0, c1)"
    and "list_all pcie_input_ok is" "crm_hal_pcie_fsm is (True, st0, c1) = Some (b, st, c)"
  shows "(st = ST_BOOTING \<longrightarrow> timer_armed c \<and> request c = REQ_POWER) \<and>
    (st = ST_FLASHING \<longrightarrow> request c \<noteq> REQ_NONE \<and> timer_armed c = (request c = REQ_BOOT)) \<and>
    (st \<in> {ST_CONFIGURING, ST_RUN, ST_WAITING_DUMP} \<longrightarrow> \<not> timer_armed c \<and> request c = REQ_NONE) \<and>
    (st = ST_STARTING_DAEMONS \<longrightarrow> timer_armed c \<and> request c = REQ_NONE) \<and>
    (st = ST_WAITING_LINK \<longrightarrow> timer_armed c \<and> (request c = REQ_STOP \<or> request c = REQ_RESET)) \<and>
    (\<exists>fds. crm_hal_daemon_get_sockets c = Some fds \<and> int (length fds) = 1 + num_sockets c \<and> num_sockets c \<le> int CRM_HAL_MAX_DAEMONS \<and>
      set fds = insert (server_socket c) ({s \<in> set (pending c). s \<ge> 0} \<union> {s \<in> dsocket ` set (daemons c). s \<ge> 0})) \<and>
    (num_sockets c = int CRM_HAL_MAX_DAEMONS \<longrightarrow> (\<forall>inp. pcie_iter inp (b, st, c) = None))"
proof -
  have i: "pcie_inv st c" using pcie_reached [OF assms] by simp
  then have d: "daemon_ok c" and s: "in_step st (request c) (timer_armed c)" by (auto simp: pcie_inv_def)
  from d have "num_sockets c \<le> int CRM_HAL_MAX_DAEMONS" by (simp add: daemon_ok_def)
  moreover have "pcie_iter inp (b, st, c) = None" if "num_sockets c = int CRM_HAL_MAX_DAEMONS" for inp
    using get_sockets_all [OF d] that by (auto simp: pcie_iter_def)
  ultimately show ?thesis using get_sockets_all [OF d] s unfolding in_step_def by auto
qed

subsection \<open>A modem that boots\<close>

lemma opt_write_fields [simp]:
  "request (opt_write n v c) = request c" "timer_armed (opt_write n v c) = timer_armed c" "mdm_state (opt_write n v c) = mdm_state c"
  "mux_fd (opt_write n v c) = mux_fd c" "thread_cfg (opt_write n v c) = thread_cfg c" "nvm_daemon_id (opt_write n v c) = nvm_daemon_id c"
  "nvm_daemon_connected (opt_write n v c) = nvm_daemon_connected c" "nvm_daemon_syncing (opt_write n v c) = nvm_daemon_syncing c"
  "daemons (opt_write n v c) = daemons c" "pending (opt_write n v c) = pending c" "num_sockets (opt_write n v c) = num_sockets c"
  "server_socket (opt_write n v c) = server_socket c" "pcie_reports (hal_trace (opt_write n v c)) = pcie_reports (hal_trace c)"
  by (simp_all add: opt_write_def pcie_reports_def split: option.splits)

lemma pcie_notify_eq:
  assumes "0 \<le> st" "st < 9" "0 \<le> evt" "evt < 19"
  shows "notify_event pcie_fsm st evt c p = do {
     get_event_txt evt;
     (s, err, c) \<leftarrow> run_operation pcie_fsm (pcie_rows ! nat evt ! nat st) st c p;
     let s = (if \<not> err \<and> -1 \<noteq> force_new_state (pcie_rows ! nat evt ! nat st)
              then force_new_state (pcie_rows ! nat evt ! nat st) else s);
     get_state_txt s;
     c \<leftarrow> (if st \<noteq> s then state_trans st s evt c p else Some c);
     check_state pcie_fsm s;
     Some (s, c)
   }"
  using pcie_table.notify_eq [of st evt c p] assms unfolding pcie_hooks option.case by simp

lemmas pcie_eval = pcie_notify_eq pcie_rows_def run_operation_def check_state_def pcie_hooks state_trans_def get_state_txt_def get_event_txt_def Let_def

text \<open>What the steps of a boot rely on: the NVM daemon is connected through \<open>fd\<close> and no other connection is open.\<close>

definition nvm_linked :: "int \<Rightarrow> crm_hal_pcie \<Rightarrow> bool" where
  "nvm_linked fd c \<longleftrightarrow> daemon_ok c \<and> num_sockets c \<le> 1 \<and> nvm_daemon_id c = 0 \<and> fd \<ge> 0 \<and> server_socket c \<noteq> fd \<and>
     dsocket (daemons c ! 0) = fd \<and> nvm_daemon_connected c"

lemma nvm_linked_iter:
  assumes "nvm_linked fd c"
  shows "pcie_iter (PcieMsgs [(sc, p)]) (True, st, c) = (if sc = -1 then Some (False, st, c) else pcie_event p sc (True, st, c))"
    "crm_hal_get_mdm_state (Some nl) = evt \<Longrightarrow> evt \<noteq> -1 \<Longrightarrow>
      pcie_iter (PcieNetlink (Some nl) p) (True, st, c) = pcie_event p evt (True, st, c\<lparr>mdm_state := evt\<rparr>)"
    "thread_cfg c \<Longrightarrow> pcie_iter (PcieCfg tmo ts1 m ts2 p) (True, st, c) = do {
       (evt, c) \<leftarrow> crm_hal_cfg_modem tmo ts1 m ts2 c;
       pcie_event p evt (True, st, c\<lparr>thread_cfg := False\<rparr>) }"
    "pcie_iter (PcieDaemons [(f, p)]) (True, st, c) = daemon_events [(f, p)] (True, st, c)"
    "timer_armed c \<Longrightarrow> pcie_iter (PcieTimeout p) (True, st, c) = pcie_event p EV_TIMEOUT (True, st, c)"
proof -
  have "\<exists>fds. crm_hal_daemon_get_sockets c = Some fds \<and> length fds \<le> 2"
    using get_sockets_all [of c] assms by (auto simp: nvm_linked_def)
  then obtain fds where f: "crm_hal_daemon_get_sockets c = Some fds" "length fds \<le> 2" by blast
  have "pcie_msgs [] = Some" by (rule ext) simp
  then show "pcie_iter (PcieMsgs [(sc, p)]) (True, st, c) = (if sc = -1 then Some (False, st, c) else pcie_event p sc (True, st, c))"
    using f by (simp add: pcie_iter_def)
  show "crm_hal_get_mdm_state (Some nl) = evt \<Longrightarrow> evt \<noteq> -1 \<Longrightarrow>
      pcie_iter (PcieNetlink (Some nl) p) (True, st, c) = pcie_event p evt (True, st, c\<lparr>mdm_state := evt\<rparr>)"
    using f by (simp add: pcie_iter_def)
  show "thread_cfg c \<Longrightarrow> pcie_iter (PcieCfg tmo ts1 m ts2 p) (True, st, c) = do {
       (evt, c) \<leftarrow> crm_hal_cfg_modem tmo ts1 m ts2 c;
       pcie_event p evt (True, st, c\<lparr>thread_cfg := False\<rparr>) }"
    "timer_armed c \<Longrightarrow> pcie_iter (PcieTimeout p) (True, st, c) = pcie_event p EV_TIMEOUT (True, st, c)"
    "pcie_iter (PcieDaemons [(f, p)]) (True, st, c) = daemon_events [(f, p)] (True, st, c)" for f
    using f by (simp_all add: pcie_iter_def)
qed

text \<open>The fields of the context the steps of a boot follow.\<close>

definition booting_with :: "int \<Rightarrow> crm_hal_pcie \<Rightarrow> ctrl_request \<Rightarrow> bool \<Rightarrow> int \<Rightarrow> bool \<Rightarrow> int list \<Rightarrow> bool" where
  "booting_with fd c r a mux cfg ts \<longleftrightarrow> nvm_linked fd c \<and> \<not> nvm_daemon_syncing c \<and> request c = r \<and> timer_armed c = a \<and>
     mux_fd c = mux \<and> thread_cfg c = cfg \<and> pcie_reports (hal_trace c) = ts"

lemma linked_cong:
  assumes "booting_with fd c r a mux cfg ts" "daemons c' = daemons c" "pending c' = pending c" "num_sockets c' = num_sockets c"
    "server_socket c' = server_socket c" "nvm_daemon_id c' = nvm_daemon_id c" "nvm_daemon_connected c'"
  shows "nvm_linked fd c'"
  using assms by (simp add: booting_with_def nvm_linked_def daemon_ok_def)

lemma power_step:
  assumes "booting_with fd c REQ_NONE False (-1) False ts" "ioctl_ret p (length (hal_trace c)) = 0"
  shows "\<exists>c'. pcie_iter (PcieMsgs [(EV_POWER, p)]) (True, ST_OFF, c) = Some (True, ST_BOOTING, c') \<and>
    booting_with fd c' REQ_POWER True (-1) False ts"
proof -
  have l: "nvm_linked fd c" using assms(1) by (simp add: booting_with_def)
  show ?thesis
    using assms linked_cong [OF assms(1)] unfolding nvm_linked_iter(1) [OF l]
    by (simp add: booting_with_def pcie_event_def pcie_eval request_power_def crm_hal_start_modem_def mcd_ioctl_def timer_start_def
        pcie_enable_lpm_def pcie_force_power_on_def pcie_rescan_def nvm_linked_def)
qed

lemma flash_step:
  assumes "booting_with fd c REQ_POWER True (-1) False ts" "crm_hal_get_mdm_state (Some nl) = EV_MDM_FLASH"
  shows "\<exists>c'. pcie_iter (PcieNetlink (Some nl) p) (True, ST_BOOTING, c) = Some (True, ST_FLASHING, c') \<and>
    booting_with fd c' REQ_POWER False (-1) False (ts @ [HAL_MDM_BUSY, HAL_MDM_FLASH]) \<and> mdm_state c' = EV_MDM_FLASH"
proof -
  have l: "nvm_linked fd c" using assms(1) by (simp add: booting_with_def)
  show ?thesis
    using assms(1) linked_cong [OF assms(1)] nvm_linked_iter(2) [OF l assms(2)]
    by (simp add: booting_with_def pcie_event_def pcie_eval notify_flash_def notify_ctrl_event_only_def notify_ctrl_def nvm_linked_def)
qed

lemma boot_step:
  assumes "booting_with fd c REQ_POWER False (-1) False ts" "mdm_state c = EV_MDM_FLASH"
  shows "\<exists>c'. pcie_iter (PcieMsgs [(EV_BOOT, p)]) (True, ST_FLASHING, c) = Some (True, ST_FLASHING, c') \<and>
    booting_with fd c' REQ_BOOT True (-1) False ts"
proof -
  have l: "nvm_linked fd c" using assms(1) by (simp add: booting_with_def)
  show ?thesis
    using assms linked_cong [OF assms(1)] unfolding nvm_linked_iter(1) [OF l]
    by (simp add: booting_with_def pcie_event_def pcie_eval request_boot_def timer_start_def nvm_linked_def)
qed

lemma run_step:
  assumes "booting_with fd c REQ_BOOT True (-1) False ts" "crm_hal_get_mdm_state (Some nl) = EV_MDM_RUN"
  shows "\<exists>c'. pcie_iter (PcieNetlink (Some nl) p) (True, ST_FLASHING, c) = Some (True, ST_CONFIGURING, c') \<and>
    booting_with fd c' REQ_NONE False (-1) True ts"
proof -
  have l: "nvm_linked fd c" using assms(1) by (simp add: booting_with_def)
  show ?thesis
    using assms(1) linked_cong [OF assms(1)] nvm_linked_iter(2) [OF l assms(2)]
    by (simp add: booting_with_def pcie_event_def pcie_eval cfg_modem_def nvm_linked_def)
qed

lemma cfg_step:
  assumes "booting_with fd c REQ_NONE False (-1) True ts"
    and "crm_hal_ping_modem tmo False ts1 = Some fd1" "fd1 \<ge> 0" "mount_mux m = Some 0"
    and "crm_hal_ping_modem tmo True ts2 = Some fd2" "fd2 \<ge> 0" "\<forall>n. \<not> write_fails p n"
  shows "\<exists>c'. pcie_iter (PcieCfg tmo ts1 m ts2 p) (True, ST_CONFIGURING, c) = Some (True, ST_STARTING_DAEMONS, c') \<and>
    booting_with fd c' REQ_NONE True fd1 False ts"
proof -
  have l: "nvm_linked fd c" "thread_cfg c" using assms(1) by (simp_all add: booting_with_def)
  let ?c = "act (CloseFd fd2) (c\<lparr>mux_fd := fd1\<rparr>)"
  have g: "crm_hal_cfg_modem tmo ts1 m ts2 c = Some (EV_MDM_CONFIGURED, ?c)"
    using assms by (simp add: crm_hal_cfg_modem_def booting_with_def)
  have d: "array_get (daemons c) 0 = Some (daemons c ! 0)" using l(1) by (simp add: nvm_linked_def daemon_ok_def array_get_def)
  show ?thesis
    using assms(1,7) linked_cong [OF assms(1)] d unfolding nvm_linked_iter(3) [OF l] g
    by (simp add: booting_with_def pcie_event_def pcie_eval start_daemons_def timer_start_def crm_hal_nvm_on_modem_up_def
        crm_hal_daemon_msg_send_def nvm_linked_def)
qed

lemma nvm_step:
  assumes "booting_with fd c REQ_NONE True mux False ts"
    and "pfd_fd f = fd" "pollin f" "rd_hdr f = Some (MMB_CRM_MSG_SUCCESS, 0)"
  shows "\<exists>c'. pcie_iter (PcieDaemons [(f, p)]) (True, ST_STARTING_DAEMONS, c) = Some (True, ST_RUN, c') \<and>
    \<not> timer_armed c' \<and> request c' = REQ_NONE \<and> nvm_daemon_syncing c' \<and> pcie_reports (hal_trace c') = ts @ [HAL_MDM_RUN]"
proof -
  have l: "nvm_linked fd c" using assms(1) by (simp add: booting_with_def)
  let ?c = "set_daemon 0 ((daemons c ! 0)\<lparr>msg_to_read := 0\<rparr>) c"
  have d: "daemon_ok c" "dsocket (daemons c ! 0) = fd" "fd \<ge> 0" "server_socket c \<noteq> fd" "nvm_daemon_id c = 0" "length (daemons c) = 2"
    using l by (auto simp: nvm_linked_def daemon_ok_def)
  then have "dcallback (daemons c ! 0)" by (auto simp: daemon_ok_def)
  with d have "crm_hal_daemon_handle_poll crm_hal_nvm_daemon_cb True f c =
      Some (HAL_DAEMON_CALLBACK_RETVALUE_SET EV_NVM_RUN, ?c\<lparr>nvm_daemon_syncing := True\<rparr>)"
    using assms(2-4)
    by (simp add: crm_hal_daemon_handle_poll_def handle_connected_def call_back_def crm_hal_nvm_daemon_cb_def set_daemon_def
        array_get_def upt_rec)
  then show ?thesis
    using assms(1) unfolding nvm_linked_iter(4) [OF l]
    by (simp add: booting_with_def pcie_event_def pcie_eval notify_run_def notify_ctrl_event_only_def notify_ctrl_def set_daemon_def)
qed

text \<open>
  C9: a power request followed by a boot request, the announcements of the driver, the configuration of the
  modem and the answer of the NVM daemon bring the PCIe HAL from off to run: it tells Control that the
  modem is busy, ready to be flashed and running, in this order, and has neither timer nor request left.
\<close>

theorem pcie_boot_reaches_run:
  assumes "daemon_ok c" "num_sockets c \<le> 1" "nvm_daemon_id c = 0" "dsocket (daemons c ! 0) = fd" "fd \<ge> 0" "server_socket c \<noteq> fd"
    and "nvm_daemon_connected c" "\<not> nvm_daemon_syncing c" "request c = REQ_NONE" "\<not> timer_armed c" "mux_fd c = -1" "\<not> thread_cfg c"
    and "\<forall>n. ioctl_ret p n = 0" "\<forall>n. \<not> write_fails p n"
    and "crm_hal_get_mdm_state (Some rom) = EV_MDM_FLASH" "crm_hal_get_mdm_state (Some rdy) = EV_MDM_RUN"
    and "crm_hal_ping_modem tmo False ts1 = Some fd1" "fd1 \<ge> 0" "mount_mux m = Some 0"
    and "crm_hal_ping_modem tmo True ts2 = Some fd2" "fd2 \<ge> 0"
    and "pfd_fd f = fd" "pollin f" "rd_hdr f = Some (MMB_CRM_MSG_SUCCESS, 0)"
  shows "\<exists>c'. crm_hal_pcie_fsm [PcieMsgs [(EV_POWER, p)], PcieNetlink (Some rom) p, PcieMsgs [(EV_BOOT, p)], PcieNetlink (Some rdy) p,
      PcieCfg tmo ts1 m ts2 p, PcieDaemons [(f, p)]] (True, ST_OFF, c) = Some (True, ST_RUN, c') \<and>
    pcie_reports (hal_trace c') = pcie_reports (hal_trace c) @ [HAL_MDM_BUSY, HAL_MDM_FLASH, HAL_MDM_RUN] \<and>
    \<not> timer_armed c' \<and> request c' = REQ_NONE"
proof -
  have "booting_with fd c REQ_NONE False (-1) False (pcie_reports (hal_trace c))"
    using assms by (simp add: booting_with_def nvm_linked_def)
  from power_step [OF this, of p] obtain c1 where c1: "pcie_iter (PcieMsgs [(EV_POWER, p)]) (True, ST_OFF, c) = Some (True, ST_BOOTING, c1)"
    "booting_with fd c1 REQ_POWER True (-1) False (pcie_reports (hal_trace c))" using assms(13) by blast
  from flash_step [OF this(2) assms(15), of p] obtain c2 where c2: "pcie_iter (PcieNetlink (Some rom) p) (True, ST_BOOTING, c1) = Some (True, ST_FLASHING, c2)"
    "booting_with fd c2 REQ_POWER False (-1) False (pcie_reports (hal_trace c) @ [HAL_MDM_BUSY, HAL_MDM_FLASH])" "mdm_state c2 = EV_MDM_FLASH" by blast
  from boot_step [OF this(2,3), of p] obtain c3 where c3: "pcie_iter (PcieMsgs [(EV_BOOT, p)]) (True, ST_FLASHING, c2) = Some (True, ST_FLASHING, c3)"
    "booting_with fd c3 REQ_BOOT True (-1) False (pcie_reports (hal_trace c) @ [HAL_MDM_BUSY, HAL_MDM_FLASH])" by blast
  from run_step [OF this(2) assms(16), of p] obtain c4 where c4: "pcie_iter (PcieNetlink (Some rdy) p) (True, ST_FLASHING, c3) = Some (True, ST_CONFIGURING, c4)"
    "booting_with fd c4 REQ_NONE False (-1) True (pcie_reports (hal_trace c) @ [HAL_MDM_BUSY, HAL_MDM_FLASH])" by blast
  from cfg_step [OF this(2) assms(17-21,14)] obtain c5 where c5: "pcie_iter (PcieCfg tmo ts1 m ts2 p) (True, ST_CONFIGURING, c4) = Some (True, ST_STARTING_DAEMONS, c5)"
    "booting_with fd c5 REQ_NONE True fd1 False (pcie_reports (hal_trace c) @ [HAL_MDM_BUSY, HAL_MDM_FLASH])" by blast
  from nvm_step [OF this(2) assms(22-24), of p] c1(1) c2(1) c3(1) c4(1) c5(1) show ?thesis by auto
qed

definition pcie_conf :: crm_hal_pcie where
  "pcie_conf = \<lparr>server_socket = 3, num_sockets = 0, pending = [-1, -1], daemons = [], hal_trace = [], flash_node = ''f'', pcie_pwr_ctrl = ''c'',
     pcie_rtpm = None, pcie_rm = None, pcie_rescan_node = Some ''s'', nvm_calib_file = ''w'', nvm_calib_bkup_file = ''b'', mux_fd = -1,
     thread_cfg = False, mdm_state = 0, timer_armed = False, first_expiration = True, timer_end = \<lparr>tv_sec = 0, tv_nsec = 0\<rparr>,
     request = REQ_NONE, backup = False, dump_disabled = False, nvm_daemon_id = 0, nvm_daemon_connected = False, nvm_daemon_syncing = False\<rparr>"

definition pcie_env :: pcie_param where
  "pcie_env = \<lparr>now = \<lparr>tv_sec = 5, tv_nsec = 0\<rparr>, ioctl_ret = (\<lambda>_. 0), write_fails = (\<lambda>_. False), copy_fails = (\<lambda>_. False),
     shutdown_fd = -1, cli = demo_cli\<rparr>"

definition pcie_mcd :: mcd_init where
  "pcie_mcd = \<lparr>mcd_open = 4, mcd_cfg = 0, mcd_busy = False, mcd_polled = 0\<rparr>"

text \<open>The NVM daemon connects, then gives its name.\<close>

definition nvm_connects :: "pcie_input list" where
  "nvm_connects =
     [PcieDaemons [(\<lparr>pfd_fd = 3, pollin = True, accepted = 20, rd_hdr = None, rd_size = None, rd_name = []\<rparr>, pcie_env)],
      PcieDaemons [(\<lparr>pfd_fd = 20, pollin = True, accepted = -1, rd_hdr = None, rd_size = Some 11, rd_name = ''nvm_manager''\<rparr>, pcie_env)]]"

definition nvm_answer :: daemon_pollfd where
  "nvm_answer = \<lparr>pfd_fd = 20, pollin = True, accepted = -1, rd_hdr = Some (MMB_CRM_MSG_SUCCESS, 0), rd_size = None, rd_name = []\<rparr>"

definition mux_good :: mux_env where
  "mux_good = \<lparr>mux_at = (replicate 2048 NUL, 29, [AtData (text_of [''OK''])]), mux_setd = 0, mux_getd = 0, mux_ldisc_ok = True, mux_getconf = 0, mux_setconf = 0\<rparr>"

definition ping_good :: "int \<Rightarrow> ping_try list" where
  "ping_good fd = [\<lparr>pt_open = fd, pt_tty = True, pt_garbage = replicate 2048 NUL, pt_write = 6, pt_answer = [AtData (text_of [''OK''])],
     pt_remain = 100, pt_abort = False\<rparr>]"

definition pcie_ready :: "(bool \<times> int \<times> crm_hal_pcie) option" where
  "pcie_ready = do {
     c \<leftarrow> crm_hal_init pcie_conf 3 False True;
     (st, c) \<leftarrow> crm_hal_pcie_start c pcie_env pcie_mcd [Some (Some (14, ''MDM_NOT_READY''))];
     crm_hal_pcie_fsm nvm_connects (True, st, c)
   }"

definition pcie_started :: "(int \<times> crm_hal_pcie) option" where
  "pcie_started = Option.bind (crm_hal_init pcie_conf 3 False True)
     (\<lambda>c. crm_hal_pcie_start c pcie_env pcie_mcd [Some (Some (14, ''MDM_NOT_READY''))])"

theorem pcie_resources_in_step_witness:
  "\<exists>c1 c. pcie_started = Some (ST_OFF, c1) \<and>
     crm_hal_pcie_fsm (nvm_connects @ [PcieMsgs [(EV_POWER, pcie_env)]]) (True, ST_OFF, c1) = Some (True, ST_BOOTING, c) \<and>
     timer_armed c \<and> request c = REQ_POWER"
proof -
  have "map_option fst pcie_started = Some ST_OFF" by code_simp
  then obtain c1 where s: "pcie_started = Some (ST_OFF, c1)" by auto
  then obtain c0 where c0: "crm_hal_init pcie_conf 3 False True = Some c0"
    "crm_hal_pcie_start c0 pcie_env pcie_mcd [Some (Some (14, ''MDM_NOT_READY''))] = Some (ST_OFF, c1)"
    by (auto simp: pcie_started_def bind_Some_iff)
  let ?is = "nvm_connects @ [PcieMsgs [(EV_POWER, pcie_env)]]"
  have "map_option (\<lambda>(st, c). (list_all pcie_input_ok ?is,
      map_option (\<lambda>(b, st, c). (b, st)) (crm_hal_pcie_fsm ?is (True, st, c)))) pcie_started = Some (True, Some (True, ST_BOOTING))"
    by code_simp
  then obtain c where r: "list_all pcie_input_ok ?is"
    "crm_hal_pcie_fsm ?is (True, ST_OFF, c1) = Some (True, ST_BOOTING, c)" unfolding s by auto
  from pcie_resources_in_step [OF c0 r] s r(2) show ?thesis by auto
qed

theorem pcie_boot_reaches_run_witness:
  "\<exists>c c'. pcie_ready = Some (True, ST_OFF, c) \<and>
     crm_hal_pcie_fsm [PcieMsgs [(EV_POWER, pcie_env)], PcieNetlink (Some (10, ''ROM_READY'')) pcie_env, PcieMsgs [(EV_BOOT, pcie_env)],
       PcieNetlink (Some (10, ''MDM_READY'')) pcie_env, PcieCfg 1000 (ping_good 30) mux_good (ping_good 31) pcie_env,
       PcieDaemons [(nvm_answer, pcie_env)]] (True, ST_OFF, c) = Some (True, ST_RUN, c') \<and>
     pcie_reports (hal_trace c') = [HAL_MDM_OFF, HAL_MDM_BUSY, HAL_MDM_FLASH, HAL_MDM_RUN]"
proof -
  have "map_option (\<lambda>(b, st, c). ((b, st, server_socket c, num_sockets c, pending c, daemons c), (nvm_daemon_id c, nvm_daemon_connected c,
      nvm_daemon_syncing c), request c, timer_armed c, mux_fd c, thread_cfg c, pcie_reports (hal_trace c))) pcie_ready =
    Some ((True, ST_OFF, 3, 1, [-1, -1], [\<lparr>dname = Some ''nvm_manager'', dcallback = True, dsocket = 20, msg_to_read = 0\<rparr>,
      \<lparr>dname = None, dcallback = False, dsocket = -1, msg_to_read = 0\<rparr>]), (0, True, False), REQ_NONE, False, -1, False, [HAL_MDM_OFF])"
    by code_simp
  then obtain c where c: "pcie_ready = Some (True, ST_OFF, c)" "server_socket c = 3" "num_sockets c = 1" "pending c = [-1, -1]"
    "daemons c = [\<lparr>dname = Some ''nvm_manager'', dcallback = True, dsocket = 20, msg_to_read = 0\<rparr>,
      \<lparr>dname = None, dcallback = False, dsocket = -1, msg_to_read = 0\<rparr>]" "nvm_daemon_id c = 0" "nvm_daemon_connected c"
    "\<not> nvm_daemon_syncing c" "request c = REQ_NONE" "\<not> timer_armed c" "mux_fd c = -1" "\<not> thread_cfg c" "pcie_reports (hal_trace c) = [HAL_MDM_OFF]"
    by auto
  have d: "daemon_ok c" using c by (simp add: daemon_ok_def)
  have e: "mount_mux mux_good = Some 0" "crm_hal_ping_modem 1000 False (ping_good 30) = Some 30" "crm_hal_ping_modem 1000 True (ping_good 31) = Some 31"
    "crm_hal_get_mdm_state (Some (10, ''ROM_READY'')) = EV_MDM_FLASH" "crm_hal_get_mdm_state (Some (10, ''MDM_READY'')) = EV_MDM_RUN"
    by code_simp+
  have n: "pfd_fd nvm_answer = 20" "pollin nvm_answer" "rd_hdr nvm_answer = Some (MMB_CRM_MSG_SUCCESS, 0)" by (simp_all add: nvm_answer_def)
  from pcie_boot_reaches_run [OF d _ c(6) _ _ _ c(7-12) _ _ e(4,5,2) _ e(1,3) _ n, of pcie_env] c show ?thesis by (auto simp: pcie_env_def)
qed

subsection \<open>States the HAL does not leave\<close>

text \<open>The power request is only accepted when the one before was completed.\<close>

lemma power_refused: "request c \<noteq> REQ_NONE \<Longrightarrow> pcie_event q EV_POWER (b, ST_OFF, c) = None"
  by (simp add: pcie_event_def pcie_eval request_power_def)

lemma msg_power_refused: "request c \<noteq> REQ_NONE \<Longrightarrow> pcie_iter (PcieMsgs [(EV_POWER, q)]) (b, ST_OFF, c) = None"
  by (simp add: pcie_iter_def power_refused bind_eq_None_conv split: option.splits)

lemma off_timeout_aborts: "pcie_iter (PcieTimeout q) (b, ST_OFF, c) = None" "pcie_iter (PcieTimeout q) (b, ST_BOOTING, c) = None"
  by (simp_all add: pcie_iter_def pcie_event_def pcie_eval assert_def bind_eq_None_conv)

text \<open>
  When the modem gives no answer twice while the HAL waits for the link, the HAL gives up, reports the
  modem busy and unresponsive and goes to the off state with its timer armed and its request pending.
  The expiry of that timer aborts CRM, and so does the next power request of Control.
\<close>

theorem pcie_unresponsive_then_aborts:
  assumes "daemon_ok c" "num_sockets c \<le> 1" "timer_armed c" "\<not> first_expiration c" "request c = REQ_STOP \<or> request c = REQ_RESET"
  shows "\<exists>c'. pcie_iter (PcieTimeout p) (True, ST_WAITING_LINK, c) = Some (True, ST_OFF, c') \<and>
    pcie_reports (hal_trace c') = pcie_reports (hal_trace c) @ [HAL_MDM_BUSY, HAL_MDM_UNRESPONSIVE] \<and> timer_armed c' \<and>
    pcie_iter (PcieTimeout q) (True, ST_OFF, c') = None \<and> pcie_iter (PcieMsgs [(EV_POWER, q)]) (True, ST_OFF, c') = None"
proof -
  obtain fds where f: "crm_hal_daemon_get_sockets c = Some fds" "length fds \<le> 2" using get_sockets_all [OF assms(1)] assms(2) by auto
  obtain c1 where d: "notify_dead c p ''failsafe'' = Some (ST_OFF, c1)" "leaves c c1 (request c) (timer_armed c) [HAL_MDM_BUSY, HAL_MDM_UNRESPONSIVE]"
    using dead_leaves [OF _ assms(1)] by (fastforce simp: notify_dead_def Let_def case_prod_beta)
  have "pcie_iter (PcieTimeout p) (True, ST_WAITING_LINK, c) = Some (True, ST_OFF, c1\<lparr>first_expiration := True\<rparr>)"
    using f assms(3,4) d(1) by (simp add: pcie_iter_def pcie_event_def pcie_eval timeout_waiting_link_def modem_dead_def)
  moreover have "request (c1\<lparr>first_expiration := True\<rparr>) \<noteq> REQ_NONE" using d(2) assms(5) by (auto simp: leaves_def)
  ultimately show ?thesis
    using d(2) assms(3) msg_power_refused off_timeout_aborts(1) by (auto simp: leaves_def)
qed

definition pcie_at :: crm_hal_pcie where
  "pcie_at = pcie_conf\<lparr>daemons := replicate 2 \<lparr>dname = None, dcallback = False, dsocket = -1, msg_to_read = 0\<rparr>, request := REQ_STOP\<rparr>"

lemma pcie_at_fields: "daemon_ok pcie_at" "num_sockets pcie_at = 0" "request pcie_at = REQ_STOP" "hal_trace pcie_at = []"
  "\<not> nvm_daemon_syncing pcie_at" "\<not> backup pcie_at"
  by (simp_all add: pcie_at_def pcie_conf_def daemon_ok_def numeral_2_eq_2)

theorem pcie_unresponsive_then_aborts_witness:
  "\<exists>c'. pcie_iter (PcieTimeout pcie_env) (True, ST_WAITING_LINK, pcie_at\<lparr>timer_armed := True, first_expiration := False\<rparr>) = Some (True, ST_OFF, c') \<and>
    pcie_reports (hal_trace c') = [HAL_MDM_BUSY, HAL_MDM_UNRESPONSIVE] \<and>
    pcie_iter (PcieTimeout pcie_env) (True, ST_OFF, c') = None \<and> pcie_iter (PcieMsgs [(EV_POWER, pcie_env)]) (True, ST_OFF, c') = None"
  using pcie_unresponsive_then_aborts [of "pcie_at\<lparr>timer_armed := True, first_expiration := False\<rparr>" pcie_env pcie_env]
  by (simp add: pcie_at_fields) blast

text \<open>
  A modem that is already off, or whose link is down, when its daemons have stopped for a shutdown is
  powered off without a word: Control, which waits for it, is not told that the modem is off, the request
  stays pending, and the next power request aborts CRM.
\<close>

theorem pcie_stop_of_dead_modem_silent:
  assumes "\<not> nvm_daemon_syncing c" "\<not> backup c" "request c = REQ_STOP" "mdm_state c = EV_MDM_OFF \<or> mdm_state c = EV_MDM_LINK_DOWN"
    and "\<forall>n. ioctl_ret p n = 0"
  shows "\<exists>c'. notify_event pcie_fsm ST_STOPPING_DAEMONS EV_NVM_STOP c p = Some (ST_OFF, c') \<and>
    pcie_reports (hal_trace c') = pcie_reports (hal_trace c) \<and> \<not> timer_armed c' \<and>
    pcie_iter (PcieMsgs [(EV_POWER, q)]) (True, ST_OFF, c') = None"
proof -
  let ?c = "snd (crm_hal_stop_modem (c\<lparr>timer_armed := False\<rparr>) p)"
  have k: "request ?c = REQ_STOP" "\<not> timer_armed ?c" "pcie_reports (hal_trace ?c) = pcie_reports (hal_trace c)"
    using calm_stop_modem [of "c\<lparr>timer_armed := False\<rparr>" p] assms(3) by (simp_all add: calm_def)
  have m: "mdm_state ?c = mdm_state c" "fst (crm_hal_stop_modem (c\<lparr>timer_armed := False\<rparr>) p) = 0"
    using assms(5) by (simp_all add: crm_hal_stop_modem_def mcd_ioctl_def close_mux_def pcie_rescan_def pcie_remove_def
        pcie_disable_lpm_def pcie_force_power_on_def Let_def)
  have "notify_event pcie_fsm ST_STOPPING_DAEMONS EV_NVM_STOP c p = Some (ST_OFF, ?c\<lparr>first_expiration := True\<rparr>)"
    using assms(1-4) m by (auto simp: pcie_eval reset_or_stop_def save_calibration_def case_prod_beta)
  then show ?thesis using k msg_power_refused [of "?c\<lparr>first_expiration := True\<rparr>"] by simp
qed

theorem pcie_stop_of_dead_modem_silent_witness:
  "\<exists>c'. notify_event pcie_fsm ST_STOPPING_DAEMONS EV_NVM_STOP (pcie_at\<lparr>mdm_state := EV_MDM_OFF\<rparr>) pcie_env = Some (ST_OFF, c') \<and>
    pcie_reports (hal_trace c') = [] \<and> pcie_iter (PcieMsgs [(EV_POWER, pcie_env)]) (True, ST_OFF, c') = None"
  using pcie_stop_of_dead_modem_silent [of "pcie_at\<lparr>mdm_state := EV_MDM_OFF\<rparr>" pcie_env pcie_env]
  by (simp add: pcie_at_fields) (auto simp: pcie_env_def)

end
