(* ===== verification/Spec2Isabelle.thy ===== *)
theory Spec2Isabelle
  imports Crm_Prelude Crm_Time Crm_Ipc Crm_Fsm Crm_Wakelock Crm_Watchdog Crm_Escalation Crm_Mdmcli Crm_Wire Crm_Strings
    Crm_Telbridge Crm_Bridge Crm_Bridge_Props Crm_Text Crm_File Crm_Copy Crm_Archive Crm_Property Crm_Main Crm_Socket Crm_Factory Crm_Ifwd Crm_Upload Crm_Dump
    Crm_Custom Crm_Elector Crm_Hal_Stub Crm_System Crm_Client Crm_Client_Props Crm_Cla Crm_Cla_Props Crm_Cla_Loop Crm_Hal_Contract Crm_Hal_Sofia Crm_Hal_Sofia_Props
    Crm_Control Crm_Control_Props Crm_Daemons Crm_At Crm_Hal_Pcie Crm_Hal_Pcie_Props
begin

text \<open>
  Verification of the cellular resource manager (CRM), the daemon that starts, stops, resets and recovers the
  modem of a platform on behalf of its clients.

  \<^bold>\<open>The program.\<close> CRM is a set of plugins, each with a thread and a message pipe. The client abstraction
  (plugins/client_abstraction) serves the clients over sockets; Control (plugins/control) decides what the
  modem has to do; the HAL (plugins/hal) drives the modem, for which there are two drivers, Sofia and PCIe;
  the escalation plugin (plugins/escalation) chooses the recovery; the elector (plugins/fw_elector) chooses the firmware and
  its customization, which are written to the modem by the upload and customization plugins (plugins/fw_upload,
  plugins/customization), and the dump plugin (plugins/dump) collects the memory of a crashed modem; the watchdog (plugins/control) kills CRM
  when Control does not finish a request in time; a wakelock (libs/wakelock) keeps the platform awake. They
  share a state machine engine, thread pipes and a factory of processes (libs/utils). Clients are linked with a
  library (mdmcli) that speaks the wire protocol (plugins/mdmcli_wire) with the client abstraction. Wakelocks,
  services and intents go through a bridge of their own (bridge/c): a library, a daemon that queues the
  messages of up to three clients, and the Java application at the other end.

  \<^bold>\<open>Conventions.\<close> A function of the source is a function of the same name into \<open>option\<close>: \<open>None\<close> is a failed
  assertion, an access outside of an array, an undefined behaviour or a call that never returns; error codes
  are values. State is a record with the fields of the C structure. What a component does to the others is
  appended to a trace, a field of its state; what the operating system, the modem and the peers answer is an
  environment, an argument, indexed by the position in the trace where answers may differ. Constants of
  libmdmcli/mdm_cli.h, which is not part of the sources, are the fields of the record \<open>mdm_cli\<close>, an argument
  \<open>k\<close>; what the code relies on is \<open>mdm_cli_ok\<close>, and \<open>demo_cli\<close> satisfies it. Loops over inputs are
  recursions over the list of what \<open>poll\<close> reports, so that a theorem about all lists is a theorem about runs
  of any length; no function has fuel. Machine integers are words where they are packed, shifted, or can wrap.

  \<^bold>\<open>Theories.\<close>
  \<^item> \<open>Crm_Prelude\<close>: \<open>ASSERT\<close>, arrays with C bounds, counting, lemmas on \<open>option\<close> and lists used everywhere.
  \<^item> \<open>Crm_Time\<close> (libs/utils/src/time.c): deadlines and remaining time.
  \<^item> \<open>Crm_Ipc\<close> (ipc.c, thread.c): the ring of a thread pipe, which refines a bounded FIFO (locale
    \<open>bounded_fifo\<close>), the byte pipe between processes and its round trip, threads, and the lemmas on packed scalars.
  \<^item> \<open>Crm_Fsm\<close> (fsm.c): the engine. Locales \<open>fsm_machine\<close>, \<open>fsm_total\<close> and \<open>fsm_table\<close> state what a table has to
    satisfy and prove the rest once; the tables of the client abstraction, of Sofia and of PCIe interpret them.
  \<^item> \<open>Crm_Wakelock\<close> (libs/wakelock/java_bridge): the counters and the thread; the calls it makes to the bridge are a trace,
    and the lock they leave is in line with the counters.
  \<^item> \<open>Crm_Watchdog\<close> (plugins/control/src/watchdog.c): timers, identifiers of the requests, the thread.
  \<^item> \<open>Crm_Escalation\<close> (plugins/escalation): the recovery steps, which refine a plan (locale \<open>escalation_plugin\<close>).
  \<^item> \<open>Crm_Mdmcli\<close>, \<open>Crm_Strings\<close>: shared types; names for the logs, which abort on unknown values.
  \<^item> \<open>Crm_Wire\<close> (plugins/mdmcli_wire): serialisation with buffer bounds; round trip and robustness to any bytes.
  \<^item> \<open>Crm_Cla\<close>, \<open>Crm_Cla_Props\<close>, \<open>Crm_Cla_Loop\<close> (plugins/client_abstraction): requests, acknowledgements,
    notifications, the machine and the thread; the counters are exact in every run, and the list of clients is
    compacted by what amounts to a filter.
  \<^item> \<open>Crm_Client\<close>, \<open>Crm_Client_Props\<close> (mdmcli): the client library and, with the client abstraction at the other
    end, what CRM knows of a client after a restart, and which events reach a callback. The calls of the client and their
    answers are part of the trace, so that what CRM was told is compared with what the client asked for.
  \<^item> \<open>Crm_Hal_Contract\<close>: what Control expects of a HAL, as a monitor of its reports (locales \<open>hal_reporter\<close>,
    \<open>hal_driver\<close>).
  \<^item> \<open>Crm_Hal_Sofia\<close>, \<open>Crm_Hal_Sofia_Props\<close> (plugins/hal/sofia) and \<open>Crm_Hal_Pcie\<close>, \<open>Crm_Hal_Pcie_Props\<close>
    (plugins/hal/pcie): the two drivers; both interpret the contract, PCIe on the thread together with whether the ROM has been
    announced since it waits for a core dump (\<open>rom_once\<close>: the driver does this at most once).
  \<^item> \<open>Crm_Daemons\<close>, \<open>Crm_At\<close> (plugins/hal/common, libs/utils/src/at.c): the daemons of a HAL (locales
    \<open>daemon_client\<close>, \<open>daemon_observer\<close>), AT commands and the ping of the modem.
  \<^item> \<open>Crm_Control\<close>, \<open>Crm_Control_Props\<close> (plugins/control): the machine of Control with its replies to clients, its
    watchdog and the recovery.
  \<^item> \<open>Crm_File\<close>, \<open>Crm_Copy\<close> (libs/utils/src/file.c): reading and writing small files; copies from and to raw
    partitions and the restoration of the calibration.
  \<^item> \<open>Crm_Factory\<close> (libs/utils/src/process_factory.c): the processes of CRM; the slots refine an abstract life cycle.
  \<^item> \<open>Crm_Telbridge\<close>, \<open>Crm_Bridge\<close>, \<open>Crm_Bridge_Props\<close> (bridge/c): the library, the daemon, and both together
    with the reader of the Java application, which reads 16-bit characters of a charset that is a parameter (\<open>ascii_charset\<close>: what is
    assumed of it below 128; \<open>utf8_charset\<close>: the default of Android): a message of bytes below 128 arrives unchanged however the sockets cut it, a number with a byte above breaks
    the acknowledgement, the wakelock is held exactly while the messages of a client need it (the bytes read on a connection are kept in
    the field \<open>c_input\<close>, which the code does not have and no operation reads), and how the daemon is brought down.
  \<^item> \<open>Crm_Text\<close>: \<open>snprintf\<close>, numbers as text and their round trip, bytes and characters.
  \<^item> \<open>Crm_Archive\<close> (libs/ifwd/src/archive.c): the tar file of a dump, against a reference reader.
  \<^item> \<open>Crm_Ifwd\<close> (libs/ifwd/src/crm_ifwd.c): flashing and dump collection; the calls to the download library are a trace,
    its answers an argument.
  \<^item> \<open>Crm_Upload\<close> (plugins/fw_upload): the three upload plugins, which interpret the locale \<open>fw_uploader\<close> of what Control
    relies on, and the stub; a request goes through the factory to the process and back.
  \<^item> \<open>Crm_Dump\<close> (plugins/dump): both dump plugins; the names of the files reach the clients, the archive holds the dump.
  \<^item> \<open>Crm_Custom\<close> (plugins/customization): TLV files as AT commands, sent with \<open>crm_send_at\<close>, against a reference decoder.
  \<^item> \<open>Crm_Property\<close>, \<open>Crm_Elector\<close> (libs/utils/src/property.c, plugins/fw_elector): properties of an instance; which
    firmware is flashed and when the customization is applied again.
  \<^item> \<open>Crm_Socket\<close> (libs/utils/src/socket.c): transfers before a deadline.
  \<^item> \<open>Crm_Hal_Stub\<close> (plugins/hal/stub): the HAL without a modem, and where it breaks the contract of a HAL.
  \<^item> \<open>Crm_Main\<close> (main, plugins/control/src/init.c, libs/utils/src/plugins.c and debug.c): start and stop of CRM; a monitor
    of the life cycles of libraries and modules accepts every run.
  \<^item> \<open>Crm_System\<close>: Control with the plugins it drives: the modem is brought up end to end, and the interruptions of a
    flashing or a dump that stop CRM.
  \<^item> This theory: what spans components. Control obeys the protocol of the watchdog; what the HALs report is
    accepted by Control; requests of clients that stop CRM.

  \<^bold>\<open>What is assumed.\<close> A failed write of a message delivers nothing (\<open>Crm_Socket\<close>, where
  transfers are cut, shows that a proper prefix may be delivered). \<open>poll\<close> reports what its arguments allow. Memory is never
  exhausted, since the code asserts it. Threads of different plugins interact through their pipes only.

  \<^bold>\<open>Not modelled.\<close> The wakelock bridge in C++ (libs/wakelock/cpp_bridge) and the Java bridge (bridge/java), of which
  only the reader of messages is modelled: other languages. Logging (libs/utils/src/logs.c) formats text no component reads. The
  signal handler of main (the runs of \<open>Crm_Main\<close> are those no signal ends), the sockets and the configuration the two HALs open and read at their start, the loading of a
  library in a process of the factory and \<open>notify_client\<close> of Control, which forwards: calls of the platform with no logic of
  their own. The variants for a build on a host, libs/host_only and the test programs.
\<close>

section \<open>Control and its watchdog\<close>

text \<open>The START and STOP messages, which concern the request timer.\<close>

definition request_msgs :: "64 word list \<Rightarrow> 64 word list" where
  "request_msgs ms = filter (\<lambda>m. watchdog_get_request m \<noteq> CRM_WATCH_PONG) ms"

lemma wd_track_request_msgs: "wd_track (request_msgs ms) s = wd_track ms s"
  unfolding request_msgs_def by (induction ms s rule: wd_track.induct) auto

lemma minus_one_request: "watchdog_get_request (-1) = 255"
  by (simp add: watchdog_get_request_def)

lemma watchdog_follows_track:
  "wd_ok (wd_timer s) (wd_wakelock s) \<Longrightarrow>
   wd_track (map snd ms) (armed (wd_timer s ! 1), tid (wd_timer s ! 1)) = Some (a, i) \<Longrightarrow>
   \<forall>m \<in> set ms. watchdog_get_request (snd m) \<noteq> CRM_WATCH_PONG \<Longrightarrow>
   \<exists>s'. watchdog_msgs ping_period ms s = Some s' \<and> wd_ok (wd_timer s') (wd_wakelock s') \<and>
     armed (wd_timer s' ! 1) = a \<and> tid (wd_timer s' ! 1) = i"
proof (induction ms arbitrary: s)
  case Nil
  then show ?case by simp
next
  case (Cons m ms)
  obtain t w where m: "m = (t, w)" by force
  let ?T = "wd_timer s" and ?W = "wd_wakelock s"
  have l: "length ?T = 2" using Cons.prems(1) by (rule wd_okD)
  have r: "watchdog_get_request w = CRM_WATCH_START \<or> watchdog_get_request w = CRM_WATCH_STOP"
    using Cons.prems(2,3) m by (auto split: if_splits)
  then have "w \<noteq> -1" using minus_one_request by auto
  moreover have "\<exists>T W. handle_msg t ?T w ping_period ?W = Some (T, W) \<and> wd_ok T W \<and>
      wd_track (map snd ms) (armed (T ! 1), tid (T ! 1)) = Some (a, i)"
    using r
  proof
    assume s: "watchdog_get_request w = CRM_WATCH_START"
    then have "watchdog_get_id w = watchdog_get_new_id (tid (?T ! 1))"
      "wd_track (map snd ms) (True, watchdog_get_id w) = Some (a, i)"
      using Cons.prems(2) m by (auto split: if_splits)
    then show ?thesis
      using handle_start_ok [OF Cons.prems(1), of "watchdog_get_id w" t "watchdog_get_timeout w"] s l
      by (auto simp: handle_msg_def Let_def)
  next
    assume s: "watchdog_get_request w = CRM_WATCH_STOP"
    then have "armed (?T ! 1)" "watchdog_get_id w = tid (?T ! 1)"
      "wd_track (map snd ms) (False, tid (?T ! 1)) = Some (a, i)"
      using Cons.prems(2) m by (auto split: if_splits)
    then show ?thesis
      using handle_stop_ok [OF Cons.prems(1), of "watchdog_get_id w"] s l
      by (auto simp: handle_msg_def Let_def)
  qed
  then obtain T W where h: "handle_msg t ?T w ping_period ?W = Some (T, W)" "wd_ok T W"
    "wd_track (map snd ms) (armed (T ! 1), tid (T ! 1)) = Some (a, i)"
    by blast
  ultimately show ?case
    using Cons.IH [of "s\<lparr>wd_timer := T, wd_wakelock := W\<rparr>"] Cons.prems(3) m by auto
qed

text \<open>
  C5: Control never trips its watchdog by a wrong use. Whatever Control goes through, the START
  and STOP messages it has sent, read in order and without loss by a watchdog thread started with no lock held
  (the answers to pings, which the thread reads between them, are left out),
  pass every assertion of the watchdog, at whatever times they are read; the request timer it ends
  with is armed exactly when Control is in a state where it waits for something, and both agree on
  the current identifier.
\<close>

theorem control_respects_watchdog:
  assumes "event_loop_start (crm_ctrl_init tmo e) = Some (st0, c0)" "0 \<le> tmo"
    and "event_loop is (True, st0, c0) = Some (run, st, c)"
    and "wakelock_ok w" "count w ! 0 = 0" "count w ! 1 = 0"
    and "map snd ms = request_msgs (wd_msgs c)"
    and "crm_watchdog_start t garbage ping_period w = Some s"
  shows "\<exists>s'. watchdog_msgs ping_period ms s = Some s' \<and>
    armed (wd_timer s' ! REQ_IDX) = (st \<noteq> Crm_Control.ST_UP \<and> st \<noteq> Crm_Control.ST_DOWN) \<and>
    tid (wd_timer s' ! REQ_IDX) = watch_id c"
proof -
  have i: "ctrl_inv st c" using event_loop_inv [OF event_loop_start_inv [OF assms(1,2)] assms(3)] .
  have s: "wd_ok (wd_timer s) (wd_wakelock s)" "\<not> armed (wd_timer s ! 1)" "tid (wd_timer s ! 1) = -1"
    using assms(4-6,8) by (auto simp: crm_watchdog_start_def wd_ok_def watchdog_init_def id_ok_def)
  have "wd_track (map snd ms) (False, -1) = Some (needs_watch st, watch_id c)"
    using i assms(7) by (simp add: ctrl_inv_def wd_track_request_msgs)
  moreover have "\<forall>x \<in> set (map snd ms). watchdog_get_request x \<noteq> CRM_WATCH_PONG"
    unfolding assms(7) request_msgs_def by simp
  ultimately show ?thesis
    using watchdog_follows_track [OF s(1), of ms "needs_watch st" "watch_id c" ping_period] s(2,3)
    by (auto simp: needs_watch_def)
qed

theorem control_respects_watchdog_witness:
  "\<exists>c s'. event_loop_start demo_ctrl = Some (ST_INITIAL, c) \<and>
     watchdog_msgs 1000 (map (\<lambda>m. (\<lparr>tv_sec = 5, tv_nsec = 0\<rparr>, m)) (request_msgs (wd_msgs c)))
       \<lparr>wd_timer = watchdog_init \<lparr>tv_sec = 5, tv_nsec = 0\<rparr> wd_demo_timer 1000, wd_wakelock = wd_demo_wakelock,
        wd_run = True, wd_sent = []\<rparr> = Some s' \<and>
     armed (wd_timer s' ! REQ_IDX)"
proof -
  obtain c where c: "event_loop_start demo_ctrl = Some (ST_INITIAL, c)" using demo_start by blast
  have l: "event_loop [] (True, ST_INITIAL, c) = Some (True, ST_INITIAL, c)" by simp
  have w: "crm_watchdog_start \<lparr>tv_sec = 5, tv_nsec = 0\<rparr> wd_demo_timer 1000 wd_demo_wakelock =
      Some \<lparr>wd_timer = watchdog_init \<lparr>tv_sec = 5, tv_nsec = 0\<rparr> wd_demo_timer 1000,
        wd_wakelock = wd_demo_wakelock, wd_run = True, wd_sent = []\<rparr>"
    by (simp add: crm_watchdog_start_def)
  from control_respects_watchdog [OF c [unfolded demo_ctrl_def] _ l wd_demo_ok(1) _ _ _ w,
      of "map (\<lambda>m. (\<lparr>tv_sec = 5, tv_nsec = 0\<rparr>, m)) (request_msgs (wd_msgs c))"] c
  show ?thesis by (auto simp: wd_demo_ok comp_def)
qed

section \<open>Control and the Sofia HAL\<close>

text \<open>What Control does with a sequence of HAL events before it looks at its table.\<close>

fun ctrl_pre_ops :: "int list \<Rightarrow> crm_control_ctx \<Rightarrow> crm_control_ctx option" where
  "ctrl_pre_ops [] k = Some k"
| "ctrl_pre_ops (t # ts) k = do {
     evt \<leftarrow> get_hal_id t;
     k \<leftarrow> Crm_Control.pre_op evt k;
     ctrl_pre_ops ts k
   }"

lemma paired_pre_ops:
  "paired w ts \<Longrightarrow> w \<longrightarrow> waiting_hal_busy_reason (cstate k) \<Longrightarrow> \<exists>k'. ctrl_pre_ops ts k = Some k'"
proof (induction w ts arbitrary: k rule: paired.induct)
  case (1 w)
  then show ?case by simp
next
  case (2 w t ts)
  then show ?case by (auto simp: get_hal_id_def Crm_Control.pre_op_def split: if_splits)
qed

text \<open>
  C6: the Sofia HAL keeps the contract Control asserts. Whatever the HAL goes through, every event
  it has reported is one Control knows, and a reset, a flash, a core dump or an unresponsive modem is
  never reported without the busy event before it, so that Control, reading the reports in order,
  passes the assertion of its pre-operation at each of them.
\<close>

theorem sofia_reports_accepted_by_control:
  assumes "hal_initial c0" "crm_hal_sofia_start c0 p fs io us i w = Some (st0, c1)"
    and "\<forall>i \<in> set is. sofia_input_ok i"
    and "crm_hal_sofia_fsm is (True, st0, c1) = Some (r, st, c)"
  shows "\<exists>k'. ctrl_pre_ops (hal_reports (crm_hal_ctx.out c)) k = Some k'"
proof -
  have "paired False (hal_reports (crm_hal_ctx.out c))"
    using sofia_driver.run_contract [OF _ _ assms(3), of "(True, st0, c1)" "(r, st, c)"] sofia_start_inv [OF assms(2,1)]
      assms(4) by (simp add: sofia_fsm_run)
  then show ?thesis by (rule paired_pre_ops) simp
qed

theorem sofia_reports_accepted_by_control_witness:
  "\<exists>c1 k'. crm_hal_sofia_start sofia_demo sofia_env ''1'' (file_demo ''off'') [] 4 5 = Some (1, c1) \<and>
     ctrl_pre_ops (hal_reports (crm_hal_ctx.out c1)) demo_ctrl = Some k'"
proof -
  obtain c1 where s: "crm_hal_sofia_start sofia_demo sofia_env ''1'' (file_demo ''off'') [] 4 5 = Some (1, c1)"
    using sofia_demo_start by blast
  have "hal_initial sofia_demo" by (simp add: hal_initial_def sofia_demo_def)
  from sofia_reports_accepted_by_control [OF this s, of "[]" True 1 c1 demo_ctrl] s show ?thesis by auto
qed


section \<open>Control and the PCIe HAL\<close>

text \<open>
  C7: the PCIe HAL keeps the same contract, provided that the driver announces the ROM of a crashed modem
  at most once while the HAL waits for its core dump: from its start, through any sequence of requests,
  driver messages, time-outs and daemon connections, Control passes the assertion of its pre-operation at
  each of its reports. The dump in particular is only reported after the crash has been reported as busy.
\<close>

theorem pcie_reports_accepted_by_control:
  assumes "Crm_Hal_Pcie.crm_hal_init conf server off cal = Some c0" "crm_hal_pcie_start c0 p m ms = Some (st0, c1)"
    and "list_all pcie_input_ok is" "rom_once False is (True, st0, c1)"
    and "crm_hal_pcie_fsm is (True, st0, c1) = Some (b, st, c)"
  shows "\<exists>k'. ctrl_pre_ops (pcie_reports (hal_trace c)) k = Some k'"
  using pcie_reported [OF assms] paired_pre_ops by blast

definition pcie_crash_inputs :: "pcie_input list" where
  "pcie_crash_inputs = nvm_connects @ [PcieMsgs [(0, pcie_env)], PcieNetlink (Some (10, ''ROM_READY'')) pcie_env, PcieMsgs [(1, pcie_env)],
     PcieNetlink (Some (10, ''MDM_READY'')) pcie_env, PcieCfg 1000 (ping_good 30) mux_good (ping_good 31) pcie_env,
     PcieDaemons [(nvm_answer, pcie_env)], PcieNetlink (Some (10, ''CRASH'')) pcie_env, PcieNetlink (Some (10, ''ROM_READY'')) pcie_env]"

theorem pcie_reports_accepted_by_control_witness:
  "\<exists>c1 c k'. pcie_started = Some (0, c1) \<and>
     crm_hal_pcie_fsm pcie_crash_inputs (True, 0, c1) = Some (True, 6, c) \<and>
     last (pcie_reports (hal_trace c)) = HAL_MDM_DUMP \<and>
     ctrl_pre_ops (pcie_reports (hal_trace c)) demo_ctrl = Some k'"
proof -
  have "map_option fst pcie_started = Some 0" by code_simp
  then obtain c1 where s: "pcie_started = Some (0, c1)" by auto
  then obtain c0 where c0: "Crm_Hal_Pcie.crm_hal_init pcie_conf 3 False True = Some c0"
    "crm_hal_pcie_start c0 pcie_env pcie_mcd [Some (Some (14, ''MDM_NOT_READY''))] = Some (0, c1)"
    by (auto simp: pcie_started_def bind_Some_iff)
  let ?is = pcie_crash_inputs
  have "map_option (\<lambda>(st, c). (list_all pcie_input_ok ?is, rom_once False ?is (True, st, c),
      map_option (\<lambda>(b, st, c). (b, st, last (pcie_reports (hal_trace c)))) (crm_hal_pcie_fsm ?is (True, st, c)))) pcie_started =
    Some (True, True, Some (True, 6, HAL_MDM_DUMP))"
    by code_simp
  then obtain c where r: "list_all pcie_input_ok ?is" "rom_once False ?is (True, 0, c1)"
    "crm_hal_pcie_fsm ?is (True, 0, c1) = Some (True, 6, c)" "last (pcie_reports (hal_trace c)) = HAL_MDM_DUMP" unfolding s by auto
  from pcie_reports_accepted_by_control [OF c0 r(1-3), of demo_ctrl] s r(3,4) show ?thesis by blast
qed

section \<open>Clients, their messages and Control\<close>

text \<open>
  C39: the wire plugin accepts a message whose identifier is none of the protocol's, and the client
  abstraction then aborts on it when it names it in a log: eight bytes of any client, registered or
  not, stop CRM.
\<close>

theorem unknown_request_aborts:
  assumes "mdm_cli_ok (cla_param.cli p)" "length buf = MSG_SIZE_MAX (cla_param.cli p)"
    and "sint w \<notin> set (cli_events (cla_param.cli p))" "\<not> (MDM_NUM_EVENTS (cla_param.cli p) \<le> sint w \<and> sint w \<le> MDM_NUM_EVENTS (cla_param.cli p) + 9)"
  shows "\<exists>m. recv_msg (cla_param.cli p) buf (be_bytes w @ be_bytes 8 @ rest) = Some (Some (m, rest)) \<and>
    (\<forall>idx s. handle_client_msg p idx m s = None)"
proof -
  have "deserialize_body (cla_param.cli p) (sint w) (drop 8 buf, 0) = Some (Some NoBody, (drop 8 buf, 0))"
    using assms(3,4) by (auto simp: deserialize_body_def cli_events_def)
  from recv_header_only [OF assms(2) this] have "recv_msg (cla_param.cli p) buf (be_bytes w @ be_bytes 8 @ rest) =
      Some (Some (\<lparr>msg_id = sint w, msg = NoBody\<rparr>, rest))" .
  moreover have "crm_mdmcli_wire_req_to_string (cla_param.cli p) (sint w) = None"
    using req_named [of "cla_param.cli p" "sint w"] assms(3,4) by (cases "crm_mdmcli_wire_req_to_string (cla_param.cli p) (sint w)") auto
  ultimately show ?thesis by (auto simp: handle_client_msg_def)
qed

theorem unknown_request_aborts_witness:
  "\<exists>m. recv_msg demo_cli (replicate (MSG_SIZE_MAX demo_cli) 0) (be_bytes 200 @ be_bytes 8) = Some (Some (m, [])) \<and>
     handle_client_msg cla_demo_param 0 m (Crm_Cla.ST_UP, cla_demo_holder) = None"
  using unknown_request_aborts [of cla_demo_param "replicate (MSG_SIZE_MAX demo_cli) 0" 200 "[]"] demo_cli_ok
  by (auto simp: cla_demo_param_def demo_cli_def cli_events_def)

text \<open>
  A client that asks for a restart to apply an update and gives debug information makes CRM
  abort: the client abstraction hands both to Control, which asserts that an update has no debug
  information.
\<close>

theorem update_with_debug_aborts:
  assumes "mdm_cli_ok (cla_param.cli p)" "RESTART_APPLY_UPDATE (cla_param.cli p) \<noteq> RESTART_MDM_ERR (cla_param.cli p)" "cla_inv base Crm_Cla.ST_UP c"
    and "i < num_clients c" "\<not> bit (to_clean c) i" "registered (clients c ! i)"
    and "crm_cli_abs.restart_type c = 0" "real_modem_state c = MDM_STATE_READY" "\<not> reject_requests c"
    and "handle_client_msg p i \<lparr>msg_id = CRM_REQ_RESTART (cla_param.cli p), msg = Restart (RESTART_APPLY_UPDATE (cla_param.cli p)) (Some d)\<rparr> (Crm_Cla.ST_UP, c) =
      Some (Crm_Cla.ST_STARTING, c')"
  shows "\<exists>d'. last (crm_cli_abs.out c') = CtrlRestart CTRL_MODEM_UPDATE (Some d') \<and>
    (\<forall>dummy q. crm_ctrl_restart dummy q CTRL_MODEM_UPDATE (Some d') = None)"
proof -
  have i: "i < length (clients c)" "i < 32" using assms(3,4) by (auto simp: cla_inv_def cla_ok_def)
  have "dispatch_client_msg p i \<lparr>msg_id = CRM_REQ_RESTART (cla_param.cli p), msg = Restart (RESTART_APPLY_UPDATE (cla_param.cli p)) (Some d)\<rparr> (Crm_Cla.ST_UP, c) =
      Some (Crm_Cla.ST_STARTING, c')"
    using assms(5,6,10) i by (auto simp: handle_client_msg_def Let_def bind_Some_iff array_get_def)
  then have "handle_restart p (RESTART_APPLY_UPDATE (cla_param.cli p)) (Some d) (Crm_Cla.ST_UP, c) = Some (Crm_Cla.ST_STARTING, c')"
    by (simp add: dispatch_client_msg_def Let_def)
  then obtain c1 where c1: "copy_debug (cla_param.cli p) (Some d) (c\<lparr>restart_type := CTRL_MODEM_UPDATE\<rparr>) = Some c1"
    and n: "notify_event cla_fsm Crm_Cla.ST_UP Crm_Cla.EV_CLI_RESTART c1 p = Some (Crm_Cla.ST_STARTING, c')"
    using assms(2,7-9) by (auto simp: handle_restart_def bind_Some_iff Let_def get_restart_type_def)
  obtain d' where d': "restart_request c1 = CtrlRestart CTRL_MODEM_UPDATE (Some d')"
    using c1 by (auto simp: copy_debug_def restart_request_def Let_def)
  have s: "same_clients c c1" using c1 by (auto simp: copy_debug_def same_clients_def Let_def)
  have "client_restart c1 p = Some (Crm_Cla.ST_STARTING, c')"
    using n by (auto simp: cla_notify_eq cla_rows_def run_operation_def bind_Some_iff Crm_Cla.state_trans_def Crm_Cla.failsafe_def cla_hooks
        split: if_splits)
  moreover have "cla_ok base c1 \<and> ready c1"
    using assms(3) same_clients_ok [OF s] same_clients_ready [OF s] by (auto simp: cla_inv_def ready_def)
  ultimately have "last (crm_cli_abs.out c') = restart_request c1"
    using restart_procedure_request [of c1 p c' base] assms(1) by (simp add: client_restart_def)
  with d' show ?thesis by (simp add: crm_ctrl_restart_def)
qed


definition cla_demo_up :: crm_cli_abs where
  "cla_demo_up = cla_demo_holder\<lparr>crm_cli_abs.modem_state := MDM_STATE_READY, real_modem_state := MDM_STATE_READY\<rparr>"

theorem update_with_debug_aborts_witness:
  "\<exists>c' d'. handle_client_msg cla_demo_param 0
      \<lparr>msg_id = CRM_REQ_RESTART demo_cli, msg = Restart (RESTART_APPLY_UPDATE demo_cli) (Some (mk_dbg 1 0 0 0 []))\<rparr>
      (Crm_Cla.ST_UP, cla_demo_up) = Some (Crm_Cla.ST_STARTING, c') \<and>
    last (crm_cli_abs.out c') = CtrlRestart CTRL_MODEM_UPDATE (Some d') \<and> (\<forall>q. crm_ctrl_restart 0 q CTRL_MODEM_UPDATE (Some d') = None)"
proof -
  let ?m = "\<lparr>msg_id = CRM_REQ_RESTART (cla_param.cli cla_demo_param), msg = Restart (RESTART_APPLY_UPDATE (cla_param.cli cla_demo_param)) (Some (mk_dbg 1 0 0 0 []))\<rparr>"
  have "map_option fst (handle_client_msg cla_demo_param 0 ?m (Crm_Cla.ST_UP, cla_demo_up)) = Some Crm_Cla.ST_STARTING"
    by code_simp
  then obtain c' where h: "handle_client_msg cla_demo_param 0 ?m (Crm_Cla.ST_UP, cla_demo_up) = Some (Crm_Cla.ST_STARTING, c')"
    by auto
  have "cla_inv 0 Crm_Cla.ST_UP cla_demo_up"
    by (simp add: cla_inv_def cla_ok_def cla_demo_up_def cla_demo_holder_def crm_cli_abs_init_def zero_client_def no_flag_def)
  from update_with_debug_aborts [OF _ _ this _ _ _ _ _ _ h] demo_cli_ok h show ?thesis
    by (auto simp: cla_demo_param_def cla_demo_up_def cla_demo_holder_def crm_cli_abs_init_def demo_cli_def)
qed

end
